(* ===== verification/Prelude.thy ===== *)
theory Prelude
  imports Main "HOL-Library.AList" "HOL-Library.Sublist" "HOL-Library.Multiset"
begin

text \<open>
  Shared vocabulary of the development: results of fallible code, the JavaScript collections the
  source uses, string helpers and the stable sort, with the lemmas the components share.

  \<^item> Fallible code returns \<open>'e + 'a\<close>: \<open>Inl\<close> is the thrown error, \<open>Inr\<close> the value.
  \<^item> A JavaScript \<open>Map\<close> (and a null-prototype object used as a dictionary) is an association
    list with distinct keys: \<open>AList.update\<close> overwrites in place or appends, as \<open>Map.set\<close>
    does, \<open>AList.delete\<close> is \<open>Map.delete\<close> and \<open>map_of\<close> is \<open>Map.get\<close>.
  \<^item> A \<open>Set\<close> of strings that the code only queries is a HOL list read with \<open>List.member\<close>.
\<close>

named_theorems js_map \<open>lookup laws of the association lists that stand for JavaScript maps\<close>
named_theorems result_simps \<open>how the sum-valued operations compute\<close>

subsection \<open>Results\<close>

definition bindR :: "'e + 'a \<Rightarrow> ('a \<Rightarrow> 'e + 'b) \<Rightarrow> 'e + 'b" where
  "bindR r f = (case r of Inl e \<Rightarrow> Inl e | Inr a \<Rightarrow> f a)"

definition guardR :: "bool \<Rightarrow> 'e \<Rightarrow> 'e + unit" where
  "guardR ok e = (if ok then Inr () else Inl e)"

definition isInr :: "'e + 'a \<Rightarrow> bool" where
  "isInr r = (case r of Inl _ \<Rightarrow> False | Inr _ \<Rightarrow> True)"

lemma bindR_Inl [simp]: "bindR (Inl e) f = Inl e"
  by (simp add: bindR_def)

lemma bindR_Inr [simp]: "bindR (Inr a) f = f a"
  by (simp add: bindR_def)

lemma isInr_simps [simp]: "isInr (Inr a)" "\<not> isInr (Inl e)"
  by (simp_all add: isInr_def)

lemma bindR_eq_Inr [result_simps]:
  "bindR r f = Inr b \<longleftrightarrow> (\<exists>a. r = Inr a \<and> f a = Inr b)"
  by (cases r) auto

lemma bindR_eq_Inl [result_simps]:
  "bindR r f = Inl e \<longleftrightarrow> r = Inl e \<or> (\<exists>a. r = Inr a \<and> f a = Inl e)"
  by (cases r) auto

lemma guardR_eq_Inr [result_simps]: "guardR ok e = Inr u \<longleftrightarrow> ok"
  by (simp add: guardR_def)

lemma guardR_eq_Inl [result_simps]: "guardR ok e = Inl e' \<longleftrightarrow> \<not> ok \<and> e' = e"
  by (auto simp: guardR_def)

lemma guardR_simps [simp]: "guardR True e = Inr ()" "guardR False e = Inl e"
  by (simp_all add: guardR_def)

lemma bindR_cong [fundef_cong]:
  "r = r' \<Longrightarrow> (\<And>a. r' = Inr a \<Longrightarrow> f a = f' a) \<Longrightarrow> bindR r f = bindR r' f'"
  by (cases r') auto

subsection \<open>JavaScript maps as association lists\<close>

lemma map_of_update [js_map]: "map_of (AList.update k v m) = (map_of m)(k \<mapsto> v)"
  by (rule ext) (simp add: AList.update_conv)

lemma map_of_delete [js_map]: "map_of (AList.delete k m) = (map_of m)(k := None)"
  by (rule ext) (simp add: AList.delete_conv)

lemma update_new: "map_of m k = None \<Longrightarrow> AList.update k v m = m @ [(k, v)]"
  by (induction m) (auto split: if_splits)

lemma delete_absent: "map_of m k = None \<Longrightarrow> AList.delete k m = m"
  by (induction m) (auto split: if_splits)

lemma delete_update_new: "map_of m k = None \<Longrightarrow> AList.delete k (AList.update k v m) = m"
  by (simp add: update_new delete_absent AList.delete_eq filter_empty_conv)
     (induction m; auto split: if_splits)

lemma update_update_same: "AList.update k v (AList.update k w m) = AList.update k v m"
  by (induction m) auto

lemma update_restore: "map_of m k = Some v \<Longrightarrow> AList.update k v (AList.update k w m) = m"
  by (induction m) (auto split: if_splits)

lemma set_update_subset: "set (AList.update k v m) \<subseteq> insert (k, v) (set m)"
  by (induction m) auto

lemma update_same: "map_of m k = Some v \<Longrightarrow> AList.update k v m = m"
  by (induction m) (auto split: if_splits)

lemma map_of_mem_values: "map_of m k = Some v \<Longrightarrow> v \<in> snd ` set m"
  by (metis map_of_SomeD snd_conv image_eqI)

subsection \<open>Strings\<close>

definition startsWith :: "string \<Rightarrow> string \<Rightarrow> bool" where
  "startsWith s p = (take (length p) s = p)"

fun join :: "string \<Rightarrow> string list \<Rightarrow> string" where
  "join sep [] = []"
| "join sep [x] = x"
| "join sep (x # y # xs) = x @ sep @ join sep (y # xs)"

text \<open>White space as \<open>\s\<close> and \<open>trimEnd\<close> see it, among the characters up to code 255.\<close>

definition is_space :: "char \<Rightarrow> bool" where
  "is_space c = (let n = of_char c :: nat in 9 \<le> n \<and> n \<le> 13 \<or> n = 32 \<or> n = 160)"

definition trimEnd :: "string \<Rightarrow> string" where
  "trimEnd s = rev (dropWhile is_space (rev s))"

definition trim :: "string \<Rightarrow> string" where
  "trim s = trimEnd (dropWhile is_space s)"

text \<open>A text in single quotes, as the error messages show identifiers.\<close>

definition quoted :: "string \<Rightarrow> string" where
  "quoted s = CHR 0x27 # s @ [CHR 0x27]"

lemma startsWith_self [simp]: "startsWith (p @ s) p"
  by (simp add: startsWith_def)

lemma startsWith_iff: "startsWith s p \<longleftrightarrow> (\<exists>t. s = p @ t)"
  by (metis startsWith_def startsWith_self append_take_drop_id)

lemma join_Cons: "xs \<noteq> [] \<Longrightarrow> join sep (x # xs) = x @ sep @ join sep xs"
  by (cases xs) auto

subsection \<open>Decimal numerals\<close>

definition digit_char :: "nat \<Rightarrow> char" where
  "digit_char d = char_of (48 + d)"

definition is_digit :: "char \<Rightarrow> bool" where
  "is_digit c = (48 \<le> (of_char c :: nat) \<and> (of_char c :: nat) \<le> 57)"

definition digit_val :: "char \<Rightarrow> nat" where
  "digit_val c = of_char c - 48"

fun show_nat :: "nat \<Rightarrow> string" where
  "show_nat n = (if n < 10 then [digit_char n] else show_nat (n div 10) @ [digit_char (n mod 10)])"

declare show_nat.simps [simp del]

definition read_nat :: "string \<Rightarrow> nat" where
  "read_nat = foldl (\<lambda>acc c. 10 * acc + digit_val c) 0"

definition show_int :: "int \<Rightarrow> string" where
  "show_int i = (if i < 0 then CHR ''-'' # show_nat (nat (- i)) else show_nat (nat i))"

lemma digit_val_char [simp]: "d < 10 \<Longrightarrow> digit_val (digit_char d) = d"
  by (simp add: digit_val_def digit_char_def of_char_of)

lemma is_digit_char [simp]: "d < 10 \<Longrightarrow> is_digit (digit_char d)"
  by (simp add: is_digit_def digit_char_def of_char_of)

lemma read_show_nat [simp]: "read_nat (show_nat n) = n"
proof (induction n rule: show_nat.induct)
  case (1 n)
  then show ?case
    by (cases "n < 10") (simp_all add: show_nat.simps [of n] read_nat_def)
qed

lemma show_nat_digits: "c \<in> set (show_nat n) \<Longrightarrow> is_digit c"
proof (induction n rule: show_nat.induct)
  case (1 n)
  then show ?case
    by (cases "n < 10") (auto simp: show_nat.simps [of n])
qed

lemma show_nat_nonempty [simp]: "show_nat n \<noteq> []"
  by (simp add: show_nat.simps [of n])

lemma show_nat_inj [simp]: "show_nat m = show_nat n \<longleftrightarrow> m = n"
  by (metis read_show_nat)

subsection \<open>Stable sort\<close>

text \<open>\<open>Array.prototype.sort\<close> is stable; insertion from the right is the stable sort.\<close>

fun insort_by :: "('a \<Rightarrow> 'a \<Rightarrow> bool) \<Rightarrow> 'a \<Rightarrow> 'a list \<Rightarrow> 'a list" where
  "insort_by le x [] = [x]"
| "insort_by le x (y # ys) = (if le x y then x # y # ys else y # insort_by le x ys)"

definition stable_sort :: "('a \<Rightarrow> 'a \<Rightarrow> bool) \<Rightarrow> 'a list \<Rightarrow> 'a list" where
  "stable_sort le xs = foldr (insort_by le) xs []"

lemma stable_sort_simps [simp]:
  "stable_sort le [] = []"
  "stable_sort le (x # xs) = insort_by le x (stable_sort le xs)"
  by (simp_all add: stable_sort_def)

lemma set_insort_by [simp]: "set (insort_by le x xs) = insert x (set xs)"
  by (induction xs) auto

lemma set_stable_sort [simp, termination_simp]: "set (stable_sort le xs) = set xs"
  by (induction xs) auto

lemma mset_insort_by [simp]: "mset (insort_by le x xs) = add_mset x (mset xs)"
  by (induction xs) auto

lemma mset_stable_sort [simp]: "mset (stable_sort le xs) = mset xs"
  by (induction xs) auto

lemma length_stable_sort [simp]: "length (stable_sort le xs) = length xs"
  by (metis mset_stable_sort size_mset)

lemma sorted_wrt_insort_by:
  assumes "\<And>a b. le a b \<or> le b a" and "\<And>a b c. le a b \<Longrightarrow> le b c \<Longrightarrow> le a c"
  shows "sorted_wrt le xs \<Longrightarrow> sorted_wrt le (insort_by le x xs)"
proof (induction xs)
  case (Cons y ys)
  then show ?case using assms(1) [of x y] by (auto intro: assms(2))
qed simp

lemma sorted_stable_sort:
  assumes "\<And>a b. le a b \<or> le b a" and "\<And>a b c. le a b \<Longrightarrow> le b c \<Longrightarrow> le a c"
  shows "sorted_wrt le (stable_sort le xs)"
  by (induction xs) (simp_all add: sorted_wrt_insort_by [OF assms])

lemma sorted_mset_unique:
  assumes "sorted_wrt le xs" and "sorted_wrt le ys" and "mset xs = mset ys"
    and "\<And>a b. a \<in> set xs \<Longrightarrow> b \<in> set xs \<Longrightarrow> le a b \<Longrightarrow> le b a \<Longrightarrow> a = b"
  shows "xs = ys"
  using assms
proof (induction xs arbitrary: ys)
  case (Cons x xs)
  from Cons.prems(3) obtain y ys' where ys: "ys = y # ys'" by (cases ys) auto
  have sets: "set (x # xs) = set (y # ys')" using Cons.prems(3) ys by (metis set_mset_mset)
  have "x = y"
  proof (rule ccontr)
    assume ne: "x \<noteq> y"
    with sets have "y \<in> set xs" and "x \<in> set ys'" by auto
    with Cons.prems(1,2) ys have "le x y" and "le y x" by auto
    with Cons.prems(4) [of x y] \<open>y \<in> set xs\<close> ne show False by simp
  qed
  moreover have "xs = ys'"
    using Cons.prems ys \<open>x = y\<close> by (intro Cons.IH) auto
  ultimately show ?case using ys by simp
qed simp

lemma map_insort_by:
  "map f (insort_by (\<lambda>a b. le (f a) (f b)) x xs) = insort_by le (f x) (map f xs)"
  by (induction xs) auto

lemma map_stable_sort:
  "map f (stable_sort (\<lambda>a b. le (f a) (f b)) xs) = stable_sort le (map f xs)"
  by (induction xs) (simp_all add: map_insort_by)

subsection \<open>Contiguous integer ranges\<close>

fun counts_from :: "int \<Rightarrow> int list \<Rightarrow> bool" where
  "counts_from n [] = True"
| "counts_from n (x # xs) = (x = n \<and> counts_from (n + 1) xs)"

lemma counts_from_append [simp]:
  "counts_from n (xs @ ys) \<longleftrightarrow> counts_from n xs \<and> counts_from (n + int (length xs)) ys"
  by (induction xs arbitrary: n) (auto simp: add.assoc)

lemma counts_from_nth: "counts_from n xs \<Longrightarrow> i < length xs \<Longrightarrow> xs ! i = n + int i"
  by (induction xs arbitrary: n i) (auto simp: nth_Cons split: nat.splits)

lemma counts_from_iff_nth: "counts_from n xs \<longleftrightarrow> (\<forall>i < length xs. xs ! i = n + int i)"
proof (induction xs arbitrary: n)
  case (Cons x xs)
  have "(\<forall>i < length (x # xs). (x # xs) ! i = n + int i)
      \<longleftrightarrow> x = n \<and> (\<forall>i < length xs. xs ! i = n + 1 + int i)"
    by (auto simp: All_less_Suc2 add.assoc)
  with Cons.IH [of "n + 1"] show ?case by simp
qed simp

lemma counts_from_set: "counts_from n xs \<Longrightarrow> set xs = {n ..< n + int (length xs)}"
  by (induction xs arbitrary: n) auto

lemma counts_from_distinct: "counts_from n xs \<Longrightarrow> distinct xs"
proof (induction xs arbitrary: n)
  case (Cons x xs)
  then show ?case using counts_from_set [of "n + 1" xs] by auto
qed simp

lemma counts_from_drop: "counts_from n xs \<Longrightarrow> counts_from (n + int k) (drop k xs)"
proof (induction k arbitrary: n xs)
  case (Suc k)
  then show ?case by (cases xs) (auto simp: algebra_simps dest: Suc.IH)
qed simp

lemma counts_from_last: "counts_from n xs \<Longrightarrow> xs \<noteq> [] \<Longrightarrow> last xs = n + int (length xs) - 1"
  by (simp add: last_conv_nth counts_from_nth of_nat_diff Suc_leI)


subsection \<open>Runs of a stateful operation\<close>

fun run_ops :: "('op \<Rightarrow> 'm \<Rightarrow> 'r \<times> 'm) \<Rightarrow> 'op list \<Rightarrow> 'm \<Rightarrow> 'r list \<times> 'm" where
  "run_ops step [] m = ([], m)"
| "run_ops step (x # xs) m =
     (let (r, m') = step x m; (rs, m'') = run_ops step xs m' in (r # rs, m''))"

definition occurrences :: "'k \<Rightarrow> 'k option list \<Rightarrow> int" where
  "occurrences k rs = int (length (filter (\<lambda>r. r = Some k) rs))"

lemma occurrences_simps [simp]:
  "occurrences k [] = 0" "occurrences k (r # rs) = (if r = Some k then 1 else 0) + occurrences k rs"
  by (simp_all add: occurrences_def)

text \<open>
  A \<^emph>\<open>metered authority\<close> decides operations one by one: a granted operation is charged to a key, an
  operation that is blocked is refused and stays blocked whatever else happens.
\<close>

locale metered_authority =
  fixes step :: "'op \<Rightarrow> 'm \<Rightarrow> 'k option \<times> 'm"
    and charged :: "'m \<Rightarrow> 'k \<Rightarrow> int"
    and blocked :: "'op \<Rightarrow> 'm \<Rightarrow> bool"
  assumes charged_step: "charged (snd (step x m)) k = charged m k + (if fst (step x m) = Some k then 1 else 0)"
    and blocked_refused: "blocked x m \<Longrightarrow> fst (step x m) = None"
    and blocked_stays: "blocked x m \<Longrightarrow> blocked x (snd (step y m))"
begin

lemma charged_run: "charged (snd (run_ops step xs m)) k = charged m k + occurrences k (fst (run_ops step xs m))"
proof (induction xs arbitrary: m)
  case (Cons x xs)
  then show ?case
    using charged_step [of x m k] by (auto simp: split_def Let_def)
qed simp

lemma blocked_run: "blocked x m \<Longrightarrow> blocked x (snd (run_ops step xs m))"
  by (induction xs arbitrary: m) (auto simp: split_def Let_def blocked_stays)

lemma blocked_forever: "blocked x m \<Longrightarrow> fst (step x (snd (run_ops step xs m))) = None"
  by (simp add: blocked_run blocked_refused)

end

end
