(* ===== verification/Posix_Path.thy ===== *)
theory Posix_Path
  imports Prelude
begin

text \<open>
  The part of Node's \<open>path\<close> module (POSIX) the runner's containment checks rely on, and the check they
  share: a path is inside a root when \<open>relative(root, path)\<close> is empty, or neither starts with two
  dots nor is absolute (\<open>assertPathInsideWorkspace\<close> and \<open>assertResolvedPathInsideRoot\<close> under
  \<open>packages/hcp-runner/src/local-actions\<close>).  A resolved path is a list of segments.
\<close>

subsection \<open>Paths and segments\<close>

fun split_on :: "char \<Rightarrow> string \<Rightarrow> string list" where
  "split_on c [] = [[]]"
| "split_on c (x # xs) =
     (if x = c then [] # split_on c xs
      else (case split_on c xs of [] \<Rightarrow> [[x]] | y # ys \<Rightarrow> (x # y) # ys))"

definition isAbsolute :: "string \<Rightarrow> bool" where
  "isAbsolute p = (case p of [] \<Rightarrow> False | c # _ \<Rightarrow> c = CHR ''/'')"

definition push_segment :: "string list \<Rightarrow> string \<Rightarrow> string list" where
  "push_segment acc seg =
     (if seg = [] \<or> seg = ''.'' then acc else if seg = ''..'' then butlast acc else acc @ [seg])"

definition path_segments :: "string \<Rightarrow> string list" where
  "path_segments p = foldl push_segment [] (split_on CHR ''/'' p)"

definition path_text :: "string list \<Rightarrow> string" where
  "path_text segs = CHR ''/'' # join ''/'' segs"

text \<open>\<open>resolve(base, p)\<close> for an absolute base.\<close>

definition resolve_path :: "string \<Rightarrow> string \<Rightarrow> string" where
  "resolve_path base p = path_text (path_segments (if isAbsolute p then p else base @ ''/'' @ p))"

text \<open>
  \<open>dirname\<close> cuts the text at its last separator (trailing separators and the one at index 0 do not
  count) and normalises nothing.
\<close>

definition dirname :: "string \<Rightarrow> string" where
  "dirname p =
     (let upto = dropWhile (\<lambda>c. c \<noteq> CHR ''/'') (dropWhile (\<lambda>c. c = CHR ''/'') (rev (tl p))) in
      if upto = [] then (if isAbsolute p then ''/'' else ''.'')
      else if isAbsolute p \<and> length upto = 1 then ''//''
      else hd p # rev (tl upto))"

text \<open>\<open>relative(from, to)\<close> of two absolute paths.\<close>

definition relative_segments :: "string list \<Rightarrow> string list \<Rightarrow> string list" where
  "relative_segments f t =
     (let n = length (longest_common_prefix f t) in replicate (length f - n) ''..'' @ drop n t)"

definition relative_path :: "string \<Rightarrow> string \<Rightarrow> string" where
  "relative_path f t = join ''/'' (relative_segments (path_segments f) (path_segments t))"

definition inside_root :: "string \<Rightarrow> string \<Rightarrow> bool" where
  "inside_root root p =
     (let r = relative_path root p in r = [] \<or> \<not> startsWith r ''..'' \<and> \<not> isAbsolute r)"

subsection \<open>Segments of a normalised path\<close>

definition proper_segment :: "string \<Rightarrow> bool" where
  "proper_segment s \<longleftrightarrow> s \<noteq> [] \<and> s \<noteq> ''.'' \<and> s \<noteq> ''..'' \<and> CHR ''/'' \<notin> set s"

lemma split_on_segments: "s \<in> set (split_on c p) \<Longrightarrow> c \<notin> set s"
proof (induction p arbitrary: s)
  case (Cons x xs)
  then show ?case by (cases "split_on c xs") (auto split: if_splits)
qed simp

lemma foldl_push_proper:
  assumes "\<forall>s \<in> set acc. proper_segment s" and "\<forall>s \<in> set segs. CHR ''/'' \<notin> set s"
  shows "\<forall>s \<in> set (foldl push_segment acc segs). proper_segment s"
  using assms
proof (induction segs arbitrary: acc)
  case (Cons s segs)
  have "\<forall>s \<in> set (push_segment acc s). proper_segment s"
    using Cons.prems by (auto simp: push_segment_def proper_segment_def dest: in_set_butlastD)
  with Cons show ?case by simp
qed simp

lemma path_segments_proper: "s \<in> set (path_segments p) \<Longrightarrow> proper_segment s"
  using foldl_push_proper [of "[]" "split_on CHR ''/'' p"] by (auto simp: path_segments_def dest: split_on_segments)

lemma split_on_nonempty [simp]: "split_on c p \<noteq> []"
  by (cases p) (auto split: list.splits)

lemma split_on_append: "c \<notin> set s \<Longrightarrow> split_on c (s @ c # rest) = s # split_on c rest"
  by (induction s) auto

lemma split_on_single: "c \<notin> set s \<Longrightarrow> split_on c s = [s]"
  by (induction s) auto

lemma split_on_join: "segs \<noteq> [] \<Longrightarrow> \<forall>s \<in> set segs. c \<notin> set s \<Longrightarrow> split_on c (join [c] segs) = segs"
proof (induction segs)
  case (Cons s segs)
  then show ?case by (cases segs) (simp_all add: split_on_append split_on_single)
qed simp

lemma foldl_push_all: "\<forall>s \<in> set segs. proper_segment s \<Longrightarrow> foldl push_segment acc segs = acc @ segs"
  by (induction segs arbitrary: acc) (simp_all add: push_segment_def proper_segment_def)

text \<open>Reading back the text of normalised segments gives the segments.\<close>

lemma path_segments_text:
  assumes "\<forall>s \<in> set segs. proper_segment s"
  shows "path_segments (path_text segs) = segs"
proof (cases "segs = []")
  case True
  then show ?thesis by (simp add: path_segments_def path_text_def push_segment_def)
next
  case False
  have "split_on CHR ''/'' (join ''/'' segs) = segs"
    using assms False by (intro split_on_join) (auto simp: proper_segment_def)
  then show ?thesis
    using foldl_push_all [OF assms, of "[]"]
    by (simp add: path_segments_def path_text_def push_segment_def)
qed

lemma path_segments_resolve:
  "path_segments (resolve_path base p) = path_segments (if isAbsolute p then p else base @ ''/'' @ p)"
  by (simp add: resolve_path_def path_segments_text path_segments_proper)

lemma split_on_concat: "split_on c (p @ c # q) = split_on c p @ split_on c q"
proof (induction p)
  case (Cons x xs)
  then show ?case by (cases "split_on c xs") auto
qed simp

text \<open>Resolving below a base walks from the base's segments.\<close>

lemma path_segments_below:
  "path_segments (base @ ''/'' @ p) = foldl push_segment (path_segments base) (split_on CHR ''/'' p)"
  by (simp add: path_segments_def split_on_concat)

subsection \<open>What the containment check accepts\<close>

lemma join_proper:
  assumes "proper_segment s"
  shows "join ''/'' (s # ss) \<noteq> []" "\<not> isAbsolute (join ''/'' (s # ss))"
    "startsWith (join ''/'' (s # ss)) ''..'' \<longleftrightarrow> startsWith s ''..''"
proof -
  obtain c cs where s: "s = c # cs" "c \<noteq> CHR ''/''" using assms by (cases s) (auto simp: proper_segment_def)
  obtain rest where j: "join ''/'' (s # ss) = s @ rest" "rest = [] \<or> hd rest = CHR ''/''"
    by (cases ss) auto
  show "join ''/'' (s # ss) \<noteq> []" "\<not> isAbsolute (join ''/'' (s # ss))"
    using s j by (auto simp: isAbsolute_def)
  show "startsWith (join ''/'' (s # ss)) ''..'' \<longleftrightarrow> startsWith s ''..''"
  proof (cases cs)
    case Nil
    then show ?thesis using s j by (cases rest) (auto simp: startsWith_def)
  next
    case (Cons d ds)
    then show ?thesis using s j by (simp add: startsWith_def)
  qed
qed

lemma join_dotdot: "startsWith (join ''/'' (''..'' # ss)) ''..''"
  by (cases ss) (simp_all add: startsWith_def)

lemma lcp_of_prefix: "prefix f t \<Longrightarrow> longest_common_prefix f t = f"
proof (induction f arbitrary: t)
  case (Cons x f)
  then show ?case by (cases t) auto
qed simp

lemma lcp_short: "\<not> prefix f t \<Longrightarrow> length (longest_common_prefix f t) < length f"
  by (induction f t rule: longest_common_prefix.induct) auto

text \<open>
  The check accepts a path exactly when the root's segments are a prefix of its segments and the
  first segment below the root does not start with two dots.
\<close>

lemma inside_root_iff:
  "inside_root root p \<longleftrightarrow>
     (\<exists>rest. path_segments p = path_segments root @ rest \<and> (rest = [] \<or> \<not> startsWith (hd rest) ''..''))"
proof (cases "prefix (path_segments root) (path_segments p)")
  case True
  then obtain rest where rest: "path_segments p = path_segments root @ rest" by (auto simp: prefix_def)
  have r: "relative_path root p = join ''/'' rest"
    using True by (simp add: relative_path_def relative_segments_def Let_def lcp_of_prefix rest)
  show ?thesis
  proof (cases rest)
    case (Cons s ss)
    then have "proper_segment s" using path_segments_proper [of s p] rest by simp
    then show ?thesis using r rest Cons by (simp add: inside_root_def join_proper)
  qed (use r rest in \<open>simp add: inside_root_def\<close>)
next
  case False
  let ?f = "path_segments root" and ?t = "path_segments p"
  obtain k where "length ?f - length (longest_common_prefix ?f ?t) = Suc k"
    using lcp_short [OF False] by (metis Suc_diff_Suc)
  then have "\<exists>ss. relative_segments ?f ?t = ''..'' # ss"
    by (simp add: relative_segments_def Let_def)
  then have up: "startsWith (relative_path root p) ''..''"
    using join_dotdot by (auto simp: relative_path_def)
  then have "relative_path root p \<noteq> []" by (auto simp: startsWith_def)
  with up False show ?thesis by (auto simp: inside_root_def prefix_def)
qed

lemma inside_root_prefix: "inside_root root p \<Longrightarrow> prefix (path_segments root) (path_segments p)"
  by (auto simp: inside_root_iff)

lemma inside_root_self [simp]: "inside_root root root"
  by (simp add: inside_root_iff)

end
