(* ===== verification/File_System.thy ===== *)
theory File_System
  imports Posix_Path
begin

text \<open>
  The file system the runner acts on, and Node's \<open>fs\<close> calls on it by their POSIX behaviour: a finite
  tree of files, directories and symbolic links, as an association list from absolute segment lists
  to nodes.  A path handed to a call is resolved by walking its segments as they are written, so a
  \<open>..\<close> behind a link leads to the parent of the link's target; links are followed at most
  \<open>MAXSYMLINKS\<close> times.  A call is atomic: nothing else changes the tree while an action runs.
\<close>

subsection \<open>The tree\<close>

datatype node = File string | Dir | Symlink string

type_synonym fs = "(string list \<times> node) list"

datatype errno = ENOENT | ENOTDIR | ELOOP | EEXIST | EISDIR

datatype walk_result = Found "string list" | Missing "string list" | Fails errno

definition MAXSYMLINKS :: nat where
  "MAXSYMLINKS = 40"

text \<open>
  \<open>Missing q\<close>: everything up to the last segment exists and only \<open>q\<close> itself does not, which is where
  a creating call creates.
\<close>

fun walk :: "fs \<Rightarrow> nat \<Rightarrow> string list \<Rightarrow> string list \<Rightarrow> walk_result" where
  "walk t n cur [] = Found cur"
| "walk t n cur (s # rest) =
     (if s = [] \<or> s = ''.'' then walk t n cur rest
      else if s = ''..'' then walk t n (butlast cur) rest
      else case map_of t (cur @ [s]) of
             None \<Rightarrow> if rest = [] then Missing (cur @ [s]) else Fails ENOENT
           | Some Dir \<Rightarrow> walk t n (cur @ [s]) rest
           | Some (File _) \<Rightarrow> if rest = [] then Found (cur @ [s]) else Fails ENOTDIR
           | Some (Symlink target) \<Rightarrow>
               (case n of 0 \<Rightarrow> Fails ELOOP
                | Suc n' \<Rightarrow> walk t n' (if isAbsolute target then [] else cur) (split_on CHR ''/'' target @ rest)))"

definition walk_path :: "fs \<Rightarrow> string \<Rightarrow> walk_result" where
  "walk_path t p = walk t MAXSYMLINKS [] (split_on CHR ''/'' p)"

subsection \<open>Calls\<close>

definition fs_realpath :: "fs \<Rightarrow> string \<Rightarrow> errno + string" where
  "fs_realpath t p =
     (case walk_path t p of Found q \<Rightarrow> Inr (path_text q) | Missing _ \<Rightarrow> Inl ENOENT | Fails e \<Rightarrow> Inl e)"

definition fs_readFile :: "fs \<Rightarrow> string \<Rightarrow> errno + string" where
  "fs_readFile t p =
     (case walk_path t p of
        Found q \<Rightarrow> (case map_of t q of Some (File b) \<Rightarrow> Inr b | _ \<Rightarrow> Inl EISDIR)
      | Missing _ \<Rightarrow> Inl ENOENT
      | Fails e \<Rightarrow> Inl e)"

definition fs_writeFile :: "fs \<Rightarrow> string \<Rightarrow> string \<Rightarrow> errno + fs" where
  "fs_writeFile t p b =
     (case walk_path t p of
        Found q \<Rightarrow> (case map_of t q of Some (File _) \<Rightarrow> Inr (AList.update q (File b) t) | _ \<Rightarrow> Inl EISDIR)
      | Missing q \<Rightarrow> Inr (AList.update q (File b) t)
      | Fails e \<Rightarrow> Inl e)"

text \<open>\<open>lstat\<close> follows every link but one in the last segment.\<close>

definition fs_lstat :: "fs \<Rightarrow> string \<Rightarrow> errno + node" where
  "fs_lstat t p =
     (let segs = split_on CHR ''/'' p; s = last segs in
      if s = [] \<or> s = ''.'' \<or> s = ''..'' then
        (case walk_path t p of
           Found q \<Rightarrow> (case map_of t q of Some nd \<Rightarrow> Inr nd | None \<Rightarrow> Inl ENOENT)
         | Missing _ \<Rightarrow> Inl ENOENT
         | Fails e \<Rightarrow> Inl e)
      else
        (case walk t MAXSYMLINKS [] (butlast segs) of
           Found d \<Rightarrow>
             (if map_of t d = Some Dir
              then (case map_of t (d @ [s]) of Some nd \<Rightarrow> Inr nd | None \<Rightarrow> Inl ENOENT)
              else Inl ENOTDIR)
         | Missing _ \<Rightarrow> Inl ENOENT
         | Fails e \<Rightarrow> Inl e))"

text \<open>
  \<open>mkdir(p, {recursive: true})\<close> creates the missing directories from the outside in, each resolved
  through what exists by then, and leaves those it made when it fails.
\<close>

fun make_dirs :: "fs \<Rightarrow> string list \<Rightarrow> string list \<Rightarrow> fs \<times> errno option" where
  "make_dirs t cur [] = (t, None)"
| "make_dirs t cur (s # rest) =
     (if s = [] \<or> s = ''.'' then make_dirs t cur rest
      else if s = ''..'' then make_dirs t (butlast cur) rest
      else case map_of t (cur @ [s]) of
             None \<Rightarrow> make_dirs (AList.update (cur @ [s]) Dir t) (cur @ [s]) rest
           | Some Dir \<Rightarrow> make_dirs t (cur @ [s]) rest
           | Some (File _) \<Rightarrow> (t, Some (if rest = [] then EEXIST else ENOTDIR))
           | Some (Symlink _) \<Rightarrow>
               (case walk t MAXSYMLINKS cur [s] of
                  Found d \<Rightarrow> if map_of t d = Some Dir then make_dirs t d rest else (t, Some ENOTDIR)
                | Missing _ \<Rightarrow> (t, Some ENOENT)
                | Fails e \<Rightarrow> (t, Some e)))"

definition fs_mkdir :: "fs \<Rightarrow> string \<Rightarrow> fs \<times> errno option" where
  "fs_mkdir t p = make_dirs t [] (split_on CHR ''/'' p)"

definition fs_rm :: "fs \<Rightarrow> string \<Rightarrow> errno + fs" where
  "fs_rm t p =
     (let segs = path_segments p in
      if map_of t segs = None then Inl ENOENT
      else Inr (filter (\<lambda>(q, _). \<not> prefix segs q) t))"

definition fs_readdir :: "fs \<Rightarrow> string list \<Rightarrow> (string \<times> node) list" where
  "fs_readdir t d =
     List.map_filter (\<lambda>(q, nd). if q \<noteq> [] \<and> butlast q = d then Some (last q, nd) else None) t"

subsection \<open>Well-formed trees\<close>

definition wf_fs :: "fs \<Rightarrow> bool" where
  "wf_fs t \<longleftrightarrow> map_of t [] = Some Dir
     \<and> (\<forall>p s. map_of t (p @ [s]) \<noteq> None \<longrightarrow> map_of t p = Some Dir \<and> proper_segment s)"

definition resolved :: "fs \<Rightarrow> string list \<Rightarrow> bool" where
  "resolved t q \<longleftrightarrow> map_of t q = Some Dir \<or> (\<exists>b. map_of t q = Some (File b))"

lemma wf_fs_parent: "wf_fs t \<Longrightarrow> map_of t (p @ [s]) \<noteq> None \<Longrightarrow> map_of t p = Some Dir"
  and wf_fs_segment: "wf_fs t \<Longrightarrow> map_of t (p @ [s]) \<noteq> None \<Longrightarrow> proper_segment s"
  by (auto simp: wf_fs_def)

lemma wf_fs_butlast: "wf_fs t \<Longrightarrow> map_of t q = Some Dir \<Longrightarrow> map_of t (butlast q) = Some Dir"
  using wf_fs_parent [of t "butlast q" "last q"] by (cases "q = []") auto

lemma wf_fs_prefix:
  assumes "wf_fs t" and "map_of t (p @ r) \<noteq> None" and "r \<noteq> []"
  shows "map_of t p = Some Dir"
  using assms(2,3)
proof (induction r rule: rev_induct)
  case (snoc s r)
  then have "map_of t (p @ r) = Some Dir" using wf_fs_parent [OF assms(1), of "p @ r" s] by simp
  with snoc.IH show ?case by (cases r) auto
qed simp

lemma wf_fs_proper:
  assumes "wf_fs t" and "map_of t q \<noteq> None" and "s \<in> set q"
  shows "proper_segment s"
proof -
  obtain p r where "q = (p @ [s]) @ r" using assms(3) by (auto simp: in_set_conv_decomp)
  then have "map_of t (p @ [s]) \<noteq> None"
    using assms(1,2) wf_fs_prefix [of t "p @ [s]" r] by (cases "r = []") auto
  with assms(1) show ?thesis by (rule wf_fs_segment)
qed

lemma wf_fs_update:
  assumes "wf_fs t" and "map_of t p = Some Dir" and "proper_segment s"
    and "\<And>r. map_of t (p @ [s]) = Some Dir \<Longrightarrow> nd = Dir"
  shows "wf_fs (AList.update (p @ [s]) nd t)"
proof -
  let ?t' = "AList.update (p @ [s]) nd t"
  have look: "map_of ?t' x = (if x = p @ [s] then Some nd else map_of t x)" for x
    by (simp add: js_map)
  have "map_of ?t' q = Some Dir \<and> proper_segment u" if ne: "map_of ?t' (q @ [u]) \<noteq> None" for q u
  proof (cases "q @ [u] = p @ [s]")
    case True
    then show ?thesis using assms(2,3) look by simp
  next
    case False
    then have "map_of t (q @ [u]) \<noteq> None" using ne look [of "q @ [u]"] by (simp split: if_splits)
    then have "map_of t q = Some Dir \<and> proper_segment u" using assms(1) by (simp add: wf_fs_def)
    then show ?thesis using look assms(4) by auto
  qed
  moreover have "map_of ?t' [] = Some Dir" using assms(1) look by (simp add: wf_fs_def)
  ultimately show ?thesis by (simp add: wf_fs_def)
qed

lemma walk_outcome:
  assumes "wf_fs t" and "map_of t cur = Some Dir" and "\<forall>s \<in> set rest. CHR ''/'' \<notin> set s"
  shows "case walk t n cur rest of
      Found q \<Rightarrow> resolved t q
    | Missing q \<Rightarrow> q \<noteq> [] \<and> map_of t (butlast q) = Some Dir \<and> map_of t q = None \<and> proper_segment (last q)
    | Fails e \<Rightarrow> True"
  using assms
proof (induction t n cur rest rule: walk.induct)
  case (1 t n cur)
  then show ?case by (simp add: resolved_def)
next
  case (2 t n cur s rest)
  show ?case
  proof (cases "s = [] \<or> s = ''.'' \<or> s = ''..''")
    case True
    then show ?thesis using 2 by (auto simp: wf_fs_butlast)
  next
    case False
    then have ps: "proper_segment s" using "2.prems"(3) by (simp add: proper_segment_def)
    show ?thesis
    proof (cases "map_of t (cur @ [s])")
      case None
      then show ?thesis using False ps "2.prems"(2) by simp
    next
      case (Some nd)
      show ?thesis
      proof (cases nd)
        case (File b)
        then show ?thesis using False Some by (simp add: resolved_def)
      next
        case Dir
        then show ?thesis using False Some 2 by simp
      next
        case (Symlink target)
        have "map_of t [] = Some Dir" using "2.prems"(1) by (simp add: wf_fs_def)
        then have cur: "map_of t (if isAbsolute target then [] else cur) = Some Dir"
          using "2.prems"(2) by simp
        have segs: "\<forall>s \<in> set (split_on CHR ''/'' target @ rest). CHR ''/'' \<notin> set s"
          using "2.prems"(3) split_on_segments by auto
        show ?thesis
        proof (cases n)
          case 0
          then show ?thesis using False Some Symlink by simp
        next
          case (Suc n')
          have "s \<noteq> []" "s \<noteq> ''.''" "s \<noteq> ''..''" using False by simp_all
          from "2.IH"(4) [OF _ _ Some Symlink Suc "2.prems"(1) cur segs] this
          show ?thesis using Some Symlink Suc by simp
        qed
      qed
    qed
  qed
qed

text \<open>A path without links and dots resolves to itself.\<close>

lemma walk_direct:
  assumes "wf_fs t" and "resolved t (cur @ segs)"
  shows "walk t n cur segs = Found (cur @ segs)"
  using assms(2)
proof (induction segs arbitrary: cur)
  case (Cons s segs)
  have nn: "map_of t ((cur @ [s]) @ segs) \<noteq> None" using Cons.prems by (auto simp: resolved_def)
  then have "proper_segment s" using wf_fs_proper [OF assms(1) nn] by simp
  then have sep: "s \<noteq> []" "s \<noteq> ''.''" "s \<noteq> ''..''" by (simp_all add: proper_segment_def)
  show ?case
  proof (cases segs)
    case Nil
    then show ?thesis using Cons.prems sep by (auto simp: resolved_def)
  next
    case (Cons u us)
    then have "map_of t (cur @ [s]) = Some Dir" using wf_fs_prefix [OF assms(1) nn] by simp
    then show ?thesis using Cons.IH [of "cur @ [s]"] Cons.prems sep by simp
  qed
qed simp

lemma walk_new:
  assumes "wf_fs t" and "map_of t (cur @ segs) = Some Dir" and "map_of t (cur @ segs @ [s]) = None" and "proper_segment s"
  shows "walk t n cur (segs @ [s]) = Missing (cur @ segs @ [s])"
  using assms(2,3)
proof (induction segs arbitrary: cur)
  case Nil
  then show ?case using assms(4) by (simp add: proper_segment_def)
next
  case (Cons u segs)
  have nn: "map_of t ((cur @ [u]) @ segs) \<noteq> None" using Cons.prems by simp
  then have "proper_segment u" using wf_fs_proper [OF assms(1) nn] by simp
  then have sep: "u \<noteq> []" "u \<noteq> ''.''" "u \<noteq> ''..''" by (simp_all add: proper_segment_def)
  have "map_of t (cur @ [u]) = Some Dir"
    using wf_fs_prefix [OF assms(1) nn] Cons.prems by (cases segs) auto
  then show ?case using Cons.IH [of "cur @ [u]"] Cons.prems sep by simp
qed

subsection \<open>Calls on resolved paths\<close>

lemma resolved_proper: "wf_fs t \<Longrightarrow> resolved t q \<Longrightarrow> \<forall>s \<in> set q. proper_segment s"
  using wf_fs_proper by (auto simp: resolved_def)

lemma split_path_text:
  assumes "\<forall>s \<in> set q. proper_segment s"
  shows "split_on CHR ''/'' (path_text q) = [] # (if q = [] then [[]] else q)"
proof (cases "q = []")
  case False
  then have "split_on CHR ''/'' (join ''/'' q) = q"
    using assms by (intro split_on_join) (auto simp: proper_segment_def)
  then show ?thesis using False by (simp add: path_text_def)
qed (simp add: path_text_def)

lemma walk_path_text:
  assumes "\<forall>s \<in> set q. proper_segment s"
  shows "walk_path t (path_text q) = walk t MAXSYMLINKS [] q"
  using split_path_text [OF assms] by (auto simp: walk_path_def)

lemma walk_path_resolved: "wf_fs t \<Longrightarrow> resolved t q \<Longrightarrow> walk_path t (path_text q) = Found q"
  by (simp add: walk_path_text resolved_proper walk_direct)

lemma walk_path_outcome:
  assumes "wf_fs t"
  shows "case walk_path t p of
      Found q \<Rightarrow> resolved t q
    | Missing q \<Rightarrow> q \<noteq> [] \<and> map_of t (butlast q) = Some Dir \<and> map_of t q = None \<and> proper_segment (last q)
    | Fails e \<Rightarrow> True"
  using assms split_on_segments unfolding walk_path_def
  by (intro walk_outcome) (auto simp: wf_fs_def)

lemma fs_realpath_Inr:
  assumes "wf_fs t" and "fs_realpath t p = Inr r"
  obtains q where "walk_path t p = Found q" "r = path_text q" "resolved t q" "path_segments r = q"
    "walk_path t r = Found q"
proof -
  obtain q where q: "walk_path t p = Found q" "r = path_text q"
    using assms(2) by (auto simp: fs_realpath_def split: walk_result.splits)
  then have "resolved t q" using walk_path_outcome [OF assms(1), of p] by simp
  with q assms(1) show ?thesis
    using that by (simp add: path_segments_text resolved_proper walk_path_resolved)
qed


subsection \<open>Walks in parts\<close>

text \<open>One segment's effect on a walk, and the induction that goes with it.\<close>

datatype walk_next = Go nat "string list" "string list" | At_file "string list" | Nothing_at "string list" | Too_many

definition walk_next :: "fs \<Rightarrow> nat \<Rightarrow> string list \<Rightarrow> string \<Rightarrow> walk_next" where
  "walk_next t n cur s =
     (if s = [] \<or> s = ''.'' then Go n cur []
      else if s = ''..'' then Go n (butlast cur) []
      else case map_of t (cur @ [s]) of
             None \<Rightarrow> Nothing_at (cur @ [s])
           | Some Dir \<Rightarrow> Go n (cur @ [s]) []
           | Some (File _) \<Rightarrow> At_file (cur @ [s])
           | Some (Symlink target) \<Rightarrow>
               (case n of 0 \<Rightarrow> Too_many
                | Suc n' \<Rightarrow> Go n' (if isAbsolute target then [] else cur) (split_on CHR ''/'' target)))"

lemma walk_Cons:
  "walk t n cur (s # rest) =
     (case walk_next t n cur s of
        Go n' cur' pre \<Rightarrow> walk t n' cur' (pre @ rest)
      | At_file q \<Rightarrow> if rest = [] then Found q else Fails ENOTDIR
      | Nothing_at q \<Rightarrow> if rest = [] then Missing q else Fails ENOENT
      | Too_many \<Rightarrow> Fails ELOOP)"
  by (auto simp: walk_next_def split: option.split node.split nat.split)

lemma walk_next_Go:
  assumes "walk_next t n cur s = Go n' cur' pre"
  shows "n' < n \<or> n' = n \<and> pre = []" and "n' \<le> n"
    and "wf_fs t \<Longrightarrow> map_of t cur = Some Dir \<Longrightarrow> map_of t cur' = Some Dir"
    and "x \<in> set pre \<Longrightarrow> CHR ''/'' \<notin> set x"
    and "walk_next t (n + k) cur s = Go (n' + k) cur' pre"
  using assms split_on_segments
  by (auto simp: walk_next_def wf_fs_def wf_fs_butlast split: if_splits option.splits node.splits nat.splits)

lemma walk_next_Found: "walk_next t n cur s = At_file q \<Longrightarrow> \<exists>b. map_of t q = Some (File b)"
  by (auto simp: walk_next_def split: if_splits option.splits node.splits nat.splits)

lemma walk_next_more:
  "walk_next t n cur s = At_file q \<Longrightarrow> walk_next t (n + k) cur s = At_file q"
  "walk_next t n cur s = Nothing_at q \<Longrightarrow> walk_next t (n + k) cur s = Nothing_at q"
  by (auto simp: walk_next_def split: if_splits option.splits node.splits nat.splits)

text \<open>A tree that has grown: everything is still there, with the same kind and link targets.\<close>

fun same_kind :: "node \<Rightarrow> node \<Rightarrow> bool" where
  "same_kind Dir nd = (nd = Dir)"
| "same_kind (Symlink l) nd = (nd = Symlink l)"
| "same_kind (File b) nd = (\<exists>c. nd = File c)"

definition grown :: "fs \<Rightarrow> fs \<Rightarrow> bool" where
  "grown t t' \<longleftrightarrow> (\<forall>p nd. map_of t p = Some nd \<longrightarrow> (\<exists>nd'. map_of t' p = Some nd' \<and> same_kind nd nd'))"

lemma same_kind_refl [simp]: "same_kind nd nd"
  by (cases nd) simp_all

lemma map_le_grown: "map_of t \<subseteq>\<^sub>m map_of t' \<Longrightarrow> grown t t'"
  by (force simp: grown_def map_le_def dom_def)

lemma grown_update_file: "map_of t q = Some (File b0) \<Longrightarrow> grown t (AList.update q (File b) t)"
  by (auto simp: grown_def js_map)

lemma grown_refl [simp]: "grown t t"
  by (auto simp: grown_def)

lemma grown_trans:
  assumes "grown t t'" and "grown t' t''"
  shows "grown t t''"
  unfolding grown_def
proof (intro allI impI)
  fix p nd
  assume "map_of t p = Some nd"
  then obtain nd' where "map_of t' p = Some nd'" "same_kind nd nd'" using assms(1) by (auto simp: grown_def)
  moreover then obtain nd'' where "map_of t'' p = Some nd''" "same_kind nd' nd''"
    using assms(2) by (auto simp: grown_def)
  ultimately show "\<exists>nd''. map_of t'' p = Some nd'' \<and> same_kind nd nd''"
    by (cases nd; cases nd') auto
qed

lemma walk_next_larger:
  assumes "grown t t'" and "walk_next t n cur s = x" and "\<forall>q. x \<noteq> Nothing_at q"
  shows "walk_next t' n cur s = x"
proof (cases "map_of t (cur @ [s])")
  case None
  then show ?thesis using assms(2,3) by (auto simp: walk_next_def split: if_splits)
next
  case (Some nd)
  then obtain nd' where "map_of t' (cur @ [s]) = Some nd'" "same_kind nd nd'"
    using assms(1) by (auto simp: grown_def)
  with Some assms(2) show ?thesis by (cases nd) (auto simp: walk_next_def)
qed

lemma walk_induct [case_names Nil Cons]:
  assumes "\<And>n cur. P n cur []"
    and "\<And>n cur s rest. (\<And>n' cur' pre. walk_next t n cur s = Go n' cur' pre \<Longrightarrow> P n' cur' (pre @ rest)) \<Longrightarrow> P n cur (s # rest)"
  shows "P n cur xs"
proof (induction n arbitrary: cur xs rule: less_induct)
  case (less n cur xs)
  show ?case
  proof (induction xs arbitrary: cur)
    case Nil
    then show ?case by (rule assms(1))
  next
    case (Cons s rest)
    show ?case
    proof (rule assms(2))
      fix n' cur' pre
      assume "walk_next t n cur s = Go n' cur' pre"
      from walk_next_Go(1) [OF this] show "P n' cur' (pre @ rest)"
        using less.IH Cons.IH by auto
    qed
  qed
qed

lemma walk_append_dir:
  assumes "walk t n cur xs = Found d" and "map_of t d = Some Dir"
  shows "\<exists>m \<le> n. \<forall>ys. walk t n cur (xs @ ys) = walk t m d ys"
  using assms(1)
proof (induction n cur xs rule: walk_induct [of _ t])
  case (Cons n cur s rest)
  show ?case
  proof (cases "walk_next t n cur s")
    case (Go n' cur' pre)
    then obtain m where "m \<le> n'" "\<forall>ys. walk t n' cur' ((pre @ rest) @ ys) = walk t m d ys"
      using Cons.IH [OF Go] Cons.prems by (auto simp: walk_Cons simp del: walk.simps)
    then show ?thesis
      using Go walk_next_Go(2) [OF Go] by (intro exI [of _ m]) (simp add: walk_Cons del: walk.simps)
  next
    case (At_file q)
    then show ?thesis
      using Cons.prems assms(2) walk_next_Found [OF At_file] by (auto simp: walk_Cons simp del: walk.simps split: if_splits)
  qed (use Cons.prems in \<open>auto simp: walk_Cons simp del: walk.simps split: if_splits\<close>)
qed auto

lemma walk_append_stuck:
  assumes "walk t n cur xs = Missing q \<and> e = ENOENT \<or> walk t n cur xs = Fails e" and "ys \<noteq> []"
  shows "walk t n cur (xs @ ys) = Fails e"
  using assms(1)
proof (induction n cur xs rule: walk_induct [of _ t])
  case (Cons n cur s rest)
  show ?case
  proof (cases "walk_next t n cur s")
    case (Go n' cur' pre)
    then show ?thesis using Cons.IH [OF Go] Cons.prems by (simp add: walk_Cons del: walk.simps)
  qed (use Cons.prems assms(2) in \<open>auto simp: walk_Cons simp del: walk.simps split: if_splits\<close>)
qed simp

lemma walk_append_file:
  assumes "walk t n cur xs = Found q" and "map_of t q = Some (File b)" and "map_of t cur = Some Dir" and "wf_fs t"
    and "ys \<noteq> []"
  shows "walk t n cur (xs @ ys) = Fails ENOTDIR"
  using assms(1,3)
proof (induction n cur xs rule: walk_induct [of _ t])
  case Nil
  then show ?case using assms(2) by simp
next
  case (Cons n cur s rest)
  show ?case
  proof (cases "walk_next t n cur s")
    case (Go n' cur' pre)
    then show ?thesis
      using Cons.IH [OF Go] Cons.prems walk_next_Go(3) [OF Go assms(4)] by (simp add: walk_Cons del: walk.simps)
  qed (use Cons.prems assms(5) in \<open>auto simp: walk_Cons simp del: walk.simps split: if_splits\<close>)
qed

text \<open>A walk that does not run out of links is the same with more of them, and in a larger tree.\<close>

lemma walk_more_add: "walk t n cur xs = r \<Longrightarrow> r \<noteq> Fails ELOOP \<Longrightarrow> walk t (n + k) cur xs = r"
proof (induction n cur xs rule: walk_induct [of _ t])
  case (Cons n cur s rest)
  then show ?case
    by (cases "walk_next t n cur s")
       (auto simp: walk_Cons walk_next_Go(5) walk_next_more simp del: walk.simps)
qed simp

lemma walk_more: "walk t n cur xs = r \<Longrightarrow> r \<noteq> Fails ELOOP \<Longrightarrow> n \<le> n' \<Longrightarrow> walk t n' cur xs = r"
  using walk_more_add [of t n cur xs r "n' - n"] by simp

lemma walk_larger:
  assumes "grown t t'"
  shows "walk t n cur xs = Found d \<Longrightarrow> walk t' n cur xs = Found d"
proof (induction n cur xs rule: walk_induct [of _ t])
  case (Cons n cur s rest)
  then show ?case
    using walk_next_larger [OF assms, of n cur s]
    by (cases "walk_next t n cur s") (auto simp: walk_Cons simp del: walk.simps split: if_splits)
qed simp

lemma walk_prefix_found:
  assumes "walk t n cur (xs @ ys) = Found d" and "map_of t cur = Some Dir" and "wf_fs t"
    and "\<forall>s \<in> set xs. CHR ''/'' \<notin> set s"
  shows "\<exists>d1 m. m \<le> n \<and> walk t n cur xs = Found d1 \<and> walk t m d1 ys = Found d
    \<and> (ys \<noteq> [] \<longrightarrow> map_of t d1 = Some Dir)"
proof (cases "ys = []")
  case True
  then show ?thesis using assms(1) by auto
next
  case False
  show ?thesis
  proof (cases "walk t n cur xs")
    case (Found d1)
    then have "resolved t d1" using walk_outcome [OF assms(3,2,4), of n] by simp
    then have "map_of t d1 = Some Dir"
      using walk_append_file [OF Found _ assms(2,3) False] assms(1) by (auto simp: resolved_def)
    then show ?thesis using walk_append_dir [OF Found] assms(1) Found by (metis (full_types))
  next
    case (Missing q)
    then show ?thesis using walk_append_stuck [of t n cur xs q ENOENT ys] False assms(1) by simp
  next
    case (Fails e)
    then show ?thesis using walk_append_stuck [of t n cur xs _ e ys] False assms(1) by simp
  qed
qed

subsection \<open>Creating directories\<close>

text \<open>Along a path that exists nothing is created.\<close>

lemma make_dirs_through:
  assumes "walk t n cur ps = Found d" and "map_of t d = Some Dir" and "map_of t cur = Some Dir" and "wf_fs t"
    and "n \<le> MAXSYMLINKS"
  shows "make_dirs t cur (ps @ more) = make_dirs t d more"
  using assms
proof (induction ps arbitrary: n cur)
  case (Cons s ps)
  show ?case
  proof (cases "s = [] \<or> s = ''.'' \<or> s = ''..''")
    case True
    then show ?thesis using Cons wf_fs_butlast [of t cur] by auto
  next
    case False
    then show ?thesis
    proof (cases "map_of t (cur @ [s])")
      case None
      then show ?thesis using False Cons.prems(1) by (simp split: if_splits)
    next
      case (Some nd)
      show ?thesis
      proof (cases nd)
        case (File b)
        then show ?thesis using False Some Cons.prems by (auto split: if_splits)
      next
        case Dir
        then show ?thesis using False Some Cons by auto
      next
        case (Symlink target)
        show ?thesis
        proof (cases n)
          case 0
          then show ?thesis using False Some Symlink Cons.prems(1) by simp
        next
          case (Suc n')
          let ?base = "if isAbsolute target then [] else cur"
          have base: "map_of t ?base = Some Dir" using Cons.prems(3,4) by (simp add: wf_fs_def)
          have "walk t n' ?base (split_on CHR ''/'' target @ ps) = Found d"
            using False Some Symlink Suc Cons.prems(1) by simp
          then obtain d1 m where d1: "m \<le> n'" "walk t n' ?base (split_on CHR ''/'' target) = Found d1"
            "walk t m d1 ps = Found d" "ps \<noteq> [] \<longrightarrow> map_of t d1 = Some Dir"
            using walk_prefix_found [OF _ base Cons.prems(4)] split_on_segments by blast
          then have dir: "map_of t d1 = Some Dir" using Cons.prems(2) by (cases ps) auto
          obtain k where k: "MAXSYMLINKS = Suc k" by (cases MAXSYMLINKS) (simp_all add: MAXSYMLINKS_def)
          have "walk_next t MAXSYMLINKS cur s = Go k ?base (split_on CHR ''/'' target)"
            using False Some Symlink by (simp add: walk_next_def k)
          moreover have "walk t k ?base (split_on CHR ''/'' target) = Found d1"
            using walk_more [OF d1(2), of k] Cons.prems(5) Suc k by simp
          ultimately have "walk t MAXSYMLINKS cur [s] = Found d1"
            by (simp add: walk_Cons del: walk.simps)
          then have "make_dirs t cur ((s # ps) @ more) = make_dirs t d1 (ps @ more)"
            using False Some Symlink dir by (simp del: walk.simps)
          then show ?thesis
            using dir d1(1,3) Cons.IH [of m d1] Cons.prems(2,4,5) Suc by (simp del: make_dirs.simps)
        qed
      qed
    qed
  qed
qed simp

definition confined :: "string list \<Rightarrow> fs \<Rightarrow> fs \<Rightarrow> bool" where
  "confined rt t t' \<longleftrightarrow> (\<forall>p. \<not> prefix rt p \<longrightarrow> map_of t' p = map_of t p)"

lemma confined_refl [simp]: "confined rt t t"
  by (simp add: confined_def)

lemma confined_trans: "confined rt t t' \<Longrightarrow> confined rt t' t'' \<Longrightarrow> confined rt t t''"
  by (simp add: confined_def)

lemma confined_update: "prefix rt q \<Longrightarrow> confined rt t (AList.update q nd t)"
  by (auto simp: confined_def js_map)

lemma confined_weaken: "confined rt' t t' \<Longrightarrow> prefix rt rt' \<Longrightarrow> confined rt t t'"
  by (meson confined_def prefix_order.trans)

text \<open>Below a directory where the first segment is new, everything is created as written.\<close>

lemma make_dirs_fresh:
  assumes "wf_fs t" and "map_of t cur = Some Dir" and "map_of t (cur @ [s]) = None"
    and "\<forall>x \<in> set (s # rest). proper_segment x"
  shows "\<exists>t'. make_dirs t cur (s # rest) = (t', None) \<and> wf_fs t' \<and> map_of t \<subseteq>\<^sub>m map_of t'
    \<and> map_of t' (cur @ s # rest) = Some Dir \<and> confined cur t t'
    \<and> (\<forall>x. map_of t' (cur @ s # rest @ [x]) = None)"
  using assms
proof (induction rest arbitrary: t cur s)
  case Nil
  let ?t' = "AList.update (cur @ [s]) Dir t"
  have "map_of t (cur @ [s, x]) = None" for x
    using wf_fs_parent [OF Nil(1), of "cur @ [s]" x] Nil(3) by (cases "map_of t (cur @ [s, x])") auto
  then show ?case
    using Nil wf_fs_update [of t cur s Dir]
    by (auto simp: proper_segment_def js_map map_le_def intro!: confined_update)
next
  case (Cons u rest)
  let ?t1 = "AList.update (cur @ [s]) Dir t"
  have t1: "wf_fs ?t1" "map_of ?t1 (cur @ [s]) = Some Dir"
    using Cons.prems wf_fs_update [of t cur s Dir] by (auto simp: js_map)
  have "map_of t (cur @ [s, u]) = None"
    using wf_fs_parent [OF Cons.prems(1), of "cur @ [s]" u] Cons.prems(3)
    by (cases "map_of t (cur @ [s, u])") auto
  then have "map_of ?t1 ((cur @ [s]) @ [u]) = None" by (simp add: js_map)
  from Cons.IH [OF t1 this] Cons.prems(4) obtain t' where
    t': "make_dirs ?t1 (cur @ [s]) (u # rest) = (t', None)" "wf_fs t'" "map_of ?t1 \<subseteq>\<^sub>m map_of t'"
      "map_of t' (cur @ s # u # rest) = Some Dir" "confined (cur @ [s]) ?t1 t'"
      "\<forall>x. map_of t' (cur @ s # u # rest @ [x]) = None"
    by auto
  have "make_dirs t cur (s # u # rest) = (t', None)"
    using t'(1) Cons.prems(3,4) by (simp add: proper_segment_def)
  moreover have "map_of t \<subseteq>\<^sub>m map_of t'"
    using t'(3) Cons.prems(3) by (auto simp: map_le_def js_map dom_def split: if_splits)
  moreover have "confined cur t t'"
    using confined_trans [OF confined_update confined_weaken [OF t'(5)]] by simp
  ultimately show ?case using t' by auto
qed

end
