(* ===== verification/Json.thy ===== *)
theory Json
  imports Prelude
begin

text \<open>
  JSON values and the canonical rendering the program compares and hashes them by:
  \<open>canonicalStringify\<close> of the session reducer and \<open>stableStringify\<close> of the runner connection.

  The values the code calls \<open>unknown\<close> or \<open>Record<string, unknown>\<close> are the datatype \<open>json\<close>; an
  object is its list of entries in insertion order, as \<open>Object.entries\<close> returns it, and an absent
  optional field has no entry.  Numbers are the integers: every number the modelled code computes
  with is one, and the others are only carried along.  \<open>localeCompare\<close> depends on the ICU data of
  the host, so it is the parameter \<open>le\<close>; where a result needs it, the hypothesis says what is
  relied on.
\<close>

datatype json =
    JNull
  | JBool bool
  | JNum int
  | JStr string
  | JArr "json list"
  | JObj "(string \<times> json) list"

subsection \<open>JSON string literals\<close>

definition hex_char :: "nat \<Rightarrow> char" where
  "hex_char d = (if d < 10 then char_of (48 + d) else char_of (87 + d))"

definition json_escape_char :: "char \<Rightarrow> string" where
  "json_escape_char c =
     (if c = CHR 0x22 then [CHR 0x5C, CHR 0x22]
      else if c = CHR 0x5C then [CHR 0x5C, CHR 0x5C]
      else if c = CHR 0x08 then [CHR 0x5C, CHR ''b'']
      else if c = CHR 0x0C then [CHR 0x5C, CHR ''f'']
      else if c = CHR 0x0A then [CHR 0x5C, CHR ''n'']
      else if c = CHR 0x0D then [CHR 0x5C, CHR ''r'']
      else if c = CHR 0x09 then [CHR 0x5C, CHR ''t'']
      else if (of_char c :: nat) < 32
        then [CHR 0x5C, CHR ''u'', CHR ''0'', CHR ''0'',
              hex_char (of_char c div 16), hex_char (of_char c mod 16)]
      else [c])"

definition json_string :: "string \<Rightarrow> string" where
  "json_string s = CHR 0x22 # concat (map json_escape_char s) @ [CHR 0x22]"

subsection \<open>The canonical rendering\<close>

definition key_le :: "(string \<Rightarrow> string \<Rightarrow> bool) \<Rightarrow> string \<times> 'a \<Rightarrow> string \<times> 'a \<Rightarrow> bool" where
  "key_le le a b = le (fst a) (fst b)"

lemma size_json_entry [termination_simp]: "(k, v) \<in> set kvs \<Longrightarrow> size v < Suc (size_list (size_prod (\<lambda>_. 0) size) kvs)"
  by (induction kvs) auto

fun canonicalStringify :: "(string \<Rightarrow> string \<Rightarrow> bool) \<Rightarrow> json \<Rightarrow> string" where
  "canonicalStringify le JNull = ''null''"
| "canonicalStringify le (JBool b) = (if b then ''true'' else ''false'')"
| "canonicalStringify le (JNum i) = show_int i"
| "canonicalStringify le (JStr s) = json_string s"
| "canonicalStringify le (JArr vs) = ''['' @ join '','' (map (canonicalStringify le) vs) @ '']''"
| "canonicalStringify le (JObj kvs) =
     ''{'' @ join '','' (map (\<lambda>(k, v). json_string k @ '':'' @ canonicalStringify le v)
                            (stable_sort (key_le le) kvs)) @ ''}''"

text \<open>The runner connection has its own copy of the same function.\<close>

definition stableStringify :: "(string \<Rightarrow> string \<Rightarrow> bool) \<Rightarrow> json \<Rightarrow> string" where
  "stableStringify = canonicalStringify"

text \<open>Sorting the keys of every object first, and the rendering that keeps the order it finds.\<close>

fun norm_json :: "(string \<Rightarrow> string \<Rightarrow> bool) \<Rightarrow> json \<Rightarrow> json" where
  "norm_json le (JArr vs) = JArr (map (norm_json le) vs)"
| "norm_json le (JObj kvs) =
     JObj (map (\<lambda>(k, v). (k, norm_json le v)) (stable_sort (key_le le) kvs))"
| "norm_json le v = v"

fun render :: "json \<Rightarrow> string" where
  "render JNull = ''null''"
| "render (JBool b) = (if b then ''true'' else ''false'')"
| "render (JNum i) = show_int i"
| "render (JStr s) = json_string s"
| "render (JArr vs) = ''['' @ join '','' (map render vs) @ '']''"
| "render (JObj kvs) =
     ''{'' @ join '','' (map (\<lambda>(k, v). json_string k @ '':'' @ render v) kvs) @ ''}''"

lemma canonicalStringify_render: "canonicalStringify le v = render (norm_json le v)"
proof (induction le v rule: canonicalStringify.induct)
  case (6 le kvs)
  then show ?case by (auto simp: comp_def split_def intro!: arg_cong [where f = "join _"])
qed (auto intro!: arg_cong [where f = "join _"] simp: comp_def)

subsection \<open>The rendering is a prefix code\<close>

text \<open>
  What follows a rendered value never starts with a digit (it is a comma, a closing bracket or
  the end of the text), which is what delimits numbers.
\<close>

definition delim :: "string \<Rightarrow> bool" where
  "delim r = (case r of [] \<Rightarrow> True | c # _ \<Rightarrow> \<not> is_digit c)"

lemma delim_simps [simp]: "delim []" "delim (c # r) \<longleftrightarrow> \<not> is_digit c"
  by (simp_all add: delim_def)

lemma not_digit_punct [simp]:
  "\<not> is_digit (CHR '','')" "\<not> is_digit (CHR '']'')" "\<not> is_digit (CHR ''}'')" "\<not> is_digit (CHR ''-'')"
  "\<not> is_digit (CHR ''n'')" "\<not> is_digit (CHR ''t'')" "\<not> is_digit (CHR ''f'')" "\<not> is_digit (CHR 0x22)"
  "\<not> is_digit (CHR ''['')" "\<not> is_digit (CHR ''{'')"
  by (simp_all add: is_digit_def)

lemma digits_prefix:
  assumes "xs @ r = ys @ s" and "\<forall>c \<in> set xs. is_digit c" and "\<forall>c \<in> set ys. is_digit c"
    and "delim r" and "delim s"
  shows "xs = ys \<and> r = s"
  using assms
proof (induction xs arbitrary: ys)
  case Nil
  then show ?case by (cases ys) auto
next
  case (Cons x xs)
  then show ?case by (cases ys) auto
qed

lemma show_nat_prefix:
  assumes "show_nat m @ r = show_nat n @ s" and "delim r" and "delim s"
  shows "m = n \<and> r = s"
  using digits_prefix [OF assms(1)] assms(2,3) by (auto dest: show_nat_digits)

lemma show_nat_hd: "show_nat n = c # cs \<Longrightarrow> is_digit c"
  by (metis list.set_intros(1) show_nat_digits)

lemma show_int_prefix:
  assumes "show_int i @ r = show_int j @ s" and "delim r" and "delim s"
  shows "i = j \<and> r = s"
proof -
  have aux: "\<not> is_digit (CHR ''-'')" by simp
  have hd_ne: "show_nat n @ t \<noteq> CHR ''-'' # u" for n t u
    using show_nat_hd [of n] aux by (cases "show_nat n") auto
  show ?thesis
    using assms hd_ne hd_ne [symmetric]
    by (auto simp: show_int_def split: if_splits dest!: show_nat_prefix)
qed

lemma hex_char_inj: "a < 16 \<Longrightarrow> b < 16 \<Longrightarrow> hex_char a = hex_char b \<Longrightarrow> a = b"
proof -
  assume ab: "a < 16" "b < 16" "hex_char a = hex_char b"
  have val: "of_char (hex_char d) = (if d < 10 then 48 + d else 87 + d)" if "d < 16" for d :: nat
    using that by (auto simp: hex_char_def of_char_of)
  have "(of_char (hex_char a) :: nat) = of_char (hex_char b)" using ab(3) by simp
  then show "a = b" using val [OF ab(1)] val [OF ab(2)] ab(1,2) by (auto split: if_splits)
qed

lemma low_char_inj:
  assumes "(of_char c :: nat) < 32" and "(of_char d :: nat) < 32"
    and "hex_char (of_char c div 16) = hex_char (of_char d div 16)"
    and "hex_char (of_char c mod 16) = hex_char (of_char d mod 16)"
  shows "c = d"
proof -
  have "(of_char c :: nat) div 16 = of_char d div 16"
    using assms by (intro hex_char_inj) auto
  moreover have "(of_char c :: nat) mod 16 = of_char d mod 16"
    using assms by (intro hex_char_inj) auto
  ultimately have "(of_char c :: nat) = of_char d" by (metis div_mult_mod_eq)
  then show ?thesis by simp
qed

lemma escape_prefix:
  "json_escape_char c @ r = json_escape_char d @ s \<Longrightarrow> c = d \<and> r = s"
  by (auto simp: json_escape_char_def dest: low_char_inj split: if_splits)

lemma escape_not_quote:
  "json_escape_char c @ r \<noteq> CHR 0x22 # s" "CHR 0x22 # s \<noteq> json_escape_char c @ r"
  by (auto simp: json_escape_char_def split: if_splits)

lemma json_string_prefix:
  assumes "json_string a @ r = json_string b @ s"
  shows "a = b \<and> r = s"
proof -
  have "concat (map json_escape_char a) @ CHR 0x22 # r = concat (map json_escape_char b) @ CHR 0x22 # s"
    using assms by (simp add: json_string_def)
  then show ?thesis
  proof (induction a arbitrary: b)
    case Nil
    then show ?case
      by (cases b) (simp_all add: escape_not_quote)
  next
    case (Cons c cs)
    then show ?case
      by (cases b) (auto simp: escape_not_quote dest!: escape_prefix)
  qed
qed

definition list_tail :: "char \<Rightarrow> ('a \<Rightarrow> string) \<Rightarrow> 'a list \<Rightarrow> string \<Rightarrow> string" where
  "list_tail cl f xs r = (if xs = [] then cl # r else CHR '','' # join '','' (map f xs) @ cl # r)"

lemma join_list_tail: "join '','' (map f (x # xs)) @ cl # r = f x @ list_tail cl f xs r"
  by (cases xs) (simp_all add: list_tail_def)

lemma delim_list_tail: "\<not> is_digit cl \<Longrightarrow> delim (list_tail cl f xs r)"
  by (simp add: list_tail_def)

lemma join_prefix:
  assumes cl: "\<not> is_digit cl" "cl \<noteq> CHR '',''"
    and open_char: "\<And>y t u. f y @ t \<noteq> cl # u"
    and item: "\<And>x y r s. x \<in> set xs \<Longrightarrow> f x @ r = f y @ s \<Longrightarrow> delim r \<Longrightarrow> delim s \<Longrightarrow> x = y \<and> r = s"
    and eq: "join '','' (map f xs) @ cl # r = join '','' (map f ys) @ cl # s"
  shows "xs = ys \<and> r = s"
  using item eq
proof (induction xs arbitrary: ys)
  case Nil
  then show ?case
    by (cases ys) (auto simp: join_list_tail open_char [symmetric] simp del: list.map(2))
next
  case (Cons x xs)
  show ?case
  proof (cases ys)
    case Nil
    with Cons.prems(2) show ?thesis
      by (auto simp: join_list_tail open_char simp del: list.map(2))
  next
    case ys: (Cons y ys')
    have hd_eq: "f x @ list_tail cl f xs r = f y @ list_tail cl f ys' s"
      using Cons.prems(2) ys by (simp add: join_list_tail del: list.map(2))
    have "x = y \<and> list_tail cl f xs r = list_tail cl f ys' s"
      by (rule Cons.prems(1) [OF _ hd_eq]) (simp_all add: delim_list_tail cl)
    moreover have IH: "xs = ys' \<and> r = s" if "join '','' (map f xs) @ cl # r = join '','' (map f ys') @ cl # s"
      by (rule Cons.IH [OF _ that], rule Cons.prems(1), simp, assumption+)
    moreover have "CHR '','' \<noteq> cl" using cl(2) by simp
    ultimately show ?thesis using ys cl(2)
      by (cases "xs = []"; cases "ys' = []") (simp_all add: list_tail_def)
  qed
qed

lemma render_hd:
  obtains c t where "render v = c # t" and "is_digit c \<or> c \<in> set ''ntf-[{'' \<or> c = CHR 0x22"
proof (cases v)
  case (JNum i)
  obtain d ds where d: "show_nat (nat i) = d # ds"
    using show_nat_nonempty by (metis list.exhaust)
  then show ?thesis using that JNum show_nat_hd [OF d]
    by (cases "i < 0") (simp_all add: show_int_def)
next
  case (JBool b)
  then show ?thesis using that by (cases b) auto
qed (use that in \<open>auto simp: json_string_def\<close>)

lemma render_not_close: "render v @ t \<noteq> CHR '']'' # u" "render v @ t \<noteq> CHR ''}'' # u"
  by (rule render_hd [of v]; auto simp: is_digit_def)+

lemma show_int_hd:
  obtains c t where "show_int i = c # t" and "is_digit c \<or> c = CHR ''-''"
proof -
  obtain d ds where d: "show_nat (nat i) = d # ds"
    using show_nat_nonempty by (metis list.exhaust)
  then show ?thesis using that show_nat_hd [OF d]
    by (cases "i < 0") (simp_all add: show_int_def)
qed

lemma show_int_not_punct:
  assumes "\<not> is_digit c" and "c \<noteq> CHR ''-''"
  shows "show_int i @ r \<noteq> c # s" "c # s \<noteq> show_int i @ r"
  by (rule show_int_hd [of i]; use assms in auto)+

lemma json_string_hd:
  "json_string a @ r = c # s \<longleftrightarrow> c = CHR 0x22 \<and> s = concat (map json_escape_char a) @ CHR 0x22 # r"
  "c # s = json_string a @ r \<longleftrightarrow> c = CHR 0x22 \<and> s = concat (map json_escape_char a) @ CHR 0x22 # r"
  "json_string a @ r \<noteq> show_int i @ s" "show_int i @ s \<noteq> json_string a @ r"
  by (auto simp: json_string_def show_int_not_punct)

definition entry :: "string \<times> json \<Rightarrow> string" where
  "entry kv = json_string (fst kv) @ '':'' @ render (snd kv)"

lemma render_JObj: "render (JObj kvs) = CHR ''{'' # join '','' (map entry kvs) @ ''}''"
  by (auto simp: entry_def split_def intro!: arg_cong [where f = "join _"])

lemma entry_not_close: "entry y @ t \<noteq> CHR ''}'' # u"
  by (simp add: entry_def json_string_def)

text \<open>The rendering of a value, followed by a delimiter, determines the value and what follows.\<close>

lemma render_prefix: "render v @ r = render w @ s \<Longrightarrow> delim r \<Longrightarrow> delim s \<Longrightarrow> v = w \<and> r = s"
proof (induction v arbitrary: w r s)
  case (JNum i)
  then show ?case
    by (cases w) (auto simp: show_int_not_punct json_string_hd dest: show_int_prefix split: if_splits)
next
  case (JStr a)
  then show ?case
    by (cases w) (auto simp: show_int_not_punct json_string_hd dest: json_string_prefix split: if_splits)
next
  case (JArr vs)
  show ?case
  proof (cases w)
    case w: (JArr ws)
    have "join '','' (map render vs) @ CHR '']'' # r = join '','' (map render ws) @ CHR '']'' # s"
      using JArr.prems(1) w by simp
    then have "vs = ws \<and> r = s"
      by (rule join_prefix [rotated -1]) (use JArr.IH render_not_close in auto)
    with w show ?thesis by simp
  qed (use JArr.prems in \<open>auto simp: show_int_not_punct json_string_hd split: if_splits\<close>)
next
  case (JObj kvs)
  show ?case
  proof (cases w)
    case w: (JObj kws)
    have eq: "join '','' (map entry kvs) @ CHR ''}'' # r = join '','' (map entry kws) @ CHR ''}'' # s"
      using JObj.prems(1) unfolding w render_JObj by simp
    have "x = y \<and> r' = s'"
      if "x \<in> set kvs" "entry x @ r' = entry y @ s'" "delim r'" "delim s'" for x y r' s'
    proof -
      from that(2) have "fst x = fst y \<and> CHR '':'' # render (snd x) @ r' = CHR '':'' # render (snd y) @ s'"
        by (intro json_string_prefix) (simp add: entry_def)
      moreover from this have "snd x = snd y \<and> r' = s'"
        using JObj.IH [of x "snd x"] that(1,3,4) by (cases x) auto
      ultimately show ?thesis by (simp add: prod_eq_iff)
    qed
    then have "kvs = kws \<and> r = s"
      by (rule join_prefix [OF _ _ _ _ eq, rotated -1]) (auto simp: entry_not_close)
    with w show ?thesis by simp
  qed (use JObj.prems in \<open>auto simp: show_int_not_punct json_string_hd split: if_splits\<close>)
qed (case_tac w; auto simp: show_int_not_punct json_string_hd split: if_splits)+

lemma render_inj: "render v = render w \<longleftrightarrow> v = w"
  using render_prefix [of v "[]" w "[]"] by auto

text \<open>
  Two values have the same canonical text exactly when they agree up to the order of keys.
\<close>

lemma canonicalStringify_eq_iff:
  "canonicalStringify le v = canonicalStringify le w \<longleftrightarrow> norm_json le v = norm_json le w"
  by (simp add: canonicalStringify_render render_inj)

text \<open>
  Reordering the entries of an object does not change its normal form, and so not its canonical
  text either, when \<open>localeCompare\<close> orders its keys linearly.
\<close>

lemma norm_json_perm:
  assumes "mset kvs = mset kws" and "distinct (map fst kvs)"
    and total: "\<And>a b. le a b \<or> le b a" and trans: "\<And>a b c. le a b \<Longrightarrow> le b c \<Longrightarrow> le a c"
    and antisym: "\<And>a b. a \<in> fst ` set kvs \<Longrightarrow> b \<in> fst ` set kvs \<Longrightarrow> le a b \<Longrightarrow> le b a \<Longrightarrow> a = b"
  shows "norm_json le (JObj kvs) = norm_json le (JObj kws)"
proof -
  have key: "sorted_wrt (key_le le) (stable_sort (key_le le) xs)" for xs :: "(string \<times> json) list"
    by (rule sorted_stable_sort) (use total in \<open>auto simp: key_le_def intro: trans\<close>)
  have "stable_sort (key_le le) kvs = stable_sort (key_le le) kws"
  proof (rule sorted_mset_unique [OF key key])
    fix a b assume "a \<in> set (stable_sort (key_le le) kvs)" "b \<in> set (stable_sort (key_le le) kvs)"
      and "key_le le a b" "key_le le b a"
    then have "fst a = fst b" and "a \<in> set kvs" "b \<in> set kvs"
      using antisym by (auto simp: key_le_def)
    then show "a = b" using assms(2) by (metis eq_key_imp_eq_value prod.collapse)
  qed (simp add: assms(1))
  then show ?thesis by simp
qed

end
