(* ===== verification/Protocol.thy ===== *)
theory Protocol
  imports Json
begin

text \<open>
  The part of the wire protocol the modelled components exchange (\<open>packages/hcp-protocol/src/index.ts\<close>):
  errors, acknowledgements, replay cursors, capability leases, runtime events and session
  snapshots.  A TypeScript object type is a record with one field per property, an optional
  property is an \<open>option\<close>, a literal union is a datatype.

  A zod schema is the predicate its constraints state on a value of that record: the record's type
  already says which properties exist and what shape they have, the predicate says the rest
  (\<open>.min(1)\<close>, \<open>.int().positive()\<close>, the refinements).  The timestamp format check of zod is the
  parameter \<open>ts\<close>.
\<close>

subsection \<open>Constants and event types\<close>

definition HCP_METADATA_MAX_ENCODED_BYTES :: nat where
  "HCP_METADATA_MAX_ENCODED_BYTES = 16 * 1024"

definition HCP_PAYLOAD_MAX_ENCODED_BYTES :: nat where
  "HCP_PAYLOAD_MAX_ENCODED_BYTES = 1024 * 1024"

definition HCP_MESSAGE_MAX_ENCODED_BYTES :: nat where
  "HCP_MESSAGE_MAX_ENCODED_BYTES =
     HCP_METADATA_MAX_ENCODED_BYTES + HCP_PAYLOAD_MAX_ENCODED_BYTES + 64 * 1024"

definition KNOWN_HCP_EVENT_TYPES :: "string list" where
  "KNOWN_HCP_EVENT_TYPES =
     [''session.started'',
      ''session.configured'',
      ''settings.effective'',
      ''settings.options.effective'',
      ''settings.tools.effective'',
      ''session.state.changed'',
      ''session.exited'',
      ''thread.started'',
      ''thread.state.changed'',
      ''thread.metadata.updated'',
      ''thread.token_usage.updated'',
      ''thread.realtime.started'',
      ''thread.realtime.item_added'',
      ''thread.realtime.audio_delta'',
      ''thread.realtime.error'',
      ''thread.realtime.closed'',
      ''auth.status'',
      ''account.updated'',
      ''account.rate_limits.updated'',
      ''turn.started'',
      ''turn.completed'',
      ''turn.failed'',
      ''turn.aborted'',
      ''turn.cancelled'',
      ''turn.plan.updated'',
      ''turn.proposed.delta'',
      ''turn.proposed.completed'',
      ''turn.proposed.observed'',
      ''turn.diff.updated'',
      ''item.started'',
      ''item.updated'',
      ''item.completed'',
      ''content.delta'',
      ''reasoning.delta'',
      ''command.started'',
      ''command.completed'',
      ''local_capability.lease.created'',
      ''local_capability.lease.revoked'',
      ''local_capability.lease.expired'',
      ''local_capability.action.started'',
      ''local_capability.action.completed'',
      ''local_capability.action.failed'',
      ''file_change.started'',
      ''file_change.completed'',
      ''mcp_tool.started'',
      ''mcp_tool.completed'',
      ''mcp.status.updated'',
      ''mcp.oauth.completed'',
      ''approval.requested'',
      ''approval.resolved'',
      ''input.requested'',
      ''input.resolved'',
      ''request.opened'',
      ''request.resolved'',
      ''user_input.requested'',
      ''user_input.resolved'',
      ''task.started'',
      ''task.progress'',
      ''task.completed'',
      ''hook.started'',
      ''hook.progress'',
      ''hook.completed'',
      ''tool.progress'',
      ''tool.summary'',
      ''model.rerouted'',
      ''config.warning'',
      ''deprecation.notice'',
      ''files.persisted'',
      ''workspace.preflight.completed'',
      ''usage.updated'',
      ''context.updated'',
      ''context.input.prepared'',
      ''native.work.updated'',
      ''native.execution.admitted'',
      ''native.execution.completed'',
      ''native.goal.updated'',
      ''native.goal.observed'',
      ''native.work.retired'',
      ''native.work.owner_lost'',
      ''native.request.lost'',
      ''native.output.updated'',
      ''native.retry.updated'',
      ''runtime.warning'',
      ''runtime.error'']"

definition isKnownHcpEventType :: "string \<Rightarrow> bool" where
  "isKnownHcpEventType value = List.member KNOWN_HCP_EVENT_TYPES value"

definition isHcpEventType :: "string \<Rightarrow> bool" where
  "isHcpEventType value =
     (isKnownHcpEventType value \<or> startsWith value ''provider.'' \<or> startsWith value ''extension.'')"

subsection \<open>Errors, acknowledgements and cursors\<close>

record HcpError =
  err_code :: string
  err_message :: string
  err_retryable :: bool
  err_details :: "(string \<times> json) list option"

record HcpCommandAckPayload =
  ack_command_id :: string
  ack_accepted_at :: string
  ack_duplicate :: bool

record HcpCommandNackPayload =
  nack_command_id :: string
  nack_rejected_at :: string
  nack_error :: HcpError

record session_cursor =
  cur_session_id :: string
  cur_last_event_sequence :: int

record HostResumeCursor =
  resume_sessions :: "session_cursor list"

record session_range =
  rng_session_id :: string
  rng_first_event_sequence :: int
  rng_last_event_sequence :: int

record HostRetainedEventRanges =
  retained_sessions :: "session_range list"

datatype replay_unavailable_reason = No_retained_events | Cursor_outside_retention

record HcpHostReplayUnavailablePayload =
  ru_session_id :: string
  ru_requested_after_sequence :: int
  ru_reason :: replay_unavailable_reason
  ru_retained_range :: "(int \<times> int) option"

definition nonEmptyStringSchema :: "string \<Rightarrow> bool" where
  "nonEmptyStringSchema s = (s \<noteq> [])"

definition opt_ok :: "('a \<Rightarrow> bool) \<Rightarrow> 'a option \<Rightarrow> bool" where
  "opt_ok p x = (case x of None \<Rightarrow> True | Some a \<Rightarrow> p a)"

lemma opt_ok_simps [simp]: "opt_ok p None" "opt_ok p (Some a) = p a"
  by (simp_all add: opt_ok_def)

definition hcpErrorSchema :: "HcpError \<Rightarrow> bool" where
  "hcpErrorSchema e = (nonEmptyStringSchema (err_code e) \<and> nonEmptyStringSchema (err_message e))"

definition hcpCommandAckPayloadSchema :: "(string \<Rightarrow> bool) \<Rightarrow> HcpCommandAckPayload \<Rightarrow> bool" where
  "hcpCommandAckPayloadSchema ts p =
     (nonEmptyStringSchema (ack_command_id p) \<and> ts (ack_accepted_at p))"

definition hcpCommandNackPayloadSchema :: "(string \<Rightarrow> bool) \<Rightarrow> HcpCommandNackPayload \<Rightarrow> bool" where
  "hcpCommandNackPayloadSchema ts p =
     (nonEmptyStringSchema (nack_command_id p) \<and> ts (nack_rejected_at p) \<and> hcpErrorSchema (nack_error p))"

definition hcpHostResumeCursorSchema :: "HostResumeCursor \<Rightarrow> bool" where
  "hcpHostResumeCursorSchema c =
     list_all (\<lambda>s. nonEmptyStringSchema (cur_session_id s) \<and> 0 \<le> cur_last_event_sequence s)
       (resume_sessions c)"

definition hcpHostRetainedEventRangesSchema :: "HostRetainedEventRanges \<Rightarrow> bool" where
  "hcpHostRetainedEventRangesSchema r =
     list_all (\<lambda>s. nonEmptyStringSchema (rng_session_id s) \<and> 0 < rng_first_event_sequence s
                  \<and> 0 < rng_last_event_sequence s
                  \<and> rng_first_event_sequence s \<le> rng_last_event_sequence s)
       (retained_sessions r)"

definition hcpHostReplayUnavailablePayloadSchema :: "HcpHostReplayUnavailablePayload \<Rightarrow> bool" where
  "hcpHostReplayUnavailablePayloadSchema p =
     (nonEmptyStringSchema (ru_session_id p) \<and> 0 \<le> ru_requested_after_sequence p
      \<and> opt_ok (\<lambda>(first, last). 0 < first \<and> 0 < last) (ru_retained_range p))"

subsection \<open>Capability leases\<close>

datatype env_policy = Env_minimal | Env_allowlisted
datatype network_policy = Net_inherit | Net_disabled | Net_allowlisted
datatype cwd_policy = Selected_workspace_only
datatype approval_policy = Ask | Auto_edits | Full_access
datatype sandbox_mode = Read_only | Workspace_write | Danger_full_access

record CommandPolicy =
  pol_allowed_executables :: "string list option"
  pol_denied_executables :: "string list option"
  pol_argv_patterns :: "string list option"
  pol_cwd_policy :: cwd_policy
  pol_env_policy :: env_policy
  pol_allow_shell :: bool
  pol_timeout_seconds :: int
  pol_network_policy :: network_policy

record LocalCapabilityGrant =
  grant_id :: string
  grant_scopes :: "string list"
  grant_approval_policy :: "approval_policy option"
  grant_command_policy :: "CommandPolicy option"
  grant_max_calls :: "int option"

record LocalCapabilityLease =
  lease_lease_id :: string
  lease_actor_id :: "string option"
  lease_hcp_session_id :: string
  lease_execution_host_id :: string
  lease_provider_instance_id :: string
  lease_workspace_id :: string
  lease_issued_at :: string
  lease_expires_at :: string
  lease_policy_version :: string
  lease_capabilities :: "LocalCapabilityGrant list"

definition commandPolicySchema :: "CommandPolicy \<Rightarrow> bool" where
  "commandPolicySchema p =
     (opt_ok (list_all nonEmptyStringSchema) (pol_allowed_executables p)
      \<and> opt_ok (list_all nonEmptyStringSchema) (pol_denied_executables p)
      \<and> opt_ok (list_all nonEmptyStringSchema) (pol_argv_patterns p)
      \<and> 0 < pol_timeout_seconds p)"

definition localCapabilityGrantSchema :: "LocalCapabilityGrant \<Rightarrow> bool" where
  "localCapabilityGrantSchema g =
     (nonEmptyStringSchema (grant_id g) \<and> list_all nonEmptyStringSchema (grant_scopes g)
      \<and> opt_ok commandPolicySchema (grant_command_policy g)
      \<and> opt_ok (\<lambda>n. 0 < n) (grant_max_calls g))"

definition localCapabilityLeaseSchema :: "(string \<Rightarrow> bool) \<Rightarrow> LocalCapabilityLease \<Rightarrow> bool" where
  "localCapabilityLeaseSchema ts l =
     (nonEmptyStringSchema (lease_lease_id l) \<and> opt_ok nonEmptyStringSchema (lease_actor_id l)
      \<and> nonEmptyStringSchema (lease_hcp_session_id l)
      \<and> nonEmptyStringSchema (lease_execution_host_id l)
      \<and> nonEmptyStringSchema (lease_provider_instance_id l)
      \<and> nonEmptyStringSchema (lease_workspace_id l)
      \<and> ts (lease_issued_at l) \<and> ts (lease_expires_at l)
      \<and> nonEmptyStringSchema (lease_policy_version l)
      \<and> list_all localCapabilityGrantSchema (lease_capabilities l))"

subsection \<open>Runtime events\<close>

record HcpRawDiagnosticPayload =
  raw_source :: string
  raw_payload :: "(string \<times> json) list"

record HcpHarnessEventPayload =
  ev_session_id :: string
  ev_turn_id :: "string option"
  ev_sequence :: int
  ev_event_type :: string
  ev_created_at :: string
  ev_data :: json
  ev_raw :: "HcpRawDiagnosticPayload option"

text \<open>The event as the JSON object that is compared, hashed and sent.\<close>

definition event_json :: "HcpHarnessEventPayload \<Rightarrow> json" where
  "event_json e = JObj (
     [(''session_id'', JStr (ev_session_id e))]
     @ (case ev_turn_id e of None \<Rightarrow> [] | Some t \<Rightarrow> [(''turn_id'', JStr t)])
     @ [(''sequence'', JNum (ev_sequence e)), (''event_type'', JStr (ev_event_type e)),
        (''created_at'', JStr (ev_created_at e)), (''data'', ev_data e)]
     @ (case ev_raw e of None \<Rightarrow> []
        | Some r \<Rightarrow> [(''raw'', JObj [(''source'', JStr (raw_source r)), (''payload'', JObj (raw_payload r))])]))"

text \<open>
  The event schema without the per-type \<open>data\<close> schemas, which are the parameter \<open>data_ok\<close>.
\<close>

definition json_request_scope :: "json \<Rightarrow> json option" where
  "json_request_scope v = (case v of JObj kvs \<Rightarrow> map_of kvs ''request_scope'' | _ \<Rightarrow> None)"

definition hcpHarnessEventPayloadSchema ::
  "(string \<Rightarrow> bool) \<Rightarrow> (string \<Rightarrow> json \<Rightarrow> bool) \<Rightarrow> HcpHarnessEventPayload \<Rightarrow> bool" where
  "hcpHarnessEventPayloadSchema ts data_ok e =
     (nonEmptyStringSchema (ev_session_id e) \<and> opt_ok nonEmptyStringSchema (ev_turn_id e)
      \<and> 0 < ev_sequence e \<and> isHcpEventType (ev_event_type e) \<and> ts (ev_created_at e)
      \<and> opt_ok (\<lambda>r. nonEmptyStringSchema (raw_source r)) (ev_raw e)
      \<and> (List.member [''native.output.updated'', ''native.retry.updated'', ''native.goal.observed'']
           (ev_event_type e) \<longrightarrow> ev_turn_id e = None)
      \<and> (List.member [''settings.effective'', ''settings.options.effective'', ''context.input.prepared'',
             ''native.execution.admitted'', ''native.execution.completed'', ''native.goal.updated'']
           (ev_event_type e) \<longrightarrow> ev_turn_id e \<noteq> None)
      \<and> data_ok (ev_event_type e) (ev_data e)
      \<and> (List.member [''input.requested'', ''input.resolved'', ''user_input.requested'',
             ''user_input.resolved'', ''native.request.lost''] (ev_event_type e)
           \<and> json_request_scope (ev_data e) = Some (JStr ''session'') \<longrightarrow> ev_turn_id e = None)
      \<and> (startsWith (ev_event_type e) ''local_capability.action.'' \<longrightarrow> ev_turn_id e \<noteq> None))"

subsection \<open>Session snapshots\<close>

datatype tombstone_entity = Session_entity | Turn_entity | Item_entity

record tombstone =
  tomb_entity_type :: tombstone_entity
  tomb_entity_id :: string
  tomb_deleted_at :: string

datatype partial_reason = Retention_gap | Size_limit

text \<open>
  \<open>completeness: "complete"\<close> always comes with \<open>omission_semantics: "replace"\<close>, and
  \<open>"partial"\<close> with \<open>"preserve"\<close> and a reason.
\<close>

datatype completeness = Complete_replace | Partial_preserve partial_reason

record HcpSessionSnapshotPayload =
  snap_command_id :: string
  snap_session_id :: string
  snap_generated_at :: string
  snap_from_sequence :: int
  snap_through_sequence :: int
  snap_events :: "HcpHarnessEventPayload list"
  snap_tombstones :: "tombstone list"
  snap_completeness :: completeness

text \<open>The refinement of \<open>hcpSessionSnapshotPayloadSchema\<close>: one contiguous slice of one session.\<close>

definition snapshot_refinement :: "HcpSessionSnapshotPayload \<Rightarrow> bool" where
  "snapshot_refinement s =
     (\<not> snap_through_sequence s < snap_from_sequence s
      \<and> list_all (\<lambda>e. ev_session_id e = snap_session_id s) (snap_events s)
      \<and> counts_from (snap_from_sequence s) (map ev_sequence (snap_events s))
      \<and> snap_events s \<noteq> [] \<and> ev_sequence (last (snap_events s)) = snap_through_sequence s)"

definition hcpSessionSnapshotPayloadSchema ::
  "(string \<Rightarrow> bool) \<Rightarrow> (string \<Rightarrow> json \<Rightarrow> bool) \<Rightarrow> HcpSessionSnapshotPayload \<Rightarrow> bool" where
  "hcpSessionSnapshotPayloadSchema ts data_ok s =
     (nonEmptyStringSchema (snap_command_id s) \<and> nonEmptyStringSchema (snap_session_id s)
      \<and> ts (snap_generated_at s) \<and> 0 < snap_through_sequence s
      \<and> 1 \<le> length (snap_events s)
      \<and> list_all (hcpHarnessEventPayloadSchema ts data_ok) (snap_events s)
      \<and> list_all (\<lambda>t. nonEmptyStringSchema (tomb_entity_id t) \<and> ts (tomb_deleted_at t)) (snap_tombstones s)
      \<and> (case snap_completeness s of Complete_replace \<Rightarrow> snap_from_sequence s = 1
         | Partial_preserve _ \<Rightarrow> 0 < snap_from_sequence s)
      \<and> snapshot_refinement s)"

lemma snapshot_refinementD:
  assumes "snapshot_refinement s"
  shows "counts_from (snap_from_sequence s) (map ev_sequence (snap_events s))"
    and "\<And>e. e \<in> set (snap_events s) \<Longrightarrow> ev_session_id e = snap_session_id s"
    and "snap_events s \<noteq> []"
  using assms by (auto simp: snapshot_refinement_def list_all_iff)


subsection \<open>Sample values\<close>

text \<open>An event and a snapshot that the witnesses of the properties are evaluated on.\<close>

definition sample_event :: "string \<Rightarrow> int \<Rightarrow> HcpHarnessEventPayload" where
  "sample_event sid n =
     \<lparr>ev_session_id = sid, ev_turn_id = None, ev_sequence = n, ev_event_type = ''session.started'',
      ev_created_at = ''t'', ev_data = JObj [(''n'', JNum n)], ev_raw = None\<rparr>"

definition sample_snapshot :: "HcpHarnessEventPayload list \<Rightarrow> completeness \<Rightarrow> HcpSessionSnapshotPayload" where
  "sample_snapshot es c =
     \<lparr>snap_command_id = ''c'', snap_session_id = ev_session_id (hd es), snap_generated_at = ''t'',
      snap_from_sequence = ev_sequence (hd es), snap_through_sequence = ev_sequence (last es),
      snap_events = es, snap_tombstones = [], snap_completeness = c\<rparr>"

lemma sample_event_simps [simp]:
  "ev_session_id (sample_event sid n) = sid" "ev_sequence (sample_event sid n) = n"
  "ev_event_type (sample_event sid n) = ''session.started''"
  by (simp_all add: sample_event_def)

end
