(* ===== verification/Lease_Policy.thy ===== *)
theory Lease_Policy
  imports Protocol Posix_Path
begin

text \<open>
  Capability leases (\<open>packages/hcp-runner/src/local-actions/index.ts\<close>): the lease manager that
  validates, revokes and meters leases, and the engine that authorises file, git, shell and
  dev-server actions against a lease's grants and command policy.

  The manager's state is its set of revoked lease ids and its map of call counts.  The clock is the
  argument \<open>now\<close>, \<open>Date.parse\<close> the parameter \<open>date_parse\<close>, \<open>fs.realpath\<close> the parameter
  \<open>realpath\<close> (\<open>Inl\<close> is its error's message) and JavaScript's \<open>RegExp\<close> the parameter \<open>regex\<close>
  (\<open>Inl\<close> is a syntax error).  A result comes with the manager's next state, since a granted call is
  counted.
\<close>

subsection \<open>Configuration and requests\<close>

datatype capability_status = Cap_available | Cap_unavailable | Cap_disabled | Cap_unknown

fun capability_status_name :: "capability_status \<Rightarrow> string" where
  "capability_status_name Cap_available = ''available''"
| "capability_status_name Cap_unavailable = ''unavailable''"
| "capability_status_name Cap_disabled = ''disabled''"
| "capability_status_name Cap_unknown = ''unknown''"

record LocalCapabilityConfig =
  cfg_id :: string
  cfg_status :: capability_status
  cfg_scopes :: "string list"
  cfg_approval_required :: bool

record ProviderInstanceConfig =
  prov_id :: string
  prov_local_capabilities :: "string list"

record HcpSessionStartPayload =
  start_session_id :: string
  start_provider_instance_id :: string
  start_workspace_id :: string
  start_local_capability_lease :: "LocalCapabilityLease option"

record LocalCapabilityActionRequest =
  car_session_id :: string
  car_turn_id :: string
  car_workspace_id :: string
  car_provider_instance_id :: string
  car_capability_id :: string
  car_scope :: string
  car_action :: string

datatype LocalFilesystemAction = Fs_read | Fs_list | Fs_write | Fs_create | Fs_delete | Fs_patch
datatype LocalGitAction =
  Git_status | Git_diff | Git_branch | Git_commit_metadata | Git_commit | Git_checkout | Git_push
datatype dev_server_action = Dev_start | Dev_stop | Dev_inspect

fun filesystem_action_name :: "LocalFilesystemAction \<Rightarrow> string" where
  "filesystem_action_name Fs_read = ''read''"
| "filesystem_action_name Fs_list = ''list''"
| "filesystem_action_name Fs_write = ''write''"
| "filesystem_action_name Fs_create = ''create''"
| "filesystem_action_name Fs_delete = ''delete''"
| "filesystem_action_name Fs_patch = ''patch''"

fun git_action_name :: "LocalGitAction \<Rightarrow> string" where
  "git_action_name Git_status = ''status''"
| "git_action_name Git_diff = ''diff''"
| "git_action_name Git_branch = ''branch''"
| "git_action_name Git_commit_metadata = ''commit_metadata''"
| "git_action_name Git_commit = ''commit''"
| "git_action_name Git_checkout = ''checkout''"
| "git_action_name Git_push = ''push''"

fun dev_server_action_name :: "dev_server_action \<Rightarrow> string" where
  "dev_server_action_name Dev_start = ''start''"
| "dev_server_action_name Dev_stop = ''stop''"
| "dev_server_action_name Dev_inspect = ''inspect''"

record authorization_identity =
  auth_session_id :: string
  auth_turn_id :: string
  auth_workspace_id :: string
  auth_provider_instance_id :: string

record command_request =
  cmd_executable :: string
  cmd_argv :: "string list"
  cmd_cwd :: string
  cmd_workspace_root :: string
  cmd_use_shell :: bool
  cmd_timeout_seconds :: int
  cmd_env :: "(string \<times> string) list"

record LocalDevServerAuthorizationRequest =
  dsa_identity :: authorization_identity
  dsa_action :: dev_server_action
  dsa_executable :: "string option"
  dsa_argv :: "string list option"
  dsa_cwd :: "string option"
  dsa_workspace_root :: "string option"
  dsa_use_shell :: "bool option"
  dsa_timeout_seconds :: "int option"
  dsa_env :: "(string \<times> string) list option"

datatype LocalCapabilityPolicyError = LocalCapabilityPolicyError (pe_code: string) (pe_message: string)

text \<open>What the manager is constructed with and what it keeps.\<close>

record lease_config =
  lc_local_capabilities :: "LocalCapabilityConfig list"
  lc_hostId :: string
  lc_date_parse :: "string \<Rightarrow> int option"

record LocalCapabilityLeaseManager =
  lm_revokedLeaseIds :: "string list"
  lm_callCounts :: "(string \<times> int) list"

definition new_lease_manager :: LocalCapabilityLeaseManager where
  "new_lease_manager = \<lparr>lm_revokedLeaseIds = [], lm_callCounts = []\<rparr>"

subsection \<open>The lease manager\<close>

definition assertLeaseBinding ::
  "lease_config \<Rightarrow> LocalCapabilityLease \<Rightarrow> HcpSessionStartPayload \<Rightarrow> LocalCapabilityPolicyError + unit" where
  "assertLeaseBinding cfg l p =
     (if lease_hcp_session_id l \<noteq> start_session_id p
      then Inl (LocalCapabilityPolicyError ''local_capability_session_mismatch''
             ''Local capability lease session does not match the HCP session.'')
      else if lease_execution_host_id l \<noteq> lc_hostId cfg
      then Inl (LocalCapabilityPolicyError ''local_capability_host_mismatch''
             ''Local capability lease host does not match this runner.'')
      else if lease_provider_instance_id l \<noteq> start_provider_instance_id p
      then Inl (LocalCapabilityPolicyError ''local_capability_provider_mismatch''
             ''Local capability lease provider does not match the selected provider.'')
      else if lease_workspace_id l \<noteq> start_workspace_id p
      then Inl (LocalCapabilityPolicyError ''local_capability_workspace_mismatch''
             ''Local capability lease workspace does not match the selected workspace.'')
      else Inr ())"

definition assertLeaseUsable ::
  "lease_config \<Rightarrow> int \<Rightarrow> LocalCapabilityLeaseManager \<Rightarrow> LocalCapabilityLease
    \<Rightarrow> LocalCapabilityPolicyError + unit" where
  "assertLeaseUsable cfg now m l =
     (if List.member (lm_revokedLeaseIds m) (lease_lease_id l)
      then Inl (LocalCapabilityPolicyError ''local_capability_lease_revoked''
             (''Local capability lease '' @ quoted (lease_lease_id l) @ '' has been revoked.''))
      else if (case lc_date_parse cfg (lease_expires_at l) of None \<Rightarrow> True | Some t \<Rightarrow> t \<le> now)
      then Inl (LocalCapabilityPolicyError ''local_capability_lease_expired''
             (''Local capability lease '' @ quoted (lease_lease_id l) @ '' has expired.''))
      else Inr ())"

definition requireConfiguredCapability ::
  "lease_config \<Rightarrow> string \<Rightarrow> LocalCapabilityPolicyError + LocalCapabilityConfig" where
  "requireConfiguredCapability cfg capabilityId =
     (case List.find (\<lambda>c. cfg_id c = capabilityId) (lc_local_capabilities cfg) of
        None \<Rightarrow> Inl (LocalCapabilityPolicyError ''local_capability_unavailable''
             (''Capability '' @ quoted capabilityId @ '' is not configured by this runner.''))
      | Some c \<Rightarrow>
          if cfg_status c \<noteq> Cap_available
          then Inl (LocalCapabilityPolicyError ''local_capability_unavailable''
             (''Capability '' @ quoted capabilityId @ '' is '' @ capability_status_name (cfg_status c) @ ''.''))
          else Inr c)"

definition assertProviderSupportsCapability ::
  "ProviderInstanceConfig \<Rightarrow> string \<Rightarrow> LocalCapabilityPolicyError + unit" where
  "assertProviderSupportsCapability provider capabilityId =
     guardR (List.member (prov_local_capabilities provider) capabilityId)
       (LocalCapabilityPolicyError ''local_capability_provider_unsupported''
         (''Provider '' @ quoted (prov_id provider) @ '' does not support capability '' @ quoted capabilityId @ ''.''))"

definition assertGrantScopesAllowed ::
  "LocalCapabilityConfig \<Rightarrow> LocalCapabilityGrant \<Rightarrow> LocalCapabilityPolicyError + unit" where
  "assertGrantScopesAllowed configured g =
     (let unavailableScopes = filter (\<lambda>scope. \<not> List.member (cfg_scopes configured) scope) (grant_scopes g) in
      if 0 < length unavailableScopes
      then Inl (LocalCapabilityPolicyError ''local_capability_scope_unavailable''
             (''Capability '' @ quoted (grant_id g) @ '' requested unavailable scopes: ''
              @ join '', '' unavailableScopes @ ''.''))
      else Inr ())"

fun validate_grants ::
  "lease_config \<Rightarrow> ProviderInstanceConfig \<Rightarrow> LocalCapabilityGrant list \<Rightarrow> LocalCapabilityPolicyError + unit" where
  "validate_grants cfg provider [] = Inr ()"
| "validate_grants cfg provider (g # gs) =
     bindR (requireConfiguredCapability cfg (grant_id g)) (\<lambda>configured.
     bindR (assertGrantScopesAllowed configured g) (\<lambda>_.
     bindR (assertProviderSupportsCapability provider (grant_id g)) (\<lambda>_.
     validate_grants cfg provider gs)))"

definition validateSessionLease ::
  "lease_config \<Rightarrow> int \<Rightarrow> LocalCapabilityLeaseManager \<Rightarrow> HcpSessionStartPayload \<Rightarrow> ProviderInstanceConfig
    \<Rightarrow> LocalCapabilityPolicyError + LocalCapabilityLease option" where
  "validateSessionLease cfg now m p provider =
     (case start_local_capability_lease p of
        None \<Rightarrow> Inr None
      | Some l \<Rightarrow>
          bindR (assertLeaseBinding cfg l p) (\<lambda>_.
          bindR (assertLeaseUsable cfg now m l) (\<lambda>_.
          bindR (validate_grants cfg provider (lease_capabilities l)) (\<lambda>_.
          Inr (Some l)))))"

definition revokeLease :: "string \<Rightarrow> LocalCapabilityLeaseManager \<Rightarrow> LocalCapabilityLeaseManager" where
  "revokeLease leaseId m = m\<lparr>lm_revokedLeaseIds := List.insert leaseId (lm_revokedLeaseIds m)\<rparr>"

definition countKey :: "LocalCapabilityLease \<Rightarrow> string \<Rightarrow> string" where
  "countKey l grantId = lease_lease_id l @ '':'' @ grantId"

definition call_count :: "LocalCapabilityLeaseManager \<Rightarrow> string \<Rightarrow> int" where
  "call_count m key = (case map_of (lm_callCounts m) key of None \<Rightarrow> 0 | Some n \<Rightarrow> n)"

definition action_binding_error ::
  "LocalCapabilityLease \<Rightarrow> LocalCapabilityActionRequest \<Rightarrow> LocalCapabilityPolicyError + unit" where
  "action_binding_error l r =
     (if car_session_id r \<noteq> lease_hcp_session_id l
      then Inl (LocalCapabilityPolicyError ''local_capability_session_mismatch''
             ''Local capability action session does not match the lease.'')
      else if car_workspace_id r \<noteq> lease_workspace_id l
      then Inl (LocalCapabilityPolicyError ''local_capability_workspace_mismatch''
             ''Local capability action workspace does not match the lease.'')
      else if car_provider_instance_id r \<noteq> lease_provider_instance_id l
      then Inl (LocalCapabilityPolicyError ''local_capability_provider_mismatch''
             ''Local capability action provider does not match the lease.'')
      else Inr ())"

definition find_granted ::
  "lease_config \<Rightarrow> LocalCapabilityLease \<Rightarrow> LocalCapabilityActionRequest
    \<Rightarrow> LocalCapabilityPolicyError + LocalCapabilityGrant" where
  "find_granted cfg l r =
     (case List.find (\<lambda>g. grant_id g = car_capability_id r) (lease_capabilities l) of
        None \<Rightarrow> Inl (LocalCapabilityPolicyError ''local_capability_not_granted''
             (''Capability '' @ quoted (car_capability_id r) @ '' is not granted by lease ''
              @ quoted (lease_lease_id l) @ ''.''))
      | Some g \<Rightarrow>
          if \<not> List.member (grant_scopes g) (car_scope r)
          then Inl (LocalCapabilityPolicyError ''local_capability_scope_not_granted''
             (''Scope '' @ quoted (car_scope r) @ '' is not granted for capability ''
              @ quoted (car_capability_id r) @ ''.''))
          else bindR (requireConfiguredCapability cfg (car_capability_id r)) (\<lambda>configured.
            if \<not> List.member (cfg_scopes configured) (car_scope r)
            then Inl (LocalCapabilityPolicyError ''local_capability_scope_unavailable''
               (''Scope '' @ quoted (car_scope r) @ '' is not available for capability ''
                @ quoted (car_capability_id r) @ '' on this runner.''))
            else Inr g))"

definition assertActionAllowed ::
  "lease_config \<Rightarrow> int \<Rightarrow> LocalCapabilityLease \<Rightarrow> LocalCapabilityActionRequest \<Rightarrow> LocalCapabilityLeaseManager
    \<Rightarrow> (LocalCapabilityPolicyError + LocalCapabilityGrant) \<times> LocalCapabilityLeaseManager" where
  "assertActionAllowed cfg now l r m =
     (case bindR (assertLeaseUsable cfg now m l) (\<lambda>_.
           bindR (action_binding_error l r) (\<lambda>_. find_granted cfg l r)) of
        Inl e \<Rightarrow> (Inl e, m)
      | Inr g \<Rightarrow>
          let key = countKey l (grant_id g); existingCallCount = call_count m key in
          if (case grant_max_calls g of None \<Rightarrow> False | Some n \<Rightarrow> n \<le> existingCallCount)
          then (Inl (LocalCapabilityPolicyError ''local_capability_max_calls_exceeded''
                  (''Capability '' @ quoted (car_capability_id r) @ '' exceeded its max call count.'')), m)
          else (Inr g, m\<lparr>lm_callCounts := AList.update key (existingCallCount + 1) (lm_callCounts m)\<rparr>))"

subsection \<open>Command policies\<close>

definition assertExecutableGrantAllowed ::
  "LocalCapabilityGrant \<Rightarrow> string \<Rightarrow> LocalCapabilityPolicyError + unit" where
  "assertExecutableGrantAllowed g actionLabel =
     (if grant_approval_policy g \<noteq> Some Full_access
      then Inl (LocalCapabilityPolicyError ''local_capability_approval_required''
             (actionLabel @ '' require a local capability lease grant with approval_policy ''
              @ quoted ''full_access'' @ ''.''))
      else if grant_command_policy g = None
      then Inl (LocalCapabilityPolicyError ''local_capability_command_policy_required''
             (actionLabel @ '' require a structured command policy.''))
      else Inr ())"

fun network_policy_name :: "network_policy \<Rightarrow> string" where
  "network_policy_name Net_inherit = ''inherit''"
| "network_policy_name Net_disabled = ''disabled''"
| "network_policy_name Net_allowlisted = ''allowlisted''"

text \<open>\<open>patterns.some(...)\<close>: the patterns are compiled one by one until one matches.\<close>

fun argvMatchesPolicy ::
  "(string \<Rightarrow> string + (string \<Rightarrow> bool)) \<Rightarrow> string \<Rightarrow> string list \<Rightarrow> LocalCapabilityPolicyError + bool" where
  "argvMatchesPolicy regex commandLine [] = Inr False"
| "argvMatchesPolicy regex commandLine (p # ps) =
     (case regex p of
        Inl msg \<Rightarrow> Inl (LocalCapabilityPolicyError ''local_capability_command_policy_invalid''
           (''Command policy argv pattern '' @ quoted p @ '' is invalid: '' @ msg))
      | Inr matches \<Rightarrow> if matches commandLine then Inr True else argvMatchesPolicy regex commandLine ps)"

definition realpathForPolicy :: "(string \<Rightarrow> string + string) \<Rightarrow> string \<Rightarrow> LocalCapabilityPolicyError + string" where
  "realpathForPolicy realpath path =
     (case realpath path of
        Inl msg \<Rightarrow> Inl (LocalCapabilityPolicyError ''local_capability_path_unresolved''
           (''Path '' @ quoted path @ '' could not be resolved: '' @ msg))
      | Inr p \<Rightarrow> Inr p)"

definition assertPathInsideWorkspace ::
  "(string \<Rightarrow> string + string) \<Rightarrow> string \<Rightarrow> string \<Rightarrow> LocalCapabilityPolicyError + unit" where
  "assertPathInsideWorkspace realpath path workspaceRoot =
     bindR (realpathForPolicy realpath path) (\<lambda>resolvedPath.
     bindR (realpathForPolicy realpath workspaceRoot) (\<lambda>resolvedWorkspace.
     guardR (inside_root resolvedWorkspace resolvedPath)
       (LocalCapabilityPolicyError ''local_capability_cwd_denied''
         (''Path '' @ quoted path @ '' is outside the selected workspace.''))))"

definition assertCommandPolicyAllows ::
  "(string \<Rightarrow> string + string) \<Rightarrow> (string \<Rightarrow> string + (string \<Rightarrow> bool)) \<Rightarrow> CommandPolicy option
    \<Rightarrow> command_request \<Rightarrow> LocalCapabilityPolicyError + unit" where
  "assertCommandPolicyAllows realpath regex policy r =
     (case policy of
        None \<Rightarrow> Inl (LocalCapabilityPolicyError ''local_capability_command_policy_required''
           ''Executable local capability actions require a structured command policy.'')
      | Some p \<Rightarrow>
          if \<not> pol_allow_shell p \<and> cmd_use_shell r
          then Inl (LocalCapabilityPolicyError ''local_capability_shell_denied''
             ''Shell wrappers are not allowed by policy.'')
          else if pol_timeout_seconds p < cmd_timeout_seconds r
          then Inl (LocalCapabilityPolicyError ''local_capability_timeout_exceeded''
             (''Requested timeout '' @ show_int (cmd_timeout_seconds r) @ ''s exceeds policy timeout ''
              @ show_int (pol_timeout_seconds p) @ ''s.''))
          else if pol_network_policy p \<noteq> Net_inherit
          then Inl (LocalCapabilityPolicyError ''local_capability_network_policy_unsupported''
             (''Network policy '' @ quoted (network_policy_name (pol_network_policy p))
              @ '' cannot be enforced by this runner.''))
          else if pol_env_policy p = Env_minimal \<and> 0 < length (cmd_env r)
          then Inl (LocalCapabilityPolicyError ''local_capability_env_denied''
             ''Custom environment variables are not allowed by minimal environment policy.'')
          else if (case pol_denied_executables p of None \<Rightarrow> False | Some xs \<Rightarrow> List.member xs (cmd_executable r))
          then Inl (LocalCapabilityPolicyError ''local_capability_executable_denied''
             (''Executable '' @ quoted (cmd_executable r) @ '' is denied by policy.''))
          else if (case pol_allowed_executables p of None \<Rightarrow> False | Some xs \<Rightarrow> \<not> List.member xs (cmd_executable r))
          then Inl (LocalCapabilityPolicyError ''local_capability_executable_not_allowed''
             (''Executable '' @ quoted (cmd_executable r) @ '' is not allowed by policy.''))
          else bindR (case pol_argv_patterns p of None \<Rightarrow> Inr True
                      | Some ps \<Rightarrow> argvMatchesPolicy regex (join '' '' (cmd_argv r)) ps) (\<lambda>ok.
            if \<not> ok
            then Inl (LocalCapabilityPolicyError ''local_capability_argv_denied''
               ''Command arguments do not match policy.'')
            else (case pol_cwd_policy p of
                    Selected_workspace_only \<Rightarrow>
                      assertPathInsideWorkspace realpath (cmd_cwd r) (cmd_workspace_root r))))"

subsection \<open>The engine\<close>

definition filesystemScopeForAction :: "LocalFilesystemAction \<Rightarrow> string" where
  "filesystemScopeForAction a = (if a = Fs_read \<or> a = Fs_list then ''workspace_read'' else ''workspace_write'')"

definition gitScopeForAction :: "LocalGitAction \<Rightarrow> string" where
  "gitScopeForAction a =
     (if a = Git_status \<or> a = Git_diff \<or> a = Git_branch \<or> a = Git_commit_metadata
      then ''workspace_read'' else ''workspace_write'')"

definition capability_action ::
  "authorization_identity \<Rightarrow> string \<Rightarrow> string \<Rightarrow> string \<Rightarrow> LocalCapabilityActionRequest" where
  "capability_action i capability scope action =
     \<lparr>car_session_id = auth_session_id i, car_turn_id = auth_turn_id i, car_workspace_id = auth_workspace_id i,
      car_provider_instance_id = auth_provider_instance_id i, car_capability_id = capability,
      car_scope = scope, car_action = action\<rparr>"

definition authorizeFilesystemAction ::
  "lease_config \<Rightarrow> int \<Rightarrow> LocalCapabilityLease \<Rightarrow> authorization_identity \<Rightarrow> LocalFilesystemAction
    \<Rightarrow> LocalCapabilityLeaseManager \<Rightarrow> (LocalCapabilityPolicyError + LocalCapabilityGrant) \<times> LocalCapabilityLeaseManager" where
  "authorizeFilesystemAction cfg now l i a m =
     assertActionAllowed cfg now l
       (capability_action i ''filesystem'' (filesystemScopeForAction a) (filesystem_action_name a)) m"

definition authorizeGitAction ::
  "lease_config \<Rightarrow> int \<Rightarrow> LocalCapabilityLease \<Rightarrow> authorization_identity \<Rightarrow> LocalGitAction
    \<Rightarrow> LocalCapabilityLeaseManager \<Rightarrow> (LocalCapabilityPolicyError + LocalCapabilityGrant) \<times> LocalCapabilityLeaseManager" where
  "authorizeGitAction cfg now l i a m =
     assertActionAllowed cfg now l
       (capability_action i ''git'' (gitScopeForAction a) (git_action_name a)) m"

definition authorizeShellCommand ::
  "lease_config \<Rightarrow> (string \<Rightarrow> string + string) \<Rightarrow> (string \<Rightarrow> string + (string \<Rightarrow> bool)) \<Rightarrow> int
    \<Rightarrow> LocalCapabilityLease \<Rightarrow> authorization_identity \<Rightarrow> command_request
    \<Rightarrow> LocalCapabilityLeaseManager \<Rightarrow> (LocalCapabilityPolicyError + LocalCapabilityGrant) \<times> LocalCapabilityLeaseManager" where
  "authorizeShellCommand cfg realpath regex now l i r m =
     (case assertActionAllowed cfg now l (capability_action i ''shell'' ''workspace'' ''run_command'') m of
        (Inl e, m') \<Rightarrow> (Inl e, m')
      | (Inr g, m') \<Rightarrow>
          (bindR (assertExecutableGrantAllowed g ''Shell actions'') (\<lambda>_.
           bindR (assertCommandPolicyAllows realpath regex (grant_command_policy g) r) (\<lambda>_. Inr g)), m'))"

text \<open>The fields a start needs; an empty string counts as missing.\<close>

definition dev_server_command :: "LocalDevServerAuthorizationRequest \<Rightarrow> command_request option" where
  "dev_server_command r =
     (case (dsa_executable r, dsa_argv r, dsa_cwd r, dsa_workspace_root r, dsa_use_shell r, dsa_timeout_seconds r) of
        (Some ex, Some argv, Some cwd, Some root, Some sh, Some t) \<Rightarrow>
          if ex = [] \<or> cwd = [] \<or> root = [] then None
          else Some \<lparr>cmd_executable = ex, cmd_argv = argv, cmd_cwd = cwd, cmd_workspace_root = root,
                     cmd_use_shell = sh, cmd_timeout_seconds = t,
                     cmd_env = (case dsa_env r of None \<Rightarrow> [] | Some e \<Rightarrow> e)\<rparr>
      | _ \<Rightarrow> None)"

definition authorizeDevServerAction ::
  "lease_config \<Rightarrow> (string \<Rightarrow> string + string) \<Rightarrow> (string \<Rightarrow> string + (string \<Rightarrow> bool)) \<Rightarrow> int
    \<Rightarrow> LocalCapabilityLease \<Rightarrow> LocalDevServerAuthorizationRequest
    \<Rightarrow> LocalCapabilityLeaseManager \<Rightarrow> (LocalCapabilityPolicyError + LocalCapabilityGrant) \<times> LocalCapabilityLeaseManager" where
  "authorizeDevServerAction cfg realpath regex now l r m =
     (case assertActionAllowed cfg now l
             (capability_action (dsa_identity r) ''dev_server'' ''workspace'' (dev_server_action_name (dsa_action r))) m of
        (Inl e, m') \<Rightarrow> (Inl e, m')
      | (Inr g, m') \<Rightarrow>
          (if dsa_action r \<noteq> Dev_start then Inr g
           else bindR (assertExecutableGrantAllowed g ''Dev server start actions'') (\<lambda>_.
             case dev_server_command r of
               None \<Rightarrow> Inl (LocalCapabilityPolicyError ''local_capability_command_policy_required''
                 ''Dev server start actions require executable, argv, cwd, workspace root, shell mode, and timeout.'')
             | Some c \<Rightarrow> bindR (assertCommandPolicyAllows realpath regex (grant_command_policy g) c) (\<lambda>_. Inr g)), m'))"


subsection \<open>What a lease permits\<close>

definition within_max_calls :: "LocalCapabilityGrant \<Rightarrow> int \<Rightarrow> bool" where
  "within_max_calls g n = (case grant_max_calls g of None \<Rightarrow> True | Some limit \<Rightarrow> n < limit)"

definition lease_live :: "lease_config \<Rightarrow> int \<Rightarrow> LocalCapabilityLeaseManager \<Rightarrow> LocalCapabilityLease \<Rightarrow> bool" where
  "lease_live cfg now m l \<longleftrightarrow> lease_lease_id l \<notin> set (lm_revokedLeaseIds m)
     \<and> (case lc_date_parse cfg (lease_expires_at l) of None \<Rightarrow> False | Some t \<Rightarrow> now < t)"

definition runner_offers :: "lease_config \<Rightarrow> string \<Rightarrow> string \<Rightarrow> bool" where
  "runner_offers cfg capability scope =
     (case List.find (\<lambda>c. cfg_id c = capability) (lc_local_capabilities cfg) of
        None \<Rightarrow> False
      | Some c \<Rightarrow> cfg_status c = Cap_available \<and> scope \<in> set (cfg_scopes c))"

definition lease_permits ::
  "lease_config \<Rightarrow> int \<Rightarrow> LocalCapabilityLeaseManager \<Rightarrow> LocalCapabilityLease \<Rightarrow> LocalCapabilityActionRequest
    \<Rightarrow> LocalCapabilityGrant \<Rightarrow> bool" where
  "lease_permits cfg now m l r g \<longleftrightarrow>
     lease_live cfg now m l
     \<and> car_session_id r = lease_hcp_session_id l \<and> car_workspace_id r = lease_workspace_id l
     \<and> car_provider_instance_id r = lease_provider_instance_id l
     \<and> List.find (\<lambda>g. grant_id g = car_capability_id r) (lease_capabilities l) = Some g
     \<and> car_scope r \<in> set (grant_scopes g) \<and> runner_offers cfg (car_capability_id r) (car_scope r)
     \<and> within_max_calls g (call_count m (countKey l (grant_id g)))"

definition charge :: "LocalCapabilityLease \<Rightarrow> LocalCapabilityGrant \<Rightarrow> LocalCapabilityLeaseManager \<Rightarrow> LocalCapabilityLeaseManager" where
  "charge l g m = m\<lparr>lm_callCounts := AList.update (countKey l (grant_id g))
     (call_count m (countKey l (grant_id g)) + 1) (lm_callCounts m)\<rparr>"

lemma assertLeaseUsable_iff: "assertLeaseUsable cfg now m l = Inr u \<longleftrightarrow> lease_live cfg now m l"
  by (auto simp: assertLeaseUsable_def lease_live_def split: option.splits)

lemma action_binding_iff: "action_binding_error l r = Inr u \<longleftrightarrow>
    car_session_id r = lease_hcp_session_id l \<and> car_workspace_id r = lease_workspace_id l
    \<and> car_provider_instance_id r = lease_provider_instance_id l"
  by (auto simp: action_binding_error_def)

lemma find_granted_iff: "find_granted cfg l r = Inr g \<longleftrightarrow>
    List.find (\<lambda>g. grant_id g = car_capability_id r) (lease_capabilities l) = Some g
    \<and> car_scope r \<in> set (grant_scopes g) \<and> runner_offers cfg (car_capability_id r) (car_scope r)"
  by (auto simp: find_granted_def requireConfiguredCapability_def runner_offers_def result_simps
      split: option.splits if_splits)

lemma assertActionAllowed_granted:
  "assertActionAllowed cfg now l r m = (Inr g, m') \<longleftrightarrow> lease_permits cfg now m l r g \<and> m' = charge l g m"
proof (cases "bindR (assertLeaseUsable cfg now m l) (\<lambda>_. bindR (action_binding_error l r) (\<lambda>_. find_granted cfg l r))")
  case (Inl e)
  have "\<not> lease_permits cfg now m l r g"
  proof
    assume "lease_permits cfg now m l r g"
    then have "assertLeaseUsable cfg now m l = Inr ()" "action_binding_error l r = Inr ()"
      "find_granted cfg l r = Inr g"
      by (simp_all add: lease_permits_def assertLeaseUsable_iff action_binding_iff find_granted_iff)
    with Inl show False by simp
  qed
  with Inl show ?thesis by (simp add: assertActionAllowed_def)
next
  case (Inr g')
  then have "lease_live cfg now m l \<and> find_granted cfg l r = Inr g'
      \<and> car_session_id r = lease_hcp_session_id l \<and> car_workspace_id r = lease_workspace_id l
      \<and> car_provider_instance_id r = lease_provider_instance_id l"
    by (auto simp: result_simps assertLeaseUsable_iff action_binding_iff)
  moreover have "fst (assertActionAllowed cfg now l r m) = Inr g \<longleftrightarrow>
      g' = g \<and> within_max_calls g (call_count m (countKey l (grant_id g)))"
    unfolding assertActionAllowed_def Inr by (auto simp: Let_def within_max_calls_def split: option.splits)
  moreover have "fst (assertActionAllowed cfg now l r m) = Inr g \<Longrightarrow> snd (assertActionAllowed cfg now l r m) = charge l g m"
    unfolding assertActionAllowed_def Inr by (auto simp: Let_def charge_def split: option.splits if_splits)
  ultimately show ?thesis
    by (auto simp: prod_eq_iff lease_permits_def find_granted_iff)
qed

lemma assertActionAllowed_refused:
  "assertActionAllowed cfg now l r m = (Inl e, m') \<Longrightarrow> m' = m"
  by (auto simp: assertActionAllowed_def Let_def split: sum.splits if_splits)

subsection \<open>The life of a manager\<close>

datatype lease_op = Op_revoke string | Op_action int LocalCapabilityLease LocalCapabilityActionRequest

fun lease_step :: "lease_config \<Rightarrow> lease_op \<Rightarrow> LocalCapabilityLeaseManager \<Rightarrow> string option \<times> LocalCapabilityLeaseManager" where
  "lease_step cfg (Op_revoke leaseId) m = (None, revokeLease leaseId m)"
| "lease_step cfg (Op_action now l r) m =
     (case assertActionAllowed cfg now l r m of
        (Inl _, m') \<Rightarrow> (None, m')
      | (Inr g, m') \<Rightarrow> (Some (countKey l (grant_id g)), m'))"

fun op_revoked :: "lease_op \<Rightarrow> LocalCapabilityLeaseManager \<Rightarrow> bool" where
  "op_revoked (Op_revoke _) m = False"
| "op_revoked (Op_action now l r) m = (lease_lease_id l \<in> set (lm_revokedLeaseIds m))"

lemma charge_simps [simp]:
  "call_count (charge l g m) k = call_count m k + (if k = countKey l (grant_id g) then 1 else 0)"
  "lm_revokedLeaseIds (charge l g m) = lm_revokedLeaseIds m"
  by (simp_all add: charge_def call_count_def js_map)

lemma revokeLease_simps [simp]:
  "call_count (revokeLease i m) k = call_count m k"
  "set (lm_revokedLeaseIds (revokeLease i m)) = insert i (set (lm_revokedLeaseIds m))"
  by (simp_all add: revokeLease_def call_count_def)

lemma lease_step_action:
  obtains (granted) g where "assertActionAllowed cfg now l r m = (Inr g, charge l g m)"
      "lease_permits cfg now m l r g"
      "lease_step cfg (Op_action now l r) m = (Some (countKey l (grant_id g)), charge l g m)"
  | (refused) e where "assertActionAllowed cfg now l r m = (Inl e, m)"
      "lease_step cfg (Op_action now l r) m = (None, m)"
proof (cases "assertActionAllowed cfg now l r m")
  case (Pair res m')
  show ?thesis
  proof (cases res)
    case (Inl e)
    then show ?thesis using Pair assertActionAllowed_refused refused by fastforce
  next
    case (Inr g)
    then have "lease_permits cfg now m l r g \<and> m' = charge l g m"
      using Pair assertActionAllowed_granted by blast
    then show ?thesis using Pair Inr granted by auto
  qed
qed

interpretation lease_authority: metered_authority "lease_step cfg" call_count op_revoked for cfg
proof
  fix x y :: lease_op and m :: LocalCapabilityLeaseManager and k
  show "call_count (snd (lease_step cfg x m)) k = call_count m k + (if fst (lease_step cfg x m) = Some k then 1 else 0)"
  proof (cases x)
    case (Op_action now l r)
    then show ?thesis by (cases rule: lease_step_action [of cfg now l r m]) (auto simp del: lease_step.simps)
  qed simp
  show "op_revoked x (snd (lease_step cfg y m))" if "op_revoked x m"
  proof (cases x)
    case x: (Op_action now l r)
    show ?thesis
    proof (cases y)
      case (Op_action now' l' r')
      then show ?thesis using that x
        by (cases rule: lease_step_action [of cfg now' l' r' m]) (auto simp del: lease_step.simps)
    qed (use that x in simp)
  qed (use that in simp)
  show "fst (lease_step cfg x m) = None" if "op_revoked x m"
  proof (cases x)
    case x: (Op_action now l r)
    show ?thesis
    proof (cases rule: lease_step_action [of cfg now l r m])
      case (granted g)
      then show ?thesis using that x by (simp add: lease_permits_def lease_live_def)
    next
      case refused
      then show ?thesis using x by (simp del: lease_step.simps)
    qed
  qed simp
qed


subsection \<open>What a command policy permits\<close>

definition argv_permitted :: "(string \<Rightarrow> string + (string \<Rightarrow> bool)) \<Rightarrow> string list option \<Rightarrow> string list \<Rightarrow> bool" where
  "argv_permitted regex patterns argv =
     (case patterns of None \<Rightarrow> True
      | Some ps \<Rightarrow> list_ex (\<lambda>p. case regex p of Inl _ \<Rightarrow> False | Inr matches \<Rightarrow> matches (join '' '' argv)) ps)"

definition command_permitted ::
  "(string \<Rightarrow> string + (string \<Rightarrow> bool)) \<Rightarrow> CommandPolicy \<Rightarrow> command_request \<Rightarrow> bool" where
  "command_permitted regex p r \<longleftrightarrow>
     (if cmd_use_shell r then pol_allow_shell p else True)
     \<and> cmd_timeout_seconds r \<le> pol_timeout_seconds p
     \<and> pol_network_policy p = Net_inherit
     \<and> (if pol_env_policy p = Env_minimal then cmd_env r = [] else True)
     \<and> (case pol_denied_executables p of None \<Rightarrow> True | Some xs \<Rightarrow> cmd_executable r \<notin> set xs)
     \<and> (case pol_allowed_executables p of None \<Rightarrow> True | Some xs \<Rightarrow> cmd_executable r \<in> set xs)
     \<and> argv_permitted regex (pol_argv_patterns p) (cmd_argv r)"

definition really_inside :: "(string \<Rightarrow> string + string) \<Rightarrow> string \<Rightarrow> string \<Rightarrow> bool" where
  "really_inside realpath root p =
     (case (realpath root, realpath p) of
        (Inr r, Inr q) \<Rightarrow> prefix (path_segments r) (path_segments q)
      | _ \<Rightarrow> False)"

lemma argvMatchesPolicy_True:
  "argvMatchesPolicy regex cl ps = Inr True \<Longrightarrow>
     list_ex (\<lambda>p. case regex p of Inl _ \<Rightarrow> False | Inr matches \<Rightarrow> matches cl) ps"
  by (induction regex cl ps rule: argvMatchesPolicy.induct) (auto split: sum.splits if_splits)

lemma assertPathInsideWorkspace_inside:
  "assertPathInsideWorkspace realpath p root = Inr u \<Longrightarrow> really_inside realpath root p"
  by (auto simp: assertPathInsideWorkspace_def realpathForPolicy_def really_inside_def result_simps
      split: sum.splits dest: inside_root_prefix)

lemma assertCommandPolicyAllows_permitted:
  assumes "assertCommandPolicyAllows realpath regex policy r = Inr u"
  obtains p where "policy = Some p" "command_permitted regex p r"
    "really_inside realpath (cmd_workspace_root r) (cmd_cwd r)"
proof -
  obtain p where p: "policy = Some p"
    using assms by (auto simp: assertCommandPolicyAllows_def split: option.splits)
  then have "command_permitted regex p r"
    using assms argvMatchesPolicy_True
    by (auto simp: assertCommandPolicyAllows_def command_permitted_def argv_permitted_def result_simps
        split: if_splits option.splits)
  moreover have "really_inside realpath (cmd_workspace_root r) (cmd_cwd r)"
    using assms p
    by (auto simp: assertCommandPolicyAllows_def result_simps split: if_splits cwd_policy.splits
        intro: assertPathInsideWorkspace_inside)
  ultimately show ?thesis using p that by blast
qed

subsection \<open>Properties\<close>

definition sample_grant :: LocalCapabilityGrant where
  "sample_grant = \<lparr>grant_id = ''shell'', grant_scopes = [''workspace''], grant_approval_policy = Some Full_access,
     grant_command_policy = Some \<lparr>pol_allowed_executables = Some [''ls''], pol_denied_executables = None,
       pol_argv_patterns = None, pol_cwd_policy = Selected_workspace_only, pol_env_policy = Env_minimal,
       pol_allow_shell = False, pol_timeout_seconds = 10, pol_network_policy = Net_inherit\<rparr>,
     grant_max_calls = Some 1\<rparr>"

definition sample_lease :: LocalCapabilityLease where
  "sample_lease = \<lparr>lease_lease_id = ''l'', lease_actor_id = None, lease_hcp_session_id = ''s'',
     lease_execution_host_id = ''h'', lease_provider_instance_id = ''p'', lease_workspace_id = ''w'',
     lease_issued_at = ''t'', lease_expires_at = ''t'', lease_policy_version = ''1'',
     lease_capabilities = [sample_grant]\<rparr>"

definition sample_config :: lease_config where
  "sample_config = \<lparr>lc_local_capabilities =
       [\<lparr>cfg_id = ''shell'', cfg_status = Cap_available, cfg_scopes = [''workspace''], cfg_approval_required = True\<rparr>],
     lc_hostId = ''h'', lc_date_parse = (\<lambda>_. Some 100)\<rparr>"

definition sample_identity :: authorization_identity where
  "sample_identity = \<lparr>auth_session_id = ''s'', auth_turn_id = ''t1'', auth_workspace_id = ''w'',
     auth_provider_instance_id = ''p''\<rparr>"

definition sample_command :: command_request where
  "sample_command = \<lparr>cmd_executable = ''ls'', cmd_argv = [], cmd_cwd = ''/w/a'', cmd_workspace_root = ''/w'',
     cmd_use_shell = False, cmd_timeout_seconds = 5, cmd_env = []\<rparr>"

definition sample_shell_request :: LocalCapabilityActionRequest where
  "sample_shell_request = capability_action sample_identity ''shell'' ''workspace'' ''run_command''"

lemmas lease_sample_defs =
  sample_grant_def sample_lease_def sample_config_def sample_identity_def sample_command_def
  sample_shell_request_def capability_action_def

text \<open>C24: Lease authorisation.  An action is granted exactly when the lease is neither revoked nor
  expired, its session, workspace and provider are the action's, its first grant of the capability has
  the scope, the runner itself offers that scope, and the grant's call limit is not used up; the grant
  is then charged with one call, and a refusal changes nothing.\<close>

theorem action_granted_iff_permitted:
  "(assertActionAllowed cfg now l r m = (Inr g, m') \<longleftrightarrow> lease_permits cfg now m l r g \<and> m' = charge l g m)
   \<and> (isInr (fst (assertActionAllowed cfg now l r m)) \<or> snd (assertActionAllowed cfg now l r m) = m)"
  using assertActionAllowed_granted [of cfg now l r m g m']
  by (cases rule: lease_step_action [of cfg now l r m]) auto

text \<open>C25: Call limits.  Over any history of actions and revocations of a new manager, an action is
  only granted while fewer calls than the grant's limit have been granted for its lease and grant.\<close>

theorem max_calls_enforced:
  assumes "run_ops (lease_step cfg) ops new_lease_manager = (granted, m)"
    and "assertActionAllowed cfg now l r m = (Inr g, m')" and "grant_max_calls g = Some limit"
  shows "occurrences (countKey l (grant_id g)) granted < limit"
proof -
  have "call_count m k = occurrences k granted" for k
    using lease_authority.charged_run [of cfg ops new_lease_manager k] assms(1)
    by (simp add: new_lease_manager_def call_count_def)
  then show ?thesis
    using assms(2,3) assertActionAllowed_granted [of cfg now l r m g m']
    by (simp add: lease_permits_def within_max_calls_def)
qed

theorem max_calls_enforced_witness:
  "occurrences (countKey sample_lease ''shell'') (fst (run_ops (lease_step sample_config) [Op_revoke ''x''] new_lease_manager)) < 1
   \<and> isInr (fst (assertActionAllowed sample_config 5 sample_lease sample_shell_request (revokeLease ''x'' new_lease_manager)))"
proof -
  let ?m = "revokeLease ''x'' new_lease_manager"
  have run: "run_ops (lease_step sample_config) [Op_revoke ''x''] new_lease_manager = ([None], ?m)" by simp
  have ok: "assertActionAllowed sample_config 5 sample_lease sample_shell_request ?m
      = (Inr sample_grant, charge sample_lease sample_grant ?m)"
    by (simp add: assertActionAllowed_granted lease_permits_def lease_live_def runner_offers_def within_max_calls_def
        new_lease_manager_def revokeLease_def call_count_def lease_sample_defs)
  have lim: "grant_max_calls sample_grant = Some 1" by (simp add: sample_grant_def)
  have "grant_id sample_grant = ''shell''" by (simp add: sample_grant_def)
  with max_calls_enforced [OF run ok lim] run ok show ?thesis by simp
qed

text \<open>Revocation is final.  Once a lease id has been revoked, no later action on a lease with that
  id is granted, whatever else happens in between.\<close>

theorem revocation_is_final:
  "\<not> isInr (fst (assertActionAllowed cfg now l r
       (snd (run_ops (lease_step cfg) ops (revokeLease (lease_lease_id l) m)))))"
proof -
  let ?m = "snd (run_ops (lease_step cfg) ops (revokeLease (lease_lease_id l) m))"
  have "op_revoked (Op_action now l r) ?m"
    by (rule lease_authority.blocked_run) simp
  then have "fst (lease_step cfg (Op_action now l r) ?m) = None"
    by (rule lease_authority.blocked_refused)
  then show ?thesis
    by (cases rule: lease_step_action [of cfg now l r ?m]) auto
qed

text \<open>Shell commands.  A command is authorised only under a live lease that grants the shell with
  full access and a command policy, when the policy permits its shell mode, timeout, environment,
  executable and arguments, and when the real path of its working directory lies below the real path of
  the workspace root; the call has then been charged.\<close>

theorem shell_command_authorised:
  assumes "authorizeShellCommand cfg realpath regex now l i r m = (Inr g, m')"
  shows "lease_permits cfg now m l (capability_action i ''shell'' ''workspace'' ''run_command'') g
    \<and> grant_approval_policy g = Some Full_access
    \<and> (\<exists>p. grant_command_policy g = Some p \<and> command_permitted regex p r)
    \<and> really_inside realpath (cmd_workspace_root r) (cmd_cwd r)
    \<and> m' = charge l g m"
proof -
  let ?a = "capability_action i ''shell'' ''workspace'' ''run_command''"
  have a: "assertActionAllowed cfg now l ?a m = (Inr g, m')"
    and x: "assertExecutableGrantAllowed g ''Shell actions'' = Inr ()"
    and c: "assertCommandPolicyAllows realpath regex (grant_command_policy g) r = Inr ()"
    using assms by (auto simp: authorizeShellCommand_def result_simps split: prod.splits sum.splits)
  have "grant_approval_policy g = Some Full_access"
    using x by (auto simp: assertExecutableGrantAllowed_def split: if_splits)
  moreover obtain p where "grant_command_policy g = Some p" "command_permitted regex p r"
    "really_inside realpath (cmd_workspace_root r) (cmd_cwd r)"
    using assertCommandPolicyAllows_permitted [OF c] by metis
  ultimately show ?thesis using a assertActionAllowed_granted by blast
qed

theorem shell_command_authorised_witness:
  "let res = authorizeShellCommand sample_config Inr (\<lambda>_. Inl ''bad'') 5 sample_lease sample_identity sample_command
     new_lease_manager in
   fst res = Inr sample_grant \<and> call_count (snd res) ''l:shell'' = 1"
proof -
  let ?res = "authorizeShellCommand sample_config Inr (\<lambda>_. Inl ''bad'') 5 sample_lease sample_identity sample_command
     new_lease_manager"
  have "assertActionAllowed sample_config 5 sample_lease sample_shell_request new_lease_manager
      = (Inr sample_grant, charge sample_lease sample_grant new_lease_manager)"
    by (simp add: assertActionAllowed_granted lease_permits_def lease_live_def runner_offers_def within_max_calls_def
        new_lease_manager_def call_count_def lease_sample_defs)
  then have "?res = (bindR (assertExecutableGrantAllowed sample_grant ''Shell actions'') (\<lambda>_.
      bindR (assertCommandPolicyAllows Inr (\<lambda>_. Inl ''bad'') (grant_command_policy sample_grant) sample_command)
        (\<lambda>_. Inr sample_grant)), charge sample_lease sample_grant new_lease_manager)"
    by (simp add: authorizeShellCommand_def sample_shell_request_def)
  moreover have "inside_root ''/w'' ''/w/a''"
    by (simp add: inside_root_def relative_path_def path_segments_def relative_segments_def push_segment_def
        startsWith_def isAbsolute_def)
  then have "assertCommandPolicyAllows Inr (\<lambda>_. Inl ''bad'') (grant_command_policy sample_grant) sample_command = Inr ()"
    by (simp add: assertCommandPolicyAllows_def assertPathInsideWorkspace_def realpathForPolicy_def
        sample_grant_def sample_command_def)
  ultimately have res: "?res = (Inr sample_grant, charge sample_lease sample_grant new_lease_manager)"
    by (simp add: assertExecutableGrantAllowed_def sample_grant_def)
  from shell_command_authorised [OF this] have "snd ?res = charge sample_lease sample_grant new_lease_manager"
    by (simp add: res)
  moreover have "countKey sample_lease (grant_id sample_grant) = ''l:shell''"
    by (simp add: countKey_def sample_lease_def sample_grant_def)
  moreover have "call_count new_lease_manager k = 0" for k
    by (simp add: new_lease_manager_def call_count_def)
  ultimately show ?thesis using res by (simp add: Let_def)
qed

text \<open>Session start.  A session's lease is accepted exactly when it is bound to that session, host,
  provider and workspace, is live, and every capability and scope it grants is available on this runner
  and supported by the provider.\<close>

theorem session_lease_accepted_iff:
  "validateSessionLease cfg now m p provider = Inr (Some l) \<longleftrightarrow>
     start_local_capability_lease p = Some l
     \<and> lease_hcp_session_id l = start_session_id p \<and> lease_execution_host_id l = lc_hostId cfg
     \<and> lease_provider_instance_id l = start_provider_instance_id p \<and> lease_workspace_id l = start_workspace_id p
     \<and> lease_live cfg now m l
     \<and> list_all (\<lambda>g. requireConfiguredCapability cfg (grant_id g) \<in> range Inr
          \<and> list_all (runner_offers cfg (grant_id g)) (grant_scopes g)
          \<and> List.member (prov_local_capabilities provider) (grant_id g)) (lease_capabilities l)"
proof -
  have scopes: "assertGrantScopesAllowed c g = Inr u \<longleftrightarrow> list_all (runner_offers cfg (grant_id g)) (grant_scopes g)"
    if "requireConfiguredCapability cfg (grant_id g) = Inr c" for c g u
    using that
    by (auto simp: requireConfiguredCapability_def assertGrantScopesAllowed_def runner_offers_def list_all_iff
        Let_def filter_empty_conv split: option.splits if_splits)
  have grants: "validate_grants cfg provider gs = Inr u \<longleftrightarrow>
      list_all (\<lambda>g. requireConfiguredCapability cfg (grant_id g) \<in> range Inr
          \<and> list_all (runner_offers cfg (grant_id g)) (grant_scopes g)
          \<and> List.member (prov_local_capabilities provider) (grant_id g)) gs" for gs u
    by (induction gs) (auto simp: result_simps scopes assertProviderSupportsCapability_def)
  show ?thesis
    by (auto simp: validateSessionLease_def result_simps grants assertLeaseUsable_iff assertLeaseBinding_def
        split: option.splits if_splits)
qed

end
