(* ===== verification/Workspace_Paths.thy ===== *)
theory Workspace_Paths
  imports File_System Lease_Policy
begin

text \<open>
  How the executor turns a requested path into one it may touch
  (\<open>packages/hcp-runner/src/local-actions/executors.ts\<close>): existing paths are resolved to their real
  path and checked against the real workspace root, new paths are checked as written and through
  their nearest existing parent.
\<close>

datatype action_error = Policy LocalCapabilityPolicyError | System errno | Other string

fun errno_message :: "errno \<Rightarrow> string" where
  "errno_message ENOENT = ''ENOENT: no such file or directory''"
| "errno_message ENOTDIR = ''ENOTDIR: not a directory''"
| "errno_message ELOOP = ''ELOOP: too many symbolic links encountered''"
| "errno_message EEXIST = ''EEXIST: file already exists''"
| "errno_message EISDIR = ''EISDIR: illegal operation on a directory''"

definition policy_error :: "string \<Rightarrow> string \<Rightarrow> action_error" where
  "policy_error code message = Policy (LocalCapabilityPolicyError code message)"

definition sys :: "errno + 'a \<Rightarrow> action_error + 'a" where
  "sys r = (case r of Inl e \<Rightarrow> Inl (System e) | Inr a \<Rightarrow> Inr a)"

definition isFileMissingError :: "action_error \<Rightarrow> bool" where
  "isFileMissingError e = (e = System ENOENT)"

definition resolveCandidatePath :: "fs \<Rightarrow> string \<Rightarrow> string \<Rightarrow> action_error + string" where
  "resolveCandidatePath t path root =
     (if isAbsolute path then Inr path
      else bindR (sys (fs_realpath t root)) (\<lambda>r. Inr (resolve_path r path)))"

definition assertInsideWorkspace :: "fs \<Rightarrow> string \<Rightarrow> string \<Rightarrow> action_error + unit" where
  "assertInsideWorkspace t path root =
     bindR (sys (fs_realpath t root)) (\<lambda>resolvedWorkspace.
     guardR (inside_root resolvedWorkspace path)
       (policy_error ''local_capability_path_denied''
          (''Path '' @ quoted path @ '' is outside the selected workspace.'')))"

text \<open>The source has the same function a second time for paths that need not exist.\<close>

definition assertCandidateInsideWorkspace :: "fs \<Rightarrow> string \<Rightarrow> string \<Rightarrow> action_error + unit" where
  "assertCandidateInsideWorkspace t path root =
     bindR (sys (fs_realpath t root)) (\<lambda>resolvedWorkspace.
     guardR (inside_root resolvedWorkspace path)
       (policy_error ''local_capability_path_denied''
          (''Path '' @ quoted path @ '' is outside the selected workspace.'')))"

definition resolveExistingWorkspacePath :: "fs \<Rightarrow> string \<Rightarrow> string \<Rightarrow> action_error + string" where
  "resolveExistingWorkspacePath t path root =
     bindR (resolveCandidatePath t path root) (\<lambda>candidate.
       case fs_realpath t candidate of
         Inl e \<Rightarrow> Inl (policy_error ''local_capability_path_unresolved''
           (''Path '' @ quoted path @ '' could not be resolved inside the selected workspace: '' @ errno_message e))
       | Inr resolvedPath \<Rightarrow> bindR (assertInsideWorkspace t resolvedPath root) (\<lambda>_. Inr resolvedPath))"

text \<open>
  \<open>while (true)\<close> up the directories until one exists.  Every turn shortens an absolute path or
  reaches the root, where \<open>dirname\<close> is the identity and the loop throws; the length test states
  that for the recursion.
\<close>

function find_parent_loop :: "fs \<Rightarrow> string \<Rightarrow> string \<Rightarrow> action_error + string" where
  "find_parent_loop t resolvedWorkspace current =
     (case sys (fs_realpath t current) of
        Inr p \<Rightarrow> Inr p
      | Inl e \<Rightarrow>
          if \<not> isFileMissingError e then Inl e
          else let parent = dirname current in
            if parent = current \<or> length current \<le> length parent then Inl e
            else let relativeParent = relative_path resolvedWorkspace parent in
              if startsWith relativeParent ''..'' \<or> isAbsolute relativeParent then Inl e
              else find_parent_loop t resolvedWorkspace parent)"
  by pat_completeness auto
termination by (relation "measure (\<lambda>(t, w, current). length current)") auto

declare find_parent_loop.simps [simp del]

definition findNearestExistingParent :: "fs \<Rightarrow> string \<Rightarrow> string \<Rightarrow> action_error + string" where
  "findNearestExistingParent t path root =
     bindR (sys (fs_realpath t root)) (\<lambda>resolvedWorkspace. find_parent_loop t resolvedWorkspace (dirname path))"

definition dangling_error :: "string \<Rightarrow> action_error" where
  "dangling_error path = policy_error ''local_capability_path_denied''
     (''Path '' @ quoted path @ '' is a dangling symlink.'')"

definition assertMissingWritableTargetHasNoSymlink :: "fs \<Rightarrow> string \<Rightarrow> action_error + unit" where
  "assertMissingWritableTargetHasNoSymlink t path =
     (case fs_lstat t path of
        Inr (Symlink _) \<Rightarrow> Inl (dangling_error path)
      | Inr _ \<Rightarrow> Inr ()
      | Inl e \<Rightarrow> if isFileMissingError (System e) then Inr () else Inl (System e))"

definition resolveWritableWorkspacePath :: "fs \<Rightarrow> string \<Rightarrow> string \<Rightarrow> action_error + string" where
  "resolveWritableWorkspacePath t path root =
     bindR (resolveCandidatePath t path root) (\<lambda>candidate.
     bindR (assertCandidateInsideWorkspace t candidate root) (\<lambda>_.
       case bindR (sys (fs_realpath t candidate)) (\<lambda>resolvedPath.
              bindR (assertInsideWorkspace t resolvedPath root) (\<lambda>_. Inr resolvedPath)) of
         Inr resolvedPath \<Rightarrow> Inr resolvedPath
       | Inl e \<Rightarrow>
           if \<not> isFileMissingError e then Inl e
           else
             bindR (findNearestExistingParent t candidate root) (\<lambda>nearestExistingParent.
             bindR (assertInsideWorkspace t nearestExistingParent root) (\<lambda>_.
             bindR (assertMissingWritableTargetHasNoSymlink t candidate) (\<lambda>_.
             Inr candidate)))))"

definition workspaceRelativePath :: "fs \<Rightarrow> string \<Rightarrow> string \<Rightarrow> action_error + string" where
  "workspaceRelativePath t path root =
     bindR (sys (fs_realpath t root)) (\<lambda>r.
     let relativePath = relative_path r path in Inr (if length relativePath = 0 then ''.'' else relativePath))"

subsection \<open>The loop ends where the source's does\<close>

text \<open>For an absolute path \<open>dirname\<close> is the identity or shorter, so the length test adds nothing.\<close>

lemma dirname_shorter:
  assumes "isAbsolute p"
  shows "dirname p = p \<or> length (dirname p) < length p"
proof -
  obtain r where p: "p = CHR ''/'' # r" using assms by (cases p) (auto simp: isAbsolute_def)
  define u where "u = dropWhile (\<lambda>c. c \<noteq> CHR ''/'') (dropWhile (\<lambda>c. c = CHR ''/'') (rev r))"
  have d: "dirname p = (if u = [] then ''/'' else if length u = 1 then ''//'' else CHR ''/'' # rev (tl u))"
    unfolding dirname_def p list.sel u_def [symmetric] Let_def by (simp add: isAbsolute_def)
  have "length u \<le> length (rev r)"
    unfolding u_def by (meson length_dropWhile_le order_trans)
  then have u: "length u \<le> length r" by simp
  consider "u = []" | "length u = 1" | "2 \<le> length u" by (cases u) (auto simp: Suc_le_eq)
  then show ?thesis
  proof cases
    case 1
    then show ?thesis using d p by (cases r) auto
  next
    case 2
    then have "r \<noteq> []" by (auto simp: u_def)
    then obtain c r' where r: "r = c # r'" by (cases r) auto
    have "r' \<noteq> []" using 2 r by (auto simp: u_def split: if_splits)
    then have "2 < length p" using p r by (cases r') auto
    moreover have "length (dirname p) = 2" using d 2 by auto
    ultimately show ?thesis by simp
  next
    case 3
    then have "length (dirname p) = length u" using d by auto
    then show ?thesis using u p by simp
  qed
qed

subsection \<open>What resolution guarantees\<close>

lemma sys_simps [simp]: "sys (Inr a) = Inr a" "sys (Inl e) = Inl (System e)"
  by (simp_all add: sys_def)

lemma sys_eq [result_simps]:
  "sys r = Inr a \<longleftrightarrow> r = Inr a" "sys r = Inl x \<longleftrightarrow> (\<exists>e. r = Inl e \<and> x = System e)"
  by (auto simp: sys_def split: sum.splits)

text \<open>The real root of a workspace, as segments.\<close>

definition real_root :: "fs \<Rightarrow> string \<Rightarrow> string list option" where
  "real_root t root = (case walk_path t root of Found q \<Rightarrow> Some q | _ \<Rightarrow> None)"

lemma real_root_realpath:
  assumes "wf_fs t" and "fs_realpath t root = Inr r"
  shows "real_root t root = Some (path_segments r)"
proof -
  obtain q where "walk_path t root = Found q" "path_segments r = q"
    using fs_realpath_Inr [OF assms] by metis
  then show ?thesis by (simp add: real_root_def)
qed

lemma assertInsideWorkspace_Inr:
  assumes "wf_fs t" and "assertInsideWorkspace t p root = Inr u"
  shows "\<exists>rt. real_root t root = Some rt \<and> prefix rt (path_segments p)"
proof -
  obtain r where "fs_realpath t root = Inr r" "inside_root r p"
    using assms(2) by (auto simp: assertInsideWorkspace_def result_simps)
  then show ?thesis using real_root_realpath [OF assms(1)] inside_root_prefix by blast
qed

text \<open>
  An existing path that resolution returns is the text of a file's or directory's own segments, below
  the real workspace root.
\<close>

lemma resolveExisting_Inr:
  assumes "wf_fs t" and "resolveExistingWorkspacePath t p root = Inr r"
  shows "\<exists>q rt. r = path_text q \<and> resolved t q \<and> real_root t root = Some rt \<and> prefix rt q"
proof -
  obtain c where "resolveCandidatePath t p root = Inr c"
    and "(case fs_realpath t c of
         Inl e \<Rightarrow> Inl (policy_error ''local_capability_path_unresolved''
           (''Path '' @ quoted p @ '' could not be resolved inside the selected workspace: '' @ errno_message e))
       | Inr resolvedPath \<Rightarrow> bindR (assertInsideWorkspace t resolvedPath root) (\<lambda>_. Inr resolvedPath)) = Inr r"
    using assms(2) unfolding resolveExistingWorkspacePath_def bindR_eq_Inr by blast
  then have c: "fs_realpath t c = Inr r" and a: "assertInsideWorkspace t r root = Inr ()"
    by (auto simp: result_simps split: sum.splits)
  from c obtain q where "r = path_text q" "resolved t q" "path_segments r = q"
    by (rule fs_realpath_Inr [OF assms(1)])
  then show ?thesis using assertInsideWorkspace_Inr [OF assms(1) a] by auto
qed

subsection \<open>Writes stay below the real root\<close>

lemma join_snoc: "ys \<noteq> [] \<Longrightarrow> join sep (ys @ [s]) = join sep ys @ sep @ s"
proof (induction ys)
  case (Cons y ys)
  then show ?case by (cases ys) simp_all
qed simp

lemma dirname_path_text:
  assumes "\<forall>s \<in> set xs. proper_segment s"
  shows "dirname (path_text xs) = path_text (butlast xs)"
proof (cases xs rule: rev_cases)
  case Nil
  then show ?thesis by (simp add: dirname_def path_text_def isAbsolute_def)
next
  case (snoc ys s)
  then have s: "s \<noteq> []" "CHR ''/'' \<notin> set s" using assms by (auto simp: proper_segment_def)
  have no: "dropWhile (\<lambda>c. c = CHR ''/'') (rev s @ r) = rev s @ r" for r
    using s by (cases s rule: rev_cases) auto
  have cut: "dropWhile (\<lambda>c. c \<noteq> CHR ''/'') (rev s @ r) = dropWhile (\<lambda>c. c \<noteq> CHR ''/'') r" for r
    using s by (intro dropWhile_append2) auto
  show ?thesis
  proof (cases "ys = []")
    case True
    then show ?thesis using snoc no [of "[]"] cut [of "[]"] by (simp add: dirname_def path_text_def isAbsolute_def)
  next
    case False
    have ne: "join ''/'' ys \<noteq> []"
      using False assms snoc by (cases ys) (auto simp: join_proper)
    have j: "rev (join ''/'' xs) = rev s @ CHR ''/'' # rev (join ''/'' ys)"
      using False snoc by (simp add: join_snoc)
    have "dropWhile (\<lambda>c. c \<noteq> CHR ''/'') (dropWhile (\<lambda>c. c = CHR ''/'') (rev (tl (path_text xs)))) = CHR ''/'' # rev (join ''/'' ys)"
      unfolding path_text_def list.sel j no cut by simp
    note upto = this
    show ?thesis
      unfolding dirname_def Let_def upto using ne snoc by (simp add: path_text_def isAbsolute_def)
  qed
qed

text \<open>The loop over the parents stops at the longest part of the path that exists.\<close>

lemma find_parent_path:
  assumes "find_parent_loop t w (path_text xs) = Inr P" and "\<forall>s \<in> set xs. proper_segment s"
  shows "\<exists>ps rem. xs = ps @ rem \<and> fs_realpath t (path_text ps) = Inr P
    \<and> (rem \<noteq> [] \<longrightarrow> fs_realpath t (path_text (ps @ [hd rem])) = Inl ENOENT)"
  using assms
proof (induction xs rule: rev_induct)
  case Nil
  then show ?case
    by (subst (asm) find_parent_loop.simps)
       (auto simp: dirname_path_text Let_def result_simps sys_def split: sum.splits if_splits)
next
  case (snoc s xs)
  show ?case
  proof (cases "fs_realpath t (path_text (xs @ [s]))")
    case (Inr Q)
    then have "Q = P" using snoc.prems(1) by (subst (asm) find_parent_loop.simps) simp
    then show ?thesis using Inr by (intro exI [of _ "xs @ [s]"] exI [of _ "[]"]) simp
  next
    case (Inl e)
    then have e: "e = ENOENT" and up: "find_parent_loop t w (path_text xs) = Inr P"
      using snoc.prems
      by (subst (asm) find_parent_loop.simps;
          auto simp: dirname_path_text isFileMissingError_def Let_def split: if_splits)+
    from snoc.IH [OF up] snoc.prems(2) obtain ps rem where
      "xs = ps @ rem" "fs_realpath t (path_text ps) = Inr P"
      "rem \<noteq> [] \<longrightarrow> fs_realpath t (path_text (ps @ [hd rem])) = Inl ENOENT"
      by auto
    then show ?thesis using Inl e
      by (intro exI [of _ ps] exI [of _ "rem @ [s]"]) (cases rem; simp)
  qed
qed

text \<open>A candidate that is returned because it is missing, on the file system's side.\<close>

lemma missing_candidate:
  assumes wf: "wf_fs t" and proper: "\<forall>s \<in> set (xs @ [s]). proper_segment s"
    and gone: "fs_realpath t (path_text (xs @ [s])) = Inl ENOENT"
    and parent: "find_parent_loop t w (path_text xs) = Inr P" "prefix rt (path_segments P)"
    and no_link: "assertMissingWritableTargetHasNoSymlink t (path_text (xs @ [s])) = Inr ()"
  obtains ps rem d where "xs = ps @ rem" "walk t MAXSYMLINKS [] ps = Found d" "map_of t d = Some Dir" "prefix rt d"
    "rem = [] \<longrightarrow> map_of t (d @ [s]) = None"
    "rem \<noteq> [] \<longrightarrow> map_of t (d @ [hd rem]) \<noteq> None \<longrightarrow>
       (\<exists>e. make_dirs t d rem = (t, Some e)) \<and> (\<exists>e. walk t MAXSYMLINKS [] (xs @ [s]) = Fails e)"
proof -
  have root: "map_of t [] = Some Dir" using wf by (simp add: wf_fs_def)
  obtain ps rem where pr: "xs = ps @ rem" "fs_realpath t (path_text ps) = Inr P"
    "rem \<noteq> [] \<longrightarrow> fs_realpath t (path_text (ps @ [hd rem])) = Inl ENOENT"
    using find_parent_path [OF parent(1)] proper by auto
  define u where "u = hd (rem @ [s])"
  have u: "proper_segment u" using proper pr(1) by (cases rem) (auto simp: u_def)
  have psp: "\<forall>x \<in> set ps. proper_segment x" using proper pr(1) by simp
  obtain d where d: "walk t MAXSYMLINKS [] ps = Found d" "P = path_text d" "resolved t d" "path_segments P = d"
    using fs_realpath_Inr [OF wf pr(2)] walk_path_text [OF psp] by metis
  have "fs_realpath t (path_text (ps @ [u])) = Inl ENOENT"
    using pr gone by (cases rem) (simp_all add: u_def)
  then have stuck: "walk t MAXSYMLINKS [] (ps @ [u]) \<noteq> Found q" "walk t MAXSYMLINKS [] (ps @ [u]) = Fails e \<Longrightarrow> e = ENOENT" for q e
    using psp u by (auto simp: fs_realpath_def walk_path_text simp del: walk.simps split: walk_result.splits)
  have dir: "map_of t d = Some Dir"
    using d(3) walk_append_file [OF d(1) _ root wf, of _ "[u]"] stuck(2) by (auto simp: resolved_def)
  from walk_append_dir [OF d(1) this] obtain m where m: "m \<le> MAXSYMLINKS"
    "\<And>ys. walk t MAXSYMLINKS [] (ps @ ys) = walk t m d ys" by auto
  have sep: "u \<noteq> []" "u \<noteq> ''.''" "u \<noteq> ''..''" using u by (simp_all add: proper_segment_def)
  show ?thesis
  proof (rule that [OF pr(1) d(1) dir])
    show "prefix rt d" using parent(2) d(4) by simp
    have kind: "map_of t (d @ [u]) = None \<or> (\<exists>l. map_of t (d @ [u]) = Some (Symlink l))"
      using stuck(1) m(2) [of "[u]"] sep by (auto split: option.splits node.splits)
    show "rem = [] \<longrightarrow> map_of t (d @ [s]) = None"
    proof
      assume "rem = []"
      then have "butlast (split_on CHR ''/'' (path_text (xs @ [s]))) = [] # ps"
        "last (split_on CHR ''/'' (path_text (xs @ [s]))) = u"
        using split_path_text [OF proper] pr(1) by (simp_all add: u_def)
      then show "map_of t (d @ [s]) = None"
        using no_link kind sep d(1) dir \<open>rem = []\<close>
        by (auto simp: assertMissingWritableTargetHasNoSymlink_def fs_lstat_def Let_def u_def)
    qed
    show "rem \<noteq> [] \<longrightarrow> map_of t (d @ [hd rem]) \<noteq> None \<longrightarrow>
       (\<exists>e. make_dirs t d rem = (t, Some e)) \<and> (\<exists>e. walk t MAXSYMLINKS [] (xs @ [s]) = Fails e)"
    proof (intro impI)
      assume rem: "rem \<noteq> []" "map_of t (d @ [hd rem]) \<noteq> None"
      then obtain rest where rest: "rem = u # rest" by (cases rem) (auto simp: u_def)
      then obtain l where l: "map_of t (d @ [u]) = Some (Symlink l)" using kind rem by auto
      obtain e where e: "walk t m d [u] = Missing e \<or> walk t m d [u] = Fails ENOENT"
        using stuck m(2) [of "[u]"] by (cases "walk t m d [u]") auto
      then have "walk t MAXSYMLINKS d [u] = Missing e \<or> walk t MAXSYMLINKS d [u] = Fails ENOENT"
        using walk_more [OF _ _ m(1)] by blast
      then have "\<exists>e. make_dirs t d rem = (t, Some e)" using rest l sep by (auto simp del: walk.simps)
      moreover have "walk t MAXSYMLINKS [] ((ps @ [u]) @ (rest @ [s])) = Fails ENOENT"
        using e m(2) [of "[u]"] by (intro walk_append_stuck) auto
      ultimately show "(\<exists>e. make_dirs t d rem = (t, Some e)) \<and> (\<exists>e. walk t MAXSYMLINKS [] (xs @ [s]) = Fails e)"
        using pr(1) rest by auto
    qed
  qed
qed

text \<open>
  A path that is relative, or absolute and written without dots and double separators, resolves to
  the text of proper segments.
\<close>

definition plain_path :: "string \<Rightarrow> bool" where
  "plain_path p \<longleftrightarrow> isAbsolute p \<longrightarrow> p = path_text (path_segments p)"

lemma resolveCandidatePath_Inr:
  assumes "resolveCandidatePath t p root = Inr c" and "plain_path p"
  shows "c = path_text (path_segments c)"
proof (cases "isAbsolute p")
  case False
  then obtain r where "c = resolve_path r p"
    using assms(1) by (auto simp: resolveCandidatePath_def result_simps)
  then show ?thesis by (metis path_segments_resolve resolve_path_def)
qed (use assms in \<open>simp add: resolveCandidatePath_def plain_path_def\<close>)

lemma resolveWritable_cases:
  assumes "wf_fs t" and "resolveWritableWorkspacePath t p root = Inr r" and "plain_path p"
  obtains
    (existing) q rt where "r = path_text q" "resolved t q" "real_root t root = Some rt" "prefix rt q"
  | (missing) xs s w P rt where "r = path_text (xs @ [s])" "\<forall>x \<in> set (xs @ [s]). proper_segment x"
      "real_root t root = Some rt" "fs_realpath t r = Inl ENOENT" "find_parent_loop t w (path_text xs) = Inr P"
      "prefix rt (path_segments P)" "assertMissingWritableTargetHasNoSymlink t r = Inr ()"
proof -
  obtain c u where c: "resolveCandidatePath t p root = Inr c" "assertCandidateInsideWorkspace t c root = Inr u"
    using assms(2) by (auto simp: resolveWritableWorkspacePath_def result_simps)
  show ?thesis
  proof (cases "fs_realpath t c")
    case (Inr rp)
    then have "assertInsideWorkspace t rp root = Inr () \<and> rp = r"
      using assms(2) c
      by (auto simp: resolveWritableWorkspacePath_def result_simps isFileMissingError_def policy_error_def
          assertInsideWorkspace_def split: sum.splits if_splits)
    moreover obtain q where "rp = path_text q" "resolved t q" "path_segments rp = q"
      using fs_realpath_Inr [OF assms(1) Inr] by metis
    ultimately show ?thesis
      using existing assertInsideWorkspace_Inr [OF assms(1)] by metis
  next
    case (Inl e)
    then have e: "e = ENOENT" and rc: "r = c"
      and rest: "\<exists>P. findNearestExistingParent t c root = Inr P \<and> assertInsideWorkspace t P root = Inr ()"
        "assertMissingWritableTargetHasNoSymlink t c = Inr ()"
      using assms(2) c
      by (auto simp: resolveWritableWorkspacePath_def result_simps isFileMissingError_def split: if_splits)
    then obtain P where P: "findNearestExistingParent t c root = Inr P" "assertInsideWorkspace t P root = Inr ()"
      by auto
    obtain rt where rt: "real_root t root = Some rt" "prefix rt (path_segments P)"
      using assertInsideWorkspace_Inr [OF assms(1) P(2)] by auto
    have ctext: "c = path_text (path_segments c)" by (rule resolveCandidatePath_Inr [OF c(1) assms(3)])
    have "path_segments c \<noteq> []"
    proof
      assume "path_segments c = []"
      then have "fs_realpath t c = Inr ''/''"
        using ctext by (simp add: fs_realpath_def walk_path_def path_text_def)
      with Inl show False by simp
    qed
    then obtain xs s where xs: "path_segments c = xs @ [s]" by (metis rev_exhaust)
    have proper: "\<forall>x \<in> set (xs @ [s]). proper_segment x" using xs path_segments_proper by metis
    obtain w where "find_parent_loop t w (dirname c) = Inr P"
      using P(1) by (auto simp: findNearestExistingParent_def result_simps)
    moreover have "dirname c = path_text xs" using dirname_path_text [OF proper] xs ctext by simp
    ultimately show ?thesis
      using missing [of xs s rt w P] ctext xs rc proper rt rest(2) Inl e by simp
  qed
qed

text \<open>
  Creating the parent directories and writing the file, as the write and patch actions do once the
  path is resolved.
\<close>

lemma mkdir_existing:
  assumes "wf_fs t" and "resolved t q"
  shows "fs_mkdir t (dirname (path_text q)) = (t, None)"
proof (cases q rule: rev_cases)
  case Nil
  then show ?thesis by (simp add: fs_mkdir_def dirname_def path_text_def isAbsolute_def)
next
  case (snoc ys s)
  have proper: "\<forall>x \<in> set q. proper_segment x" by (rule resolved_proper [OF assms])
  have ys: "map_of t ys = Some Dir"
    using wf_fs_parent [OF assms(1), of ys s] assms(2) snoc by (auto simp: resolved_def)
  have "walk t MAXSYMLINKS [] ys = Found ys"
    using walk_direct [OF assms(1), of "[]" ys] ys by (simp add: resolved_def)
  then have "make_dirs t [] (ys @ []) = make_dirs t ys []"
    using assms(1) ys by (intro make_dirs_through) (auto simp: wf_fs_def)
  then show ?thesis
    using proper snoc by (simp add: fs_mkdir_def dirname_path_text split_path_text)
qed

lemma write_existing:
  assumes "wf_fs t" and "resolved t q" and "fs_writeFile t (path_text q) b = Inr t'"
  shows "t' = AList.update q (File b) t \<and> (\<exists>b0. map_of t q = Some (File b0))"
  using assms(3) by (auto simp: fs_writeFile_def walk_path_resolved [OF assms(1,2)] split: option.splits node.splits)

lemma map_le_new: "map_of t q = None \<Longrightarrow> map_of t \<subseteq>\<^sub>m map_of (AList.update q nd t)"
  by (auto simp: map_le_def js_map dom_def)

text \<open>What a write leaves behind: a well-formed tree, changed below the root only, with the bytes in place.\<close>

definition written :: "string list \<Rightarrow> fs \<Rightarrow> string \<Rightarrow> string \<Rightarrow> fs \<Rightarrow> bool" where
  "written rt t r b t' \<longleftrightarrow> wf_fs t' \<and> confined rt t t' \<and> grown t t' \<and> fs_readFile t' r = Inr b"

lemma written_existing:
  assumes "wf_fs t" and "resolved t q" and "prefix rt q" and "fs_writeFile t (path_text q) b = Inr t'"
  shows "written rt t (path_text q) b t'"
proof -
  obtain b0 where t': "t' = AList.update q (File b) t" "map_of t q = Some (File b0)"
    using write_existing [OF assms(1,2,4)] by auto
  moreover from this obtain p s where q: "q = p @ [s]"
    using assms(1) by (cases q rule: rev_cases) (auto simp: wf_fs_def)
  ultimately have "wf_fs t'"
    using assms(1) wf_fs_parent [of t p s] wf_fs_segment [of t p s] wf_fs_update [of t p s "File b"] by simp
  moreover have "resolved t' q" using t' by (simp add: resolved_def js_map)
  ultimately show ?thesis
    using t' assms(3) grown_update_file
    by (auto simp: written_def confined_update fs_readFile_def walk_path_resolved js_map)
qed

lemma written_new:
  assumes wf: "wf_fs t" and walk: "walk t MAXSYMLINKS [] xs = Found d" and dir: "map_of t d = Some Dir"
    and none: "map_of t (d @ [s]) = None" and rt: "prefix rt d"
    and proper: "\<forall>x \<in> set (xs @ [s]). proper_segment x"
    and put: "fs_writeFile t (path_text (xs @ [s])) b = Inr t'"
  shows "written rt t (path_text (xs @ [s])) b t'"
proof -
  have s: "proper_segment s" using proper by simp
  obtain m where m: "\<And>ys. walk t MAXSYMLINKS [] (xs @ ys) = walk t m d ys"
    using walk_append_dir [OF walk dir] by auto
  have "walk_path t (path_text (xs @ [s])) = Missing (d @ [s])"
    using m [of "[s]"] walk_new [OF wf, of d "[]" s m] dir none s proper by (simp add: walk_path_text)
  then have t': "t' = AList.update (d @ [s]) (File b) t" using put by (simp add: fs_writeFile_def)
  have wf': "wf_fs t'" unfolding t' using wf dir s by (rule wf_fs_update) (simp add: none)
  have dir': "map_of t' d = Some Dir" using dir t' by (simp add: js_map)
  have "walk t' MAXSYMLINKS [] xs = Found d"
    unfolding t' by (rule walk_larger [OF map_le_grown [OF map_le_new [OF none]] walk])
  then obtain m' where "\<And>ys. walk t' MAXSYMLINKS [] (xs @ ys) = walk t' m' d ys"
    using walk_append_dir [OF _ dir'] by blast
  moreover have "walk t' m' d [s] = Found (d @ [s])"
    using t' by (intro walk_direct [OF wf']) (simp add: resolved_def js_map)
  ultimately have "walk_path t' (path_text (xs @ [s])) = Found (d @ [s])"
    using proper by (simp add: walk_path_text del: walk.simps)
  then show ?thesis
    using wf' t' rt map_le_grown [OF map_le_new [OF none]]
    by (simp add: written_def confined_update fs_readFile_def js_map)
qed

text \<open>
  The parent directories and the file of a resolved writable path are made below the real workspace
  root, whether the path existed or not; a failing \<open>mkdir\<close> leaves only what is below the root too.
\<close>

lemma make_parents_confined:
  assumes "wf_fs t" and "resolveWritableWorkspacePath t p root = Inr r" and "plain_path p"
    and "real_root t root = Some rt"
  shows "\<exists>t1 e. fs_mkdir t (dirname r) = (t1, e) \<and> confined rt t t1 \<and> wf_fs t1 \<and> grown t t1
    \<and> (e = None \<longrightarrow> fs_writeFile t1 r b = Inr t2 \<longrightarrow> written rt t1 r b t2)"
  using assms(1-3)
proof (cases rule: resolveWritable_cases)
  case (existing q rt')
  then show ?thesis
    using assms mkdir_existing [OF assms(1) existing(2)] written_existing [OF assms(1) existing(2)] by simp
next
  case (missing xs s w P rt')
  have proper: "\<forall>x \<in> set xs. proper_segment x" using missing(2) by simp
  obtain ps rem d where d: "xs = ps @ rem" "walk t MAXSYMLINKS [] ps = Found d" "map_of t d = Some Dir" "prefix rt d"
    "rem = [] \<longrightarrow> map_of t (d @ [s]) = None"
    "rem \<noteq> [] \<longrightarrow> map_of t (d @ [hd rem]) \<noteq> None \<longrightarrow>
       (\<exists>e. make_dirs t d rem = (t, Some e)) \<and> (\<exists>e. walk t MAXSYMLINKS [] (xs @ [s]) = Fails e)"
    using missing_candidate [OF assms(1) missing(2) _ missing(5)] missing assms(4) by (metis option.inject)
  have mk: "fs_mkdir t (dirname r) = make_dirs t d rem"
  proof -
    have "make_dirs t [] xs = make_dirs t d rem"
      using make_dirs_through [OF d(2,3) _ assms(1)] assms(1) d(1) by (simp add: wf_fs_def)
    moreover have "fs_mkdir t (dirname r) = make_dirs t [] xs"
      using proper missing(1,2) by (simp add: fs_mkdir_def dirname_path_text split_path_text)
    ultimately show ?thesis by simp
  qed
  consider "rem = []" | u rest where "rem = u # rest" "map_of t (d @ [u]) = None"
    | "rem \<noteq> []" "map_of t (d @ [hd rem]) \<noteq> None" by (cases rem) auto
  then show ?thesis
  proof cases
    case 1
    then show ?thesis
      using mk d assms(1) missing(1,2) written_new [OF assms(1), of xs d s rt b t2] by simp
  next
    case 2
    have sub: "\<forall>x \<in> set (u # rest). proper_segment x" using proper d(1) 2(1) by simp
    obtain t1 where t1: "make_dirs t d (u # rest) = (t1, None)" "wf_fs t1" "map_of t \<subseteq>\<^sub>m map_of t1"
      "map_of t1 (d @ u # rest) = Some Dir" "confined d t t1" "\<forall>x. map_of t1 (d @ u # rest @ [x]) = None"
      using make_dirs_fresh [OF assms(1) d(3) 2(2) sub] by blast
    have dir1: "map_of t1 d = Some Dir" using t1(3) d(3) by (auto simp: map_le_def dom_def)
    obtain m where "\<And>ys. walk t1 MAXSYMLINKS [] (ps @ ys) = walk t1 m d ys"
      using walk_append_dir [OF walk_larger [OF map_le_grown [OF t1(3)] d(2)] dir1] by auto
    then have "walk t1 MAXSYMLINKS [] xs = Found (d @ rem)"
      using walk_direct [OF t1(2), of d rem m] t1(4) 2(1) d(1) by (simp add: resolved_def del: walk.simps)
    then have "fs_writeFile t1 r b = Inr t2 \<longrightarrow> written rt t1 r b t2"
      using written_new [OF t1(2), of xs "d @ rem" s rt b t2] t1(4,6) 2(1) d(4) missing(1,2)
      by (auto simp: prefix_def)
    then show ?thesis
      using mk 2(1) t1(1,2) confined_weaken [OF t1(5) d(4)] map_le_grown [OF t1(3)] by (simp del: make_dirs.simps)
  next
    case 3
    then show ?thesis using mk d(6) assms(1) by auto
  qed
qed

lemma plain_write_confined:
  assumes "wf_fs t" and "resolveWritableWorkspacePath t p root = Inr r" and "plain_path p"
    and "real_root t root = Some rt" and "fs_writeFile t r b = Inr t2"
  shows "written rt t r b t2"
  using assms(1-3)
proof (cases rule: resolveWritable_cases)
  case (existing q rt')
  then show ?thesis using assms written_existing by simp
next
  case (missing xs s w P rt')
  obtain ps rem d where d: "xs = ps @ rem" "walk t MAXSYMLINKS [] ps = Found d" "map_of t d = Some Dir" "prefix rt d"
    "rem = [] \<longrightarrow> map_of t (d @ [s]) = None"
    "rem \<noteq> [] \<longrightarrow> map_of t (d @ [hd rem]) \<noteq> None \<longrightarrow>
       (\<exists>e. make_dirs t d rem = (t, Some e)) \<and> (\<exists>e. walk t MAXSYMLINKS [] (xs @ [s]) = Fails e)"
    using missing_candidate [OF assms(1) missing(2) _ missing(5)] missing assms(4) by (metis option.inject)
  have "rem = []"
  proof (rule ccontr)
    assume rem: "rem \<noteq> []"
    obtain m where m: "\<And>ys. walk t MAXSYMLINKS [] (ps @ ys) = walk t m d ys"
      using walk_append_dir [OF d(2,3)] by auto
    have "\<exists>e. walk t MAXSYMLINKS [] (xs @ [s]) = Fails e"
    proof (cases "map_of t (d @ [hd rem])")
      case None
      have "proper_segment (hd rem)" using missing(2) d(1) rem by simp
      then have "walk t m d [hd rem] = Missing (d @ [hd rem])"
        using walk_new [OF assms(1), of d "[]" "hd rem" m] d(3) None by simp
      then have "walk t m d ([hd rem] @ (tl rem @ [s])) = Fails ENOENT" by (intro walk_append_stuck) auto
      moreover have "[hd rem] @ (tl rem @ [s]) = rem @ [s]" using rem by simp
      ultimately have "walk t m d (rem @ [s]) = Fails ENOENT" by (simp only:)
      then show ?thesis using m [of "rem @ [s]"] d(1) by (simp del: walk.simps)
    qed (use d(6) rem in auto)
    then show False
      using assms(5) missing(1,2) by (auto simp: fs_writeFile_def walk_path_text simp del: walk.simps)
  qed
  then show ?thesis using written_new [OF assms(1), of xs d s rt b t2] d assms(5) missing(1,2) by simp
qed

end
