(* ===== verification/Effects.thy ===== *)
theory Effects
  imports Prelude
begin

text \<open>
  Stateful code that may throw or never return: a function from the state to nothing, when the code
  never returns, or to the outcome and the state it leaves, also when it throws, because nothing is
  rolled back.  The locale says how far an \<open>await\<close> chain moves the state.
\<close>

type_synonym ('s, 'e, 'a) act = "'s \<Rightarrow> (('e + 'a) \<times> 's) option"

definition returnA :: "'a \<Rightarrow> ('s, 'e, 'a) act" where
  "returnA a s = Some (Inr a, s)"

definition throwA :: "'e \<Rightarrow> ('s, 'e, 'a) act" where
  "throwA e s = Some (Inl e, s)"

definition bindA :: "('s, 'e, 'a) act \<Rightarrow> ('a \<Rightarrow> ('s, 'e, 'b) act) \<Rightarrow> ('s, 'e, 'b) act" where
  "bindA m f s = (case m s of None \<Rightarrow> None | Some (Inl e, s') \<Rightarrow> Some (Inl e, s') | Some (Inr a, s') \<Rightarrow> f a s')"

text \<open>Code that only looks at the state, and a condition on an effect.\<close>

definition readA :: "('s \<Rightarrow> 'e + 'a) \<Rightarrow> ('s, 'e, 'a) act" where
  "readA f s = Some (f s, s)"

definition whenA :: "bool \<Rightarrow> ('s, 'e, unit) act \<Rightarrow> ('s, 'e, unit) act" where
  "whenA b m = (if b then m else returnA ())"

lemma effect_simps [simp]:
  "returnA a s = Some (Inr a, s)" "throwA e s = Some (Inl e, s)" "readA f s = Some (f s, s)"
  "whenA True m = m" "whenA False m = returnA ()"
  by (simp_all add: returnA_def throwA_def readA_def whenA_def)

lemma bindA_simps [simp]:
  "m s = None \<Longrightarrow> bindA m f s = None"
  "m s = Some (Inl e, s') \<Longrightarrow> bindA m f s = Some (Inl e, s')"
  "m s = Some (Inr a, s') \<Longrightarrow> bindA m f s = f a s'"
  by (simp_all add: bindA_def)

lemma bindA_cases:
  assumes "bindA m f s = Some (r, s'')"
  obtains (threw) e where "m s = Some (Inl e, s'')" "r = Inl e"
  | (went_on) a s' where "m s = Some (Inr a, s')" "f a s' = Some (r, s'')"
  using assms by (auto simp: bindA_def split: option.splits prod.splits sum.splits)

lemma bindA_Inr: "bindA m f s = Some (Inr b, s'') \<longleftrightarrow> (\<exists>a s'. m s = Some (Inr a, s') \<and> f a s' = Some (Inr b, s''))"
  by (auto simp: bindA_def split: option.splits prod.splits sum.splits)

subsection \<open>What a piece of code may do to the state\<close>

text \<open>\<open>moves R m\<close>: from any state, whatever the outcome, \<open>m\<close> ends in a state related by \<open>R\<close>.\<close>

definition moves :: "('s \<Rightarrow> 's \<Rightarrow> bool) \<Rightarrow> ('s, 'e, 'a) act \<Rightarrow> bool" where
  "moves R m \<longleftrightarrow> (\<forall>s r s'. m s = Some (r, s') \<longrightarrow> R s s')"

lemma movesD: "moves R m \<Longrightarrow> m s = Some (r, s') \<Longrightarrow> R s s'"
  by (simp add: moves_def)

locale move_relation =
  fixes R :: "'s \<Rightarrow> 's \<Rightarrow> bool"
  assumes refl: "R s s" and trans: "R s s' \<Longrightarrow> R s' s'' \<Longrightarrow> R s s''"
begin

lemma return: "moves R (returnA a)" and throw: "moves R (throwA e)" and read: "moves R (readA g)"
  by (simp_all add: moves_def refl)

lemma bind: "moves R m \<Longrightarrow> (\<And>a. moves R (f a)) \<Longrightarrow> moves R (bindA m f)"
  unfolding moves_def by (blast elim: bindA_cases intro: trans)

lemma whenever: "moves R m \<Longrightarrow> moves R (whenA b m)"
  by (simp add: whenA_def return)

lemmas intros = return throw read bind whenever

end

end
