(* ===== verification/Redaction.thy ===== *)
theory Redaction
  imports Json
begin

text \<open>
  What the audit log and the action summaries hide
  (\<open>packages/hcp-runner/src/mcp/redaction.ts\<close>).  The three patterns are written out: where they may
  start (\<open>\b\<close>), the words they look for without regard to case, and the characters the value runs
  over; \<open>String.replace\<close> with a global pattern scans from the left and goes on behind each match.
\<close>

definition REDACTED :: string where
  "REDACTED = ''[redacted]''"

definition lower_char :: "char \<Rightarrow> char" where
  "lower_char c = (let n = of_char c :: nat in if 65 \<le> n \<and> n \<le> 90 then char_of (n + 32) else c)"

definition is_letter :: "char \<Rightarrow> bool" where
  "is_letter c = (let n = of_char c :: nat in 65 \<le> n \<and> n \<le> 90 \<or> 97 \<le> n \<and> n \<le> 122)"

definition is_word :: "char \<Rightarrow> bool" where
  "is_word c = (is_letter c \<or> is_digit c \<or> c = CHR ''_'')"

definition starts_word :: "string \<Rightarrow> string \<Rightarrow> bool" where
  "starts_word s w = (map lower_char (take (length w) s) = w)"

subsection \<open>Sensitive keys\<close>

definition separators :: string where
  "separators = ''-_.''"

text \<open>\<open>api[-_.]?key\<close> and the like stand for four words each.\<close>

definition joined_words :: "string \<Rightarrow> string \<Rightarrow> string list" where
  "joined_words a b = (a @ b) # map (\<lambda>c. a @ [c] @ b) separators"

definition sensitive_words :: "string list" where
  "sensitive_words =
     [''authorization'', ''cookie'', ''token''] @ joined_words ''access'' ''token''
     @ joined_words ''refresh'' ''token'' @ joined_words ''api'' ''key''
     @ [''secret'', ''password'', ''passwd'', ''credential'', ''session'']"

definition sensitive_here :: "string \<Rightarrow> bool" where
  "sensitive_here s =
     list_ex (\<lambda>w. starts_word s w \<and> (case drop (length w) s of [] \<Rightarrow> True | c # _ \<Rightarrow> List.member separators c))
       sensitive_words"

fun sensitive_from :: "bool \<Rightarrow> string \<Rightarrow> bool" where
  "sensitive_from start [] = False"
| "sensitive_from start (c # cs) =
     (start \<and> sensitive_here (c # cs) \<or> sensitive_from (List.member separators c) cs)"

definition isSensitiveKey :: "string \<Rightarrow> bool" where
  "isSensitiveKey key = sensitive_from True key"

subsection \<open>Values in texts\<close>

text \<open>A matcher looks at the text from here and gives the replacement and the length of the match.\<close>

type_synonym matcher = "string \<Rightarrow> (string \<times> nat) option"

fun replace_from :: "matcher \<Rightarrow> bool \<Rightarrow> nat \<Rightarrow> string \<Rightarrow> string" where
  "replace_from m prev skip [] = []"
| "replace_from m prev (Suc skip) (c # cs) = replace_from m (is_word c) skip cs"
| "replace_from m prev 0 (c # cs) =
     (case (if prev then None else m (c # cs)) of
        None \<Rightarrow> c # replace_from m (is_word c) 0 cs
      | Some (replacement, n) \<Rightarrow> replacement @ replace_from m (is_word c) (n - 1) cs)"

definition is_auth_char :: "char \<Rightarrow> bool" where
  "is_auth_char c = (is_letter c \<or> is_digit c \<or> List.member ''._~+/=-'' c)"

fun auth_match :: "string list \<Rightarrow> matcher" where
  "auth_match [] s = None"
| "auth_match (w # ws) s =
     (let r = drop (length w) s; gap = takeWhile is_space r;
          value = takeWhile is_auth_char (dropWhile is_space r) in
      if starts_word s w \<and> gap \<noteq> [] \<and> value \<noteq> []
      then Some (take (length w) s @ '' '' @ REDACTED, length w + length gap + length value)
      else auth_match ws s)"

fun assignment_match :: "string list \<Rightarrow> matcher" where
  "assignment_match [] s = None"
| "assignment_match (w # ws) s =
     (case drop (length w) s of
        [] \<Rightarrow> assignment_match ws s
      | e # r \<Rightarrow>
          let value = takeWhile (\<lambda>c. c \<noteq> CHR ''&'' \<and> \<not> is_space c) r in
          if starts_word s w \<and> e = CHR ''='' \<and> value \<noteq> []
          then Some (take (length w) s @ ''='' @ REDACTED, length w + 1 + length value)
          else assignment_match ws s)"

definition redactString :: "string \<Rightarrow> string" where
  "redactString value =
     replace_from (assignment_match
         [''token'', ''access_token'', ''refresh_token'', ''api_key'', ''apikey'', ''secret'', ''password''])
       False 0
       (replace_from (auth_match [''bearer'', ''basic'']) False 0 value)"

subsection \<open>Values\<close>

fun redactValue :: "json \<Rightarrow> json" where
  "redactValue (JStr s) = JStr (redactString s)"
| "redactValue (JArr vs) = JArr (map redactValue vs)"
| "redactValue (JObj kvs) =
     JObj (map (\<lambda>(key, nested). (key, if isSensitiveKey key then JStr REDACTED else redactValue nested)) kvs)"
| "redactValue JNull = JNull"
| "redactValue (JBool b) = JBool b"
| "redactValue (JNum i) = JNum i"

definition redactHeaders :: "(string \<times> string) list option \<Rightarrow> (string \<times> string) list option" where
  "redactHeaders headers =
     (case headers of None \<Rightarrow> None
      | Some hs \<Rightarrow> Some (map (\<lambda>(key, value). (key, if isSensitiveKey key then REDACTED else redactString value)) hs))"

subsection \<open>What is hidden\<close>

text \<open>Every value under a sensitive key, at any depth, is the placeholder, and every other text is a redacted one.\<close>

fun hides_secrets :: "json \<Rightarrow> bool" where
  "hides_secrets (JStr s) = (\<exists>t. s = redactString t)"
| "hides_secrets (JArr vs) = list_all hides_secrets vs"
| "hides_secrets (JObj kvs) =
     list_all (\<lambda>(key, nested). if isSensitiveKey key then nested = JStr REDACTED else hides_secrets nested) kvs"
| "hides_secrets v = True"

text \<open>What redaction keeps: the kind of every value, the lengths, and the keys with their order.\<close>

fun same_shape :: "json \<Rightarrow> json \<Rightarrow> bool" where
  "same_shape (JStr s) w = (case w of JStr _ \<Rightarrow> True | _ \<Rightarrow> False)"
| "same_shape (JArr vs) w = (case w of JArr ws \<Rightarrow> list_all2 same_shape vs ws | _ \<Rightarrow> False)"
| "same_shape (JObj kvs) w =
     (case w of JObj lws \<Rightarrow>
        list_all2 (\<lambda>(k, v) (l, u). k = l \<and> (if isSensitiveKey k then True else same_shape v u)) kvs lws
      | _ \<Rightarrow> False)"
| "same_shape v w = (w = v)"


end
