(* ===== verification/Process_Runner.thy ===== *)
theory Process_Runner
  imports Prelude
begin

text \<open>
  Running a child process to its end (\<open>runProcess\<close> in
  \<open>packages/hcp-runner/src/local-actions/executors.ts\<close>) as a state machine: the callbacks the code
  registers are its events, in the order the runtime calls them, and a timer can only fire while it is
  armed.  A byte string is a list of characters; \<open>enc\<close> and \<open>dec\<close> are the UTF-8 codec of \<open>Buffer\<close>.
\<close>

record ProcessOutput =
  out_exitCode :: "int option"
  out_signal :: "string option"
  out_stdout :: string
  out_stderr :: string
  out_timedOut :: bool
  out_stdoutTruncated :: bool
  out_stderrTruncated :: bool

definition MAX_CAPTURED_OUTPUT_BYTES :: nat where
  "MAX_CAPTURED_OUTPUT_BYTES = 64 * 1024"

record codec =
  enc :: "string \<Rightarrow> string"
  dec :: "string \<Rightarrow> string"

record process_limits =
  pl_stdoutByteLimit :: "nat option"
  pl_stderrByteLimit :: "nat option"

definition limit_of :: "nat option \<Rightarrow> nat" where
  "limit_of l = (case l of None \<Rightarrow> MAX_CAPTURED_OUTPUT_BYTES | Some n \<Rightarrow> n)"

subsection \<open>The machine\<close>

record process_state =
  pr_stdout :: string
  pr_stderr :: string
  pr_timedOut :: bool
  pr_stdoutTruncated :: bool
  pr_stderrTruncated :: bool
  pr_settled :: "(string + ProcessOutput) option"
  pr_timeout :: bool
  pr_forceKillTimeout :: bool
  pr_forceKillSettleTimeout :: bool
  pr_exitCode :: "int option"
  pr_signalCode :: "string option"
  pr_sent :: "string list"

datatype process_event =
    Stdout_data string
  | Stderr_data string
  | Timeout_fires
  | Force_kill_fires
  | Force_kill_settle_fires
  | Aborted
  | Child_exit "int option" "string option"
  | Child_error string
  | Child_close "int option" "string option"

definition process_started :: process_state where
  "process_started = \<lparr>pr_stdout = [], pr_stderr = [], pr_timedOut = False, pr_stdoutTruncated = False,
     pr_stderrTruncated = False, pr_settled = None, pr_timeout = True, pr_forceKillTimeout = False,
     pr_forceKillSettleTimeout = False, pr_exitCode = None, pr_signalCode = None, pr_sent = []\<rparr>"

definition appendLimited :: "codec \<Rightarrow> string \<Rightarrow> string \<Rightarrow> nat \<Rightarrow> string \<times> bool" where
  "appendLimited c existing chunk limitBytes =
     (let combined = enc c existing @ chunk in
      if length combined \<le> limitBytes then (dec c combined, False)
      else (dec c (take limitBytes combined), True))"

definition clearProcessTimers :: "process_state \<Rightarrow> process_state" where
  "clearProcessTimers s = s\<lparr>pr_timeout := False, pr_forceKillTimeout := False, pr_forceKillSettleTimeout := False\<rparr>"

definition resolveOutput :: "int option \<Rightarrow> string option \<Rightarrow> process_state \<Rightarrow> process_state" where
  "resolveOutput exitCode signal s =
     (if pr_settled s \<noteq> None then s
      else (clearProcessTimers s)\<lparr>pr_settled := Some (Inr
        \<lparr>out_exitCode = exitCode, out_signal = signal, out_stdout = pr_stdout s, out_stderr = pr_stderr s,
         out_timedOut = pr_timedOut s, out_stdoutTruncated = pr_stdoutTruncated s,
         out_stderrTruncated = pr_stderrTruncated s\<rparr>)\<rparr>)"

text \<open>\<open>killProcessTree\<close> is the signal sent to the child's process group.\<close>

definition terminateChild :: "string \<Rightarrow> process_state \<Rightarrow> process_state" where
  "terminateChild signal s =
     (if pr_exitCode s \<noteq> None \<or> pr_signalCode s \<noteq> None then s
      else let s = s\<lparr>pr_sent := pr_sent s @ [signal]\<rparr> in
        if pr_forceKillTimeout s \<or> pr_forceKillSettleTimeout s then s
        else s\<lparr>pr_forceKillTimeout := True\<rparr>)"

fun process_step :: "codec \<Rightarrow> process_limits \<Rightarrow> process_event \<Rightarrow> process_state \<Rightarrow> process_state" where
  "process_step c l (Stdout_data chunk) s =
     (let (value, truncated) = appendLimited c (pr_stdout s) chunk (limit_of (pl_stdoutByteLimit l)) in
      s\<lparr>pr_stdout := value, pr_stdoutTruncated := pr_stdoutTruncated s \<or> truncated\<rparr>)"
| "process_step c l (Stderr_data chunk) s =
     (let (value, truncated) = appendLimited c (pr_stderr s) chunk (limit_of (pl_stderrByteLimit l)) in
      s\<lparr>pr_stderr := value, pr_stderrTruncated := pr_stderrTruncated s \<or> truncated\<rparr>)"
| "process_step c l Timeout_fires s =
     (if pr_timeout s then terminateChild ''SIGTERM'' (s\<lparr>pr_timeout := False, pr_timedOut := True\<rparr>) else s)"
| "process_step c l Force_kill_fires s =
     (if pr_forceKillTimeout s
      then s\<lparr>pr_forceKillTimeout := False, pr_sent := pr_sent s @ [''SIGKILL''], pr_forceKillSettleTimeout := True\<rparr>
      else s)"
| "process_step c l Force_kill_settle_fires s =
     (if pr_forceKillSettleTimeout s
      then resolveOutput (pr_exitCode s) (case pr_signalCode s of None \<Rightarrow> Some ''SIGKILL'' | Some g \<Rightarrow> Some g)
             (s\<lparr>pr_forceKillSettleTimeout := False\<rparr>)
      else s)"
| "process_step c l Aborted s = (if pr_settled s \<noteq> None then s else terminateChild ''SIGTERM'' s)"
| "process_step c l (Child_exit code sig) s = s\<lparr>pr_exitCode := code, pr_signalCode := sig\<rparr>"
| "process_step c l (Child_error message) s =
     (if pr_settled s \<noteq> None then s else (clearProcessTimers s)\<lparr>pr_settled := Some (Inl message)\<rparr>)"
| "process_step c l (Child_close code sig) s = resolveOutput code sig (s\<lparr>pr_exitCode := code, pr_signalCode := sig\<rparr>)"

definition process_run :: "codec \<Rightarrow> process_limits \<Rightarrow> process_event list \<Rightarrow> process_state \<Rightarrow> process_state" where
  "process_run c l es s = foldl (\<lambda>s e. process_step c l e s) s es"

text \<open>What the promise settles with when the runtime calls back with these events; nothing if it does not.\<close>

definition runProcess :: "codec \<Rightarrow> process_limits \<Rightarrow> process_event list \<Rightarrow> (string + ProcessOutput) option" where
  "runProcess c l es = pr_settled (process_run c l es process_started)"

subsection \<open>Settling\<close>

lemma process_run_simps [simp]:
  "process_run c l [] s = s"
  "process_run c l (e # es) s = process_run c l es (process_step c l e s)"
  "process_run c l (es @ fs) s = process_run c l fs (process_run c l es s)"
  by (simp_all add: process_run_def)

text \<open>An invariant of a step is one of a run.\<close>

lemma process_run_invariant:
  "(\<And>e s. e \<in> set es \<Longrightarrow> I s \<Longrightarrow> I (process_step c l e s)) \<Longrightarrow> I s \<Longrightarrow> I (process_run c l es s)"
  by (induction es arbitrary: s) simp_all

lemmas process_defs = resolveOutput_def clearProcessTimers_def terminateChild_def Let_def

lemma step_settled: "pr_settled s = Some x \<Longrightarrow> pr_settled (process_step c l e s) = Some x"
  by (cases e) (simp_all add: process_defs split: prod.split)

definition child_gone :: "process_state \<Rightarrow> bool" where
  "child_gone s \<longleftrightarrow> pr_exitCode s \<noteq> None \<or> pr_signalCode s \<noteq> None"

definition reports_exit :: "process_event \<Rightarrow> bool" where
  "reports_exit e = (case e of Child_exit code sig \<Rightarrow> code \<noteq> None \<or> sig \<noteq> None | _ \<Rightarrow> False)"

text \<open>Settled, or something is still armed that leads there.\<close>

definition force_pending :: "process_state \<Rightarrow> bool" where
  "force_pending s \<longleftrightarrow> pr_settled s \<noteq> None \<or> pr_forceKillTimeout s \<or> pr_forceKillSettleTimeout s"

definition settle_pending :: "process_state \<Rightarrow> bool" where
  "settle_pending s \<longleftrightarrow> pr_settled s \<noteq> None \<or> pr_forceKillSettleTimeout s"

lemma step_settle_pending: "settle_pending s \<Longrightarrow> settle_pending (process_step c l e s)"
  by (cases e) (auto simp: settle_pending_def process_defs split: prod.split)

lemma step_force_pending: "force_pending s \<Longrightarrow> force_pending (process_step c l e s)"
  by (cases e) (auto simp: force_pending_def process_defs split: prod.split)

lemma settle_fires_settles: "settle_pending s \<Longrightarrow> pr_settled (process_step c l Force_kill_settle_fires s) \<noteq> None"
  by (auto simp: settle_pending_def process_defs)

definition waiting :: "process_state \<Rightarrow> bool" where
  "waiting s \<longleftrightarrow> force_pending s \<or> pr_timeout s \<and> \<not> child_gone s"

lemma step_waiting: "\<not> reports_exit e \<Longrightarrow> waiting s \<Longrightarrow> waiting (process_step c l e s)"
  by (cases e) (auto simp: waiting_def force_pending_def child_gone_def reports_exit_def process_defs split: prod.split)

text \<open>A process run is settled once: whatever the runtime calls back later, the outcome stays.\<close>

theorem process_settles_once:
  assumes "runProcess c l es = Some x"
  shows "runProcess c l (es @ fs) = Some x"
  using assms process_run_invariant [of fs "\<lambda>s. pr_settled s = Some x" c l "process_run c l es process_started"] step_settled
  by (simp add: runProcess_def)

theorem process_settles_once_witness:
  "runProcess \<lparr>enc = id, dec = id\<rparr> \<lparr>pl_stdoutByteLimit = None, pl_stderrByteLimit = None\<rparr>
     ([Child_error ''spawn ls ENOENT''] @ [Child_close (Some 0) None, Timeout_fires]) = Some (Inl ''spawn ls ENOENT'')"
proof -
  have "runProcess \<lparr>enc = id, dec = id\<rparr> \<lparr>pl_stdoutByteLimit = None, pl_stderrByteLimit = None\<rparr>
     [Child_error ''spawn ls ENOENT''] = Some (Inl ''spawn ls ENOENT'')"
    by (simp add: runProcess_def process_started_def process_defs)
  from process_settles_once [OF this] show ?thesis .
qed

text \<open>C32: A timeout ends the run.  As long as the child itself has not exited when the timeout fires,
  the run is settled at the latest when the two force-kill timers it leads to have fired, whatever else
  happens in between.\<close>

theorem process_timeout_settles:
  assumes "list_all (\<lambda>e. \<not> reports_exit e) before"
  shows "runProcess c l (before @ [Timeout_fires] @ fs @ [Force_kill_fires] @ gs @ [Force_kill_settle_fires]) \<noteq> None"
proof -
  let ?s = "process_run c l before process_started"
  have "waiting ?s"
  proof (rule process_run_invariant [where I = waiting])
    show "waiting process_started" by (simp add: waiting_def process_started_def child_gone_def)
  qed (use assms step_waiting in \<open>auto simp: list_all_iff\<close>)
  then have "force_pending (process_step c l Timeout_fires ?s)"
    by (auto simp: waiting_def force_pending_def child_gone_def process_defs)
  then have "force_pending (process_run c l fs (process_step c l Timeout_fires ?s))"
    by (rule process_run_invariant [where I = force_pending, rotated]) (rule step_force_pending)
  then have "settle_pending (process_step c l Force_kill_fires (process_run c l fs (process_step c l Timeout_fires ?s)))"
    by (auto simp: force_pending_def settle_pending_def)
  then have "settle_pending (process_run c l gs (process_step c l Force_kill_fires (process_run c l fs (process_step c l Timeout_fires ?s))))"
    by (rule process_run_invariant [where I = settle_pending, rotated]) (rule step_settle_pending)
  then have "pr_settled (process_step c l Force_kill_settle_fires (process_run c l gs
      (process_step c l Force_kill_fires (process_run c l fs (process_step c l Timeout_fires ?s))))) \<noteq> None"
    by (rule settle_fires_settles)
  then show ?thesis unfolding runProcess_def process_run_simps .
qed

theorem process_timeout_settles_witness:
  "runProcess \<lparr>enc = id, dec = id\<rparr> \<lparr>pl_stdoutByteLimit = None, pl_stderrByteLimit = None\<rparr>
     ([Stdout_data ''x'', Aborted] @ [Timeout_fires] @ [Child_exit None (Some ''SIGTERM'')] @ [Force_kill_fires] @ [] @ [Force_kill_settle_fires])
   \<noteq> None"
  by (rule process_timeout_settles) (simp add: reports_exit_def)

text \<open>
  A child that has exited while another process keeps its pipes open is different: \<open>close\<close> does not
  come, and the timeout does nothing, because \<open>terminateChild\<close> returns at once for an exited child.
\<close>

definition waits_for_pipes :: "process_event \<Rightarrow> bool" where
  "waits_for_pipes e = (case e of Child_close _ _ \<Rightarrow> False | Child_error _ \<Rightarrow> False | Child_exit _ _ \<Rightarrow> False | _ \<Rightarrow> True)"

lemma exited_child_outlives_timeout:
  assumes "list_all waits_for_pipes es"
  shows "runProcess c l (Child_exit (Some 0) None # es) = None"
proof -
  let ?I = "\<lambda>s. child_gone s \<and> pr_settled s = None \<and> \<not> pr_forceKillTimeout s \<and> \<not> pr_forceKillSettleTimeout s"
  have "?I (process_run c l es (process_step c l (Child_exit (Some 0) None) process_started))"
  proof (rule process_run_invariant)
    fix e s
    assume "e \<in> set es" "?I s"
    then have "waits_for_pipes e" using assms by (simp add: list_all_iff)
    with \<open>?I s\<close> show "?I (process_step c l e s)"
      by (cases e) (auto simp: waits_for_pipes_def child_gone_def process_defs split: prod.split)
  qed (simp add: process_started_def child_gone_def)
  then show ?thesis by (simp add: runProcess_def)
qed

subsection \<open>Captured output\<close>

definition is_ascii :: "char \<Rightarrow> bool" where
  "is_ascii ch = ((of_char ch :: nat) < 128)"

text \<open>What UTF-8 does with ASCII bytes.\<close>

definition ascii_codec :: "codec \<Rightarrow> bool" where
  "ascii_codec c \<longleftrightarrow> (\<forall>b. list_all is_ascii b \<longrightarrow> enc c b = b \<and> dec c b = b)"

fun stdout_chunk :: "process_event \<Rightarrow> string" where
  "stdout_chunk (Stdout_data chunk) = chunk"
| "stdout_chunk e = []"

definition stdout_bytes :: "process_event list \<Rightarrow> string" where
  "stdout_bytes es = concat (map stdout_chunk es)"

text \<open>Bounded capture.  Of an ASCII output the run keeps exactly the first bytes up to the limit,
  in order and however it was split into chunks, and reports truncation exactly when there was more.\<close>

theorem captured_stdout_is_prefix:
  assumes "ascii_codec c" and "list_all is_ascii (stdout_bytes es)"
  shows "pr_stdout (process_run c l es process_started) = take (limit_of (pl_stdoutByteLimit l)) (stdout_bytes es)
    \<and> pr_stdoutTruncated (process_run c l es process_started) = (limit_of (pl_stdoutByteLimit l) < length (stdout_bytes es))"
  using assms(2)
proof (induction es rule: rev_induct)
  case Nil
  then show ?case by (simp add: process_started_def stdout_bytes_def)
next
  case (snoc e es)
  let ?L = "limit_of (pl_stdoutByteLimit l)"
  have ascii: "list_all is_ascii (stdout_bytes es)" "list_all is_ascii (stdout_chunk e)"
    and all: "stdout_bytes (es @ [e]) = stdout_bytes es @ stdout_chunk e"
    using snoc.prems by (simp_all add: stdout_bytes_def)
  have codec: "enc c b = b" "dec c b = b" if "list_all is_ascii b" for b
    using assms(1) that by (simp_all add: ascii_codec_def)
  have part: "list_all is_ascii (take n (stdout_bytes es))" for n
    using ascii(1) by (auto simp: list_all_iff dest: in_set_takeD)
  have parts: "list_all is_ascii (take n (take k (stdout_bytes es) @ stdout_chunk e))" for n k
    using part [of k] part [of "min n k"] ascii(2) by (auto simp: list_all_iff dest: in_set_takeD)
  note IH = snoc.IH [OF ascii(1)]
  show ?case
  proof (cases e)
    case (Stdout_data chunk)
    have "dec c (take ?L (stdout_bytes es) @ chunk) = take ?L (stdout_bytes es) @ chunk"
      using part [of ?L] ascii(2) Stdout_data by (intro codec(2)) (auto simp: list_all_iff)
    then show ?thesis
      using IH Stdout_data all codec part parts [of ?L ?L]
      by (auto simp: appendLimited_def Let_def min_def)
  next
    case (Stderr_data chunk)
    then show ?thesis using IH all by (simp split: prod.split)
  qed (use IH all in \<open>auto simp: process_defs\<close>)
qed

theorem captured_stdout_is_prefix_witness:
  "pr_stdout (process_run \<lparr>enc = id, dec = id\<rparr> \<lparr>pl_stdoutByteLimit = Some 3, pl_stderrByteLimit = None\<rparr>
      [Stdout_data ''ab'', Stderr_data ''e'', Stdout_data ''cd''] process_started) = ''abc''"
proof -
  have "ascii_codec \<lparr>enc = id, dec = id\<rparr>" by (simp add: ascii_codec_def)
  moreover have "list_all is_ascii (stdout_bytes [Stdout_data ''ab'', Stderr_data ''e'', Stdout_data ''cd''])"
    by (simp add: stdout_bytes_def is_ascii_def)
  ultimately show ?thesis
    using captured_stdout_is_prefix
      [of "\<lparr>enc = id, dec = id\<rparr>" "[Stdout_data ''ab'', Stderr_data ''e'', Stdout_data ''cd'']"
        "\<lparr>pl_stdoutByteLimit = Some 3, pl_stderrByteLimit = None\<rparr>"]
    by (simp add: stdout_bytes_def limit_of_def)
qed

end
