(* ===== verification/Local_Action_Types.thy ===== *)
theory Local_Action_Types
  imports Protocol
begin

text \<open>
  The data of local actions (\<open>packages/hcp-protocol/src/index.ts\<close>, from \<open>LOCAL_ACTION_TYPES\<close> to
  \<open>LocalActionErrorPayload\<close>): what the control plane may ask a runner to do on the user's machine,
  and what the runner answers.  The discriminated unions over \<open>action\<close> are datatypes with one
  constructor per action, from which the action is read back.
\<close>

subsection \<open>Actions and bindings\<close>

datatype LocalActionType =
    Local_filesystem_read
  | Local_filesystem_list
  | Local_filesystem_write
  | Local_filesystem_patch
  | Local_git_status
  | Local_git_diff
  | Local_shell_exec
  | Local_dev_server_start
  | Local_dev_server_stop

definition LOCAL_ACTION_TYPES :: "LocalActionType list" where
  "LOCAL_ACTION_TYPES =
     [Local_filesystem_read, Local_filesystem_list, Local_filesystem_write, Local_filesystem_patch,
      Local_git_status, Local_git_diff, Local_shell_exec, Local_dev_server_start, Local_dev_server_stop]"

fun action_name :: "LocalActionType \<Rightarrow> string" where
  "action_name Local_filesystem_read = ''local.filesystem.read''"
| "action_name Local_filesystem_list = ''local.filesystem.list''"
| "action_name Local_filesystem_write = ''local.filesystem.write''"
| "action_name Local_filesystem_patch = ''local.filesystem.patch''"
| "action_name Local_git_status = ''local.git.status''"
| "action_name Local_git_diff = ''local.git.diff''"
| "action_name Local_shell_exec = ''local.shell.exec''"
| "action_name Local_dev_server_start = ''local.dev_server.start''"
| "action_name Local_dev_server_stop = ''local.dev_server.stop''"

datatype LocalActionProtocolCapabilityId = Cap_filesystem | Cap_git | Cap_shell | Cap_dev_server

fun capability_name :: "LocalActionProtocolCapabilityId \<Rightarrow> string" where
  "capability_name Cap_filesystem = ''filesystem''"
| "capability_name Cap_git = ''git''"
| "capability_name Cap_shell = ''shell''"
| "capability_name Cap_dev_server = ''dev_server''"

record LocalActionAttribution =
  att_session_id :: string
  att_turn_id :: string
  att_workspace_id :: string
  att_provider_instance_id :: string

record LocalActionLeaseBinding =
  lb_lease_id :: string
  lb_capability_id :: LocalActionProtocolCapabilityId
  lb_scope :: string
  lb_hcp_session_id :: string
  lb_execution_host_id :: string
  lb_provider_instance_id :: string
  lb_workspace_id :: string
  lb_expires_at :: "string option"

record LocalActionSandboxRequirements =
  sb_mode :: sandbox_mode
  sb_workspace_root :: string
  sb_cwd :: string
  sb_requires_workspace_containment :: bool

record LocalActionOutputLimits =
  lim_content_bytes :: "int option"
  lim_entries :: "int option"
  lim_status_bytes :: "int option"
  lim_diff_bytes :: "int option"
  lim_stdout_bytes :: "int option"
  lim_stderr_bytes :: "int option"

record LocalActionCancellation =
  can_cancellable :: bool
  can_timeout_ms :: "int option"
  can_token :: "string option"

datatype approval_decision = Accept | Accept_for_session

record approved_binding =
  ap_request_id :: string
  ap_action_hash :: string
  ap_decision :: approval_decision
  ap_actor_id :: string
  ap_approved_at :: string

datatype LocalActionApprovalBinding = Not_required | Approved approved_binding

datatype audit_event_type = Action_started | Action_completed | Action_failed

fun audit_event_name :: "audit_event_type \<Rightarrow> string" where
  "audit_event_name Action_started = ''local_capability.action.started''"
| "audit_event_name Action_completed = ''local_capability.action.completed''"
| "audit_event_name Action_failed = ''local_capability.action.failed''"

text \<open>\<open>LocalActionAuditMapping\<close> has three literal fields, so its only value carries nothing.\<close>

type_synonym LocalActionAuditMapping = unit

record LocalActionAuditEventRef =
  ref_event_type :: audit_event_type
  ref_sequence :: "int option"

record LocalActionResponseAuditEvents =
  rae_started :: "LocalActionAuditEventRef option"
  rae_completed :: LocalActionAuditEventRef

record LocalActionErrorAuditEvents =
  eae_started :: "LocalActionAuditEventRef option"
  eae_failed :: LocalActionAuditEventRef

subsection \<open>Inputs\<close>

datatype content_encoding = Utf8 | Base64
datatype write_mode = Mode_create | Mode_overwrite
datatype porcelain_version = Porcelain_v1 | Porcelain_v2
datatype dev_server_host = Host_127_0_0_1 | Host_localhost
datatype stop_signal = SIGTERM | SIGKILL

record byte_range =
  range_start :: "int option"
  range_length :: "int option"

record LocalFilesystemReadInput =
  fr_path :: string
  fr_encoding :: "content_encoding option"
  fr_range :: "byte_range option"

record LocalFilesystemListInput =
  fl_path :: string
  fl_recursive :: "bool option"
  fl_include_hidden :: "bool option"
  fl_max_depth :: "int option"

record LocalFilesystemWriteInput =
  fw_path :: string
  fw_content :: string
  fw_encoding :: "content_encoding option"
  fw_mode :: write_mode
  fw_create_parents :: bool
  fw_expected_base_hash :: "string option"

record LocalFilesystemPatchInput =
  fp_path :: string
  fp_expected_base_hash :: string
  fp_patch_content :: string
  fp_create_if_missing :: "bool option"

record LocalGitStatusInput =
  gs_porcelain_version :: porcelain_version
  gs_include_branch :: "bool option"

record LocalGitDiffInput =
  gd_paths :: "string list option"
  gd_staged :: "bool option"
  gd_base_ref :: "string option"

record LocalShellExecInput =
  se_executable :: string
  se_argv :: "string list"
  se_cwd :: string
  se_use_shell :: bool
  se_env :: "(string \<times> string) list option"
  se_stdin :: "string option"

record readiness =
  rd_url :: "string option"
  rd_timeout_ms :: int

record LocalDevServerStartInput =
  ds_server_id :: string
  ds_executable :: string
  ds_argv :: "string list"
  ds_cwd :: string
  ds_host :: dev_server_host
  ds_port :: int
  ds_use_shell :: bool
  ds_env :: "(string \<times> string) list option"
  ds_readiness :: "readiness option"

record LocalDevServerStopInput =
  dp_server_id :: string
  dp_signal :: "stop_signal option"
  dp_timeout_ms :: "int option"

subsection \<open>Requests\<close>

datatype local_action_input =
    In_filesystem_read LocalFilesystemReadInput
  | In_filesystem_list LocalFilesystemListInput
  | In_filesystem_write LocalFilesystemWriteInput
  | In_filesystem_patch LocalFilesystemPatchInput
  | In_git_status LocalGitStatusInput
  | In_git_diff LocalGitDiffInput
  | In_shell_exec LocalShellExecInput
  | In_dev_server_start LocalDevServerStartInput
  | In_dev_server_stop LocalDevServerStopInput

fun input_action :: "local_action_input \<Rightarrow> LocalActionType" where
  "input_action (In_filesystem_read _) = Local_filesystem_read"
| "input_action (In_filesystem_list _) = Local_filesystem_list"
| "input_action (In_filesystem_write _) = Local_filesystem_write"
| "input_action (In_filesystem_patch _) = Local_filesystem_patch"
| "input_action (In_git_status _) = Local_git_status"
| "input_action (In_git_diff _) = Local_git_diff"
| "input_action (In_shell_exec _) = Local_shell_exec"
| "input_action (In_dev_server_start _) = Local_dev_server_start"
| "input_action (In_dev_server_stop _) = Local_dev_server_stop"

record LocalActionRequestPayload =
  req_request_id :: string
  req_issued_at :: string
  req_attribution :: LocalActionAttribution
  req_lease :: LocalActionLeaseBinding
  req_sandbox :: LocalActionSandboxRequirements
  req_approval :: LocalActionApprovalBinding
  req_output_limits :: LocalActionOutputLimits
  req_cancellation :: LocalActionCancellation
  req_audit :: LocalActionAuditMapping
  req_input :: local_action_input

definition req_action :: "LocalActionRequestPayload \<Rightarrow> LocalActionType" where
  "req_action r = input_action (req_input r)"

subsection \<open>Outputs and responses\<close>

datatype entry_type = Entry_file | Entry_directory | Entry_other

record list_entry =
  le_name :: string
  le_type :: entry_type

record LocalFilesystemReadOutput =
  ro_path :: string
  ro_content :: string
  ro_encoding :: content_encoding
  ro_hash :: string
  ro_truncated :: "bool option"

record LocalFilesystemListOutput =
  lo_path :: string
  lo_entries :: "list_entry list"
  lo_truncated :: "bool option"

record LocalFilesystemWriteOutput =
  wo_path :: string
  wo_bytes_written :: int
  wo_new_hash :: string

record LocalFilesystemPatchOutput =
  po_path :: string
  po_changed :: bool
  po_new_hash :: string

record LocalGitStatusOutput =
  so_porcelain :: string
  so_branch :: "string option"
  so_truncated :: "bool option"

record LocalGitDiffOutput =
  do_diff :: string
  do_truncated :: "bool option"

text \<open>\<open>signal?: string | null\<close>: the outer option is presence, the inner one \<open>null\<close>.\<close>

record LocalShellExecOutput =
  xo_executable :: string
  xo_argv :: "string list"
  xo_cwd :: string
  xo_exit_code :: "int option"
  xo_signal :: "string option option"
  xo_stdout :: string
  xo_stderr :: string
  xo_timed_out :: bool
  xo_stdout_truncated :: "bool option"
  xo_stderr_truncated :: "bool option"

record LocalDevServerStartOutput =
  to_server_id :: string
  to_pid :: int
  to_host :: string
  to_port :: int
  to_cwd :: string
  to_started_at :: string
  to_url :: "string option"

record LocalDevServerStopOutput =
  eo_server_id :: string
  eo_stopped_at :: string

datatype local_action_output =
    Out_filesystem_read LocalFilesystemReadOutput
  | Out_filesystem_list LocalFilesystemListOutput
  | Out_filesystem_write LocalFilesystemWriteOutput
  | Out_filesystem_patch LocalFilesystemPatchOutput
  | Out_git_status LocalGitStatusOutput
  | Out_git_diff LocalGitDiffOutput
  | Out_shell_exec LocalShellExecOutput
  | Out_dev_server_start LocalDevServerStartOutput
  | Out_dev_server_stop LocalDevServerStopOutput

fun output_action :: "local_action_output \<Rightarrow> LocalActionType" where
  "output_action (Out_filesystem_read _) = Local_filesystem_read"
| "output_action (Out_filesystem_list _) = Local_filesystem_list"
| "output_action (Out_filesystem_write _) = Local_filesystem_write"
| "output_action (Out_filesystem_patch _) = Local_filesystem_patch"
| "output_action (Out_git_status _) = Local_git_status"
| "output_action (Out_git_diff _) = Local_git_diff"
| "output_action (Out_shell_exec _) = Local_shell_exec"
| "output_action (Out_dev_server_start _) = Local_dev_server_start"
| "output_action (Out_dev_server_stop _) = Local_dev_server_stop"

record LocalActionResponsePayload =
  rsp_request_id :: string
  rsp_completed_at :: string
  rsp_attribution :: LocalActionAttribution
  rsp_lease :: LocalActionLeaseBinding
  rsp_output :: local_action_output
  rsp_audit_events :: LocalActionResponseAuditEvents

definition rsp_action :: "LocalActionResponsePayload \<Rightarrow> LocalActionType" where
  "rsp_action r = output_action (rsp_output r)"

datatype LocalActionErrorCode =
    Local_capability_lease_missing
  | Local_capability_lease_expired
  | Local_capability_lease_revoked
  | Local_capability_session_mismatch
  | Local_capability_workspace_mismatch
  | Local_capability_provider_mismatch
  | Local_capability_scope_not_granted
  | Local_capability_sandbox_denied
  | Local_capability_approval_required
  | Local_capability_approval_mismatch
  | Local_capability_path_denied
  | Local_capability_expected_hash_mismatch
  | Local_capability_output_limit_exceeded
  | Local_capability_timeout
  | Local_capability_cancelled
  | Local_capability_command_denied
  | Local_capability_process_failed
  | Local_capability_dev_server_exists
  | Local_capability_dev_server_not_found
  | Local_capability_action_failed

record LocalActionError =
  lae_code :: LocalActionErrorCode
  lae_message :: string
  lae_retryable :: bool
  lae_details :: "(string \<times> json) list option"

datatype local_action_error_status = Status_failed | Status_cancelled | Status_timed_out

record LocalActionErrorPayload =
  lep_request_id :: string
  lep_action :: LocalActionType
  lep_status :: local_action_error_status
  lep_failed_at :: string
  lep_attribution :: LocalActionAttribution
  lep_lease :: "LocalActionLeaseBinding option"
  lep_error :: LocalActionError
  lep_audit_events :: LocalActionErrorAuditEvents

end
