(* ===== verification/Executor_State.thy ===== *)
theory Executor_State
  imports Workspace_Paths Effects Redaction Process_Runner Local_Action_Types
begin

text \<open>
  What the local capability executor works on and how every action is run
  (\<open>LocalCapabilityExecutor\<close> in \<open>packages/hcp-runner/src/local-actions/executors.ts\<close>): the execution
  context, the runtime it calls, its state, the events and audit records of an action, and
  \<open>#runAction\<close> itself.
\<close>

record LocalCapabilityExecutionContext =
  cx_session_id :: string
  cx_turn_id :: string
  cx_workspace_id :: string
  cx_provider_instance_id :: string
  cx_workspace_root :: string
  cx_sandbox_mode :: sandbox_mode
  cx_lease :: LocalCapabilityLease

type_synonym json_fields = "(string \<times> json) list"

record LocalCapabilityExecutionEvent =
  xv_event_type :: string
  xv_data :: json_fields

record AuditLogEvent =
  al_event :: string
  al_session_id :: string
  al_turn_id :: string
  al_provider_instance_id :: string
  al_workspace_id :: string
  al_data :: json_fields

record DevServerRecord =
  dv_server_id :: string
  dv_pid :: int
  dv_host :: string
  dv_port :: int
  dv_cwd :: string
  dv_started_at :: string

record TrackedDevServer =
  tr_record :: DevServerRecord
  tr_session_id :: string

record executor =
  ex_leases :: LocalCapabilityLeaseManager
  ex_tree :: fs
  ex_devServers :: "(string \<times> TrackedDevServer) list"
  ex_audit :: "AuditLogEvent list"

record process_call =
  pc_executable :: string
  pc_argv :: "string list"
  pc_cwd :: string
  pc_useShell :: bool
  pc_env :: "(string \<times> string) list"
  pc_stdin :: string
  pc_timeoutSeconds :: int

text \<open>
  The runtime: the engine's configuration, the clock, the codecs of \<open>Buffer\<close>, SHA-256, the regular
  expressions of the policies, \<open>localeCompare\<close>, the audit log (which records may fail), what a spawned
  child makes the runtime call back and does to the tree, and \<open>PATH\<close>.
\<close>

record runtime =
  rt_config :: lease_config
  rt_now :: int
  rt_iso :: string
  rt_encode :: "content_encoding \<Rightarrow> string \<Rightarrow> string"
  rt_decode :: "content_encoding \<Rightarrow> string \<Rightarrow> string"
  rt_sha256 :: "string \<Rightarrow> string"
  rt_regex :: "string \<Rightarrow> string + (string \<Rightarrow> bool)"
  rt_locale :: "string \<Rightarrow> string \<Rightarrow> bool"
  rt_audit :: "(AuditLogEvent list \<Rightarrow> AuditLogEvent \<Rightarrow> string option) option"
  rt_child :: "process_call \<Rightarrow> fs \<Rightarrow> process_event list \<times> fs"
  rt_spawn :: "process_call \<Rightarrow> fs \<Rightarrow> int option \<times> fs"
  rt_path :: "string option"

type_synonym 'a action = "(executor, action_error, 'a) act"

subsection \<open>State access\<close>

definition tree_read :: "(fs \<Rightarrow> action_error + 'a) \<Rightarrow> 'a action" where
  "tree_read f = readA (\<lambda>s. f (ex_tree s))"

definition tree_write :: "(fs \<Rightarrow> errno + fs) \<Rightarrow> unit action" where
  "tree_write f s =
     (case f (ex_tree s) of
        Inl e \<Rightarrow> Some (Inl (System e), s)
      | Inr t \<Rightarrow> Some (Inr (), s\<lparr>ex_tree := t\<rparr>))"

definition make_parents :: "string \<Rightarrow> unit action" where
  "make_parents path s =
     (let (t, failed) = fs_mkdir (ex_tree s) path in
      Some (case failed of None \<Rightarrow> Inr () | Some e \<Rightarrow> Inl (System e), s\<lparr>ex_tree := t\<rparr>))"

definition authorize ::
  "(LocalCapabilityLeaseManager \<Rightarrow> (LocalCapabilityPolicyError + LocalCapabilityGrant) \<times> LocalCapabilityLeaseManager)
    \<Rightarrow> unit action" where
  "authorize f s =
     (case f (ex_leases s) of
        (Inl e, m) \<Rightarrow> Some (Inl (Policy e), s\<lparr>ex_leases := m\<rparr>)
      | (Inr g, m) \<Rightarrow> Some (Inr (), s\<lparr>ex_leases := m\<rparr>))"

definition identity_of :: "LocalCapabilityExecutionContext \<Rightarrow> authorization_identity" where
  "identity_of cx = \<lparr>auth_session_id = cx_session_id cx, auth_turn_id = cx_turn_id cx,
     auth_workspace_id = cx_workspace_id cx, auth_provider_instance_id = cx_provider_instance_id cx\<rparr>"

subsection \<open>Events and audit records\<close>

text \<open>\<open>{ ...base, ...extra }\<close>\<close>

definition js_spread :: "json_fields \<Rightarrow> json_fields \<Rightarrow> json_fields" where
  "js_spread base extra = foldl (\<lambda>m (k, v). AList.update k v m) base extra"

definition localCapabilityEvent ::
  "LocalCapabilityExecutionContext \<Rightarrow> string \<Rightarrow> string \<Rightarrow> string \<Rightarrow> string \<Rightarrow> json_fields
    \<Rightarrow> LocalCapabilityExecutionEvent" where
  "localCapabilityEvent cx eventType capabilityId action status data =
     \<lparr>xv_event_type = eventType,
      xv_data = js_spread
        [(''lease_id'', JStr (lease_lease_id (cx_lease cx))),
         (''workspace_id'', JStr (cx_workspace_id cx)),
         (''provider_instance_id'', JStr (cx_provider_instance_id cx)),
         (''capability_id'', JStr capabilityId),
         (''action'', JStr action),
         (''status'', JStr status)] data\<rparr>"

definition recordAudit ::
  "runtime \<Rightarrow> LocalCapabilityExecutionContext \<Rightarrow> string \<Rightarrow> json_fields \<Rightarrow> executor
    \<Rightarrow> (action_error + unit) \<times> executor" where
  "recordAudit rt cx event data s =
     (case rt_audit rt of
        None \<Rightarrow> (Inr (), s)
      | Some log \<Rightarrow>
          let r = \<lparr>al_event = event, al_session_id = cx_session_id cx, al_turn_id = cx_turn_id cx,
                   al_provider_instance_id = cx_provider_instance_id cx,
                   al_workspace_id = cx_workspace_id cx, al_data = data\<rparr> in
          case log (ex_audit s) r of
            None \<Rightarrow> (Inr (), s\<lparr>ex_audit := ex_audit s @ [r]\<rparr>)
          | Some message \<Rightarrow> (Inl (Other message), s))"

definition summarizeResult :: "json \<Rightarrow> json" where
  "summarizeResult value = redactValue value"

fun error_message :: "action_error \<Rightarrow> string" where
  "error_message (Policy e) = pe_message e"
| "error_message (System e) = errno_message e"
| "error_message (Other m) = m"

fun errorToSummary :: "action_error \<Rightarrow> json_fields" where
  "errorToSummary (Policy e) =
     [(''code'', JStr (pe_code e)), (''message'', JStr (pe_message e)), (''retryable'', JBool False)]"
| "errorToSummary e =
     [(''code'', JStr ''local_capability_action_failed''), (''message'', JStr (error_message e)),
      (''retryable'', JBool False)]"

subsection \<open>Running an action\<close>

text \<open>What an action throws: the wrapped error with its events, or an audit failure as it is.\<close>

datatype thrown =
    LocalCapabilityExecutionError (xe_events: "LocalCapabilityExecutionEvent list") (xe_cause: action_error)
  | Unwrapped action_error

definition started_event :: "LocalCapabilityExecutionContext \<Rightarrow> string \<Rightarrow> string \<Rightarrow> LocalCapabilityExecutionEvent" where
  "started_event cx capabilityId action =
     localCapabilityEvent cx ''local_capability.action.started'' capabilityId action ''started'' []"

definition completed_event ::
  "LocalCapabilityExecutionContext \<Rightarrow> string \<Rightarrow> string \<Rightarrow> json \<Rightarrow> LocalCapabilityExecutionEvent" where
  "completed_event cx capabilityId action result =
     localCapabilityEvent cx ''local_capability.action.completed'' capabilityId action ''completed''
       [(''output'', summarizeResult result)]"

definition failed_event ::
  "LocalCapabilityExecutionContext \<Rightarrow> string \<Rightarrow> string \<Rightarrow> string \<Rightarrow> action_error \<Rightarrow> LocalCapabilityExecutionEvent" where
  "failed_event cx capabilityId action policyAction e =
     localCapabilityEvent cx ''local_capability.action.failed'' capabilityId action ''failed''
       [(''error'', JObj (errorToSummary e)), (''input'', JObj [(''policy_action'', JStr policyAction)])]"

definition audit_name :: "string \<Rightarrow> string \<Rightarrow> string \<Rightarrow> string" where
  "audit_name capabilityId action phase = capabilityId @ ''.'' @ action @ ''.'' @ phase"

text \<open>The \<open>catch\<close> branch, with the events so far.\<close>

definition action_failed ::
  "runtime \<Rightarrow> LocalCapabilityExecutionContext \<Rightarrow> string \<Rightarrow> string \<Rightarrow> string \<Rightarrow> LocalCapabilityExecutionEvent list
    \<Rightarrow> action_error \<Rightarrow> (executor, thrown, 'a) act" where
  "action_failed rt cx capabilityId action policyAction events e s =
     (case recordAudit rt cx (audit_name capabilityId action ''failed'')
             [(''capability_id'', JStr capabilityId), (''action'', JStr action), (''error'', JObj (errorToSummary e))] s of
        (Inl e', s') \<Rightarrow> Some (Inl (Unwrapped e'), s')
      | (Inr _, s') \<Rightarrow>
          Some (Inl (LocalCapabilityExecutionError (events @ [failed_event cx capabilityId action policyAction e]) e), s'))"

definition runAction ::
  "runtime \<Rightarrow> LocalCapabilityExecutionContext \<Rightarrow> string \<Rightarrow> string \<Rightarrow> string \<Rightarrow> ('a \<Rightarrow> json) \<Rightarrow> 'a action
    \<Rightarrow> (executor, thrown, 'a \<times> LocalCapabilityExecutionEvent list) act" where
  "runAction rt cx capabilityId action policyAction to_json run s =
     (let ids = [(''capability_id'', JStr capabilityId), (''action'', JStr action)];
          started = started_event cx capabilityId action in
      case recordAudit rt cx (audit_name capabilityId action ''started'') ids s of
        (Inl e, s1) \<Rightarrow> Some (Inl (Unwrapped e), s1)
      | (Inr _, s1) \<Rightarrow>
          case run s1 of
            None \<Rightarrow> None
          | Some (Inl e, s2) \<Rightarrow> action_failed rt cx capabilityId action policyAction [started] e s2
          | Some (Inr result, s2) \<Rightarrow>
              let completed = completed_event cx capabilityId action (to_json result) in
              case recordAudit rt cx (audit_name capabilityId action ''completed'')
                     (ids @ [(''result'', summarizeResult (to_json result))]) s2 of
                (Inl e, s3) \<Rightarrow> action_failed rt cx capabilityId action policyAction [started, completed] e s3
              | (Inr _, s3) \<Rightarrow> Some (Inr (result, [started, completed]), s3))"

subsection \<open>What running an action adds\<close>

definition same_but_audit :: "executor \<Rightarrow> executor \<Rightarrow> bool" where
  "same_but_audit s s' \<longleftrightarrow> ex_leases s' = ex_leases s \<and> ex_tree s' = ex_tree s \<and> ex_devServers s' = ex_devServers s"

lemma same_but_audit_refl [simp]: "same_but_audit s s"
  by (simp add: same_but_audit_def)

lemma recordAudit_same: "recordAudit rt cx event data s = (r, s') \<Longrightarrow> same_but_audit s s'"
  by (auto simp: recordAudit_def same_but_audit_def Let_def split: option.splits)

text \<open>An action's run moves the state as its body does, between two audit steps.\<close>

lemma runAction_inner:
  assumes "runAction rt cx capabilityId action policyAction to_json run s = Some (r, s')"
  obtains (not_run) e where "r = Inl (Unwrapped e)" "same_but_audit s s'"
  | (ran) s1 x s2 where "same_but_audit s s1" "run s1 = Some (x, s2)" "same_but_audit s2 s'"
      "\<And>a es. r = Inr (a, es) \<Longrightarrow> x = Inr a"
      "\<And>e. x = Inl e \<Longrightarrow> (\<exists>es. r = Inl (LocalCapabilityExecutionError es e)) \<or> (\<exists>e'. r = Inl (Unwrapped e'))"
proof -
  let ?ids = "[(''capability_id'', JStr capabilityId), (''action'', JStr action)]"
  obtain a0 s1 where a0: "recordAudit rt cx (audit_name capabilityId action ''started'') ?ids s = (a0, s1)"
    by fastforce
  note s1 = recordAudit_same [OF a0]
  have failed: "same_but_audit s2 s'" "(\<exists>es. r = Inl (LocalCapabilityExecutionError es e)) \<or> (\<exists>e'. r = Inl (Unwrapped e'))"
    if "action_failed rt cx capabilityId action policyAction events e s2 = Some (r, s')" for events e s2
    using that by (auto simp: action_failed_def split: prod.splits sum.splits dest: recordAudit_same)
  show ?thesis
  proof (cases a0)
    case (Inl e)
    then show ?thesis using assms a0 s1 not_run by (auto simp: runAction_def Let_def)
  next
    case (Inr u)
    note start = a0 [unfolded Inr]
    show ?thesis
    proof (cases "run s1")
      case None
      then show ?thesis using assms start by (simp add: runAction_def Let_def)
    next
      case (Some y)
      obtain x s2 where y: "y = (x, s2)" by fastforce
      show ?thesis
      proof (cases x)
        case (Inl e)
        then have "action_failed rt cx capabilityId action policyAction [started_event cx capabilityId action] e s2 = Some (r, s')"
          using assms start Some y by (simp add: runAction_def Let_def)
        from failed [OF this] show ?thesis using ran [OF s1 _ _ ] Some y Inl by auto
      next
        case (Inr a)
        obtain a1 s3 where a1: "recordAudit rt cx (audit_name capabilityId action ''completed'')
            (?ids @ [(''result'', summarizeResult (to_json a))]) s2 = (a1, s3)" by fastforce
        note s3 = recordAudit_same [OF a1]
        show ?thesis
        proof (cases a1)
          case (Inl e)
          then have "action_failed rt cx capabilityId action policyAction
              [started_event cx capabilityId action, completed_event cx capabilityId action (to_json a)] e s3 = Some (r, s')"
            using assms start Some y Inr a1 by (simp add: runAction_def Let_def)
          from failed [OF this] s3 show ?thesis
            using ran [OF s1, of x s2] Some y Inr by (auto simp: same_but_audit_def)
        next
          case (Inr v)
          then have "r = Inr (a, [started_event cx capabilityId action, completed_event cx capabilityId action (to_json a)])" "s' = s3"
            using assms start Some y \<open>x = Inr a\<close> a1 by (simp_all add: runAction_def Let_def)
          then show ?thesis using ran [OF s1, of x s2] s3 Some y \<open>x = Inr a\<close> by simp
        qed
      qed
    qed
  qed
qed

text \<open>Relations that audit records and actions respect.\<close>

locale audit_relation = move_relation R for R :: "executor \<Rightarrow> executor \<Rightarrow> bool" +
  assumes audit: "same_but_audit s s' \<Longrightarrow> R s s'"
begin

lemma action:
  assumes "moves R body"
  shows "moves R (runAction rt cx c a pa to_json body)"
  unfolding moves_def
proof (intro allI impI)
  fix s r s'
  assume "runAction rt cx c a pa to_json body s = Some (r, s')"
  then show "R s s'"
  proof (cases rule: runAction_inner)
    case not_run
    then show ?thesis by (simp add: audit)
  next
    case (ran s1 x s2)
    then have "R s1 s2" using assms by (simp add: moves_def)
    with ran show ?thesis by (meson audit trans)
  qed
qed

end

end
