(* ===== verification/Unified_Diff.thy ===== *)
theory Unified_Diff
  imports Prelude
begin

text \<open>
  Applying a unified diff to a text (\<open>applyUnifiedDiff\<close> and its helpers in
  \<open>packages/hcp-runner/src/local-actions/executors.ts\<close>).  A text is its characters up to code 255, so
  the only line terminators \<open>.\<close> stops at are \<open>\n\<close> and \<open>\r\<close>.
\<close>

definition NL :: char where
  "NL = CHR 0x0A"

definition CR :: char where
  "CR = CHR 0x0D"

definition in_line :: "char \<Rightarrow> bool" where
  "in_line c = (c \<noteq> NL \<and> c \<noteq> CR)"

subsection \<open>Lines\<close>

lemma dropWhile_shorter: "dropWhile P s = c # r \<Longrightarrow> length r < length s"
  by (metis Suc_le_eq length_Cons length_dropWhile_le)

text \<open>The matches of \<open>/.*(?:\r\n|\n|\r|$)/g\<close> without the empty one at the end.\<close>

function splitLinesPreservingEndings :: "string \<Rightarrow> string list" where
  "splitLinesPreservingEndings s =
     (if s = [] then []
      else case dropWhile in_line s of
             [] \<Rightarrow> [s]
           | c # r \<Rightarrow>
               if c = CR \<and> r \<noteq> [] \<and> hd r = NL
               then (takeWhile in_line s @ [CR, NL]) # splitLinesPreservingEndings (tl r)
               else (takeWhile in_line s @ [c]) # splitLinesPreservingEndings r)"
  by pat_completeness auto
termination
  by (relation "measure length") (auto dest: dropWhile_shorter simp: less_imp_diff_less)

declare splitLinesPreservingEndings.simps [simp del]

subsection \<open>Hunk headers\<close>

fun skip_count :: "string \<Rightarrow> string" where
  "skip_count (c # d # r) = (if c = CHR '','' \<and> is_digit d then dropWhile is_digit r else c # d # r)"
| "skip_count s = s"

text \<open>
  \<open>/^@@\s*$/\<close> and \<open>/^@@ -(\d+)(?:,\d+)? \+\d+(?:,\d+)? @@/\<close>; a digit run is followed by something that
  is not a digit, so no match depends on backtracking.
\<close>

definition parseUnifiedDiffHunkHeader :: "string \<Rightarrow> string + nat" where
  "parseUnifiedDiffHunkHeader header =
     (if startsWith header ''@@'' \<and> list_all is_space (drop 2 header) then Inr 1
      else
        let old = drop 4 header; after_old = skip_count (dropWhile is_digit old);
            new = drop 2 after_old; after_new = skip_count (dropWhile is_digit new) in
        if startsWith header ''@@ -'' \<and> takeWhile is_digit old \<noteq> []
           \<and> startsWith after_old '' +'' \<and> takeWhile is_digit new \<noteq> []
           \<and> startsWith after_new '' @@''
        then Inr (read_nat (takeWhile is_digit old))
        else Inl (''Invalid unified diff hunk header '' @ quoted (trimEnd header) @ ''.''))"

definition assertPatchLineMatches :: "string option \<Rightarrow> string \<Rightarrow> string + unit" where
  "assertPatchLineMatches actual expected =
     guardR (actual = Some expected) ''Unified diff context did not match the current file.''"

subsection \<open>Applying\<close>

definition line_at :: "string list \<Rightarrow> nat \<Rightarrow> string option" where
  "line_at ls i = (if i < length ls then Some (ls ! i) else None)"

text \<open>\<open>while (originalIndex < hunk.oldStart - 1)\<close>\<close>

function copy_original :: "string list \<Rightarrow> nat \<Rightarrow> nat \<Rightarrow> string list \<Rightarrow> string + (nat \<times> string list)" where
  "copy_original original target i out =
     (if i < target then
        (case line_at original i of
           None \<Rightarrow> Inl ''Unified diff hunk starts beyond the end of the file.''
         | Some l \<Rightarrow> copy_original original target (i + 1) (out @ [l]))
      else Inr (i, out))"
  by pat_completeness auto
termination by (relation "measure (\<lambda>(original, target, i, out). target - i)") auto

declare copy_original.simps [simp del]

text \<open>The inner loop: the lines of one hunk, up to the next header.\<close>

fun hunk_lines ::
  "string list \<Rightarrow> string list \<Rightarrow> nat \<Rightarrow> string list \<Rightarrow> bool \<Rightarrow> string + (nat \<times> string list \<times> bool \<times> string list)" where
  "hunk_lines original [] i out changed = Inr (i, out, changed, [])"
| "hunk_lines original (l # ls) i out changed =
     (if startsWith l ''@@'' then Inr (i, out, changed, l # ls)
      else if startsWith l [CHR 0x5C, CHR '' ''] then hunk_lines original ls i out changed
      else let prefix = take 1 l; body = drop 1 l in
        if prefix = '' '' then
          bindR (assertPatchLineMatches (line_at original i) body) (\<lambda>_.
          hunk_lines original ls (i + 1) (out @ [body]) changed)
        else if prefix = ''-'' then
          bindR (assertPatchLineMatches (line_at original i) body) (\<lambda>_.
          hunk_lines original ls (i + 1) out True)
        else if prefix = ''+'' then hunk_lines original ls i (out @ [body]) True
        else if startsWith l ''--- '' \<or> startsWith l ''+++ '' then Inr (i, out, changed, l # ls)
        else Inl (''Unsupported unified diff line '' @ quoted (trimEnd l) @ ''.''))"

lemma hunk_lines_shorter:
  "hunk_lines original ls i out changed = Inr (i', out', changed', rest) \<Longrightarrow> length rest \<le> length ls"
  by (induction original ls i out changed rule: hunk_lines.induct)
     (fastforce simp: Let_def bindR_eq_Inr split: if_splits)+

function apply_hunks ::
  "string list \<Rightarrow> string list \<Rightarrow> nat \<Rightarrow> string list \<Rightarrow> bool \<Rightarrow> string + (nat \<times> string list \<times> bool)" where
  "apply_hunks original [] i out changed = Inr (i, out, changed)"
| "apply_hunks original (l # ls) i out changed =
     (if \<not> startsWith l ''@@'' then apply_hunks original ls i out changed
      else bindR (parseUnifiedDiffHunkHeader l) (\<lambda>oldStart.
           bindR (copy_original original (oldStart - 1) i out) (\<lambda>(i, out).
           bindR (hunk_lines original ls i out changed) (\<lambda>(i, out, changed, rest).
           apply_hunks original rest i out changed))))"
  by pat_completeness auto
termination
  by (relation "measure (\<lambda>(original, ls, i, out, changed). length ls)")
     (auto dest: hunk_lines_shorter)

record TextPatchResult =
  tp_content :: string
  tp_changed :: bool

definition applyUnifiedDiff :: "string \<Rightarrow> string \<Rightarrow> string + TextPatchResult" where
  "applyUnifiedDiff originalContent patchContent =
     (let original = splitLinesPreservingEndings originalContent in
      bindR (apply_hunks original (splitLinesPreservingEndings patchContent) 0 [] False) (\<lambda>(i, out, changed).
      Inr \<lparr>tp_content = concat (out @ drop i original), tp_changed = changed\<rparr>))"

subsection \<open>Lines and their text\<close>

lemma concat_split [simp]: "concat (splitLinesPreservingEndings s) = s"
proof (induction s rule: splitLinesPreservingEndings.induct)
  case (1 s)
  show ?case
  proof (cases "dropWhile in_line s")
    case Nil
    show ?thesis by (subst splitLinesPreservingEndings.simps) (simp add: Nil del: dropWhile_eq_Nil_conv)
  next
    case (Cons c r)
    then have s: "s = takeWhile in_line s @ c # r" by (metis takeWhile_dropWhile_id)
    then have "s \<noteq> []" by auto
    note IH = 1(1) [OF this Cons] 1(2) [OF this Cons]
    show ?thesis
    proof (cases "c = CR \<and> r \<noteq> [] \<and> hd r = NL")
      case True
      then have "r = NL # tl r" by (metis list.collapse)
      then have "s = takeWhile in_line s @ CR # NL # tl r" using s True by metis
      then show ?thesis
        using IH(1) [OF True] True Cons \<open>s \<noteq> []\<close> by (subst splitLinesPreservingEndings.simps) simp
    next
      case False
      then show ?thesis
        using IH(2) [OF False] Cons s \<open>s \<noteq> []\<close> by (subst splitLinesPreservingEndings.simps) auto
    qed
  qed
qed

text \<open>A line that ends in \<open>\n\<close> or \<open>\r\n\<close> and has no terminator before that.\<close>

definition proper_line :: "string \<Rightarrow> bool" where
  "proper_line l = (splitLinesPreservingEndings l = [l] \<and> last l = NL)"

lemma in_line_simps [simp]: "\<not> in_line NL" "\<not> in_line CR" "NL \<noteq> CR" "CR \<noteq> NL"
  by (simp_all add: in_line_def NL_def CR_def)

lemma split_first_line:
  assumes "list_all in_line b" and "e = [NL] \<or> e = [CR, NL]"
  shows "splitLinesPreservingEndings (b @ e @ s) = (b @ e) # splitLinesPreservingEndings s"
proof -
  have b: "dropWhile in_line (b @ r) = dropWhile in_line r" "takeWhile in_line (b @ r) = b @ takeWhile in_line r" for r
    using assms(1) by (auto simp: list_all_iff)
  from assms(2) show ?thesis
    by (subst splitLinesPreservingEndings.simps) (auto simp: b)
qed

lemma proper_line_shape:
  assumes "proper_line l"
  obtains b e where "l = b @ e" "list_all in_line b" "e = [NL] \<or> e = [CR, NL]"
proof -
  have one: "splitLinesPreservingEndings l = [l]" and last: "last l = NL" using assms by (auto simp: proper_line_def)
  then have ne: "l \<noteq> []" by (auto simp: splitLinesPreservingEndings.simps)
  define b where "b = takeWhile in_line l"
  have b: "list_all in_line b" by (auto simp: b_def list_all_iff dest: set_takeWhileD)
  show ?thesis
  proof (cases "dropWhile in_line l")
    case Nil
    then have "in_line (last l)" using ne last_in_set by (auto simp: dropWhile_eq_Nil_conv)
    with last show ?thesis by simp
  next
    case (Cons c r)
    then have l: "l = b @ c # r" by (metis b_def takeWhile_dropWhile_id)
    show ?thesis
    proof (cases "c = CR \<and> r \<noteq> [] \<and> hd r = NL")
      case True
      then have "l = b @ [CR, NL]"
        using one ne Cons b_def by (subst (asm) splitLinesPreservingEndings.simps) simp
      then show ?thesis using b that [of b "[CR, NL]"] by simp
    next
      case False
      then have "l = b @ [c]"
        using one ne Cons b_def by (subst (asm) splitLinesPreservingEndings.simps) (auto split: if_splits)
      then show ?thesis using b last that [of b "[NL]"] by simp
    qed
  qed
qed

lemma proper_lineI: "list_all in_line b \<Longrightarrow> e = [NL] \<or> e = [CR, NL] \<Longrightarrow> proper_line (b @ e)"
  using split_first_line [of b e "[]"] by (auto simp: proper_line_def splitLinesPreservingEndings.simps [of "[]"])

lemma proper_line_prefix: "proper_line l \<Longrightarrow> in_line c \<Longrightarrow> proper_line (c # l)"
  by (metis append_Cons list.pred_inject(2) proper_lineI proper_line_shape)

lemma split_lines: "list_all proper_line ls \<Longrightarrow> splitLinesPreservingEndings (concat ls) = ls"
proof (induction ls)
  case Nil
  then show ?case by (simp add: splitLinesPreservingEndings.simps)
next
  case (Cons l ls)
  then obtain b e where "l = b @ e" "list_all in_line b" "e = [NL] \<or> e = [CR, NL]"
    by (auto elim: proper_line_shape)
  then show ?case using Cons split_first_line [of b e "concat ls"] by simp
qed

subsection \<open>Edits\<close>

datatype edit = Keep string | Remove string | Insert string

fun edit_old :: "edit \<Rightarrow> string list" where
  "edit_old (Keep l) = [l]"
| "edit_old (Remove l) = [l]"
| "edit_old (Insert l) = []"

fun edit_new :: "edit \<Rightarrow> string list" where
  "edit_new (Keep l) = [l]"
| "edit_new (Remove l) = []"
| "edit_new (Insert l) = [l]"

fun is_change :: "edit \<Rightarrow> bool" where
  "is_change (Keep l) = False"
| "is_change (Remove l) = True"
| "is_change (Insert l) = True"

definition old_lines :: "edit list \<Rightarrow> string list" where
  "old_lines es = concat (map edit_old es)"

definition new_lines :: "edit list \<Rightarrow> string list" where
  "new_lines es = concat (map edit_new es)"

lemma lines_simps [simp]:
  "old_lines [] = []" "old_lines (e # es) = edit_old e @ old_lines es" "old_lines (es @ fs) = old_lines es @ old_lines fs"
  "new_lines [] = []" "new_lines (e # es) = edit_new e @ new_lines es" "new_lines (es @ fs) = new_lines es @ new_lines fs"
  by (simp_all add: old_lines_def new_lines_def)

lemma keep_lines [simp]:
  "old_lines (map Keep ls) = ls" "new_lines (map Keep ls) = ls" "filter is_change (map Keep ls) = []"
  by (induction ls) auto

lemma unchanged_lines: "filter is_change es = [] \<Longrightarrow> new_lines es = old_lines es"
proof (induction es)
  case (Cons e es)
  then show ?case by (cases e) auto
qed simp

text \<open>The removals and insertions of a patch: its lines behind the first hunk header that start with a sign.\<close>

definition patch_edit :: "string \<Rightarrow> edit option" where
  "patch_edit l = (if startsWith l ''-'' then Some (Remove (drop 1 l))
     else if startsWith l ''+'' then Some (Insert (drop 1 l)) else None)"

definition hunk_part :: "string list \<Rightarrow> string list" where
  "hunk_part ls = dropWhile (\<lambda>l. \<not> startsWith l ''@@'') ls"

definition patch_edits :: "string \<Rightarrow> edit list" where
  "patch_edits patch = List.map_filter patch_edit (hunk_part (splitLinesPreservingEndings patch))"

lemma map_filter_Cons: "List.map_filter f (x # xs) = (case f x of None \<Rightarrow> [] | Some y \<Rightarrow> [y]) @ List.map_filter f xs"
  by (simp add: map_filter_simps split: option.splits)

lemma map_filter_append: "List.map_filter f (xs @ ys) = List.map_filter f xs @ List.map_filter f ys"
  by (induction xs) (simp_all add: map_filter_Cons map_filter_simps split: option.splits)

text \<open>From line \<open>i\<close> on, one piece of the application is an edit script of the original's lines.\<close>

definition edits_upto ::
  "string list \<Rightarrow> nat \<Rightarrow> string list \<Rightarrow> bool \<Rightarrow> edit list \<Rightarrow> nat \<Rightarrow> string list \<Rightarrow> bool \<Rightarrow> bool" where
  "edits_upto original i out changed es i' out' changed' \<longleftrightarrow>
     take i' original = take i original @ old_lines es \<and> out' = out @ new_lines es
     \<and> (i \<le> length original \<longrightarrow> i' \<le> length original)
     \<and> changed' = (changed \<or> filter is_change es \<noteq> [])"

lemma edits_upto_Nil [simp]: "edits_upto original i out changed [] i out changed"
  by (simp add: edits_upto_def)

lemma edits_upto_trans:
  "edits_upto original i out ch es i1 out1 ch1 \<Longrightarrow> edits_upto original i1 out1 ch1 fs i2 out2 ch2
   \<Longrightarrow> edits_upto original i out ch (es @ fs) i2 out2 ch2"
  by (auto simp: edits_upto_def)

lemma take_next: "line_at ls i = Some l \<Longrightarrow> take (Suc i) ls = take i ls @ [l] \<and> Suc i \<le> length ls"
  by (auto simp: line_at_def take_Suc_conv_app_nth split: if_splits)

lemma copy_original_edits:
  "copy_original original target i out = Inr (i', out') \<Longrightarrow>
     \<exists>ls. edits_upto original i out ch (map Keep ls) i' out' ch"
proof (induction original target i out rule: copy_original.induct)
  case (1 original target i out)
  show ?case
  proof (cases "i < target")
    case True
    then obtain l where l: "line_at original i = Some l"
      "copy_original original target (i + 1) (out @ [l]) = Inr (i', out')"
      using "1.prems" by (subst (asm) copy_original.simps) (auto split: option.splits)
    then obtain ls where "edits_upto original (i + 1) (out @ [l]) ch (map Keep ls) i' out' ch"
      using "1.IH" [OF True l(1)] by auto
    then have "edits_upto original i out ch (map Keep (l # ls)) i' out' ch"
      using take_next [OF l(1)] by (simp add: edits_upto_def)
    then show ?thesis by blast
  next
    case False
    then show ?thesis
      using "1.prems" by (subst (asm) copy_original.simps) (auto intro!: exI [of _ "[]"])
  qed
qed

text \<open>Each kind of line at the head of a hunk.\<close>

lemma hunk_line_cases:
  assumes "hunk_lines original (l # ls) i out ch = Inr res"
  obtains (header) "startsWith l ''@@''" "res = (i, out, ch, l # ls)"
  | (note_line) "patch_edit l = None" "hunk_lines original ls i out ch = Inr res"
  | (edit) e i1 where "patch_edit l = (if is_change e then Some e else None)"
      "edits_upto original i out ch [e] i1 (out @ edit_new e) (ch \<or> is_change e)"
      "hunk_lines original ls i1 (out @ edit_new e) (ch \<or> is_change e) = Inr res"
proof (cases l)
  case Nil
  then show ?thesis using assms by (auto simp: startsWith_def Let_def)
next
  case (Cons c b)
  consider "startsWith l ''@@''" | "startsWith l [CHR 0x5C, CHR '' '']" "\<not> startsWith l ''@@''"
    | "c = CHR '' ''" | "c = CHR ''-''" | "c = CHR ''+''"
    using assms Cons by (auto simp: startsWith_def Let_def split: if_splits)
  then show ?thesis
  proof cases
    case 1
    then show ?thesis using assms header by simp
  next
    case 2
    then show ?thesis using assms Cons note_line by (auto simp: patch_edit_def startsWith_def)
  next
    case 3
    then have "line_at original i = Some b" "hunk_lines original ls (i + 1) (out @ [b]) ch = Inr res"
      using assms Cons by (auto simp: startsWith_def assertPatchLineMatches_def result_simps)
    then show ?thesis
      using edit [of "Keep b" "i + 1"] take_next Cons 3 by (simp add: edits_upto_def patch_edit_def startsWith_def)
  next
    case 4
    then have "line_at original i = Some b" "hunk_lines original ls (i + 1) out True = Inr res"
      using assms Cons by (auto simp: startsWith_def assertPatchLineMatches_def result_simps)
    then show ?thesis
      using edit [of "Remove b" "i + 1"] take_next Cons 4 by (simp add: edits_upto_def patch_edit_def startsWith_def)
  next
    case 5
    then have "hunk_lines original ls i (out @ [b]) True = Inr res"
      using assms Cons by (auto simp: startsWith_def)
    then show ?thesis
      using edit [of "Insert b" i] Cons 5 by (simp add: edits_upto_def patch_edit_def startsWith_def)
  qed
qed

lemma hunk_lines_edits:
  "hunk_lines original ls i out ch = Inr (i', out', ch', rest) \<Longrightarrow>
     \<exists>es. edits_upto original i out ch es i' out' ch' \<and> (rest = [] \<or> startsWith (hd rest) ''@@'')
       \<and> List.map_filter patch_edit ls = filter is_change es @ List.map_filter patch_edit rest"
proof (induction ls arbitrary: i out ch)
  case Nil
  then show ?case by (auto intro!: exI [of _ "[]"])
next
  case (Cons l ls)
  from Cons.prems show ?case
  proof (cases rule: hunk_line_cases)
    case header
    then show ?thesis by (auto intro!: exI [of _ "[]"])
  next
    case note_line
    then show ?thesis using Cons.IH by (simp add: map_filter_Cons)
  next
    case (edit e i1)
    from Cons.IH [OF edit(3)] obtain es where es:
      "edits_upto original i1 (out @ edit_new e) (ch \<or> is_change e) es i' out' ch'" "rest = [] \<or> startsWith (hd rest) ''@@''"
      "List.map_filter patch_edit ls = filter is_change es @ List.map_filter patch_edit rest"
      by auto
    then show ?thesis
      using edits_upto_trans [OF edit(2) es(1)] edit(1)
      by (intro exI [of _ "e # es"]) (auto simp: map_filter_Cons)
  qed
qed

lemma apply_hunks_edits:
  "apply_hunks original ls i out ch = Inr (i', out', ch') \<Longrightarrow>
     \<exists>es. edits_upto original i out ch es i' out' ch'
       \<and> List.map_filter patch_edit (hunk_part ls) = filter is_change es"
proof (induction original ls i out ch rule: apply_hunks.induct)
  case (1 original i out ch)
  then show ?case by (auto simp: hunk_part_def map_filter_simps intro!: exI [of _ "[]"])
next
  case (2 original l ls i out ch)
  show ?case
  proof (cases "startsWith l ''@@''")
    case False
    then show ?thesis using 2 by (simp add: hunk_part_def)
  next
    case True
    then obtain start i1 out1 i2 out2 ch2 rest where
      start: "parseUnifiedDiffHunkHeader l = Inr start"
      and c: "copy_original original (start - 1) i out = Inr (i1, out1)"
      and h: "hunk_lines original ls i1 out1 ch = Inr (i2, out2, ch2, rest)"
      and r: "apply_hunks original rest i2 out2 ch2 = Inr (i', out', ch')"
      using "2.prems" by (auto simp: result_simps split: prod.splits)
    obtain ks where ks: "edits_upto original i out ch (map Keep ks) i1 out1 ch" using copy_original_edits [OF c] by blast
    obtain es where es: "edits_upto original i1 out1 ch es i2 out2 ch2" "rest = [] \<or> startsWith (hd rest) ''@@''"
      "List.map_filter patch_edit ls = filter is_change es @ List.map_filter patch_edit rest"
      using hunk_lines_edits [OF h] by blast
    obtain fs where fs: "edits_upto original i2 out2 ch2 fs i' out' ch'"
      "List.map_filter patch_edit (hunk_part rest) = filter is_change fs"
      using "2.IH"(2) [of start "(i1, out1)" i1 out1 "(i2, out2, ch2, rest)" i2 "(out2, ch2, rest)" out2 "(ch2, rest)" ch2 rest]
        True start c h r by auto
    have "hunk_part rest = rest" using es(2) by (cases rest) (simp_all add: hunk_part_def)
    moreover have "patch_edit l = None" using True by (cases l) (auto simp: startsWith_def patch_edit_def)
    ultimately have "List.map_filter patch_edit (hunk_part (l # ls)) = filter is_change (map Keep ks @ es @ fs)"
      using True es(3) fs(2) by (simp add: hunk_part_def map_filter_Cons)
    then show ?thesis using edits_upto_trans [OF ks edits_upto_trans [OF es(1) fs(1)]] by blast
  qed
qed

text \<open>C29: What patching does.  When a patch is applied, the file's lines are one edit script's old
  lines and the result is that script's new lines, where the script's removals and insertions are
  exactly the patch's, in the patch's order: no line is dropped, altered or reordered otherwise.  The
  change flag tells whether there was any, and without one the content is the original.\<close>

theorem patch_applies_its_edits:
  "case applyUnifiedDiff originalContent patchContent of
     Inl message \<Rightarrow> True
   | Inr r \<Rightarrow>
       (\<exists>es. old_lines es = splitLinesPreservingEndings originalContent
          \<and> concat (old_lines es) = originalContent \<and> tp_content r = concat (new_lines es)
          \<and> filter is_change es = patch_edits patchContent)
       \<and> tp_changed r = (patch_edits patchContent \<noteq> [])
       \<and> (tp_changed r \<or> tp_content r = originalContent)"
proof (cases "applyUnifiedDiff originalContent patchContent")
  case (Inr r)
  let ?o = "splitLinesPreservingEndings originalContent"
  obtain i out where a: "apply_hunks ?o (splitLinesPreservingEndings patchContent) 0 [] False = Inr (i, out, tp_changed r)"
    and content: "tp_content r = concat (out @ drop i ?o)"
    using Inr by (auto simp: applyUnifiedDiff_def Let_def result_simps split: prod.splits)
  obtain es where es: "edits_upto ?o 0 [] False es i out (tp_changed r)"
    and changes: "patch_edits patchContent = filter is_change es"
    using apply_hunks_edits [OF a] by (auto simp: patch_edits_def)
  let ?es = "es @ map Keep (drop i ?o)"
  have "take i ?o = old_lines es" "out = new_lines es" "tp_changed r = (filter is_change es \<noteq> [])"
    using es by (simp_all add: edits_upto_def)
  then have "old_lines ?es = ?o" "tp_content r = concat (new_lines ?es)" "filter is_change ?es = patch_edits patchContent"
    using content changes by (simp_all flip: \<open>take i ?o = old_lines es\<close>)
  moreover from this have "concat (old_lines ?es) = originalContent" by simp
  moreover have "tp_changed r \<or> tp_content r = originalContent"
    using calculation unchanged_lines [of ?es] changes \<open>tp_changed r = _\<close> by metis
  ultimately show ?thesis
    using Inr changes \<open>tp_changed r = _\<close> by (auto intro!: exI [of _ ?es])
qed simp

subsection \<open>Rendered patches\<close>

datatype segment = Unchanged "string list" | Hunk "edit list"

fun segment_edits :: "segment \<Rightarrow> edit list" where
  "segment_edits (Unchanged ls) = map Keep ls"
| "segment_edits (Hunk es) = es"

fun edit_text :: "edit \<Rightarrow> string" where
  "edit_text (Keep l) = CHR '' '' # l"
| "edit_text (Remove l) = CHR ''-'' # l"
| "edit_text (Insert l) = CHR ''+'' # l"

definition hunk_header :: "nat \<Rightarrow> nat \<Rightarrow> edit list \<Rightarrow> string" where
  "hunk_header i j es =
     ''@@ -'' @ show_nat (i + 1) @ '','' @ show_nat (length (old_lines es))
     @ '' +'' @ show_nat (j + 1) @ '','' @ show_nat (length (new_lines es)) @ '' @@'' @ [NL]"

text \<open>The lines of the patch for a sequence of unchanged stretches and hunks, from old line \<open>i\<close> and new line \<open>j\<close>.\<close>

fun render_patch :: "nat \<Rightarrow> nat \<Rightarrow> segment list \<Rightarrow> string list" where
  "render_patch i j [] = []"
| "render_patch i j (Unchanged ls # ss) = render_patch (i + length ls) (j + length ls) ss"
| "render_patch i j (Hunk es # ss) =
     hunk_header i j es # map edit_text es
     @ render_patch (i + length (old_lines es)) (j + length (new_lines es)) ss"

definition all_edits :: "segment list \<Rightarrow> edit list" where
  "all_edits ss = concat (map segment_edits ss)"

lemma takeWhile_digits:
  "takeWhile is_digit (show_nat n @ c # r) = show_nat n @ (if is_digit c then c # takeWhile is_digit r else [])"
  "dropWhile is_digit (show_nat n @ c # r) = (if is_digit c then dropWhile is_digit r else c # r)"
  using show_nat_digits by (simp_all add: takeWhile_append2 dropWhile_append2)

lemma skip_count_digits: "\<not> is_digit c \<Longrightarrow> skip_count (CHR '','' # show_nat n @ c # r) = c # r"
proof -
  assume c: "\<not> is_digit c"
  obtain d ds where d: "show_nat n = d # ds" "is_digit d"
    using show_nat_digits [of _ n] by (cases "show_nat n") auto
  have "dropWhile is_digit (ds @ c # r) = c # r"
    using show_nat_digits [of _ n] d c by (simp add: dropWhile_append2)
  then show ?thesis using d by simp
qed

lemma parse_header: "parseUnifiedDiffHunkHeader (hunk_header i j es) = Inr (i + 1)"
proof -
  have sp: "\<not> is_digit (CHR '' '')" "\<not> is_digit (CHR '','')" "\<not> is_space (CHR ''-'')"
    by (simp_all add: is_digit_def is_space_def Let_def)
  show ?thesis
    using sp
    by (simp add: parseUnifiedDiffHunkHeader_def hunk_header_def startsWith_def takeWhile_digits skip_count_digits Let_def)
qed

lemma header_proper: "proper_line (hunk_header i j es)"
proof -
  have dig: "in_line c" if "c \<in> set (show_nat n)" for c n
    using show_nat_digits [OF that] by (auto simp: in_line_def is_digit_def NL_def CR_def)
  have "list_all in_line (''@@ -'' @ show_nat (i + 1) @ '','' @ show_nat (length (old_lines es))
     @ '' +'' @ show_nat (j + 1) @ '','' @ show_nat (length (new_lines es)) @ '' @@'')"
    using dig by (auto simp: list_all_iff) (simp_all add: in_line_def NL_def CR_def)
  from proper_lineI [OF this, of "[NL]"] show ?thesis by (simp add: hunk_header_def)
qed

lemma edit_text_proper: "list_all proper_line (edit_old e @ edit_new e) \<Longrightarrow> proper_line (edit_text e)"
  by (cases e) (auto intro!: proper_line_prefix simp: in_line_def NL_def CR_def)

lemma render_proper:
  "list_all proper_line (old_lines (all_edits ss)) \<Longrightarrow> list_all proper_line (new_lines (all_edits ss)) \<Longrightarrow>
     list_all proper_line (render_patch i j ss)"
proof (induction ss arbitrary: i j)
  case (Cons s ss)
  show ?case
  proof (cases s)
    case (Hunk es)
    have "list_all proper_line (edit_old e @ edit_new e)" if "e \<in> set es" for e
      using Cons.prems Hunk that by (auto simp: all_edits_def list_all_iff old_lines_def new_lines_def)
    then have "list_all proper_line (map edit_text es)"
      using edit_text_proper by (auto simp: list_all_iff)
    then show ?thesis using Cons Hunk header_proper by (simp add: all_edits_def)
  qed (use Cons in \<open>simp add: all_edits_def\<close>)
qed simp

lemma copy_pending:
  "copy_original (d @ pend @ r) (length d + length pend) (length d) out = Inr (length d + length pend, out @ pend)"
proof (induction pend arbitrary: d out)
  case Nil
  show ?case by (subst copy_original.simps) simp
next
  case (Cons l pend)
  from Cons.IH [of "d @ [l]" "out @ [l]"] show ?case
    by (subst copy_original.simps) (simp add: line_at_def nth_append)
qed

lemma hunk_lines_rendered:
  assumes "rest = [] \<or> startsWith (hd rest) ''@@''"
  shows "hunk_lines (d @ old_lines es @ r) (map edit_text es @ rest) (length d) out ch =
     Inr (length d + length (old_lines es), out @ new_lines es, ch \<or> filter is_change es \<noteq> [], rest)"
proof (induction es arbitrary: d out ch)
  case Nil
  then show ?case using assms by (cases rest) simp_all
next
  case (Cons e es)
  show ?case
    using Cons.IH [of "d @ edit_old e" "out @ edit_new e" "ch \<or> is_change e"]
    by (cases e) (simp_all add: startsWith_def assertPatchLineMatches_def line_at_def nth_append Let_def)
qed

lemma header_starts: "startsWith (hunk_header i j es) ''@@''"
  by (simp add: hunk_header_def startsWith_def)

lemma render_head: "render_patch i j ss = [] \<or> startsWith (hd (render_patch i j ss)) ''@@''"
  by (induction i j ss rule: render_patch.induct) (simp_all add: header_starts)

lemma apply_rendered:
  "\<exists>k out' ch'. apply_hunks (d @ pend @ old_lines (all_edits ss)) (render_patch (length d + length pend) j ss) (length d) out ch
       = Inr (k, out', ch')
     \<and> out' @ drop k (d @ pend @ old_lines (all_edits ss)) = out @ pend @ new_lines (all_edits ss)
     \<and> ch' = (ch \<or> filter is_change (all_edits ss) \<noteq> [])"
proof (induction ss arbitrary: d pend j out ch)
  case Nil
  then show ?case by (simp add: all_edits_def)
next
  case (Cons s ss)
  show ?case
  proof (cases s)
    case (Unchanged ls)
    then show ?thesis using Cons [of d "pend @ ls" "j + length ls" out ch] by (simp add: all_edits_def add.assoc)
  next
    case (Hunk es)
    let ?i = "length d + length pend" and ?rest = "old_lines (all_edits ss)"
    have h: "hunk_lines (d @ pend @ old_lines es @ ?rest) (map edit_text es @ rs) ?i (out @ pend) ch =
        Inr (?i + length (old_lines es), out @ pend @ new_lines es, ch \<or> filter is_change es \<noteq> [], rs)"
      if "rs = [] \<or> startsWith (hd rs) ''@@''" for rs
      using hunk_lines_rendered [OF that, of "d @ pend" es ?rest "out @ pend" ch] by simp
    have c: "copy_original (d @ pend @ old_lines es @ ?rest) ?i (length d) out = Inr (?i, out @ pend)"
      by (rule copy_pending)
    have "all_edits (s # ss) = es @ all_edits ss" using Hunk by (simp add: all_edits_def)
    then show ?thesis
      using Cons [of "d @ pend @ old_lines es" "[]" "j + length (new_lines es)" "out @ pend @ new_lines es"
          "ch \<or> filter is_change es \<noteq> []"] Hunk c h [OF render_head]
      by (auto simp: header_starts parse_header add.assoc)
  qed
qed

text \<open>C30: Round trip.  For a file of terminated lines split into unchanged stretches and hunks, applying
  the rendered patch, behind any preamble without hunk headers, gives exactly the hunks' new lines and
  the unchanged ones between them, and reports a change when a hunk has one.\<close>

theorem patch_roundtrip:
  assumes "list_all proper_line (old_lines (all_edits ss))" and "list_all proper_line (new_lines (all_edits ss))"
    and "list_all (\<lambda>l. proper_line l \<and> \<not> startsWith l ''@@'') preamble"
  shows "applyUnifiedDiff (concat (old_lines (all_edits ss))) (concat (preamble @ render_patch 0 0 ss)) =
     Inr \<lparr>tp_content = concat (new_lines (all_edits ss)), tp_changed = (filter is_change (all_edits ss) \<noteq> [])\<rparr>"
proof -
  have p: "splitLinesPreservingEndings (concat (preamble @ render_patch 0 0 ss)) = preamble @ render_patch 0 0 ss"
    using assms(3) render_proper [OF assms(1,2), of 0 0] by (intro split_lines) (auto simp: list_all_iff)
  have skip: "apply_hunks original (preamble @ ls) i out ch = apply_hunks original ls i out ch" for original ls i out ch
    using assms(3) by (induction preamble) auto
  obtain k out' ch' where "apply_hunks (old_lines (all_edits ss)) (render_patch 0 0 ss) 0 [] False = Inr (k, out', ch')"
    "out' @ drop k (old_lines (all_edits ss)) = new_lines (all_edits ss)"
    "ch' = (filter is_change (all_edits ss) \<noteq> [])"
    using apply_rendered [of "[]" "[]" ss 0 "[]" False] by auto
  then show ?thesis
    unfolding applyUnifiedDiff_def Let_def p split_lines [OF assms(1)] skip by (simp flip: concat_append)
qed

definition sample_segments :: "segment list" where
  "sample_segments = [Unchanged [''a'' @ [NL]], Hunk [Remove (''b'' @ [NL]), Insert (''c'' @ [NL])], Unchanged [''d'' @ [NL]]]"

theorem patch_roundtrip_witness:
  "applyUnifiedDiff (concat [''a'' @ [NL], ''b'' @ [NL], ''d'' @ [NL]]) (concat ([''+++ f'' @ [NL]] @ render_patch 0 0 sample_segments)) =
     Inr \<lparr>tp_content = concat [''a'' @ [NL], ''c'' @ [NL], ''d'' @ [NL]], tp_changed = True\<rparr>"
proof -
  have ok: "proper_line (w @ [NL])" if "list_all in_line w" for w
    using proper_lineI [OF that, of "[NL]"] by simp
  have "list_all proper_line (old_lines (all_edits sample_segments))" "list_all proper_line (new_lines (all_edits sample_segments))"
    "list_all (\<lambda>l. proper_line l \<and> \<not> startsWith l ''@@'') [''+++ f'' @ [NL]]"
    using ok [of "''a''"] ok [of "''b''"] ok [of "''c''"] ok [of "''d''"] ok [of "''+++ f''"]
    by (simp_all add: sample_segments_def all_edits_def in_line_def NL_def CR_def startsWith_def)
  from patch_roundtrip [OF this] show ?thesis by (simp add: sample_segments_def all_edits_def)
qed

subsection \<open>Patches of other tools\<close>

text \<open>
  Two forms that \<open>git diff\<close> writes are read differently here.  A hunk that only inserts, written
  without context, names the line it follows (\<open>-1,0\<close> is behind line 1); it is inserted before that
  line.  And the lines of a file that does not end in a newline are written with one, followed by the
  \<open>\ No newline at end of file\<close> mark; the mark is skipped, so the line does not match.
\<close>

lemma insert_only_hunk_misplaced:
  "applyUnifiedDiff (''a'' @ [NL] @ ''b'' @ [NL]) (''@@ -1,0 +2 @@'' @ [NL] @ ''+new'' @ [NL])
     = Inr \<lparr>tp_content = ''new'' @ [NL] @ ''a'' @ [NL] @ ''b'' @ [NL], tp_changed = True\<rparr>"
  by code_simp

lemma last_line_without_newline_rejected:
  "applyUnifiedDiff ''b''
     (''@@ -1 +1 @@'' @ [NL] @ ''-b'' @ [NL] @ [CHR 0x5C] @ '' No newline at end of file'' @ [NL] @ ''+c'' @ [NL])
     = Inl ''Unified diff context did not match the current file.''"
  by code_simp

end
