(* ===== verification/File_Actions.thy ===== *)
theory File_Actions
  imports Executor_State Unified_Diff
begin

text \<open>
  The file system actions of the executor (\<open>readFile\<close>, \<open>listDirectory\<close>, \<open>writeFile\<close>, \<open>patchFile\<close> and
  \<open>deletePath\<close> in \<open>packages/hcp-runner/src/local-actions/executors.ts\<close>) with their helpers, and what
  they may do to the tree.  A \<open>Buffer\<close> is its bytes, as characters.
\<close>

record FilesystemReadResult =
  rr_path :: string
  rr_content :: string
  rr_encoding :: content_encoding
  rr_hash :: string
  rr_truncated :: "bool option"

record FilesystemReadOptions =
  ro_opt_encoding :: "content_encoding option"
  ro_opt_range :: "byte_range option"
  ro_opt_contentByteLimit :: "int option"

record FilesystemListResult =
  lr_path :: string
  lr_entries :: "list_entry list"
  lr_truncated :: "bool option"

record FilesystemListOptions =
  lo_opt_recursive :: "bool option"
  lo_opt_includeHidden :: "bool option"
  lo_opt_maxDepth :: "int option"
  lo_opt_entryLimit :: "int option"

record FilesystemWriteResult =
  wr_path :: string
  wr_bytes_written :: int
  wr_new_hash :: string

record FilesystemWriteOptions =
  wo_opt_encoding :: "content_encoding option"
  wo_opt_mode :: "write_mode option"
  wo_opt_createParents :: "bool option"
  wo_opt_expectedBaseHash :: "string option"

record FilesystemPatchResult =
  pt_path :: string
  pt_changed :: bool
  pt_new_hash :: string

record FilesystemPatchOptions =
  po_opt_expectedBaseHash :: string
  po_opt_patchContent :: string
  po_opt_createIfMissing :: "bool option"

definition orelse :: "'a option \<Rightarrow> 'a \<Rightarrow> 'a" where
  "orelse x d = (case x of None \<Rightarrow> d | Some a \<Rightarrow> a)"

definition truncated_field :: "bool \<Rightarrow> bool option" where
  "truncated_field t = (if t then Some True else None)"

fun encoding_name :: "content_encoding \<Rightarrow> string" where
  "encoding_name Utf8 = ''utf8''"
| "encoding_name Base64 = ''base64''"

fun entry_type_name :: "entry_type \<Rightarrow> string" where
  "entry_type_name Entry_file = ''file''"
| "entry_type_name Entry_directory = ''directory''"
| "entry_type_name Entry_other = ''other''"

definition json_flag :: "string \<Rightarrow> bool option \<Rightarrow> json_fields" where
  "json_flag k v = (case v of None \<Rightarrow> [] | Some b \<Rightarrow> [(k, JBool b)])"

definition read_json :: "FilesystemReadResult \<Rightarrow> json" where
  "read_json r = JObj ([(''path'', JStr (rr_path r)), (''content'', JStr (rr_content r)),
     (''encoding'', JStr (encoding_name (rr_encoding r))), (''hash'', JStr (rr_hash r))]
     @ json_flag ''truncated'' (rr_truncated r))"

definition list_json :: "FilesystemListResult \<Rightarrow> json" where
  "list_json r = JObj ([(''path'', JStr (lr_path r)),
     (''entries'', JArr (map (\<lambda>e. JObj [(''name'', JStr (le_name e)), (''type'', JStr (entry_type_name (le_type e)))])
        (lr_entries r)))] @ json_flag ''truncated'' (lr_truncated r))"

definition write_json :: "FilesystemWriteResult \<Rightarrow> json" where
  "write_json r = JObj [(''path'', JStr (wr_path r)), (''bytes_written'', JNum (wr_bytes_written r)),
     (''new_hash'', JStr (wr_new_hash r))]"

definition patch_json :: "FilesystemPatchResult \<Rightarrow> json" where
  "patch_json r = JObj [(''path'', JStr (pt_path r)), (''changed'', JBool (pt_changed r)),
     (''new_hash'', JStr (pt_new_hash r))]"

definition path_json :: "string \<Rightarrow> json" where
  "path_json p = JObj [(''path'', JStr p)]"

subsection \<open>Buffers\<close>

text \<open>\<open>Buffer.subarray\<close>: a negative index counts from the end, and both are clamped.\<close>

definition js_index :: "int \<Rightarrow> int \<Rightarrow> nat" where
  "js_index n i = nat (if i < 0 then max 0 (n + i) else min i n)"

definition subarray :: "string \<Rightarrow> int \<Rightarrow> int \<Rightarrow> string" where
  "subarray b first last_excl =
     (let f = js_index (int (length b)) first; l = js_index (int (length b)) last_excl in take (l - f) (drop f b))"

definition applyByteRange :: "string \<Rightarrow> byte_range option \<Rightarrow> string" where
  "applyByteRange buffer span =
     (case span of
        None \<Rightarrow> buffer
      | Some r \<Rightarrow>
          let first = orelse (range_start r) 0;
              last_excl = (case range_length r of None \<Rightarrow> int (length buffer) | Some n \<Rightarrow> first + n) in
          subarray buffer first last_excl)"

definition limitBuffer :: "string \<Rightarrow> int option \<Rightarrow> string \<times> bool" where
  "limitBuffer buffer limitBytes =
     (case limitBytes of
        None \<Rightarrow> (buffer, False)
      | Some n \<Rightarrow> if int (length buffer) \<le> n then (buffer, False) else (subarray buffer 0 n, True))"

definition sha256Hash :: "runtime \<Rightarrow> string \<Rightarrow> string" where
  "sha256Hash rt buffer = ''sha256:'' @ rt_sha256 rt buffer"

subsection \<open>Guards\<close>

definition assertWritableSandbox :: "LocalCapabilityExecutionContext \<Rightarrow> string \<Rightarrow> unit action" where
  "assertWritableSandbox cx action =
     (if cx_sandbox_mode cx = Read_only
      then throwA (policy_error ''local_capability_sandbox_read_only''
             (''Action '' @ quoted action @ '' is not allowed in read_only sandbox mode.''))
      else returnA ())"

definition assertExpectedHash :: "runtime \<Rightarrow> string \<Rightarrow> string \<Rightarrow> action_error + unit" where
  "assertExpectedHash rt buffer expectedHash =
     (let actualHash = sha256Hash rt buffer in
      guardR (actualHash = expectedHash) (policy_error ''local_capability_expected_hash_mismatch''
        (''Expected base hash '' @ quoted expectedHash @ '' did not match current hash '' @ quoted actualHash @ ''.'')))"

definition fileExists :: "fs \<Rightarrow> string \<Rightarrow> action_error + bool" where
  "fileExists t path =
     (case fs_lstat t path of
        Inr (Symlink _) \<Rightarrow> Inl (dangling_error path)
      | Inr _ \<Rightarrow> Inr True
      | Inl e \<Rightarrow> if isFileMissingError (System e) then Inr False else Inl (System e))"

definition assertWriteModeAllowed :: "runtime \<Rightarrow> FilesystemWriteOptions \<Rightarrow> string \<Rightarrow> fs \<Rightarrow> action_error + unit" where
  "assertWriteModeAllowed rt options path t =
     (case orelse (wo_opt_mode options) Mode_overwrite of
        Mode_create \<Rightarrow>
          bindR (fileExists t path) (\<lambda>found.
            guardR (\<not> found) (policy_error ''local_capability_action_failed''
              (''Path '' @ quoted path @ '' already exists.'')))
      | Mode_overwrite \<Rightarrow>
          (case wo_opt_expectedBaseHash options of
             None \<Rightarrow> Inr ()
           | Some h \<Rightarrow> bindR (sys (fs_readFile t path)) (\<lambda>existingBytes. assertExpectedHash rt existingBytes h)))"

definition readExistingFileForPatch :: "fs \<Rightarrow> string \<Rightarrow> bool \<Rightarrow> action_error + string" where
  "readExistingFileForPatch t path createIfMissing =
     (case fs_readFile t path of
        Inr b \<Rightarrow> Inr b
      | Inl e \<Rightarrow>
          if isFileMissingError (System e) \<and> createIfMissing
          then bindR (assertMissingWritableTargetHasNoSymlink t path) (\<lambda>_. Inr [])
          else Inl (System e))"

subsection \<open>Listing\<close>

text \<open>
  \<open>collect\<close> and its loop over one directory's entries.  A directory is the segments of its real path;
  \<open>resolve(directory, entry.name)\<close> appends one.  \<open>maxDepth\<close> is \<open>None\<close> for \<open>Infinity\<close>.
\<close>

definition below :: "fs \<Rightarrow> string list \<Rightarrow> nat" where
  "below t d = length (filter (\<lambda>(q, _). strict_prefix d q) t)"

lemma below_child:
  assumes "map_of t (d @ [s]) = Some nd"
  shows "below t (d @ [s]) < below t d"
proof -
  have "(d @ [s], nd) \<in> set t" using assms by (rule map_of_SomeD)
  then obtain xs ys where t: "t = xs @ (d @ [s], nd) # ys" by (meson split_list)
  have "length (filter (\<lambda>(q, _). strict_prefix (d @ [s]) q) zs) \<le> length (filter (\<lambda>(q, _). strict_prefix d q) zs)"
    for zs :: fs by (induction zs) (auto simp: strict_prefix_def prefix_def)
  from this [of xs] this [of ys] show ?thesis
    unfolding t below_def by (simp add: strict_prefix_def)
qed

definition dirent_type :: "node \<Rightarrow> entry_type" where
  "dirent_type nd = (case nd of File _ \<Rightarrow> Entry_file | Dir \<Rightarrow> Entry_directory | Symlink _ \<Rightarrow> Entry_other)"

record list_settings =
  ls_includeHidden :: bool
  ls_recursive :: bool
  ls_maxDepth :: "int option"
  ls_entryLimit :: "int option"
  ls_locale :: "string \<Rightarrow> string \<Rightarrow> bool"

definition directory_entries :: "list_settings \<Rightarrow> fs \<Rightarrow> string list \<Rightarrow> (string \<times> node) list" where
  "directory_entries ls t d = stable_sort (\<lambda>a b. ls_locale ls (fst a) (fst b)) (fs_readdir t d)"

definition deeper :: "list_settings \<Rightarrow> int \<Rightarrow> bool" where
  "deeper ls depth = (ls_recursive ls \<and> (case ls_maxDepth ls of None \<Rightarrow> True | Some m \<Rightarrow> depth < m))"

function collect :: "list_settings \<Rightarrow> fs \<Rightarrow> string list \<Rightarrow> string \<Rightarrow> int \<Rightarrow> list_entry list \<times> bool \<Rightarrow> list_entry list \<times> bool"
  and collect_entries :: "list_settings \<Rightarrow> fs \<Rightarrow> string list \<Rightarrow> string \<Rightarrow> int \<Rightarrow> (string \<times> node) list
    \<Rightarrow> list_entry list \<times> bool \<Rightarrow> list_entry list \<times> bool" where
  "collect ls t d relativeDirectory depth acc =
     (if snd acc then acc
      else collect_entries ls t d relativeDirectory depth (directory_entries ls t d) acc)"
| "collect_entries ls t d relativeDirectory depth [] acc = acc"
| "collect_entries ls t d relativeDirectory depth ((n, nd) # rest) acc =
     (if \<not> ls_includeHidden ls \<and> startsWith n ''.''
      then collect_entries ls t d relativeDirectory depth rest acc
      else if (case ls_entryLimit ls of None \<Rightarrow> False | Some limit \<Rightarrow> limit \<le> int (length (fst acc)))
      then (fst acc, True)
      else let name = (if 0 < length relativeDirectory then relativeDirectory @ ''/'' @ n else n);
               acc = (fst acc @ [\<lparr>le_name = name, le_type = dirent_type nd\<rparr>], snd acc) in
        collect_entries ls t d relativeDirectory depth rest
          (if deeper ls depth \<and> map_of t (d @ [n]) = Some Dir
           then collect ls t (d @ [n]) name (depth + 1) acc else acc))"
  by pat_completeness auto
termination
  by (relation "measures [\<lambda>x. case x of Inl (ls, t, d, _) \<Rightarrow> below t d | Inr (ls, t, d, _) \<Rightarrow> below t d,
      \<lambda>x. case x of Inl _ \<Rightarrow> 1 | Inr _ \<Rightarrow> 0,
      \<lambda>x. case x of Inl _ \<Rightarrow> 0 | Inr (ls, t, d, r, k, es, acc) \<Rightarrow> length es]")
     (auto dest: below_child)

text \<open>\<open>readdir\<close> of something that is not a directory fails.\<close>

definition listWorkspaceEntries ::
  "runtime \<Rightarrow> fs \<Rightarrow> string \<Rightarrow> FilesystemListOptions \<Rightarrow> action_error + (list_entry list \<times> bool)" where
  "listWorkspaceEntries rt t root options =
     (let recursive = orelse (lo_opt_recursive options) False;
          ls = \<lparr>ls_includeHidden = orelse (lo_opt_includeHidden options) False, ls_recursive = recursive,
                ls_maxDepth = (if recursive then lo_opt_maxDepth options else Some 1),
                ls_entryLimit = lo_opt_entryLimit options, ls_locale = rt_locale rt\<rparr> in
      if map_of t (path_segments root) = Some Dir
      then Inr (collect ls t (path_segments root) [] 1 ([], False))
      else Inl (System ENOTDIR))"

subsection \<open>The actions\<close>

definition authorize_fs ::
  "runtime \<Rightarrow> LocalCapabilityExecutionContext \<Rightarrow> LocalFilesystemAction \<Rightarrow> unit action" where
  "authorize_fs rt cx a =
     authorize (authorizeFilesystemAction (rt_config rt) (rt_now rt) (cx_lease cx) (identity_of cx) a)"

definition readFile_body ::
  "runtime \<Rightarrow> LocalCapabilityExecutionContext \<Rightarrow> string \<Rightarrow> FilesystemReadOptions \<Rightarrow> FilesystemReadResult action" where
  "readFile_body rt cx path options =
     bindA (authorize_fs rt cx Fs_read) (\<lambda>_.
     bindA (tree_read (\<lambda>t. resolveExistingWorkspacePath t path (cx_workspace_root cx))) (\<lambda>resolvedPath.
     bindA (tree_read (\<lambda>t. sys (fs_readFile t resolvedPath))) (\<lambda>contentBytes.
     let selectedBytes = applyByteRange contentBytes (ro_opt_range options);
         (buffer, truncated) = limitBuffer selectedBytes (ro_opt_contentByteLimit options);
         encoding = orelse (ro_opt_encoding options) Utf8 in
     bindA (tree_read (\<lambda>t. workspaceRelativePath t resolvedPath (cx_workspace_root cx))) (\<lambda>rel.
     returnA \<lparr>rr_path = rel, rr_content = rt_encode rt encoding buffer, rr_encoding = encoding,
       rr_hash = sha256Hash rt contentBytes, rr_truncated = truncated_field truncated\<rparr>))))"

definition readFile ::
  "runtime \<Rightarrow> LocalCapabilityExecutionContext \<Rightarrow> string \<Rightarrow> FilesystemReadOptions
    \<Rightarrow> (executor, thrown, FilesystemReadResult \<times> LocalCapabilityExecutionEvent list) act" where
  "readFile rt cx path options =
     runAction rt cx ''filesystem'' ''read_file'' ''read'' read_json (readFile_body rt cx path options)"

definition listDirectory_body ::
  "runtime \<Rightarrow> LocalCapabilityExecutionContext \<Rightarrow> string \<Rightarrow> FilesystemListOptions \<Rightarrow> FilesystemListResult action" where
  "listDirectory_body rt cx path options =
     bindA (authorize_fs rt cx Fs_list) (\<lambda>_.
     bindA (tree_read (\<lambda>t. resolveExistingWorkspacePath t path (cx_workspace_root cx))) (\<lambda>resolvedPath.
     bindA (tree_read (\<lambda>t. listWorkspaceEntries rt t resolvedPath options)) (\<lambda>(entries, truncated).
     bindA (tree_read (\<lambda>t. workspaceRelativePath t resolvedPath (cx_workspace_root cx))) (\<lambda>rel.
     returnA \<lparr>lr_path = rel, lr_entries = entries, lr_truncated = truncated_field truncated\<rparr>))))"

definition listDirectory ::
  "runtime \<Rightarrow> LocalCapabilityExecutionContext \<Rightarrow> string \<Rightarrow> FilesystemListOptions
    \<Rightarrow> (executor, thrown, FilesystemListResult \<times> LocalCapabilityExecutionEvent list) act" where
  "listDirectory rt cx path options =
     runAction rt cx ''filesystem'' ''list_directory'' ''list'' list_json (listDirectory_body rt cx path options)"

definition write_action :: "FilesystemWriteOptions \<Rightarrow> LocalFilesystemAction" where
  "write_action options = (if wo_opt_mode options = Some Mode_create then Fs_create else Fs_write)"

definition writeFile_body ::
  "runtime \<Rightarrow> LocalCapabilityExecutionContext \<Rightarrow> string \<Rightarrow> string \<Rightarrow> FilesystemWriteOptions
    \<Rightarrow> FilesystemWriteResult action" where
  "writeFile_body rt cx path content options =
     bindA (assertWritableSandbox cx (filesystem_action_name (write_action options))) (\<lambda>_.
     bindA (authorize_fs rt cx (write_action options)) (\<lambda>_.
     bindA (tree_read (\<lambda>t. resolveWritableWorkspacePath t path (cx_workspace_root cx))) (\<lambda>resolvedPath.
     bindA (tree_read (assertWriteModeAllowed rt options resolvedPath)) (\<lambda>_.
     let contentBytes = rt_decode rt (orelse (wo_opt_encoding options) Utf8) content in
     bindA (whenA (orelse (wo_opt_createParents options) True) (make_parents (dirname resolvedPath))) (\<lambda>_.
     bindA (tree_write (\<lambda>t. fs_writeFile t resolvedPath contentBytes)) (\<lambda>_.
     bindA (tree_read (\<lambda>t. sys (fs_readFile t resolvedPath))) (\<lambda>writtenBytes.
     bindA (tree_read (\<lambda>t. workspaceRelativePath t resolvedPath (cx_workspace_root cx))) (\<lambda>rel.
     returnA \<lparr>wr_path = rel, wr_bytes_written = int (length contentBytes),
       wr_new_hash = sha256Hash rt writtenBytes\<rparr>))))))))"

definition writeFile ::
  "runtime \<Rightarrow> LocalCapabilityExecutionContext \<Rightarrow> string \<Rightarrow> string \<Rightarrow> FilesystemWriteOptions
    \<Rightarrow> (executor, thrown, FilesystemWriteResult \<times> LocalCapabilityExecutionEvent list) act" where
  "writeFile rt cx path content options =
     runAction rt cx ''filesystem'' ''write_file'' (filesystem_action_name (write_action options)) write_json
       (writeFile_body rt cx path content options)"

definition diff_failed :: "string + 'a \<Rightarrow> action_error + 'a" where
  "diff_failed r = (case r of Inl m \<Rightarrow> Inl (policy_error ''local_capability_action_failed'' m) | Inr a \<Rightarrow> Inr a)"

definition patchFile_body ::
  "runtime \<Rightarrow> LocalCapabilityExecutionContext \<Rightarrow> string \<Rightarrow> FilesystemPatchOptions \<Rightarrow> FilesystemPatchResult action" where
  "patchFile_body rt cx path options =
     bindA (assertWritableSandbox cx ''patch'') (\<lambda>_.
     bindA (authorize_fs rt cx Fs_patch) (\<lambda>_.
     bindA (tree_read (\<lambda>t. resolveWritableWorkspacePath t path (cx_workspace_root cx))) (\<lambda>resolvedPath.
     bindA (tree_read (\<lambda>t. readExistingFileForPatch t resolvedPath (orelse (po_opt_createIfMissing options) False))) (\<lambda>existingBytes.
     bindA (readA (\<lambda>_. assertExpectedHash rt existingBytes (po_opt_expectedBaseHash options))) (\<lambda>_.
     let originalContent = rt_encode rt Utf8 existingBytes in
     bindA (readA (\<lambda>_. diff_failed (applyUnifiedDiff originalContent (po_opt_patchContent options)))) (\<lambda>patchResult.
     let newBytes = rt_decode rt Utf8 (tp_content patchResult) in
     bindA (whenA (tp_changed patchResult)
       (bindA (make_parents (dirname resolvedPath)) (\<lambda>_. tree_write (\<lambda>t. fs_writeFile t resolvedPath newBytes)))) (\<lambda>_.
     bindA (tree_read (\<lambda>t. workspaceRelativePath t resolvedPath (cx_workspace_root cx))) (\<lambda>rel.
     returnA \<lparr>pt_path = rel, pt_changed = tp_changed patchResult, pt_new_hash = sha256Hash rt newBytes\<rparr>))))))))"

definition patchFile ::
  "runtime \<Rightarrow> LocalCapabilityExecutionContext \<Rightarrow> string \<Rightarrow> FilesystemPatchOptions
    \<Rightarrow> (executor, thrown, FilesystemPatchResult \<times> LocalCapabilityExecutionEvent list) act" where
  "patchFile rt cx path options =
     runAction rt cx ''filesystem'' ''patch_file'' ''patch'' patch_json (patchFile_body rt cx path options)"

definition deletePath_body :: "runtime \<Rightarrow> LocalCapabilityExecutionContext \<Rightarrow> string \<Rightarrow> string action" where
  "deletePath_body rt cx path =
     bindA (assertWritableSandbox cx ''delete'') (\<lambda>_.
     bindA (authorize_fs rt cx Fs_delete) (\<lambda>_.
     bindA (tree_read (\<lambda>t. resolveExistingWorkspacePath t path (cx_workspace_root cx))) (\<lambda>resolvedPath.
     bindA (tree_write (\<lambda>t. fs_rm t resolvedPath)) (\<lambda>_.
     bindA (tree_read (\<lambda>t. workspaceRelativePath t resolvedPath (cx_workspace_root cx))) (\<lambda>rel.
     returnA rel)))))"

definition deletePath ::
  "runtime \<Rightarrow> LocalCapabilityExecutionContext \<Rightarrow> string
    \<Rightarrow> (executor, thrown, string \<times> LocalCapabilityExecutionEvent list) act" where
  "deletePath rt cx path =
     runAction rt cx ''filesystem'' ''delete_path'' ''delete'' path_json (deletePath_body rt cx path)"

declare collect.simps [simp del] collect_entries.simps [simp del]

subsection \<open>How the bodies run\<close>

lemma bind_tree_read: "bindA (tree_read f) g s = Some (r, s') \<longleftrightarrow>
    (\<exists>e. f (ex_tree s) = Inl e \<and> r = Inl e \<and> s' = s) \<or> (\<exists>a. f (ex_tree s) = Inr a \<and> g a s = Some (r, s'))"
  by (cases "f (ex_tree s)") (auto simp: bindA_def tree_read_def)

lemma bind_readA: "bindA (readA f) g s = Some (r, s') \<longleftrightarrow>
    (\<exists>e. f s = Inl e \<and> r = Inl e \<and> s' = s) \<or> (\<exists>a. f s = Inr a \<and> g a s = Some (r, s'))"
  by (cases "f s") (auto simp: bindA_def)

lemma bind_tree_write: "bindA (tree_write f) g s = Some (r, s') \<longleftrightarrow>
    (\<exists>e. f (ex_tree s) = Inl e \<and> r = Inl (System e) \<and> s' = s)
    \<or> (\<exists>t. f (ex_tree s) = Inr t \<and> g () (s\<lparr>ex_tree := t\<rparr>) = Some (r, s'))"
  by (cases "f (ex_tree s)") (auto simp: bindA_def tree_write_def)

lemma bind_make_parents: "bindA (make_parents p) g s = Some (r, s') \<longleftrightarrow>
    (\<exists>t e. fs_mkdir (ex_tree s) p = (t, Some e) \<and> r = Inl (System e) \<and> s' = s\<lparr>ex_tree := t\<rparr>)
    \<or> (\<exists>t. fs_mkdir (ex_tree s) p = (t, None) \<and> g () (s\<lparr>ex_tree := t\<rparr>) = Some (r, s'))"
  by (cases "fs_mkdir (ex_tree s) p"; cases "snd (fs_mkdir (ex_tree s) p)") (auto simp: bindA_def make_parents_def)

lemma bind_whenA: "bindA (whenA b m) g s = (if b then bindA m g s else g () s)"
  by (simp add: bindA_def)

lemma bind_bind: "bindA (bindA m f) g = bindA m (\<lambda>a. bindA (f a) g)"
  by (rule ext) (auto simp: bindA_def split: option.splits sum.splits)

lemma bind_sandbox: "bindA (assertWritableSandbox cx a) g s = Some (r, s') \<longleftrightarrow>
    (if cx_sandbox_mode cx = Read_only
     then r = Inl (policy_error ''local_capability_sandbox_read_only''
       (''Action '' @ quoted a @ '' is not allowed in read_only sandbox mode.'')) \<and> s' = s
     else g () s = Some (r, s'))"
  by (auto simp: bindA_def assertWritableSandbox_def)

text \<open>An authorisation refuses, leaving only the manager it was given, or grants and charges the call.\<close>

definition fs_request :: "LocalCapabilityExecutionContext \<Rightarrow> LocalFilesystemAction \<Rightarrow> LocalCapabilityActionRequest" where
  "fs_request cx a = capability_action (identity_of cx) ''filesystem'' (filesystemScopeForAction a) (filesystem_action_name a)"

lemma bind_authorize_fs:
  assumes "bindA (authorize_fs rt cx a) g s = Some (r, s')"
  obtains (refused) e where "r = Inl (Policy e)" "s' = s"
  | (granted) gr where "lease_permits (rt_config rt) (rt_now rt) (ex_leases s) (cx_lease cx) (fs_request cx a) gr"
      "g () (s\<lparr>ex_leases := charge (cx_lease cx) gr (ex_leases s)\<rparr>) = Some (r, s')"
proof (cases "assertActionAllowed (rt_config rt) (rt_now rt) (cx_lease cx) (fs_request cx a) (ex_leases s)")
  case (Pair x m)
  show ?thesis
  proof (cases x)
    case (Inl e)
    then have "m = ex_leases s" using Pair assertActionAllowed_refused by blast
    then show ?thesis
      using assms Pair Inl refused
      by (auto simp: authorize_fs_def authorize_def authorizeFilesystemAction_def fs_request_def bindA_def)
  next
    case (Inr gr)
    have "lease_permits (rt_config rt) (rt_now rt) (ex_leases s) (cx_lease cx) (fs_request cx a) gr"
      "m = charge (cx_lease cx) gr (ex_leases s)"
      using assertActionAllowed_granted Pair Inr by blast+
    then show ?thesis
      using assms Pair Inr granted
      by (simp add: authorize_fs_def authorize_def authorizeFilesystemAction_def fs_request_def bindA_def)
  qed
qed

lemmas body_simps = bind_tree_read bind_readA bind_tree_write bind_make_parents bind_whenA bind_bind

subsection \<open>Writing\<close>

text \<open>What a write that got as far as the file system does.\<close>

definition store_file :: "bool \<Rightarrow> string \<Rightarrow> string \<Rightarrow> fs \<Rightarrow> fs \<Rightarrow> bool \<Rightarrow> bool" where
  "store_file parents p b t t' stored_ok \<longleftrightarrow>
     (let (t1, failed) = (if parents then fs_mkdir t (dirname p) else (t, None)) in
      case failed of
        Some _ \<Rightarrow> t' = t1 \<and> \<not> stored_ok
      | None \<Rightarrow> (case fs_writeFile t1 p b of Inl _ \<Rightarrow> t' = t1 \<and> \<not> stored_ok | Inr t2 \<Rightarrow> t' = t2 \<and> stored_ok))"

lemma store_file_effect:
  assumes "wf_fs t" and "resolveWritableWorkspacePath t path root = Inr p" and "plain_path path"
    and "real_root t root = Some rt" and "store_file parents p b t t' stored_ok"
  shows "wf_fs t' \<and> confined rt t t' \<and> grown t t' \<and> (stored_ok \<longrightarrow> fs_readFile t' p = Inr b)"
proof (cases parents)
  case True
  obtain t1 e where mk: "fs_mkdir t (dirname p) = (t1, e)" by fastforce
  note m = make_parents_confined [OF assms(1-4)]
  have t1: "confined rt t t1" "wf_fs t1" "grown t t1" using m mk by auto
  show ?thesis
  proof (cases "e = None \<and> (\<exists>t2. fs_writeFile t1 p b = Inr t2)")
    case False
    then have "t' = t1 \<and> \<not> stored_ok"
      using assms(5) True mk by (auto simp: store_file_def split: option.splits sum.splits)
    with t1 show ?thesis by simp
  next
    case ok: True
    then obtain t2 where t2: "fs_writeFile t1 p b = Inr t2" by auto
    then have "written rt t1 p b t2" using m [of b t2] mk ok by auto
    moreover have "t' = t2 \<and> stored_ok" using assms(5) True mk ok t2 by (simp add: store_file_def)
    ultimately show ?thesis
      using t1 by (auto simp: written_def intro: confined_trans grown_trans)
  qed
next
  case False
  show ?thesis
  proof (cases "fs_writeFile t p b")
    case (Inr t2)
    then have "written rt t p b t2" using plain_write_confined [OF assms(1-4)] by blast
    then show ?thesis using assms(5) False Inr by (simp add: store_file_def written_def)
  qed (use assms False in \<open>simp add: store_file_def\<close>)
qed

lemma writeFile_body_cases:
  assumes "writeFile_body rt cx path content options s = Some (r, s')"
  obtains (untouched) e where "r = Inl e" "ex_tree s' = ex_tree s"
      "cx_sandbox_mode cx = Read_only \<Longrightarrow> s' = s \<and> (\<exists>m. e = policy_error ''local_capability_sandbox_read_only'' m)"
  | (stored) p gr stored_ok where "cx_sandbox_mode cx \<noteq> Read_only"
      "lease_permits (rt_config rt) (rt_now rt) (ex_leases s) (cx_lease cx) (fs_request cx (write_action options)) gr"
      "resolveWritableWorkspacePath (ex_tree s) path (cx_workspace_root cx) = Inr p"
      "assertWriteModeAllowed rt options p (ex_tree s) = Inr ()"
      "store_file (orelse (wo_opt_createParents options) True) p
         (rt_decode rt (orelse (wo_opt_encoding options) Utf8) content) (ex_tree s) (ex_tree s') stored_ok"
      "\<And>res. r = Inr res \<Longrightarrow> stored_ok \<and> (\<exists>b. fs_readFile (ex_tree s') p = Inr b \<and> wr_new_hash res = sha256Hash rt b)
         \<and> wr_bytes_written res = int (length (rt_decode rt (orelse (wo_opt_encoding options) Utf8) content))"
proof (cases "cx_sandbox_mode cx = Read_only")
  case True
  then show ?thesis
    using assms untouched by (auto simp: writeFile_body_def bind_sandbox)
next
  case False
  let ?rest = "\<lambda>_. bindA (tree_read (\<lambda>t. resolveWritableWorkspacePath t path (cx_workspace_root cx))) (\<lambda>resolvedPath.
     bindA (tree_read (assertWriteModeAllowed rt options resolvedPath)) (\<lambda>_.
     let contentBytes = rt_decode rt (orelse (wo_opt_encoding options) Utf8) content in
     bindA (whenA (orelse (wo_opt_createParents options) True) (make_parents (dirname resolvedPath))) (\<lambda>_.
     bindA (tree_write (\<lambda>t. fs_writeFile t resolvedPath contentBytes)) (\<lambda>_.
     bindA (tree_read (\<lambda>t. sys (fs_readFile t resolvedPath))) (\<lambda>writtenBytes.
     bindA (tree_read (\<lambda>t. workspaceRelativePath t resolvedPath (cx_workspace_root cx))) (\<lambda>rel.
     returnA \<lparr>wr_path = rel, wr_bytes_written = int (length contentBytes),
       wr_new_hash = sha256Hash rt writtenBytes\<rparr>))))))"
  have "bindA (authorize_fs rt cx (write_action options)) ?rest s = Some (r, s')"
    using assms False by (simp add: writeFile_body_def bind_sandbox)
  then show ?thesis
  proof (cases rule: bind_authorize_fs)
    case refused
    then show ?thesis using untouched False by simp
  next
    case (granted gr)
    show ?thesis
    proof (cases "resolveWritableWorkspacePath (ex_tree s) path (cx_workspace_root cx)")
      case (Inl e)
      then show ?thesis using granted(2) untouched False by (auto simp: bind_tree_read)
    next
      case (Inr p)
      show ?thesis
      proof (cases "assertWriteModeAllowed rt options p (ex_tree s)")
        case (Inl e)
        then show ?thesis using granted(2) \<open>_ = Inr p\<close> untouched False by (auto simp: bind_tree_read)
      next
        case ok: (Inr u)
        have "\<exists>stored_ok. store_file (orelse (wo_opt_createParents options) True) p
           (rt_decode rt (orelse (wo_opt_encoding options) Utf8) content) (ex_tree s) (ex_tree s') stored_ok
         \<and> (\<forall>res. r = Inr res \<longrightarrow> stored_ok \<and> (\<exists>b. fs_readFile (ex_tree s') p = Inr b \<and> wr_new_hash res = sha256Hash rt b)
           \<and> wr_bytes_written res = int (length (rt_decode rt (orelse (wo_opt_encoding options) Utf8) content)))"
          using granted(2) Inr ok
          by (auto simp: body_simps Let_def store_file_def result_simps split: if_splits prod.splits)
        then show ?thesis using stored [OF False granted(1) Inr] ok by auto
      qed
    qed
  qed
qed

subsection \<open>Patching and deleting\<close>

lemma patchFile_body_cases:
  assumes "patchFile_body rt cx path options s = Some (r, s')"
  obtains (untouched) e where "r = Inl e" "ex_tree s' = ex_tree s"
      "cx_sandbox_mode cx = Read_only \<Longrightarrow> s' = s \<and> (\<exists>m. e = policy_error ''local_capability_sandbox_read_only'' m)"
  | (patched) p gr existing pr stored_ok where "cx_sandbox_mode cx \<noteq> Read_only"
      "lease_permits (rt_config rt) (rt_now rt) (ex_leases s) (cx_lease cx) (fs_request cx Fs_patch) gr"
      "resolveWritableWorkspacePath (ex_tree s) path (cx_workspace_root cx) = Inr p"
      "readExistingFileForPatch (ex_tree s) p (orelse (po_opt_createIfMissing options) False) = Inr existing"
      "sha256Hash rt existing = po_opt_expectedBaseHash options"
      "applyUnifiedDiff (rt_encode rt Utf8 existing) (po_opt_patchContent options) = Inr pr"
      "if tp_changed pr then store_file True p (rt_decode rt Utf8 (tp_content pr)) (ex_tree s) (ex_tree s') stored_ok
       else ex_tree s' = ex_tree s"
      "\<And>res. r = Inr res \<Longrightarrow> (tp_changed pr \<longrightarrow> stored_ok) \<and> pt_changed res = tp_changed pr
         \<and> pt_new_hash res = sha256Hash rt (rt_decode rt Utf8 (tp_content pr))"
proof (cases "cx_sandbox_mode cx = Read_only")
  case True
  then show ?thesis
    using assms untouched by (auto simp: patchFile_body_def bind_sandbox)
next
  case False
  let ?k = "\<lambda>_. bindA (tree_read (\<lambda>t. resolveWritableWorkspacePath t path (cx_workspace_root cx))) (\<lambda>resolvedPath.
     bindA (tree_read (\<lambda>t. readExistingFileForPatch t resolvedPath (orelse (po_opt_createIfMissing options) False))) (\<lambda>existingBytes.
     bindA (readA (\<lambda>_. assertExpectedHash rt existingBytes (po_opt_expectedBaseHash options))) (\<lambda>_.
     let originalContent = rt_encode rt Utf8 existingBytes in
     bindA (readA (\<lambda>_. diff_failed (applyUnifiedDiff originalContent (po_opt_patchContent options)))) (\<lambda>patchResult.
     let newBytes = rt_decode rt Utf8 (tp_content patchResult) in
     bindA (whenA (tp_changed patchResult)
       (bindA (make_parents (dirname resolvedPath)) (\<lambda>_. tree_write (\<lambda>t. fs_writeFile t resolvedPath newBytes)))) (\<lambda>_.
     bindA (tree_read (\<lambda>t. workspaceRelativePath t resolvedPath (cx_workspace_root cx))) (\<lambda>rel.
     returnA \<lparr>pt_path = rel, pt_changed = tp_changed patchResult, pt_new_hash = sha256Hash rt newBytes\<rparr>))))))"
  have "bindA (authorize_fs rt cx Fs_patch) ?k s = Some (r, s')"
    using assms False by (simp add: patchFile_body_def bind_sandbox)
  then show ?thesis
  proof (cases rule: bind_authorize_fs)
    case refused
    then show ?thesis using untouched False by simp
  next
    case (granted gr)
    let ?s = "s\<lparr>ex_leases := charge (cx_lease cx) gr (ex_leases s)\<rparr>"
    show ?thesis
    proof (cases "bindR (resolveWritableWorkspacePath (ex_tree s) path (cx_workspace_root cx)) (\<lambda>p.
        bindR (readExistingFileForPatch (ex_tree s) p (orelse (po_opt_createIfMissing options) False)) (\<lambda>b.
        bindR (assertExpectedHash rt b (po_opt_expectedBaseHash options)) (\<lambda>_.
        bindR (diff_failed (applyUnifiedDiff (rt_encode rt Utf8 b) (po_opt_patchContent options))) (\<lambda>pr. Inr (p, b, pr)))))")
      case (Inl e)
      then have "r = Inl e \<and> s' = ?s"
        using granted(2) by (auto simp: bind_tree_read bind_readA Let_def result_simps)
      then show ?thesis using untouched False by simp
    next
      case (Inr x)
      then obtain p b pr where x: "resolveWritableWorkspacePath (ex_tree s) path (cx_workspace_root cx) = Inr p"
        "readExistingFileForPatch (ex_tree s) p (orelse (po_opt_createIfMissing options) False) = Inr b"
        "sha256Hash rt b = po_opt_expectedBaseHash options"
        "diff_failed (applyUnifiedDiff (rt_encode rt Utf8 b) (po_opt_patchContent options)) = Inr pr"
        by (auto simp: result_simps assertExpectedHash_def Let_def)
      have d: "applyUnifiedDiff (rt_encode rt Utf8 b) (po_opt_patchContent options) = Inr pr"
        using x(4) by (auto simp: diff_failed_def split: sum.splits)
      have h: "assertExpectedHash rt b (po_opt_expectedBaseHash options) = Inr ()"
        using x(3) by (simp add: assertExpectedHash_def)
      have "\<exists>ok. (if tp_changed pr then store_file True p (rt_decode rt Utf8 (tp_content pr)) (ex_tree s) (ex_tree s') ok
             else ex_tree s' = ex_tree s)
          \<and> (\<forall>res. r = Inr res \<longrightarrow> (tp_changed pr \<longrightarrow> ok) \<and> pt_changed res = tp_changed pr
             \<and> pt_new_hash res = sha256Hash rt (rt_decode rt Utf8 (tp_content pr)))"
        using granted(2) x(1,2,4) h
        by (auto simp: body_simps Let_def store_file_def split: if_splits prod.splits)
      then show ?thesis using patched [OF False granted(1) x(1,2,3) d] by auto
    qed
  qed
qed

lemma map_of_filter_keys: "map_of (filter (\<lambda>(q, _). P q) t) x = (if P x then map_of t x else None)"
  by (induction t) auto

lemma deletePath_body_cases:
  assumes "deletePath_body rt cx path s = Some (r, s')"
  obtains (untouched) e where "r = Inl e" "ex_tree s' = ex_tree s"
      "cx_sandbox_mode cx = Read_only \<Longrightarrow> s' = s \<and> (\<exists>m. e = policy_error ''local_capability_sandbox_read_only'' m)"
  | (deleted) p gr where "cx_sandbox_mode cx \<noteq> Read_only"
      "lease_permits (rt_config rt) (rt_now rt) (ex_leases s) (cx_lease cx) (fs_request cx Fs_delete) gr"
      "resolveExistingWorkspacePath (ex_tree s) path (cx_workspace_root cx) = Inr p"
      "fs_rm (ex_tree s) p = Inr (ex_tree s')"
proof (cases "cx_sandbox_mode cx = Read_only")
  case True
  then show ?thesis using assms untouched by (auto simp: deletePath_body_def bind_sandbox)
next
  case False
  then have "bindA (authorize_fs rt cx Fs_delete) (\<lambda>_.
     bindA (tree_read (\<lambda>t. resolveExistingWorkspacePath t path (cx_workspace_root cx))) (\<lambda>resolvedPath.
     bindA (tree_write (\<lambda>t. fs_rm t resolvedPath)) (\<lambda>_.
     bindA (tree_read (\<lambda>t. workspaceRelativePath t resolvedPath (cx_workspace_root cx))) (\<lambda>rel.
     returnA rel)))) s = Some (r, s')"
    using assms by (simp add: deletePath_body_def bind_sandbox)
  then show ?thesis
  proof (cases rule: bind_authorize_fs)
    case refused
    then show ?thesis using untouched False by simp
  next
    case (granted gr)
    then show ?thesis
      using untouched [of _] deleted [OF False granted(1)] False
      by (auto simp: bind_tree_read bind_tree_write)
  qed
qed

lemma rm_confined:
  assumes "wf_fs t" and "resolveExistingWorkspacePath t path root = Inr p" and "real_root t root = Some rt"
    and "fs_rm t p = Inr t'"
  shows "confined rt t t'"
proof -
  obtain q where q: "p = path_text q" "resolved t q" "prefix rt q"
    using resolveExisting_Inr [OF assms(1,2)] assms(3) by auto
  then have "t' = filter (\<lambda>(x, _). \<not> prefix q x) t"
    using assms(1,4) by (auto simp: fs_rm_def Let_def path_segments_text resolved_proper split: if_splits)
  then show ?thesis
    using q(3) map_of_filter_keys [of "\<lambda>x. \<not> prefix q x" t] unfolding confined_def
    by (metis prefix_order.trans)
qed

subsection \<open>Properties\<close>

definition same_tree :: "executor \<Rightarrow> executor \<Rightarrow> bool" where
  "same_tree s s' \<longleftrightarrow> ex_tree s' = ex_tree s"

interpretation same_tree: move_relation same_tree
  by unfold_locales (simp_all add: same_tree_def)

lemma authorize_same_tree: "moves same_tree (authorize f)"
  by (auto simp: moves_def same_tree_def authorize_def split: prod.splits sum.splits)

lemma tree_read_same_tree: "moves same_tree (tree_read f)"
  by (simp add: moves_def same_tree_def tree_read_def)

lemma readFile_body_same: "moves same_tree (readFile_body rt cx path options)"
  unfolding readFile_body_def authorize_fs_def Let_def
  by (intro same_tree.intros authorize_same_tree tree_read_same_tree) (auto intro!: same_tree.intros tree_read_same_tree split: prod.split)

lemma listDirectory_body_same: "moves same_tree (listDirectory_body rt cx path options)"
  unfolding listDirectory_body_def authorize_fs_def
  by (intro same_tree.intros authorize_same_tree tree_read_same_tree) (auto intro!: same_tree.intros tree_read_same_tree split: prod.split)

text \<open>An action changes the tree as its body does.\<close>

lemma runAction_tree:
  assumes "runAction rt cx c a pa j body s = Some (r, s')"
    and "\<And>s1 x s2. ex_tree s1 = ex_tree s \<Longrightarrow> ex_leases s1 = ex_leases s \<Longrightarrow> body s1 = Some (x, s2) \<Longrightarrow> Q (ex_tree s2)"
    and "Q (ex_tree s)"
  shows "Q (ex_tree s')"
  using assms(1)
proof (cases rule: runAction_inner)
  case not_run
  then show ?thesis using assms(3) by (simp add: same_but_audit_def)
next
  case (ran s1 x s2)
  then have "Q (ex_tree s2)" using assms(2) [of s1 x s2] by (simp add: same_but_audit_def)
  then show ?thesis using ran(3) by (simp add: same_but_audit_def)
qed

definition sample_fs_grant :: LocalCapabilityGrant where
  "sample_fs_grant = \<lparr>grant_id = ''filesystem'', grant_scopes = [''workspace_read'', ''workspace_write''],
     grant_approval_policy = None, grant_command_policy = None, grant_max_calls = None\<rparr>"

definition sample_fs_context :: LocalCapabilityExecutionContext where
  "sample_fs_context = \<lparr>cx_session_id = ''s'', cx_turn_id = ''t1'', cx_workspace_id = ''w'',
     cx_provider_instance_id = ''p'', cx_workspace_root = ''/ws'', cx_sandbox_mode = Workspace_write,
     cx_lease = sample_lease\<lparr>lease_capabilities := [sample_fs_grant]\<rparr>\<rparr>"

definition sample_runtime :: runtime where
  "sample_runtime = \<lparr>rt_config = sample_config\<lparr>lc_local_capabilities :=
       [\<lparr>cfg_id = ''filesystem'', cfg_status = Cap_available, cfg_scopes = [''workspace_read'', ''workspace_write''],
         cfg_approval_required = False\<rparr>]\<rparr>,
     rt_now = 5, rt_iso = ''t'', rt_encode = (\<lambda>_ b. b), rt_decode = (\<lambda>_ b. b), rt_sha256 = (\<lambda>b. b),
     rt_regex = (\<lambda>_. Inl ''no''), rt_locale = (\<lambda>_ _. True), rt_audit = None,
     rt_child = (\<lambda>_ t. ([Child_close (Some 0) None], t)), rt_spawn = (\<lambda>_ t. (Some 7, t)), rt_path = None\<rparr>"

definition sample_tree :: fs where
  "sample_tree = [([], Dir), ([''ws''], Dir), ([''out''], Dir), ([''ws'', ''l''], Symlink ''/out'')]"

definition sample_executor :: executor where
  "sample_executor = \<lparr>ex_leases = new_lease_manager, ex_tree = sample_tree, ex_devServers = [], ex_audit = []\<rparr>"

lemma sample_tree_ok: "wf_fs (ex_tree sample_executor)" "real_root (ex_tree sample_executor) (cx_workspace_root sample_fs_context) = Some [''ws'']"
  by (auto simp: wf_fs_def sample_executor_def sample_tree_def proper_segment_def append_eq_Cons_conv split: if_splits)
     (simp add: real_root_def walk_path_def sample_fs_context_def MAXSYMLINKS_def)

text \<open>Paths that are not absolute are plain.\<close>

lemma relative_plain: "\<not> isAbsolute p \<Longrightarrow> plain_path p"
  by (simp add: plain_path_def)

definition leaves_confined :: "string list \<Rightarrow> executor \<Rightarrow> ('r \<times> executor) option \<Rightarrow> bool" where
  "leaves_confined root s outcome =
     (case outcome of None \<Rightarrow> True | Some (_, s') \<Rightarrow> confined root (ex_tree s) (ex_tree s'))"

lemma confined_each:
  assumes "wf_fs (ex_tree s)" and "plain_path path"
    and "real_root (ex_tree s) (cx_workspace_root cx) = Some root"
  shows "leaves_confined root s (writeFile rt cx path content wopts s)"
    and "leaves_confined root s (patchFile rt cx path popts s)"
    and "leaves_confined root s (deletePath rt cx path s)"
    and "case readFile rt cx path ropts s of None \<Rightarrow> True | Some (_, s') \<Rightarrow> ex_tree s' = ex_tree s"
    and "case listDirectory rt cx path lopts s of None \<Rightarrow> True | Some (_, s') \<Rightarrow> ex_tree s' = ex_tree s"
proof -
  let ?C = "confined root (ex_tree s)"
  have w: "?C (ex_tree s2)" if "ex_tree s1 = ex_tree s" "writeFile_body rt cx path content wopts s1 = Some (x, s2)" for s1 x s2
    using that(2) by (cases rule: writeFile_body_cases) (use that(1) store_file_effect [OF assms(1) _ assms(2,3)] in auto)
  have p: "?C (ex_tree s2)" if "ex_tree s1 = ex_tree s" "patchFile_body rt cx path popts s1 = Some (x, s2)" for s1 x s2
    using that(2) by (cases rule: patchFile_body_cases)
      (use that(1) store_file_effect [OF assms(1) _ assms(2,3)] in \<open>auto split: if_splits\<close>)
  have d: "?C (ex_tree s2)" if "ex_tree s1 = ex_tree s" "deletePath_body rt cx path s1 = Some (x, s2)" for s1 x s2
    using that(2) by (cases rule: deletePath_body_cases) (use that(1) rm_confined [OF assms(1) _ assms(3)] in auto)
  show "leaves_confined root s (writeFile rt cx path content wopts s)"
    and "leaves_confined root s (patchFile rt cx path popts s)"
    and "leaves_confined root s (deletePath rt cx path s)"
    unfolding leaves_confined_def writeFile_def patchFile_def deletePath_def
    by (auto split: option.split intro: runAction_tree [where Q = ?C] dest: w p d)
  have "ex_tree s2 = ex_tree s1" if "readFile_body rt cx path ropts s1 = Some (x, s2)" for s1 x s2
    using readFile_body_same that by (auto simp: moves_def same_tree_def)
  then show "case readFile rt cx path ropts s of None \<Rightarrow> True | Some (_, s') \<Rightarrow> ex_tree s' = ex_tree s"
    unfolding readFile_def by (auto split: option.split intro: runAction_tree [where Q = "\<lambda>t. t = ex_tree s"])
  have "ex_tree s2 = ex_tree s1" if "listDirectory_body rt cx path lopts s1 = Some (x, s2)" for s1 x s2
    using listDirectory_body_same that by (auto simp: moves_def same_tree_def)
  then show "case listDirectory rt cx path lopts s of None \<Rightarrow> True | Some (_, s') \<Rightarrow> ex_tree s' = ex_tree s"
    unfolding listDirectory_def by (auto split: option.split intro: runAction_tree [where Q = "\<lambda>t. t = ex_tree s"])
qed

text \<open>C26: Confinement.  Whatever the outcome, writing, patching or deleting a path that is relative, or
  absolute and normalised, changes nothing in the file system except at or below the real directory of
  the workspace root, through no link and with no parent directory made elsewhere; reading and listing
  change nothing at all.\<close>

theorem file_actions_confined:
  assumes "wf_fs (ex_tree s)" and "plain_path path"
    and "real_root (ex_tree s) (cx_workspace_root cx) = Some root"
  shows "leaves_confined root s (writeFile rt cx path content wopts s)
    \<and> leaves_confined root s (patchFile rt cx path popts s)
    \<and> leaves_confined root s (deletePath rt cx path s)
    \<and> (case readFile rt cx path ropts s of None \<Rightarrow> True | Some (_, s') \<Rightarrow> ex_tree s' = ex_tree s)
    \<and> (case listDirectory rt cx path lopts s of None \<Rightarrow> True | Some (_, s') \<Rightarrow> ex_tree s' = ex_tree s)"
  by (intro conjI confined_each [OF assms])

definition plain_write :: FilesystemWriteOptions where
  "plain_write = \<lparr>wo_opt_encoding = None, wo_opt_mode = None, wo_opt_createParents = None, wo_opt_expectedBaseHash = None\<rparr>"

theorem file_actions_confined_witness:
  "leaves_confined [''ws''] sample_executor
     (writeFile sample_runtime sample_fs_context ''l/../l/x'' ''hi'' plain_write sample_executor)"
  using file_actions_confined [OF sample_tree_ok(1) relative_plain sample_tree_ok(2)] by (simp add: isAbsolute_def)

text \<open>For evaluated examples: an outcome is a success, and the state it leaves.\<close>

definition succeeds :: "(('e + 'r) \<times> 's) option \<Rightarrow> bool" where
  "succeeds outcome = (case outcome of None \<Rightarrow> False | Some (Inl _, _) \<Rightarrow> False | Some (Inr _, _) \<Rightarrow> True)"

definition state_after :: "('r \<times> 's) option \<Rightarrow> 's" where
  "state_after outcome = snd (the outcome)"

lemma succeedsE:
  assumes "succeeds outcome"
  obtains x y s where "outcome = Some (Inr (x, y), s)"
  using assms by (cases outcome) (auto simp: succeeds_def split: sum.splits prod.splits)

text \<open>
  For an absolute path with dots the containment check looks at the normalised text, but \<open>mkdir\<close> and
  \<open>writeFile\<close> resolve it as written: when the directory before \<open>..\<close> is missing, \<open>mkdir\<close> creates it, and
  the path then leads through a link that was never looked at.
\<close>

lemma write_escapes_through_dotdot:
  "\<exists>p t1 t2. resolveWritableWorkspacePath sample_tree ''/ws/m/../l/x'' ''/ws'' = Inr p
     \<and> fs_mkdir sample_tree (dirname p) = (t1, None) \<and> fs_writeFile t1 p ''hi'' = Inr t2
     \<and> map_of sample_tree [''out'', ''x''] = None \<and> map_of t2 [''out'', ''x''] = Some (File ''hi'')"
proof -
  let ?p = "''/ws/m/../l/x''"
  have "resolveWritableWorkspacePath sample_tree ?p ''/ws'' = Inr ?p" by code_simp
  moreover have "fs_mkdir sample_tree (dirname ?p) = (sample_tree @ [([''ws'', ''m''], Dir)], None)" by code_simp
  moreover have "fs_writeFile (sample_tree @ [([''ws'', ''m''], Dir)]) ?p ''hi'' =
      Inr (sample_tree @ [([''ws'', ''m''], Dir), ([''out'', ''x''], File ''hi'')])" by code_simp
  moreover have "map_of sample_tree [''out'', ''x''] = None"
    "map_of (sample_tree @ [([''ws'', ''m''], Dir), ([''out'', ''x''], File ''hi'')]) [''out'', ''x''] = Some (File ''hi'')"
    by (simp_all add: sample_tree_def)
  ultimately show ?thesis by blast
qed

text \<open>Running an action returns when its body does, with the events of its outcome.\<close>

definition returns :: "('s, 'e, 'a) act \<Rightarrow> bool" where
  "returns m \<longleftrightarrow> (\<forall>s. m s \<noteq> None)"

lemma returns_intros:
  "returns (returnA a)" "returns (throwA e)" "returns (readA g)" "returns (tree_read f)" "returns (tree_write h)"
  "returns (make_parents p)" "returns (authorize x)" "returns (assertWritableSandbox cx y)"
  by (auto simp: returns_def tree_read_def tree_write_def make_parents_def authorize_def assertWritableSandbox_def
      split: sum.splits prod.splits)

lemma returns_bind: "returns m \<Longrightarrow> (\<And>a. returns (f a)) \<Longrightarrow> returns (bindA m f)"
  unfolding returns_def bindA_def by (auto split: option.splits sum.splits)

lemma returns_when: "returns m \<Longrightarrow> returns (whenA b m)"
  by (simp add: whenA_def returns_intros)

lemma returns_runAction: "returns body \<Longrightarrow> returns (runAction rt cx c a pa j body)"
  unfolding returns_def runAction_def action_failed_def
  by (auto simp: Let_def split: option.splits sum.splits prod.splits) (metis option.distinct(1))

definition event_types :: "LocalCapabilityExecutionEvent list \<Rightarrow> string list" where
  "event_types es = map (\<lambda>e. drop (length ''local_capability.action.'') (xv_event_type e)) es"


definition only_when_permitted ::
  "runtime \<Rightarrow> LocalCapabilityExecutionContext \<Rightarrow> LocalFilesystemAction \<Rightarrow> executor \<Rightarrow> ('r \<times> executor) option \<Rightarrow> bool" where
  "only_when_permitted rt cx a s outcome =
     (case outcome of None \<Rightarrow> True
      | Some (_, s') \<Rightarrow> ex_tree s' = ex_tree s
          \<or> (cx_sandbox_mode cx \<noteq> Read_only
             \<and> (\<exists>g. lease_permits (rt_config rt) (rt_now rt) (ex_leases s) (cx_lease cx) (fs_request cx a) g)))"

lemma runAction_permitted:
  assumes "\<And>s1 x s2. body s1 = Some (x, s2) \<Longrightarrow> ex_tree s2 = ex_tree s1
    \<or> cx_sandbox_mode cx \<noteq> Read_only \<and> (\<exists>g. lease_permits (rt_config rt) (rt_now rt) (ex_leases s1) (cx_lease cx) (fs_request cx f) g)"
  shows "only_when_permitted rt cx f s (runAction rt cx c a pa j body s)"
proof (cases "runAction rt cx c a pa j body s")
  case (Some out)
  then obtain r s' where out: "out = (r, s')" "runAction rt cx c a pa j body s = Some (r, s')" by (cases out) auto
  from out(2) have "ex_tree s' = ex_tree s \<or> cx_sandbox_mode cx \<noteq> Read_only
      \<and> (\<exists>g. lease_permits (rt_config rt) (rt_now rt) (ex_leases s) (cx_lease cx) (fs_request cx f) g)"
  proof (cases rule: runAction_inner)
    case not_run
    then show ?thesis by (simp add: same_but_audit_def)
  next
    case (ran s1 x s2)
    then show ?thesis using assms [OF ran(2)] by (auto simp: same_but_audit_def)
  qed
  then show ?thesis using out Some by (simp add: only_when_permitted_def)
qed (simp add: only_when_permitted_def)

text \<open>C27: Authorisation.  If a write, patch or delete changed anything in the file system, then the sandbox
  was not read-only and the lease, as it stood, permitted exactly that action with a grant of the
  filesystem capability in the write scope.\<close>

theorem file_changes_authorised:
  "only_when_permitted rt cx (write_action wopts) s (writeFile rt cx path content wopts s)
   \<and> only_when_permitted rt cx Fs_patch s (patchFile rt cx path popts s)
   \<and> only_when_permitted rt cx Fs_delete s (deletePath rt cx path s)"
  unfolding writeFile_def patchFile_def deletePath_def
  by (intro conjI runAction_permitted)
     (auto elim!: writeFile_body_cases patchFile_body_cases deletePath_body_cases)

definition refused_by_sandbox :: "runtime \<Rightarrow> executor \<Rightarrow> ((thrown + 'r) \<times> executor) option \<Rightarrow> bool" where
  "refused_by_sandbox rt s outcome =
     (case outcome of None \<Rightarrow> False
      | Some (r, s') \<Rightarrow> same_but_audit s s' \<and>
          (case r of Inr _ \<Rightarrow> False
           | Inl (LocalCapabilityExecutionError _ e) \<Rightarrow> (\<exists>m. e = policy_error ''local_capability_sandbox_read_only'' m)
           | Inl (Unwrapped _) \<Rightarrow> rt_audit rt \<noteq> None))"

lemma runAction_refused:
  assumes "\<And>s. \<exists>m. body s = Some (Inl (policy_error ''local_capability_sandbox_read_only'' m), s)"
  shows "refused_by_sandbox rt s (runAction rt cx c a pa j body s)"
proof -
  let ?ids = "[(''capability_id'', JStr c), (''action'', JStr a)]"
  obtain a0 s1 where a0: "recordAudit rt cx (audit_name c a ''started'') ?ids s = (a0, s1)" by fastforce
  obtain m where m: "body s1 = Some (Inl (policy_error ''local_capability_sandbox_read_only'' m), s1)" using assms by blast
  have s1: "same_but_audit s s1" using a0 by (rule recordAudit_same)
  have log: "x = Inl e \<Longrightarrow> rt_audit rt \<noteq> None" if "recordAudit rt cx n d s2 = (x, s3)" for n d s2 x s3 e
    using that by (cases "rt_audit rt") (auto simp: recordAudit_def)
  show ?thesis
    using a0 m s1 log [OF a0]
    by (auto simp: refused_by_sandbox_def runAction_def action_failed_def Let_def same_but_audit_def
        split: sum.splits prod.splits dest: recordAudit_same log)
qed

text \<open>C28: Read-only sandbox.  In read-only mode a write, a patch and a delete are refused with the
  sandbox error before anything is looked at: tree, lease counters and dev servers stay as they are.\<close>

theorem read_only_sandbox_refuses:
  assumes "cx_sandbox_mode cx = Read_only"
  shows "refused_by_sandbox rt s (writeFile rt cx path content wopts s)
    \<and> refused_by_sandbox rt s (patchFile rt cx path popts s)
    \<and> refused_by_sandbox rt s (deletePath rt cx path s)"
  unfolding writeFile_def patchFile_def deletePath_def writeFile_body_def patchFile_body_def deletePath_body_def
  by (intro conjI runAction_refused) (simp add: assertWritableSandbox_def bindA_def assms, rule exI, rule refl)+

theorem read_only_sandbox_refuses_witness:
  "refused_by_sandbox sample_runtime sample_executor
     (deletePath sample_runtime (sample_fs_context\<lparr>cx_sandbox_mode := Read_only\<rparr>) ''.'' sample_executor)"
  using read_only_sandbox_refuses [of "sample_fs_context\<lparr>cx_sandbox_mode := Read_only\<rparr>" sample_runtime sample_executor] by simp

subsection \<open>What a successful write guarantees\<close>

lemma runAction_Inr:
  assumes "runAction rt cx c a pa j body s = Some (Inr (x, es), s')"
  obtains s1 s2 where "same_but_audit s s1" "body s1 = Some (Inr x, s2)" "same_but_audit s2 s'"
  using assms by (cases rule: runAction_inner) auto

lemma fileExists_False: "fileExists t p = Inr False \<longleftrightarrow> fs_lstat t p = Inl ENOENT"
  by (auto simp: fileExists_def isFileMissingError_def split: sum.splits node.splits)

text \<open>The bytes a write was given.\<close>

definition content_bytes :: "runtime \<Rightarrow> FilesystemWriteOptions \<Rightarrow> string \<Rightarrow> string" where
  "content_bytes rt options content = rt_decode rt (orelse (wo_opt_encoding options) Utf8) content"

text \<open>Writing.  When a write succeeds, the resolved path holds exactly the bytes it was given, and the
  reported size and hash are theirs.  In create mode nothing existed under the path before, not even a
  link; in overwrite mode with an expected hash the file existed and its content had that hash.\<close>

theorem write_succeeds_as_asked:
  assumes "wf_fs (ex_tree s)" and "plain_path path" and "real_root (ex_tree s) (cx_workspace_root cx) = Some root"
    and "writeFile rt cx path content options s = Some (Inr (w, es), s')"
  shows "\<exists>p. resolveWritableWorkspacePath (ex_tree s) path (cx_workspace_root cx) = Inr p
    \<and> fs_readFile (ex_tree s') p = Inr (content_bytes rt options content)
    \<and> wr_bytes_written w = int (length (content_bytes rt options content))
    \<and> wr_new_hash w = sha256Hash rt (content_bytes rt options content)
    \<and> (case orelse (wo_opt_mode options) Mode_overwrite of
         Mode_create \<Rightarrow> fs_lstat (ex_tree s) p = Inl ENOENT
       | Mode_overwrite \<Rightarrow>
           (case wo_opt_expectedBaseHash options of None \<Rightarrow> True
            | Some h \<Rightarrow> \<exists>b. fs_readFile (ex_tree s) p = Inr b \<and> sha256Hash rt b = h))"
proof -
  obtain s1 s2 where run: "same_but_audit s s1" "writeFile_body rt cx path content options s1 = Some (Inr w, s2)"
    "same_but_audit s2 s'"
    using assms(4) unfolding writeFile_def by (rule runAction_Inr)
  then have trees: "ex_tree s1 = ex_tree s" "ex_tree s' = ex_tree s2" by (simp_all add: same_but_audit_def)
  from run(2) show ?thesis
  proof (cases rule: writeFile_body_cases)
    case untouched
    then show ?thesis by simp
  next
    case (stored p gr stored_ok)
    have w: "fs_readFile (ex_tree s2) p = Inr (content_bytes rt options content)"
      using store_file_effect [OF assms(1) _ assms(2,3), of p] stored(3,5,6) trees by (simp add: content_bytes_def)
    show ?thesis
      using stored(3,4) stored(6) [OF refl] w trees
      by (auto simp: content_bytes_def assertWriteModeAllowed_def result_simps fileExists_False assertExpectedHash_def Let_def
          split: write_mode.splits option.splits)
  qed
qed

theorem write_succeeds_as_asked_witness:
  "\<exists>w es s'. writeFile sample_runtime sample_fs_context ''a'' ''hi'' plain_write sample_executor = Some (Inr (w, es), s')
     \<and> wr_new_hash w = ''sha256:hi'' \<and> wr_bytes_written w = 2"
proof -
  have "succeeds (writeFile sample_runtime sample_fs_context ''a'' ''hi'' plain_write sample_executor)" by code_simp
  then obtain w es s' where run: "writeFile sample_runtime sample_fs_context ''a'' ''hi'' plain_write sample_executor = Some (Inr (w, es), s')"
    by (rule succeedsE)
  from write_succeeds_as_asked [OF sample_tree_ok(1) relative_plain sample_tree_ok(2) run]
  have "wr_new_hash w = ''sha256:hi'' \<and> wr_bytes_written w = 2"
    by (auto simp: isAbsolute_def content_bytes_def sha256Hash_def sample_runtime_def)
  with run show ?thesis by blast
qed

lemma fs_realpath_grown: "grown t t' \<Longrightarrow> fs_realpath t p = Inr r \<Longrightarrow> fs_realpath t' p = Inr r"
  by (auto simp: fs_realpath_def walk_path_def split: walk_result.splits dest: walk_larger)

lemma resolveCandidate_grown: "grown t t' \<Longrightarrow> resolveCandidatePath t p root = Inr c \<Longrightarrow> resolveCandidatePath t' p root = Inr c"
  by (auto simp: resolveCandidatePath_def result_simps dest: fs_realpath_grown split: if_splits)

lemma resolveWritable_candidate:
  assumes "resolveWritableWorkspacePath t path root = Inr p"
  obtains c where "resolveCandidatePath t path root = Inr c" "fs_realpath t c = Inr p \<or> p = c"
proof -
  obtain c u where c: "resolveCandidatePath t path root = Inr c" "assertCandidateInsideWorkspace t c root = Inr u"
    using assms by (auto simp: resolveWritableWorkspacePath_def result_simps)
  have "fs_realpath t c = Inr p \<or> p = c"
  proof (cases "fs_realpath t c")
    case (Inr rp)
    then show ?thesis
      using assms c
      by (auto simp: resolveWritableWorkspacePath_def result_simps isFileMissingError_def policy_error_def
          assertInsideWorkspace_def split: sum.splits if_splits)
  next
    case (Inl e)
    then show ?thesis
      using assms c by (auto simp: resolveWritableWorkspacePath_def result_simps isFileMissingError_def split: if_splits)
  qed
  with c(1) show ?thesis by (rule that)
qed

text \<open>Resolving the path again, for reading, finds what was written.\<close>

lemma read_back:
  assumes "wf_fs t'" and "grown t t'" and "resolveWritableWorkspacePath t path root = Inr p"
    and "fs_readFile t' p = Inr b" and "resolveExistingWorkspacePath t' path root = Inr q"
  shows "fs_readFile t' q = Inr b"
proof -
  obtain c where c: "resolveCandidatePath t path root = Inr c" "fs_realpath t c = Inr p \<or> p = c"
    using assms(3) by (rule resolveWritable_candidate)
  have q: "fs_realpath t' c = Inr q"
    using assms(5) resolveCandidate_grown [OF assms(2) c(1)]
    by (auto simp: resolveExistingWorkspacePath_def result_simps split: sum.splits)
  from c(2) show ?thesis
  proof
    assume "fs_realpath t c = Inr p"
    then have "p = q" using fs_realpath_grown [OF assms(2)] q by fastforce
    then show ?thesis using assms(4) by simp
  next
    assume "p = c"
    then obtain x where x: "walk_path t' c = Found x" "q = path_text x" "walk_path t' q = Found x"
      using fs_realpath_Inr [OF assms(1) q] by metis
    then show ?thesis using assms(4) \<open>p = c\<close> by (simp add: fs_readFile_def)
  qed
qed

lemma readFile_body_Inr:
  assumes "readFile_body rt cx path options s = Some (Inr r, s')"
  shows "\<exists>q b. resolveExistingWorkspacePath (ex_tree s) path (cx_workspace_root cx) = Inr q
    \<and> fs_readFile (ex_tree s) q = Inr b \<and> rr_hash r = sha256Hash rt b
    \<and> rr_content r = rt_encode rt (orelse (ro_opt_encoding options) Utf8)
        (fst (limitBuffer (applyByteRange b (ro_opt_range options)) (ro_opt_contentByteLimit options)))"
  using assms unfolding readFile_body_def
  by (elim bind_authorize_fs) (auto simp: bind_tree_read result_simps Let_def case_prod_beta)

text \<open>Write, then read.  A read of the path a write succeeded on, as long as the file system is as the
  write left it, sees exactly the written bytes: its hash is the one the write reported, and without
  range and limit its content is their encoding.\<close>

theorem write_then_read:
  assumes "wf_fs (ex_tree s)" and "plain_path path" and "real_root (ex_tree s) (cx_workspace_root cx) = Some root"
    and "writeFile rt cx path content options s = Some (Inr (w, es), s1)"
    and "readFile rt cx path ropts s2 = Some (Inr (r, fs), s3)" and "ex_tree s2 = ex_tree s1"
  shows "rr_hash r = wr_new_hash w
    \<and> (ro_opt_range ropts \<noteq> None \<or> ro_opt_contentByteLimit ropts \<noteq> None
       \<or> rr_content r = rt_encode rt (orelse (ro_opt_encoding ropts) Utf8) (content_bytes rt options content))"
proof -
  obtain t1 t2 where run: "same_but_audit s t1" "writeFile_body rt cx path content options t1 = Some (Inr w, t2)"
    "same_but_audit t2 s1"
    using assms(4) unfolding writeFile_def by (rule runAction_Inr)
  then have trees: "ex_tree t1 = ex_tree s" "ex_tree s1 = ex_tree t2" by (simp_all add: same_but_audit_def)
  obtain u1 u2 where rd: "same_but_audit s2 u1" "readFile_body rt cx path ropts u1 = Some (Inr r, u2)"
    using assms(5) unfolding readFile_def by (rule runAction_Inr)
  from run(2) show ?thesis
  proof (cases rule: writeFile_body_cases)
    case untouched
    then show ?thesis by simp
  next
    case (stored p gr stored_ok)
    note p = stored(3) [unfolded trees(1)] and st = stored(5) [unfolded trees(1), folded trees(2)]
    note eff = store_file_effect [OF assms(1) p assms(2,3) st]
    have ok: "stored_ok" and h: "wr_new_hash w = sha256Hash rt (content_bytes rt options content)"
      using stored(6) [OF refl] eff trees by (auto simp: content_bytes_def)
    have b: "fs_readFile (ex_tree s1) p = Inr (content_bytes rt options content)"
      using eff ok by (simp add: content_bytes_def)
    have "ex_tree u1 = ex_tree s1" using rd(1) assms(6) by (simp add: same_but_audit_def)
    with readFile_body_Inr [OF rd(2)] obtain q b' where
      "resolveExistingWorkspacePath (ex_tree s1) path (cx_workspace_root cx) = Inr q"
      "fs_readFile (ex_tree s1) q = Inr b'" "rr_hash r = sha256Hash rt b'"
      "rr_content r = rt_encode rt (orelse (ro_opt_encoding ropts) Utf8)
        (fst (limitBuffer (applyByteRange b' (ro_opt_range ropts)) (ro_opt_contentByteLimit ropts)))"
      by auto
    moreover from this have "b' = content_bytes rt options content"
      using read_back [OF _ _ p b] eff by auto
    ultimately show ?thesis
      using h by (cases "ro_opt_range ropts"; cases "ro_opt_contentByteLimit ropts") (simp_all add: applyByteRange_def limitBuffer_def)
  qed
qed

text \<open>The same for the state after the write itself, evaluated.\<close>

definition plain_read :: FilesystemReadOptions where
  "plain_read = \<lparr>ro_opt_encoding = None, ro_opt_range = None, ro_opt_contentByteLimit = None\<rparr>"

theorem write_then_read_witness:
  "\<exists>w es s1 r fs s3. writeFile sample_runtime sample_fs_context ''d/a'' ''hi'' plain_write sample_executor = Some (Inr (w, es), s1)
     \<and> readFile sample_runtime sample_fs_context ''d/a'' plain_read s1 = Some (Inr (r, fs), s3)
     \<and> rr_hash r = wr_new_hash w \<and> rr_content r = ''hi''"
proof -
  let ?w = "writeFile sample_runtime sample_fs_context ''d/a'' ''hi'' plain_write sample_executor"
  have "succeeds ?w" by code_simp
  then obtain w es s1 where w: "?w = Some (Inr (w, es), s1)" by (rule succeedsE)
  have "succeeds (readFile sample_runtime sample_fs_context ''d/a'' plain_read (state_after ?w))" by code_simp
  then have "succeeds (readFile sample_runtime sample_fs_context ''d/a'' plain_read s1)" by (simp add: w state_after_def)
  then obtain r fs s3 where r: "readFile sample_runtime sample_fs_context ''d/a'' plain_read s1 = Some (Inr (r, fs), s3)"
    by (rule succeedsE)
  from write_then_read [OF sample_tree_ok(1) relative_plain sample_tree_ok(2) w r refl]
  have "rr_hash r = wr_new_hash w \<and> rr_content r = ''hi''"
    by (auto simp: isAbsolute_def content_bytes_def sample_runtime_def plain_read_def)
  with w r show ?thesis by blast
qed

text \<open>Patching.  When a patch succeeds, the file (empty when it was missing and may be created) had the
  expected hash, and the new content is the patch applied to its text: if the patch changes anything
  the resolved path now holds it, otherwise the file system is as before; the reported hash is the new
  content's.\<close>

theorem patch_succeeds_as_asked:
  assumes "wf_fs (ex_tree s)" and "plain_path path" and "real_root (ex_tree s) (cx_workspace_root cx) = Some root"
    and "patchFile rt cx path options s = Some (Inr (r, es), s')"
  shows "\<exists>p existing pr. resolveWritableWorkspacePath (ex_tree s) path (cx_workspace_root cx) = Inr p
    \<and> readExistingFileForPatch (ex_tree s) p (orelse (po_opt_createIfMissing options) False) = Inr existing
    \<and> sha256Hash rt existing = po_opt_expectedBaseHash options
    \<and> applyUnifiedDiff (rt_encode rt Utf8 existing) (po_opt_patchContent options) = Inr pr
    \<and> pt_changed r = tp_changed pr \<and> pt_new_hash r = sha256Hash rt (rt_decode rt Utf8 (tp_content pr))
    \<and> (if tp_changed pr then fs_readFile (ex_tree s') p = Inr (rt_decode rt Utf8 (tp_content pr))
       else ex_tree s' = ex_tree s)"
proof -
  obtain s1 s2 where run: "same_but_audit s s1" "patchFile_body rt cx path options s1 = Some (Inr r, s2)"
    "same_but_audit s2 s'"
    using assms(4) unfolding patchFile_def by (rule runAction_Inr)
  then have trees: "ex_tree s1 = ex_tree s" "ex_tree s' = ex_tree s2" by (simp_all add: same_but_audit_def)
  from run(2) show ?thesis
  proof (cases rule: patchFile_body_cases)
    case untouched
    then show ?thesis by simp
  next
    case (patched p gr existing pr stored_ok)
    have "if tp_changed pr then fs_readFile (ex_tree s') p = Inr (rt_decode rt Utf8 (tp_content pr)) else ex_tree s' = ex_tree s"
      using patched(7) patched(8) [OF refl] store_file_effect [OF assms(1) _ assms(2,3), of p] patched(3) trees
      by (auto split: if_splits)
    then show ?thesis using patched(3-6) patched(8) [OF refl] trees by auto
  qed
qed

definition sample_patch :: FilesystemPatchOptions where
  "sample_patch = \<lparr>po_opt_expectedBaseHash = ''sha256:'', po_opt_patchContent = ''@@'' @ [NL] @ ''+hi'' @ [NL],
     po_opt_createIfMissing = Some True\<rparr>"

theorem patch_succeeds_as_asked_witness:
  "\<exists>r es s'. patchFile sample_runtime sample_fs_context ''a'' sample_patch sample_executor = Some (Inr (r, es), s')
     \<and> pt_changed r \<and> pt_new_hash r = ''sha256:hi'' @ [NL]"
proof -
  have "succeeds (patchFile sample_runtime sample_fs_context ''a'' sample_patch sample_executor)" by code_simp
  then obtain r es s' where run: "patchFile sample_runtime sample_fs_context ''a'' sample_patch sample_executor = Some (Inr (r, es), s')"
    by (rule succeedsE)
  from patch_succeeds_as_asked [OF sample_tree_ok(1) relative_plain sample_tree_ok(2) run]
  obtain p existing pr where pr: "sha256Hash sample_runtime existing = po_opt_expectedBaseHash sample_patch"
    "applyUnifiedDiff (rt_encode sample_runtime Utf8 existing) (po_opt_patchContent sample_patch) = Inr pr"
    "pt_changed r = tp_changed pr" "pt_new_hash r = sha256Hash sample_runtime (rt_decode sample_runtime Utf8 (tp_content pr))"
    by (auto simp: isAbsolute_def)
  have "existing = []" using pr(1) by (simp add: sha256Hash_def sample_runtime_def sample_patch_def)
  moreover have "applyUnifiedDiff [] (po_opt_patchContent sample_patch) = Inr \<lparr>tp_content = ''hi'' @ [NL], tp_changed = True\<rparr>"
    by code_simp
  ultimately have "pr = \<lparr>tp_content = ''hi'' @ [NL], tp_changed = True\<rparr>"
    using pr(2) by (simp add: sample_runtime_def)
  then show ?thesis using run pr(3,4) by (simp add: sha256Hash_def sample_runtime_def)
qed

text \<open>
  Deleting the workspace itself is allowed; the result's relative path is computed afterwards, from a
  root that no longer exists, so the action reports a failure although everything is gone.
\<close>

lemma delete_root_reports_failure:
  "case deletePath sample_runtime sample_fs_context ''.'' sample_executor of
     Some (Inl (LocalCapabilityExecutionError _ e), s') \<Rightarrow> e = System ENOENT \<and> map_of (ex_tree s') [''ws''] = None
   | _ \<Rightarrow> False"
  by code_simp

subsection \<open>Listing and its limit\<close>

definition unlimited :: "list_settings \<Rightarrow> list_settings" where
  "unlimited ls = ls\<lparr>ls_entryLimit := None\<rparr>"

definition cut :: "nat \<Rightarrow> list_entry list \<Rightarrow> list_entry list \<times> bool" where
  "cut n f = (take n f, n < length f)"

lemma unlimited_simps [simp]:
  "ls_entryLimit (unlimited ls) = None" "ls_includeHidden (unlimited ls) = ls_includeHidden ls"
  "deeper (unlimited ls) = deeper ls" "directory_entries (unlimited ls) = directory_entries ls"
  by (auto simp: unlimited_def deeper_def directory_entries_def fun_eq_iff)

lemma cut_prefix: "prefix f g \<Longrightarrow> n < length f \<Longrightarrow> cut n g = cut n f"
  by (auto simp: cut_def prefix_def)

text \<open>One visible entry, below the limit and at it.\<close>

definition at_limit :: "list_settings \<Rightarrow> list_entry list \<times> bool \<Rightarrow> bool" where
  "at_limit ls acc = (case ls_entryLimit ls of None \<Rightarrow> False | Some limit \<Rightarrow> limit \<le> int (length (fst acc)))"

lemma collect_visible:
  assumes "\<not> (\<not> ls_includeHidden ls \<and> startsWith n ''.'')"
  shows "at_limit ls acc \<Longrightarrow> collect_entries ls t d r k ((n, nd) # rest) acc = (fst acc, True)"
    and "\<not> at_limit ls acc \<Longrightarrow> collect_entries ls t d r k ((n, nd) # rest) acc =
      (let name = (if 0 < length r then r @ ''/'' @ n else n);
           acc = (fst acc @ [\<lparr>le_name = name, le_type = dirent_type nd\<rparr>], snd acc) in
       collect_entries ls t d r k rest
         (if deeper ls k \<and> map_of t (d @ [n]) = Some Dir then collect ls t (d @ [n]) name (k + 1) acc else acc))"
  unfolding at_limit_def by (simp_all only: collect_entries.simps(2) if_not_P [OF assms] if_P if_not_P if_False if_True)

text \<open>Without a limit the listing only grows and is never marked as truncated.\<close>

lemma collect_grows:
  "ls_entryLimit ls = None \<Longrightarrow> \<not> snd acc \<Longrightarrow>
     \<not> snd (collect ls t d r k acc) \<and> prefix (fst acc) (fst (collect ls t d r k acc))"
  "ls_entryLimit ls = None \<Longrightarrow> \<not> snd acc' \<Longrightarrow>
     \<not> snd (collect_entries ls t d r k es acc') \<and> prefix (fst acc') (fst (collect_entries ls t d r k es acc'))"
proof (induction ls t d r k acc and ls t d r k es acc' rule: collect_collect_entries.induct)
  case (1 ls t d r k acc)
  then show ?case by (simp add: collect.simps)
next
  case (2 ls t d r k acc)
  then show ?case by (simp add: collect_entries.simps)
next
  case (3 ls t d r k n nd rest acc)
  let ?name = "if 0 < length r then r @ ''/'' @ n else n"
  let ?acc = "(fst acc @ [\<lparr>le_name = ?name, le_type = dirent_type nd\<rparr>], snd acc)"
  define sub where "sub = (if deeper ls k \<and> map_of t (d @ [n]) = Some Dir
    then collect ls t (d @ [n]) ?name (k + 1) ?acc else ?acc)"
  show ?case
  proof (cases "\<not> ls_includeHidden ls \<and> startsWith n ''.''")
    case True
    then show ?thesis using 3 by (simp add: collect_entries.simps)
  next
    case False
    have sub: "\<not> snd sub \<and> prefix (fst acc @ [\<lparr>le_name = ?name, le_type = dirent_type nd\<rparr>]) (fst sub)"
      using "3.IH"(2) [OF False _ refl refl] "3.prems" by (simp add: sub_def)
    then have "\<not> snd (collect_entries ls t d r k rest sub) \<and> prefix (fst sub) (fst (collect_entries ls t d r k rest sub))"
      using "3.IH"(3) [OF False _ refl refl] "3.prems" by (simp add: sub_def)
    moreover have "collect_entries ls t d r k ((n, nd) # rest) acc = collect_entries ls t d r k rest sub"
      using collect_visible(2) [OF False] "3.prems" by (simp add: at_limit_def Let_def sub_def)
    moreover have "prefix (fst acc) (fst sub)" using sub append_prefixD by blast
    ultimately show ?thesis by (metis prefix_order.trans)
  qed
qed

text \<open>The limited run is the unlimited one, cut.\<close>

lemma collect_cut:
  "ls_entryLimit ls = Some (int n) \<Longrightarrow> acc = cut n f \<Longrightarrow>
     collect ls t d r k acc = cut n (fst (collect (unlimited ls) t d r k (f, False)))"
  "ls_entryLimit ls = Some (int n) \<Longrightarrow> acc' = cut n g \<Longrightarrow>
     collect_entries ls t d r k es acc' = cut n (fst (collect_entries (unlimited ls) t d r k es (g, False)))"
proof (induction ls t d r k acc and ls t d r k es acc' arbitrary: f and g rule: collect_collect_entries.induct)
  case (1 ls t d r k acc)
  show ?case
  proof (cases "snd acc")
    case True
    then have "n < length f" using "1.prems" by (simp add: cut_def)
    then have "cut n (fst (collect (unlimited ls) t d r k (f, False))) = cut n f"
      using collect_grows(1) [of "unlimited ls" "(f, False)"] by (intro cut_prefix) simp_all
    then show ?thesis using True "1.prems" by (simp add: collect.simps [of ls])
  next
    case False
    then show ?thesis using 1 by (simp add: collect.simps)
  qed
next
  case (2 ls t d r k acc)
  then show ?case by (simp add: collect_entries.simps)
next
  case (3 ls t d r k nm nd rest acc)
  let ?name = "if 0 < length r then r @ ''/'' @ nm else nm"
  let ?e = "\<lparr>le_name = ?name, le_type = dirent_type nd\<rparr>"
  define sub where "sub = (if deeper ls k \<and> map_of t (d @ [nm]) = Some Dir
    then collect (unlimited ls) t (d @ [nm]) ?name (k + 1) (g @ [?e], False) else (g @ [?e], False))"
  have full: "collect_entries (unlimited ls) t d r k ((nm, nd) # rest) (g, False) =
      collect_entries (unlimited ls) t d r k rest sub" if "\<not> (\<not> ls_includeHidden ls \<and> startsWith nm ''.'')"
    using collect_visible(2) [of "unlimited ls" nm] that by (simp add: at_limit_def Let_def sub_def)
  have sub: "\<not> snd sub" "prefix (g @ [?e]) (fst sub)"
    using collect_grows(1) [of "unlimited ls" "(g @ [?e], False)"] by (simp_all add: sub_def)
  then have pair: "sub = (fst sub, False)" by (metis prod.collapse)
  show ?case
  proof (cases "\<not> ls_includeHidden ls \<and> startsWith nm ''.''")
    case True
    then show ?thesis using 3 by (simp add: collect_entries.simps)
  next
    case False
    show ?thesis
    proof (cases "n \<le> length g")
      case True
      have "prefix (fst sub) (fst (collect_entries (unlimited ls) t d r k rest sub))"
        using collect_grows(2) [of "unlimited ls" sub t d r k rest] sub(1) by simp
      then have "prefix (g @ [?e]) (fst (collect_entries (unlimited ls) t d r k rest sub))"
        by (rule prefix_order.trans [OF sub(2)])
      then have "cut n (fst (collect_entries (unlimited ls) t d r k rest sub)) = cut n (g @ [?e])"
        using True by (intro cut_prefix) simp_all
      moreover have "collect_entries ls t d r k ((nm, nd) # rest) acc = cut n (g @ [?e])"
        using True collect_visible(1) [OF False] "3.prems" by (simp add: at_limit_def cut_def min_def)
      ultimately show ?thesis using full [OF False] by simp
    next
      case room: False
      then have acc: "acc = (g, False)" "fst acc @ [?e] = g @ [?e]" "(g @ [?e], False) = cut n (g @ [?e])"
        using "3.prems" by (simp_all add: cut_def)
      have lim: "\<not> (case ls_entryLimit ls of None \<Rightarrow> False | Some limit \<Rightarrow> limit \<le> int (length (fst acc)))"
        using room "3.prems"(1) acc(1) by simp
      have start: "(fst acc @ [?e], snd acc) = cut n (g @ [?e])" using acc by simp
      have step: "(if deeper ls k \<and> map_of t (d @ [nm]) = Some Dir
          then collect ls t (d @ [nm]) ?name (k + 1) (g @ [?e], False) else (g @ [?e], False)) = cut n (fst sub)"
      proof (cases "deeper ls k \<and> map_of t (d @ [nm]) = Some Dir")
        case True
        from "3.IH"(2) [OF False lim refl refl True "3.prems"(1) start] True show ?thesis
          by (simp add: sub_def acc(1))
      next
        case False
        then have "fst sub = g @ [?e]" by (auto simp: sub_def)
        then show ?thesis unfolding if_not_P [OF False] by (simp only: acc(3) [symmetric])
      qed
      have nl: "\<not> at_limit ls acc" using lim by (simp add: at_limit_def)
      have "collect_entries ls t d r k ((nm, nd) # rest) acc = collect_entries ls t d r k rest (cut n (fst sub))"
        using collect_visible(2) [OF False nl, of t d r k nd rest, unfolded Let_def]
        by (simp only: acc(1) fst_conv snd_conv step)
      also have "\<dots> = cut n (fst (collect_entries (unlimited ls) t d r k rest (fst sub, False)))"
      proof -
        have "cut n (fst sub) = (if deeper ls k \<and> map_of t (d @ [nm]) = Some Dir
            then collect ls t (d @ [nm]) ?name (k + 1) (fst acc @ [?e], snd acc) else (fst acc @ [?e], snd acc))"
          by (simp only: acc(1) fst_conv snd_conv step)
        then show ?thesis using "3.IH"(3) [OF False lim refl refl "3.prems"(1), of "fst sub"] by simp
      qed
      finally show ?thesis using full [OF False] pair by simp
    qed
  qed
qed

text \<open>The visible children of a directory, which is what a listing that does not recurse returns.\<close>

definition visible_children :: "runtime \<Rightarrow> bool \<Rightarrow> fs \<Rightarrow> string list \<Rightarrow> list_entry list" where
  "visible_children rt includeHidden t d =
     map (\<lambda>(n, nd). \<lparr>le_name = n, le_type = dirent_type nd\<rparr>)
       (filter (\<lambda>(n, _). includeHidden \<or> \<not> startsWith n ''.'')
         (stable_sort (\<lambda>a b. rt_locale rt (fst a) (fst b)) (fs_readdir t d)))"

lemma collect_flat:
  assumes "\<not> ls_recursive ls" and "ls_entryLimit ls = None"
  shows "collect_entries ls t d [] k es (f, False) =
    (f @ map (\<lambda>(n, nd). \<lparr>le_name = n, le_type = dirent_type nd\<rparr>)
       (filter (\<lambda>(n, _). ls_includeHidden ls \<or> \<not> startsWith n ''.'') es), False)"
proof (induction es arbitrary: f)
  case (Cons x es)
  then show ?case using assms by (cases x) (auto simp: collect_entries.simps deeper_def)
qed (simp add: collect_entries.simps)

text \<open>Listing.  An entry limit cuts the unlimited listing after that many entries and marks it as
  truncated exactly when something was left out, at every depth; the unlimited listing is never marked,
  and without recursion it is the visible children in order.\<close>

theorem listing_limit_cuts:
  "(case listWorkspaceEntries rt t root (options\<lparr>lo_opt_entryLimit := None\<rparr>) of
      Inl e \<Rightarrow> listWorkspaceEntries rt t root (options\<lparr>lo_opt_entryLimit := Some (int n)\<rparr>) = Inl e
    | Inr (entries, truncated) \<Rightarrow>
        listWorkspaceEntries rt t root (options\<lparr>lo_opt_entryLimit := Some (int n)\<rparr>) = Inr (take n entries, n < length entries)
        \<and> \<not> truncated
        \<and> (orelse (lo_opt_recursive options) False
           \<or> entries = visible_children rt (orelse (lo_opt_includeHidden options) False) t (path_segments root)))"
proof (cases "map_of t (path_segments root) = Some Dir")
  case True
  let ?d = "path_segments root"
  let ?rec = "orelse (lo_opt_recursive options) False"
  define ls where "ls = \<lparr>ls_includeHidden = orelse (lo_opt_includeHidden options) False, ls_recursive = ?rec,
    ls_maxDepth = (if ?rec then lo_opt_maxDepth options else Some 1), ls_entryLimit = Some (int n), ls_locale = rt_locale rt\<rparr>"
  obtain entries where e: "collect (unlimited ls) t ?d [] 1 ([], False) = (entries, False)"
    using collect_grows(1) [of "unlimited ls" "([], False)" t ?d "[]" 1] by (metis prod.collapse snd_conv unlimited_simps(1))
  have "collect ls t ?d [] 1 ([], False) = cut n entries"
    using collect_cut(1) [of ls n "([], False)" "[]" t ?d "[]" 1] e by (simp add: ls_def cut_def)
  moreover have "?rec \<or> entries = visible_children rt (orelse (lo_opt_includeHidden options) False) t ?d"
    using e collect_flat [of "unlimited ls" t ?d 1 "directory_entries (unlimited ls) t ?d" "[]"]
    by (cases ?rec) (simp_all add: collect.simps visible_children_def directory_entries_def ls_def unlimited_def)
  moreover have "listWorkspaceEntries rt t root (options\<lparr>lo_opt_entryLimit := None\<rparr>) = Inr (collect (unlimited ls) t ?d [] 1 ([], False))"
    "listWorkspaceEntries rt t root (options\<lparr>lo_opt_entryLimit := Some (int n)\<rparr>) = Inr (collect ls t ?d [] 1 ([], False))"
    using True by (simp_all add: listWorkspaceEntries_def Let_def unlimited_def ls_def)
  ultimately show ?thesis using e by (simp add: cut_def)
qed (simp add: listWorkspaceEntries_def)

end
