(* ===== verification/Process_Actions.thy ===== *)
theory Process_Actions
  imports File_Actions
begin

text \<open>
  The executor's actions that run other programs (\<open>git\<close>, \<open>shell\<close> and the dev server operations in
  \<open>packages/hcp-runner/src/local-actions/executors.ts\<close>).  What a child makes the runtime call back, and
  what it does to the tree, are the runtime's; the run itself is the machine of \<open>Process_Runner\<close>.
\<close>

subsection \<open>Running a child\<close>

definition minimalEnv :: "runtime \<Rightarrow> (string \<times> string) list" where
  "minimalEnv rt = [(''PATH'', orelse (rt_path rt) ''/usr/bin:/bin:/usr/sbin:/sbin'')]"

definition processEnvFor :: "runtime \<Rightarrow> (string \<times> string) list option \<Rightarrow> (string \<times> string) list" where
  "processEnvFor rt env = foldl (\<lambda>m (k, v). AList.update k v m) (minimalEnv rt) (orelse env [])"

text \<open>\<open>...(limit ? { limit } : {})\<close>\<close>

definition truthy_limit :: "int option \<Rightarrow> nat option" where
  "truthy_limit l = (case l of None \<Rightarrow> None | Some n \<Rightarrow> if n = 0 then None else Some (nat n))"

definition run_child :: "runtime \<Rightarrow> process_call \<Rightarrow> process_limits \<Rightarrow> ProcessOutput action" where
  "run_child rt call limits s =
     (let (events, t) = rt_child rt call (ex_tree s) in
      case runProcess \<lparr>enc = rt_decode rt Utf8, dec = rt_encode rt Utf8\<rparr> limits events of
        None \<Rightarrow> None
      | Some (Inl message) \<Rightarrow> Some (Inl (Other message), s\<lparr>ex_tree := t\<rparr>)
      | Some (Inr output) \<Rightarrow> Some (Inr output, s\<lparr>ex_tree := t\<rparr>))"

subsection \<open>Git\<close>

record git_status_options =
  gso_porcelainVersion :: "porcelain_version option"
  gso_includeBranch :: "bool option"
  gso_outputByteLimit :: "int option"

record git_diff_options =
  gdo_paths :: "string list option"
  gdo_staged :: "bool option"
  gdo_baseRef :: "string option"
  gdo_outputByteLimit :: "int option"

record GitCommandOptions =
  gco_status :: "git_status_options option"
  gco_diff :: "git_diff_options option"

record GitCommandResult =
  gr_operation :: LocalGitAction
  gr_exit_code :: int
  gr_stdout :: string
  gr_stderr :: string
  gr_stdout_truncated :: "bool option"
  gr_stderr_truncated :: "bool option"
  gr_branch :: "string option"

definition no_status_options :: git_status_options where
  "no_status_options = \<lparr>gso_porcelainVersion = None, gso_includeBranch = None, gso_outputByteLimit = None\<rparr>"

definition no_diff_options :: git_diff_options where
  "no_diff_options = \<lparr>gdo_paths = None, gdo_staged = None, gdo_baseRef = None, gdo_outputByteLimit = None\<rparr>"

fun porcelain_name :: "porcelain_version \<Rightarrow> string" where
  "porcelain_name Porcelain_v1 = ''v1''"
| "porcelain_name Porcelain_v2 = ''v2''"

definition assertSafeGitRevision :: "string \<Rightarrow> action_error + unit" where
  "assertSafeGitRevision revision =
     guardR (\<not> (startsWith revision ''-'' \<or> List.member revision (CHR 0x00)))
       (policy_error ''local_capability_command_denied'' ''Git base ref is not a safe revision token.'')"

fun assertRequestedPathsInsideWorkspace :: "fs \<Rightarrow> string list \<Rightarrow> string \<Rightarrow> action_error + unit" where
  "assertRequestedPathsInsideWorkspace t [] root = Inr ()"
| "assertRequestedPathsInsideWorkspace t (path # paths) root =
     bindR (resolveCandidatePath t path root) (\<lambda>candidate.
     bindR (assertCandidateInsideWorkspace t candidate root) (\<lambda>_.
     assertRequestedPathsInsideWorkspace t paths root))"

text \<open>An empty base ref is falsy.\<close>

definition given_ref :: "git_diff_options \<Rightarrow> string option" where
  "given_ref d = (case gdo_baseRef d of None \<Rightarrow> None | Some r \<Rightarrow> if r = [] then None else Some r)"

fun gitArgvForOperation :: "fs \<Rightarrow> LocalGitAction \<Rightarrow> string \<Rightarrow> GitCommandOptions \<Rightarrow> action_error + string list" where
  "gitArgvForOperation t Git_status root options =
     (let st = orelse (gco_status options) no_status_options in
      Inr ([''status'', ''--porcelain='' @ porcelain_name (orelse (gso_porcelainVersion st) Porcelain_v1)]
           @ (if orelse (gso_includeBranch st) False then [''--branch''] else [])))"
| "gitArgvForOperation t Git_diff root options =
     (let d = orelse (gco_diff options) no_diff_options in
      bindR (case gdo_paths d of None \<Rightarrow> Inr () | Some ps \<Rightarrow> assertRequestedPathsInsideWorkspace t ps root) (\<lambda>_.
      bindR (case given_ref d of None \<Rightarrow> Inr () | Some r \<Rightarrow> assertSafeGitRevision r) (\<lambda>_.
      Inr ([''diff''] @ (if orelse (gdo_staged d) False then [''--staged''] else [])
           @ (case given_ref d of None \<Rightarrow> [] | Some r \<Rightarrow> [r]) @ [''--''] @ orelse (gdo_paths d) []))))"
| "gitArgvForOperation t Git_branch root options = Inr [''branch'', ''--show-current'']"
| "gitArgvForOperation t Git_commit_metadata root options = Inr [''log'', ''-1'', ''--format=%H%n%an%n%ae%n%aI%n%s'']"
| "gitArgvForOperation t operation root options =
     Inl (policy_error ''local_capability_git_operation_requires_args''
       (''Git operation '' @ quoted (git_action_name operation)
        @ '' requires explicit arguments and is not available through the generic executor.''))"

text \<open>\<open>stdout.split(/\r?\n/, 1)[0]\<close> and \<open>text.split("...", 1)[0]\<close>\<close>

definition first_line :: "string \<Rightarrow> string" where
  "first_line s =
     (let l = takeWhile (\<lambda>c. c \<noteq> NL) s in
      if l \<noteq> [] \<and> last l = CR \<and> length l < length s then butlast l else l)"

fun before_text :: "string \<Rightarrow> string \<Rightarrow> string" where
  "before_text sep [] = []"
| "before_text sep (c # cs) = (if startsWith (c # cs) sep then [] else c # before_text sep cs)"

definition parseGitStatusBranch :: "string \<Rightarrow> string option" where
  "parseGitStatusBranch stdout =
     (let firstLine = first_line stdout in
      if \<not> startsWith firstLine ''## '' then None
      else let branch = trim (before_text ''...'' (drop 3 firstLine)) in
        if branch \<noteq> [] \<and> branch \<noteq> ''HEAD (no branch)'' then Some branch else None)"

definition gitStatusBranchResult :: "LocalGitAction \<Rightarrow> GitCommandOptions \<Rightarrow> string \<Rightarrow> string option" where
  "gitStatusBranchResult operation options stdout =
     (if operation \<noteq> Git_status \<or> \<not> orelse (gso_includeBranch (orelse (gco_status options) no_status_options)) False
      then None else parseGitStatusBranch stdout)"

definition git_output_limit :: "LocalGitAction \<Rightarrow> GitCommandOptions \<Rightarrow> int option" where
  "git_output_limit operation options =
     (if operation = Git_status then gso_outputByteLimit (orelse (gco_status options) no_status_options)
      else if operation = Git_diff then gdo_outputByteLimit (orelse (gco_diff options) no_diff_options)
      else None)"

definition git_json :: "GitCommandResult \<Rightarrow> json" where
  "git_json r = JObj ([(''operation'', JStr (git_action_name (gr_operation r))), (''exit_code'', JNum (gr_exit_code r)),
     (''stdout'', JStr (gr_stdout r)), (''stderr'', JStr (gr_stderr r))]
     @ json_flag ''stdout_truncated'' (gr_stdout_truncated r) @ json_flag ''stderr_truncated'' (gr_stderr_truncated r)
     @ (case gr_branch r of None \<Rightarrow> [] | Some b \<Rightarrow> [(''branch'', JStr b)]))"

definition git_run ::
  "runtime \<Rightarrow> LocalGitAction \<Rightarrow> GitCommandOptions \<Rightarrow> string \<Rightarrow> string list \<Rightarrow> GitCommandResult action" where
  "git_run rt operation options cwd argv =
     bindA (run_child rt
       \<lparr>pc_executable = ''git'', pc_argv = argv, pc_cwd = cwd, pc_useShell = False, pc_env = minimalEnv rt,
        pc_stdin = [], pc_timeoutSeconds = 30\<rparr>
       \<lparr>pl_stdoutByteLimit = truthy_limit (git_output_limit operation options), pl_stderrByteLimit = None\<rparr>) (\<lambda>output.
     returnA
       \<lparr>gr_operation = operation, gr_exit_code = orelse (out_exitCode output) 1, gr_stdout = out_stdout output,
        gr_stderr = out_stderr output, gr_stdout_truncated = truncated_field (out_stdoutTruncated output),
        gr_stderr_truncated = truncated_field (out_stderrTruncated output),
        gr_branch = gitStatusBranchResult operation options (out_stdout output)\<rparr>)"

definition git_body ::
  "runtime \<Rightarrow> LocalCapabilityExecutionContext \<Rightarrow> LocalGitAction \<Rightarrow> GitCommandOptions \<Rightarrow> GitCommandResult action" where
  "git_body rt cx operation options =
     bindA (if operation = Git_commit \<or> operation = Git_checkout \<or> operation = Git_push
            then assertWritableSandbox cx (git_action_name operation) else returnA ()) (\<lambda>_.
     bindA (authorize (authorizeGitAction (rt_config rt) (rt_now rt) (cx_lease cx) (identity_of cx) operation)) (\<lambda>_.
     bindA (tree_read (\<lambda>t. resolveExistingWorkspacePath t ''.'' (cx_workspace_root cx))) (\<lambda>cwd.
     bindA (tree_read (\<lambda>t. gitArgvForOperation t operation (cx_workspace_root cx) options)) (\<lambda>argv.
     git_run rt operation options cwd argv))))"

definition git ::
  "runtime \<Rightarrow> LocalCapabilityExecutionContext \<Rightarrow> LocalGitAction \<Rightarrow> GitCommandOptions
    \<Rightarrow> (executor, thrown, GitCommandResult \<times> LocalCapabilityExecutionEvent list) act" where
  "git rt cx operation options =
     runAction rt cx ''git'' (''git.'' @ git_action_name operation) (git_action_name operation) git_json
       (git_body rt cx operation options)"

subsection \<open>Shell commands\<close>

record ShellCommandRequest =
  sr_executable :: string
  sr_argv :: "string list"
  sr_cwd :: "string option"
  sr_timeout_seconds :: int
  sr_use_shell :: "bool option"
  sr_env :: "(string \<times> string) list option"
  sr_stdin :: "string option"
  sr_stdout_byte_limit :: "int option"
  sr_stderr_byte_limit :: "int option"

record ShellCommandResult =
  sh_executable :: string
  sh_argv :: "string list"
  sh_cwd :: string
  sh_exit_code :: "int option"
  sh_signal :: "string option"
  sh_stdout :: string
  sh_stderr :: string
  sh_timed_out :: bool
  sh_stdout_truncated :: "bool option"
  sh_stderr_truncated :: "bool option"

definition json_int_or_null :: "int option \<Rightarrow> json" where
  "json_int_or_null x = (case x of None \<Rightarrow> JNull | Some i \<Rightarrow> JNum i)"

definition json_string_or_null :: "string option \<Rightarrow> json" where
  "json_string_or_null x = (case x of None \<Rightarrow> JNull | Some t \<Rightarrow> JStr t)"

definition shell_json :: "ShellCommandResult \<Rightarrow> json" where
  "shell_json r = JObj ([(''executable'', JStr (sh_executable r)), (''argv'', JArr (map JStr (sh_argv r))),
     (''cwd'', JStr (sh_cwd r)), (''exit_code'', json_int_or_null (sh_exit_code r)),
     (''signal'', json_string_or_null (sh_signal r)), (''stdout'', JStr (sh_stdout r)),
     (''stderr'', JStr (sh_stderr r)), (''timed_out'', JBool (sh_timed_out r))]
     @ json_flag ''stdout_truncated'' (sh_stdout_truncated r) @ json_flag ''stderr_truncated'' (sh_stderr_truncated r))"

text \<open>The policy's \<open>realpath\<close>, on the tree as it is.\<close>

definition policy_realpath :: "fs \<Rightarrow> string \<Rightarrow> string + string" where
  "policy_realpath t p = (case fs_realpath t p of Inl e \<Rightarrow> Inl (errno_message e) | Inr r \<Rightarrow> Inr r)"

definition shell_command :: "LocalCapabilityExecutionContext \<Rightarrow> ShellCommandRequest \<Rightarrow> string \<Rightarrow> command_request" where
  "shell_command cx request cwd =
     \<lparr>cmd_executable = sr_executable request, cmd_argv = sr_argv request, cmd_cwd = cwd,
      cmd_workspace_root = cx_workspace_root cx, cmd_use_shell = orelse (sr_use_shell request) False,
      cmd_timeout_seconds = sr_timeout_seconds request, cmd_env = orelse (sr_env request) []\<rparr>"

definition shell_call :: "runtime \<Rightarrow> ShellCommandRequest \<Rightarrow> string \<Rightarrow> process_call" where
  "shell_call rt request cwd =
     \<lparr>pc_executable = sr_executable request, pc_argv = sr_argv request, pc_cwd = cwd,
      pc_useShell = orelse (sr_use_shell request) False, pc_env = processEnvFor rt (sr_env request),
      pc_stdin = orelse (sr_stdin request) [], pc_timeoutSeconds = sr_timeout_seconds request\<rparr>"

text \<open>After the authorisation, and the whole body.\<close>

definition shell_run ::
  "runtime \<Rightarrow> ShellCommandRequest \<Rightarrow> string \<Rightarrow> ShellCommandResult action" where
  "shell_run rt request cwd =
     bindA (run_child rt (shell_call rt request cwd)
       \<lparr>pl_stdoutByteLimit = truthy_limit (sr_stdout_byte_limit request),
        pl_stderrByteLimit = truthy_limit (sr_stderr_byte_limit request)\<rparr>) (\<lambda>output.
     returnA
       \<lparr>sh_executable = sr_executable request, sh_argv = sr_argv request, sh_cwd = cwd,
        sh_exit_code = out_exitCode output, sh_signal = out_signal output, sh_stdout = out_stdout output,
        sh_stderr = out_stderr output, sh_timed_out = out_timedOut output,
        sh_stdout_truncated = truncated_field (out_stdoutTruncated output),
        sh_stderr_truncated = truncated_field (out_stderrTruncated output)\<rparr>)"

definition shell_body ::
  "runtime \<Rightarrow> LocalCapabilityExecutionContext \<Rightarrow> ShellCommandRequest \<Rightarrow> ShellCommandResult action" where
  "shell_body rt cx request =
     bindA (tree_read (\<lambda>t. resolveExistingWorkspacePath t (orelse (sr_cwd request) ''.'') (cx_workspace_root cx))) (\<lambda>cwd.
     bindA (\<lambda>s. authorize (authorizeShellCommand (rt_config rt) (policy_realpath (ex_tree s)) (rt_regex rt) (rt_now rt)
       (cx_lease cx) (identity_of cx) (shell_command cx request cwd)) s) (\<lambda>_.
     shell_run rt request cwd))"

definition shell ::
  "runtime \<Rightarrow> LocalCapabilityExecutionContext \<Rightarrow> ShellCommandRequest
    \<Rightarrow> (executor, thrown, ShellCommandResult \<times> LocalCapabilityExecutionEvent list) act" where
  "shell rt cx request =
     runAction rt cx ''shell'' ''run_command'' ''run_command'' shell_json (shell_body rt cx request)"

subsection \<open>Programs that are not allowed to run\<close>

text \<open>
  The contract of a body that asks for permission before it starts a program: without the permission it
  throws the same error whichever way the program would behave, with the tree and the servers as they
  were.  \<open>body child\<close> is the body on a runtime whose programs behave like \<open>child\<close>.
\<close>

definition same_world :: "executor \<Rightarrow> executor \<Rightarrow> bool" where
  "same_world s s' \<longleftrightarrow> ex_tree s' = ex_tree s \<and> ex_devServers s' = ex_devServers s"

definition refuses :: "executor \<Rightarrow> ('c \<Rightarrow> (('e + 'r) \<times> executor) option) \<Rightarrow> bool" where
  "refuses s outcome \<longleftrightarrow> (\<exists>e s'. same_world s s' \<and> (\<forall>child. outcome child = Some (Inl e, s')))"

lemma refusesI: "same_world s s' \<Longrightarrow> (\<And>child. outcome child = Some (Inl e, s')) \<Longrightarrow> refuses s outcome"
  by (auto simp: refuses_def)

lemma refuses_tree_read:
  assumes "\<And>a. f (ex_tree s) = Inr a \<Longrightarrow> refuses s (\<lambda>child. g a child s)"
  shows "refuses s (\<lambda>child. bindA (tree_read f) (\<lambda>a. g a child) s)"
  using assms by (cases "f (ex_tree s)") (auto simp: tree_read_def refuses_def same_world_def)

lemma refuses_readA:
  assumes "\<And>a. f s = Inr a \<Longrightarrow> refuses s (\<lambda>child. g a child s)"
  shows "refuses s (\<lambda>child. bindA (readA f) (\<lambda>a. g a child) s)"
  using assms by (cases "f s") (auto simp: refuses_def same_world_def)

lemma refuses_sandbox:
  assumes "refuses s (\<lambda>child. g () child s)"
  shows "refuses s (\<lambda>child. bindA (assertWritableSandbox cx a) (\<lambda>u. g u child) s)"
  using assms by (auto simp: assertWritableSandbox_def refuses_def same_world_def bindA_def)

lemma authorize_world: "authorize f s = Some (r, s') \<Longrightarrow> same_world s s'"
  by (auto simp: authorize_def same_world_def split: prod.splits sum.splits)

lemma refuses_authorize:
  assumes "F s = f"
    and "\<And>g m'. f (ex_leases s) = (Inr g, m') \<Longrightarrow> refuses (s\<lparr>ex_leases := m'\<rparr>) (\<lambda>child. h () child (s\<lparr>ex_leases := m'\<rparr>))"
  shows "refuses s (\<lambda>child. bindA (\<lambda>s. authorize (F s) s) (\<lambda>u. h u child) s)"
proof -
  obtain x m' where f: "f (ex_leases s) = (x, m')" by fastforce
  then show ?thesis
    using assms by (cases x) (auto simp: authorize_def refuses_def same_world_def bindA_def)
qed

locale asks_first =
  fixes allowed :: "executor \<Rightarrow> bool" and body :: "'c \<Rightarrow> 'a action"
  assumes audit_irrelevant: "same_but_audit s s' \<Longrightarrow> allowed s' = allowed s"
    and refused: "\<not> allowed s \<Longrightarrow> refuses s (\<lambda>child. body child s)"
begin

lemma action_refused:
  assumes "\<not> allowed s"
  shows "refuses s (\<lambda>child. runAction rt cx c a pa to_json (body child) s)"
proof -
  let ?ids = "[(''capability_id'', JStr c), (''action'', JStr a)]"
  obtain a0 s1 where a0: "recordAudit rt cx (audit_name c a ''started'') ?ids s = (a0, s1)" by fastforce
  have s1: "same_but_audit s s1" using a0 by (rule recordAudit_same)
  then obtain e s2 where s2: "same_world s1 s2" "\<And>child. body child s1 = Some (Inl e, s2)"
    using assms audit_irrelevant refused by (metis refuses_def)
  show ?thesis
  proof (cases a0)
    case (Inl e')
    show ?thesis
      by (rule refusesI [of _ s1 _ "Unwrapped e'"])
        (use a0 s1 Inl in \<open>simp_all add: runAction_def Let_def same_world_def same_but_audit_def\<close>)
  next
    case (Inr u)
    let ?d = "[(''capability_id'', JStr c), (''action'', JStr a), (''error'', JObj (errorToSummary e))]"
    obtain a3 s3 where a3: "recordAudit rt cx (audit_name c a ''failed'') ?d s2 = (a3, s3)" by fastforce
    have s3: "same_but_audit s2 s3" using a3 by (rule recordAudit_same)
    let ?out = "case a3 of Inl e' \<Rightarrow> Unwrapped e'
      | Inr _ \<Rightarrow> LocalCapabilityExecutionError ([started_event cx c a] @ [failed_event cx c a pa e]) e"
    show ?thesis
    proof (rule refusesI [of _ s3 _ ?out])
      show "same_world s s3" using s1 s2(1) s3 by (simp add: same_world_def same_but_audit_def)
      show "runAction rt cx c a pa to_json (body child) s = Some (Inl ?out, s3)" for child
        using a0 Inr s2(2) a3 by (simp add: runAction_def action_failed_def Let_def split: sum.split)
    qed
  qed
qed

end

lemma recordAudit_runtime [simp]:
  "recordAudit (rt\<lparr>rt_child := child\<rparr>) = recordAudit rt" "recordAudit (rt\<lparr>rt_spawn := spawn\<rparr>) = recordAudit rt"
  by (intro ext, simp add: recordAudit_def)+

lemma action_failed_runtime [simp]:
  "action_failed (rt\<lparr>rt_child := child\<rparr>) = action_failed rt" "action_failed (rt\<lparr>rt_spawn := spawn\<rparr>) = action_failed rt"
  by (intro ext, simp add: action_failed_def)+

lemma runAction_runtime [simp]:
  "runAction (rt\<lparr>rt_child := child\<rparr>) = runAction rt" "runAction (rt\<lparr>rt_spawn := spawn\<rparr>) = runAction rt"
  by (intro ext, simp only: runAction_def recordAudit_runtime action_failed_runtime)+

subsection \<open>When a shell command and git may run\<close>

definition shell_allowed :: "runtime \<Rightarrow> LocalCapabilityExecutionContext \<Rightarrow> ShellCommandRequest \<Rightarrow> executor \<Rightarrow> bool" where
  "shell_allowed rt cx request s \<longleftrightarrow>
     (\<exists>cwd g p. resolveExistingWorkspacePath (ex_tree s) (orelse (sr_cwd request) ''.'') (cx_workspace_root cx) = Inr cwd
        \<and> lease_permits (rt_config rt) (rt_now rt) (ex_leases s) (cx_lease cx)
            (capability_action (identity_of cx) ''shell'' ''workspace'' ''run_command'') g
        \<and> grant_approval_policy g = Some Full_access \<and> grant_command_policy g = Some p
        \<and> command_permitted (rt_regex rt) p (shell_command cx request cwd)
        \<and> really_inside (policy_realpath (ex_tree s)) (cx_workspace_root cx) cwd)"

lemma command_authorised:
  assumes "assertExecutableGrantAllowed g what = Inr u"
    and "assertCommandPolicyAllows realpath regex (grant_command_policy g) r = Inr u'"
  shows "grant_approval_policy g = Some Full_access
    \<and> (\<exists>p. grant_command_policy g = Some p \<and> command_permitted regex p r)
    \<and> really_inside realpath (cmd_workspace_root r) (cmd_cwd r)"
  using assms(1) assertCommandPolicyAllows_permitted [OF assms(2)]
  by (auto simp: assertExecutableGrantAllowed_def split: if_splits)

lemma shell_authorised_allowed:
  assumes "resolveExistingWorkspacePath (ex_tree s) (orelse (sr_cwd request) ''.'') (cx_workspace_root cx) = Inr cwd"
    and "authorizeShellCommand (rt_config rt) (policy_realpath (ex_tree s)) (rt_regex rt) (rt_now rt) (cx_lease cx)
      (identity_of cx) (shell_command cx request cwd) (ex_leases s) = (Inr g, m')"
  shows "shell_allowed rt cx request s"
proof -
  have "assertActionAllowed (rt_config rt) (rt_now rt) (cx_lease cx)
      (capability_action (identity_of cx) ''shell'' ''workspace'' ''run_command'') (ex_leases s) = (Inr g, m')"
    and "assertExecutableGrantAllowed g ''Shell actions'' = Inr ()"
    and "assertCommandPolicyAllows (policy_realpath (ex_tree s)) (rt_regex rt) (grant_command_policy g)
      (shell_command cx request cwd) = Inr ()"
    using assms(2) by (auto simp: authorizeShellCommand_def result_simps split: prod.splits sum.splits)
  then show ?thesis
    using assms(1) command_authorised assertActionAllowed_granted
    by (fastforce simp: shell_allowed_def shell_command_def)
qed

lemma shell_body_child: "shell_body (rt\<lparr>rt_child := child\<rparr>) cx request =
    bindA (tree_read (\<lambda>t. resolveExistingWorkspacePath t (orelse (sr_cwd request) ''.'') (cx_workspace_root cx))) (\<lambda>cwd.
    bindA (\<lambda>s. authorize (authorizeShellCommand (rt_config rt) (policy_realpath (ex_tree s)) (rt_regex rt) (rt_now rt)
      (cx_lease cx) (identity_of cx) (shell_command cx request cwd)) s) (\<lambda>_.
    shell_run (rt\<lparr>rt_child := child\<rparr>) request cwd))"
  by (simp add: shell_body_def)

interpretation shell_asks: asks_first "shell_allowed rt cx request" "\<lambda>child. shell_body (rt\<lparr>rt_child := child\<rparr>) cx request"
  for rt cx request
proof
  show "shell_allowed rt cx request s' = shell_allowed rt cx request s" if "same_but_audit s s'" for s s'
    using that by (simp add: shell_allowed_def same_but_audit_def)
  show "refuses s (\<lambda>child. shell_body (rt\<lparr>rt_child := child\<rparr>) cx request s)" if "\<not> shell_allowed rt cx request s" for s
    unfolding shell_body_child
    by (rule refuses_tree_read, rule refuses_authorize, rule refl)
      (use that shell_authorised_allowed in blast)
qed

text \<open>Git only runs the four reading operations, each under a grant of the read scope.\<close>

definition git_allowed ::
  "runtime \<Rightarrow> LocalCapabilityExecutionContext \<Rightarrow> LocalGitAction \<Rightarrow> GitCommandOptions \<Rightarrow> executor \<Rightarrow> bool" where
  "git_allowed rt cx operation options s \<longleftrightarrow>
     operation \<in> {Git_status, Git_diff, Git_branch, Git_commit_metadata}
     \<and> (\<exists>g. lease_permits (rt_config rt) (rt_now rt) (ex_leases s) (cx_lease cx)
          (capability_action (identity_of cx) ''git'' ''workspace_read'' (git_action_name operation)) g)
     \<and> (\<exists>argv. gitArgvForOperation (ex_tree s) operation (cx_workspace_root cx) options = Inr argv)"

lemma git_body_child: "git_body (rt\<lparr>rt_child := child\<rparr>) cx operation options =
    bindA (if operation = Git_commit \<or> operation = Git_checkout \<or> operation = Git_push
           then assertWritableSandbox cx (git_action_name operation) else returnA ()) (\<lambda>_.
    bindA (authorize (authorizeGitAction (rt_config rt) (rt_now rt) (cx_lease cx) (identity_of cx) operation)) (\<lambda>_.
    bindA (tree_read (\<lambda>t. resolveExistingWorkspacePath t ''.'' (cx_workspace_root cx))) (\<lambda>cwd.
    bindA (tree_read (\<lambda>t. gitArgvForOperation t operation (cx_workspace_root cx) options)) (\<lambda>argv.
    git_run (rt\<lparr>rt_child := child\<rparr>) operation options cwd argv))))"
  by (simp add: git_body_def)

lemma git_writes_have_no_argv: "gitArgvForOperation t operation root options = Inr argv \<Longrightarrow>
    operation \<in> {Git_status, Git_diff, Git_branch, Git_commit_metadata}"
  by (cases operation) simp_all

lemma git_authorised:
  assumes "authorizeGitAction cfg now l i operation m = (Inr g, m')"
    and "operation \<in> {Git_status, Git_diff, Git_branch, Git_commit_metadata}"
  shows "lease_permits cfg now m l (capability_action i ''git'' ''workspace_read'' (git_action_name operation)) g"
  using assms assertActionAllowed_granted by (auto simp: authorizeGitAction_def gitScopeForAction_def)

interpretation git_asks: asks_first "git_allowed rt cx operation options"
  "\<lambda>child. git_body (rt\<lparr>rt_child := child\<rparr>) cx operation options"
  for rt cx operation options
proof
  show "git_allowed rt cx operation options s' = git_allowed rt cx operation options s" if "same_but_audit s s'" for s s'
    using that by (simp add: git_allowed_def same_but_audit_def)
  show "refuses s (\<lambda>child. git_body (rt\<lparr>rt_child := child\<rparr>) cx operation options s)"
    if not: "\<not> git_allowed rt cx operation options s" for s
  proof -
    have granted: "refuses s (\<lambda>child.
      bindA (authorize (authorizeGitAction (rt_config rt) (rt_now rt) (cx_lease cx) (identity_of cx) operation)) (\<lambda>_.
      bindA (tree_read (\<lambda>t. resolveExistingWorkspacePath t ''.'' (cx_workspace_root cx))) (\<lambda>cwd.
      bindA (tree_read (\<lambda>t. gitArgvForOperation t operation (cx_workspace_root cx) options)) (\<lambda>argv.
      git_run (rt\<lparr>rt_child := child\<rparr>) operation options cwd argv))) s)"
      by (rule refuses_authorize, rule refl, rule refuses_tree_read, rule refuses_tree_read)
        (use not git_writes_have_no_argv git_authorised in \<open>fastforce simp: git_allowed_def\<close>)
    then show ?thesis
      unfolding git_body_child by (auto intro: refuses_sandbox)
  qed
qed

subsection \<open>What git is given\<close>

text \<open>
  An argument vector git may be started with: one of the four reading commands; before \<open>--\<close> nothing
  that git takes for an option but the code's own, and no NUL; after it only paths that name something
  inside the workspace.
\<close>

definition own_git_options :: "string list" where
  "own_git_options = [''--porcelain=v1'', ''--porcelain=v2'', ''--branch'', ''--staged'', ''--show-current'', ''-1'',
     ''--format=%H%n%an%n%ae%n%aI%n%s'']"

definition git_token_ok :: "string \<Rightarrow> bool" where
  "git_token_ok a = (if startsWith a ''-'' then List.member own_git_options a else \<not> List.member a (CHR 0x00))"

definition names_inside :: "fs \<Rightarrow> string \<Rightarrow> string \<Rightarrow> bool" where
  "names_inside t root path \<longleftrightarrow>
     (case (fs_realpath t root, resolveCandidatePath t path root) of
        (Inr workspace, Inr candidate) \<Rightarrow> prefix (path_segments workspace) (path_segments candidate)
      | _ \<Rightarrow> False)"

definition reading_git_argv :: "fs \<Rightarrow> string \<Rightarrow> string list \<Rightarrow> bool" where
  "reading_git_argv t root argv \<longleftrightarrow>
     List.member [''status'', ''diff'', ''branch'', ''log''] (hd argv)
     \<and> list_all git_token_ok (takeWhile (\<lambda>a. a \<noteq> ''--'') (tl argv))
     \<and> list_all (names_inside t root) (tl (dropWhile (\<lambda>a. a \<noteq> ''--'') (tl argv)))"

lemma requested_paths_inside:
  "assertRequestedPathsInsideWorkspace t paths root = Inr u \<Longrightarrow> list_all (names_inside t root) paths"
  by (induction t paths root rule: assertRequestedPathsInsideWorkspace.induct)
     (auto simp: result_simps names_inside_def assertCandidateInsideWorkspace_def sys_def
       split: sum.splits dest: inside_root_prefix)

lemma porcelain_names: "porcelain_name v = ''v1'' \<or> porcelain_name v = ''v2''"
  by (cases v) simp_all

lemma safe_revision: "assertSafeGitRevision r = Inr u \<Longrightarrow> git_token_ok r \<and> r \<noteq> ''--''"
  by (auto simp: assertSafeGitRevision_def result_simps git_token_ok_def startsWith_def)

text \<open>Git arguments.  Whatever operation and options are asked for, the arguments git is started with
  are those of a reading command: no requested revision is taken for an option or carries a NUL, and
  every requested path comes after the double dash and names something inside the workspace.\<close>

theorem git_argv_reads:
  "case gitArgvForOperation t operation root options of
     Inl e \<Rightarrow> True
   | Inr argv \<Rightarrow> reading_git_argv t root argv"
proof (cases operation)
  case Git_diff
  define d where "d = orelse (gco_diff options) no_diff_options"
  show ?thesis
  proof (cases "gitArgvForOperation t operation root options")
    case (Inr argv)
    have g: "bindR (case gdo_paths d of None \<Rightarrow> Inr () | Some ps \<Rightarrow> assertRequestedPathsInsideWorkspace t ps root) (\<lambda>_.
      bindR (case given_ref d of None \<Rightarrow> Inr () | Some r \<Rightarrow> assertSafeGitRevision r) (\<lambda>_.
      Inr ([''diff''] @ (if orelse (gdo_staged d) False then [''--staged''] else [])
           @ (case given_ref d of None \<Rightarrow> [] | Some r \<Rightarrow> [r]) @ [''--''] @ orelse (gdo_paths d) []))) = Inr argv"
      using Inr by (simp add: Git_diff d_def Let_def)
    have paths: "list_all (names_inside t root) (orelse (gdo_paths d) [])"
      using g requested_paths_inside by (cases "gdo_paths d") (auto simp: orelse_def result_simps)
    have ref: "case given_ref d of None \<Rightarrow> True | Some r \<Rightarrow> git_token_ok r \<and> r \<noteq> ''--''"
      using g safe_revision by (cases "given_ref d") (auto simp: result_simps)
    have argv: "argv = [''diff''] @ (if orelse (gdo_staged d) False then [''--staged''] else [])
        @ (case given_ref d of None \<Rightarrow> [] | Some r \<Rightarrow> [r]) @ [''--''] @ orelse (gdo_paths d) []"
      using g by (auto simp: result_simps)
    show ?thesis
      using paths ref unfolding Inr argv
      by (cases "given_ref d"; cases "orelse (gdo_staged d) False")
        (simp_all add: reading_git_argv_def git_token_ok_def own_git_options_def startsWith_def)
  qed simp
qed (use porcelain_names in \<open>auto simp: reading_git_argv_def git_token_ok_def own_git_options_def startsWith_def Let_def\<close>)

end
