(* ===== verification/Dev_Servers.thy ===== *)
theory Dev_Servers
  imports Process_Actions
begin

text \<open>
  The executor's dev servers (\<open>startDevServer\<close>, \<open>stopDevServer\<close>, \<open>listDevServers\<close>,
  \<open>stopDevServersForSession\<close> in \<open>packages/hcp-runner/src/local-actions/executors.ts\<close>), with the waits
  for a server to be ready and for a process tree to be gone.  What the code observes while it waits (the
  clock, the child's exit, the answers of \<open>session_active\<close> and of \<open>fetch\<close>) is given to it in the order
  it looks.  A port is an integer, so \<open>Number.isInteger\<close> holds.
\<close>

definition DEV_SERVER_START_SETTLE_MS :: int where
  "DEV_SERVER_START_SETTLE_MS = 250"

definition DEV_SERVER_READINESS_POLL_MS :: int where
  "DEV_SERVER_READINESS_POLL_MS = 100"

text \<open>\<open>dr_watched\<close>: the request carries \<open>session_active\<close>.\<close>

record DevServerStartRequest = ShellCommandRequest +
  dr_server_id :: string
  dr_host :: string
  dr_port :: int
  dr_readiness :: "readiness option"
  dr_watched :: bool

subsection \<open>Errors and guards\<close>

definition assertAllowedDevServerEndpoint :: "string \<Rightarrow> int \<Rightarrow> action_error + unit" where
  "assertAllowedDevServerEndpoint host port =
     (if host \<noteq> ''127.0.0.1'' \<and> host \<noteq> ''localhost''
      then Inl (policy_error ''local_capability_dev_server_host_denied''
        (''Dev server host '' @ quoted host @ '' is not allowed.''))
      else if port < 1 \<or> 65535 < port
      then Inl (policy_error ''local_capability_dev_server_port_denied''
        (''Dev server port '' @ quoted (show_int port) @ '' is invalid.''))
      else Inr ())"

definition devServerExitError :: "string \<Rightarrow> int option \<Rightarrow> string option \<Rightarrow> action_error" where
  "devServerExitError serverId exitCode signal =
     policy_error ''local_capability_dev_server_start_failed''
       (''Dev server '' @ quoted serverId @ '' exited before it was ready with ''
        @ (case signal of
             Some g \<Rightarrow> ''signal '' @ g
           | None \<Rightarrow> ''exit code '' @ (case exitCode of None \<Rightarrow> ''unknown'' | Some c \<Rightarrow> show_int c)) @ ''.'')"

definition devServerProcessError :: "string \<Rightarrow> string \<Rightarrow> action_error" where
  "devServerProcessError serverId message =
     policy_error ''local_capability_dev_server_start_failed''
       (''Dev server '' @ quoted serverId @ '' failed to start: '' @ message)"

text \<open>A child as the runtime shows it: both \<open>null\<close> while it runs.\<close>

record child_status =
  cs_exitCode :: "int option"
  cs_signalCode :: "string option"

definition has_exited :: "child_status \<Rightarrow> bool" where
  "has_exited c \<longleftrightarrow> cs_exitCode c \<noteq> None \<or> cs_signalCode c \<noteq> None"

definition assertDevServerStillRunning :: "child_status \<Rightarrow> string \<Rightarrow> action_error + unit" where
  "assertDevServerStillRunning c serverId =
     guardR (\<not> has_exited c) (devServerExitError serverId (cs_exitCode c) (cs_signalCode c))"

definition session_stopped :: "DevServerStartRequest \<Rightarrow> bool \<Rightarrow> bool" where
  "session_stopped request active \<longleftrightarrow> dr_watched request \<and> \<not> active"

definition assertDevServerSessionActive :: "DevServerStartRequest \<Rightarrow> bool \<Rightarrow> action_error + unit" where
  "assertDevServerSessionActive request active =
     guardR (\<not> session_stopped request active)
       (policy_error ''local_capability_lease_revoked'' ''Local action session stopped before dev server was ready.'')"

subsection \<open>Waiting for a server\<close>

datatype wait_event = Wait_timer | Wait_exit "int option" "string option" | Wait_error string

record wait_view =
  wv_status :: child_status
  wv_active :: bool
  wv_first :: wait_event
  wv_active_later :: bool

text \<open>The second look at the child inside the promise is synchronous and sees what the first one saw.\<close>

definition waitForDevServerNoFailure :: "DevServerStartRequest \<Rightarrow> int \<Rightarrow> wait_view \<Rightarrow> action_error + unit" where
  "waitForDevServerNoFailure request timeoutMs v =
     bindR (assertDevServerStillRunning (wv_status v) (dr_server_id request)) (\<lambda>_.
     bindR (assertDevServerSessionActive request (wv_active v)) (\<lambda>_.
       if timeoutMs \<le> 0 then Inr ()
       else case wv_first v of
         Wait_timer \<Rightarrow> assertDevServerSessionActive request (wv_active_later v)
       | Wait_exit code sig \<Rightarrow> Inl (devServerExitError (dr_server_id request) code sig)
       | Wait_error message \<Rightarrow> Inl (devServerProcessError (dr_server_id request) message)))"

text \<open>\<open>new URL(url)\<close> is the runtime's; a \<open>TypeError\<close> is \<open>None\<close>.\<close>

record url_parts =
  url_protocol :: string
  url_hostname :: string
  url_port :: string
  url_href :: string

definition portForUrl :: "url_parts \<Rightarrow> int" where
  "portForUrl u =
     (if 0 < length (url_port u) then int (read_nat (url_port u))
      else if url_protocol u = ''https:'' then 443 else 80)"

definition assertAllowedReadinessUrl ::
  "(string \<Rightarrow> url_parts option) \<Rightarrow> string \<Rightarrow> DevServerStartRequest \<Rightarrow> action_error + string" where
  "assertAllowedReadinessUrl parse url request =
     (case parse url of
        None \<Rightarrow> Inl (policy_error ''local_capability_dev_server_host_denied''
          (''Readiness URL '' @ quoted url @ '' is invalid.''))
      | Some u \<Rightarrow>
          if url_protocol u \<noteq> ''http:'' \<and> url_protocol u \<noteq> ''https:''
          then Inl (policy_error ''local_capability_dev_server_host_denied''
            (''Readiness URL '' @ quoted url @ '' must use http or https.''))
          else if url_hostname u \<noteq> ''127.0.0.1'' \<and> url_hostname u \<noteq> ''localhost''
          then Inl (policy_error ''local_capability_dev_server_host_denied''
            (''Readiness URL host '' @ quoted (url_hostname u) @ '' is not allowed.''))
          else if portForUrl u \<noteq> dr_port request
          then Inl (policy_error ''local_capability_dev_server_port_denied''
            (''Readiness URL port '' @ show_int (portForUrl u) @ '' does not match dev server port ''
             @ show_int (dr_port request) @ ''.''))
          else Inr (url_href u))"

text \<open>What \<open>fetch\<close> comes to: a response, or a failure, with its message when it is an \<open>Error\<close>.\<close>

datatype fetch_outcome = Fetched bool int | Fetch_failed "string option"

datatype ReadinessProbeResult = Ready | Not_ready string

fun probeReadinessUrl :: "fetch_outcome \<Rightarrow> ReadinessProbeResult" where
  "probeReadinessUrl (Fetched True status) = Ready"
| "probeReadinessUrl (Fetched False status) = Not_ready (''HTTP '' @ show_int status)"
| "probeReadinessUrl (Fetch_failed m) = Not_ready (case m of Some t \<Rightarrow> t | None \<Rightarrow> ''Readiness probe failed.'')"

text \<open>One turn of the polling loop: the clock at the loop test and before the wait, and what is seen.\<close>

record poll_turn =
  pt_now :: int
  pt_status :: child_status
  pt_active :: bool
  pt_fetch :: fetch_outcome
  pt_wait_now :: int
  pt_wait :: wait_view

definition readiness_timeout :: "string \<Rightarrow> string \<Rightarrow> int \<Rightarrow> string option \<Rightarrow> action_error" where
  "readiness_timeout serverId url timeoutMs lastErrorMessage =
     policy_error ''local_capability_timeout''
       (''Dev server '' @ quoted serverId @ '' did not become ready at '' @ quoted url @ '' within ''
        @ show_int timeoutMs @ ''ms''
        @ (case lastErrorMessage of None \<Rightarrow> ''.'' | Some m \<Rightarrow> '': '' @ m))"

definition poll_wait_ms :: "int \<Rightarrow> int \<Rightarrow> int" where
  "poll_wait_ms deadline now = max 0 (min (deadline - now) DEV_SERVER_READINESS_POLL_MS)"

fun readiness_loop ::
  "DevServerStartRequest \<Rightarrow> string \<Rightarrow> int \<Rightarrow> int \<Rightarrow> string option \<Rightarrow> poll_turn list \<Rightarrow> (action_error + unit) option" where
  "readiness_loop request url timeoutMs deadline lastErrorMessage [] = None"
| "readiness_loop request url timeoutMs deadline lastErrorMessage (t # ts) =
     (if deadline \<le> pt_now t
      then Some (Inl (readiness_timeout (dr_server_id request) url timeoutMs lastErrorMessage))
      else case bindR (assertDevServerStillRunning (pt_status t) (dr_server_id request))
                  (\<lambda>_. assertDevServerSessionActive request (pt_active t)) of
        Inl e \<Rightarrow> Some (Inl e)
      | Inr _ \<Rightarrow>
          (case probeReadinessUrl (pt_fetch t) of
             Ready \<Rightarrow> Some (Inr ())
           | Not_ready m \<Rightarrow>
               (case waitForDevServerNoFailure request (poll_wait_ms deadline (pt_wait_now t)) (pt_wait t) of
                  Inl e \<Rightarrow> Some (Inl e)
                | Inr _ \<Rightarrow> readiness_loop request url timeoutMs deadline
                    (if m \<noteq> [] then Some m else lastErrorMessage) ts)))"

text \<open>What the code sees from the spawn on; \<open>su_gone\<close>: the child has exited or failed when the wait ends.\<close>

record startup_view =
  su_now :: int
  su_wait :: wait_view
  su_turns :: "poll_turn list"
  su_gone :: bool

definition waitForReadinessUrl ::
  "DevServerStartRequest \<Rightarrow> string \<Rightarrow> int \<Rightarrow> startup_view \<Rightarrow> (action_error + unit) option" where
  "waitForReadinessUrl request url timeoutMs v =
     readiness_loop request url timeoutMs (su_now v + timeoutMs) None (su_turns v)"

definition devServerStartupTimeoutMs :: "DevServerStartRequest \<Rightarrow> int" where
  "devServerStartupTimeoutMs request = max 1 (sr_timeout_seconds request) * 1000"

definition waitForDevServerStartup ::
  "(string \<Rightarrow> url_parts option) \<Rightarrow> DevServerStartRequest \<Rightarrow> startup_view \<Rightarrow> (action_error + unit) option" where
  "waitForDevServerStartup parse request v =
     (let settle = Some (waitForDevServerNoFailure request DEV_SERVER_START_SETTLE_MS (su_wait v)) in
      case dr_readiness request of
        None \<Rightarrow> settle
      | Some r \<Rightarrow>
          (case rd_url r of
             None \<Rightarrow> settle
           | Some url \<Rightarrow>
               (case assertAllowedReadinessUrl parse url request of
                  Inl e \<Rightarrow> Some (Inl e)
                | Inr allowedUrl \<Rightarrow> waitForReadinessUrl request allowedUrl
                    (min (rd_timeout_ms r) (devServerStartupTimeoutMs request)) v)))"

subsection \<open>Ending a process tree\<close>

datatype stop_event = Stop_exit | Stop_error | Stop_force_kill | Stop_force_settle

record stop_state =
  st_settled :: bool
  st_forceKillTimer :: bool
  st_forceKillSettleTimer :: bool
  st_sent :: "string list"

definition stop_started :: "string \<Rightarrow> stop_state" where
  "stop_started signal = \<lparr>st_settled = False, st_forceKillTimer = True, st_forceKillSettleTimer = False, st_sent = [signal]\<rparr>"

definition stop_settle :: "stop_state \<Rightarrow> stop_state" where
  "stop_settle s =
     (if st_settled s then s
      else s\<lparr>st_settled := True, st_forceKillTimer := False, st_forceKillSettleTimer := False\<rparr>)"

fun stop_step :: "stop_event \<Rightarrow> stop_state \<Rightarrow> stop_state" where
  "stop_step Stop_exit s = stop_settle s"
| "stop_step Stop_error s = stop_settle s"
| "stop_step Stop_force_kill s =
     (if st_forceKillTimer s
      then s\<lparr>st_forceKillTimer := False, st_sent := st_sent s @ [''SIGKILL''], st_forceKillSettleTimer := True\<rparr>
      else s)"
| "stop_step Stop_force_settle s =
     (if st_forceKillSettleTimer s then stop_settle (s\<lparr>st_forceKillSettleTimer := False\<rparr>) else s)"

text \<open>The signals sent when the promise resolves; nothing while it does not.\<close>

definition terminateProcessTree :: "child_status \<Rightarrow> string \<Rightarrow> stop_event list \<Rightarrow> string list option" where
  "terminateProcessTree child signal events =
     (if has_exited child then Some []
      else let s = foldl (\<lambda>s e. stop_step e s) (stop_started signal) events in
        if st_settled s then Some (st_sent s) else None)"

subsection \<open>The table of running servers\<close>

text \<open>The parser of URLs, what is seen from a spawn on, and what is seen while a server is ended.\<close>

record dev_runtime =
  dw_url :: "string \<Rightarrow> url_parts option"
  dw_startup :: "process_call \<Rightarrow> startup_view"
  dw_stopping :: "DevServerRecord \<Rightarrow> child_status \<times> stop_event list"

text \<open>The \<open>exit\<close> and \<open>error\<close> handlers of a child, and the end of a wait for its tree to be gone.\<close>

definition forget_server :: "string \<Rightarrow> executor \<Rightarrow> executor" where
  "forget_server serverId s = s\<lparr>ex_devServers := AList.delete serverId (ex_devServers s)\<rparr>"

definition track_server :: "DevServerRecord \<Rightarrow> string \<Rightarrow> executor \<Rightarrow> executor" where
  "track_server r sessionId s =
     s\<lparr>ex_devServers := AList.update (dv_server_id r) \<lparr>tr_record = r, tr_session_id = sessionId\<rparr> (ex_devServers s)\<rparr>"

definition dev_server_json :: "DevServerRecord \<Rightarrow> json" where
  "dev_server_json r = JObj [(''server_id'', JStr (dv_server_id r)), (''pid'', JNum (dv_pid r)),
     (''host'', JStr (dv_host r)), (''port'', JNum (dv_port r)), (''cwd'', JStr (dv_cwd r)),
     (''started_at'', JStr (dv_started_at r))]"

definition start_authorization ::
  "LocalCapabilityExecutionContext \<Rightarrow> DevServerStartRequest \<Rightarrow> string \<Rightarrow> LocalDevServerAuthorizationRequest" where
  "start_authorization cx request cwd =
     \<lparr>dsa_identity = identity_of cx, dsa_action = Dev_start, dsa_executable = Some (sr_executable request),
      dsa_argv = Some (sr_argv request), dsa_cwd = Some cwd, dsa_workspace_root = Some (cx_workspace_root cx),
      dsa_use_shell = Some (orelse (sr_use_shell request) False),
      dsa_timeout_seconds = Some (sr_timeout_seconds request), dsa_env = Some (orelse (sr_env request) [])\<rparr>"

definition dev_server_call :: "runtime \<Rightarrow> DevServerStartRequest \<Rightarrow> string \<Rightarrow> process_call" where
  "dev_server_call rt request cwd =
     \<lparr>pc_executable = sr_executable request, pc_argv = sr_argv request, pc_cwd = cwd,
      pc_useShell = orelse (sr_use_shell request) False, pc_env = processEnvFor rt (sr_env request),
      pc_stdin = [], pc_timeoutSeconds = sr_timeout_seconds request\<rparr>"

definition dev_server_record :: "runtime \<Rightarrow> DevServerStartRequest \<Rightarrow> string \<Rightarrow> int \<Rightarrow> DevServerRecord" where
  "dev_server_record rt request cwd pid =
     \<lparr>dv_server_id = dr_server_id request, dv_pid = pid, dv_host = dr_host request, dv_port = dr_port request,
      dv_cwd = cwd, dv_started_at = rt_iso rt\<rparr>"

definition spawn_child :: "runtime \<Rightarrow> process_call \<Rightarrow> int action" where
  "spawn_child rt call s =
     (let (pid, t) = rt_spawn rt call (ex_tree s) in
      case pid of
        None \<Rightarrow> Some (Inl (policy_error ''local_capability_dev_server_start_failed''
          ''Dev server process did not expose a pid.''), s\<lparr>ex_tree := t\<rparr>)
      | Some p \<Rightarrow> Some (Inr p, s\<lparr>ex_tree := t\<rparr>))"

text \<open>Whether the wait for the server's process tree comes to an end.\<close>

definition tree_gone :: "dev_runtime \<Rightarrow> DevServerRecord \<Rightarrow> string \<Rightarrow> bool" where
  "tree_gone w r signal = (let (child, events) = dw_stopping w r in terminateProcessTree child signal events \<noteq> None)"

text \<open>From the spawn on: the record is tracked, then either ready or ended and forgotten.\<close>

definition await_startup ::
  "runtime \<Rightarrow> dev_runtime \<Rightarrow> LocalCapabilityExecutionContext \<Rightarrow> DevServerStartRequest \<Rightarrow> string \<Rightarrow> int
    \<Rightarrow> DevServerRecord action" where
  "await_startup rt w cx request cwd pid s =
     (let r = dev_server_record rt request cwd pid; v = dw_startup w (dev_server_call rt request cwd);
          s1 = track_server r (cx_session_id cx) s in
      case waitForDevServerStartup (dw_url w) request v of
        None \<Rightarrow> None
      | Some (Inr _) \<Rightarrow> Some (Inr r, if su_gone v then forget_server (dr_server_id request) s1 else s1)
      | Some (Inl e) \<Rightarrow>
          (if tree_gone w r ''SIGTERM'' then Some (Inl e, forget_server (dr_server_id request) s1) else None))"

definition startDevServer_body ::
  "runtime \<Rightarrow> dev_runtime \<Rightarrow> LocalCapabilityExecutionContext \<Rightarrow> DevServerStartRequest \<Rightarrow> bool
    \<Rightarrow> DevServerRecord action" where
  "startDevServer_body rt w cx request active =
     bindA (readA (\<lambda>s. guardR (map_of (ex_devServers s) (dr_server_id request) = None)
       (policy_error ''local_capability_dev_server_exists''
         (''Dev server '' @ quoted (dr_server_id request) @ '' is already running.'')))) (\<lambda>_.
     bindA (readA (\<lambda>s. assertAllowedDevServerEndpoint (dr_host request) (dr_port request))) (\<lambda>_.
     bindA (tree_read (\<lambda>t. resolveExistingWorkspacePath t (orelse (sr_cwd request) ''.'') (cx_workspace_root cx))) (\<lambda>cwd.
     bindA (\<lambda>s. authorize (authorizeDevServerAction (rt_config rt) (policy_realpath (ex_tree s)) (rt_regex rt) (rt_now rt)
       (cx_lease cx) (start_authorization cx request cwd)) s) (\<lambda>_.
     bindA (readA (\<lambda>s. guardR (\<not> session_stopped request active)
       (policy_error ''local_capability_lease_revoked'' ''Local action session stopped before dev server start.''))) (\<lambda>_.
     bindA (spawn_child rt (dev_server_call rt request cwd)) (\<lambda>pid.
     await_startup rt w cx request cwd pid))))))"

definition startDevServer ::
  "runtime \<Rightarrow> dev_runtime \<Rightarrow> LocalCapabilityExecutionContext \<Rightarrow> DevServerStartRequest \<Rightarrow> bool
    \<Rightarrow> (executor, thrown, DevServerRecord \<times> LocalCapabilityExecutionEvent list) act" where
  "startDevServer rt w cx request active =
     runAction rt cx ''dev_server'' ''dev_server.start'' ''start'' dev_server_json (startDevServer_body rt w cx request active)"

definition stop_authorization :: "LocalCapabilityExecutionContext \<Rightarrow> LocalDevServerAuthorizationRequest" where
  "stop_authorization cx =
     \<lparr>dsa_identity = identity_of cx, dsa_action = Dev_stop, dsa_executable = None, dsa_argv = None, dsa_cwd = None,
      dsa_workspace_root = None, dsa_use_shell = None, dsa_timeout_seconds = None, dsa_env = None\<rparr>"

definition stopDevServer_body ::
  "runtime \<Rightarrow> dev_runtime \<Rightarrow> LocalCapabilityExecutionContext \<Rightarrow> string \<Rightarrow> string \<Rightarrow> string action" where
  "stopDevServer_body rt w cx serverId signal =
     bindA (\<lambda>s. authorize (authorizeDevServerAction (rt_config rt) (policy_realpath (ex_tree s)) (rt_regex rt) (rt_now rt)
       (cx_lease cx) (stop_authorization cx)) s) (\<lambda>_.
     bindA (readA (\<lambda>s. case map_of (ex_devServers s) serverId of
         None \<Rightarrow> Inl (policy_error ''local_capability_dev_server_not_found''
           (''Dev server '' @ quoted serverId @ '' is not running.''))
       | Some server \<Rightarrow> Inr server)) (\<lambda>server s.
     if tree_gone w (tr_record server) signal then Some (Inr serverId, forget_server serverId s) else None))"

definition server_id_json :: "string \<Rightarrow> json" where
  "server_id_json serverId = JObj [(''server_id'', JStr serverId)]"

definition stopDevServer ::
  "runtime \<Rightarrow> dev_runtime \<Rightarrow> LocalCapabilityExecutionContext \<Rightarrow> string \<Rightarrow> string
    \<Rightarrow> (executor, thrown, string \<times> LocalCapabilityExecutionEvent list) act" where
  "stopDevServer rt w cx serverId signal =
     runAction rt cx ''dev_server'' ''dev_server.stop'' ''stop'' server_id_json (stopDevServer_body rt w cx serverId signal)"

definition listDevServers :: "executor \<Rightarrow> DevServerRecord list" where
  "listDevServers s = map (\<lambda>(_, server). tr_record server) (ex_devServers s)"

fun stop_each :: "dev_runtime \<Rightarrow> string \<Rightarrow> TrackedDevServer list \<Rightarrow> executor \<Rightarrow> executor option" where
  "stop_each w sessionId [] s = Some s"
| "stop_each w sessionId (server # servers) s =
     (if tr_session_id server \<noteq> sessionId then stop_each w sessionId servers s
      else if tree_gone w (tr_record server) ''SIGTERM''
      then stop_each w sessionId servers (forget_server (dv_server_id (tr_record server)) s)
      else None)"

definition stopDevServersForSession :: "dev_runtime \<Rightarrow> string \<Rightarrow> executor \<Rightarrow> executor option" where
  "stopDevServersForSession w sessionId s = stop_each w sessionId (map snd (ex_devServers s)) s"

subsection \<open>The table of servers\<close>

text \<open>
  Every tracked server is filed under its own id and bound to a local address; \<open>only_in\<close> says how an
  operation may move the table: servers may go, and only the named one may come.
\<close>

definition local_endpoint :: "DevServerRecord \<Rightarrow> bool" where
  "local_endpoint r \<longleftrightarrow> (dv_host r = ''127.0.0.1'' \<or> dv_host r = ''localhost'') \<and> 1 \<le> dv_port r \<and> dv_port r \<le> 65535"

definition table_ok :: "(string \<times> TrackedDevServer) list \<Rightarrow> bool" where
  "table_ok m \<longleftrightarrow> distinct (map fst m)
     \<and> list_all (\<lambda>(k, server). dv_server_id (tr_record server) = k \<and> local_endpoint (tr_record server)) m"

lemma table_ok_simps [simp]: "table_ok []"
  by (simp add: table_ok_def)

lemma table_ok_delete: "table_ok m \<Longrightarrow> table_ok (AList.delete k m)"
  by (auto simp: table_ok_def list_all_iff distinct_delete AList.delete_eq)
     (metis (mono_tags) AList.delete_eq distinct_delete)

lemma endpoint_allowed:
  "assertAllowedDevServerEndpoint host port = Inr u \<longleftrightarrow>
     (host = ''127.0.0.1'' \<or> host = ''localhost'') \<and> 1 \<le> port \<and> port \<le> 65535"
  by (auto simp: assertAllowedDevServerEndpoint_def)

lemma table_ok_track:
  assumes "table_ok (ex_devServers s)" and "local_endpoint r"
  shows "table_ok (ex_devServers (track_server r sessionId s))"
  using assms distinct_update [of "ex_devServers s"] set_update_subset [of "dv_server_id r" _ "ex_devServers s"]
  by (fastforce simp: table_ok_def track_server_def list_all_iff)

lemma table_ok_forget: "table_ok (ex_devServers s) \<Longrightarrow> table_ok (ex_devServers (forget_server k s))"
  by (simp add: forget_server_def table_ok_delete)

text \<open>Code that leaves the table alone.\<close>

definition same_servers :: "executor \<Rightarrow> executor \<Rightarrow> bool" where
  "same_servers s s' \<longleftrightarrow> ex_devServers s' = ex_devServers s"

interpretation same_servers: move_relation same_servers
  by unfold_locales (simp_all add: same_servers_def)

text \<open>Code that keeps the table well formed.\<close>

definition keeps_table :: "executor \<Rightarrow> executor \<Rightarrow> bool" where
  "keeps_table s s' \<longleftrightarrow> (table_ok (ex_devServers s) \<longrightarrow> table_ok (ex_devServers s'))"

interpretation keeps_table: audit_relation keeps_table
  by unfold_locales (simp_all add: keeps_table_def same_but_audit_def)

lemma authorize_same_servers: "moves same_servers (authorize f)"
  by (auto simp: moves_def same_servers_def authorize_def split: prod.splits sum.splits)

lemma authorize_at_same_servers: "moves same_servers (\<lambda>s. authorize (f s) s)"
  by (auto simp: moves_def same_servers_def authorize_def split: prod.splits sum.splits)

lemma tree_same_servers:
  "moves same_servers (tree_read g)" "moves same_servers (tree_write h)" "moves same_servers (make_parents q)"
  "moves same_servers (assertWritableSandbox cx a)"
  by (auto simp: moves_def same_servers_def tree_read_def tree_write_def make_parents_def assertWritableSandbox_def
      split: sum.splits prod.splits if_splits)

lemma child_same_servers: "moves same_servers (run_child rt call limits)" "moves same_servers (spawn_child rt call)"
  by (auto simp: moves_def same_servers_def run_child_def spawn_child_def split: sum.splits prod.splits option.splits)

lemmas same_servers_rules =
  same_servers.intros authorize_same_servers authorize_at_same_servers tree_same_servers child_same_servers

lemma bodies_same_servers:
  "moves same_servers (readFile_body rt cx path ropts)" "moves same_servers (listDirectory_body rt cx path lopts)"
  "moves same_servers (writeFile_body rt cx path content wopts)" "moves same_servers (patchFile_body rt cx path popts)"
  "moves same_servers (deletePath_body rt cx path)" "moves same_servers (git_body rt cx operation gopts)"
  "moves same_servers (shell_body rt cx request)"
  unfolding readFile_body_def listDirectory_body_def writeFile_body_def patchFile_body_def deletePath_body_def
    git_body_def git_run_def shell_body_def shell_run_def authorize_fs_def Let_def
  by (auto intro!: same_servers_rules split: prod.split)

lemma same_servers_keep: "moves same_servers m \<Longrightarrow> moves keeps_table m"
  by (auto simp: moves_def same_servers_def keeps_table_def)

lemma await_startup_keeps:
  assumes "assertAllowedDevServerEndpoint (dr_host request) (dr_port request) = Inr u"
  shows "moves keeps_table (await_startup rt w cx request cwd pid)"
proof -
  have "local_endpoint (dev_server_record rt request cwd pid)"
    using assms by (simp add: endpoint_allowed local_endpoint_def dev_server_record_def)
  then show ?thesis
    by (auto simp: moves_def keeps_table_def await_startup_def Let_def table_ok_track table_ok_forget
        split: option.splits sum.splits if_splits)
qed

lemma startDevServer_body_keeps: "moves keeps_table (startDevServer_body rt w cx request active)"
proof (cases "assertAllowedDevServerEndpoint (dr_host request) (dr_port request)")
  case (Inl e)
  then show ?thesis
    by (auto simp: moves_def keeps_table_def startDevServer_body_def bindA_def guardR_def split: if_splits)
next
  case (Inr u)
  show ?thesis unfolding startDevServer_body_def
    by (intro keeps_table.intros await_startup_keeps [OF Inr] same_servers_keep same_servers_rules)
qed

lemma stopDevServer_body_keeps: "moves keeps_table (stopDevServer_body rt w cx serverId signal)"
  unfolding stopDevServer_body_def
  by (intro keeps_table.intros same_servers_keep [OF authorize_at_same_servers])
     (auto simp: moves_def keeps_table_def table_ok_forget)

lemma stop_each_keeps: "stop_each w sessionId servers s = Some s' \<Longrightarrow> keeps_table s s'"
  by (induction servers arbitrary: s) (auto simp: keeps_table_def table_ok_forget split: if_splits)

subsection \<open>The life of an executor\<close>

text \<open>One action, the end of one child, or the end of one session.\<close>

inductive executor_step :: "executor \<Rightarrow> executor \<Rightarrow> bool" where
  reads: "readFile rt cx path ropts s = Some (r, s') \<Longrightarrow> executor_step s s'"
| lists: "listDirectory rt cx path lopts s = Some (r', s') \<Longrightarrow> executor_step s s'"
| writes: "writeFile rt cx path content wopts s = Some (r'', s') \<Longrightarrow> executor_step s s'"
| patches: "patchFile rt cx path popts s = Some (r3, s') \<Longrightarrow> executor_step s s'"
| deletes: "deletePath rt cx path s = Some (r4, s') \<Longrightarrow> executor_step s s'"
| runs_git: "git rt cx operation gopts s = Some (r5, s') \<Longrightarrow> executor_step s s'"
| runs_shell: "shell rt cx request s = Some (r6, s') \<Longrightarrow> executor_step s s'"
| starts: "startDevServer rt w cx start active s = Some (r7, s') \<Longrightarrow> executor_step s s'"
| stops: "stopDevServer rt w cx serverId signal s = Some (r8, s') \<Longrightarrow> executor_step s s'"
| child_gone: "executor_step s (forget_server serverId s)"
| session_stopped: "stopDevServersForSession w sessionId s = Some s' \<Longrightarrow> executor_step s s'"

lemma actions_keep_table:
  "moves keeps_table (readFile rt cx path ropts)" "moves keeps_table (listDirectory rt cx path lopts)"
  "moves keeps_table (writeFile rt cx path content wopts)" "moves keeps_table (patchFile rt cx path popts)"
  "moves keeps_table (deletePath rt cx path)" "moves keeps_table (git rt cx operation gopts)"
  "moves keeps_table (shell rt cx request)" "moves keeps_table (startDevServer rt w cx start active)"
  "moves keeps_table (stopDevServer rt w cx serverId signal)"
  unfolding readFile_def listDirectory_def writeFile_def patchFile_def deletePath_def git_def shell_def
    startDevServer_def stopDevServer_def
  by (intro keeps_table.action same_servers_keep bodies_same_servers startDevServer_body_keeps stopDevServer_body_keeps)+

lemma executor_step_keeps: "executor_step s s' \<Longrightarrow> keeps_table s s'"
proof (induction rule: executor_step.induct)
  case (child_gone s serverId)
  then show ?case by (simp add: keeps_table_def table_ok_forget)
next
  case (session_stopped w sessionId s s')
  then show ?case by (simp add: stopDevServersForSession_def stop_each_keeps)
qed (blast intro: movesD actions_keep_table)+

lemma reachable_table_ok: "executor_step\<^sup>*\<^sup>* s0 s \<Longrightarrow> table_ok (ex_devServers s0) \<Longrightarrow> table_ok (ex_devServers s)"
  by (induction rule: rtranclp_induct) (auto dest: executor_step_keeps simp: keeps_table_def)

text \<open>Ending the servers of a session: those servers, each once, and no other.\<close>

definition session_ids :: "string \<Rightarrow> TrackedDevServer list \<Rightarrow> string set" where
  "session_ids sessionId servers =
     (\<lambda>server. dv_server_id (tr_record server)) ` {server \<in> set servers. tr_session_id server = sessionId}"

lemma session_ids_simps [simp]:
  "session_ids sessionId [] = {}"
  "session_ids sessionId (server # servers) =
     (if tr_session_id server = sessionId then insert (dv_server_id (tr_record server)) (session_ids sessionId servers)
      else session_ids sessionId servers)"
  by (auto simp: session_ids_def)

lemma stop_each_servers:
  "stop_each w sessionId servers s = Some s' \<Longrightarrow>
     s' = s\<lparr>ex_devServers := filter (\<lambda>e. fst e \<notin> session_ids sessionId servers) (ex_devServers s)\<rparr>"
proof (induction servers arbitrary: s)
  case (Cons server servers)
  show ?case
  proof (cases "tr_session_id server = sessionId")
    case True
    then have "stop_each w sessionId servers (forget_server (dv_server_id (tr_record server)) s) = Some s'"
      using Cons.prems by (simp split: if_splits)
    from Cons.IH [OF this] show ?thesis
      using True by (simp add: forget_server_def AList.delete_eq case_prod_unfold conj_commute eq_commute)
  qed (use Cons in simp)
qed simp

lemma stop_session_exact:
  assumes "table_ok (ex_devServers s)" and "stopDevServersForSession w sessionId s = Some s'"
  shows "s' = s\<lparr>ex_devServers := filter (\<lambda>e. tr_session_id (snd e) \<noteq> sessionId) (ex_devServers s)\<rparr>"
proof -
  let ?m = "ex_devServers s"
  have distinct: "distinct (map fst ?m)" and id: "\<And>e. e \<in> set ?m \<Longrightarrow> dv_server_id (tr_record (snd e)) = fst e"
    using assms(1) by (auto simp: table_ok_def list_all_iff)
  have "fst e \<notin> session_ids sessionId (map snd ?m) \<longleftrightarrow> tr_session_id (snd e) \<noteq> sessionId" if e: "e \<in> set ?m" for e
  proof
    assume "fst e \<notin> session_ids sessionId (map snd ?m)"
    then show "tr_session_id (snd e) \<noteq> sessionId" using e id [OF e] by (cases e) (force simp: session_ids_def image_iff)
  next
    assume other: "tr_session_id (snd e) \<noteq> sessionId"
    show "fst e \<notin> session_ids sessionId (map snd ?m)"
    proof
      assume "fst e \<in> session_ids sessionId (map snd ?m)"
      then obtain e' where "e' \<in> set ?m" "tr_session_id (snd e') = sessionId" "fst e = dv_server_id (tr_record (snd e'))"
        by (auto simp: session_ids_def)
      then have "e' = e" using id e distinct by (metis eq_key_imp_eq_value prod.collapse)
      with other show False using \<open>tr_session_id (snd e') = sessionId\<close> by simp
    qed
  qed
  then have "filter (\<lambda>e. fst e \<notin> session_ids sessionId (map snd ?m)) ?m = filter (\<lambda>e. tr_session_id (snd e) \<noteq> sessionId) ?m"
    by (intro filter_cong) auto
  with stop_each_servers assms(2) show ?thesis by (metis stopDevServersForSession_def)
qed

subsection \<open>Waits end\<close>

definition stop_waiting :: "stop_state \<Rightarrow> bool" where
  "stop_waiting s \<longleftrightarrow> st_settled s \<or> st_forceKillTimer s \<or> st_forceKillSettleTimer s"

definition stop_ending :: "stop_state \<Rightarrow> bool" where
  "stop_ending s \<longleftrightarrow> st_settled s \<or> st_forceKillSettleTimer s"

lemma stop_step_waiting: "stop_waiting s \<Longrightarrow> stop_waiting (stop_step e s)"
  by (cases e) (auto simp: stop_waiting_def stop_settle_def)

lemma stop_step_ending: "stop_ending s \<Longrightarrow> stop_ending (stop_step e s)"
  by (cases e) (auto simp: stop_ending_def stop_settle_def)

lemma stop_step_settled: "st_settled s \<Longrightarrow> st_settled (stop_step e s)"
  by (cases e) (auto simp: stop_settle_def)

lemma stop_run_keeps:
  "(\<And>e s. I s \<Longrightarrow> I (stop_step e s)) \<Longrightarrow> I s \<Longrightarrow> I (foldl (\<lambda>s e. stop_step e s) s es)"
  by (induction es arbitrary: s) simp_all

lemma terminate_ends:
  "terminateProcessTree child signal (es @ [Stop_force_kill] @ fs @ [Stop_force_settle] @ gs) \<noteq> None"
proof -
  let ?run = "foldl (\<lambda>s e. stop_step e s)"
  have "stop_waiting (?run (stop_started signal) es)"
    by (rule stop_run_keeps [where I = stop_waiting, OF stop_step_waiting]) (simp_all add: stop_waiting_def stop_started_def)
  then have "stop_ending (stop_step Stop_force_kill (?run (stop_started signal) es))"
    by (auto simp: stop_waiting_def stop_ending_def)
  then have "stop_ending (?run (stop_step Stop_force_kill (?run (stop_started signal) es)) fs)"
    by (rule stop_run_keeps [where I = stop_ending, rotated]) (rule stop_step_ending)
  then have "st_settled (stop_step Stop_force_settle (?run (stop_step Stop_force_kill (?run (stop_started signal) es)) fs))"
    by (auto simp: stop_ending_def stop_settle_def)
  then have "st_settled (?run (stop_step Stop_force_settle (?run (stop_step Stop_force_kill (?run (stop_started signal) es)) fs)) gs)"
    by (rule stop_run_keeps [where I = st_settled, rotated]) (rule stop_step_settled)
  then show ?thesis by (simp add: terminateProcessTree_def Let_def)
qed

lemma readiness_loop_returns:
  assumes "t \<in> set ts" and "deadline \<le> pt_now t"
  shows "readiness_loop request url timeoutMs deadline lastErrorMessage ts \<noteq> None"
  using assms
  by (induction request url timeoutMs deadline lastErrorMessage ts rule: readiness_loop.induct)
     (auto split: sum.splits ReadinessProbeResult.splits)

text \<open>A probe that can make a server ready: in time, of a running child of a live session, answered OK.\<close>

definition good_turn :: "DevServerStartRequest \<Rightarrow> int \<Rightarrow> poll_turn \<Rightarrow> bool" where
  "good_turn request deadline t \<longleftrightarrow> pt_now t < deadline \<and> \<not> has_exited (pt_status t)
     \<and> \<not> session_stopped request (pt_active t) \<and> (\<exists>status. pt_fetch t = Fetched True status)"

lemma probe_ready: "probeReadinessUrl f = Ready \<longleftrightarrow> (\<exists>status. f = Fetched True status)"
  by (cases f rule: probeReadinessUrl.cases) simp_all

lemma readiness_loop_ready:
  "readiness_loop request url timeoutMs deadline lastErrorMessage ts = Some (Inr u) \<Longrightarrow> \<exists>t \<in> set ts. good_turn request deadline t"
  by (induction request url timeoutMs deadline lastErrorMessage ts rule: readiness_loop.induct)
     (auto simp: probe_ready good_turn_def assertDevServerStillRunning_def assertDevServerSessionActive_def guardR_def
        split: if_splits sum.splits ReadinessProbeResult.splits)

subsection \<open>Properties\<close>

text \<open>When a dev server may be started.\<close>

definition start_allowed ::
  "runtime \<Rightarrow> LocalCapabilityExecutionContext \<Rightarrow> DevServerStartRequest \<Rightarrow> bool \<Rightarrow> executor \<Rightarrow> bool" where
  "start_allowed rt cx request active s \<longleftrightarrow>
     map_of (ex_devServers s) (dr_server_id request) = None \<and> \<not> session_stopped request active
     \<and> (dr_host request = ''127.0.0.1'' \<or> dr_host request = ''localhost'')
     \<and> 1 \<le> dr_port request \<and> dr_port request \<le> 65535
     \<and> (\<exists>cwd g p. resolveExistingWorkspacePath (ex_tree s) (orelse (sr_cwd request) ''.'') (cx_workspace_root cx) = Inr cwd
          \<and> lease_permits (rt_config rt) (rt_now rt) (ex_leases s) (cx_lease cx)
              (capability_action (identity_of cx) ''dev_server'' ''workspace'' ''start'') g
          \<and> grant_approval_policy g = Some Full_access \<and> grant_command_policy g = Some p
          \<and> command_permitted (rt_regex rt) p (shell_command cx (ShellCommandRequest.truncate request) cwd)
          \<and> really_inside (policy_realpath (ex_tree s)) (cx_workspace_root cx) cwd)"

lemma start_authorised_allowed:
  assumes "authorizeDevServerAction cfg realpath regex now l (start_authorization cx request cwd) m = (Inr g, m')"
  shows "lease_permits cfg now m l (capability_action (identity_of cx) ''dev_server'' ''workspace'' ''start'') g
    \<and> grant_approval_policy g = Some Full_access
    \<and> (\<exists>p. grant_command_policy g = Some p
         \<and> command_permitted regex p (shell_command cx (ShellCommandRequest.truncate request) cwd))
    \<and> really_inside realpath (cx_workspace_root cx) cwd"
proof -
  obtain c where granted: "assertActionAllowed cfg now l
      (capability_action (identity_of cx) ''dev_server'' ''workspace'' ''start'') m = (Inr g, m')"
    and full: "assertExecutableGrantAllowed g ''Dev server start actions'' = Inr ()"
    and c: "dev_server_command (start_authorization cx request cwd) = Some c"
    and policy: "assertCommandPolicyAllows realpath regex (grant_command_policy g) c = Inr ()"
    using assms by (auto simp: authorizeDevServerAction_def start_authorization_def result_simps
        split: prod.splits sum.splits option.splits)
  have "c = shell_command cx (ShellCommandRequest.truncate request) cwd"
    using c by (auto simp: dev_server_command_def start_authorization_def shell_command_def
        ShellCommandRequest.truncate_def split: if_splits)
  with granted command_authorised [OF full policy] show ?thesis
    by (simp add: assertActionAllowed_granted shell_command_def)
qed

lemma start_body_child: "(case child of (spawn, w) \<Rightarrow> startDevServer_body (rt\<lparr>rt_spawn := spawn\<rparr>) w cx request active) =
    bindA (readA (\<lambda>s. guardR (map_of (ex_devServers s) (dr_server_id request) = None)
      (policy_error ''local_capability_dev_server_exists''
        (''Dev server '' @ quoted (dr_server_id request) @ '' is already running.'')))) (\<lambda>_.
    bindA (readA (\<lambda>s. assertAllowedDevServerEndpoint (dr_host request) (dr_port request))) (\<lambda>_.
    bindA (tree_read (\<lambda>t. resolveExistingWorkspacePath t (orelse (sr_cwd request) ''.'') (cx_workspace_root cx))) (\<lambda>cwd.
    bindA (\<lambda>s. authorize (authorizeDevServerAction (rt_config rt) (policy_realpath (ex_tree s)) (rt_regex rt) (rt_now rt)
      (cx_lease cx) (start_authorization cx request cwd)) s) (\<lambda>_.
    bindA (readA (\<lambda>s. guardR (\<not> session_stopped request active)
      (policy_error ''local_capability_lease_revoked'' ''Local action session stopped before dev server start.''))) (\<lambda>_.
    case child of (spawn, w) \<Rightarrow>
      bindA (spawn_child (rt\<lparr>rt_spawn := spawn\<rparr>) (dev_server_call (rt\<lparr>rt_spawn := spawn\<rparr>) request cwd)) (\<lambda>pid.
      await_startup (rt\<lparr>rt_spawn := spawn\<rparr>) w cx request cwd pid))))))"
  by (simp add: startDevServer_body_def split: prod.split)

interpretation start_asks: asks_first "start_allowed rt cx request active"
  "\<lambda>child. case child of (spawn, w) \<Rightarrow> startDevServer_body (rt\<lparr>rt_spawn := spawn\<rparr>) w cx request active"
  for rt cx request active
proof
  show "start_allowed rt cx request active s' = start_allowed rt cx request active s" if "same_but_audit s s'" for s s'
    using that by (simp add: start_allowed_def same_but_audit_def)
  show "refuses s (\<lambda>child. (case child of (spawn, w) \<Rightarrow> startDevServer_body (rt\<lparr>rt_spawn := spawn\<rparr>) w cx request active) s)"
    if not: "\<not> start_allowed rt cx request active s" for s
    unfolding start_body_child
  proof (rule refuses_readA, rule refuses_readA, rule refuses_tree_read, rule refuses_authorize, rule refl, rule refuses_readA)
    fix a u cwd g m' b
    assume "guardR (map_of (ex_devServers s) (dr_server_id request) = None)
      (policy_error ''local_capability_dev_server_exists''
        (''Dev server '' @ quoted (dr_server_id request) @ '' is already running.'')) = Inr a"
      and "assertAllowedDevServerEndpoint (dr_host request) (dr_port request) = Inr u"
      and "resolveExistingWorkspacePath (ex_tree s) (orelse (sr_cwd request) ''.'') (cx_workspace_root cx) = Inr cwd"
      and "authorizeDevServerAction (rt_config rt) (policy_realpath (ex_tree s)) (rt_regex rt) (rt_now rt)
        (cx_lease cx) (start_authorization cx request cwd) (ex_leases s) = (Inr g, m')"
      and "guardR (\<not> session_stopped request active)
        (policy_error ''local_capability_lease_revoked'' ''Local action session stopped before dev server start.'') = Inr b"
    then have "start_allowed rt cx request active s"
      using start_authorised_allowed by (simp add: start_allowed_def result_simps endpoint_allowed) blast
    with not show "refuses (s\<lparr>ex_leases := m'\<rparr>) (\<lambda>child. (case child of (spawn, w) \<Rightarrow>
      bindA (spawn_child (rt\<lparr>rt_spawn := spawn\<rparr>) (dev_server_call (rt\<lparr>rt_spawn := spawn\<rparr>) request cwd)) (\<lambda>pid.
      await_startup (rt\<lparr>rt_spawn := spawn\<rparr>) w cx request cwd pid)) (s\<lparr>ex_leases := m'\<rparr>))" by simp
  qed
qed

text \<open>C36: Programs run only when allowed.  Unless the working directory resolves inside the workspace, the
  lease permits that very action with a full-access grant whose policy permits the command (for git: it
  is a reading operation, and the lease permits it), and for a dev server its id is free, its address is
  local and its session is active, no program is started: the action throws the same error and leaves
  the same state whatever a program would do, with the tree and the table of servers unchanged.\<close>

theorem programs_run_only_when_allowed:
  "(shell_allowed rt cx request s \<or> refuses s (\<lambda>child. shell (rt\<lparr>rt_child := child\<rparr>) cx request s))
   \<and> (git_allowed rt cx operation options s \<or> refuses s (\<lambda>child. git (rt\<lparr>rt_child := child\<rparr>) cx operation options s))
   \<and> (start_allowed rt cx start active s \<or>
        refuses s (\<lambda>(spawn, w). startDevServer (rt\<lparr>rt_spawn := spawn\<rparr>) w cx start active s))"
proof (intro conjI disjCI)
  assume "\<not> refuses s (\<lambda>child. shell (rt\<lparr>rt_child := child\<rparr>) cx request s)"
  then show "shell_allowed rt cx request s"
    unfolding shell_def runAction_runtime by (rule contrapos_np) (rule shell_asks.action_refused)
next
  assume "\<not> refuses s (\<lambda>child. git (rt\<lparr>rt_child := child\<rparr>) cx operation options s)"
  then show "git_allowed rt cx operation options s"
    unfolding git_def runAction_runtime by (rule contrapos_np) (rule git_asks.action_refused)
next
  assume "\<not> refuses s (\<lambda>(spawn, w). startDevServer (rt\<lparr>rt_spawn := spawn\<rparr>) w cx start active s)"
  then show "start_allowed rt cx start active s"
    using start_asks.action_refused [of rt cx start active s]
    unfolding startDevServer_def runAction_runtime case_prod_unfold by (rule contrapos_np)
qed


text \<open>A runner that offers dev servers, a server it is asked to start, and what is seen of it.\<close>

definition sample_dev_rt :: runtime where
  "sample_dev_rt = sample_runtime\<lparr>rt_config := sample_config\<lparr>lc_local_capabilities :=
     [\<lparr>cfg_id = ''dev_server'', cfg_status = Cap_available, cfg_scopes = [''workspace''], cfg_approval_required = True\<rparr>]\<rparr>\<rparr>"

definition sample_dev_context :: LocalCapabilityExecutionContext where
  "sample_dev_context = sample_fs_context\<lparr>cx_lease := sample_lease\<lparr>lease_capabilities :=
     [sample_grant\<lparr>grant_id := ''dev_server''\<rparr>]\<rparr>\<rparr>"

definition running :: child_status where
  "running = \<lparr>cs_exitCode = None, cs_signalCode = None\<rparr>"

definition quiet_wait :: wait_view where
  "quiet_wait = \<lparr>wv_status = running, wv_active = True, wv_first = Wait_timer, wv_active_later = True\<rparr>"

definition sample_dev_world :: dev_runtime where
  "sample_dev_world = \<lparr>
     dw_url = (\<lambda>_. Some \<lparr>url_protocol = ''http:'', url_hostname = ''localhost'', url_port = ''3000'', url_href = ''http://localhost:3000/''\<rparr>),
     dw_startup = (\<lambda>_. \<lparr>su_now = 0, su_wait = quiet_wait,
       su_turns = [\<lparr>pt_now = 0, pt_status = running, pt_active = True, pt_fetch = Fetched False 503, pt_wait_now = 5, pt_wait = quiet_wait\<rparr>,
                   \<lparr>pt_now = 110, pt_status = running, pt_active = True, pt_fetch = Fetched True 200, pt_wait_now = 0, pt_wait = quiet_wait\<rparr>],
       su_gone = False\<rparr>),
     dw_stopping = (\<lambda>_. (running, [Stop_exit]))\<rparr>"

definition sample_start :: DevServerStartRequest where
  "sample_start = \<lparr>sr_executable = ''ls'', sr_argv = [], sr_cwd = None, sr_timeout_seconds = 5, sr_use_shell = None,
     sr_env = None, sr_stdin = None, sr_stdout_byte_limit = None, sr_stderr_byte_limit = None,
     dr_server_id = ''web'', dr_host = ''localhost'', dr_port = 3000,
     dr_readiness = Some \<lparr>rd_url = Some ''http://localhost:3000'', rd_timeout_ms = 1000\<rparr>, dr_watched = True\<rparr>"

lemma sample_start_outcome:
  "let out = startDevServer sample_dev_rt sample_dev_world sample_dev_context sample_start True sample_executor in
   succeeds out \<and> map fst (ex_devServers (state_after out)) = [''web''] \<and> map tr_session_id (map snd (ex_devServers (state_after out))) = [''s'']"
  by code_simp


text \<open>A readiness URL on this machine and the given port.\<close>

definition local_url :: "(string \<Rightarrow> url_parts option) \<Rightarrow> string \<Rightarrow> int \<Rightarrow> bool" where
  "local_url parse url port =
     (case parse url of
        None \<Rightarrow> False
      | Some u \<Rightarrow> List.member [''http:'', ''https:''] (url_protocol u)
          \<and> List.member [''127.0.0.1'', ''localhost''] (url_hostname u) \<and> portForUrl u = port)"

text \<open>Readiness.  Waiting for a readiness URL ends once the clock has passed the deadline at a loop
  test, which is never later than the startup timeout allows; the server counts as ready only if the URL
  is a local one on the server's own port and was answered OK before the deadline, by a running child of
  a session that was still active.\<close>

theorem readiness_wait_ends:
  assumes "dr_readiness request = Some r" and "rd_url r = Some url"
  shows "case waitForDevServerStartup parse request v of
      None \<Rightarrow> list_all (\<lambda>t. pt_now t < su_now v + devServerStartupTimeoutMs request) (su_turns v)
    | Some (Inl e) \<Rightarrow> True
    | Some (Inr _) \<Rightarrow> local_url parse url (dr_port request)
        \<and> list_ex (good_turn request (su_now v + min (rd_timeout_ms r) (devServerStartupTimeoutMs request))) (su_turns v)"
proof -
  define ms where "ms = min (rd_timeout_ms r) (devServerStartupTimeoutMs request)"
  show ?thesis
  proof (cases "assertAllowedReadinessUrl parse url request")
    case (Inl e)
    then show ?thesis using assms by (simp add: waitForDevServerStartup_def Let_def)
  next
    case (Inr allowed)
    have "local_url parse url (dr_port request)"
      using Inr by (auto simp: assertAllowedReadinessUrl_def local_url_def split: option.splits if_splits)
    moreover have loop: "waitForDevServerStartup parse request v =
        readiness_loop request allowed ms (su_now v + ms) None (su_turns v)"
      using assms Inr by (simp add: waitForDevServerStartup_def waitForReadinessUrl_def Let_def ms_def)
    moreover have "pt_now t < su_now v + devServerStartupTimeoutMs request"
      if "t \<in> set (su_turns v)" "waitForDevServerStartup parse request v = None" for t
      using readiness_loop_returns [OF that(1), of "su_now v + ms" request allowed ms None] that(2) loop
      by (force simp: ms_def)
    moreover have "list_ex (good_turn request (su_now v + ms)) (su_turns v)"
      if "waitForDevServerStartup parse request v = Some (Inr u)" for u
      using readiness_loop_ready that loop by (auto simp: list_ex_iff)
    ultimately show ?thesis
      by (auto simp: list_all_iff ms_def split: option.split sum.split)
  qed
qed

theorem readiness_wait_ends_witness:
  "waitForDevServerStartup (dw_url sample_dev_world) sample_start (dw_startup sample_dev_world (dev_server_call sample_dev_rt sample_start ''/ws'')) = Some (Inr ())
   \<and> local_url (dw_url sample_dev_world) ''http://localhost:3000'' 3000"
proof -
  have "waitForDevServerStartup (dw_url sample_dev_world) sample_start (dw_startup sample_dev_world (dev_server_call sample_dev_rt sample_start ''/ws'')) = Some (Inr ())"
    unfolding sample_dev_world_def by simp code_simp
  with readiness_wait_ends [where request = sample_start and url = "''http://localhost:3000''"
      and parse = "dw_url sample_dev_world" and v = "dw_startup sample_dev_world (dev_server_call sample_dev_rt sample_start ''/ws'')"]
  show ?thesis by (simp add: sample_start_def)
qed

end
