(* ===== verification/Local_Action_Contract.thy ===== *)
theory Local_Action_Contract
  imports Local_Action_Types
begin

text \<open>
  The schemas of local action requests, responses and errors and the contract that ties a lease
  binding to the action it is used for (\<open>packages/hcp-protocol/src/index.ts\<close>, from
  \<open>localActionAttributionSchema\<close> to \<open>requireLocalActionOutputLimit\<close>).

  A schema is the predicate its constraints state on a value of the record; a \<open>superRefine\<close>
  function returns the paths of the issues it adds, in order, and the refined schema accepts when
  there are none.
\<close>

subsection \<open>Bindings\<close>

definition localActionAttributionSchema :: "LocalActionAttribution \<Rightarrow> bool" where
  "localActionAttributionSchema a =
     (nonEmptyStringSchema (att_session_id a) \<and> nonEmptyStringSchema (att_turn_id a)
      \<and> nonEmptyStringSchema (att_workspace_id a) \<and> nonEmptyStringSchema (att_provider_instance_id a))"

definition localActionLeaseBindingSchema :: "(string \<Rightarrow> bool) \<Rightarrow> LocalActionLeaseBinding \<Rightarrow> bool" where
  "localActionLeaseBindingSchema ts l =
     (nonEmptyStringSchema (lb_lease_id l) \<and> nonEmptyStringSchema (lb_scope l)
      \<and> nonEmptyStringSchema (lb_hcp_session_id l) \<and> nonEmptyStringSchema (lb_execution_host_id l)
      \<and> nonEmptyStringSchema (lb_provider_instance_id l) \<and> nonEmptyStringSchema (lb_workspace_id l)
      \<and> opt_ok ts (lb_expires_at l))"

definition localFilesystemReadLeaseBindingSchema :: "(string \<Rightarrow> bool) \<Rightarrow> LocalActionLeaseBinding \<Rightarrow> bool" where
  "localFilesystemReadLeaseBindingSchema ts l =
     (localActionLeaseBindingSchema ts l \<and> lb_capability_id l = Cap_filesystem \<and> lb_scope l = ''workspace_read'')"

definition localFilesystemWriteLeaseBindingSchema :: "(string \<Rightarrow> bool) \<Rightarrow> LocalActionLeaseBinding \<Rightarrow> bool" where
  "localFilesystemWriteLeaseBindingSchema ts l =
     (localActionLeaseBindingSchema ts l \<and> lb_capability_id l = Cap_filesystem \<and> lb_scope l = ''workspace_write'')"

definition localGitReadLeaseBindingSchema :: "(string \<Rightarrow> bool) \<Rightarrow> LocalActionLeaseBinding \<Rightarrow> bool" where
  "localGitReadLeaseBindingSchema ts l =
     (localActionLeaseBindingSchema ts l \<and> lb_capability_id l = Cap_git \<and> lb_scope l = ''workspace_read'')"

definition localShellLeaseBindingSchema :: "(string \<Rightarrow> bool) \<Rightarrow> LocalActionLeaseBinding \<Rightarrow> bool" where
  "localShellLeaseBindingSchema ts l =
     (localActionLeaseBindingSchema ts l \<and> lb_capability_id l = Cap_shell \<and> lb_scope l = ''workspace'')"

definition localDevServerLeaseBindingSchema :: "(string \<Rightarrow> bool) \<Rightarrow> LocalActionLeaseBinding \<Rightarrow> bool" where
  "localDevServerLeaseBindingSchema ts l =
     (localActionLeaseBindingSchema ts l \<and> lb_capability_id l = Cap_dev_server \<and> lb_scope l = ''workspace'')"

definition localActionSandboxRequirementsSchema :: "LocalActionSandboxRequirements \<Rightarrow> bool" where
  "localActionSandboxRequirementsSchema s =
     (nonEmptyStringSchema (sb_workspace_root s) \<and> nonEmptyStringSchema (sb_cwd s)
      \<and> sb_requires_workspace_containment s)"

definition positive :: "int \<Rightarrow> bool" where
  "positive n = (0 < n)"

definition localActionOutputLimitsSchema :: "LocalActionOutputLimits \<Rightarrow> bool" where
  "localActionOutputLimitsSchema l =
     (opt_ok positive (lim_content_bytes l) \<and> opt_ok positive (lim_entries l)
      \<and> opt_ok positive (lim_status_bytes l) \<and> opt_ok positive (lim_diff_bytes l)
      \<and> opt_ok positive (lim_stdout_bytes l) \<and> opt_ok positive (lim_stderr_bytes l))"

text \<open>An \<open>extend\<close> that makes a limit mandatory.\<close>

definition localFilesystemReadOutputLimitsSchema :: "LocalActionOutputLimits \<Rightarrow> bool" where
  "localFilesystemReadOutputLimitsSchema l =
     (localActionOutputLimitsSchema l \<and> lim_content_bytes l \<noteq> None)"

definition localFilesystemListOutputLimitsSchema :: "LocalActionOutputLimits \<Rightarrow> bool" where
  "localFilesystemListOutputLimitsSchema l = (localActionOutputLimitsSchema l \<and> lim_entries l \<noteq> None)"

definition localGitStatusOutputLimitsSchema :: "LocalActionOutputLimits \<Rightarrow> bool" where
  "localGitStatusOutputLimitsSchema l = (localActionOutputLimitsSchema l \<and> lim_status_bytes l \<noteq> None)"

definition localGitDiffOutputLimitsSchema :: "LocalActionOutputLimits \<Rightarrow> bool" where
  "localGitDiffOutputLimitsSchema l = (localActionOutputLimitsSchema l \<and> lim_diff_bytes l \<noteq> None)"

definition localShellOutputLimitsSchema :: "LocalActionOutputLimits \<Rightarrow> bool" where
  "localShellOutputLimitsSchema l =
     (localActionOutputLimitsSchema l \<and> lim_stdout_bytes l \<noteq> None \<and> lim_stderr_bytes l \<noteq> None)"

definition localActionCancellationSchema :: "LocalActionCancellation \<Rightarrow> bool" where
  "localActionCancellationSchema c =
     (opt_ok positive (can_timeout_ms c) \<and> opt_ok nonEmptyStringSchema (can_token c))"

definition localActionApprovalBindingSchema :: "(string \<Rightarrow> bool) \<Rightarrow> LocalActionApprovalBinding \<Rightarrow> bool" where
  "localActionApprovalBindingSchema ts a =
     (case a of Not_required \<Rightarrow> True
      | Approved b \<Rightarrow> nonEmptyStringSchema (ap_request_id b) \<and> nonEmptyStringSchema (ap_action_hash b)
          \<and> nonEmptyStringSchema (ap_actor_id b) \<and> ts (ap_approved_at b))"

definition localActionApprovedBindingSchema :: "(string \<Rightarrow> bool) \<Rightarrow> LocalActionApprovalBinding \<Rightarrow> bool" where
  "localActionApprovedBindingSchema ts a =
     (case a of Not_required \<Rightarrow> False
      | Approved b \<Rightarrow> nonEmptyStringSchema (ap_request_id b) \<and> nonEmptyStringSchema (ap_action_hash b)
          \<and> nonEmptyStringSchema (ap_actor_id b) \<and> ts (ap_approved_at b))"

definition localActionAuditEventRefSchema :: "LocalActionAuditEventRef \<Rightarrow> bool" where
  "localActionAuditEventRefSchema r = opt_ok positive (ref_sequence r)"

definition audit_ref_of :: "audit_event_type \<Rightarrow> LocalActionAuditEventRef \<Rightarrow> bool" where
  "audit_ref_of t r = (localActionAuditEventRefSchema r \<and> ref_event_type r = t)"

definition localActionResponseAuditEventsSchema :: "LocalActionResponseAuditEvents \<Rightarrow> bool" where
  "localActionResponseAuditEventsSchema a =
     (opt_ok (audit_ref_of Action_started) (rae_started a) \<and> audit_ref_of Action_completed (rae_completed a))"

definition localActionErrorAuditEventsSchema :: "LocalActionErrorAuditEvents \<Rightarrow> bool" where
  "localActionErrorAuditEventsSchema a =
     (opt_ok (audit_ref_of Action_started) (eae_started a) \<and> audit_ref_of Action_failed (eae_failed a))"

subsection \<open>Inputs and outputs\<close>

fun local_action_input_schema :: "local_action_input \<Rightarrow> bool" where
  "local_action_input_schema (In_filesystem_read i) =
     (nonEmptyStringSchema (fr_path i)
      \<and> opt_ok (\<lambda>r. opt_ok (\<lambda>n. 0 \<le> n) (range_start r) \<and> opt_ok positive (range_length r)) (fr_range i))"
| "local_action_input_schema (In_filesystem_list i) =
     (nonEmptyStringSchema (fl_path i) \<and> opt_ok positive (fl_max_depth i))"
| "local_action_input_schema (In_filesystem_write i) =
     (nonEmptyStringSchema (fw_path i) \<and> opt_ok nonEmptyStringSchema (fw_expected_base_hash i)
      \<and> \<not> (fw_mode i = Mode_overwrite \<and> fw_expected_base_hash i = None))"
| "local_action_input_schema (In_filesystem_patch i) =
     (nonEmptyStringSchema (fp_path i) \<and> nonEmptyStringSchema (fp_expected_base_hash i)
      \<and> nonEmptyStringSchema (fp_patch_content i))"
| "local_action_input_schema (In_git_status i) = True"
| "local_action_input_schema (In_git_diff i) =
     (opt_ok (list_all nonEmptyStringSchema) (gd_paths i) \<and> opt_ok nonEmptyStringSchema (gd_base_ref i))"
| "local_action_input_schema (In_shell_exec i) =
     (nonEmptyStringSchema (se_executable i) \<and> nonEmptyStringSchema (se_cwd i))"
| "local_action_input_schema (In_dev_server_start i) =
     (nonEmptyStringSchema (ds_server_id i) \<and> nonEmptyStringSchema (ds_executable i)
      \<and> nonEmptyStringSchema (ds_cwd i) \<and> 1 \<le> ds_port i \<and> ds_port i \<le> 65535
      \<and> opt_ok (\<lambda>r. opt_ok nonEmptyStringSchema (rd_url r) \<and> positive (rd_timeout_ms r)) (ds_readiness i))"
| "local_action_input_schema (In_dev_server_stop i) =
     (nonEmptyStringSchema (dp_server_id i) \<and> opt_ok positive (dp_timeout_ms i))"

fun local_action_output_schema :: "(string \<Rightarrow> bool) \<Rightarrow> local_action_output \<Rightarrow> bool" where
  "local_action_output_schema ts (Out_filesystem_read o') =
     (nonEmptyStringSchema (ro_path o') \<and> nonEmptyStringSchema (ro_hash o'))"
| "local_action_output_schema ts (Out_filesystem_list o') =
     (nonEmptyStringSchema (lo_path o') \<and> list_all (\<lambda>e. nonEmptyStringSchema (le_name e)) (lo_entries o'))"
| "local_action_output_schema ts (Out_filesystem_write o') =
     (nonEmptyStringSchema (wo_path o') \<and> 0 \<le> wo_bytes_written o' \<and> nonEmptyStringSchema (wo_new_hash o'))"
| "local_action_output_schema ts (Out_filesystem_patch o') =
     (nonEmptyStringSchema (po_path o') \<and> nonEmptyStringSchema (po_new_hash o'))"
| "local_action_output_schema ts (Out_git_status o') = opt_ok nonEmptyStringSchema (so_branch o')"
| "local_action_output_schema ts (Out_git_diff o') = True"
| "local_action_output_schema ts (Out_shell_exec o') =
     (nonEmptyStringSchema (xo_executable o') \<and> nonEmptyStringSchema (xo_cwd o'))"
| "local_action_output_schema ts (Out_dev_server_start o') =
     (nonEmptyStringSchema (to_server_id o') \<and> positive (to_pid o') \<and> nonEmptyStringSchema (to_host o')
      \<and> 1 \<le> to_port o' \<and> to_port o' \<le> 65535 \<and> nonEmptyStringSchema (to_cwd o') \<and> ts (to_started_at o')
      \<and> opt_ok nonEmptyStringSchema (to_url o'))"
| "local_action_output_schema ts (Out_dev_server_stop o') =
     (nonEmptyStringSchema (eo_server_id o') \<and> ts (eo_stopped_at o'))"

subsection \<open>The contract between an action and its lease binding\<close>

fun localActionErrorMayHaveRejectedBinding :: "LocalActionErrorCode \<Rightarrow> bool" where
  "localActionErrorMayHaveRejectedBinding Local_capability_lease_missing = True"
| "localActionErrorMayHaveRejectedBinding Local_capability_lease_expired = True"
| "localActionErrorMayHaveRejectedBinding Local_capability_lease_revoked = True"
| "localActionErrorMayHaveRejectedBinding Local_capability_session_mismatch = True"
| "localActionErrorMayHaveRejectedBinding Local_capability_workspace_mismatch = True"
| "localActionErrorMayHaveRejectedBinding Local_capability_provider_mismatch = True"
| "localActionErrorMayHaveRejectedBinding Local_capability_scope_not_granted = True"
| "localActionErrorMayHaveRejectedBinding Local_capability_sandbox_denied = False"
| "localActionErrorMayHaveRejectedBinding Local_capability_approval_required = False"
| "localActionErrorMayHaveRejectedBinding Local_capability_approval_mismatch = False"
| "localActionErrorMayHaveRejectedBinding Local_capability_path_denied = False"
| "localActionErrorMayHaveRejectedBinding Local_capability_expected_hash_mismatch = False"
| "localActionErrorMayHaveRejectedBinding Local_capability_output_limit_exceeded = False"
| "localActionErrorMayHaveRejectedBinding Local_capability_timeout = False"
| "localActionErrorMayHaveRejectedBinding Local_capability_cancelled = False"
| "localActionErrorMayHaveRejectedBinding Local_capability_command_denied = False"
| "localActionErrorMayHaveRejectedBinding Local_capability_process_failed = False"
| "localActionErrorMayHaveRejectedBinding Local_capability_dev_server_exists = False"
| "localActionErrorMayHaveRejectedBinding Local_capability_dev_server_not_found = False"
| "localActionErrorMayHaveRejectedBinding Local_capability_action_failed = False"

fun localActionExpectedBinding :: "LocalActionType \<Rightarrow> LocalActionProtocolCapabilityId \<times> string" where
  "localActionExpectedBinding Local_filesystem_read = (Cap_filesystem, ''workspace_read'')"
| "localActionExpectedBinding Local_filesystem_list = (Cap_filesystem, ''workspace_read'')"
| "localActionExpectedBinding Local_filesystem_write = (Cap_filesystem, ''workspace_write'')"
| "localActionExpectedBinding Local_filesystem_patch = (Cap_filesystem, ''workspace_write'')"
| "localActionExpectedBinding Local_git_status = (Cap_git, ''workspace_read'')"
| "localActionExpectedBinding Local_git_diff = (Cap_git, ''workspace_read'')"
| "localActionExpectedBinding Local_shell_exec = (Cap_shell, ''workspace'')"
| "localActionExpectedBinding Local_dev_server_start = (Cap_dev_server, ''workspace'')"
| "localActionExpectedBinding Local_dev_server_stop = (Cap_dev_server, ''workspace'')"

definition localActionRequiresApproval :: "LocalActionType \<Rightarrow> bool" where
  "localActionRequiresApproval action = (action = Local_shell_exec \<or> action = Local_dev_server_start)"

type_synonym issue_path = "string list"

definition requireLocalActionOutputLimit :: "int option \<Rightarrow> string \<Rightarrow> issue_path list" where
  "requireLocalActionOutputLimit value field =
     (if value = None then [[''output_limits'', field]] else [])"

fun refineLocalActionOutputLimits :: "LocalActionType \<Rightarrow> LocalActionOutputLimits \<Rightarrow> issue_path list" where
  "refineLocalActionOutputLimits Local_filesystem_read l =
     requireLocalActionOutputLimit (lim_content_bytes l) ''content_bytes''"
| "refineLocalActionOutputLimits Local_filesystem_list l =
     requireLocalActionOutputLimit (lim_entries l) ''entries''"
| "refineLocalActionOutputLimits Local_git_diff l =
     requireLocalActionOutputLimit (lim_diff_bytes l) ''diff_bytes''"
| "refineLocalActionOutputLimits Local_git_status l =
     requireLocalActionOutputLimit (lim_status_bytes l) ''status_bytes''"
| "refineLocalActionOutputLimits Local_shell_exec l =
     requireLocalActionOutputLimit (lim_stdout_bytes l) ''stdout_bytes''
     @ requireLocalActionOutputLimit (lim_stderr_bytes l) ''stderr_bytes''"
| "refineLocalActionOutputLimits Local_filesystem_write l = []"
| "refineLocalActionOutputLimits Local_filesystem_patch l = []"
| "refineLocalActionOutputLimits Local_dev_server_start l = []"
| "refineLocalActionOutputLimits Local_dev_server_stop l = []"

record LocalActionContractPayload =
  ctr_action :: LocalActionType
  ctr_attribution :: LocalActionAttribution
  ctr_lease :: LocalActionLeaseBinding
  ctr_sandbox :: "LocalActionSandboxRequirements option"
  ctr_approval :: "LocalActionApprovalBinding option"
  ctr_output_limits :: "LocalActionOutputLimits option"

definition issue_if :: "bool \<Rightarrow> issue_path \<Rightarrow> issue_path list" where
  "issue_if b p = (if b then [p] else [])"

definition refineLocalActionContract :: "LocalActionContractPayload \<Rightarrow> issue_path list" where
  "refineLocalActionContract p =
     (let a = ctr_attribution p; l = ctr_lease p;
          (capabilityId, scope) = localActionExpectedBinding (ctr_action p) in
      issue_if (att_session_id a \<noteq> lb_hcp_session_id l) [''lease'', ''hcp_session_id'']
      @ issue_if (att_workspace_id a \<noteq> lb_workspace_id l) [''lease'', ''workspace_id'']
      @ issue_if (att_provider_instance_id a \<noteq> lb_provider_instance_id l) [''lease'', ''provider_instance_id'']
      @ issue_if (lb_capability_id l \<noteq> capabilityId) [''lease'', ''capability_id'']
      @ issue_if (lb_scope l \<noteq> scope) [''lease'', ''scope'']
      @ (case ctr_sandbox p of None \<Rightarrow> []
         | Some s \<Rightarrow> issue_if (\<not> sb_requires_workspace_containment s) [''sandbox'', ''requires_workspace_containment''])
      @ (case ctr_approval p of None \<Rightarrow> []
         | Some ap \<Rightarrow> issue_if (localActionRequiresApproval (ctr_action p) \<and> ap = Not_required) [''approval''])
      @ (case ctr_output_limits p of None \<Rightarrow> []
         | Some l \<Rightarrow> refineLocalActionOutputLimits (ctr_action p) l))"

definition refineLocalActionErrorContract :: "LocalActionErrorPayload \<Rightarrow> issue_path list" where
  "refineLocalActionErrorContract p =
     (if localActionErrorMayHaveRejectedBinding (lae_code (lep_error p)) then []
      else case lep_lease p of
        None \<Rightarrow> [[''lease'']]
      | Some l \<Rightarrow> refineLocalActionContract
          \<lparr>ctr_action = lep_action p, ctr_attribution = lep_attribution p, ctr_lease = l,
           ctr_sandbox = None, ctr_approval = None, ctr_output_limits = None\<rparr>)"

subsection \<open>Request, response and error schemas\<close>

definition request_contract :: "LocalActionRequestPayload \<Rightarrow> LocalActionContractPayload" where
  "request_contract r =
     \<lparr>ctr_action = req_action r, ctr_attribution = req_attribution r, ctr_lease = req_lease r,
      ctr_sandbox = Some (req_sandbox r), ctr_approval = Some (req_approval r),
      ctr_output_limits = Some (req_output_limits r)\<rparr>"

definition response_contract :: "LocalActionResponsePayload \<Rightarrow> LocalActionContractPayload" where
  "response_contract r =
     \<lparr>ctr_action = rsp_action r, ctr_attribution = rsp_attribution r, ctr_lease = rsp_lease r,
      ctr_sandbox = None, ctr_approval = None, ctr_output_limits = None\<rparr>"

text \<open>\<open>localActionRequestSharedShape\<close> and what each member of the union overrides in it.\<close>

definition localActionRequestSharedShape :: "(string \<Rightarrow> bool) \<Rightarrow> LocalActionRequestPayload \<Rightarrow> bool" where
  "localActionRequestSharedShape ts r =
     (nonEmptyStringSchema (req_request_id r) \<and> ts (req_issued_at r)
      \<and> localActionAttributionSchema (req_attribution r)
      \<and> localActionLeaseBindingSchema ts (req_lease r)
      \<and> localActionSandboxRequirementsSchema (req_sandbox r)
      \<and> localActionApprovalBindingSchema ts (req_approval r)
      \<and> localActionOutputLimitsSchema (req_output_limits r)
      \<and> localActionCancellationSchema (req_cancellation r))"

fun request_overrides :: "(string \<Rightarrow> bool) \<Rightarrow> LocalActionType \<Rightarrow> LocalActionRequestPayload \<Rightarrow> bool" where
  "request_overrides ts Local_filesystem_read r =
     (localFilesystemReadLeaseBindingSchema ts (req_lease r)
      \<and> localFilesystemReadOutputLimitsSchema (req_output_limits r))"
| "request_overrides ts Local_filesystem_list r =
     (localFilesystemReadLeaseBindingSchema ts (req_lease r)
      \<and> localFilesystemListOutputLimitsSchema (req_output_limits r))"
| "request_overrides ts Local_filesystem_write r = localFilesystemWriteLeaseBindingSchema ts (req_lease r)"
| "request_overrides ts Local_filesystem_patch r = localFilesystemWriteLeaseBindingSchema ts (req_lease r)"
| "request_overrides ts Local_git_status r =
     (localGitReadLeaseBindingSchema ts (req_lease r) \<and> localGitStatusOutputLimitsSchema (req_output_limits r))"
| "request_overrides ts Local_git_diff r =
     (localGitReadLeaseBindingSchema ts (req_lease r) \<and> localGitDiffOutputLimitsSchema (req_output_limits r))"
| "request_overrides ts Local_shell_exec r =
     (localShellLeaseBindingSchema ts (req_lease r) \<and> localActionApprovedBindingSchema ts (req_approval r)
      \<and> localShellOutputLimitsSchema (req_output_limits r))"
| "request_overrides ts Local_dev_server_start r =
     (localDevServerLeaseBindingSchema ts (req_lease r) \<and> localActionApprovedBindingSchema ts (req_approval r))"
| "request_overrides ts Local_dev_server_stop r = localDevServerLeaseBindingSchema ts (req_lease r)"

definition request_union :: "(string \<Rightarrow> bool) \<Rightarrow> LocalActionRequestPayload \<Rightarrow> bool" where
  "request_union ts r =
     (localActionRequestSharedShape ts r \<and> request_overrides ts (req_action r) r
      \<and> local_action_input_schema (req_input r))"

definition localActionRequestPayloadSchema :: "(string \<Rightarrow> bool) \<Rightarrow> LocalActionRequestPayload \<Rightarrow> bool" where
  "localActionRequestPayloadSchema ts r =
     (request_union ts r \<and> refineLocalActionContract (request_contract r) = [])"

fun lease_binding_for :: "(string \<Rightarrow> bool) \<Rightarrow> LocalActionType \<Rightarrow> LocalActionLeaseBinding \<Rightarrow> bool" where
  "lease_binding_for ts Local_filesystem_read = localFilesystemReadLeaseBindingSchema ts"
| "lease_binding_for ts Local_filesystem_list = localFilesystemReadLeaseBindingSchema ts"
| "lease_binding_for ts Local_filesystem_write = localFilesystemWriteLeaseBindingSchema ts"
| "lease_binding_for ts Local_filesystem_patch = localFilesystemWriteLeaseBindingSchema ts"
| "lease_binding_for ts Local_git_status = localGitReadLeaseBindingSchema ts"
| "lease_binding_for ts Local_git_diff = localGitReadLeaseBindingSchema ts"
| "lease_binding_for ts Local_shell_exec = localShellLeaseBindingSchema ts"
| "lease_binding_for ts Local_dev_server_start = localDevServerLeaseBindingSchema ts"
| "lease_binding_for ts Local_dev_server_stop = localDevServerLeaseBindingSchema ts"

definition localActionResponsePayloadSchema :: "(string \<Rightarrow> bool) \<Rightarrow> LocalActionResponsePayload \<Rightarrow> bool" where
  "localActionResponsePayloadSchema ts r =
     (nonEmptyStringSchema (rsp_request_id r) \<and> ts (rsp_completed_at r)
      \<and> localActionAttributionSchema (rsp_attribution r)
      \<and> localActionResponseAuditEventsSchema (rsp_audit_events r)
      \<and> lease_binding_for ts (rsp_action r) (rsp_lease r)
      \<and> local_action_output_schema ts (rsp_output r)
      \<and> refineLocalActionContract (response_contract r) = [])"

definition localActionErrorSchema :: "LocalActionError \<Rightarrow> bool" where
  "localActionErrorSchema e = nonEmptyStringSchema (lae_message e)"

definition localActionErrorPayloadSchema :: "(string \<Rightarrow> bool) \<Rightarrow> LocalActionErrorPayload \<Rightarrow> bool" where
  "localActionErrorPayloadSchema ts p =
     (nonEmptyStringSchema (lep_request_id p) \<and> ts (lep_failed_at p)
      \<and> localActionAttributionSchema (lep_attribution p)
      \<and> opt_ok (localActionLeaseBindingSchema ts) (lep_lease p)
      \<and> localActionErrorSchema (lep_error p)
      \<and> localActionErrorAuditEventsSchema (lep_audit_events p)
      \<and> refineLocalActionErrorContract p = [])"

subsection \<open>What the schemas promise\<close>

definition binding_matches :: "LocalActionAttribution \<Rightarrow> LocalActionLeaseBinding \<Rightarrow> bool" where
  "binding_matches a l \<longleftrightarrow>
     att_session_id a = lb_hcp_session_id l \<and> att_workspace_id a = lb_workspace_id l
     \<and> att_provider_instance_id a = lb_provider_instance_id l"

lemma issue_if_simps [simp]: "issue_if b p = [] \<longleftrightarrow> \<not> b" "set (issue_if b p) = (if b then {p} else {})"
  by (simp_all add: issue_if_def)

lemma requireLimit_Nil [simp]: "requireLocalActionOutputLimit v f = [] \<longleftrightarrow> v \<noteq> None"
  by (simp add: requireLocalActionOutputLimit_def)

lemmas binding_schema_defs =
  localFilesystemReadLeaseBindingSchema_def localFilesystemWriteLeaseBindingSchema_def
  localGitReadLeaseBindingSchema_def localShellLeaseBindingSchema_def localDevServerLeaseBindingSchema_def

lemmas limit_schema_defs =
  localFilesystemReadOutputLimitsSchema_def localFilesystemListOutputLimitsSchema_def
  localGitStatusOutputLimitsSchema_def localGitDiffOutputLimitsSchema_def localShellOutputLimitsSchema_def

lemma lease_binding_for_iff:
  "lease_binding_for ts act l \<longleftrightarrow>
     localActionLeaseBindingSchema ts l \<and> (lb_capability_id l, lb_scope l) = localActionExpectedBinding act"
  by (cases act) (auto simp: binding_schema_defs)

lemma approved_binding_iff:
  "localActionApprovedBindingSchema ts a \<longleftrightarrow> localActionApprovalBindingSchema ts a \<and> a \<noteq> Not_required"
  by (cases a) (auto simp: localActionApprovedBindingSchema_def localActionApprovalBindingSchema_def)

lemma request_overrides_iff:
  assumes "localActionRequestSharedShape ts r"
  shows "request_overrides ts act r \<longleftrightarrow>
     (lb_capability_id (req_lease r), lb_scope (req_lease r)) = localActionExpectedBinding act
     \<and> (localActionRequiresApproval act \<longrightarrow> req_approval r \<noteq> Not_required)
     \<and> refineLocalActionOutputLimits act (req_output_limits r) = []"
  using assms
  by (cases act)
     (auto simp: binding_schema_defs limit_schema_defs approved_binding_iff localActionRequiresApproval_def
       localActionRequestSharedShape_def)

lemma refine_contract_Nil:
  "refineLocalActionContract p = [] \<longleftrightarrow>
     binding_matches (ctr_attribution p) (ctr_lease p)
     \<and> (lb_capability_id (ctr_lease p), lb_scope (ctr_lease p)) = localActionExpectedBinding (ctr_action p)
     \<and> opt_ok sb_requires_workspace_containment (ctr_sandbox p)
     \<and> opt_ok (\<lambda>ap. localActionRequiresApproval (ctr_action p) \<longrightarrow> ap \<noteq> Not_required) (ctr_approval p)
     \<and> opt_ok (\<lambda>l. refineLocalActionOutputLimits (ctr_action p) l = []) (ctr_output_limits p)"
  by (auto simp: refineLocalActionContract_def Let_def binding_matches_def split: prod.splits option.splits)

text \<open>
  The union's per-action literals and the refinement state the same table twice: on a value the
  union accepts, the refinement can only object to the attribution.
\<close>

lemma request_refinement_issues:
  assumes "request_union ts r"
  shows "refineLocalActionContract (request_contract r) = [] \<longleftrightarrow>
     binding_matches (req_attribution r) (req_lease r)"
  using assms request_overrides_iff
  by (auto simp: refine_contract_Nil request_contract_def request_union_def
      localActionRequestSharedShape_def localActionSandboxRequirementsSchema_def)

lemma request_schema_iff:
  "localActionRequestPayloadSchema ts r \<longleftrightarrow>
     localActionRequestSharedShape ts r \<and> local_action_input_schema (req_input r)
     \<and> refineLocalActionContract (request_contract r) = []"
  using request_overrides_iff [of ts r "req_action r"]
  by (auto simp: localActionRequestPayloadSchema_def request_union_def refine_contract_Nil request_contract_def)

lemma response_schema_iff:
  "localActionResponsePayloadSchema ts r \<longleftrightarrow>
     nonEmptyStringSchema (rsp_request_id r) \<and> ts (rsp_completed_at r)
     \<and> localActionAttributionSchema (rsp_attribution r)
     \<and> localActionResponseAuditEventsSchema (rsp_audit_events r)
     \<and> localActionLeaseBindingSchema ts (rsp_lease r)
     \<and> (lb_capability_id (rsp_lease r), lb_scope (rsp_lease r)) = localActionExpectedBinding (rsp_action r)
     \<and> binding_matches (rsp_attribution r) (rsp_lease r)
     \<and> local_action_output_schema ts (rsp_output r)"
  by (auto simp: localActionResponsePayloadSchema_def lease_binding_for_iff refine_contract_Nil response_contract_def)

lemma error_contract_Nil:
  "refineLocalActionErrorContract p = [] \<longleftrightarrow>
     localActionErrorMayHaveRejectedBinding (lae_code (lep_error p))
     \<or> (\<exists>l. lep_lease p = Some l \<and> binding_matches (lep_attribution p) l
           \<and> (lb_capability_id l, lb_scope l) = localActionExpectedBinding (lep_action p))"
  by (auto simp: refineLocalActionErrorContract_def refine_contract_Nil split: option.splits)

text \<open>A response or an error that echoes the identity of an accepted request meets the contract too.\<close>

lemma response_of_request:
  assumes "localActionRequestPayloadSchema ts r"
    and "rsp_request_id p = req_request_id r" and "rsp_attribution p = req_attribution r"
    and "rsp_lease p = req_lease r" and "rsp_action p = req_action r"
    and "ts (rsp_completed_at p)" and "localActionResponseAuditEventsSchema (rsp_audit_events p)"
    and "local_action_output_schema ts (rsp_output p)"
  shows "localActionResponsePayloadSchema ts p"
  using assms
  by (simp add: response_schema_iff request_schema_iff localActionRequestSharedShape_def
      refine_contract_Nil request_contract_def)

lemma error_of_request:
  assumes "localActionRequestPayloadSchema ts r"
    and "lep_request_id p = req_request_id r" and "lep_attribution p = req_attribution r"
    and "lep_lease p = Some (req_lease r)" and "lep_action p = req_action r"
    and "ts (lep_failed_at p)" and "localActionErrorAuditEventsSchema (lep_audit_events p)"
    and "lae_message (lep_error p) \<noteq> []"
  shows "localActionErrorPayloadSchema ts p"
  using assms
  by (simp add: localActionErrorPayloadSchema_def error_contract_Nil request_schema_iff
      localActionRequestSharedShape_def refine_contract_Nil request_contract_def localActionErrorSchema_def
      nonEmptyStringSchema_def)


subsection \<open>Properties\<close>

text \<open>C35: The binding table is stated twice, in the per-action members of the request union and in the
  refinement, and both agree: a request is accepted exactly when it has the shared shape and its
  action's input, and its lease binding names the action's capability and scope and the attribution's
  session, workspace and provider, with an approval where the action needs one and every output limit
  the action requires.\<close>

theorem request_schema_contract:
  "localActionRequestPayloadSchema ts r \<longleftrightarrow>
     localActionRequestSharedShape ts r \<and> local_action_input_schema (req_input r)
     \<and> (lb_capability_id (req_lease r), lb_scope (req_lease r)) = localActionExpectedBinding (req_action r)
     \<and> binding_matches (req_attribution r) (req_lease r)
     \<and> (if localActionRequiresApproval (req_action r) then req_approval r \<noteq> Not_required else True)
     \<and> refineLocalActionOutputLimits (req_action r) (req_output_limits r) = []"
  by (auto simp: request_schema_iff refine_contract_Nil request_contract_def localActionRequestSharedShape_def
      localActionSandboxRequirementsSchema_def)

end
