(* ===== verification/Dispatcher.thy ===== *)
theory Dispatcher
  imports Dev_Servers Local_Action_Contract
begin

text \<open>
  The dispatcher of local actions (\<open>LocalActionDispatcher\<close> in
  \<open>packages/hcp-runner/src/local-actions/dispatcher.ts\<close>): it resolves the context of a request, runs the
  executor's action, has the events emitted and answers with a response or an error payload.  The
  context resolver and the event emitter are the dispatcher's options; the emitter works on the host's
  state, which is the type variable.
\<close>

record 'h dispatcher =
  di_executor :: executor
  di_stoppedSessionIds :: "string list"
  di_host :: 'h

text \<open>The options, the runtime, \<open>now().toISOString()\<close>, the schema's timestamps and a schema error's message.\<close>

record 'h dispatcher_options =
  do_rt :: runtime
  do_dev :: dev_runtime
  do_resolveContext :: "'h \<Rightarrow> LocalActionRequestPayload \<Rightarrow> action_error + LocalCapabilityExecutionContext"
  do_emitEvents :: "string \<Rightarrow> string \<Rightarrow> LocalCapabilityExecutionEvent list \<Rightarrow> 'h
    \<Rightarrow> (action_error + HcpHarnessEventPayload list) \<times> 'h"
  do_now :: string
  do_timestamp :: "string \<Rightarrow> bool"
  do_schema_error :: string

datatype LocalActionDispatchOutcome =
    Response_outcome LocalActionResponsePayload "HcpHarnessEventPayload list"
  | Error_outcome LocalActionErrorPayload "HcpHarnessEventPayload list"

subsection \<open>Errors\<close>

fun error_code_name :: "LocalActionErrorCode \<Rightarrow> string" where
  "error_code_name Local_capability_lease_missing = ''local_capability_lease_missing''"
| "error_code_name Local_capability_lease_expired = ''local_capability_lease_expired''"
| "error_code_name Local_capability_lease_revoked = ''local_capability_lease_revoked''"
| "error_code_name Local_capability_session_mismatch = ''local_capability_session_mismatch''"
| "error_code_name Local_capability_workspace_mismatch = ''local_capability_workspace_mismatch''"
| "error_code_name Local_capability_provider_mismatch = ''local_capability_provider_mismatch''"
| "error_code_name Local_capability_scope_not_granted = ''local_capability_scope_not_granted''"
| "error_code_name Local_capability_sandbox_denied = ''local_capability_sandbox_denied''"
| "error_code_name Local_capability_approval_required = ''local_capability_approval_required''"
| "error_code_name Local_capability_approval_mismatch = ''local_capability_approval_mismatch''"
| "error_code_name Local_capability_path_denied = ''local_capability_path_denied''"
| "error_code_name Local_capability_expected_hash_mismatch = ''local_capability_expected_hash_mismatch''"
| "error_code_name Local_capability_output_limit_exceeded = ''local_capability_output_limit_exceeded''"
| "error_code_name Local_capability_timeout = ''local_capability_timeout''"
| "error_code_name Local_capability_cancelled = ''local_capability_cancelled''"
| "error_code_name Local_capability_command_denied = ''local_capability_command_denied''"
| "error_code_name Local_capability_process_failed = ''local_capability_process_failed''"
| "error_code_name Local_capability_dev_server_exists = ''local_capability_dev_server_exists''"
| "error_code_name Local_capability_dev_server_not_found = ''local_capability_dev_server_not_found''"
| "error_code_name Local_capability_action_failed = ''local_capability_action_failed''"

text \<open>The \<open>switch\<close> of \<open>mapPolicyErrorCode\<close>, case by case.\<close>

definition policy_error_codes :: "(string \<times> LocalActionErrorCode) list" where
  "policy_error_codes =
     [(''local_capability_lease_missing'', Local_capability_lease_missing),
      (''local_capability_lease_expired'', Local_capability_lease_expired),
      (''local_capability_lease_revoked'', Local_capability_lease_revoked),
      (''local_capability_session_mismatch'', Local_capability_session_mismatch),
      (''local_capability_workspace_mismatch'', Local_capability_workspace_mismatch),
      (''local_capability_provider_mismatch'', Local_capability_provider_mismatch),
      (''local_capability_scope_not_granted'', Local_capability_scope_not_granted),
      (''local_capability_approval_required'', Local_capability_approval_required),
      (''local_capability_expected_hash_mismatch'', Local_capability_expected_hash_mismatch),
      (''local_capability_output_limit_exceeded'', Local_capability_output_limit_exceeded),
      (''local_capability_timeout'', Local_capability_timeout),
      (''local_capability_cancelled'', Local_capability_cancelled),
      (''local_capability_command_denied'', Local_capability_command_denied),
      (''local_capability_dev_server_exists'', Local_capability_dev_server_exists),
      (''local_capability_dev_server_not_found'', Local_capability_dev_server_not_found),
      (''local_capability_scope_unavailable'', Local_capability_scope_not_granted),
      (''local_capability_not_granted'', Local_capability_scope_not_granted),
      (''local_capability_unavailable'', Local_capability_scope_not_granted),
      (''local_capability_provider_unsupported'', Local_capability_scope_not_granted),
      (''local_capability_max_calls_exceeded'', Local_capability_scope_not_granted),
      (''local_capability_sandbox_read_only'', Local_capability_sandbox_denied),
      (''local_capability_path_denied'', Local_capability_path_denied),
      (''local_capability_cwd_denied'', Local_capability_path_denied),
      (''local_capability_path_unresolved'', Local_capability_path_denied),
      (''local_capability_shell_denied'', Local_capability_command_denied),
      (''local_capability_timeout_exceeded'', Local_capability_command_denied),
      (''local_capability_network_policy_unsupported'', Local_capability_command_denied),
      (''local_capability_env_denied'', Local_capability_command_denied),
      (''local_capability_executable_denied'', Local_capability_command_denied),
      (''local_capability_executable_not_allowed'', Local_capability_command_denied),
      (''local_capability_argv_denied'', Local_capability_command_denied),
      (''local_capability_command_policy_required'', Local_capability_command_denied),
      (''local_capability_command_policy_invalid'', Local_capability_command_denied),
      (''local_capability_dev_server_host_denied'', Local_capability_command_denied),
      (''local_capability_dev_server_port_denied'', Local_capability_command_denied),
      (''local_capability_dev_server_start_failed'', Local_capability_process_failed)]"

definition mapPolicyErrorCode :: "string \<Rightarrow> LocalActionErrorCode" where
  "mapPolicyErrorCode code =
     (case map_of policy_error_codes code of None \<Rightarrow> Local_capability_action_failed | Some c \<Rightarrow> c)"

definition mapProcessErrorCode :: "string \<Rightarrow> LocalActionErrorCode" where
  "mapProcessErrorCode message =
     (if startsWith message ''spawn '' then Local_capability_process_failed else Local_capability_action_failed)"

fun thrown_cause :: "thrown \<Rightarrow> action_error" where
  "thrown_cause (LocalCapabilityExecutionError events cause) = cause"
| "thrown_cause (Unwrapped e) = e"

fun thrown_events :: "thrown \<Rightarrow> LocalCapabilityExecutionEvent list" where
  "thrown_events (LocalCapabilityExecutionError events cause) = events"
| "thrown_events (Unwrapped e) = []"

definition toLocalActionError :: "thrown \<Rightarrow> LocalActionError" where
  "toLocalActionError e =
     (case thrown_cause e of
        Policy p \<Rightarrow> \<lparr>lae_code = mapPolicyErrorCode (pe_code p), lae_message = pe_message p,
          lae_retryable = False, lae_details = None\<rparr>
      | cause \<Rightarrow> \<lparr>lae_code = mapProcessErrorCode (error_message cause), lae_message = error_message cause,
          lae_retryable = False, lae_details = None\<rparr>)"

subsection \<open>Answers\<close>

definition audit_ref :: "audit_event_type \<Rightarrow> HcpHarnessEventPayload option \<Rightarrow> LocalActionAuditEventRef" where
  "audit_ref t e = \<lparr>ref_event_type = t, ref_sequence = map_option ev_sequence e\<rparr>"

definition find_event :: "audit_event_type \<Rightarrow> HcpHarnessEventPayload list \<Rightarrow> HcpHarnessEventPayload option" where
  "find_event t events = List.find (\<lambda>e. ev_event_type e = audit_event_name t) events"

definition started_ref :: "HcpHarnessEventPayload list \<Rightarrow> LocalActionAuditEventRef option" where
  "started_ref events =
     (case find_event Action_started events of None \<Rightarrow> None | Some e \<Rightarrow> Some (audit_ref Action_started (Some e)))"

definition responseAuditEvents :: "HcpHarnessEventPayload list \<Rightarrow> LocalActionResponseAuditEvents" where
  "responseAuditEvents events =
     \<lparr>rae_started = started_ref events, rae_completed = audit_ref Action_completed (find_event Action_completed events)\<rparr>"

definition errorAuditEvents :: "HcpHarnessEventPayload list \<Rightarrow> LocalActionErrorAuditEvents" where
  "errorAuditEvents events =
     \<lparr>eae_started = started_ref events, eae_failed = audit_ref Action_failed (find_event Action_failed events)\<rparr>"

definition enrich_event :: "LocalActionRequestPayload \<Rightarrow> LocalCapabilityExecutionEvent \<Rightarrow> LocalCapabilityExecutionEvent" where
  "enrich_event request e =
     e\<lparr>xv_data := js_spread (xv_data e) [(''input'', JObj (
       [(''request_id'', JStr (req_request_id request)), (''protocol_action'', JStr (action_name (req_action request)))]
       @ (case map_of (xv_data e) ''input'' of None \<Rightarrow> [] | Some v \<Rightarrow> [(''details'', v)])))]\<rparr>"

definition emitRequestEvents ::
  "'h dispatcher_options \<Rightarrow> LocalActionRequestPayload \<Rightarrow> LocalCapabilityExecutionEvent list
    \<Rightarrow> ('h dispatcher, action_error, HcpHarnessEventPayload list) act" where
  "emitRequestEvents o' request events d =
     (let (r, h) = do_emitEvents o' (att_session_id (req_attribution request)) (att_turn_id (req_attribution request))
                     (map (enrich_event request) events) (di_host d) in
      Some (r, d\<lparr>di_host := h\<rparr>))"

definition emitErrorEvents ::
  "'h dispatcher_options \<Rightarrow> LocalActionRequestPayload \<Rightarrow> LocalCapabilityExecutionEvent list
    \<Rightarrow> ('h dispatcher, action_error, HcpHarnessEventPayload list) act" where
  "emitErrorEvents o' request events d =
     (case emitRequestEvents o' request events d of
        Some (Inl (Policy e), d') \<Rightarrow> Some (Inr [], d')
      | outcome \<Rightarrow> outcome)"

fun status_for :: "LocalActionErrorCode \<Rightarrow> local_action_error_status" where
  "status_for Local_capability_timeout = Status_timed_out"
| "status_for Local_capability_cancelled = Status_cancelled"
| "status_for _ = Status_failed"

definition error_payload ::
  "'h dispatcher_options \<Rightarrow> LocalActionRequestPayload \<Rightarrow> thrown \<Rightarrow> HcpHarnessEventPayload list \<Rightarrow> LocalActionErrorPayload" where
  "error_payload o' request e emitted =
     \<lparr>lep_request_id = req_request_id request, lep_action = req_action request,
      lep_status = status_for (lae_code (toLocalActionError e)), lep_failed_at = do_now o',
      lep_attribution = req_attribution request, lep_lease = Some (req_lease request),
      lep_error = toLocalActionError e, lep_audit_events = errorAuditEvents emitted\<rparr>"

definition errorOutcome ::
  "'h dispatcher_options \<Rightarrow> LocalActionRequestPayload \<Rightarrow> thrown \<Rightarrow> LocalCapabilityExecutionEvent list
    \<Rightarrow> ('h dispatcher, action_error, LocalActionDispatchOutcome) act" where
  "errorOutcome o' request e executionEvents =
     bindA (if 0 < length executionEvents then emitErrorEvents o' request executionEvents else returnA []) (\<lambda>emitted.
     if localActionErrorPayloadSchema (do_timestamp o') (error_payload o' request e emitted)
     then returnA (Error_outcome (error_payload o' request e emitted) emitted)
     else throwA (Other (do_schema_error o')))"

definition response_payload ::
  "'h dispatcher_options \<Rightarrow> LocalActionRequestPayload \<Rightarrow> local_action_output \<Rightarrow> HcpHarnessEventPayload list
    \<Rightarrow> LocalActionResponsePayload" where
  "response_payload o' request output events =
     \<lparr>rsp_request_id = req_request_id request, rsp_completed_at = do_now o',
      rsp_attribution = req_attribution request, rsp_lease = req_lease request, rsp_output = output,
      rsp_audit_events = responseAuditEvents events\<rparr>"

definition failedEventFor ::
  "LocalActionRequestPayload \<Rightarrow> LocalCapabilityPolicyError \<Rightarrow> LocalCapabilityExecutionEvent" where
  "failedEventFor request e =
     \<lparr>xv_event_type = ''local_capability.action.failed'',
      xv_data = [(''lease_id'', JStr (lb_lease_id (req_lease request))),
        (''workspace_id'', JStr (att_workspace_id (req_attribution request))),
        (''provider_instance_id'', JStr (att_provider_instance_id (req_attribution request))),
        (''capability_id'', JStr (capability_name (lb_capability_id (req_lease request)))),
        (''action'', JStr (action_name (req_action request))), (''status'', JStr ''failed''),
        (''error'', JObj [(''code'', JStr (error_code_name (mapPolicyErrorCode (pe_code e)))),
           (''message'', JStr (pe_message e)), (''retryable'', JBool False)])]\<rparr>"

subsection \<open>Running the action of a request\<close>

definition timeoutSecondsFor :: "LocalActionRequestPayload \<Rightarrow> int" where
  "timeoutSecondsFor request =
     (let timeoutMs = orelse (can_timeout_ms (req_cancellation request)) 30000 in max 1 (- ((- timeoutMs) div 1000)))"

text \<open>\<open>...(x ? { key: x } : {})\<close> for a number and for a string.\<close>

definition nonzero :: "int option \<Rightarrow> int option" where
  "nonzero x = (case x of None \<Rightarrow> None | Some n \<Rightarrow> if n = 0 then None else Some n)"

definition nonempty :: "string option \<Rightarrow> string option" where
  "nonempty x = (case x of None \<Rightarrow> None | Some s \<Rightarrow> if s = [] then None else Some s)"

definition truthy_flag :: "bool option \<Rightarrow> bool option" where
  "truthy_flag x = (if x = Some True then Some True else None)"

fun host_name :: "dev_server_host \<Rightarrow> string" where
  "host_name Host_127_0_0_1 = ''127.0.0.1''"
| "host_name Host_localhost = ''localhost''"

fun signal_name :: "stop_signal \<Rightarrow> string" where
  "signal_name SIGTERM = ''SIGTERM''"
| "signal_name SIGKILL = ''SIGKILL''"

definition shell_request :: "LocalActionRequestPayload \<Rightarrow> LocalShellExecInput \<Rightarrow> ShellCommandRequest" where
  "shell_request request i =
     \<lparr>sr_executable = se_executable i, sr_argv = se_argv i, sr_cwd = Some (se_cwd i),
      sr_timeout_seconds = timeoutSecondsFor request, sr_use_shell = Some (se_use_shell i),
      sr_env = Some (orelse (se_env i) []), sr_stdin = se_stdin i,
      sr_stdout_byte_limit = nonzero (lim_stdout_bytes (req_output_limits request)),
      sr_stderr_byte_limit = nonzero (lim_stderr_bytes (req_output_limits request))\<rparr>"

definition dev_server_request :: "LocalActionRequestPayload \<Rightarrow> LocalDevServerStartInput \<Rightarrow> DevServerStartRequest" where
  "dev_server_request request i =
     \<lparr>sr_executable = ds_executable i, sr_argv = ds_argv i, sr_cwd = Some (ds_cwd i),
      sr_timeout_seconds = timeoutSecondsFor request, sr_use_shell = Some (ds_use_shell i),
      sr_env = Some (orelse (ds_env i) []), sr_stdin = None, sr_stdout_byte_limit = None, sr_stderr_byte_limit = None,
      dr_server_id = ds_server_id i, dr_host = host_name (ds_host i), dr_port = ds_port i,
      dr_readiness = ds_readiness i, dr_watched = True\<rparr>"

definition shell_output :: "ShellCommandResult \<Rightarrow> LocalShellExecOutput" where
  "shell_output r =
     \<lparr>xo_executable = sh_executable r, xo_argv = sh_argv r, xo_cwd = sh_cwd r, xo_exit_code = sh_exit_code r,
      xo_signal = Some (sh_signal r), xo_stdout = sh_stdout r, xo_stderr = sh_stderr r, xo_timed_out = sh_timed_out r,
      xo_stdout_truncated = truthy_flag (sh_stdout_truncated r), xo_stderr_truncated = truthy_flag (sh_stderr_truncated r)\<rparr>"

definition start_output :: "DevServerRecord \<Rightarrow> LocalDevServerStartOutput" where
  "start_output r =
     \<lparr>to_server_id = dv_server_id r, to_pid = dv_pid r, to_host = dv_host r, to_port = dv_port r, to_cwd = dv_cwd r,
      to_started_at = dv_started_at r, to_url = Some (''http://'' @ dv_host r @ '':'' @ show_int (dv_port r))\<rparr>"

text \<open>The executor's call for each action, with the result put into the action's output.\<close>

definition with_output ::
  "('a \<Rightarrow> local_action_output) \<Rightarrow> (executor, thrown, 'a \<times> LocalCapabilityExecutionEvent list) act
    \<Rightarrow> (executor, thrown, local_action_output \<times> LocalCapabilityExecutionEvent list) act" where
  "with_output f m = bindA m (\<lambda>(result, events). returnA (f result, events))"

fun dispatch_input ::
  "'h dispatcher_options \<Rightarrow> LocalActionRequestPayload \<Rightarrow> LocalCapabilityExecutionContext \<Rightarrow> bool \<Rightarrow> local_action_input
    \<Rightarrow> (executor, thrown, local_action_output \<times> LocalCapabilityExecutionEvent list) act" where
  "dispatch_input o' request cx active (In_filesystem_read i) =
     with_output (\<lambda>r. Out_filesystem_read \<lparr>ro_path = rr_path r, ro_content = rr_content r, ro_encoding = rr_encoding r,
         ro_hash = rr_hash r, ro_truncated = truthy_flag (rr_truncated r)\<rparr>)
       (readFile (do_rt o') cx (fr_path i)
         \<lparr>ro_opt_encoding = Some (orelse (fr_encoding i) Utf8), ro_opt_range = fr_range i,
          ro_opt_contentByteLimit = nonzero (lim_content_bytes (req_output_limits request))\<rparr>)"
| "dispatch_input o' request cx active (In_filesystem_list i) =
     with_output (\<lambda>r. Out_filesystem_list \<lparr>lo_path = lr_path r, lo_entries = lr_entries r,
         lo_truncated = truthy_flag (lr_truncated r)\<rparr>)
       (listDirectory (do_rt o') cx (fl_path i)
         \<lparr>lo_opt_recursive = Some (orelse (fl_recursive i) False), lo_opt_includeHidden = Some (orelse (fl_include_hidden i) False),
          lo_opt_maxDepth = nonzero (fl_max_depth i), lo_opt_entryLimit = nonzero (lim_entries (req_output_limits request))\<rparr>)"
| "dispatch_input o' request cx active (In_filesystem_write i) =
     with_output (\<lambda>r. Out_filesystem_write \<lparr>wo_path = wr_path r, wo_bytes_written = wr_bytes_written r,
         wo_new_hash = wr_new_hash r\<rparr>)
       (writeFile (do_rt o') cx (fw_path i) (fw_content i)
         \<lparr>wo_opt_encoding = Some (orelse (fw_encoding i) Utf8), wo_opt_mode = Some (fw_mode i),
          wo_opt_createParents = Some (fw_create_parents i), wo_opt_expectedBaseHash = nonempty (fw_expected_base_hash i)\<rparr>)"
| "dispatch_input o' request cx active (In_filesystem_patch i) =
     with_output (\<lambda>r. Out_filesystem_patch \<lparr>po_path = pt_path r, po_changed = pt_changed r, po_new_hash = pt_new_hash r\<rparr>)
       (patchFile (do_rt o') cx (fp_path i)
         \<lparr>po_opt_expectedBaseHash = fp_expected_base_hash i, po_opt_patchContent = fp_patch_content i,
          po_opt_createIfMissing = Some (orelse (fp_create_if_missing i) False)\<rparr>)"
| "dispatch_input o' request cx active (In_git_status i) =
     with_output (\<lambda>r. Out_git_status \<lparr>so_porcelain = gr_stdout r, so_branch = nonempty (gr_branch r),
         so_truncated = truthy_flag (gr_stdout_truncated r)\<rparr>)
       (git (do_rt o') cx Git_status
         \<lparr>gco_status = Some \<lparr>gso_porcelainVersion = Some (gs_porcelain_version i),
            gso_includeBranch = Some (orelse (gs_include_branch i) False),
            gso_outputByteLimit = nonzero (lim_status_bytes (req_output_limits request))\<rparr>, gco_diff = None\<rparr>)"
| "dispatch_input o' request cx active (In_git_diff i) =
     with_output (\<lambda>r. Out_git_diff \<lparr>do_diff = gr_stdout r, do_truncated = truthy_flag (gr_stdout_truncated r)\<rparr>)
       (git (do_rt o') cx Git_diff
         \<lparr>gco_status = None, gco_diff = Some \<lparr>gdo_paths = gd_paths i, gdo_staged = Some (orelse (gd_staged i) False),
            gdo_baseRef = nonempty (gd_base_ref i),
            gdo_outputByteLimit = nonzero (lim_diff_bytes (req_output_limits request))\<rparr>\<rparr>)"
| "dispatch_input o' request cx active (In_shell_exec i) =
     with_output (\<lambda>r. Out_shell_exec (shell_output r)) (shell (do_rt o') cx (shell_request request i))"
| "dispatch_input o' request cx active (In_dev_server_start i) =
     with_output (\<lambda>r. Out_dev_server_start (start_output r))
       (startDevServer (do_rt o') (do_dev o') cx (dev_server_request request i) active)"
| "dispatch_input o' request cx active (In_dev_server_stop i) =
     with_output (\<lambda>r. Out_dev_server_stop \<lparr>eo_server_id = r, eo_stopped_at = do_now o'\<rparr>)
       (stopDevServer (do_rt o') (do_dev o') cx (dp_server_id i) (signal_name (orelse (dp_signal i) SIGTERM)))"

definition on_executor :: "(executor, 'e, 'a) act \<Rightarrow> ('h dispatcher, 'e, 'a) act" where
  "on_executor m d =
     (case m (di_executor d) of None \<Rightarrow> None | Some (r, s) \<Rightarrow> Some (r, d\<lparr>di_executor := s\<rparr>))"

definition rethrown :: "('h dispatcher, action_error, 'a) act \<Rightarrow> ('h dispatcher, thrown, 'a) act" where
  "rethrown m d =
     (case m d of
        None \<Rightarrow> None
      | Some (Inl e, d') \<Rightarrow> Some (Inl (Unwrapped e), d')
      | Some (Inr a, d') \<Rightarrow> Some (Inr a, d'))"

definition session_active :: "'h dispatcher \<Rightarrow> string \<Rightarrow> bool" where
  "session_active d sessionId = (\<not> List.member (di_stoppedSessionIds d) sessionId)"

definition dispatchWithContext ::
  "'h dispatcher_options \<Rightarrow> LocalActionRequestPayload \<Rightarrow> LocalCapabilityExecutionContext
    \<Rightarrow> ('h dispatcher, thrown, LocalActionDispatchOutcome) act" where
  "dispatchWithContext o' request cx d =
     bindA (on_executor (dispatch_input o' request cx (session_active d (cx_session_id cx)) (req_input request)))
       (\<lambda>(output, executionEvents).
     bindA (rethrown (emitRequestEvents o' request executionEvents)) (\<lambda>events.
     if localActionResponsePayloadSchema (do_timestamp o') (response_payload o' request output events)
     then returnA (Response_outcome (response_payload o' request output events) events)
     else throwA (Unwrapped (Other (do_schema_error o'))))) d"

definition session_stopped_error :: thrown where
  "session_stopped_error =
     Unwrapped (policy_error ''local_capability_lease_revoked'' ''Local action session has already stopped.'')"

definition dispatch ::
  "'h dispatcher_options \<Rightarrow> LocalActionRequestPayload \<Rightarrow> ('h dispatcher, action_error, LocalActionDispatchOutcome) act" where
  "dispatch o' request d =
     (if \<not> session_active d (att_session_id (req_attribution request))
      then errorOutcome o' request session_stopped_error [] d
      else case do_resolveContext o' (di_host d) request of
        Inl e \<Rightarrow> errorOutcome o' request (Unwrapped e) [] d
      | Inr cx \<Rightarrow>
          (case dispatchWithContext o' request cx d of
             None \<Rightarrow> None
           | Some (Inr outcome, d') \<Rightarrow> Some (Inr outcome, d')
           | Some (Inl e, d') \<Rightarrow> errorOutcome o' request e (thrown_events e) d'))"

definition duplicatePayloadMismatch ::
  "'h dispatcher_options \<Rightarrow> LocalActionRequestPayload \<Rightarrow> ('h dispatcher, action_error, LocalActionDispatchOutcome) act" where
  "duplicatePayloadMismatch o' request =
     (let e = LocalCapabilityPolicyError ''local_capability_action_failed''
        (''Local action request '' @ quoted (req_request_id request) @ '' was already seen with a different payload.'') in
      errorOutcome o' request (Unwrapped (Policy e)) [failedEventFor request e])"

definition markSessionActive :: "string \<Rightarrow> 'h dispatcher \<Rightarrow> 'h dispatcher" where
  "markSessionActive sessionId d = d\<lparr>di_stoppedSessionIds := removeAll sessionId (di_stoppedSessionIds d)\<rparr>"

definition stop_session :: "'h dispatcher_options \<Rightarrow> string \<Rightarrow> 'h dispatcher \<Rightarrow> 'h dispatcher option" where
  "stop_session o' sessionId d =
     map_option (\<lambda>s. d\<lparr>di_stoppedSessionIds := List.insert sessionId (di_stoppedSessionIds d), di_executor := s\<rparr>)
       (stopDevServersForSession (do_dev o') sessionId (di_executor d))"

subsection \<open>What dispatching does to the table of servers\<close>

text \<open>Servers may go, and the ones that come belong to a session \<open>P\<close> allows.\<close>

definition only_new :: "(string \<Rightarrow> bool) \<Rightarrow> executor \<Rightarrow> executor \<Rightarrow> bool" where
  "only_new P s s' \<longleftrightarrow>
     (\<forall>e \<in> set (ex_devServers s'). e \<in> set (ex_devServers s) \<or> P (tr_session_id (snd e)))"

interpretation only_new: audit_relation "only_new P" for P
  by unfold_locales (auto simp: only_new_def same_but_audit_def)

lemma same_servers_only_new: "moves same_servers m \<Longrightarrow> moves (only_new P) m"
  by (auto simp: moves_def same_servers_def only_new_def)

lemma forget_only_new: "only_new P s (forget_server k s)"
  by (auto simp: only_new_def forget_server_def AList.delete_eq)

lemma track_only_new: "P sessionId \<Longrightarrow> only_new P s (track_server r sessionId s)"
  using set_update_subset [of "dv_server_id r" _ "ex_devServers s"] by (fastforce simp: only_new_def track_server_def)

lemma await_startup_only_new:
  "P (cx_session_id cx) \<Longrightarrow> moves (only_new P) (await_startup rt w cx request cwd pid)"
  using only_new.trans [OF track_only_new forget_only_new]
  by (auto simp: moves_def await_startup_def Let_def track_only_new split: option.splits sum.splits if_splits)

lemma start_only_new:
  assumes "dr_watched request"
  shows "moves (only_new (\<lambda>sid. active \<and> sid = cx_session_id cx)) (startDevServer_body rt w cx request active)"
proof (cases active)
  case True
  then show ?thesis unfolding startDevServer_body_def
    by (intro only_new.intros await_startup_only_new same_servers_only_new same_servers_rules) simp
next
  case False
  have stopped: "moves (only_new P) (bindA (readA (\<lambda>s. guardR (\<not> session_stopped request active) e)) f)" for P e f
    using assms False by (simp add: moves_def bindA_def session_stopped_def only_new.refl)
  show ?thesis unfolding startDevServer_body_def
    by (rule only_new.bind [OF only_new.read], rule only_new.bind [OF only_new.read],
        rule only_new.bind [OF same_servers_only_new [OF tree_same_servers(1)]],
        rule only_new.bind [OF same_servers_only_new [OF authorize_at_same_servers]], rule stopped)
qed

lemma stop_only_new: "moves (only_new P) (stopDevServer_body rt w cx serverId signal)"
  unfolding stopDevServer_body_def
  by (intro only_new.intros same_servers_only_new [OF authorize_at_same_servers])
     (auto simp: moves_def forget_only_new)

lemma with_output_only_new: "moves (only_new P) m \<Longrightarrow> moves (only_new P) (with_output f m)"
  unfolding with_output_def by (intro only_new.bind) (auto intro: only_new.return split: prod.split)

lemma dispatch_input_only_new:
  "moves (only_new (\<lambda>sid. active \<and> sid = cx_session_id cx)) (dispatch_input o' request cx active i)"
proof (cases i)
  case (In_dev_server_start j)
  have "dr_watched (dev_server_request request j)" by (simp add: dev_server_request_def)
  then show ?thesis
    by (simp only: In_dev_server_start dispatch_input.simps startDevServer_def)
       (intro with_output_only_new only_new.action start_only_new)
next
  case (In_dev_server_stop j)
  then show ?thesis
    by (simp only: dispatch_input.simps stopDevServer_def) (intro with_output_only_new only_new.action stop_only_new)
qed (simp_all only: dispatch_input.simps readFile_def listDirectory_def writeFile_def patchFile_def git_def shell_def,
    (intro with_output_only_new only_new.action same_servers_only_new bodies_same_servers)+)

subsection \<open>The life of a dispatcher\<close>

inductive dispatcher_step :: "'h dispatcher \<Rightarrow> 'h dispatcher \<Rightarrow> bool" where
  dispatched: "dispatch o' request d = Some (r, d') \<Longrightarrow> dispatcher_step d d'"
| duplicated: "duplicatePayloadMismatch o' request d = Some (r, d') \<Longrightarrow> dispatcher_step d d'"
| activated: "dispatcher_step d (markSessionActive sessionId d)"
| stopped: "stop_session o' sessionId d = Some d' \<Longrightarrow> dispatcher_step d d'"
| child_gone: "dispatcher_step d (d\<lparr>di_executor := forget_server serverId (di_executor d)\<rparr>)"

text \<open>Emitting and answering leave the executor and the stopped sessions alone.\<close>

definition same_executor :: "'h dispatcher \<Rightarrow> 'h dispatcher \<Rightarrow> bool" where
  "same_executor d d' \<longleftrightarrow> di_executor d' = di_executor d \<and> di_stoppedSessionIds d' = di_stoppedSessionIds d"

interpretation same_executor: move_relation same_executor
  by unfold_locales (simp_all add: same_executor_def)

lemma emit_same: "moves same_executor (emitRequestEvents o' request events)" "moves same_executor (emitErrorEvents o' request events)"
  by (auto simp: moves_def same_executor_def emitRequestEvents_def emitErrorEvents_def Let_def
      split: prod.splits option.splits sum.splits action_error.splits)

lemma errorOutcome_same: "moves same_executor (errorOutcome o' request e events)"
  unfolding errorOutcome_def by (auto intro!: same_executor.intros emit_same)

lemma dispatch_cases:
  assumes "dispatch o' request d = Some (r, d')"
  obtains (answered) "same_executor d d'"
  | (ran) cx x d1 where "do_resolveContext o' (di_host d) request = Inr cx"
      "on_executor (dispatch_input o' request cx (session_active d (cx_session_id cx)) (req_input request)) d = Some (x, d1)"
      "same_executor d1 d'"
proof (cases "session_active d (att_session_id (req_attribution request))")
  case False
  then have "errorOutcome o' request session_stopped_error [] d = Some (r, d')"
    using assms by (simp add: dispatch_def)
  then show ?thesis by (rule answered [OF movesD [OF errorOutcome_same]])
next
  case active: True
  show ?thesis
  proof (cases "do_resolveContext o' (di_host d) request")
    case (Inl e)
    then have "errorOutcome o' request (Unwrapped e) [] d = Some (r, d')"
      using assms active by (simp add: dispatch_def)
    then show ?thesis by (rule answered [OF movesD [OF errorOutcome_same]])
  next
    case (Inr cx)
    let ?m = "on_executor (dispatch_input o' request cx (session_active d (cx_session_id cx)) (req_input request))
      :: ('a dispatcher, thrown, local_action_output \<times> LocalCapabilityExecutionEvent list) act"
    obtain y d2 where with_context: "dispatchWithContext o' request cx d = Some (y, d2)"
      using assms active Inr by (auto simp: dispatch_def split: option.splits)
    have d2: "same_executor d2 d'"
    proof (cases y)
      case (Inl e)
      then have "errorOutcome o' request e (thrown_events e) d2 = Some (r, d')"
        using assms active \<open>do_resolveContext o' (di_host d) request = Inr cx\<close> with_context by (simp add: dispatch_def)
      then show ?thesis by (rule movesD [OF errorOutcome_same])
    next
      case (Inr outcome)
      then show ?thesis
        using assms active \<open>do_resolveContext o' (di_host d) request = Inr cx\<close> with_context
        by (simp add: dispatch_def same_executor.refl)
    qed
    have emitted: "moves same_executor (rethrown (emitRequestEvents o' request es))" for es
      using movesD [OF emit_same(1) [of o' request es]] by (auto simp: moves_def rethrown_def split: option.splits sum.splits)
    have rest: "moves same_executor (bindA (rethrown (emitRequestEvents o' request es)) (\<lambda>events.
      if localActionResponsePayloadSchema (do_timestamp o') (response_payload o' request out events)
      then returnA (Response_outcome (response_payload o' request out events) events)
      else throwA (Unwrapped (Other (do_schema_error o')))))" for es out
      by (intro same_executor.bind emitted) (simp add: same_executor.return same_executor.throw)
    obtain x d1 where "?m d = Some (x, d1)" "same_executor d1 d2"
      using with_context unfolding dispatchWithContext_def
      by (elim bindA_cases) (use movesD [OF rest] in \<open>auto simp: same_executor.refl split: prod.splits\<close>)
    then show ?thesis using ran [OF Inr] d2 same_executor.trans by blast
  qed
qed

text \<open>No tracked server belongs to a stopped session.\<close>

definition sessions_live :: "'h dispatcher \<Rightarrow> bool" where
  "sessions_live d \<longleftrightarrow> list_all (\<lambda>e. session_active d (tr_session_id (snd e))) (ex_devServers (di_executor d))"

definition servers_kept :: "'h dispatcher \<Rightarrow> bool" where
  "servers_kept d \<longleftrightarrow> table_ok (ex_devServers (di_executor d)) \<and> sessions_live d"

lemma same_executor_kept: "same_executor d d' \<Longrightarrow> servers_kept d \<Longrightarrow> servers_kept d'"
  by (simp add: same_executor_def servers_kept_def sessions_live_def session_active_def)

lemma with_output_keeps: "moves keeps_table m \<Longrightarrow> moves keeps_table (with_output f m)"
  unfolding with_output_def by (intro keeps_table.bind) (auto intro: keeps_table.return split: prod.split)

lemma dispatch_input_keeps: "moves keeps_table (dispatch_input o' request cx active i)"
  by (cases i) (simp_all only: dispatch_input.simps with_output_keeps actions_keep_table)

lemma dispatch_kept:
  assumes "dispatch o' request d = Some (r, d')" and "servers_kept d"
  shows "servers_kept d'"
  using assms(1)
proof (cases rule: dispatch_cases)
  case answered
  then show ?thesis using assms(2) by (rule same_executor_kept)
next
  case (ran cx x d1)
  let ?active = "session_active d (cx_session_id cx)"
  obtain s where s: "dispatch_input o' request cx ?active (req_input request) (di_executor d) = Some (x, s)"
    and d1: "d1 = d\<lparr>di_executor := s\<rparr>"
    using ran(2) by (auto simp: on_executor_def split: option.splits prod.splits)
  have "table_ok (ex_devServers s)"
    using movesD [OF dispatch_input_keeps s] assms(2) by (simp add: keeps_table_def servers_kept_def)
  moreover have "only_new (\<lambda>sid. ?active \<and> sid = cx_session_id cx) (di_executor d) s"
    using movesD [OF dispatch_input_only_new s] .
  then have "sessions_live d1"
    using assms(2) by (auto simp: servers_kept_def sessions_live_def only_new_def d1 session_active_def list_all_iff)
  ultimately have "servers_kept d1" by (simp add: servers_kept_def d1)
  with ran(3) show ?thesis by (rule same_executor_kept)
qed

lemma dispatcher_step_kept: "dispatcher_step d d' \<Longrightarrow> servers_kept d \<Longrightarrow> servers_kept d'"
proof (induction rule: dispatcher_step.induct)
  case (dispatched o' request d r d')
  then show ?case using dispatch_kept by blast
next
  case (duplicated o' request d r d')
  then show ?case
    using movesD [OF errorOutcome_same] same_executor_kept unfolding duplicatePayloadMismatch_def Let_def by blast
next
  case (activated d sessionId)
  then show ?case
    by (auto simp: servers_kept_def sessions_live_def session_active_def markSessionActive_def list_all_iff)
next
  case (stopped o' sessionId d d')
  then obtain s where s: "stopDevServersForSession (do_dev o') sessionId (di_executor d) = Some s"
    and d': "d' = d\<lparr>di_stoppedSessionIds := List.insert sessionId (di_stoppedSessionIds d), di_executor := s\<rparr>"
    by (auto simp: stop_session_def)
  have ok: "table_ok (ex_devServers (di_executor d))" using stopped.prems by (simp add: servers_kept_def)
  have "table_ok (ex_devServers s)"
    using stop_each_keeps s ok by (auto simp: keeps_table_def stopDevServersForSession_def)
  moreover have "s = (di_executor d)\<lparr>ex_devServers := filter (\<lambda>e. tr_session_id (snd e) \<noteq> sessionId) (ex_devServers (di_executor d))\<rparr>"
    by (rule stop_session_exact [OF ok s])
  ultimately show ?case
    using stopped.prems d'
    by (auto simp: servers_kept_def sessions_live_def session_active_def list_all_iff)
next
  case (child_gone d serverId)
  then show ?case
    using forget_only_new [of "\<lambda>_. False" "di_executor d" serverId]
    by (auto simp: servers_kept_def sessions_live_def session_active_def list_all_iff only_new_def table_ok_forget)
qed

subsection \<open>Properties\<close>

text \<open>Stopped sessions.  Whatever a dispatcher that starts with no servers goes through, no tracked dev
  server belongs to a session that has been stopped and not been made active again, not even when a start
  was already under way through another request; and a request of a stopped session runs nothing: the
  whole state stays as it is and the answer is no response.\<close>

theorem no_server_of_a_stopped_session:
  assumes "dispatcher_step\<^sup>*\<^sup>* d0 d" and "ex_devServers (di_executor d0) = []"
  shows "list_all (\<lambda>e. session_active d (tr_session_id (snd e))) (ex_devServers (di_executor d))
    \<and> (if session_active d (att_session_id (req_attribution request)) then True
       else case dispatch o' request d of
         None \<Rightarrow> False
       | Some (Inl e, d') \<Rightarrow> d' = d
       | Some (Inr (Response_outcome p es), d') \<Rightarrow> False
       | Some (Inr (Error_outcome p es), d') \<Rightarrow> d' = d \<and> es = [] \<and> lae_code (lep_error p) = Local_capability_lease_revoked)"
proof -
  have "servers_kept d"
    using assms
  proof (induction rule: rtranclp_induct)
    case base
    then show ?case by (simp add: servers_kept_def sessions_live_def)
  qed (blast dest: dispatcher_step_kept)
  moreover have "lae_code (toLocalActionError session_stopped_error) = Local_capability_lease_revoked"
    by (simp add: toLocalActionError_def session_stopped_error_def policy_error_def mapPolicyErrorCode_def policy_error_codes_def)
  ultimately show ?thesis
    by (auto simp: servers_kept_def sessions_live_def dispatch_def errorOutcome_def error_payload_def Let_def)
qed

text \<open>A request to start the sample server, on a host that only counts what it is told.\<close>

definition sample_options :: "nat dispatcher_options" where
  "sample_options = \<lparr>do_rt = sample_dev_rt, do_dev = sample_dev_world, do_resolveContext = (\<lambda>_ _. Inr sample_dev_context),
     do_emitEvents = (\<lambda>_ _ es n. (Inr [], n + length es)), do_now = ''t'', do_timestamp = (\<lambda>_. True), do_schema_error = ''e''\<rparr>"

definition sample_request :: LocalActionRequestPayload where
  "sample_request = \<lparr>req_request_id = ''r1'', req_issued_at = ''t'',
     req_attribution = \<lparr>att_session_id = ''s'', att_turn_id = ''t1'', att_workspace_id = ''w'', att_provider_instance_id = ''p''\<rparr>,
     req_lease = \<lparr>lb_lease_id = ''l'', lb_capability_id = Cap_dev_server, lb_scope = ''workspace'', lb_hcp_session_id = ''s'',
       lb_execution_host_id = ''h'', lb_provider_instance_id = ''p'', lb_workspace_id = ''w'', lb_expires_at = None\<rparr>,
     req_sandbox = \<lparr>sb_mode = Workspace_write, sb_workspace_root = ''/ws'', sb_cwd = ''/ws'', sb_requires_workspace_containment = True\<rparr>,
     req_approval = Approved \<lparr>ap_request_id = ''a'', ap_action_hash = ''h'', ap_decision = Accept, ap_actor_id = ''u'', ap_approved_at = ''t''\<rparr>,
     req_output_limits = \<lparr>lim_content_bytes = None, lim_entries = None, lim_status_bytes = None, lim_diff_bytes = None,
       lim_stdout_bytes = None, lim_stderr_bytes = None\<rparr>,
     req_cancellation = \<lparr>can_cancellable = True, can_timeout_ms = Some 4001, can_token = None\<rparr>, req_audit = (),
     req_input = In_dev_server_start \<lparr>ds_server_id = ''web'', ds_executable = ''ls'', ds_argv = [], ds_cwd = ''.'',
       ds_host = Host_localhost, ds_port = 3000, ds_use_shell = False, ds_env = None, ds_readiness = None\<rparr>\<rparr>"

definition sample_dispatcher :: "nat dispatcher" where
  "sample_dispatcher = \<lparr>di_executor = sample_executor, di_stoppedSessionIds = [], di_host = 0\<rparr>"

lemma sample_input_outcome:
  "case dispatch_input sample_options sample_request sample_dev_context True (req_input sample_request) sample_executor of
     Some (Inr (out, es), s) \<Rightarrow>
       localActionResponsePayloadSchema (\<lambda>_. True) (response_payload sample_options sample_request out [])
       \<and> length es = 2 \<and> map (\<lambda>e. (fst e, dv_server_id (tr_record (snd e)), tr_session_id (snd e))) (ex_devServers s) = [(''web'', ''web'', ''s'')]
   | _ \<Rightarrow> False"
  by code_simp

lemma refused_in_place:
  assumes "case outcome of None \<Rightarrow> False | Some (Inl e, d') \<Rightarrow> d' = d
    | Some (Inr (Response_outcome p es), d') \<Rightarrow> False | Some (Inr (Error_outcome p es), d') \<Rightarrow> d' = d \<and> P p es"
  shows "\<exists>r. outcome = Some (r, d)"
proof (cases outcome)
  case (Some z)
  then show ?thesis using assms
    by (cases z; cases "fst z") (auto split: LocalActionDispatchOutcome.splits)
qed (use assms in simp)

lemma successE:
  assumes "case outcome of Some (Inr (x, y), s) \<Rightarrow> P x y s | _ \<Rightarrow> False"
  obtains x y s where "outcome = Some (Inr (x, y), s)" "P x y s"
proof (cases outcome)
  case (Some z)
  then show ?thesis using assms that by (cases "fst z"; cases z) auto
qed (use assms in simp)

lemma sample_dispatch:
  obtains p s where "dispatch sample_options sample_request sample_dispatcher
      = Some (Inr (Response_outcome p []), \<lparr>di_executor = s, di_stoppedSessionIds = [], di_host = 2\<rparr>)"
    "map (\<lambda>e. (fst e, dv_server_id (tr_record (snd e)), tr_session_id (snd e))) (ex_devServers s) = [(''web'', ''web'', ''s'')]"
proof -
  obtain out es s where outcome: "dispatch_input sample_options sample_request sample_dev_context True (req_input sample_request)
      sample_executor = Some (Inr (out, es), s)"
    and ok: "localActionResponsePayloadSchema (\<lambda>_. True) (response_payload sample_options sample_request out [])" "length es = 2"
    and s: "map (\<lambda>e. (fst e, dv_server_id (tr_record (snd e)), tr_session_id (snd e))) (ex_devServers s) = [(''web'', ''web'', ''s'')]"
    by (rule successE [OF sample_input_outcome]) (elim conjE, rule that)
  have emits: "emitRequestEvents sample_options sample_request es d = Some (Inr [], d\<lparr>di_host := di_host d + length es\<rparr>)" for d
    by (simp add: emitRequestEvents_def sample_options_def)
  have options: "do_resolveContext sample_options h r = Inr sample_dev_context" "do_timestamp sample_options = (\<lambda>_. True)" for h r
    by (simp_all add: sample_options_def)
  have "dispatch sample_options sample_request sample_dispatcher
      = Some (Inr (Response_outcome (response_payload sample_options sample_request out []) []),
          \<lparr>di_executor = s, di_stoppedSessionIds = [], di_host = 2\<rparr>)"
    using outcome ok emits
    by (simp add: dispatch_def dispatchWithContext_def on_executor_def rethrown_def options session_active_def
        sample_dispatcher_def)
  from that [OF this s] show thesis .
qed

theorem no_server_of_a_stopped_session_witness:
  "case dispatch sample_options sample_request sample_dispatcher of
     Some (Inr (Response_outcome p es), d) \<Rightarrow> map fst (ex_devServers (di_executor d)) = [''web'']
       \<and> (case stop_session sample_options ''s'' d of None \<Rightarrow> False
          | Some d' \<Rightarrow> ex_devServers (di_executor d') = []
              \<and> (\<exists>r. dispatch sample_options sample_request d' = Some (r, d')))
   | _ \<Rightarrow> False"
proof -
  obtain p s where started: "dispatch sample_options sample_request sample_dispatcher
      = Some (Inr (Response_outcome p []), \<lparr>di_executor = s, di_stoppedSessionIds = [], di_host = 2\<rparr>)"
    and s: "map (\<lambda>e. (fst e, dv_server_id (tr_record (snd e)), tr_session_id (snd e))) (ex_devServers s) = [(''web'', ''web'', ''s'')]"
    by (rule sample_dispatch)
  let ?d = "\<lparr>di_executor = s, di_stoppedSessionIds = [], di_host = 2\<rparr> :: nat dispatcher"
  have "tree_gone sample_dev_world r ''SIGTERM''" for r by (simp add: tree_gone_def sample_dev_world_def
    terminateProcessTree_def has_exited_def running_def stop_started_def stop_settle_def)
  then obtain d' where d': "stop_session sample_options ''s'' ?d = Some d'" and ids: "di_stoppedSessionIds d' = [''s'']"
    and none: "ex_devServers (di_executor d') = []"
    using s by (cases "ex_devServers s")
      (auto simp: stop_session_def stopDevServersForSession_def sample_options_def forget_server_def)
  have "dispatcher_step\<^sup>*\<^sup>* sample_dispatcher d'"
    by (rule converse_rtranclp_into_rtranclp [OF dispatcher_step.dispatched [OF started]
          r_into_rtranclp [of dispatcher_step, OF dispatcher_step.stopped [OF d']]])
  moreover have "ex_devServers (di_executor sample_dispatcher) = []" by (simp add: sample_dispatcher_def sample_executor_def)
  ultimately have "if session_active d' (att_session_id (req_attribution sample_request)) then True
       else case dispatch sample_options sample_request d' of
         None \<Rightarrow> False
       | Some (Inl e, d'') \<Rightarrow> d'' = d'
       | Some (Inr (Response_outcome p es), d'') \<Rightarrow> False
       | Some (Inr (Error_outcome p es), d'') \<Rightarrow> d'' = d' \<and> es = [] \<and> lae_code (lep_error p) = Local_capability_lease_revoked"
    using no_server_of_a_stopped_session [where o' = sample_options and request = sample_request] by blast
  moreover have "\<not> session_active d' (att_session_id (req_attribution sample_request))"
    using ids by (simp add: session_active_def sample_request_def)
  ultimately have "\<exists>r. dispatch sample_options sample_request d' = Some (r, d')"
    by (intro refused_in_place [where P = "\<lambda>p es. es = [] \<and> lae_code (lep_error p) = Local_capability_lease_revoked"])
      (simp only: if_False)
  moreover have "map fst (ex_devServers s) = [''web'']" using s by (cases "ex_devServers s") auto
  ultimately show ?thesis by (simp add: started d' none)
qed

text \<open>An audit reference names an emitted event of its type.\<close>

definition names_event :: "HcpHarnessEventPayload list \<Rightarrow> LocalActionAuditEventRef \<Rightarrow> bool" where
  "names_event events r \<longleftrightarrow>
     list_ex (\<lambda>e. ev_event_type e = audit_event_name (ref_event_type r) \<and> ref_sequence r = Some (ev_sequence e)) events
     \<or> ref_sequence r = None"

lemma output_of_input:
  assumes "dispatch_input o' request cx active i s = Some (Inr (output, es), s')"
  shows "output_action output = input_action i"
  using assms by (cases i) (auto simp: with_output_def bindA_Inr split: prod.splits)

lemma refs_name_events:
  "opt_ok (names_event events) (started_ref events)" "names_event events (audit_ref t (find_event t events))"
  by (auto simp: started_ref_def names_event_def audit_ref_def find_event_def find_Some_iff list_ex_iff
      split: option.splits)
     (metis find_Some_iff nth_mem)+


end
