(* ===== verification/Event_Interfaces.thy ===== *)
theory Event_Interfaces
  imports Protocol
begin

text \<open>
  The two sides of event replication as interfaces: the \<^emph>\<open>source\<close> keeps a bounded suffix of every
  session's event history and replays it, the \<^emph>\<open>sink\<close> rebuilds the history from whatever arrives.
  The runner's state store provides the first, the control plane's reducer the second; what
  follows from both contracts alone is proved here once.
\<close>

subsection \<open>Histories\<close>

text \<open>The whole event history of a session: its events are numbered from one without gaps.\<close>

definition history :: "string \<Rightarrow> HcpHarnessEventPayload list \<Rightarrow> bool" where
  "history sid es = (counts_from 1 (map ev_sequence es) \<and> (\<forall>e \<in> set es. ev_session_id e = sid))"

text \<open>A retained log is what a history ends with, and is empty only if nothing ever happened.\<close>

definition retains :: "HcpHarnessEventPayload list \<Rightarrow> HcpHarnessEventPayload list \<Rightarrow> bool" where
  "retains hist log = (suffix log hist \<and> (log = [] \<longrightarrow> hist = []))"

lemma history_nth: "history sid es \<Longrightarrow> i < length es \<Longrightarrow> ev_sequence (es ! i) = int i + 1"
  using counts_from_nth [of 1 "map ev_sequence es" i] by (simp add: history_def)

lemma history_mem:
  assumes "history sid es" and "e \<in> set es"
  shows "ev_session_id e = sid" and "0 < ev_sequence e" and "ev_sequence e \<le> int (length es)"
    and "es ! nat (ev_sequence e - 1) = e"
proof -
  obtain i where "i < length es" "es ! i = e" using assms(2) by (metis in_set_conv_nth)
  then show "ev_session_id e = sid" "0 < ev_sequence e" "ev_sequence e \<le> int (length es)"
    "es ! nat (ev_sequence e - 1) = e"
    using assms history_nth [OF assms(1)] by (auto simp: history_def)
qed

lemma history_snoc:
  "history sid (es @ [e]) \<longleftrightarrow> history sid es \<and> ev_sequence e = int (length es) + 1 \<and> ev_session_id e = sid"
  by (auto simp: history_def)

lemma retains_hd:
  assumes "history sid hist" and "retains hist log" and "log \<noteq> []"
  shows "ev_sequence (hd log) = int (length hist - length log) + 1" and "length log \<le> length hist"
    and "log = drop (length hist - length log) hist"
proof -
  obtain pre where pre: "hist = pre @ log" using assms(2) by (auto simp: retains_def suffix_def)
  then show "length log \<le> length hist" "log = drop (length hist - length log) hist" by simp_all
  show "ev_sequence (hd log) = int (length hist - length log) + 1"
    using history_nth [OF assms(1), of "length pre"] pre assms(3) by (simp add: nth_append hd_conv_nth)
qed

subsection \<open>Sinks\<close>

locale event_sink =
  fixes apply_event :: "HcpHarnessEventPayload \<Rightarrow> 't \<Rightarrow> 't"
    and sink_log :: "'t \<Rightarrow> string \<Rightarrow> HcpHarnessEventPayload list"
    and sink_inv :: "'t \<Rightarrow> bool"
  assumes sink_inv_apply: "sink_inv t \<Longrightarrow> sink_inv (apply_event e t)"
    and sink_log_apply: "sink_inv t \<Longrightarrow> sink_log (apply_event e t) sid =
      (if ev_session_id e = sid \<and> ev_sequence e = int (length (sink_log t sid)) + 1
       then sink_log t sid @ [e] else sink_log t sid)"
begin

lemma fold_inv: "sink_inv t \<Longrightarrow> sink_inv (fold apply_event ds t)"
  by (induction ds arbitrary: t) (simp_all add: sink_inv_apply)

lemma step_on_history:
  assumes "sink_inv t" and "history sid hist" and "sink_log t sid = take n hist" and "n \<le> length hist"
    and "ev_session_id e = sid \<Longrightarrow> e \<in> set hist"
  defines "n' \<equiv> if ev_session_id e = sid \<and> ev_sequence e = int n + 1 then n + 1 else n"
  shows "sink_log (apply_event e t) sid = take n' hist" and "n' \<le> length hist"
proof -
  have len: "length (sink_log t sid) = n" using assms(3,4) by simp
  have nxt: "n < length hist \<and> hist ! n = e" if "ev_session_id e = sid" "ev_sequence e = int n + 1"
  proof -
    have "e \<in> set hist" using assms(5) that by simp
    then show ?thesis using history_mem [OF assms(2), of e] that by simp
  qed
  then show "n' \<le> length hist" using assms(4) by (auto simp: n'_def)
  show "sink_log (apply_event e t) sid = take n' hist"
    using sink_log_apply [OF assms(1), of e sid] nxt assms(3) len
    by (auto simp: n'_def take_Suc_conv_app_nth)
qed

text \<open>
  Whatever part of the history arrives, in any order, repeated or mixed with other sessions, the
  sink holds a prefix of it; it holds all of it once what was missing has arrived in order.
\<close>

lemma fold_history:
  assumes "sink_inv t" and "history sid hist" and "sink_log t sid = take n hist" and "n \<le> length hist"
    and "\<forall>e \<in> set ds. ev_session_id e = sid \<longrightarrow> e \<in> set hist"
  shows "\<exists>m. n \<le> m \<and> m \<le> length hist \<and> sink_log (fold apply_event ds t) sid = take m hist
    \<and> (subseq (drop n hist) ds \<longrightarrow> m = length hist)"
  using assms
proof (induction ds arbitrary: t n)
  case Nil
  then show ?case by (intro exI [of _ n]) (auto dest!: list_emb_Nil2)
next
  case (Cons d ds)
  define n' where "n' = (if ev_session_id d = sid \<and> ev_sequence d = int n + 1 then n + 1 else n)"
  have d: "ev_session_id d = sid \<Longrightarrow> d \<in> set hist" using Cons.prems(5) by simp
  note step = step_on_history [OF Cons.prems(1-4) d, folded n'_def]
  obtain m where m: "n' \<le> m" "m \<le> length hist" "sink_log (fold apply_event (d # ds) t) sid = take m hist"
    and ss: "subseq (drop n' hist) ds \<longrightarrow> m = length hist"
    using Cons.IH [of "apply_event d t" n'] step Cons.prems sink_inv_apply by auto
  have "subseq (drop n' hist) ds" if sub: "subseq (drop n hist) (d # ds)"
  proof (cases "n < length hist")
    case True
    then have dn: "drop n hist = hist ! n # drop (n + 1) hist" by (simp add: Cons_nth_drop_Suc)
    show ?thesis
    proof (cases "d = hist ! n")
      case True
      then have "n' = n + 1"
        using Cons.prems(2) \<open>n < length hist\<close> history_nth by (auto simp: n'_def history_def)
      then show ?thesis using sub dn True by simp
    next
      case False
      then have "subseq (drop n hist) ds" using sub dn by (auto elim: list_emb.cases)
      then show ?thesis using dn by (auto simp: n'_def dest: subseq_Cons')
    qed
  next
    case False
    then show ?thesis by (simp add: n'_def)
  qed
  with m ss show ?case by (intro exI [of _ m]) (auto simp: n'_def split: if_splits)
qed

lemma fold_other:
  "sink_inv t \<Longrightarrow> \<forall>e \<in> set ds. ev_session_id e \<noteq> sid \<Longrightarrow> sink_log (fold apply_event ds t) sid = sink_log t sid"
  by (induction ds arbitrary: t) (simp_all add: sink_inv_apply sink_log_apply)

end

subsection \<open>Sources\<close>

locale event_source =
  fixes append_event :: "HcpHarnessEventPayload \<Rightarrow> 's \<Rightarrow> 's option"
    and source_log :: "'s \<Rightarrow> string \<Rightarrow> HcpHarnessEventPayload list"
    and replay_after :: "'s \<Rightarrow> string \<Rightarrow> int \<Rightarrow> HcpHarnessEventPayload list option"
    and source_inv :: "'s \<Rightarrow> bool"
  assumes source_inv_append: "source_inv s \<Longrightarrow> append_event e s = Some s' \<Longrightarrow> source_inv s'"
    and append_sequence: "source_inv s \<Longrightarrow> append_event e s = Some s' \<Longrightarrow> ev_sequence e =
      (if source_log s (ev_session_id e) = [] then 0 else ev_sequence (last (source_log s (ev_session_id e)))) + 1"
    and append_log: "source_inv s \<Longrightarrow> append_event e s = Some s' \<Longrightarrow>
      \<exists>k \<le> length (source_log s (ev_session_id e)).
        source_log s' = (source_log s)(ev_session_id e := drop k (source_log s (ev_session_id e) @ [e]))"
    and replay_log: "source_inv s \<Longrightarrow> replay_after s sid k =
      (let es = source_log s sid; f = ev_sequence (hd es) in
       if es \<noteq> [] \<and> f - 1 \<le> k \<and> k \<le> f + int (length es) - 1 then Some (drop (nat (k - f + 1)) es) else None)"
begin

lemma retains_append:
  assumes "source_inv s" and "append_event e s = Some s'"
    and "history (ev_session_id e) hist" and "retains hist (source_log s (ev_session_id e))"
  shows "history (ev_session_id e) (hist @ [e])" and "retains (hist @ [e]) (source_log s' (ev_session_id e))"
    and "sid \<noteq> ev_session_id e \<Longrightarrow> source_log s' sid = source_log s sid"
proof -
  let ?log = "source_log s (ev_session_id e)"
  obtain k where k: "k \<le> length ?log" "source_log s' = (source_log s)(ev_session_id e := drop k (?log @ [e]))"
    using append_log assms by blast
  then show "retains (hist @ [e]) (source_log s' (ev_session_id e))"
    using assms(4) by (auto simp: retains_def suffix_def) (metis append_assoc append_take_drop_id)
  show "sid \<noteq> ev_session_id e \<Longrightarrow> source_log s' sid = source_log s sid" using k by simp
  have "ev_sequence e = int (length hist) + 1"
  proof (cases "?log = []")
    case True
    then show ?thesis using append_sequence [OF assms(1,2)] assms(4) by (simp add: retains_def)
  next
    case False
    then have "last ?log = last hist" "hist \<noteq> []"
      using assms(4) by (auto simp: retains_def suffix_def)
    then show ?thesis
      using False append_sequence [OF assms(1,2)] history_nth [OF assms(3), of "length hist - 1"]
      by (simp add: last_conv_nth Suc_leI of_nat_diff)
  qed
  with assms(3) show "history (ev_session_id e) (hist @ [e])" by (simp add: history_snoc)
qed

lemma replay_history:
  assumes "source_inv s" and "history sid hist" and "retains hist (source_log s sid)"
    and "0 \<le> k"
  shows "replay_after s sid k =
    (if hist \<noteq> [] \<and> length hist - length (source_log s sid) \<le> nat k \<and> nat k \<le> length hist
     then Some (drop (nat k) hist) else None)"
proof (cases "source_log s sid = []")
  case True
  then show ?thesis using assms by (simp add: replay_log retains_def)
next
  case False
  note hd = retains_hd [OF assms(2,3) False]
  let ?gone = "length hist - length (source_log s sid)"
  have "drop (nat (k - int ?gone)) (source_log s sid) = drop (nat k) hist" if "?gone \<le> nat k"
  proof -
    have "drop (nat (k - int ?gone)) (drop ?gone hist) = drop (nat k) hist"
      using that assms(4) by (simp add: nat_diff_distrib)
    then show ?thesis by (simp only: hd(3) [symmetric])
  qed
  moreover have "hist \<noteq> []" using False assms(3) by (auto simp: retains_def)
  moreover have "nat (k - ev_sequence (hd (source_log s sid)) + 1) = nat (k - int ?gone)"
    using hd(1) by simp
  ultimately show ?thesis
    using False hd(1,2) assms(4) by (auto simp: replay_log [OF assms(1)] Let_def of_nat_diff simp del: nat_diff_distrib)
qed

end

subsection \<open>Replication\<close>

locale replication =
  sink: event_sink apply_event sink_log sink_inv +
  source: event_source append_event source_log replay_after source_inv
  for apply_event :: "HcpHarnessEventPayload \<Rightarrow> 't \<Rightarrow> 't"
    and sink_log :: "'t \<Rightarrow> string \<Rightarrow> HcpHarnessEventPayload list"
    and sink_inv :: "'t \<Rightarrow> bool"
    and append_event :: "HcpHarnessEventPayload \<Rightarrow> 's \<Rightarrow> 's option"
    and source_log :: "'s \<Rightarrow> string \<Rightarrow> HcpHarnessEventPayload list"
    and replay_after :: "'s \<Rightarrow> string \<Rightarrow> int \<Rightarrow> HcpHarnessEventPayload list option"
    and source_inv :: "'s \<Rightarrow> bool"
begin

text \<open>
  Delivering a replay after the sink's own position makes it hold the whole history, even when
  events of other sessions and repeated events of this one come along.
\<close>

lemma resume_sync:
  assumes "sink_inv t" and "source_inv s" and "history sid hist" and "retains hist (source_log s sid)"
    and "sink_log t sid = take n hist" and "n \<le> length hist"
    and "replay_after s sid (int n) = Some rs" and "subseq rs ds"
    and "\<forall>e \<in> set ds. ev_session_id e = sid \<longrightarrow> e \<in> set hist"
  shows "sink_log (fold apply_event ds t) sid = hist"
proof -
  have "rs = drop n hist"
    using assms(7) source.replay_history [OF assms(2-4), of "int n"] by (simp split: if_splits)
  then show ?thesis
    using sink.fold_history [OF assms(1,3,5,6,9)] assms(8) by auto
qed

lemma resume_available:
  assumes "source_inv s" and "history sid hist" and "retains hist (source_log s sid)" and "n \<le> length hist"
  shows "replay_after s sid (int n) \<noteq> None \<longleftrightarrow> hist \<noteq> [] \<and> length hist \<le> n + length (source_log s sid)"
  using source.replay_history [OF assms(1-3), of "int n"] assms(4) by auto

end

end
