(* ===== verification/Session_Reducer.thy ===== *)
theory Session_Reducer
  imports Event_Interfaces
begin

text \<open>
  \<open>HcpSessionEventReducer\<close> (\<open>packages/hcp-protocol/src/session-reducer.ts\<close>), the control plane's
  projection of runtime events: live, replayed and snapshot events are reduced to one event map
  per session.  The state is the JavaScript map of maps; the abstract specification is a log, a
  list of events per session, which the reducer is shown to implement.
\<close>

subsection \<open>State and operations\<close>

type_synonym session_events = "(int \<times> HcpHarnessEventPayload) list"
type_synonym reducer = "(string \<times> session_events) list"

datatype HcpEventApplyResult =
    Ev_applied HcpHarnessEventPayload
  | Ev_duplicate HcpHarnessEventPayload
  | Ev_gap string int int
  | Ev_conflict string int HcpHarnessEventPayload HcpHarnessEventPayload

datatype HcpSnapshotApplyResult =
    Snap_applied_complete nat "tombstone list"
  | Snap_applied_partial nat nat "tombstone list"
  | Snap_gap string int int
  | Snap_conflict string int HcpHarnessEventPayload HcpHarnessEventPayload

text \<open>\<open>Math.max(...keys)\<close>; \<open>None\<close> is the \<open>-Infinity\<close> of no arguments.\<close>

definition js_max :: "int list \<Rightarrow> int option" where
  "js_max ks = (case ks of [] \<Rightarrow> None | k # rest \<Rightarrow> Some (foldl max k rest))"

definition session_map :: "reducer \<Rightarrow> string \<Rightarrow> session_events" where
  "session_map st sid = (case map_of st sid of None \<Rightarrow> [] | Some m \<Rightarrow> m)"

definition same_event ::
  "(string \<Rightarrow> string \<Rightarrow> bool) \<Rightarrow> HcpHarnessEventPayload \<Rightarrow> HcpHarnessEventPayload \<Rightarrow> bool" where
  "same_event le a b = (canonicalStringify le (event_json a) = canonicalStringify le (event_json b))"

definition applyEvent ::
  "(string \<Rightarrow> string \<Rightarrow> bool) \<Rightarrow> reducer \<Rightarrow> HcpHarnessEventPayload \<Rightarrow> HcpEventApplyResult \<times> reducer" where
  "applyEvent le st event =
     (let sessionEvents = session_map st (ev_session_id event) in
      case map_of sessionEvents (ev_sequence event) of
        Some existingEvent \<Rightarrow>
          ((if same_event le existingEvent event then Ev_duplicate existingEvent
            else Ev_conflict (ev_session_id event) (ev_sequence event) existingEvent event), st)
      | None \<Rightarrow>
          let expectedSequence = (case js_max (map fst sessionEvents) of None \<Rightarrow> 1 | Some k \<Rightarrow> k + 1) in
          if ev_sequence event \<noteq> expectedSequence
          then (Ev_gap (ev_session_id event) expectedSequence (ev_sequence event), st)
          else (Ev_applied event,
                AList.update (ev_session_id event)
                  (AList.update (ev_sequence event) event sessionEvents) st))"

fun apply_partial ::
  "(string \<Rightarrow> string \<Rightarrow> bool) \<Rightarrow> reducer \<Rightarrow> HcpHarnessEventPayload list \<Rightarrow> nat \<Rightarrow> nat \<Rightarrow> tombstone list
    \<Rightarrow> HcpSnapshotApplyResult \<times> reducer" where
  "apply_partial le st [] appliedEvents duplicateEvents tombs =
     (Snap_applied_partial appliedEvents duplicateEvents tombs, st)"
| "apply_partial le st (event # events) appliedEvents duplicateEvents tombs =
     (case applyEvent le st event of
        (Ev_gap sid expected received, st') \<Rightarrow> (Snap_gap sid expected received, st')
      | (Ev_conflict sid seq old new, st') \<Rightarrow> (Snap_conflict sid seq old new, st')
      | (Ev_applied _, st') \<Rightarrow> apply_partial le st' events (appliedEvents + 1) duplicateEvents tombs
      | (Ev_duplicate _, st') \<Rightarrow> apply_partial le st' events appliedEvents (duplicateEvents + 1) tombs)"

definition replacement :: "HcpHarnessEventPayload list \<Rightarrow> session_events" where
  "replacement events = foldl (\<lambda>m e. AList.update (ev_sequence e) e m) [] events"

definition applySnapshot ::
  "(string \<Rightarrow> string \<Rightarrow> bool) \<Rightarrow> reducer \<Rightarrow> HcpSessionSnapshotPayload \<Rightarrow> HcpSnapshotApplyResult \<times> reducer" where
  "applySnapshot le st s =
     (case snap_completeness s of
        Complete_replace \<Rightarrow>
          (Snap_applied_complete (length (snap_events s)) (snap_tombstones s),
           AList.update (snap_session_id s) (replacement (snap_events s)) st)
      | Partial_preserve _ \<Rightarrow> apply_partial le st (snap_events s) 0 0 (snap_tombstones s))"

definition resumeCursor :: "(string \<Rightarrow> string \<Rightarrow> bool) \<Rightarrow> reducer \<Rightarrow> (string \<times> int option) list option" where
  "resumeCursor le st =
     (let sessions = stable_sort (key_le le) (map (\<lambda>(sid, m). (sid, js_max (map fst m))) st)
      in if sessions = [] then None else Some sessions)"

definition event_le :: "(string \<Rightarrow> string \<Rightarrow> bool) \<Rightarrow> HcpHarnessEventPayload \<Rightarrow> HcpHarnessEventPayload \<Rightarrow> bool" where
  "event_le le l r =
     (if ev_session_id l = ev_session_id r then ev_sequence l \<le> ev_sequence r
      else le (ev_session_id l) (ev_session_id r))"

definition reducer_events :: "(string \<Rightarrow> string \<Rightarrow> bool) \<Rightarrow> reducer \<Rightarrow> HcpHarnessEventPayload list" where
  "reducer_events le st = stable_sort (event_le le) (concat (map (\<lambda>(sid, m). map snd m) st))"

subsection \<open>The invariant\<close>

definition wf_session :: "string \<Rightarrow> session_events \<Rightarrow> bool" where
  "wf_session sid m \<longleftrightarrow>
     counts_from 1 (map fst m) \<and> list_all (\<lambda>(k, e). ev_sequence e = k \<and> ev_session_id e = sid) m"

definition wf_reducer :: "reducer \<Rightarrow> bool" where
  "wf_reducer st \<longleftrightarrow>
     distinct (map fst st) \<and> list_all (\<lambda>(sid, m). m \<noteq> [] \<and> wf_session sid m) st"

lemma js_max_counts_from:
  "counts_from n ks \<Longrightarrow> js_max ks = (if ks = [] then None else Some (n + int (length ks) - 1))"
proof (induction ks rule: rev_induct)
  case (snoc k ks)
  then show ?case by (cases ks) (auto simp: js_max_def)
qed (simp add: js_max_def)

lemma wf_session_map: "wf_reducer st \<Longrightarrow> wf_session sid (session_map st sid)"
  by (auto simp: wf_reducer_def session_map_def wf_session_def list_all_iff split: option.splits
      dest!: map_of_SomeD)

lemma session_map_update [simp]:
  "session_map (AList.update sid m st) sid' = (if sid' = sid then m else session_map st sid')"
  by (simp add: session_map_def js_map)

lemma session_map_Nil [simp]: "session_map [] sid = []"
  by (simp add: session_map_def)

lemma wf_reducer_update:
  assumes "wf_reducer st" and "wf_session sid m" and "m \<noteq> []"
  shows "wf_reducer (AList.update sid m st)"
proof -
  have "distinct (map fst (AList.update sid m st))"
    using assms(1) by (intro AList.distinct_update) (simp add: wf_reducer_def)
  moreover have "set (AList.update sid m st) \<subseteq> insert (sid, m) (set st)"
    by (induction st) auto
  ultimately show ?thesis
    using assms by (auto simp: wf_reducer_def list_all_iff)
qed

lemma map_of_wf_session:
  assumes "wf_session sid m"
  shows "map_of m k = (if 1 \<le> k \<and> k \<le> int (length m) then Some (map snd m ! nat (k - 1)) else None)"
proof (cases "1 \<le> k \<and> k \<le> int (length m)")
  case True
  then have i: "nat (k - 1) < length m" "1 + int (nat (k - 1)) = k" by auto
  have "fst (m ! nat (k - 1)) = k"
    using assms counts_from_nth [of 1 "map fst m" "nat (k - 1)"] i by (simp add: wf_session_def)
  moreover have "distinct (map fst m)"
    using assms by (auto simp: wf_session_def intro: counts_from_distinct)
  ultimately have "map_of m k = Some (snd (m ! nat (k - 1)))"
    using i(1) by (metis map_of_is_SomeI nth_mem prod.collapse)
  with True i(1) show ?thesis by simp
next
  case False
  have "k \<notin> fst ` set m"
    using assms counts_from_set [of 1 "map fst m"] False by (auto simp: wf_session_def)
  with False show ?thesis by (auto simp: map_of_eq_None_iff)
qed

lemma wf_session_snoc:
  assumes "wf_session sid m" and "ev_sequence e = int (length m) + 1" and "ev_session_id e = sid"
  shows "wf_session sid (m @ [(ev_sequence e, e)])"
  using assms by (simp add: wf_session_def)

subsection \<open>The abstract specification: an append-only log per session\<close>

definition log_of :: "reducer \<Rightarrow> string \<Rightarrow> HcpHarnessEventPayload list" where
  "log_of st sid = map snd (session_map st sid)"

definition log_apply ::
  "(string \<Rightarrow> string \<Rightarrow> bool) \<Rightarrow> (string \<Rightarrow> HcpHarnessEventPayload list) \<Rightarrow> HcpHarnessEventPayload
    \<Rightarrow> HcpEventApplyResult \<times> (string \<Rightarrow> HcpHarnessEventPayload list)" where
  "log_apply le logs e =
     (let sid = ev_session_id e; log = logs sid; n = int (length log); k = ev_sequence e in
      if 1 \<le> k \<and> k \<le> n then
        ((if same_event le (log ! nat (k - 1)) e then Ev_duplicate (log ! nat (k - 1))
          else Ev_conflict sid k (log ! nat (k - 1)) e), logs)
      else if k = n + 1 then (Ev_applied e, logs(sid := log @ [e]))
      else (Ev_gap sid (n + 1) k, logs))"

lemma expected_sequence:
  assumes "wf_session sid m"
  shows "(case js_max (map fst m) of None \<Rightarrow> 1 | Some k \<Rightarrow> k + 1) = int (length m) + 1"
  using js_max_counts_from [of 1 "map fst m"] assms by (simp add: wf_session_def)

lemma applyEvent_cases:
  fixes e :: HcpHarnessEventPayload
  assumes "wf_reducer st"
  defines "m \<equiv> session_map st (ev_session_id e)"
  shows "applyEvent le st e =
    (if 1 \<le> ev_sequence e \<and> ev_sequence e \<le> int (length m) then
       (let old = map snd m ! nat (ev_sequence e - 1) in
        ((if same_event le old e then Ev_duplicate old
          else Ev_conflict (ev_session_id e) (ev_sequence e) old e), st))
     else if ev_sequence e = int (length m) + 1 then
       (Ev_applied e, AList.update (ev_session_id e) (m @ [(ev_sequence e, e)]) st)
     else (Ev_gap (ev_session_id e) (int (length m) + 1) (ev_sequence e), st))"
proof -
  have wf: "wf_session (ev_session_id e) m"
    using assms wf_session_map by simp
  then have "map_of m (int (length m) + 1) = None"
    using map_of_wf_session by simp
  then show ?thesis
    using map_of_wf_session [OF wf] expected_sequence [OF wf]
    by (simp add: applyEvent_def m_def [symmetric] Let_def update_new)
qed

lemma applyEvent_wf:
  assumes "wf_reducer st"
  shows "wf_reducer (snd (applyEvent le st e))"
  using assms wf_session_snoc [OF wf_session_map [OF assms], of e "ev_session_id e"]
  by (auto simp: applyEvent_cases Let_def intro: wf_reducer_update)

lemma applyEvent_refines:
  assumes "wf_reducer st"
  shows "fst (applyEvent le st e) = fst (log_apply le (log_of st) e)"
    and "log_of (snd (applyEvent le st e)) = snd (log_apply le (log_of st) e)"
  using assms
  by (auto simp: applyEvent_cases log_apply_def Let_def log_of_def fun_eq_iff)

subsection \<open>Snapshots\<close>

lemma replacement_contiguous:
  assumes "counts_from 1 (map ev_sequence es)"
  shows "replacement es = map (\<lambda>e. (ev_sequence e, e)) es"
  using assms
proof (induction es rule: rev_induct)
  case (snoc e es)
  have "map_of (map (\<lambda>e. (ev_sequence e, e)) es) (ev_sequence e) = None"
    using counts_from_set [of 1 "map ev_sequence es"] snoc.prems
    by (auto simp: map_of_eq_None_iff image_image)
  with snoc show ?case by (simp add: replacement_def update_new)
qed (simp add: replacement_def)

lemma applySnapshot_complete_wf:
  assumes "wf_reducer st" and "snapshot_refinement s" and "snap_from_sequence s = 1"
    and "snap_completeness s = Complete_replace"
  shows "wf_reducer (snd (applySnapshot le st s))"
    and "log_of (snd (applySnapshot le st s)) = (log_of st)(snap_session_id s := snap_events s)"
proof -
  note sr = snapshot_refinementD [OF assms(2)]
  have m: "replacement (snap_events s) = map (\<lambda>e. (ev_sequence e, e)) (snap_events s)"
    using sr(1) assms(3) by (simp add: replacement_contiguous)
  have "wf_session (snap_session_id s) (replacement (snap_events s))"
    using sr assms(3) unfolding m by (auto simp: wf_session_def list_all_iff comp_def)
  then show "wf_reducer (snd (applySnapshot le st s))"
    using assms(1,4) sr(3) m by (simp add: applySnapshot_def wf_reducer_update)
  show "log_of (snd (applySnapshot le st s)) = (log_of st)(snap_session_id s := snap_events s)"
    using assms(4) m by (auto simp: applySnapshot_def log_of_def fun_eq_iff comp_def)
qed

lemma apply_partial_wf:
  "wf_reducer st \<Longrightarrow> wf_reducer (snd (apply_partial le st es a d ts))"
proof (induction es arbitrary: st a d)
  case (Cons e es)
  from Cons.prems have "wf_reducer (snd (applyEvent le st e))" by (rule applyEvent_wf)
  with Cons show ?case
    by (auto split: prod.splits HcpEventApplyResult.splits)
qed simp

text \<open>
  Once an event of a contiguous slice has been applied, every later one is the next expected one:
  the slice is then accepted to its end.
\<close>

lemma apply_partial_suffix:
  assumes "wf_reducer st" and "counts_from (int (length (log_of st sid)) + 1) (map ev_sequence es)"
    and "\<forall>e \<in> set es. ev_session_id e = sid"
  shows "fst (apply_partial le st es a d ts) = Snap_applied_partial (a + length es) d ts"
    and "log_of (snd (apply_partial le st es a d ts)) = (log_of st)(sid := log_of st sid @ es)"
  using assms
proof (induction es arbitrary: st a)
  case (Cons e es)
  {
    case 1
    then have step: "applyEvent le st e =
        (Ev_applied e, AList.update sid (session_map st sid @ [(ev_sequence e, e)]) st)"
      by (simp add: applyEvent_cases log_of_def)
    then have wf': "wf_reducer (snd (applyEvent le st e))" using 1 applyEvent_wf by metis
    show ?case
      using 1 step wf' Cons.IH(1) [of "snd (applyEvent le st e)" "Suc a"]
      by (simp add: log_of_def add.commute)
  next
    case 2
    then have step: "applyEvent le st e =
        (Ev_applied e, AList.update sid (session_map st sid @ [(ev_sequence e, e)]) st)"
      by (simp add: applyEvent_cases log_of_def)
    then have wf': "wf_reducer (snd (applyEvent le st e))" using 2 applyEvent_wf by metis
    show ?case
      using 2 step wf' Cons.IH(2) [of "snd (applyEvent le st e)" "Suc a"]
      by (auto simp: log_of_def add.commute fun_eq_iff)
  }
qed (auto simp: fun_eq_iff)

text \<open>A refused slice leaves the reducer as it was.\<close>

definition partial_accepted :: "HcpSnapshotApplyResult \<Rightarrow> bool" where
  "partial_accepted r = (case r of Snap_applied_partial _ _ _ \<Rightarrow> True | _ \<Rightarrow> False)"

lemma apply_partial_atomic:
  assumes "wf_reducer st" and "counts_from n (map ev_sequence es)" and "0 < n"
    and "\<forall>e \<in> set es. ev_session_id e = sid"
  shows "partial_accepted (fst (apply_partial le st es a d ts)) \<or> snd (apply_partial le st es a d ts) = st"
  using assms
proof (induction es arbitrary: n a d)
  case (Cons e es)
  let ?m = "session_map st sid"
  consider (old) "n \<le> int (length ?m)" | (new) "n = int (length ?m) + 1" | (gap) "int (length ?m) + 1 < n"
    by linarith
  then show ?case
  proof cases
    case old
    then show ?thesis
      using Cons.prems Cons.IH [of "n + 1" a "d + 1"]
      by (auto simp: applyEvent_cases Let_def)
  next
    case new
    then have "fst (apply_partial le st (e # es) a d ts) = Snap_applied_partial (a + length (e # es)) d ts"
      using Cons.prems by (intro apply_partial_suffix) (auto simp: log_of_def)
    then show ?thesis by (simp add: partial_accepted_def)
  next
    case gap
    then show ?thesis using Cons.prems by (simp add: applyEvent_cases)
  qed
qed (simp add: partial_accepted_def)

text \<open>What an accepted slice does: the part the log already has is skipped, the rest is appended.\<close>

lemma apply_partial_log:
  assumes "wf_reducer st" and "counts_from n (map ev_sequence es)" and "0 < n"
    and "\<forall>e \<in> set es. ev_session_id e = sid"
    and "partial_accepted (fst (apply_partial le st es a d ts))"
  shows "log_of (snd (apply_partial le st es a d ts)) =
    (log_of st)(sid := log_of st sid @ drop (length (log_of st sid) + 1 - nat n) es)"
  using assms
proof (induction es arbitrary: n a d)
  case (Cons e es)
  let ?m = "session_map st sid"
  consider (old) "n \<le> int (length ?m)" | (new) "n = int (length ?m) + 1" | (gap) "int (length ?m) + 1 < n"
    by linarith
  then show ?case
  proof cases
    case old
    then have step: "\<exists>old. applyEvent le st e = (Ev_duplicate old, st)"
      using Cons.prems by (auto simp: applyEvent_cases Let_def partial_accepted_def split: if_splits)
    moreover have "length ?m + 1 - nat n = Suc (length ?m + 1 - nat (n + 1))"
      using old Cons.prems(3) by linarith
    ultimately show ?thesis
      using Cons.prems Cons.IH [of "n + 1" a "d + 1"] by (auto simp: log_of_def)
  next
    case new
    then have "log_of (snd (apply_partial le st (e # es) a d ts)) = (log_of st)(sid := log_of st sid @ e # es)"
      using Cons.prems by (intro apply_partial_suffix) (auto simp: log_of_def)
    moreover have "length (log_of st sid) + 1 - nat n = 0"
      using new by (simp add: log_of_def)
    ultimately show ?thesis by simp
  next
    case gap
    then show ?thesis using Cons.prems by (simp add: applyEvent_cases partial_accepted_def)
  qed
qed (simp add: log_of_def fun_eq_iff)

subsection \<open>Deliveries\<close>

text \<open>
  A control plane's whole life with the reducer: any sequence of single events and of snapshots
  that passed their schema's refinement.
\<close>

datatype delivery = Deliver_event HcpHarnessEventPayload | Deliver_snapshot HcpSessionSnapshotPayload

definition snapshot_from_ok :: "HcpSessionSnapshotPayload \<Rightarrow> bool" where
  "snapshot_from_ok s = (case snap_completeness s of
     Complete_replace \<Rightarrow> snap_from_sequence s = 1 | Partial_preserve _ \<Rightarrow> 0 < snap_from_sequence s)"

inductive reducer_reachable :: "(string \<Rightarrow> string \<Rightarrow> bool) \<Rightarrow> reducer \<Rightarrow> bool" for le where
  rr_init: "reducer_reachable le []"
| rr_event: "reducer_reachable le st \<Longrightarrow> reducer_reachable le (snd (applyEvent le st e))"
| rr_snapshot: "reducer_reachable le st \<Longrightarrow> snapshot_refinement s \<Longrightarrow> snapshot_from_ok s
    \<Longrightarrow> reducer_reachable le (snd (applySnapshot le st s))"

lemma reducer_reachable_wf: "reducer_reachable le st \<Longrightarrow> wf_reducer st"
proof (induction rule: reducer_reachable.induct)
  case rr_init
  show ?case by (simp add: wf_reducer_def)
next
  case (rr_event st e)
  then show ?case by (simp add: applyEvent_wf)
next
  case (rr_snapshot st s)
  show ?case
  proof (cases "snap_completeness s")
    case Complete_replace
    with rr_snapshot show ?thesis
      by (intro applySnapshot_complete_wf(1)) (auto simp: snapshot_from_ok_def)
  next
    case (Partial_preserve r)
    with rr_snapshot show ?thesis by (simp add: applySnapshot_def apply_partial_wf)
  qed
qed

fun deliver :: "(string \<Rightarrow> string \<Rightarrow> bool) \<Rightarrow> reducer \<Rightarrow> HcpHarnessEventPayload list \<Rightarrow> reducer" where
  "deliver le st [] = st"
| "deliver le st (e # es) = deliver le (snd (applyEvent le st e)) es"

lemma deliver_fold: "deliver le st es = fold (\<lambda>e st. snd (applyEvent le st e)) es st"
  by (induction es arbitrary: st) simp_all

subsection \<open>The reducer is an event sink\<close>

interpretation reducer_sink: event_sink "\<lambda>e st. snd (applyEvent le st e)" log_of wf_reducer for le
proof
  fix st :: reducer and e :: HcpHarnessEventPayload and sid
  assume "wf_reducer st"
  then show "wf_reducer (snd (applyEvent le st e))"
    and "log_of (snd (applyEvent le st e)) sid =
      (if ev_session_id e = sid \<and> ev_sequence e = int (length (log_of st sid)) + 1
       then log_of st sid @ [e] else log_of st sid)"
    by (rule applyEvent_wf, simp add: applyEvent_refines log_apply_def Let_def)
qed

text \<open>A slice of the very history the log is a prefix of is never refused once it reaches the log.\<close>

lemma apply_partial_history:
  assumes "wf_reducer st" and "history sid hist" and "log_of st sid = take n hist" and "n \<le> length hist" and "m \<le> n"
  shows "partial_accepted (fst (apply_partial le st (drop m hist) a d ts))"
  using assms
proof (induction "n - m" arbitrary: m a d)
  case 0
  then have "m = n" "counts_from (int n + 1) (map ev_sequence (drop n hist))"
    using counts_from_drop [of 1 "map ev_sequence hist" n] by (simp_all add: history_def drop_map add.commute)
  with 0 have "fst (apply_partial le st (drop m hist) a d ts)
      = Snap_applied_partial (a + length (drop m hist)) d ts"
    by (intro apply_partial_suffix) (auto simp: history_def dest: in_set_dropD)
  then show ?case by (simp add: partial_accepted_def)
next
  case (Suc k)
  then have m: "m < length hist" "m < n" by auto
  then have e: "ev_session_id (hist ! m) = sid" "ev_sequence (hist ! m) = int m + 1"
    using Suc.prems(2) history_nth by (auto simp: history_def)
  have "log_of st sid ! m = hist ! m" using Suc.prems(3) m by simp
  moreover have "length (log_of st sid) = n" using Suc.prems(3,4) by simp
  ultimately have "applyEvent le st (hist ! m) = (Ev_duplicate (hist ! m), st)"
    using applyEvent_cases [OF Suc.prems(1), of le "hist ! m"] e m(2)
    by (simp add: log_of_def Let_def same_event_def)
  moreover have "partial_accepted (fst (apply_partial le st (drop (Suc m) hist) a (d + 1) ts))"
    using Suc.hyps(2) Suc.prems by (intro Suc.hyps(1)) auto
  ultimately show ?case using m(1) by (simp add: Cons_nth_drop_Suc [symmetric])
qed

lemma deliver_wf: "wf_reducer st \<Longrightarrow> wf_reducer (deliver le st es)"
  by (simp add: deliver_fold reducer_sink.fold_inv)

lemma cursor_lookup:
  assumes "wf_reducer st" and "log_of st sid \<noteq> []"
  shows "\<exists>sessions. resumeCursor le st = Some sessions
    \<and> (sid, Some (int (length (log_of st sid)))) \<in> set sessions"
proof -
  have "session_map st sid \<noteq> []" using assms(2) by (simp add: log_of_def)
  then have m: "(sid, session_map st sid) \<in> set st"
    by (auto simp: session_map_def split: option.splits dest: map_of_SomeD)
  moreover have "js_max (map fst (session_map st sid)) = Some (int (length (log_of st sid)))"
    using js_max_counts_from [of 1 "map fst (session_map st sid)"] wf_session_map [OF assms(1), of sid]
      \<open>session_map st sid \<noteq> []\<close> by (simp add: wf_session_def log_of_def)
  ultimately have e: "(sid, Some (int (length (log_of st sid)))) \<in> set (map (\<lambda>(sid, m). (sid, js_max (map fst m))) st)"
    by (auto intro!: image_eqI [of _ _ "(sid, session_map st sid)"])
  then have "stable_sort (key_le le) (map (\<lambda>(sid, m). (sid, js_max (map fst m))) st) \<noteq> []"
    by (metis empty_iff empty_set set_stable_sort)
  with e show ?thesis by (auto simp: resumeCursor_def Let_def)
qed

lemma cursor_sound:
  assumes "wf_reducer st" and "resumeCursor le st = Some sessions" and "(sid, k) \<in> set sessions"
  shows "log_of st sid \<noteq> []" and "k = Some (int (length (log_of st sid)))"
proof -
  obtain m where m: "(sid, m) \<in> set st" "k = js_max (map fst m)"
    using assms(2,3) by (auto simp: resumeCursor_def Let_def split: if_splits)
  then have "session_map st sid = m" "m \<noteq> []" "wf_session sid m"
    using assms(1) by (auto simp: session_map_def wf_reducer_def list_all_iff)
  then show "log_of st sid \<noteq> []" "k = Some (int (length (log_of st sid)))"
    using m(2) js_max_counts_from [of 1 "map fst m"] by (auto simp: log_of_def wf_session_def)
qed


subsection \<open>Properties\<close>

text \<open>C9: Refinement.  In every state a control plane can reach, applying an event does exactly what
  the append-only log of its session prescribes: the next sequence is appended, a known one is a
  duplicate or a conflict by the event's content, anything else is a gap reported with the sequence
  that was expected; only an append changes the state.\<close>

theorem reducer_refines_log:
  assumes "reducer_reachable le st"
  shows "fst (applyEvent le st e) = fst (log_apply le (log_of st) e)
    \<and> log_of (snd (applyEvent le st e)) = snd (log_apply le (log_of st) e)"
  using applyEvent_refines [OF reducer_reachable_wf [OF assms]] by blast

theorem reducer_refines_log_witness:
  "fst (applyEvent (\<lambda>a b. True) [] (sample_event ''s'' 2)) = Ev_gap ''s'' 1 2"
  using reducer_refines_log [OF rr_init, of "\<lambda>a b. True" "sample_event ''s'' 2"]
  by (simp add: log_apply_def log_of_def)

text \<open>C10: At-least-once delivery.  However the events of a session's history arrive, reordered,
  repeated or mixed with the events of other sessions, the reducer's log of that session is a prefix
  of the history, and it is the whole history as soon as the history has arrived in order as a
  subsequence of what was delivered.\<close>

theorem at_least_once_delivery:
  assumes "history sid hist" and "\<forall>e \<in> set ds. ev_session_id e = sid \<longrightarrow> e \<in> set hist"
  shows "prefix (log_of (deliver le [] ds) sid) hist
    \<and> (subseq hist ds \<longrightarrow> log_of (deliver le [] ds) sid = hist)"
proof -
  have "wf_reducer []" by (simp add: wf_reducer_def)
  moreover have "log_of [] sid = take 0 hist" by (simp add: log_of_def)
  ultimately obtain m where "log_of (deliver le [] ds) sid = take m hist"
    "subseq (drop 0 hist) ds \<longrightarrow> m = length hist"
    using reducer_sink.fold_history [of "[]" sid hist 0 ds le] assms by (auto simp: deliver_fold)
  then show ?thesis by (auto simp: take_is_prefix)
qed

theorem at_least_once_delivery_witness:
  "log_of (deliver (\<lambda>a b. True) []
     [sample_event ''s'' 1, sample_event ''s'' 1, sample_event ''u'' 7, sample_event ''s'' 2]) ''s''
   = [sample_event ''s'' 1, sample_event ''s'' 2]"
proof -
  have "history ''s'' [sample_event ''s'' 1, sample_event ''s'' 2]" by (simp add: history_def)
  from at_least_once_delivery [OF this, of
      "[sample_event ''s'' 1, sample_event ''s'' 1, sample_event ''u'' 7, sample_event ''s'' 2]" "\<lambda>a b. True"]
  show ?thesis by (simp add: subseq_Cons2_iff)
qed

text \<open>A partial snapshot is applied completely or not at all.  In a reachable state a partial
  snapshot that passed its schema's refinement either is accepted, and then exactly the part the log
  did not have yet is appended to it and no other session changes, or is refused and leaves the
  reducer as it was.\<close>

theorem partial_snapshot_all_or_nothing:
  assumes "reducer_reachable le st" and "snapshot_refinement s" and "0 < snap_from_sequence s"
    and "snap_completeness s = Partial_preserve reason"
  shows "(if partial_accepted (fst (applySnapshot le st s))
     then log_of (snd (applySnapshot le st s)) = (log_of st)(snap_session_id s :=
            log_of st (snap_session_id s)
            @ drop (length (log_of st (snap_session_id s)) + 1 - nat (snap_from_sequence s)) (snap_events s))
     else snd (applySnapshot le st s) = st)"
proof -
  note wf = reducer_reachable_wf [OF assms(1)]
  note sr = snapshot_refinementD [OF assms(2)]
  have ap: "applySnapshot le st s = apply_partial le st (snap_events s) 0 0 (snap_tombstones s)"
    using assms(4) by (simp add: applySnapshot_def)
  show ?thesis
    using apply_partial_atomic [OF wf sr(1) assms(3), of "snap_session_id s"]
      apply_partial_log [OF wf sr(1) assms(3), of "snap_session_id s"] sr(2)
    unfolding ap by (metis (full_types))
qed

theorem partial_snapshot_all_or_nothing_witness:
  "snd (applySnapshot (\<lambda>a b. True) [] (sample_snapshot [sample_event ''s'' 3] (Partial_preserve Retention_gap))) = []"
proof -
  let ?s = "sample_snapshot [sample_event ''s'' 3] (Partial_preserve Retention_gap)"
  have "snapshot_refinement ?s" "0 < snap_from_sequence ?s" "snap_completeness ?s = Partial_preserve Retention_gap"
    by (simp_all add: snapshot_refinement_def sample_snapshot_def)
  from partial_snapshot_all_or_nothing [OF rr_init this, of "\<lambda>a b. True"]
  show ?thesis
    by (simp add: applySnapshot_def sample_snapshot_def applyEvent_def Let_def js_max_def partial_accepted_def)
qed

text \<open>Resynchronisation.  A complete snapshot makes the reducer's log of its session exactly the
  snapshot's events, whatever it held before, and leaves every other session alone; the reducer stays
  well-formed, so later events continue from the snapshot's last sequence.\<close>

theorem complete_snapshot_resync:
  assumes "reducer_reachable le st" and "snapshot_refinement s" and "snap_from_sequence s = 1"
    and "snap_completeness s = Complete_replace" and "ev_session_id e = snap_session_id s"
  shows "log_of (snd (applySnapshot le st s)) = (log_of st)(snap_session_id s := snap_events s)
    \<and> (fst (applyEvent le (snd (applySnapshot le st s)) e) = Ev_applied e
         \<longleftrightarrow> ev_sequence e = snap_through_sequence s + 1)"
proof -
  note wf = reducer_reachable_wf [OF assms(1)]
  note snap = applySnapshot_complete_wf [OF wf assms(2-4)]
  have "snap_through_sequence s = int (length (snap_events s))"
    using assms(2,3) counts_from_last [of 1 "map ev_sequence (snap_events s)"]
    by (simp add: snapshot_refinement_def last_map)
  then show ?thesis
    using snap(2) assms(5) by (auto simp: applyEvent_refines [OF snap(1)] log_apply_def Let_def)
qed

theorem complete_snapshot_resync_witness:
  "log_of (snd (applySnapshot (\<lambda>a b. True) [] (sample_snapshot [sample_event ''s'' 1] Complete_replace))) ''s''
   = [sample_event ''s'' 1]"
proof -
  let ?s = "sample_snapshot [sample_event ''s'' 1] Complete_replace"
  have "snapshot_refinement ?s" "snap_from_sequence ?s = 1" "snap_completeness ?s = Complete_replace"
    "ev_session_id (sample_event ''s'' 2) = snap_session_id ?s"
    by (simp_all add: snapshot_refinement_def sample_snapshot_def)
  from complete_snapshot_resync [OF rr_init this, of "\<lambda>a b. True"]
  show ?thesis by (simp add: sample_snapshot_def)
qed

text \<open>Idempotence.  An event whose sequence the log already has is reported as a duplicate exactly
  when it is the same JSON value as the logged event up to the order of object keys, otherwise as a
  conflict that shows both; neither changes the state.\<close>

theorem duplicate_iff_same_json:
  assumes "reducer_reachable le st" and "1 \<le> ev_sequence e"
    and "ev_sequence e \<le> int (length (log_of st (ev_session_id e)))"
  shows "applyEvent le st e =
    (let old = log_of st (ev_session_id e) ! nat (ev_sequence e - 1) in
     ((if norm_json le (event_json old) = norm_json le (event_json e) then Ev_duplicate old
       else Ev_conflict (ev_session_id e) (ev_sequence e) old e), st))"
  using assms(2,3) applyEvent_cases [OF reducer_reachable_wf [OF assms(1)], of le e]
  by (simp add: log_of_def Let_def same_event_def canonicalStringify_eq_iff)

theorem duplicate_iff_same_json_witness:
  "let st = snd (applyEvent (\<lambda>a b. True) [] (sample_event ''s'' 1)) in
   applyEvent (\<lambda>a b. True) st (sample_event ''s'' 1) = (Ev_duplicate (sample_event ''s'' 1), st)"
proof -
  let ?st = "snd (applyEvent (\<lambda>a b. True) [] (sample_event ''s'' 1))"
  have st: "?st = [(''s'', [(1, sample_event ''s'' 1)])]"
    by (simp add: applyEvent_def js_max_def)
  have "reducer_reachable (\<lambda>a b. True) ?st" by (rule rr_event [OF rr_init])
  from duplicate_iff_same_json [OF this, of "sample_event ''s'' 1"]
  show ?thesis unfolding st by (simp add: log_of_def session_map_def Let_def)
qed

text \<open>The resume cursor names exactly the sessions the reducer has events of, each with the last
  sequence of its log, and there is none when the reducer is empty.\<close>

theorem resume_cursor_correct:
  assumes "reducer_reachable le st"
  shows "(case resumeCursor le st of None \<Rightarrow> \<forall>sid. log_of st sid = []
    | Some sessions \<Rightarrow> \<forall>sid k. (sid, k) \<in> set sessions \<longleftrightarrow>
        log_of st sid \<noteq> [] \<and> k = Some (int (length (log_of st sid))))"
proof -
  note wf = reducer_reachable_wf [OF assms]
  show ?thesis
  proof (cases "resumeCursor le st")
    case None
    then show ?thesis using cursor_lookup [OF wf, of _ le] by fastforce
  next
    case (Some sessions)
    then show ?thesis using cursor_sound [OF wf Some] cursor_lookup [OF wf, of _ le] by fastforce
  qed
qed

theorem resume_cursor_correct_witness:
  "let st = snd (applyEvent (\<lambda>a b. True) [] (sample_event ''s'' 1)) in
   \<exists>sessions. resumeCursor (\<lambda>a b. True) st = Some sessions \<and> (''s'', Some 1) \<in> set sessions"
proof -
  let ?st = "snd (applyEvent (\<lambda>a b. True) [] (sample_event ''s'' 1))"
  have st: "?st = [(''s'', [(1, sample_event ''s'' 1)])]"
    by (simp add: applyEvent_def js_max_def)
  have "reducer_reachable (\<lambda>a b. True) ?st" by (rule rr_event [OF rr_init])
  from resume_cursor_correct [OF this]
  show ?thesis unfolding st
    by (auto simp: log_of_def session_map_def resumeCursor_def js_max_def Let_def split: option.splits)
qed

end
