(* ===== verification/State_Store.thy ===== *)
theory State_Store
  imports Session_Reducer Local_Action_Contract
begin

text \<open>
  The runner's durable state (\<open>packages/hcp-runner/src/state/index.ts\<close>): the retained event log of
  every session, the settled command and local-action receipts, and their persistence.

  The store is the in-memory \<open>RunnerStateData\<close> together with the file it is persisted to.
  \<open>persist\<close> writes a temporary file and renames it, so a write either replaces the file's
  content or leaves it alone; whether it succeeds is the argument \<open>ok\<close> of every operation that
  persists.  A clock reading is the argument \<open>now\<close> in milliseconds, \<open>Date.parse\<close> the parameter
  \<open>date_parse\<close> (\<open>None\<close> is \<open>NaN\<close>).  The native-conversation, native-work and MCP-review records
  of the same file are not part of this theory.
\<close>

subsection \<open>Data\<close>

datatype PersistedCommandReceipt =
    Receipt_ack (cr_payloadHash: string) (cr_settledAt: string)
      (cr_snapshotPayload: "HcpSessionSnapshotPayload option") (cr_conversationPayload: "json option")
  | Receipt_nack (cr_payloadHash: string) (cr_settledAt: string) (cr_nackPayload: HcpCommandNackPayload)

datatype PersistedLocalActionReceipt =
    Receipt_response (lr_payloadHash: string) (lr_requestPayload: LocalActionRequestPayload)
      (lr_settledAt: string) (lr_response: LocalActionResponsePayload)
  | Receipt_error (lr_payloadHash: string) (lr_requestPayload: LocalActionRequestPayload)
      (lr_settledAt: string) (lr_error: LocalActionErrorPayload)

type_synonym event_log = "(string \<times> HcpHarnessEventPayload list) list"

record RunnerStateData =
  st_events :: event_log
  st_commandReceipts :: "(string \<times> PersistedCommandReceipt) list"
  st_localActionReceipts :: "(string \<times> PersistedLocalActionReceipt) list"
  st_exitedSessions :: "(string \<times> unit) list"

record RunnerStateStore =
  rs_data :: RunnerStateData
  rs_file :: "RunnerStateData option"
  rs_eventRetentionPerSession :: int
  rs_receiptRetentionMs :: int

definition emptyRunnerState :: RunnerStateData where
  "emptyRunnerState =
     \<lparr>st_events = [], st_commandReceipts = [], st_localActionReceipts = [], st_exitedSessions = []\<rparr>"

definition DEFAULT_RECEIPT_RETENTION_MS :: int where
  "DEFAULT_RECEIPT_RETENTION_MS = 24 * 60 * 60 * 1000"

definition DEFAULT_EVENT_RETENTION_PER_SESSION :: int where
  "DEFAULT_EVENT_RETENTION_PER_SESSION = 512"

definition persist_failed :: string where
  "persist_failed = ''persist failed''"

text \<open>\<open>persist\<close>: the file becomes the data, or the call throws and the file keeps its content.\<close>

definition persist :: "bool \<Rightarrow> RunnerStateStore \<Rightarrow> (string + unit) \<times> RunnerStateStore" where
  "persist ok s = (if ok then (Inr (), s\<lparr>rs_file := Some (rs_data s)\<rparr>) else (Inl persist_failed, s))"

subsection \<open>Receipts\<close>

definition receipt_expired :: "(string \<Rightarrow> int option) \<Rightarrow> int \<Rightarrow> string \<Rightarrow> bool" where
  "receipt_expired date_parse cutoff settledAt =
     (case date_parse settledAt of None \<Rightarrow> False | Some t \<Rightarrow> t < cutoff)"

definition prune_with :: "(string \<Rightarrow> int option) \<Rightarrow> int \<Rightarrow> ('r \<Rightarrow> string) \<Rightarrow> (string \<times> 'r) list \<Rightarrow> (string \<times> 'r) list" where
  "prune_with date_parse cutoff settled m =
     filter (\<lambda>(_, r). \<not> receipt_expired date_parse cutoff (settled r)) m"

definition pruneExpiredReceipts ::
  "(string \<Rightarrow> int option) \<Rightarrow> int \<Rightarrow> RunnerStateStore \<Rightarrow> bool \<times> RunnerStateStore" where
  "pruneExpiredReceipts date_parse now s =
     (let cutoff = now - rs_receiptRetentionMs s; d = rs_data s;
          commands = prune_with date_parse cutoff cr_settledAt (st_commandReceipts d);
          actions = prune_with date_parse cutoff lr_settledAt (st_localActionReceipts d) in
      (length commands \<noteq> length (st_commandReceipts d) \<or> length actions \<noteq> length (st_localActionReceipts d),
       s\<lparr>rs_data := d\<lparr>st_commandReceipts := commands, st_localActionReceipts := actions\<rparr>\<rparr>))"

definition prune_and_persist ::
  "(string \<Rightarrow> int option) \<Rightarrow> int \<Rightarrow> bool \<Rightarrow> RunnerStateStore \<Rightarrow> (string + unit) \<times> RunnerStateStore" where
  "prune_and_persist date_parse now ok s =
     (let (changed, s') = pruneExpiredReceipts date_parse now s in
      if changed then persist ok s' else (Inr (), s'))"

definition getCommandReceipt ::
  "(string \<Rightarrow> int option) \<Rightarrow> int \<Rightarrow> bool \<Rightarrow> string \<Rightarrow> RunnerStateStore
    \<Rightarrow> (string + PersistedCommandReceipt option) \<times> RunnerStateStore" where
  "getCommandReceipt date_parse now ok commandId s =
     (case prune_and_persist date_parse now ok s of
        (Inl e, s') \<Rightarrow> (Inl e, s')
      | (Inr _, s') \<Rightarrow> (Inr (map_of (st_commandReceipts (rs_data s')) commandId), s'))"

definition setCommandReceipt ::
  "(string \<Rightarrow> int option) \<Rightarrow> int \<Rightarrow> bool \<Rightarrow> string \<Rightarrow> PersistedCommandReceipt \<Rightarrow> RunnerStateStore
    \<Rightarrow> (string + unit) \<times> RunnerStateStore" where
  "setCommandReceipt date_parse now ok commandId receipt s =
     (let d = rs_data s;
          s1 = s\<lparr>rs_data := d\<lparr>st_commandReceipts := AList.update commandId receipt (st_commandReceipts d)\<rparr>\<rparr> in
      persist ok (snd (pruneExpiredReceipts date_parse now s1)))"

definition getLocalActionReceipt ::
  "(string \<Rightarrow> int option) \<Rightarrow> int \<Rightarrow> bool \<Rightarrow> string \<Rightarrow> RunnerStateStore
    \<Rightarrow> (string + PersistedLocalActionReceipt option) \<times> RunnerStateStore" where
  "getLocalActionReceipt date_parse now ok requestId s =
     (case prune_and_persist date_parse now ok s of
        (Inl e, s') \<Rightarrow> (Inl e, s')
      | (Inr _, s') \<Rightarrow> (Inr (map_of (st_localActionReceipts (rs_data s')) requestId), s'))"

definition setLocalActionReceipt ::
  "(string \<Rightarrow> int option) \<Rightarrow> int \<Rightarrow> bool \<Rightarrow> string \<Rightarrow> PersistedLocalActionReceipt \<Rightarrow> RunnerStateStore
    \<Rightarrow> (string + unit) \<times> RunnerStateStore" where
  "setLocalActionReceipt date_parse now ok requestId receipt s =
     (let d = rs_data s;
          s1 = s\<lparr>rs_data := d\<lparr>st_localActionReceipts := AList.update requestId receipt (st_localActionReceipts d)\<rparr>\<rparr> in
      persist ok (snd (pruneExpiredReceipts date_parse now s1)))"

subsection \<open>Opening a store\<close>

text \<open>
  The constructor: it marks the sessions whose retained events show an exit, checks its options and
  prunes.  The second argument of \<open>Inl\<close> is the error's message.
\<close>

definition mark_exits :: "event_log \<Rightarrow> (string \<times> unit) list \<Rightarrow> (string \<times> unit) list" where
  "mark_exits events exited =
     foldl (\<lambda>ex (sid, es). if list_ex (\<lambda>e. ev_event_type e = ''session.exited'') es
                           then AList.update sid () ex else ex) exited events"

definition BaseRunnerStateStore ::
  "(string \<Rightarrow> int option) \<Rightarrow> int \<Rightarrow> RunnerStateData \<Rightarrow> RunnerStateData option \<Rightarrow> int option \<Rightarrow> int option
    \<Rightarrow> string + RunnerStateStore" where
  "BaseRunnerStateStore date_parse now d file eventRetention receiptRetention =
     (let s = \<lparr>rs_data = d\<lparr>st_exitedSessions := mark_exits (st_events d) (st_exitedSessions d)\<rparr>,
               rs_file = file,
               rs_eventRetentionPerSession =
                 (case eventRetention of None \<Rightarrow> DEFAULT_EVENT_RETENTION_PER_SESSION | Some n \<Rightarrow> n),
               rs_receiptRetentionMs =
                 (case receiptRetention of None \<Rightarrow> DEFAULT_RECEIPT_RETENTION_MS | Some n \<Rightarrow> n)\<rparr> in
      if rs_eventRetentionPerSession s < 1
      then Inl ''eventRetentionPerSession must be a positive integer.''
      else if rs_receiptRetentionMs s \<le> 0 then Inl ''receiptRetentionMs must be positive.''
      else Inr (snd (pruneExpiredReceipts date_parse now s)))"

text \<open>What \<open>runnerStateDataSchema\<close> checks of the modelled fields when the file is read back.\<close>

definition persistedCommandReceiptSchema ::
  "(string \<Rightarrow> bool) \<Rightarrow> (string \<Rightarrow> json \<Rightarrow> bool) \<Rightarrow> (json \<Rightarrow> bool) \<Rightarrow> PersistedCommandReceipt \<Rightarrow> bool" where
  "persistedCommandReceiptSchema ts data_ok conv_ok r =
     (case r of
        Receipt_ack h t snap conv \<Rightarrow> h \<noteq> [] \<and> ts t \<and> opt_ok (hcpSessionSnapshotPayloadSchema ts data_ok) snap
          \<and> opt_ok conv_ok conv
      | Receipt_nack h t n \<Rightarrow> h \<noteq> [] \<and> ts t \<and> hcpCommandNackPayloadSchema ts n)"

definition persistedLocalActionReceiptSchema :: "(string \<Rightarrow> bool) \<Rightarrow> PersistedLocalActionReceipt \<Rightarrow> bool" where
  "persistedLocalActionReceiptSchema ts r =
     (lr_payloadHash r \<noteq> [] \<and> localActionRequestPayloadSchema ts (lr_requestPayload r) \<and> ts (lr_settledAt r)
      \<and> (case r of Receipt_response _ _ _ p \<Rightarrow> localActionResponsePayloadSchema ts p
         | Receipt_error _ _ _ p \<Rightarrow> localActionErrorPayloadSchema ts p))"

definition runnerStateDataSchema ::
  "(string \<Rightarrow> bool) \<Rightarrow> (string \<Rightarrow> json \<Rightarrow> bool) \<Rightarrow> (json \<Rightarrow> bool) \<Rightarrow> RunnerStateData \<Rightarrow> bool" where
  "runnerStateDataSchema ts data_ok conv_ok d =
     (list_all (\<lambda>(_, es). list_all (hcpHarnessEventPayloadSchema ts data_ok) es) (st_events d)
      \<and> list_all (\<lambda>(_, r). persistedCommandReceiptSchema ts data_ok conv_ok r) (st_commandReceipts d)
      \<and> list_all (\<lambda>(_, r). persistedLocalActionReceiptSchema ts r) (st_localActionReceipts d))"

definition readRunnerState ::
  "(string \<Rightarrow> bool) \<Rightarrow> (string \<Rightarrow> json \<Rightarrow> bool) \<Rightarrow> (json \<Rightarrow> bool) \<Rightarrow> RunnerStateData option \<Rightarrow> string + RunnerStateData" where
  "readRunnerState ts data_ok conv_ok file =
     (case file of None \<Rightarrow> Inr emptyRunnerState
      | Some d \<Rightarrow> if runnerStateDataSchema ts data_ok conv_ok d then Inr d else Inl ''ZodError'')"

definition JsonRunnerStateStore ::
  "(string \<Rightarrow> bool) \<Rightarrow> (string \<Rightarrow> json \<Rightarrow> bool) \<Rightarrow> (json \<Rightarrow> bool) \<Rightarrow> (string \<Rightarrow> int option) \<Rightarrow> int
    \<Rightarrow> RunnerStateData option \<Rightarrow> int option \<Rightarrow> int option \<Rightarrow> string + RunnerStateStore" where
  "JsonRunnerStateStore ts data_ok conv_ok date_parse now file eventRetention receiptRetention =
     bindR (readRunnerState ts data_ok conv_ok file)
       (\<lambda>d. BaseRunnerStateStore date_parse now d file eventRetention receiptRetention)"

subsection \<open>The event log\<close>

definition session_log :: "RunnerStateData \<Rightarrow> string \<Rightarrow> HcpHarnessEventPayload list" where
  "session_log d sid = (case map_of (st_events d) sid of None \<Rightarrow> [] | Some es \<Rightarrow> es)"

definition nextEventSequence :: "RunnerStateData \<Rightarrow> string \<Rightarrow> int" where
  "nextEventSequence d sid =
     (if session_log d sid = [] then 0 else ev_sequence (last (session_log d sid))) + 1"

text \<open>\<open>while (events.length > n) events.shift()\<close>\<close>

fun trim_to :: "int \<Rightarrow> 'a list \<Rightarrow> 'a list" where
  "trim_to n [] = []"
| "trim_to n (x # xs) = (if n < int (length (x # xs)) then trim_to n xs else x # xs)"

definition sequence_mismatch :: "int \<Rightarrow> string \<Rightarrow> int \<Rightarrow> string" where
  "sequence_mismatch got sid expected =
     ''Event sequence '' @ show_int got @ '' for session '' @ quoted sid
     @ '' does not match expected sequence '' @ show_int expected @ ''.''"

definition append_event_unpersisted ::
  "int \<Rightarrow> HcpHarnessEventPayload \<Rightarrow> RunnerStateData \<Rightarrow> string + RunnerStateData" where
  "append_event_unpersisted retention e d =
     (let sid = ev_session_id e; expectedSequence = nextEventSequence d sid in
      if ev_sequence e \<noteq> expectedSequence then Inl (sequence_mismatch (ev_sequence e) sid expectedSequence)
      else
        let d' = d\<lparr>st_events := AList.update sid (trim_to retention (session_log d sid @ [e])) (st_events d)\<rparr> in
        Inr (if ev_event_type e = ''session.exited''
             then d'\<lparr>st_exitedSessions := AList.update sid () (st_exitedSessions d')\<rparr> else d'))"

definition restore :: "string \<Rightarrow> 'v option \<Rightarrow> (string \<times> 'v) list \<Rightarrow> (string \<times> 'v) list" where
  "restore k previous m = (case previous of None \<Rightarrow> AList.delete k m | Some v \<Rightarrow> AList.update k v m)"

definition appendEvent ::
  "bool \<Rightarrow> HcpHarnessEventPayload \<Rightarrow> RunnerStateStore \<Rightarrow> (string + unit) \<times> RunnerStateStore" where
  "appendEvent ok e s =
     (let sid = ev_session_id e; d = rs_data s;
          previous = map_of (st_events d) sid; exited = map_of (st_exitedSessions d) sid;
          (r, s') = (case append_event_unpersisted (rs_eventRetentionPerSession s) e d of
                       Inl err \<Rightarrow> (Inl err, s)
                     | Inr d' \<Rightarrow> persist ok (s\<lparr>rs_data := d'\<rparr>)) in
      case r of
        Inr _ \<Rightarrow> (Inr (), s')
      | Inl err \<Rightarrow>
          (Inl err, s'\<lparr>rs_data := (rs_data s')
             \<lparr>st_events := restore sid previous (st_events (rs_data s')),
              st_exitedSessions := restore sid exited (st_exitedSessions (rs_data s'))\<rparr>\<rparr>))"

definition hasSessionEvents :: "RunnerStateData \<Rightarrow> string \<Rightarrow> bool" where
  "hasSessionEvents d sid = (0 < length (session_log d sid))"

definition hasSessionExit :: "RunnerStateData \<Rightarrow> string \<Rightarrow> bool" where
  "hasSessionExit d sid = (map_of (st_exitedSessions d) sid = Some ())"

definition range_of :: "string \<times> HcpHarnessEventPayload list \<Rightarrow> session_range option" where
  "range_of x =
     (case x of (sid, es) \<Rightarrow>
        if es = [] then None
        else Some \<lparr>rng_session_id = sid, rng_first_event_sequence = ev_sequence (hd es),
                   rng_last_event_sequence = ev_sequence (last es)\<rparr>)"

definition retainedEventRanges ::
  "(string \<Rightarrow> string \<Rightarrow> bool) \<Rightarrow> RunnerStateData \<Rightarrow> HostRetainedEventRanges option" where
  "retainedEventRanges le d =
     (let sessions = stable_sort (\<lambda>a b. le (rng_session_id a) (rng_session_id b))
                       (List.map_filter range_of (st_events d))
      in if sessions \<noteq> [] then Some \<lparr>retained_sessions = sessions\<rparr> else None)"

definition replayEventsAfter :: "RunnerStateData \<Rightarrow> string \<Rightarrow> int \<Rightarrow> HcpHarnessEventPayload list option" where
  "replayEventsAfter d sid lastEventSequence =
     (let events = session_log d sid in
      if events = [] \<or> lastEventSequence < ev_sequence (hd events) - 1
         \<or> ev_sequence (last events) < lastEventSequence
      then None
      else Some (filter (\<lambda>e. lastEventSequence < ev_sequence e) events))"

text \<open>The snapshot loop; \<open>encoded_size\<close> is the UTF-8 length of the payload's JSON text.\<close>

definition snapshot_of ::
  "string \<Rightarrow> string \<Rightarrow> string \<Rightarrow> bool \<Rightarrow> nat \<Rightarrow> HcpHarnessEventPayload list \<Rightarrow> HcpSessionSnapshotPayload" where
  "snapshot_of commandId sid generatedAt retainedStartsAtOne retained selected =
     (let complete = (retainedStartsAtOne \<and> length selected = retained) in
      \<lparr>snap_command_id = commandId, snap_session_id = sid, snap_generated_at = generatedAt,
       snap_from_sequence = (if complete then 1 else ev_sequence (hd selected)),
       snap_through_sequence = ev_sequence (last selected),
       snap_events = selected, snap_tombstones = [],
       snap_completeness =
         (if complete then Complete_replace
          else Partial_preserve (if retainedStartsAtOne then Size_limit else Retention_gap))\<rparr>)"

fun snapshot_loop ::
  "(HcpSessionSnapshotPayload \<Rightarrow> nat) \<Rightarrow> (HcpHarnessEventPayload list \<Rightarrow> HcpSessionSnapshotPayload)
    \<Rightarrow> HcpHarnessEventPayload list \<Rightarrow> HcpSessionSnapshotPayload option" where
  "snapshot_loop encoded_size snap [] = None"
| "snapshot_loop encoded_size snap (e # es) =
     (if encoded_size (snap (e # es)) \<le> HCP_PAYLOAD_MAX_ENCODED_BYTES then Some (snap (e # es))
      else snapshot_loop encoded_size snap es)"

definition sessionSnapshot ::
  "(HcpSessionSnapshotPayload \<Rightarrow> nat) \<Rightarrow> string \<Rightarrow> RunnerStateData \<Rightarrow> string \<Rightarrow> string
    \<Rightarrow> HcpSessionSnapshotPayload option" where
  "sessionSnapshot encoded_size generatedAt d commandId sid =
     (let events = session_log d sid in
      if events = [] then None
      else snapshot_loop encoded_size
             (snapshot_of commandId sid generatedAt (ev_sequence (hd events) = 1) (length events)) events)"


subsection \<open>Appending is atomic\<close>

lemma restore_same: "restore k (map_of m k) m = m"
proof (cases "map_of m k")
  case None
  then show ?thesis by (simp add: restore_def delete_absent)
next
  case (Some v)
  then show ?thesis by (simp add: restore_def update_same [OF Some])
qed

lemma restore_update: "restore k (map_of m k) (AList.update k w m) = m"
  by (simp add: restore_def delete_update_new update_same split: option.split)

lemma trim_to_drop: "0 \<le> n \<Longrightarrow> trim_to n xs = drop (length xs - nat n) xs"
proof (induction xs)
  case (Cons x xs)
  show ?case
  proof (cases "n < int (length (x # xs))")
    case True
    then have "length (x # xs) - nat n = Suc (length xs - nat n)" using Cons.prems by auto
    with Cons True show ?thesis by simp
  next
    case False
    then have "length (x # xs) - nat n = 0" by auto
    with False show ?thesis by simp
  qed
qed simp

lemma append_event_unpersisted_Inr:
  assumes "append_event_unpersisted retention e d = Inr d'"
  shows "ev_sequence e = nextEventSequence d (ev_session_id e)"
    and "session_log d' = (session_log d)
      (ev_session_id e := trim_to retention (session_log d (ev_session_id e) @ [e]))"
    and "st_events d' = AList.update (ev_session_id e)
      (trim_to retention (session_log d (ev_session_id e) @ [e])) (st_events d)"
    and "st_commandReceipts d' = st_commandReceipts d"
    and "st_localActionReceipts d' = st_localActionReceipts d"
    and "hasSessionExit d' sid \<longleftrightarrow>
      hasSessionExit d sid \<or> sid = ev_session_id e \<and> ev_event_type e = ''session.exited''"
    and "restore (ev_session_id e) (map_of (st_events d) (ev_session_id e)) (st_events d') = st_events d"
    and "restore (ev_session_id e) (map_of (st_exitedSessions d) (ev_session_id e)) (st_exitedSessions d')
      = st_exitedSessions d"
  using assms
  by (auto simp: append_event_unpersisted_def Let_def session_log_def js_map hasSessionExit_def restore_update
      restore_same fun_eq_iff split: if_splits)

text \<open>
  A call either succeeds, with the event in memory and in the file, or throws and leaves memory and
  file exactly as they were.
\<close>

lemma appendEvent_cases:
  obtains (appended) d' where "append_event_unpersisted (rs_eventRetentionPerSession s) e (rs_data s) = Inr d'"
      "ok" "appendEvent ok e s = (Inr (), s\<lparr>rs_data := d', rs_file := Some d'\<rparr>)"
  | (refused) err where "appendEvent ok e s = (Inl err, s)"
      "\<not> ok \<or> ev_sequence e \<noteq> nextEventSequence (rs_data s) (ev_session_id e)"
proof (cases "append_event_unpersisted (rs_eventRetentionPerSession s) e (rs_data s)")
  case (Inl err)
  then have "appendEvent ok e s = (Inl err, s)"
    by (simp add: appendEvent_def restore_same)
  moreover have "ev_sequence e \<noteq> nextEventSequence (rs_data s) (ev_session_id e)"
    using Inl by (auto simp: append_event_unpersisted_def Let_def split: if_splits)
  ultimately show ?thesis using refused by blast
next
  case (Inr d')
  note upd = append_event_unpersisted_Inr [OF Inr]
  show ?thesis
  proof (cases ok)
    case True
    with Inr show ?thesis
      by (intro appended [OF Inr]) (simp_all add: appendEvent_def persist_def Let_def)
  next
    case False
    have "d'\<lparr>st_events := st_events (rs_data s), st_exitedSessions := st_exitedSessions (rs_data s)\<rparr> = rs_data s"
      using upd(4,5) by simp
    with False Inr show ?thesis
      by (intro refused [of persist_failed]) (simp_all add: appendEvent_def persist_def Let_def upd(7,8))
  qed
qed

subsection \<open>The log invariant\<close>

definition wf_log :: "int \<Rightarrow> string \<Rightarrow> HcpHarnessEventPayload list \<Rightarrow> bool" where
  "wf_log retention sid es \<longleftrightarrow>
     es \<noteq> [] \<and> int (length es) \<le> retention \<and> 1 \<le> ev_sequence (hd es)
     \<and> counts_from (ev_sequence (hd es)) (map ev_sequence es) \<and> list_all (\<lambda>e. ev_session_id e = sid) es"

definition wf_data :: "int \<Rightarrow> RunnerStateData \<Rightarrow> bool" where
  "wf_data retention d \<longleftrightarrow>
     distinct (map fst (st_events d)) \<and> list_all (\<lambda>(sid, es). wf_log retention sid es) (st_events d)
     \<and> (\<forall>sid e. e \<in> set (session_log d sid) \<and> ev_event_type e = ''session.exited'' \<longrightarrow> hasSessionExit d sid)"

definition file_data :: "RunnerStateStore \<Rightarrow> RunnerStateData" where
  "file_data s = (case rs_file s of None \<Rightarrow> emptyRunnerState | Some d \<Rightarrow> d)"

text \<open>The file is never behind the memory in events and exits.\<close>

definition wf_store :: "RunnerStateStore \<Rightarrow> bool" where
  "wf_store s \<longleftrightarrow>
     1 \<le> rs_eventRetentionPerSession s \<and> 0 < rs_receiptRetentionMs s
     \<and> wf_data (rs_eventRetentionPerSession s) (rs_data s)
     \<and> wf_data (rs_eventRetentionPerSession s) (file_data s)
     \<and> session_log (file_data s) = session_log (rs_data s)
     \<and> hasSessionExit (file_data s) = hasSessionExit (rs_data s)"

lemma wf_data_log:
  assumes "wf_data retention d" and "session_log d sid \<noteq> []"
  shows "wf_log retention sid (session_log d sid)"
  using assms by (auto simp: wf_data_def session_log_def list_all_iff split: option.splits dest!: map_of_SomeD)

lemma wf_store_log:
  assumes "wf_store s" and "session_log (rs_data s) sid \<noteq> []"
  shows "wf_log (rs_eventRetentionPerSession s) sid (session_log (rs_data s) sid)"
  using assms by (simp add: wf_store_def wf_data_log)

lemma wf_data_empty: "wf_data retention emptyRunnerState"
  by (simp add: wf_data_def emptyRunnerState_def session_log_def)

lemma wf_log_last:
  "wf_log n sid es \<Longrightarrow> ev_sequence (last es) = ev_sequence (hd es) + int (length es) - 1"
  using counts_from_last [of "ev_sequence (hd es)" "map ev_sequence es"]
  by (simp add: wf_log_def last_map)

lemma nextEventSequence_wf:
  assumes "wf_log n sid (session_log d sid)"
  shows "nextEventSequence d sid = ev_sequence (hd (session_log d sid)) + int (length (session_log d sid))"
  using assms wf_log_last [OF assms] by (simp add: nextEventSequence_def wf_log_def)

lemma wf_log_trim:
  assumes "xs \<noteq> []" and "1 \<le> ev_sequence (hd xs)" and c: "counts_from (ev_sequence (hd xs)) (map ev_sequence xs)"
    and "list_all (\<lambda>e. ev_session_id e = sid) xs" and "1 \<le> retention"
  shows "wf_log retention sid (trim_to retention xs)"
proof -
  define k where "k = length xs - nat retention"
  have k: "k < length xs" "int (length (drop k xs)) \<le> retention" using assms(1,5) by (auto simp: k_def)
  have "ev_sequence (hd (drop k xs)) = ev_sequence (hd xs) + int k"
    using counts_from_nth [OF c, of k] k by (simp add: hd_drop_conv_nth)
  moreover have "counts_from (ev_sequence (hd xs) + int k) (map ev_sequence (drop k xs))"
    using counts_from_drop [OF c, of k] by (simp add: drop_map)
  moreover have "list_all (\<lambda>e. ev_session_id e = sid) (drop k xs)"
    using assms(4) by (auto simp: list_all_iff dest!: in_set_dropD)
  moreover have "trim_to retention xs = drop k xs"
    using assms(5) by (simp add: trim_to_drop k_def)
  ultimately show ?thesis
    using assms(2) k by (simp add: wf_log_def)
qed

lemma wf_log_append:
  assumes "es = [] \<and> ev_sequence e = 1 \<or> wf_log retention sid es \<and> ev_sequence e = ev_sequence (hd es) + int (length es)"
    and "1 \<le> retention" and "ev_session_id e = sid"
  shows "wf_log retention sid (trim_to retention (es @ [e]))"
  using assms by (intro wf_log_trim) (auto simp: wf_log_def)

lemma append_wf_data:
  assumes R: "1 \<le> retention" and wf: "wf_data retention d"
    and app: "append_event_unpersisted retention e d = Inr d'"
  shows "wf_data retention d'"
proof -
  let ?sid = "ev_session_id e"
  note upd = append_event_unpersisted_Inr [OF app]
  have log: "wf_log retention ?sid (trim_to retention (session_log d ?sid @ [e]))"
  proof (rule wf_log_append [OF _ R refl])
    show "session_log d ?sid = [] \<and> ev_sequence e = 1 \<or>
        wf_log retention ?sid (session_log d ?sid) \<and>
        ev_sequence e = ev_sequence (hd (session_log d ?sid)) + int (length (session_log d ?sid))"
      using wf_data_log [OF wf, of ?sid] nextEventSequence_wf [of retention ?sid d] upd(1)
      by (cases "session_log d ?sid = []") (simp_all add: nextEventSequence_def)
  qed
  have "set (trim_to retention (session_log d ?sid @ [e])) \<subseteq> insert e (set (session_log d ?sid))"
    using R by (auto simp: trim_to_drop dest: in_set_dropD)
  then have "\<forall>sid x. x \<in> set (session_log d' sid) \<and> ev_event_type x = ''session.exited'' \<longrightarrow> hasSessionExit d' sid"
    using wf upd(2,6) by (auto simp: wf_data_def)
  moreover have "list_all (\<lambda>(sid, es). wf_log retention sid es) (st_events d')"
    using wf log upd(3) by (auto simp: wf_data_def list_all_iff dest!: set_update_subset [THEN subsetD])
  ultimately show ?thesis
    using wf upd(3) by (simp add: wf_data_def AList.distinct_update)
qed

lemma appendEvent_wf_store:
  assumes "wf_store s"
  shows "wf_store (snd (appendEvent ok e s))"
proof (cases rule: appendEvent_cases [of s e ok])
  case (appended d')
  have "wf_data (rs_eventRetentionPerSession s) d'"
    using assms by (intro append_wf_data [OF _ _ appended(1)]) (simp_all add: wf_store_def)
  with assms appended(3) show ?thesis by (simp add: wf_store_def file_data_def)
next
  case (refused err)
  with assms show ?thesis by simp
qed

lemma prune_keeps:
  "st_events (rs_data (snd (pruneExpiredReceipts date_parse now s))) = st_events (rs_data s)"
  "st_exitedSessions (rs_data (snd (pruneExpiredReceipts date_parse now s))) = st_exitedSessions (rs_data s)"
  "rs_eventRetentionPerSession (snd (pruneExpiredReceipts date_parse now s)) = rs_eventRetentionPerSession s"
  "rs_receiptRetentionMs (snd (pruneExpiredReceipts date_parse now s)) = rs_receiptRetentionMs s"
  "rs_file (snd (pruneExpiredReceipts date_parse now s)) = rs_file s"
  by (simp_all add: pruneExpiredReceipts_def Let_def)

lemma persist_keeps [simp]:
  "rs_data (snd (persist ok s)) = rs_data s"
  "rs_eventRetentionPerSession (snd (persist ok s)) = rs_eventRetentionPerSession s"
  "rs_receiptRetentionMs (snd (persist ok s)) = rs_receiptRetentionMs s"
  by (simp_all add: persist_def)

text \<open>Operations that leave events and exits alone.\<close>

definition same_logs :: "RunnerStateData \<Rightarrow> RunnerStateData \<Rightarrow> bool" where
  "same_logs d d' \<longleftrightarrow> st_events d' = st_events d \<and> st_exitedSessions d' = st_exitedSessions d"

lemma wf_data_same_logs: "same_logs d d' \<Longrightarrow> wf_data n d' = wf_data n d"
  by (simp add: same_logs_def wf_data_def session_log_def hasSessionExit_def)

lemma wf_store_same_logs:
  assumes "wf_store s" and "same_logs (rs_data s) (rs_data s')"
    and "rs_file s' = rs_file s \<or> rs_file s' = Some (rs_data s')"
    and "rs_eventRetentionPerSession s' = rs_eventRetentionPerSession s"
    and "rs_receiptRetentionMs s' = rs_receiptRetentionMs s"
  shows "wf_store s'"
  using assms wf_data_same_logs [OF assms(2)]
  by (auto simp: wf_store_def file_data_def same_logs_def session_log_def [abs_def] hasSessionExit_def [abs_def])

lemma receipt_ops_keep:
  "same_logs (rs_data s) (rs_data (snd (setCommandReceipt dp now ok cid r s)))"
  "same_logs (rs_data s) (rs_data (snd (setLocalActionReceipt dp now ok rid lr s)))"
  "same_logs (rs_data s) (rs_data (snd (getCommandReceipt dp now ok cid s)))"
  "same_logs (rs_data s) (rs_data (snd (getLocalActionReceipt dp now ok rid s)))"
  by (auto simp: same_logs_def setCommandReceipt_def setLocalActionReceipt_def getCommandReceipt_def
      getLocalActionReceipt_def prune_and_persist_def prune_keeps Let_def persist_def pruneExpiredReceipts_def)

lemma receipt_ops_wf:
  assumes "wf_store s"
  shows "wf_store (snd (setCommandReceipt dp now ok cid r s))"
    and "wf_store (snd (setLocalActionReceipt dp now ok rid lr s))"
    and "wf_store (snd (getCommandReceipt dp now ok cid s))"
    and "wf_store (snd (getLocalActionReceipt dp now ok rid s))"
  by (rule wf_store_same_logs [OF assms], rule receipt_ops_keep;
      auto simp: setCommandReceipt_def setLocalActionReceipt_def getCommandReceipt_def
        getLocalActionReceipt_def prune_and_persist_def prune_keeps Let_def persist_def pruneExpiredReceipts_def)+

subsection \<open>Restarting\<close>

lemma mark_exits_lookup:
  "map_of (mark_exits evs ex) sid =
     (if \<exists>es. (sid, es) \<in> set evs \<and> list_ex (\<lambda>e. ev_event_type e = ''session.exited'') es
      then Some () else map_of ex sid)"
proof (induction evs arbitrary: ex)
  case (Cons x evs)
  then show ?case by (cases x) (auto simp: mark_exits_def js_map)
qed (simp add: mark_exits_def)

lemma open_keeps:
  assumes "BaseRunnerStateStore dp now d f er rr = Inr s" and "wf_data n d"
  shows "session_log (rs_data s) = session_log d" and "hasSessionExit (rs_data s) = hasSessionExit d"
    and "rs_file s = f" and "st_events (rs_data s) = st_events d"
proof -
  have "map_of (mark_exits (st_events d) (st_exitedSessions d)) sid = map_of (st_exitedSessions d) sid" for sid
  proof -
    have "hasSessionExit d sid"
      if "(sid, es) \<in> set (st_events d)" "list_ex (\<lambda>e. ev_event_type e = ''session.exited'') es" for es
    proof -
      have "session_log d sid = es"
        using that(1) assms(2) by (simp add: session_log_def wf_data_def)
      with that(2) assms(2) show ?thesis by (auto simp: wf_data_def list_ex_iff)
    qed
    then show ?thesis by (auto simp: mark_exits_lookup hasSessionExit_def)
  qed
  with assms(1) show "session_log (rs_data s) = session_log d" "hasSessionExit (rs_data s) = hasSessionExit d"
    "rs_file s = f" "st_events (rs_data s) = st_events d"
    by (auto simp: BaseRunnerStateStore_def Let_def pruneExpiredReceipts_def session_log_def [abs_def]
        hasSessionExit_def [abs_def] split: if_splits)
qed

lemma open_wf:
  assumes "BaseRunnerStateStore dp now d f er rr = Inr s" and "wf_data (rs_eventRetentionPerSession s) d"
    and "f = Some d \<or> f = None \<and> d = emptyRunnerState"
  shows "wf_store s"
proof -
  note keep = open_keeps [OF assms(1,2)]
  have "wf_data (rs_eventRetentionPerSession s) (rs_data s)"
    using assms(2) keep by (simp add: wf_data_def)
  moreover have "1 \<le> rs_eventRetentionPerSession s" "0 < rs_receiptRetentionMs s"
    using assms(1) by (auto simp: BaseRunnerStateStore_def Let_def pruneExpiredReceipts_def split: if_splits)
  ultimately show ?thesis
    using assms keep by (auto simp: wf_store_def file_data_def)
qed

text \<open>A restart of the process: the memory is lost and the store is opened from the file.\<close>

definition reopen ::
  "(string \<Rightarrow> bool) \<Rightarrow> (string \<Rightarrow> json \<Rightarrow> bool) \<Rightarrow> (json \<Rightarrow> bool) \<Rightarrow> (string \<Rightarrow> int option) \<Rightarrow> int
    \<Rightarrow> RunnerStateStore \<Rightarrow> string + RunnerStateStore" where
  "reopen ts data_ok conv_ok date_parse now s =
     JsonRunnerStateStore ts data_ok conv_ok date_parse now (rs_file s)
       (Some (rs_eventRetentionPerSession s)) (Some (rs_receiptRetentionMs s))"

lemma reopen_wf:
  assumes "wf_store s" and "reopen ts data_ok conv_ok dp now s = Inr s'"
  shows "wf_store s'" and "session_log (rs_data s') = session_log (rs_data s)"
    and "hasSessionExit (rs_data s') = hasSessionExit (rs_data s)"
proof -
  obtain d where d: "d = file_data s"
    and b: "BaseRunnerStateStore dp now d (rs_file s)
      (Some (rs_eventRetentionPerSession s)) (Some (rs_receiptRetentionMs s)) = Inr s'"
    using assms(2)
    by (auto simp: reopen_def JsonRunnerStateStore_def readRunnerState_def file_data_def result_simps
        split: option.splits if_splits)
  have R: "rs_eventRetentionPerSession s' = rs_eventRetentionPerSession s"
    using b by (auto simp: BaseRunnerStateStore_def Let_def pruneExpiredReceipts_def split: if_splits)
  have wf: "wf_data (rs_eventRetentionPerSession s') d" using assms(1) d R by (simp add: wf_store_def)
  show "wf_store s'"
    using open_wf [OF b wf] d by (auto simp: file_data_def split: option.splits)
  show "session_log (rs_data s') = session_log (rs_data s)" "hasSessionExit (rs_data s') = hasSessionExit (rs_data s)"
    using open_keeps [OF b wf] assms(1) d by (simp_all add: wf_store_def)
qed

subsection \<open>The life of a store\<close>

inductive store_step ::
  "(string \<Rightarrow> bool) \<Rightarrow> (string \<Rightarrow> json \<Rightarrow> bool) \<Rightarrow> (json \<Rightarrow> bool) \<Rightarrow> (string \<Rightarrow> int option)
    \<Rightarrow> RunnerStateStore \<Rightarrow> RunnerStateStore \<Rightarrow> bool" for ts data_ok conv_ok date_parse where
  step_append: "store_step ts data_ok conv_ok date_parse s (snd (appendEvent ok e s))"
| step_set_command: "store_step ts data_ok conv_ok date_parse s (snd (setCommandReceipt date_parse now ok cid r s))"
| step_get_command: "store_step ts data_ok conv_ok date_parse s (snd (getCommandReceipt date_parse now ok cid s))"
| step_set_local: "store_step ts data_ok conv_ok date_parse s (snd (setLocalActionReceipt date_parse now ok rid lr s))"
| step_get_local: "store_step ts data_ok conv_ok date_parse s (snd (getLocalActionReceipt date_parse now ok rid s))"
| step_reopen: "reopen ts data_ok conv_ok date_parse now s = Inr s' \<Longrightarrow> store_step ts data_ok conv_ok date_parse s s'"

inductive store_reachable ::
  "(string \<Rightarrow> bool) \<Rightarrow> (string \<Rightarrow> json \<Rightarrow> bool) \<Rightarrow> (json \<Rightarrow> bool) \<Rightarrow> (string \<Rightarrow> int option)
    \<Rightarrow> RunnerStateStore \<Rightarrow> bool" for ts data_ok conv_ok date_parse where
  reach_new: "BaseRunnerStateStore date_parse now emptyRunnerState None er rr = Inr s
    \<Longrightarrow> store_reachable ts data_ok conv_ok date_parse s"
| reach_step: "store_reachable ts data_ok conv_ok date_parse s \<Longrightarrow> store_step ts data_ok conv_ok date_parse s s'
    \<Longrightarrow> store_reachable ts data_ok conv_ok date_parse s'"

lemma store_step_wf: "store_step ts data_ok conv_ok dp s s' \<Longrightarrow> wf_store s \<Longrightarrow> wf_store s'"
  by (induction rule: store_step.induct) (auto simp: appendEvent_wf_store receipt_ops_wf intro: reopen_wf(1))

lemma store_reachable_wf: "store_reachable ts data_ok conv_ok dp s \<Longrightarrow> wf_store s"
proof (induction rule: store_reachable.induct)
  case (reach_new now er rr s)
  then show ?case by (intro open_wf [OF reach_new]) (simp_all add: wf_data_empty)
qed (rule store_step_wf)


subsection \<open>Replay\<close>

lemma filter_above:
  "counts_from f (map ev_sequence es) \<Longrightarrow> filter (\<lambda>e. k < ev_sequence e) es = drop (nat (k - f + 1)) es"
proof (induction es arbitrary: f)
  case (Cons e es)
  show ?case
  proof (cases "f \<le> k")
    case True
    then have "nat (k - f + 1) = Suc (nat (k - (f + 1) + 1))" by auto
    with Cons.prems Cons.IH [of "f + 1"] True show ?thesis by simp
  next
    case False
    moreover have "f < ev_sequence x" if "x \<in> set es" for x
    proof -
      have "ev_sequence x \<in> set (map ev_sequence es)" using that by simp
      then show ?thesis using Cons.prems counts_from_set [of "f + 1" "map ev_sequence es"] by simp
    qed
    then have "filter (\<lambda>e. k < ev_sequence e) es = es"
      using False by (force simp: filter_id_conv)
    ultimately show ?thesis using Cons.prems by simp
  qed
qed simp

lemma replayEventsAfter_wf:
  assumes "session_log d sid \<noteq> [] \<Longrightarrow> wf_log n sid (session_log d sid)"
  shows "replayEventsAfter d sid k =
    (let es = session_log d sid; f = ev_sequence (hd es) in
     if es \<noteq> [] \<and> f - 1 \<le> k \<and> k \<le> f + int (length es) - 1 then Some (drop (nat (k - f + 1)) es) else None)"
proof (cases "session_log d sid = []")
  case False
  then have wf: "wf_log n sid (session_log d sid)" using assms by simp
  then show ?thesis
    using False wf_log_last [OF wf] filter_above [of "ev_sequence (hd (session_log d sid))" "session_log d sid" k]
    by (auto simp: replayEventsAfter_def Let_def wf_log_def)
qed (simp add: replayEventsAfter_def)

subsection \<open>Snapshots\<close>

definition fits :: "(HcpSessionSnapshotPayload \<Rightarrow> nat) \<Rightarrow> HcpSessionSnapshotPayload \<Rightarrow> bool" where
  "fits encoded_size x = (encoded_size x \<le> HCP_PAYLOAD_MAX_ENCODED_BYTES)"

lemma snapshot_loop_Some:
  "snapshot_loop sz snap es = Some x \<longleftrightarrow>
     (\<exists>k < length es. x = snap (drop k es) \<and> fits sz x \<and> (\<forall>j < k. \<not> fits sz (snap (drop j es))))"
proof (induction es)
  case (Cons e es)
  have ex: "(\<exists>k < length (e # es). P k) \<longleftrightarrow> P 0 \<or> (\<exists>k < length es. P (Suc k))" for P
    by (auto simp: Ex_less_Suc2)
  show ?case
    using Cons by (simp only: ex) (auto simp: fits_def All_less_Suc2)
qed simp

lemma snapshot_loop_None:
  "snapshot_loop sz snap es = None \<longleftrightarrow> (\<forall>k < length es. \<not> fits sz (snap (drop k es)))"
  by (induction es) (auto simp: fits_def All_less_Suc2)

lemma snapshot_of_refinement:
  fixes es :: "HcpHarnessEventPayload list" and k :: nat and cid sid generated :: string
  assumes wf: "wf_log n sid es" and k: "k < length es"
  defines "x \<equiv> snapshot_of cid sid generated (ev_sequence (hd es) = 1) (length es) (drop k es)"
  shows "snapshot_refinement x" and "snapshot_from_ok x"
    and "snap_completeness x = Complete_replace \<longleftrightarrow> k = 0 \<and> ev_sequence (hd es) = 1"
    and "snap_from_sequence x = ev_sequence (hd es) + int k"
    and "0 < snap_through_sequence x"
proof -
  have c: "counts_from (ev_sequence (hd es)) (map ev_sequence es)" and p: "1 \<le> ev_sequence (hd es)"
    using wf by (simp_all add: wf_log_def)
  have hd: "ev_sequence (hd (drop k es)) = ev_sequence (hd es) + int k"
    using counts_from_nth [OF c, of k] k by (simp add: hd_drop_conv_nth)
  have cd: "counts_from (ev_sequence (hd es) + int k) (map ev_sequence (drop k es))"
    using counts_from_drop [OF c, of k] by (simp add: drop_map)
  have last: "ev_sequence (last (drop k es)) = ev_sequence (hd es) + int (length es) - 1"
    using wf_log_last [OF wf] k by simp
  show comp: "snap_completeness x = Complete_replace \<longleftrightarrow> k = 0 \<and> ev_sequence (hd es) = 1"
    using k by (auto simp: x_def snapshot_of_def Let_def)
  show first: "snap_from_sequence x = ev_sequence (hd es) + int k"
    using k hd by (auto simp: x_def snapshot_of_def Let_def)
  show "snapshot_from_ok x"
    using comp first p by (auto simp: snapshot_from_ok_def split: completeness.splits)
  have ses: "snap_session_id x = sid" "snap_events x = drop k es" "snap_through_sequence x = ev_sequence (last (drop k es))"
    by (simp_all add: x_def snapshot_of_def Let_def)
  show "snapshot_refinement x"
    using wf k first cd last
    by (auto simp: snapshot_refinement_def ses wf_log_def list_all_iff dest!: in_set_dropD)
  show "0 < snap_through_sequence x"
    using last ses p k by auto
qed

lemma sessionSnapshot_Some:
  assumes wf: "session_log d sid \<noteq> [] \<Longrightarrow> wf_log n sid (session_log d sid)"
    and "sessionSnapshot sz generated d cid sid = Some x"
  obtains k where "k < length (session_log d sid)"
    "x = snapshot_of cid sid generated (ev_sequence (hd (session_log d sid)) = 1) (length (session_log d sid))
           (drop k (session_log d sid))"
    "fits sz x" "snapshot_refinement x" "snapshot_from_ok x"
    "snap_events x = drop k (session_log d sid)" "snap_session_id x = sid"
proof -
  have ne: "session_log d sid \<noteq> []" using assms(2) by (auto simp: sessionSnapshot_def)
  then obtain k where k: "k < length (session_log d sid)"
    "x = snapshot_of cid sid generated (ev_sequence (hd (session_log d sid)) = 1) (length (session_log d sid))
           (drop k (session_log d sid))" "fits sz x"
    using assms(2) by (auto simp: sessionSnapshot_def Let_def snapshot_loop_Some)
  then show ?thesis
    using snapshot_of_refinement [OF wf [OF ne] k(1), of cid generated]
    by (intro that [of k]) (auto simp: snapshot_of_def Let_def)
qed

subsection \<open>How long a receipt lives\<close>

definition distinct_receipts :: "RunnerStateData \<Rightarrow> bool" where
  "distinct_receipts d \<longleftrightarrow>
     distinct (map fst (st_commandReceipts d)) \<and> distinct (map fst (st_localActionReceipts d))"

lemma map_of_prune_with:
  "distinct (map fst m) \<Longrightarrow> map_of (prune_with dp cutoff settled m) k =
     (case map_of m k of None \<Rightarrow> None | Some r \<Rightarrow> if receipt_expired dp cutoff (settled r) then None else Some r)"
  by (induction m) (auto simp: prune_with_def map_of_eq_None_iff split: option.splits)

lemma distinct_prune_with: "distinct (map fst m) \<Longrightarrow> distinct (map fst (prune_with dp cutoff settled m))"
  by (simp add: prune_with_def distinct_map_filter)

lemma command_receipt_after_set:
  assumes "distinct_receipts (rs_data s)"
    and "setCommandReceipt dp now ok cid r s = (res, s')"
  shows "distinct_receipts (rs_data s')"
    and "map_of (st_commandReceipts (rs_data s')) cid' =
      (case (if cid' = cid then Some r else map_of (st_commandReceipts (rs_data s)) cid') of
         None \<Rightarrow> None
       | Some x \<Rightarrow> if receipt_expired dp (now - rs_receiptRetentionMs s) (cr_settledAt x) then None else Some x)"
    and "rs_receiptRetentionMs s' = rs_receiptRetentionMs s"
    and "res = Inr () \<Longrightarrow> rs_file s' = Some (rs_data s')"
proof -
  have s': "s' = snd (setCommandReceipt dp now ok cid r s)" using assms(2) by simp
  have d: "distinct (map fst (AList.update cid r (st_commandReceipts (rs_data s))))"
    using assms(1) by (simp add: distinct_receipts_def AList.distinct_update)
  have cmds: "st_commandReceipts (rs_data s') =
      prune_with dp (now - rs_receiptRetentionMs s) cr_settledAt
        (AList.update cid r (st_commandReceipts (rs_data s)))"
    by (simp add: s' setCommandReceipt_def Let_def pruneExpiredReceipts_def)
  have locals: "st_localActionReceipts (rs_data s') =
      prune_with dp (now - rs_receiptRetentionMs s) lr_settledAt (st_localActionReceipts (rs_data s))"
    by (simp add: s' setCommandReceipt_def Let_def pruneExpiredReceipts_def)
  show "distinct_receipts (rs_data s')"
    using assms(1) d by (simp add: distinct_receipts_def cmds locals distinct_prune_with)
  show "map_of (st_commandReceipts (rs_data s')) cid' =
      (case (if cid' = cid then Some r else map_of (st_commandReceipts (rs_data s)) cid') of
         None \<Rightarrow> None
       | Some x \<Rightarrow> if receipt_expired dp (now - rs_receiptRetentionMs s) (cr_settledAt x) then None else Some x)"
    by (simp add: cmds map_of_prune_with [OF d] js_map)
  show "rs_receiptRetentionMs s' = rs_receiptRetentionMs s"
    by (simp add: s' setCommandReceipt_def Let_def prune_keeps)
  show "rs_file s' = Some (rs_data s')" if "res = Inr ()"
    using assms(2) that by (auto simp: setCommandReceipt_def Let_def persist_def split: if_splits)
qed

lemma command_receipt_get:
  assumes "distinct_receipts (rs_data s)" and "getCommandReceipt dp now ok cid s = (Inr found, s')"
  shows "found = (case map_of (st_commandReceipts (rs_data s)) cid of None \<Rightarrow> None
      | Some x \<Rightarrow> if receipt_expired dp (now - rs_receiptRetentionMs s) (cr_settledAt x) then None else Some x)"
  using assms
  by (auto simp: getCommandReceipt_def prune_and_persist_def pruneExpiredReceipts_def Let_def persist_def
      distinct_receipts_def map_of_prune_with split: if_splits)

lemma local_receipt_after_set:
  assumes "distinct_receipts (rs_data s)"
    and "setLocalActionReceipt dp now ok rid r s = (res, s')"
  shows "distinct_receipts (rs_data s')"
    and "map_of (st_localActionReceipts (rs_data s')) rid' =
      (case (if rid' = rid then Some r else map_of (st_localActionReceipts (rs_data s)) rid') of
         None \<Rightarrow> None
       | Some x \<Rightarrow> if receipt_expired dp (now - rs_receiptRetentionMs s) (lr_settledAt x) then None else Some x)"
proof -
  have s': "s' = snd (setLocalActionReceipt dp now ok rid r s)" using assms(2) by simp
  have d: "distinct (map fst (AList.update rid r (st_localActionReceipts (rs_data s))))"
    using assms(1) by (simp add: distinct_receipts_def AList.distinct_update)
  have acts: "st_localActionReceipts (rs_data s') =
      prune_with dp (now - rs_receiptRetentionMs s) lr_settledAt
        (AList.update rid r (st_localActionReceipts (rs_data s)))"
    by (simp add: s' setLocalActionReceipt_def Let_def pruneExpiredReceipts_def)
  have cmds: "st_commandReceipts (rs_data s') =
      prune_with dp (now - rs_receiptRetentionMs s) cr_settledAt (st_commandReceipts (rs_data s))"
    by (simp add: s' setLocalActionReceipt_def Let_def pruneExpiredReceipts_def)
  show "distinct_receipts (rs_data s')"
    using assms(1) d by (simp add: distinct_receipts_def cmds acts distinct_prune_with)
  show "map_of (st_localActionReceipts (rs_data s')) rid' =
      (case (if rid' = rid then Some r else map_of (st_localActionReceipts (rs_data s)) rid') of
         None \<Rightarrow> None
       | Some x \<Rightarrow> if receipt_expired dp (now - rs_receiptRetentionMs s) (lr_settledAt x) then None else Some x)"
    by (simp add: acts map_of_prune_with [OF d] js_map)
qed


subsection \<open>The store is an event source\<close>

definition append_succeeds :: "bool \<Rightarrow> HcpHarnessEventPayload \<Rightarrow> RunnerStateStore \<Rightarrow> RunnerStateStore option" where
  "append_succeeds ok e s = (case appendEvent ok e s of (Inl _, _) \<Rightarrow> None | (Inr _, s') \<Rightarrow> Some s')"

lemma append_succeeds_Some:
  assumes "append_succeeds ok e s = Some s'"
  obtains d' where "append_event_unpersisted (rs_eventRetentionPerSession s) e (rs_data s) = Inr d'"
    "ok" "s' = s\<lparr>rs_data := d', rs_file := Some d'\<rparr>" "appendEvent ok e s = (Inr (), s')"
  using assms by (cases rule: appendEvent_cases [of s e ok]) (auto simp: append_succeeds_def)

interpretation store_source: event_source "append_succeeds ok" "\<lambda>s. session_log (rs_data s)"
  "\<lambda>s. replayEventsAfter (rs_data s)" wf_store for ok
proof
  fix s s' :: RunnerStateStore and e
  assume wf: "wf_store s" and app: "append_succeeds ok e s = Some s'"
  from app obtain d' where d': "append_event_unpersisted (rs_eventRetentionPerSession s) e (rs_data s) = Inr d'"
    "s' = s\<lparr>rs_data := d', rs_file := Some d'\<rparr>" "appendEvent ok e s = (Inr (), s')"
    by (rule append_succeeds_Some)
  note upd = append_event_unpersisted_Inr [OF d'(1)]
  show "wf_store s'" using appendEvent_wf_store [OF wf, of ok e] d'(3) by simp
  show "ev_sequence e = (if session_log (rs_data s) (ev_session_id e) = [] then 0
      else ev_sequence (last (session_log (rs_data s) (ev_session_id e)))) + 1"
    using upd(1) by (simp add: nextEventSequence_def)
  show "\<exists>k \<le> length (session_log (rs_data s) (ev_session_id e)). session_log (rs_data s') =
      (session_log (rs_data s)) (ev_session_id e := drop k (session_log (rs_data s) (ev_session_id e) @ [e]))"
    using upd(2) d'(2) wf
    by (intro exI [of _ "Suc (length (session_log (rs_data s) (ev_session_id e))) - nat (rs_eventRetentionPerSession s)"])
       (auto simp: wf_store_def trim_to_drop)
next
  fix s :: RunnerStateStore and sid k
  assume "wf_store s"
  then show "replayEventsAfter (rs_data s) sid k =
      (let es = session_log (rs_data s) sid; f = ev_sequence (hd es) in
       if es \<noteq> [] \<and> f - 1 \<le> k \<and> k \<le> f + int (length es) - 1 then Some (drop (nat (k - f + 1)) es) else None)"
    by (intro replayEventsAfter_wf [of _ _ "rs_eventRetentionPerSession s"] wf_store_log)
qed


subsection \<open>Properties\<close>

definition sample_store :: RunnerStateStore where
  "sample_store = \<lparr>rs_data = emptyRunnerState, rs_file = None, rs_eventRetentionPerSession = 1,
     rs_receiptRetentionMs = 10\<rparr>"

lemma sample_store_open: "BaseRunnerStateStore dp now emptyRunnerState None (Some 1) (Some 10) = Inr sample_store"
  by (simp add: BaseRunnerStateStore_def sample_store_def emptyRunnerState_def mark_exits_def
      pruneExpiredReceipts_def prune_with_def)

definition sample_store2 :: RunnerStateStore where
  "sample_store2 = snd (appendEvent True (sample_event ''s'' 2)
     (snd (appendEvent True (sample_event ''s'' 1) sample_store)))"

lemma sample_store2_reachable: "store_reachable ts data_ok conv_ok dp sample_store2"
  unfolding sample_store2_def
  by (rule reach_step [OF reach_step [OF reach_new [OF sample_store_open]]]; rule step_append)

lemma sample_store2_log: "session_log (rs_data sample_store2) sid = (if sid = ''s'' then [sample_event ''s'' 2] else [])"
  by (simp add: sample_store2_def sample_store_def appendEvent_def append_event_unpersisted_def
      emptyRunnerState_def session_log_def nextEventSequence_def persist_def Let_def)

text \<open>C19: Invariant.  In every state the store can reach, through appends, receipt operations and
  restarts from the file, each retained log is a contiguous run of its own session's events, starts at
  a positive sequence, is no longer than the retention, and the next sequence continues it.\<close>

theorem retained_log_invariant:
  assumes "store_reachable ts data_ok conv_ok dp s" and "session_log (rs_data s) sid = log" and "log \<noteq> []"
  shows "counts_from (ev_sequence (hd log)) (map ev_sequence log) \<and> 1 \<le> ev_sequence (hd log)
    \<and> int (length log) \<le> rs_eventRetentionPerSession s \<and> list_all (\<lambda>e. ev_session_id e = sid) log
    \<and> nextEventSequence (rs_data s) sid = ev_sequence (hd log) + int (length log)"
  using wf_store_log [OF store_reachable_wf [OF assms(1)], of sid] assms(2,3)
    nextEventSequence_wf [of "rs_eventRetentionPerSession s" sid "rs_data s"]
  by (simp add: wf_log_def)

theorem retained_log_invariant_witness:
  "nextEventSequence (rs_data sample_store2) ''s'' = 3"
  using retained_log_invariant [OF sample_store2_reachable, of "''s''" "[sample_event ''s'' 2]"]
  by (simp add: sample_store2_log)

text \<open>Appending is atomic.  An event whose sequence is not the next one, or whose write fails, is
  refused with memory and file exactly as they were; otherwise the event ends its session's log, the
  oldest events beyond the retention are dropped, and the file holds the new state.\<close>

theorem append_event_atomic:
  "appendEvent ok e s =
    (let sid = ev_session_id e; d = rs_data s;
         d' = d\<lparr>st_events := AList.update sid
                  (trim_to (rs_eventRetentionPerSession s) (session_log d sid @ [e])) (st_events d),
                st_exitedSessions := (if ev_event_type e = ''session.exited''
                  then AList.update sid () (st_exitedSessions d) else st_exitedSessions d)\<rparr> in
     if ev_sequence e \<noteq> nextEventSequence d sid
     then (Inl (sequence_mismatch (ev_sequence e) sid (nextEventSequence d sid)), s)
     else if \<not> ok then (Inl persist_failed, s)
     else (Inr (), s\<lparr>rs_data := d', rs_file := Some d'\<rparr>))"
proof -
  have "restore (ev_session_id e) (map_of m (ev_session_id e)) m = m" for m :: "(string \<times> 'v) list"
    by (rule restore_same)
  moreover have "d\<lparr>st_events := x, st_exitedSessions := st_exitedSessions d\<rparr> = d\<lparr>st_events := x\<rparr>" for d x
    by simp
  ultimately show ?thesis
    by (simp add: appendEvent_def append_event_unpersisted_def persist_def Let_def restore_update restore_same)
qed

text \<open>Replay is exact.  In a reachable state a replay after a cursor returns all retained events
  above the cursor, in order, precisely when the cursor lies within the retained range or directly
  before it; a cursor outside is refused, so no event is ever skipped silently.\<close>

theorem replay_exact:
  assumes "store_reachable ts data_ok conv_ok dp s"
  shows "replayEventsAfter (rs_data s) sid k =
    (let log = session_log (rs_data s) sid; first = ev_sequence (hd log) in
     if log \<noteq> [] \<and> first - 1 \<le> k \<and> k \<le> first + int (length log) - 1
     then Some (drop (nat (k - first + 1)) log) else None)"
  by (rule store_source.replay_log [OF store_reachable_wf [OF assms]])

theorem replay_exact_witness:
  "replayEventsAfter (rs_data sample_store2) ''s'' 1 = Some [sample_event ''s'' 2]
   \<and> replayEventsAfter (rs_data sample_store2) ''s'' 0 = None"
  using replay_exact [OF sample_store2_reachable, of "''s''" 1]
    replay_exact [OF sample_store2_reachable, of "''s''" 0]
  by (simp add: sample_store2_log)

text \<open>C21: A snapshot the store builds satisfies the wire schema and the payload limit, is the longest
  suffix of the retained log that fits, and calls itself complete exactly when it holds every event
  since the session's first.\<close>

theorem session_snapshot_valid:
  assumes "store_reachable ts data_ok conv_ok dp s" and "sessionSnapshot encoded_size generated (rs_data s) cid sid = Some x"
    and "cid \<noteq> []" and "sid \<noteq> []" and "ts generated"
    and "list_all (hcpHarnessEventPayloadSchema ts data_ok) (session_log (rs_data s) sid)"
  shows "hcpSessionSnapshotPayloadSchema ts data_ok x \<and> encoded_size x \<le> HCP_PAYLOAD_MAX_ENCODED_BYTES
    \<and> (\<exists>k. snap_events x = drop k (session_log (rs_data s) sid)
        \<and> (\<forall>j < k. \<not> fits encoded_size (snapshot_of cid sid generated
              (ev_sequence (hd (session_log (rs_data s) sid)) = 1) (length (session_log (rs_data s) sid))
              (drop j (session_log (rs_data s) sid)))))
    \<and> (snap_completeness x = Complete_replace \<longleftrightarrow>
        snap_events x = session_log (rs_data s) sid \<and> nextEventSequence (rs_data s) sid
          = int (length (snap_events x)) + 1)"
proof -
  let ?log = "session_log (rs_data s) sid"
  have ne: "?log \<noteq> []" using assms(2) by (auto simp: sessionSnapshot_def)
  then have wf: "wf_log (rs_eventRetentionPerSession s) sid ?log"
    using wf_store_log [OF store_reachable_wf [OF assms(1)]] by blast
  obtain k where k: "k < length ?log" "fits encoded_size x" "\<forall>j < k. \<not> fits encoded_size (snapshot_of cid sid generated
      (ev_sequence (hd ?log) = 1) (length ?log) (drop j ?log))"
    and x: "x = snapshot_of cid sid generated (ev_sequence (hd ?log) = 1) (length ?log) (drop k ?log)"
    using assms(2) ne by (auto simp: sessionSnapshot_def Let_def snapshot_loop_Some)
  note ref = snapshot_of_refinement [OF wf k(1), of cid generated, folded x]
  have ev: "snap_events x = drop k ?log" "snap_command_id x = cid" "snap_session_id x = sid"
    "snap_generated_at x = generated" "snap_tombstones x = []"
    by (simp_all add: x snapshot_of_def Let_def)
  have next_seq: "nextEventSequence (rs_data s) sid = ev_sequence (hd ?log) + int (length ?log)"
    by (rule nextEventSequence_wf [OF wf])
  have "hcpSessionSnapshotPayloadSchema ts data_ok x"
    using ref(1,2,5) assms(3-6) k(1) ev
    by (auto simp: hcpSessionSnapshotPayloadSchema_def snapshot_from_ok_def nonEmptyStringSchema_def list_all_iff
        Suc_le_eq split: completeness.splits dest!: in_set_dropD)
  moreover have "drop k ?log = ?log \<longleftrightarrow> k = 0" using k(1) by (metis drop0 drop_eq_Nil diff_less length_drop
      length_greater_0_conv linorder_not_le nat_neq_iff ne neq0_conv)
  ultimately show ?thesis
    using k ref(3) ev next_seq by (auto simp: fits_def)
qed

theorem session_snapshot_valid_witness:
  "snap_completeness (the (sessionSnapshot (\<lambda>_. 0) ''t'' (rs_data sample_store2) ''c'' ''s''))
     = Partial_preserve Retention_gap
   \<and> hcpSessionSnapshotPayloadSchema (\<lambda>_. True) (\<lambda>_ _. True)
       (the (sessionSnapshot (\<lambda>_. 0) ''t'' (rs_data sample_store2) ''c'' ''s''))"
proof -
  have snap: "sessionSnapshot (\<lambda>_. 0) ''t'' (rs_data sample_store2) ''c'' ''s'' =
      Some (snapshot_of ''c'' ''s'' ''t'' False 1 [sample_event ''s'' 2])"
    by (simp add: sessionSnapshot_def sample_store2_log)
  have "list_all (hcpHarnessEventPayloadSchema (\<lambda>_. True) (\<lambda>_ _. True)) (session_log (rs_data sample_store2) ''s'')"
    by (simp add: sample_store2_log hcpHarnessEventPayloadSchema_def sample_event_def nonEmptyStringSchema_def
        isHcpEventType_def isKnownHcpEventType_def KNOWN_HCP_EVENT_TYPES_def startsWith_def)
  from session_snapshot_valid [OF sample_store2_reachable snap _ _ _ this]
  show ?thesis by (simp add: snap snapshot_of_def Let_def)
qed



text \<open>The deduplication window.  A command receipt that was stored, in memory or durably, is found
  again by a later lookup exactly until the lookup's clock has passed the settlement time by more than
  the retention; a receipt whose settlement time does not parse is never pruned.\<close>

theorem command_receipt_window:
  assumes "distinct_receipts (rs_data s)"
    and "setCommandReceipt dp now ok cid r s = (res, s')"
    and "getCommandReceipt dp now' ok' cid s' = (Inr found, s'')" and "now \<le> now'"
  shows "found = (case dp (cr_settledAt r) of
      None \<Rightarrow> Some r
    | Some t \<Rightarrow> if now' - rs_receiptRetentionMs s \<le> t then Some r else None)"
proof -
  note set = command_receipt_after_set [OF assms(1,2)]
  show ?thesis
    using command_receipt_get [OF set(1) assms(3)] set(2) [of cid] set(3) assms(4)
    by (auto simp: receipt_expired_def split: option.splits)
qed

theorem command_receipt_window_witness:
  "let r = Receipt_ack ''h'' ''t'' None None; dp = (\<lambda>_. Some 5) in
   fst (getCommandReceipt dp 15 True ''c'' (snd (setCommandReceipt dp 5 True ''c'' r sample_store))) = Inr (Some r)"
proof -
  let ?r = "Receipt_ack ''h'' ''t'' None None" and ?dp = "\<lambda>_ :: string. Some (5 :: int)"
  let ?s' = "snd (setCommandReceipt ?dp 5 True ''c'' ?r sample_store)"
  have d: "distinct_receipts (rs_data sample_store)"
    by (simp add: distinct_receipts_def sample_store_def emptyRunnerState_def)
  have set: "setCommandReceipt ?dp 5 True ''c'' ?r sample_store = (Inr (), ?s')"
    by (simp add: setCommandReceipt_def persist_def Let_def)
  obtain found s'' where get: "getCommandReceipt ?dp 15 True ''c'' ?s' = (Inr found, s'')"
    by (cases "getCommandReceipt ?dp 15 True ''c'' ?s'")
       (auto simp: getCommandReceipt_def prune_and_persist_def persist_def split: prod.splits sum.splits if_splits)
  from command_receipt_window [OF d set get] have "found = Some ?r"
    by (simp add: sample_store_def)
  with get show ?thesis by (simp add: Let_def)
qed


text \<open>
  \<open>appendEvent\<close> does not validate the event it writes, while opening validates every event it reads:
  once an event that violates the wire schema has been appended, the file cannot be opened again.
\<close>

lemma unvalidated_append_blocks_reopen:
  assumes "store_reachable ts data_ok conv_ok dp s" and "appendEvent ok e s = (Inr (), s')"
    and "\<not> hcpHarnessEventPayloadSchema ts data_ok e"
  shows "reopen ts data_ok conv_ok dp' now s' = Inl ''ZodError''"
proof -
  obtain d' where d': "append_event_unpersisted (rs_eventRetentionPerSession s) e (rs_data s) = Inr d'"
    "s' = s\<lparr>rs_data := d', rs_file := Some d'\<rparr>"
    using assms(2) by (cases rule: appendEvent_cases [of s e ok]) auto
  let ?R = "rs_eventRetentionPerSession s" and ?xs = "session_log (rs_data s) (ev_session_id e) @ [e]"
  have R: "1 \<le> ?R" using store_reachable_wf [OF assms(1)] by (simp add: wf_store_def)
  have "last (trim_to ?R xs) = last xs" if "xs \<noteq> []" for xs :: "HcpHarnessEventPayload list"
  proof -
    have "length xs - nat ?R < length xs" using that R by (cases xs) auto
    then show ?thesis using R by (simp add: trim_to_drop)
  qed
  moreover have "trim_to ?R xs \<noteq> []" if "xs \<noteq> []" for xs :: "HcpHarnessEventPayload list"
  proof -
    have "length xs - nat ?R < length xs" using that R by (cases xs) auto
    then show ?thesis using R by (simp add: trim_to_drop)
  qed
  ultimately have "last (trim_to ?R ?xs) = e" "trim_to ?R ?xs \<noteq> []" by simp_all
  then have "e \<in> set (trim_to ?R ?xs)" by (metis last_in_set)
  moreover have "(ev_session_id e, trim_to ?R ?xs) \<in> set (st_events d')"
    using append_event_unpersisted_Inr(3) [OF d'(1)] by (metis AList.update_Some_unfold map_of_SomeD map_of_update fun_upd_same)
  ultimately have "\<not> list_all (\<lambda>(_, es). list_all (hcpHarnessEventPayloadSchema ts data_ok) es) (st_events d')"
    using assms(3) by (auto simp: list_all_iff)
  then have "\<not> runnerStateDataSchema ts data_ok conv_ok d'"
    by (simp add: runnerStateDataSchema_def)
  then show ?thesis
    using d'(2) by (simp add: reopen_def JsonRunnerStateStore_def readRunnerState_def)
qed

end
