(* ===== verification/Event_Replication.thy ===== *)
theory Event_Replication
  imports State_Store
begin

text \<open>
  Replay between a runner and its control plane: \<open>replayEventsAfter\<close> and \<open>sessionSnapshot\<close> of
  \<open>HarnessSessionManager\<close> (\<open>packages/hcp-runner/src/harnesses/index.ts\<close>) over the state store on one
  side, the event reducer on the other.
\<close>

subsection \<open>The session manager's replay\<close>

record HarnessReplayResult =
  rep_events :: "HcpHarnessEventPayload list"
  rep_unavailable :: "HcpHostReplayUnavailablePayload list"

definition find_range :: "string \<Rightarrow> HostRetainedEventRanges \<Rightarrow> session_range option" where
  "find_range sid ranges = List.find (\<lambda>r. rng_session_id r = sid) (retained_sessions ranges)"

definition unavailable_of :: "HostRetainedEventRanges \<Rightarrow> session_cursor \<Rightarrow> HcpHostReplayUnavailablePayload" where
  "unavailable_of ranges c =
     (let retainedRange = find_range (cur_session_id c) ranges in
      \<lparr>ru_session_id = cur_session_id c, ru_requested_after_sequence = cur_last_event_sequence c,
       ru_reason = (if retainedRange \<noteq> None then Cursor_outside_retention else No_retained_events),
       ru_retained_range =
         map_option (\<lambda>r. (rng_first_event_sequence r, rng_last_event_sequence r)) retainedRange\<rparr>)"

fun replay_loop ::
  "RunnerStateData \<Rightarrow> HostRetainedEventRanges \<Rightarrow> session_cursor list \<Rightarrow> HarnessReplayResult \<Rightarrow> HarnessReplayResult" where
  "replay_loop d ranges [] acc = acc"
| "replay_loop d ranges (c # cs) acc =
     (case replayEventsAfter d (cur_session_id c) (cur_last_event_sequence c) of
        None \<Rightarrow> replay_loop d ranges cs
                  (acc\<lparr>rep_unavailable := rep_unavailable acc @ [unavailable_of ranges c]\<rparr>)
      | Some replayed \<Rightarrow> replay_loop d ranges cs (acc\<lparr>rep_events := rep_events acc @ replayed\<rparr>))"

definition harness_replayEventsAfter ::
  "(string \<Rightarrow> string \<Rightarrow> bool) \<Rightarrow> RunnerStateData \<Rightarrow> HostResumeCursor \<Rightarrow> HarnessReplayResult" where
  "harness_replayEventsAfter le d cursor =
     replay_loop d (case retainedEventRanges le d of None \<Rightarrow> \<lparr>retained_sessions = []\<rparr> | Some r \<Rightarrow> r)
       (resume_sessions cursor) \<lparr>rep_events = [], rep_unavailable = []\<rparr>"

datatype HarnessSessionError = HarnessSessionError (hse_code: string) (hse_message: string)

definition harness_sessionSnapshot ::
  "(HcpSessionSnapshotPayload \<Rightarrow> nat) \<Rightarrow> string \<Rightarrow> RunnerStateData \<Rightarrow> string \<Rightarrow> string
    \<Rightarrow> HarnessSessionError + HcpSessionSnapshotPayload" where
  "harness_sessionSnapshot encoded_size generatedAt d commandId sid =
     (case sessionSnapshot encoded_size generatedAt d commandId sid of
        None \<Rightarrow> Inl (HarnessSessionError ''session_snapshot_unavailable''
          (''Session '' @ quoted sid @ '' has no retained events from which to build a snapshot.''))
      | Some x \<Rightarrow> Inr x)"

subsection \<open>What a replay holds\<close>

lemma replay_loop_eq:
  "replay_loop d ranges cs acc =
     \<lparr>rep_events = rep_events acc @
        concat (List.map_filter (\<lambda>c. replayEventsAfter d (cur_session_id c) (cur_last_event_sequence c)) cs),
      rep_unavailable = rep_unavailable acc @
        map (unavailable_of ranges)
          (filter (\<lambda>c. replayEventsAfter d (cur_session_id c) (cur_last_event_sequence c) = None) cs)\<rparr>"
  by (induction cs arbitrary: acc) (simp_all add: List.map_filter_simps split: option.split)

lemma replay_events_of:
  assumes "replayEventsAfter d (cur_session_id c) (cur_last_event_sequence c) = Some rs"
    and "c \<in> set (resume_sessions cursor)"
  shows "subseq rs (rep_events (harness_replayEventsAfter le d cursor))"
proof -
  let ?f = "\<lambda>c. replayEventsAfter d (cur_session_id c) (cur_last_event_sequence c)"
  have "subseq rs (concat (List.map_filter ?f cs))" if "c \<in> set cs" for cs
    using that
  proof (induction cs)
    case (Cons a cs)
    show ?case
    proof (cases "a = c")
      case True
      then show ?thesis using assms(1) by (simp add: List.map_filter_simps prefix_imp_subseq)
    next
      case False
      then have "subseq rs (concat (List.map_filter ?f cs))" using Cons by simp
      then show ?thesis by (simp add: List.map_filter_simps list_emb_append2 split: option.split)
    qed
  qed simp
  with assms(2) show ?thesis by (simp add: harness_replayEventsAfter_def replay_loop_eq)
qed

lemma replay_events_retained:
  assumes "e \<in> set (rep_events (harness_replayEventsAfter le d cursor))"
  shows "\<exists>sid. e \<in> set (session_log d sid)"
proof -
  have mem: "\<exists>sid. e \<in> set (session_log d sid)" if "replayEventsAfter d sid k = Some rs" "e \<in> set rs" for sid k rs
    using that by (auto simp: replayEventsAfter_def Let_def split: if_splits)
  have "\<exists>(c :: session_cursor) rs. replayEventsAfter d (cur_session_id c) (cur_last_event_sequence c) = Some rs \<and> e \<in> set rs"
  proof -
    obtain c y where "c \<in> set (resume_sessions cursor)" "e \<in> set y"
      "replayEventsAfter d (cur_session_id c) (cur_last_event_sequence c) = Some y"
      using assms by (auto simp: harness_replayEventsAfter_def replay_loop_eq List.map_filter_def)
    then show ?thesis by blast
  qed
  then show ?thesis using mem by blast
qed

subsection \<open>The runner's store and the control plane's reducer\<close>

interpretation hcp: replication "\<lambda>e st. snd (applyEvent le st e)" log_of wf_reducer
  "append_succeeds ok" "\<lambda>s. session_log (rs_data s)" "\<lambda>s. replayEventsAfter (rs_data s)" wf_store
  for le ok ..

text \<open>The wire cursor a control plane sends: the reducer's entries that have a sequence.\<close>

definition wire_cursor :: "(string \<times> int option) list option \<Rightarrow> HostResumeCursor" where
  "wire_cursor sessions = \<lparr>resume_sessions = (case sessions of None \<Rightarrow> []
     | Some ss \<Rightarrow> List.map_filter (\<lambda>(sid, k). map_option
         (\<lambda>n. \<lparr>cur_session_id = sid, cur_last_event_sequence = n\<rparr>) k) ss)\<rparr>"

lemma wire_cursor_mem:
  assumes "wf_reducer st" and "log_of st sid \<noteq> []"
  shows "\<lparr>cur_session_id = sid, cur_last_event_sequence = int (length (log_of st sid))\<rparr>
    \<in> set (resume_sessions (wire_cursor (resumeCursor le st)))"
proof -
  obtain ss where "resumeCursor le st = Some ss" "(sid, Some (int (length (log_of st sid)))) \<in> set ss"
    using cursor_lookup [OF assms] by blast
  then show ?thesis
    by (force simp: wire_cursor_def List.map_filter_def image_iff)
qed

text \<open>All the histories of a runner's life: what each session's retained log ends.\<close>

definition retains_all :: "(string \<Rightarrow> HcpHarnessEventPayload list) \<Rightarrow> RunnerStateStore \<Rightarrow> bool" where
  "retains_all hist s \<longleftrightarrow> (\<forall>sid. history sid (hist sid) \<and> retains (hist sid) (session_log (rs_data s) sid))"

inductive recorded :: "(string \<Rightarrow> HcpHarnessEventPayload list) \<Rightarrow> RunnerStateStore \<Rightarrow> bool" where
  rec_new: "BaseRunnerStateStore date_parse now emptyRunnerState None er rr = Inr s \<Longrightarrow> recorded (\<lambda>_. []) s"
| rec_append: "recorded hist s \<Longrightarrow> appendEvent ok e s = (Inr (), s')
    \<Longrightarrow> recorded (hist(ev_session_id e := hist (ev_session_id e) @ [e])) s'"
| rec_refused: "recorded hist s \<Longrightarrow> appendEvent ok e s = (Inl err, s') \<Longrightarrow> recorded hist s'"
| rec_receipt: "recorded hist s \<Longrightarrow> s' \<in> {snd (setCommandReceipt dp now ok cid r s),
      snd (getCommandReceipt dp now ok cid s), snd (setLocalActionReceipt dp now ok rid lr s),
      snd (getLocalActionReceipt dp now ok rid s)} \<Longrightarrow> recorded hist s'"
| rec_reopen: "recorded hist s \<Longrightarrow> reopen ts data_ok conv_ok dp now s = Inr s' \<Longrightarrow> recorded hist s'"

lemma recorded_retains: "recorded hist s \<Longrightarrow> wf_store s \<and> retains_all hist s"
proof (induction rule: recorded.induct)
  case (rec_new date_parse now er rr s)
  have "session_log (rs_data s) sid = []" for sid
    using open_keeps(1) [OF rec_new wf_data_empty] by (simp add: emptyRunnerState_def session_log_def)
  moreover have "wf_store s"
    by (rule open_wf [OF rec_new]) (simp_all add: wf_data_empty)
  ultimately show ?case by (simp add: retains_all_def history_def retains_def)
next
  case (rec_append hist s ok e s')
  then have app: "append_succeeds ok e s = Some s'" by (simp add: append_succeeds_def)
  have "history (ev_session_id e) (hist (ev_session_id e))"
    "retains (hist (ev_session_id e)) (session_log (rs_data s) (ev_session_id e))"
    using rec_append.IH by (simp_all add: retains_all_def)
  note upd = store_source.retains_append [OF _ app this]
  show ?case
    using rec_append.IH upd appendEvent_wf_store [of s ok e] rec_append.hyps(2) by (simp add: retains_all_def)
next
  case (rec_refused hist s ok e err s')
  then have "s' = s" by (cases rule: appendEvent_cases [of s e ok]) auto
  with rec_refused.IH show ?case by simp
next
  case (rec_receipt hist s s' dp now ok cid r rid lr)
  then have "same_logs (rs_data s) (rs_data s')" using receipt_ops_keep by auto
  then have "session_log (rs_data s') = session_log (rs_data s)"
    by (simp add: same_logs_def session_log_def fun_eq_iff)
  moreover have "wf_store s'" using rec_receipt receipt_ops_wf by auto
  ultimately show ?case using rec_receipt.IH by (simp add: retains_all_def)
next
  case (rec_reopen hist s ts data_ok conv_ok dp now s')
  then show ?case using reopen_wf [of s] by (simp add: retains_all_def)
qed


subsection \<open>Properties\<close>

definition sample_hist :: "string \<Rightarrow> HcpHarnessEventPayload list" where
  "sample_hist = (\<lambda>_. [])(''s'' := [sample_event ''s'' 1, sample_event ''s'' 2])"

lemma sample_recorded: "recorded sample_hist sample_store2"
proof -
  let ?s1 = "snd (appendEvent True (sample_event ''s'' 1) sample_store)"
  have a1: "appendEvent True (sample_event ''s'' 1) sample_store = (Inr (), ?s1)"
    by (simp add: sample_store_def appendEvent_def append_event_unpersisted_def emptyRunnerState_def
        session_log_def nextEventSequence_def persist_def Let_def)
  have a2: "appendEvent True (sample_event ''s'' 2) ?s1 = (Inr (), sample_store2)"
    by (simp add: sample_store2_def sample_store_def appendEvent_def append_event_unpersisted_def
        emptyRunnerState_def session_log_def nextEventSequence_def persist_def Let_def)
  show ?thesis
    using rec_append [OF rec_append [OF rec_new [OF sample_store_open] a1] a2]
    by (simp add: sample_hist_def)
qed

definition sample_reducer :: reducer where
  "sample_reducer = snd (applyEvent (\<lambda>a b. True) [] (sample_event ''s'' 1))"

lemma sample_reducer_reachable: "reducer_reachable (\<lambda>a b. True) sample_reducer"
  unfolding sample_reducer_def by (rule rr_event [OF rr_init])

lemma sample_reducer_log: "log_of sample_reducer sid = (if sid = ''s'' then [sample_event ''s'' 1] else [])"
  by (simp add: sample_reducer_def applyEvent_def js_max_def log_of_def session_map_def)



text \<open>C8: Snapshots resynchronise within their reach.  A snapshot the runner builds of a session is
  accepted by a control plane whose log is a prefix of the history exactly when it starts at the
  session's first event or no later than the next event the log expects; then the log becomes the
  whole history.  Otherwise it is refused as a gap and changes nothing, so a control plane that fell
  behind retention cannot be brought up to date by the snapshot.\<close>

theorem snapshot_resync_reach:
  assumes "recorded hist s" and "reducer_reachable le st"
    and "n \<le> length (hist sid)" and "log_of st sid = take n (hist sid)"
    and "harness_sessionSnapshot encoded_size generated (rs_data s) cid sid = Inr x"
  shows "(if snap_completeness x = Complete_replace \<or> snap_from_sequence x \<le> int n + 1
     then log_of (snd (applySnapshot le st x)) = (log_of st)(sid := hist sid)
     else snd (applySnapshot le st x) = st
       \<and> fst (applySnapshot le st x) = Snap_gap sid (int n + 1) (snap_from_sequence x))"
proof -
  have wf: "wf_store s" "retains_all hist s" using recorded_retains [OF assms(1)] by simp_all
  note wr = reducer_reachable_wf [OF assms(2)]
  let ?log = "session_log (rs_data s) sid"
  have h: "history sid (hist sid)" "retains (hist sid) ?log"
    using wf(2) by (simp_all add: retains_all_def)
  have "sessionSnapshot encoded_size generated (rs_data s) cid sid = Some x"
    using assms(5) by (simp add: harness_sessionSnapshot_def split: option.splits)
  then obtain k where k: "k < length ?log" "snapshot_refinement x" "snapshot_from_ok x"
    "snap_events x = drop k ?log" "snap_session_id x = sid"
    using sessionSnapshot_Some [OF wf_store_log [OF wf(1)]] by metis
  have lne: "?log \<noteq> []" using k(1) by auto
  note hd = retains_hd [OF h lne]
  define m where "m = length (hist sid) - length ?log + k"
  have "drop k ?log = drop k (drop (length (hist sid) - length ?log) (hist sid))"
    by (rule arg_cong [OF hd(3)])
  then have m: "snap_events x = drop m (hist sid)" "m < length (hist sid)"
    using k(1,4) hd(2) by (simp_all add: m_def add.commute)
  have sr: "counts_from (snap_from_sequence x) (map ev_sequence (snap_events x))"
    "\<And>e. e \<in> set (snap_events x) \<Longrightarrow> ev_session_id e = sid" "snap_events x \<noteq> []"
    using snapshot_refinementD [OF k(2)] k(5) by simp_all
  have first: "snap_from_sequence x = int m + 1"
    using sr(1) m history_nth [OF h(1) m(2)] by (simp add: Cons_nth_drop_Suc [symmetric])
  have len: "length (log_of st sid) = n" using assms(3,4) by simp
  show ?thesis
  proof (cases "snap_completeness x")
    case Complete_replace
    then have "snap_from_sequence x = 1" using k(3) by (simp add: snapshot_from_ok_def)
    with applySnapshot_complete_wf(2) [OF wr k(2) _ Complete_replace] k(5) first m(1) Complete_replace
    show ?thesis by simp
  next
    case (Partial_preserve reason)
    then have ap: "applySnapshot le st x = apply_partial le st (snap_events x) 0 0 (snap_tombstones x)"
      by (simp add: applySnapshot_def)
    show ?thesis
    proof (cases "m \<le> n")
      case True
      have "partial_accepted (fst (apply_partial le st (snap_events x) 0 0 (snap_tombstones x)))"
        using apply_partial_history [OF wr h(1) assms(4,3) True] m(1) by simp
      from apply_partial_log [OF wr sr(1) _ _ this, of sid] sr(2) first len
      have "log_of (snd (applySnapshot le st x)) = (log_of st)(sid := take n (hist sid) @ drop (n - m) (drop m (hist sid)))"
        using ap m(1) assms(4) True by (simp add: Suc_diff_le nat_add_distrib)
      also have "take n (hist sid) @ drop (n - m) (drop m (hist sid)) = hist sid"
        using True by simp
      finally show ?thesis using True first by (simp add: fun_eq_iff)
    next
      case False
      obtain e es where es: "snap_events x = e # es" using sr(3) by (cases "snap_events x") auto
      then have e: "ev_session_id e = sid" "ev_sequence e = int m + 1" using sr first by auto
      have "applyEvent le st e = (Ev_gap sid (int n + 1) (int m + 1), st)"
        using False e len applyEvent_cases [OF wr, of le e] by (simp add: log_of_def)
      then show ?thesis using False first es by (simp add: ap Partial_preserve)
    qed
  qed
qed


theorem snapshot_resync_reach_witness:
  "\<exists>x. harness_sessionSnapshot (\<lambda>_. 0) ''t'' (rs_data sample_store2) ''c'' ''s'' = Inr x
    \<and> log_of (snd (applySnapshot (\<lambda>a b. True) sample_reducer x)) ''s'' = [sample_event ''s'' 1, sample_event ''s'' 2]
    \<and> snd (applySnapshot (\<lambda>a b. True) [] x) = []"
proof -
  let ?x = "snapshot_of ''c'' ''s'' ''t'' False 1 [sample_event ''s'' 2]"
  have x: "harness_sessionSnapshot (\<lambda>_. 0) ''t'' (rs_data sample_store2) ''c'' ''s'' = Inr ?x"
    by (simp add: harness_sessionSnapshot_def sessionSnapshot_def sample_store2_log)
  have fields: "snap_completeness ?x \<noteq> Complete_replace" "snap_from_sequence ?x = 2"
    by (simp_all add: snapshot_of_def Let_def)
  have "1 \<le> length (sample_hist ''s'')" "log_of sample_reducer ''s'' = take 1 (sample_hist ''s'')"
    by (simp_all add: sample_hist_def sample_reducer_log)
  from snapshot_resync_reach [OF sample_recorded sample_reducer_reachable this x] fields
  have 1: "log_of (snd (applySnapshot (\<lambda>a b. True) sample_reducer ?x)) ''s'' = sample_hist ''s''" by simp
  have "0 \<le> length (sample_hist ''s'')" "log_of [] ''s'' = take 0 (sample_hist ''s'')"
    by (simp_all add: log_of_def)
  from snapshot_resync_reach [OF sample_recorded rr_init this x] fields
  have "snd (applySnapshot (\<lambda>a b. True) [] ?x) = []" by simp
  with x 1 show ?thesis by (simp add: sample_hist_def)
qed

end
