(* ===== verification/Runner_Connection.thy ===== *)
theory Runner_Connection
  imports Dispatcher Event_Replication
begin

text \<open>
  The runner's end of the connection (\<open>RunnerConnection\<close> in
  \<open>packages/hcp-runner/src/connection/runner-connection.ts\<close>): commands and local actions are answered
  once per id, from the record of their first arrival or from the receipt in the state store; events go
  out in order; a lost socket is reopened with growing delays; an idle one is closed.

  A handler that awaits is cut where it awaits: its first part runs when the message arrives, its last
  part when what it waits for is there, and other steps may come between.  What the awaited code (the
  session manager, the dispatcher) comes to is given to the last part.
\<close>

subsection \<open>Records, messages and state\<close>

datatype SettledCommandRecord =
    Settled_ack (sc_payloadHash: string) (sc_snapshot: "HcpSessionSnapshotPayload option") (sc_conversation: "json option")
  | Settled_nack (sc_payloadHash: string) (sc_nack: HcpCommandNackPayload)

datatype CommandRecord = Pending_command string | Settled_command SettledCommandRecord

fun command_hash :: "CommandRecord \<Rightarrow> string" where
  "command_hash (Pending_command h) = h"
| "command_hash (Settled_command r) = sc_payloadHash r"

record CommandExecutionResult =
  ce_events :: "HcpHarnessEventPayload list"
  ce_snapshotPayload :: "HcpSessionSnapshotPayload option"
  ce_conversationPayload :: "json option"

datatype SettledLocalActionRecord =
    Settled_response (sl_payloadHash: string) (sl_request: LocalActionRequestPayload) (sl_response: LocalActionResponsePayload)
  | Settled_error (sl_payloadHash: string) (sl_request: LocalActionRequestPayload) (sl_error: LocalActionErrorPayload)

datatype LocalActionRecord = Pending_action string LocalActionRequestPayload | Settled_action SettledLocalActionRecord

fun action_hash :: "LocalActionRecord \<Rightarrow> string" where
  "action_hash (Pending_action h r) = h"
| "action_hash (Settled_action r) = sl_payloadHash r"

text \<open>The envelopes the connection sends, by their payloads.\<close>

datatype out_message =
    Host_hello "HostRetainedEventRanges option"
  | Host_heartbeat int
  | Replay_unavailable HcpHostReplayUnavailablePayload
  | Command_ack HcpCommandAckPayload
  | Command_nack HcpCommandNackPayload
  | Session_snapshot HcpSessionSnapshotPayload
  | Conversation_result json
  | Action_response LocalActionResponsePayload
  | Action_error LocalActionErrorPayload
  | Harness_event HcpHarnessEventPayload

text \<open>
  \<open>cn_sent\<close> is what the current socket has carried; \<open>cn_completions\<close> are the resolved promises that
  duplicates of pending commands and actions await.
\<close>

record connection =
  cn_open :: bool
  cn_accepted :: bool
  cn_sent :: "out_message list"
  cn_lastSentEvent :: "(string \<times> int) list"
  cn_commandRecords :: "(string \<times> CommandRecord) list"
  cn_commandCompletions :: "(string \<times> SettledCommandRecord) list"
  cn_localActionRecords :: "(string \<times> LocalActionRecord) list"
  cn_localActionCompletions :: "(string \<times> SettledLocalActionRecord) list"
  cn_localActionMismatchRecords :: "(string \<times> SettledLocalActionRecord) list"
  cn_store :: RunnerStateStore
  cn_closing :: bool
  cn_idle :: bool
  cn_reconnectAttempt :: nat
  cn_reconnectTimer :: "int option"
  cn_demandReady :: bool
  cn_demandPending :: bool
  cn_demandGeneration :: "int option"
  cn_messageTasks :: int
  cn_lastActivity :: int

text \<open>The clock of a step, the parser of dates, and whether its first and later writes of the store succeed.\<close>

record step_clock =
  ck_now :: int
  ck_iso :: string
  ck_date_parse :: "string \<Rightarrow> int option"
  ck_persists :: bool
  ck_persists_again :: bool

text \<open>What a handler may throw.\<close>

datatype handler_error =
    Session_failed HarnessSessionError
  | HarnessAdapterError string string
  | Failed string
  | Thrown_value

type_synonym 'a step = "(connection, handler_error, 'a) act"

definition catchA :: "('s, 'e, 'a) act \<Rightarrow> ('e \<Rightarrow> ('s, 'e, 'a) act) \<Rightarrow> ('s, 'e, 'a) act" where
  "catchA m h s = (case m s of None \<Rightarrow> None | Some (Inl e, s') \<Rightarrow> h e s' | Some (Inr a, s') \<Rightarrow> Some (Inr a, s'))"

definition changeA :: "('s \<Rightarrow> 's) \<Rightarrow> ('s, 'e, unit) act" where
  "changeA f s = Some (Inr (), f s)"

subsection \<open>Sending\<close>

definition send :: "out_message \<Rightarrow> unit step" where
  "send m c =
     (if cn_open c then Some (Inr (), c\<lparr>cn_sent := cn_sent c @ [m]\<rparr>)
      else Some (Inl (Failed ''Runner is not connected to the control plane.''), c))"

definition send_given :: "('p \<Rightarrow> out_message) \<Rightarrow> 'p option \<Rightarrow> unit step" where
  "send_given f p = (case p of None \<Rightarrow> returnA () | Some x \<Rightarrow> send (f x))"

definition last_sent :: "connection \<Rightarrow> string \<Rightarrow> int" where
  "last_sent c sid = orelse (map_of (cn_lastSentEvent c) sid) 0"

definition sendEventIfConnected :: "int \<Rightarrow> HcpHarnessEventPayload \<Rightarrow> connection \<Rightarrow> connection" where
  "sendEventIfConnected now e c =
     (let c = c\<lparr>cn_lastActivity := now\<rparr> in
      if \<not> cn_open c then c
      else if ev_sequence e \<le> last_sent c (ev_session_id e) then c
      else c\<lparr>cn_sent := cn_sent c @ [Harness_event e],
             cn_lastSentEvent := AList.update (ev_session_id e) (ev_sequence e) (cn_lastSentEvent c)\<rparr>)"

definition send_events :: "int \<Rightarrow> HcpHarnessEventPayload list \<Rightarrow> connection \<Rightarrow> connection" where
  "send_events now es c = fold (sendEventIfConnected now) es c"

definition createNackPayload :: "step_clock \<Rightarrow> string \<Rightarrow> HcpError \<Rightarrow> HcpCommandNackPayload" where
  "createNackPayload ck commandId e = \<lparr>nack_command_id = commandId, nack_rejected_at = ck_iso ck, nack_error = e\<rparr>"

definition sendNack :: "step_clock \<Rightarrow> string \<Rightarrow> HcpError \<Rightarrow> unit step" where
  "sendNack ck commandId e = send (Command_nack (createNackPayload ck commandId e))"

definition sendAck :: "step_clock \<Rightarrow> string \<Rightarrow> bool \<Rightarrow> unit step" where
  "sendAck ck commandId duplicate =
     send (Command_ack \<lparr>ack_command_id = commandId, ack_accepted_at = ck_iso ck, ack_duplicate = duplicate\<rparr>)"

definition plain_error :: "string \<Rightarrow> string \<Rightarrow> HcpError" where
  "plain_error code message = \<lparr>err_code = code, err_message = message, err_retryable = False, err_details = None\<rparr>"

fun toHcpError :: "handler_error \<Rightarrow> HcpError" where
  "toHcpError (Session_failed e) = plain_error (hse_code e) (hse_message e)"
| "toHcpError (HarnessAdapterError code message) = plain_error code message"
| "toHcpError (Failed message) = plain_error ''runner_error'' message"
| "toHcpError Thrown_value = plain_error ''runner_error'' ''Runner command failed.''"

definition with_store :: "(RunnerStateStore \<Rightarrow> (string + 'a) \<times> RunnerStateStore) \<Rightarrow> 'a step" where
  "with_store f c =
     (let (r, s) = f (cn_store c) in
      Some (case r of Inl m \<Rightarrow> Inl (Failed m) | Inr a \<Rightarrow> Inr a, c\<lparr>cn_store := s\<rparr>))"

subsection \<open>Commands\<close>

fun commandRecordFromReceipt :: "PersistedCommandReceipt \<Rightarrow> SettledCommandRecord" where
  "commandRecordFromReceipt (Receipt_ack h t snap conv) = Settled_ack h snap conv"
| "commandRecordFromReceipt (Receipt_nack h t n) = Settled_nack h n"

fun receipt_of :: "string \<Rightarrow> SettledCommandRecord \<Rightarrow> PersistedCommandReceipt" where
  "receipt_of settledAt (Settled_ack h snap conv) = Receipt_ack h settledAt snap conv"
| "receipt_of settledAt (Settled_nack h n) = Receipt_nack h settledAt n"

fun answer_duplicate :: "step_clock \<Rightarrow> string \<Rightarrow> SettledCommandRecord \<Rightarrow> unit step" where
  "answer_duplicate ck commandId (Settled_ack h snap conv) =
     bindA (sendAck ck commandId True) (\<lambda>_.
     bindA (send_given Session_snapshot snap) (\<lambda>_.
     send_given Conversation_result conv))"
| "answer_duplicate ck commandId (Settled_nack h n) = send (Command_nack n)"

datatype arrival = Run_handler | Await_completion | Answered

definition existing_command :: "string \<Rightarrow> PersistedCommandReceipt option \<Rightarrow> connection \<Rightarrow> CommandRecord option" where
  "existing_command commandId persisted c =
     (case map_of (cn_commandRecords c) commandId of
        Some r \<Rightarrow> Some r
      | None \<Rightarrow> map_option (\<lambda>p. Settled_command (commandRecordFromReceipt p)) persisted)"

definition put_command :: "string \<Rightarrow> CommandRecord \<Rightarrow> unit step" where
  "put_command commandId r = changeA (\<lambda>c. c\<lparr>cn_commandRecords := AList.update commandId r (cn_commandRecords c)\<rparr>)"

definition command_found :: "step_clock \<Rightarrow> string \<Rightarrow> string \<Rightarrow> CommandRecord option \<Rightarrow> arrival step" where
  "command_found ck commandId commandHash existing =
     (case existing of
       None \<Rightarrow> bindA (put_command commandId (Pending_command commandHash)) (\<lambda>_. returnA Run_handler)
     | Some existingRecord \<Rightarrow>
         if command_hash existingRecord \<noteq> commandHash
         then bindA (sendNack ck commandId (plain_error ''duplicate_command_payload_mismatch''
                (''Command '' @ quoted commandId @ '' was already seen with a different payload.''))) (\<lambda>_. returnA Answered)
         else case existingRecord of
           Pending_command h \<Rightarrow> returnA Await_completion
         | Settled_command r \<Rightarrow> bindA (answer_duplicate ck commandId r) (\<lambda>_. returnA Answered))"

definition command_arrives :: "step_clock \<Rightarrow> string \<Rightarrow> string \<Rightarrow> arrival step" where
  "command_arrives ck commandId commandHash =
     bindA (with_store (getCommandReceipt (ck_date_parse ck) (ck_now ck) (ck_persists ck) commandId)) (\<lambda>persisted.
     bindA (readA (\<lambda>c. Inr (existing_command commandId persisted c))) (command_found ck commandId commandHash))"

text \<open>A promise resolves once.\<close>

definition complete_command :: "string \<Rightarrow> SettledCommandRecord \<Rightarrow> unit step" where
  "complete_command commandId r =
     changeA (\<lambda>c. if map_of (cn_commandCompletions c) commandId = None
       then c\<lparr>cn_commandCompletions := AList.update commandId r (cn_commandCompletions c)\<rparr> else c)"

definition settle_command :: "step_clock \<Rightarrow> bool \<Rightarrow> string \<Rightarrow> SettledCommandRecord \<Rightarrow> unit step" where
  "settle_command ck persists commandId r =
     bindA (put_command commandId (Settled_command r)) (\<lambda>_.
     bindA (with_store (setCommandReceipt (ck_date_parse ck) (ck_now ck) persists commandId (receipt_of (ck_iso ck) r))) (\<lambda>_.
     complete_command commandId r))"

definition command_succeeds :: "step_clock \<Rightarrow> string \<Rightarrow> string \<Rightarrow> CommandExecutionResult \<Rightarrow> unit step" where
  "command_succeeds ck commandId commandHash result =
     bindA (settle_command ck (ck_persists ck) commandId
       (Settled_ack commandHash (ce_snapshotPayload result) (ce_conversationPayload result))) (\<lambda>_.
     bindA (sendAck ck commandId False) (\<lambda>_.
     bindA (send_given Session_snapshot (ce_snapshotPayload result)) (\<lambda>_.
     bindA (send_given Conversation_result (ce_conversationPayload result)) (\<lambda>_.
     changeA (send_events (ck_now ck) (ce_events result))))))"

definition command_fails :: "step_clock \<Rightarrow> string \<Rightarrow> string \<Rightarrow> handler_error \<Rightarrow> unit step" where
  "command_fails ck commandId commandHash e =
     (let nackPayload = createNackPayload ck commandId (toHcpError e) in
      bindA (settle_command ck (ck_persists_again ck) commandId (Settled_nack commandHash nackPayload)) (\<lambda>_.
      send (Command_nack nackPayload)))"

definition command_returns :: "step_clock \<Rightarrow> string \<Rightarrow> string \<Rightarrow> handler_error + CommandExecutionResult \<Rightarrow> unit step" where
  "command_returns ck commandId commandHash execution =
     catchA (case execution of Inl e \<Rightarrow> throwA e | Inr result \<Rightarrow> command_succeeds ck commandId commandHash result)
       (command_fails ck commandId commandHash)"

definition duplicate_resumes :: "step_clock \<Rightarrow> string \<Rightarrow> unit step" where
  "duplicate_resumes ck commandId c =
     (case map_of (cn_commandCompletions c) commandId of
        None \<Rightarrow> None
      | Some r \<Rightarrow> answer_duplicate ck commandId r c)"

text \<open>A message that does not parse: its envelope's id and payload hash, when at least the envelope does.\<close>

definition sendParseNack :: "step_clock \<Rightarrow> (string \<times> string) option \<Rightarrow> string \<Rightarrow> unit step" where
  "sendParseNack ck envelope message =
     (let receivedMessageId = (case envelope of None \<Rightarrow> ''unknown'' | Some (i, _) \<Rightarrow> i);
          nackPayload = createNackPayload ck receivedMessageId (plain_error ''invalid_message'' message) in
      bindA (case envelope of
          None \<Rightarrow> returnA ()
        | Some (_, payloadHash) \<Rightarrow>
            bindA (put_command receivedMessageId (Settled_command (Settled_nack payloadHash nackPayload))) (\<lambda>_.
            with_store (setCommandReceipt (ck_date_parse ck) (ck_now ck) (ck_persists ck) receivedMessageId
              (Receipt_nack payloadHash (ck_iso ck) nackPayload)))) (\<lambda>_.
      send (Command_nack nackPayload)))"

subsection \<open>Local actions\<close>

fun localActionRecordFromReceipt :: "PersistedLocalActionReceipt \<Rightarrow> SettledLocalActionRecord" where
  "localActionRecordFromReceipt (Receipt_response h r t p) = Settled_response h r p"
| "localActionRecordFromReceipt (Receipt_error h r t p) = Settled_error h r p"

fun local_action_receipt :: "string \<Rightarrow> SettledLocalActionRecord \<Rightarrow> PersistedLocalActionReceipt" where
  "local_action_receipt settledAt (Settled_response h r p) = Receipt_response h r settledAt p"
| "local_action_receipt settledAt (Settled_error h r p) = Receipt_error h r settledAt p"

fun settled_outcome :: "string \<Rightarrow> LocalActionRequestPayload \<Rightarrow> LocalActionDispatchOutcome \<Rightarrow> SettledLocalActionRecord" where
  "settled_outcome h request (Response_outcome p es) = Settled_response h request p"
| "settled_outcome h request (Error_outcome p es) = Settled_error h request p"

fun outcome_events :: "LocalActionDispatchOutcome \<Rightarrow> HcpHarnessEventPayload list" where
  "outcome_events (Response_outcome p es) = es"
| "outcome_events (Error_outcome p es) = es"

fun sendLocalActionRecord :: "SettledLocalActionRecord \<Rightarrow> unit step" where
  "sendLocalActionRecord (Settled_response h r p) = send (Action_response p)"
| "sendLocalActionRecord (Settled_error h r p) = send (Action_error p)"

definition existing_action :: "string \<Rightarrow> PersistedLocalActionReceipt option \<Rightarrow> connection \<Rightarrow> LocalActionRecord option" where
  "existing_action requestId persisted c =
     (case map_of (cn_localActionRecords c) requestId of
        Some r \<Rightarrow> Some r
      | None \<Rightarrow> map_option (\<lambda>p. Settled_action (localActionRecordFromReceipt p)) persisted)"

definition put_action :: "string \<Rightarrow> LocalActionRecord \<Rightarrow> unit step" where
  "put_action requestId r = changeA (\<lambda>c. c\<lparr>cn_localActionRecords := AList.update requestId r (cn_localActionRecords c)\<rparr>)"

definition mismatch_key :: "string \<Rightarrow> string \<Rightarrow> string" where
  "mismatch_key requestId payloadHash = requestId @ '':'' @ payloadHash"

text \<open>\<open>mismatch\<close> is what the dispatcher's \<open>duplicatePayloadMismatch\<close> comes to for this request.\<close>

definition answer_mismatch ::
  "step_clock \<Rightarrow> handler_error + LocalActionDispatchOutcome \<Rightarrow> string \<Rightarrow> LocalActionRequestPayload \<Rightarrow> unit step" where
  "answer_mismatch ck mismatch payloadHash request c =
     (let key = mismatch_key (req_request_id request) payloadHash in
      case map_of (cn_localActionMismatchRecords c) key of
        Some r \<Rightarrow> sendLocalActionRecord r c
      | None \<Rightarrow>
          (case mismatch of
             Inl e \<Rightarrow> throwA e c
           | Inr outcome \<Rightarrow>
               let r = settled_outcome payloadHash request outcome in
               bindA (changeA (\<lambda>c. c\<lparr>cn_localActionMismatchRecords := AList.update key r (cn_localActionMismatchRecords c)\<rparr>)) (\<lambda>_.
               bindA (changeA (send_events (ck_now ck) (outcome_events outcome))) (\<lambda>_.
               sendLocalActionRecord r)) c))"

definition action_arrives ::
  "step_clock \<Rightarrow> handler_error + LocalActionDispatchOutcome \<Rightarrow> string \<Rightarrow> LocalActionRequestPayload \<Rightarrow> arrival step" where
  "action_arrives ck mismatch payloadHash request =
     bindA (with_store (getLocalActionReceipt (ck_date_parse ck) (ck_now ck) (ck_persists ck) (req_request_id request))) (\<lambda>persisted.
     bindA (readA (\<lambda>c. Inr (existing_action (req_request_id request) persisted c))) (\<lambda>existing.
     case existing of
       None \<Rightarrow> bindA (put_action (req_request_id request) (Pending_action payloadHash request)) (\<lambda>_. returnA Run_handler)
     | Some existingRecord \<Rightarrow>
         if action_hash existingRecord \<noteq> payloadHash
         then bindA (answer_mismatch ck mismatch payloadHash request) (\<lambda>_. returnA Answered)
         else case existingRecord of
           Pending_action h r \<Rightarrow> returnA Await_completion
         | Settled_action r \<Rightarrow> bindA (sendLocalActionRecord r) (\<lambda>_. returnA Answered)))"

definition complete_action :: "string \<Rightarrow> SettledLocalActionRecord \<Rightarrow> unit step" where
  "complete_action requestId r =
     changeA (\<lambda>c. if map_of (cn_localActionCompletions c) requestId = None
       then c\<lparr>cn_localActionCompletions := AList.update requestId r (cn_localActionCompletions c)\<rparr> else c)"

text \<open>After the dispatcher; nothing catches what it throws.\<close>

definition action_returns ::
  "step_clock \<Rightarrow> string \<Rightarrow> LocalActionRequestPayload \<Rightarrow> handler_error + LocalActionDispatchOutcome \<Rightarrow> unit step" where
  "action_returns ck payloadHash request dispatched =
     (case dispatched of
        Inl e \<Rightarrow> throwA e
      | Inr outcome \<Rightarrow>
          let requestId = req_request_id request; r = settled_outcome payloadHash request outcome in
          bindA (put_action requestId (Settled_action r)) (\<lambda>_.
          bindA (with_store (setLocalActionReceipt (ck_date_parse ck) (ck_now ck) (ck_persists ck) requestId
            (local_action_receipt (ck_iso ck) r))) (\<lambda>_.
          bindA (complete_action requestId r) (\<lambda>_.
          bindA (changeA (send_events (ck_now ck) (outcome_events outcome))) (\<lambda>_.
          sendLocalActionRecord r)))))"

definition action_duplicate_resumes :: "string \<Rightarrow> unit step" where
  "action_duplicate_resumes requestId c =
     (case map_of (cn_localActionCompletions c) requestId of
        None \<Rightarrow> None
      | Some r \<Rightarrow> sendLocalActionRecord r c)"

subsection \<open>Replay\<close>

fun send_all :: "out_message list \<Rightarrow> unit step" where
  "send_all [] = returnA ()"
| "send_all (m # ms) = bindA (send m) (\<lambda>_. send_all ms)"

definition replayRequestedEvents ::
  "step_clock \<Rightarrow> (string \<Rightarrow> string \<Rightarrow> bool) \<Rightarrow> HostResumeCursor option \<Rightarrow> unit step" where
  "replayRequestedEvents ck le cursor c =
     (case cursor of
        None \<Rightarrow> returnA () c
      | Some k \<Rightarrow>
          let replay = harness_replayEventsAfter le (rs_data (cn_store c)) k in
          bindA (send_all (map Replay_unavailable (rep_unavailable replay))) (\<lambda>_.
          changeA (send_events (ck_now ck) (rep_events replay))) c)"

subsection \<open>Sockets\<close>

record reconnect_options =
  ro_initialDelayMs :: int
  ro_maxDelayMs :: int

definition scheduleReconnect :: "reconnect_options \<Rightarrow> connection \<Rightarrow> connection" where
  "scheduleReconnect o' c =
     (if cn_reconnectTimer c \<noteq> None then c
      else c\<lparr>cn_reconnectTimer := Some (min (ro_maxDelayMs o') (ro_initialDelayMs o' * 2 ^ cn_reconnectAttempt c)),
             cn_reconnectAttempt := cn_reconnectAttempt c + 1\<rparr>)"

definition stopReconnect :: "connection \<Rightarrow> connection" where
  "stopReconnect c = c\<lparr>cn_reconnectTimer := None\<rparr>"

text \<open>\<open>#openSocket\<close> up to the new socket, and what the runtime reports of it.\<close>

definition openSocket :: "connection \<Rightarrow> connection" where
  "openSocket c =
     (let c = stopReconnect c in
      if cn_closing c \<or> cn_idle c then c
      else c\<lparr>cn_open := False, cn_accepted := False, cn_sent := [], cn_lastSentEvent := []\<rparr>)"

definition sendHello :: "(string \<Rightarrow> string \<Rightarrow> bool) \<Rightarrow> unit step" where
  "sendHello le c = send (Host_hello (retainedEventRanges le (rs_data (cn_store c)))) c"

definition socket_opens :: "(string \<Rightarrow> string \<Rightarrow> bool) \<Rightarrow> unit step" where
  "socket_opens le = bindA (changeA (\<lambda>c. c\<lparr>cn_open := True, cn_reconnectAttempt := 0\<rparr>)) (\<lambda>_. sendHello le)"

definition socket_closes :: "reconnect_options \<Rightarrow> connection \<Rightarrow> connection" where
  "socket_closes o' c =
     (let c = c\<lparr>cn_open := False, cn_accepted := False\<rparr> in
      if \<not> cn_closing c \<and> \<not> cn_idle c then scheduleReconnect o' c else c)"

text \<open>The reconnect timer, with whether it comes to opening a socket, and an opening that failed.\<close>

definition reconnect_fires :: "connection \<Rightarrow> bool \<times> connection" where
  "reconnect_fires c =
     (let c = c\<lparr>cn_reconnectTimer := None\<rparr> in
      if cn_closing c \<or> cn_idle c then (False, c) else (True, openSocket c))"

definition open_fails :: "reconnect_options \<Rightarrow> connection \<Rightarrow> connection" where
  "open_fails o' c = (if \<not> cn_closing c then scheduleReconnect o' c else c)"

definition close_connection :: "connection \<Rightarrow> connection" where
  "close_connection c = (stopReconnect (c\<lparr>cn_closing := True, cn_accepted := False\<rparr>))\<lparr>cn_open := False\<rparr>"

definition send_heartbeat :: "int \<Rightarrow> unit step" where
  "send_heartbeat activeSessions = send (Host_heartbeat activeSessions)"

definition heartbeat_interval :: "int \<Rightarrow> int" where
  "heartbeat_interval intervalSeconds = max 1 intervalSeconds * 1000"

subsection \<open>Sleeping and waking\<close>

fun pending_command :: "CommandRecord \<Rightarrow> bool" where
  "pending_command (Pending_command h) = True"
| "pending_command (Settled_command r) = False"

fun pending_action :: "LocalActionRecord \<Rightarrow> bool" where
  "pending_action (Pending_action h r) = True"
| "pending_action (Settled_action r) = False"

definition any_pending :: "connection \<Rightarrow> bool" where
  "any_pending c \<longleftrightarrow>
     list_ex (\<lambda>(_, r). pending_command r) (cn_commandRecords c) \<or> list_ex (\<lambda>(_, r). pending_action r) (cn_localActionRecords c)"

definition checkIdle :: "int \<Rightarrow> int \<Rightarrow> bool \<Rightarrow> connection \<Rightarrow> connection" where
  "checkIdle now idleMs hasActiveWork c =
     (if \<not> cn_accepted c \<or> \<not> cn_demandReady c \<or> cn_demandPending c \<or> cn_messageTasks c \<noteq> 0 \<or> any_pending c \<or> hasActiveWork
      then c\<lparr>cn_lastActivity := now\<rparr>
      else if now - cn_lastActivity c < idleMs then c
      else (stopReconnect (c\<lparr>cn_idle := True\<rparr>))\<lparr>cn_open := False\<rparr>)"

text \<open>\<open>#wakeFromIdle\<close>, with whether a socket is to be opened (at once or when the old one has closed).\<close>

definition wakeFromIdle :: "int \<Rightarrow> connection \<Rightarrow> bool \<times> connection" where
  "wakeFromIdle now c =
     (if \<not> cn_idle c \<or> cn_closing c then (False, c)
      else (True, c\<lparr>cn_idle := False, cn_lastActivity := now\<rparr>))"

definition demand_changes :: "int \<Rightarrow> int \<Rightarrow> bool \<Rightarrow> connection \<Rightarrow> bool \<times> connection" where
  "demand_changes now generation pending c =
     (let changed = (case cn_demandGeneration c of None \<Rightarrow> False | Some g \<Rightarrow> g < generation);
          c = c\<lparr>cn_demandGeneration := Some generation, cn_demandReady := True, cn_demandPending := pending\<rparr> in
      if changed \<or> pending then wakeFromIdle now (c\<lparr>cn_lastActivity := now\<rparr>) else (False, c))"

definition demand_fails :: "int \<Rightarrow> connection \<Rightarrow> bool \<times> connection" where
  "demand_fails now c = wakeFromIdle now (c\<lparr>cn_demandReady := False\<rparr>)"

subsection \<open>Steps and runs\<close>

text \<open>A step tells which handler it starts.\<close>

datatype connection_label = Runs_command string | Runs_action string | Quiet

inductive connection_step :: "connection \<Rightarrow> connection_label \<Rightarrow> connection \<Rightarrow> bool" where
  command_runs: "command_arrives ck i h c = Some (Inr Run_handler, c') \<Longrightarrow> connection_step c (Runs_command i) c'"
| command_answered: "command_arrives ck i h c = Some (r, c') \<Longrightarrow> r \<noteq> Inr Run_handler \<Longrightarrow> connection_step c Quiet c'"
| command_returned: "command_returns ck i h result c = Some (u, c') \<Longrightarrow> connection_step c Quiet c'"
| command_resumed: "duplicate_resumes ck i c = Some (u, c') \<Longrightarrow> connection_step c Quiet c'"
| unparsed: "sendParseNack ck envelope message c = Some (u, c') \<Longrightarrow> connection_step c Quiet c'"
| action_runs: "action_arrives ck mismatch h request c = Some (Inr Run_handler, c')
    \<Longrightarrow> connection_step c (Runs_action (req_request_id request)) c'"
| action_answered: "action_arrives ck mismatch h request c = Some (r, c') \<Longrightarrow> r \<noteq> Inr Run_handler \<Longrightarrow> connection_step c Quiet c'"
| action_returned: "action_returns ck h request dispatched c = Some (u, c') \<Longrightarrow> connection_step c Quiet c'"
| action_resumed: "action_duplicate_resumes i c = Some (u, c') \<Longrightarrow> connection_step c Quiet c'"
| replayed: "replayRequestedEvents ck le cursor c = Some (u, c') \<Longrightarrow> connection_step c Quiet c'"
| published: "connection_step c Quiet (sendEventIfConnected now e c)"
| heartbeat: "send_heartbeat n c = Some (u, c') \<Longrightarrow> connection_step c Quiet c'"
| store_changes: "connection_step c Quiet (c\<lparr>cn_store := s\<rparr>)"
| accepts: "connection_step c Quiet (c\<lparr>cn_accepted := True\<rparr>)"
| reopens: "connection_step c Quiet (openSocket c)"
| opens: "socket_opens le c = Some (u, c') \<Longrightarrow> connection_step c Quiet c'"
| closes: "connection_step c Quiet (socket_closes o' c)"
| timer_fires: "connection_step c Quiet (snd (reconnect_fires c))"
| fails: "connection_step c Quiet (open_fails o' c)"
| ends: "connection_step c Quiet (close_connection c)"
| checks_idle: "connection_step c Quiet (checkIdle now idleMs active c)"
| demand: "connection_step c Quiet (snd (demand_changes now generation pending c))"
| demand_lost: "connection_step c Quiet (snd (demand_fails now c))"

inductive labelled_run :: "('s \<Rightarrow> 'l \<Rightarrow> 's \<Rightarrow> bool) \<Rightarrow> 's \<Rightarrow> 'l list \<Rightarrow> 's \<Rightarrow> bool" for step where
  run_nothing: "labelled_run step s [] s"
| run_more: "labelled_run step s ls s' \<Longrightarrow> step s' l s'' \<Longrightarrow> labelled_run step s (ls @ [l]) s''"

text \<open>
  Work that is started once per key: a start only happens for a key without a record and leaves one,
  and no step loses a record.
\<close>

locale once_per_key =
  fixes step :: "'s \<Rightarrow> 'l \<Rightarrow> 's \<Rightarrow> bool" and started :: "'l \<Rightarrow> 'k option" and recorded :: "'s \<Rightarrow> 'k set"
  assumes starts_new: "step s l s' \<Longrightarrow> started l = Some k \<Longrightarrow> k \<notin> recorded s \<and> k \<in> recorded s'"
    and keeps: "step s l s' \<Longrightarrow> recorded s \<subseteq> recorded s'"
begin

lemma started_once:
  "labelled_run step s ls s' \<Longrightarrow>
     distinct (List.map_filter started ls) \<and> set (List.map_filter started ls) \<subseteq> recorded s' - recorded s
     \<and> recorded s \<subseteq> recorded s'"
proof (induction rule: labelled_run.induct)
  case (run_nothing s)
  then show ?case by (simp add: List.map_filter_simps)
next
  case (run_more s ls s' l s'')
  have sub: "recorded s' \<subseteq> recorded s''" using run_more keeps by blast
  show ?case
  proof (cases "started l")
    case None
    then show ?thesis using run_more sub by (auto simp: List.map_filter_simps map_filter_append)
  next
    case (Some k)
    then have "k \<notin> recorded s'" "k \<in> recorded s''" using starts_new run_more by blast+
    then show ?thesis using run_more sub Some by (auto simp: List.map_filter_simps map_filter_append)
  qed
qed

end

subsection \<open>What a step keeps\<close>

context move_relation
begin

lemma catch: "moves R m \<Longrightarrow> (\<And>e. moves R (h e)) \<Longrightarrow> moves R (catchA m h)"
  unfolding moves_def catchA_def by (auto split: option.splits sum.splits) (blast intro: trans)+

lemma change: "(\<And>s. R s (f s)) \<Longrightarrow> moves R (changeA f)"
  by (simp add: moves_def changeA_def)

end

definition command_keys :: "connection \<Rightarrow> string set" where
  "command_keys c = fst ` set (cn_commandRecords c)"

definition action_keys :: "connection \<Rightarrow> string set" where
  "action_keys c = fst ` set (cn_localActionRecords c)"

definition records_kept :: "connection \<Rightarrow> connection \<Rightarrow> bool" where
  "records_kept c c' \<longleftrightarrow> command_keys c \<subseteq> command_keys c' \<and> action_keys c \<subseteq> action_keys c'"

interpretation records_kept: move_relation records_kept
  by unfold_locales (auto simp: records_kept_def)

definition same_records :: "connection \<Rightarrow> connection \<Rightarrow> bool" where
  "same_records c c' \<longleftrightarrow> cn_commandRecords c' = cn_commandRecords c \<and> cn_localActionRecords c' = cn_localActionRecords c"

lemma same_records_kept: "same_records c c' \<Longrightarrow> records_kept c c'"
  by (simp add: same_records_def records_kept_def command_keys_def action_keys_def)

text \<open>Sequences sent on the current socket.\<close>

definition sent_sequence :: "string \<Rightarrow> out_message \<Rightarrow> int option" where
  "sent_sequence sid m = (case m of Harness_event e \<Rightarrow> if ev_session_id e = sid then Some (ev_sequence e) else None | _ \<Rightarrow> None)"

definition sent_sequences :: "connection \<Rightarrow> string \<Rightarrow> int list" where
  "sent_sequences c sid = List.map_filter (sent_sequence sid) (cn_sent c)"

definition in_order :: "connection \<Rightarrow> bool" where
  "in_order c \<longleftrightarrow> (\<forall>sid. sorted_wrt (<) (sent_sequences c sid) \<and> (\<forall>n \<in> set (sent_sequences c sid). n \<le> last_sent c sid))"

definition order_kept :: "connection \<Rightarrow> connection \<Rightarrow> bool" where
  "order_kept c c' \<longleftrightarrow> (in_order c \<longrightarrow> in_order c')"

interpretation order_kept: move_relation order_kept
  by unfold_locales (auto simp: order_kept_def)

definition same_traffic :: "connection \<Rightarrow> connection \<Rightarrow> bool" where
  "same_traffic c c' \<longleftrightarrow> cn_sent c' = cn_sent c \<and> cn_lastSentEvent c' = cn_lastSentEvent c"

lemma same_traffic_order: "same_traffic c c' \<Longrightarrow> order_kept c c'"
  by (simp add: same_traffic_def order_kept_def in_order_def sent_sequences_def last_sent_def)

text \<open>Both at once, for the steps of the connection.\<close>

definition well_kept :: "connection \<Rightarrow> connection \<Rightarrow> bool" where
  "well_kept c c' \<longleftrightarrow> records_kept c c' \<and> order_kept c c'"

interpretation well_kept: move_relation well_kept
  by unfold_locales (auto simp: well_kept_def intro: records_kept.refl order_kept.refl records_kept.trans order_kept.trans)

lemma well_keptI: "same_records c c' \<Longrightarrow> same_traffic c c' \<Longrightarrow> well_kept c c'"
  by (simp add: well_kept_def same_records_kept same_traffic_order)

lemma send_kept:
  assumes "\<And>sid. sent_sequence sid m = None"
  shows "moves well_kept (send m)"
  using assms
  by (auto simp: moves_def send_def well_kept_def same_records_kept same_records_def order_kept_def in_order_def
      sent_sequences_def last_sent_def map_filter_append List.map_filter_simps)

lemma event_kept: "well_kept c (sendEventIfConnected now e c)"
proof (cases "cn_open c \<and> last_sent c (ev_session_id e) < ev_sequence e")
  case False
  then show ?thesis
    by (intro well_keptI) (auto simp: sendEventIfConnected_def same_records_def same_traffic_def last_sent_def Let_def)
next
  case True
  let ?c' = "sendEventIfConnected now e c"
  have seqs: "sent_sequences ?c' sid = sent_sequences c sid @ (if ev_session_id e = sid then [ev_sequence e] else [])"
    and last: "last_sent ?c' sid = (if ev_session_id e = sid then ev_sequence e else last_sent c sid)" for sid
    using True by (auto simp: sendEventIfConnected_def Let_def sent_sequences_def sent_sequence_def last_sent_def orelse_def
        js_map map_filter_append List.map_filter_simps)
  have "in_order ?c'" if "in_order c"
    using that True unfolding in_order_def seqs last by (fastforce simp: sorted_wrt_append)
  moreover have "same_records c ?c'"
    using True by (simp add: sendEventIfConnected_def Let_def same_records_def)
  ultimately show ?thesis by (simp add: well_kept_def same_records_kept order_kept_def)
qed

lemma events_kept: "well_kept c (send_events now es c)"
  unfolding send_events_def
  by (induction es arbitrary: c) (auto intro: well_kept.refl well_kept.trans event_kept)

lemma keys_update: "fst ` set (AList.update k v m) = insert k (fst ` set m)"
proof -
  have "set (map fst (AList.update k v m)) = insert k (set (map fst m))" by (simp add: AList.update_keys insert_absorb)
  then show ?thesis by simp
qed

lemma put_kept: "moves well_kept (put_command i r)" "moves well_kept (put_action i ar)"
proof -
  have "same_traffic c (c\<lparr>cn_commandRecords := x\<rparr>)" "same_traffic c (c\<lparr>cn_localActionRecords := y\<rparr>)" for c x y
    by (simp_all add: same_traffic_def)
  then show "moves well_kept (put_command i r)" "moves well_kept (put_action i ar)"
    unfolding put_command_def put_action_def
    by (auto intro!: well_kept.change simp: well_kept_def same_traffic_order records_kept_def command_keys_def action_keys_def
        keys_update subset_insertI)
qed

lemma quiet_kept:
  "moves well_kept (with_store f)" "moves well_kept (complete_command i r)" "moves well_kept (complete_action i ar)"
  by (auto simp: moves_def with_store_def complete_command_def complete_action_def changeA_def same_records_def same_traffic_def
      intro!: well_keptI split: prod.splits)

lemma sent_messages_kept:
  "moves well_kept (sendAck ck i d)" "moves well_kept (sendNack ck i e)" "moves well_kept (send (Command_nack n))"
  "moves well_kept (send_given Session_snapshot snap)" "moves well_kept (send_given Conversation_result conv)"
  "moves well_kept (send_heartbeat k)" "moves well_kept (send (Host_hello ranges))"
  "moves well_kept (changeA (send_events now es))"
  by (auto simp: sendAck_def sendNack_def send_given_def send_heartbeat_def sent_sequence_def
      intro!: send_kept well_kept.return well_kept.change events_kept split: option.split)

lemma record_sent_kept: "moves well_kept (sendLocalActionRecord r)"
  by (cases r) (auto simp: sent_sequence_def intro!: send_kept)

lemma duplicate_kept: "moves well_kept (answer_duplicate ck i r)"
  by (cases r) (auto intro!: well_kept.bind sent_messages_kept)

lemma send_all_kept: "(\<And>m. m \<in> set ms \<Longrightarrow> moves well_kept (send m)) \<Longrightarrow> moves well_kept (send_all ms)"
  by (induction ms) (auto intro!: well_kept.intros)

lemmas kept_rules = well_kept.intros well_kept.catch put_kept quiet_kept sent_messages_kept record_sent_kept duplicate_kept

lemma command_arrives_kept: "moves well_kept (command_arrives ck i h)"
  unfolding command_arrives_def command_found_def
  by (auto intro!: kept_rules split: option.split CommandRecord.split)

lemma command_returns_kept: "moves well_kept (command_returns ck i h result)"
  unfolding command_returns_def command_succeeds_def command_fails_def settle_command_def Let_def
  by (auto intro!: kept_rules split: sum.split)

lemma duplicate_resumes_kept: "moves well_kept (duplicate_resumes ck i)" "moves well_kept (action_duplicate_resumes i)"
  using movesD [OF duplicate_kept] movesD [OF record_sent_kept]
  by (auto simp: moves_def duplicate_resumes_def action_duplicate_resumes_def split: option.splits)

lemma parse_nack_kept: "moves well_kept (sendParseNack ck envelope message)"
  unfolding sendParseNack_def Let_def by (auto intro!: kept_rules split: option.split)

lemma answer_mismatch_kept: "moves well_kept (answer_mismatch ck mismatch h request)"
proof -
  have "well_kept c (c\<lparr>cn_localActionMismatchRecords := x\<rparr>)" for c x
    by (rule well_keptI) (simp_all add: same_records_def same_traffic_def)
  then have "moves well_kept (bindA (changeA (\<lambda>c. c\<lparr>cn_localActionMismatchRecords := f c\<rparr>)) (\<lambda>_.
      bindA (changeA (send_events now es)) (\<lambda>_. sendLocalActionRecord r)))" for f now es r
    by (auto intro!: kept_rules well_kept.change)
  note new = movesD [OF this]
  show ?thesis
    unfolding moves_def answer_mismatch_def Let_def
    using movesD [OF record_sent_kept]
    by (auto split: option.splits sum.splits dest: new intro: well_kept.refl)
qed

lemma action_arrives_kept: "moves well_kept (action_arrives ck mismatch h request)"
  unfolding action_arrives_def
  by (auto intro!: kept_rules answer_mismatch_kept split: option.split LocalActionRecord.split)

lemma action_returns_kept: "moves well_kept (action_returns ck h request dispatched)"
  unfolding action_returns_def Let_def by (auto intro!: kept_rules split: sum.split)

lemma replay_kept: "moves well_kept (replayRequestedEvents ck le cursor)"
proof -
  have "moves well_kept (bindA (send_all (map Replay_unavailable us)) (\<lambda>_. changeA (send_events now es)))" for us now es
    by (auto intro!: well_kept.bind send_all_kept sent_messages_kept send_kept simp: sent_sequence_def)
  note all = movesD [OF this]
  show ?thesis
    unfolding moves_def replayRequestedEvents_def Let_def
    by (auto split: option.splits dest: all intro: well_kept.refl)
qed

lemma socket_kept:
  "well_kept c (scheduleReconnect o' c)" "well_kept c (stopReconnect c)" "well_kept c (openSocket c)" "well_kept c (socket_closes o' c)"
  "well_kept c (snd (reconnect_fires c))" "well_kept c (open_fails o' c)" "well_kept c (close_connection c)"
  "well_kept c (checkIdle now idleMs active c)" "well_kept c (snd (demand_changes now generation pending c))"
  "well_kept c (snd (demand_fails now c))" "well_kept c (c\<lparr>cn_store := s\<rparr>)" "well_kept c (c\<lparr>cn_accepted := a\<rparr>)"
  by (auto simp: scheduleReconnect_def stopReconnect_def openSocket_def socket_closes_def reconnect_fires_def open_fails_def
      close_connection_def checkIdle_def demand_changes_def demand_fails_def wakeFromIdle_def Let_def same_records_def
      same_traffic_def well_kept_def same_records_kept order_kept_def in_order_def sent_sequences_def last_sent_def
      List.map_filter_simps)

lemma socket_opens_kept: "moves well_kept (socket_opens le)"
proof -
  have "moves well_kept (sendHello le)"
    using movesD [OF sent_messages_kept(7)] by (auto simp: moves_def sendHello_def)
  moreover have "well_kept c (c\<lparr>cn_open := True, cn_reconnectAttempt := 0\<rparr>)" for c
    by (rule well_keptI) (simp_all add: same_records_def same_traffic_def)
  ultimately show ?thesis unfolding socket_opens_def by (intro well_kept.bind well_kept.change)
qed

lemma connection_step_kept: "connection_step c l c' \<Longrightarrow> well_kept c c'"
  by (induction rule: connection_step.induct)
     (blast intro: socket_kept event_kept movesD [OF command_arrives_kept] movesD [OF command_returns_kept]
        movesD [OF duplicate_resumes_kept(1)] movesD [OF duplicate_resumes_kept(2)] movesD [OF parse_nack_kept]
        movesD [OF action_arrives_kept] movesD [OF action_returns_kept] movesD [OF replay_kept]
        movesD [OF sent_messages_kept(6)] movesD [OF socket_opens_kept])+

text \<open>A handler runs only for an id without a record, and leaves a pending one.\<close>

lemma command_arrives_cases:
  assumes "command_arrives ck i h c = Some (x, c')"
  obtains (store_failed) m s where "x = Inl (Failed m)" "c' = c\<lparr>cn_store := s\<rparr>"
  | (looked_up) persisted s where
      "getCommandReceipt (ck_date_parse ck) (ck_now ck) (ck_persists ck) i (cn_store c) = (Inr persisted, s)"
      "command_found ck i h (existing_command i persisted c) (c\<lparr>cn_store := s\<rparr>) = Some (x, c')"
proof -
  obtain r s where get: "getCommandReceipt (ck_date_parse ck) (ck_now ck) (ck_persists ck) i (cn_store c) = (r, s)"
    by fastforce
  show ?thesis
  proof (cases r)
    case (Inl m)
    then show ?thesis using assms get by (intro store_failed [of m s]) (auto simp: command_arrives_def with_store_def bindA_def)
  next
    case (Inr persisted)
    have "existing_command i persisted (c\<lparr>cn_store := s\<rparr>) = existing_command i persisted c"
      by (simp add: existing_command_def)
    then show ?thesis
      using assms get Inr by (intro looked_up [of persisted s]) (auto simp: command_arrives_def with_store_def bindA_def)
  qed
qed

lemma command_found_runs:
  "command_found ck i h existing c = Some (Inr Run_handler, c') \<longleftrightarrow>
     existing = None \<and> c' = c\<lparr>cn_commandRecords := AList.update i (Pending_command h) (cn_commandRecords c)\<rparr>"
  by (cases existing)
     (auto simp: command_found_def put_command_def changeA_def bindA_Inr bindA_def split: CommandRecord.splits option.splits sum.splits)

lemma existing_None: "existing_command i persisted c = None \<longleftrightarrow> map_of (cn_commandRecords c) i = None \<and> persisted = None"
  by (auto simp: existing_command_def split: option.splits)

lemma command_runs_new:
  assumes "command_arrives ck i h c = Some (Inr Run_handler, c')"
  shows "map_of (cn_commandRecords c) i = None"
    and "cn_commandRecords c' = AList.update i (Pending_command h) (cn_commandRecords c)"
    and "\<exists>s. getCommandReceipt (ck_date_parse ck) (ck_now ck) (ck_persists ck) i (cn_store c) = (Inr None, s)"
  using assms by (cases rule: command_arrives_cases; auto simp: command_found_runs existing_None)+

lemma action_runs_new:
  assumes "action_arrives ck mismatch h request c = Some (Inr Run_handler, c')"
  shows "map_of (cn_localActionRecords c) (req_request_id request) = None"
    and "cn_localActionRecords c' = AList.update (req_request_id request) (Pending_action h request) (cn_localActionRecords c)"
  using assms
  by (auto simp: action_arrives_def bindA_Inr with_store_def existing_action_def put_action_def changeA_def
      split: option.splits if_splits LocalActionRecord.splits sum.splits prod.splits)

definition command_started :: "connection_label \<Rightarrow> string option" where
  "command_started l = (case l of Runs_command i \<Rightarrow> Some i | _ \<Rightarrow> None)"

definition action_started :: "connection_label \<Rightarrow> string option" where
  "action_started l = (case l of Runs_action i \<Rightarrow> Some i | _ \<Rightarrow> None)"

inductive_cases runs_command: "connection_step c (Runs_command i) c'"
inductive_cases runs_action: "connection_step c (Runs_action i) c'"

interpretation commands: once_per_key connection_step command_started command_keys
proof
  fix c l c' k
  assume step: "connection_step c l c'"
  then show "command_keys c \<subseteq> command_keys c'" using connection_step_kept by (simp add: well_kept_def records_kept_def)
  assume "command_started l = Some k"
  then have "l = Runs_command k" by (auto simp: command_started_def split: connection_label.splits)
  then obtain ck h where "command_arrives ck k h c = Some (Inr Run_handler, c')"
    using step by (auto elim: runs_command)
  from command_runs_new [OF this] show "k \<notin> command_keys c \<and> k \<in> command_keys c'"
    by (simp add: command_keys_def keys_update map_of_eq_None_iff)
qed

interpretation actions: once_per_key connection_step action_started action_keys
proof
  fix c l c' k
  assume step: "connection_step c l c'"
  then show "action_keys c \<subseteq> action_keys c'" using connection_step_kept by (simp add: well_kept_def records_kept_def)
  assume "action_started l = Some k"
  then have "l = Runs_action k" by (auto simp: action_started_def split: connection_label.splits)
  then obtain ck mismatch h request where "action_arrives ck mismatch h request c = Some (Inr Run_handler, c')"
    "k = req_request_id request"
    using step by (auto elim: runs_action)
  with action_runs_new [OF this(1)] show "k \<notin> action_keys c \<and> k \<in> action_keys c'"
    by (simp add: action_keys_def keys_update map_of_eq_None_iff)
qed

lemma in_order_run: "labelled_run connection_step c ls c' \<Longrightarrow> in_order c \<Longrightarrow> in_order c'"
  by (induction rule: labelled_run.induct) (auto dest: connection_step_kept simp: well_kept_def order_kept_def)

subsection \<open>Receipts and restarts\<close>

text \<open>Sending does not touch the store.\<close>

definition same_store :: "connection \<Rightarrow> connection \<Rightarrow> bool" where
  "same_store c c' \<longleftrightarrow> cn_store c' = cn_store c"

interpretation same_store: move_relation same_store
  by unfold_locales (simp_all add: same_store_def)

lemma send_same_store: "moves same_store (send m)" "moves same_store (send_given f p)" "moves same_store (sendAck ck i d)"
  by (auto simp: moves_def same_store_def send_def send_given_def sendAck_def split: option.splits if_splits)

lemma event_same_store: "cn_store (sendEventIfConnected now e c) = cn_store c"
  by (simp add: sendEventIfConnected_def Let_def)

lemma events_same_store: "moves same_store (changeA (send_events now es))"
proof -
  have "cn_store (send_events now es c) = cn_store c" for c
    unfolding send_events_def by (induction es arbitrary: c) (simp_all add: event_same_store)
  then show ?thesis by (intro same_store.change) (simp add: same_store_def)
qed

text \<open>The store holds a receipt of the id, in memory and in its file.\<close>

definition receipt_kept :: "string \<Rightarrow> string \<Rightarrow> RunnerStateStore \<Rightarrow> bool" where
  "receipt_kept i settledAt s \<longleftrightarrow> distinct_receipts (rs_data s) \<and> rs_file s = Some (rs_data s)
     \<and> (\<exists>r. map_of (st_commandReceipts (rs_data s)) i = Some r \<and> cr_settledAt r = settledAt)"

definition receipt_held :: "string \<Rightarrow> string \<Rightarrow> RunnerStateStore \<Rightarrow> bool" where
  "receipt_held i settledAt s \<longleftrightarrow> distinct_receipts (rs_data s)
     \<and> (\<exists>r. map_of (st_commandReceipts (rs_data s)) i = Some r \<and> cr_settledAt r = settledAt)"

lemma settledAt_receipt_of: "cr_settledAt (receipt_of t r) = t"
  by (cases r) simp_all

lemma settle_command_stores:
  assumes "settle_command ck True i r c = Some (x, c')" and "distinct_receipts (rs_data (cn_store c))"
    and "\<not> receipt_expired (ck_date_parse ck) (ck_now ck - rs_receiptRetentionMs (cn_store c)) (ck_iso ck)"
  shows "x = Inr ()" and "receipt_kept i (ck_iso ck) (cn_store c')"
    and "rs_receiptRetentionMs (cn_store c') = rs_receiptRetentionMs (cn_store c)"
proof -
  obtain res s where set: "setCommandReceipt (ck_date_parse ck) (ck_now ck) True i (receipt_of (ck_iso ck) r) (cn_store c) = (res, s)"
    by fastforce
  have res: "res = Inr ()" using set by (auto simp: setCommandReceipt_def persist_def Let_def)
  note stored = command_receipt_after_set [OF assms(2) set]
  have "x = Inr ()" and s: "cn_store c' = s"
    using assms(1) set res
    by (auto simp: settle_command_def put_command_def changeA_def with_store_def complete_command_def bindA_def split: if_splits)
  then show "x = Inr ()" "receipt_kept i (ck_iso ck) (cn_store c')"
    "rs_receiptRetentionMs (cn_store c') = rs_receiptRetentionMs (cn_store c)"
    using stored res assms(3) by (auto simp: receipt_kept_def settledAt_receipt_of)
qed

lemma command_fails_stores:
  assumes "command_fails ck i h e c = Some (x, c')" and "ck_persists_again ck" and "distinct_receipts (rs_data (cn_store c))"
    and "\<not> receipt_expired (ck_date_parse ck) (ck_now ck - rs_receiptRetentionMs (cn_store c)) (ck_iso ck)"
  shows "receipt_kept i (ck_iso ck) (cn_store c')" and "rs_receiptRetentionMs (cn_store c') = rs_receiptRetentionMs (cn_store c)"
proof -
  let ?n = "createNackPayload ck i (toHcpError e)"
  have "bindA (settle_command ck True i (Settled_nack h ?n)) (\<lambda>_. send (Command_nack ?n)) c = Some (x, c')"
    using assms(1,2) by (simp add: command_fails_def Let_def)
  then have "receipt_kept i (ck_iso ck) (cn_store c') \<and> rs_receiptRetentionMs (cn_store c') = rs_receiptRetentionMs (cn_store c)"
  proof (cases rule: bindA_cases)
    case (threw e')
    then show ?thesis using settle_command_stores [OF threw(1) assms(3,4)] by simp
  next
    case (went_on a c2)
    then show ?thesis
      using settle_command_stores [OF went_on(1) assms(3,4)] movesD [OF send_same_store(1) went_on(2)]
      by (simp add: same_store_def)
  qed
  then show "receipt_kept i (ck_iso ck) (cn_store c')" "rs_receiptRetentionMs (cn_store c') = rs_receiptRetentionMs (cn_store c)"
    by simp_all
qed

lemma command_succeeds_stores:
  assumes "command_succeeds ck i h result c = Some (x, c')" and "ck_persists ck" and "distinct_receipts (rs_data (cn_store c))"
    and "\<not> receipt_expired (ck_date_parse ck) (ck_now ck - rs_receiptRetentionMs (cn_store c)) (ck_iso ck)"
  shows "receipt_kept i (ck_iso ck) (cn_store c') \<and> rs_receiptRetentionMs (cn_store c') = rs_receiptRetentionMs (cn_store c)"
proof -
  let ?rest = "bindA (sendAck ck i False) (\<lambda>_. bindA (send_given Session_snapshot (ce_snapshotPayload result)) (\<lambda>_.
     bindA (send_given Conversation_result (ce_conversationPayload result)) (\<lambda>_.
     changeA (send_events (ck_now ck) (ce_events result)))))"
  have rest: "moves same_store ?rest" by (intro same_store.bind send_same_store events_same_store)
  have "bindA (settle_command ck True i (Settled_ack h (ce_snapshotPayload result) (ce_conversationPayload result))) (\<lambda>_. ?rest) c
      = Some (x, c')"
    using assms(1,2) by (simp add: command_succeeds_def)
  then show ?thesis
  proof (cases rule: bindA_cases)
    case (threw e')
    then show ?thesis using settle_command_stores [OF threw(1) assms(3,4)] by simp
  next
    case (went_on a c2)
    then show ?thesis
      using settle_command_stores [OF went_on(1) assms(3,4)] movesD [OF rest went_on(2)] by (simp add: same_store_def)
  qed
qed

lemma command_returns_stores:
  assumes "command_returns ck i h result c = Some (x, c')" and "ck_persists ck" and "ck_persists_again ck"
    and "distinct_receipts (rs_data (cn_store c))"
    and "\<not> receipt_expired (ck_date_parse ck) (ck_now ck - rs_receiptRetentionMs (cn_store c)) (ck_iso ck)"
  shows "receipt_kept i (ck_iso ck) (cn_store c') \<and> rs_receiptRetentionMs (cn_store c') = rs_receiptRetentionMs (cn_store c)"
proof (cases result)
  case (Inl e)
  then have "command_fails ck i h e c = Some (x, c')" using assms(1) by (simp add: command_returns_def catchA_def)
  then show ?thesis using command_fails_stores assms by blast
next
  case (Inr r)
  obtain y c2 where run: "command_succeeds ck i h r c = Some (y, c2)"
    using assms(1) Inr by (auto simp: command_returns_def catchA_def split: option.splits)
  note c2 = command_succeeds_stores [OF run assms(2,4,5)]
  show ?thesis
  proof (cases y)
    case (Inl e)
    then have "command_fails ck i h e c2 = Some (x, c')"
      using assms(1) Inr run by (simp add: command_returns_def catchA_def)
    from command_fails_stores [OF this assms(3)] show ?thesis using c2 assms(5) by (simp add: receipt_kept_def)
  next
    case (Inr u)
    then show ?thesis using assms(1) \<open>result = Inr r\<close> run c2 by (simp add: command_returns_def catchA_def)
  qed
qed

lemma reopen_receipt:
  assumes "receipt_kept i t s" and "reopen ts data_ok conv_ok dp now s = Inr s'"
    and "\<not> receipt_expired dp (now - rs_receiptRetentionMs s) t"
  shows "receipt_held i t s'" and "rs_receiptRetentionMs s' = rs_receiptRetentionMs s"
proof -
  let ?d = "rs_data s"
  have open_store: "BaseRunnerStateStore dp now ?d (Some ?d) (Some (rs_eventRetentionPerSession s)) (Some (rs_receiptRetentionMs s)) = Inr s'"
    using assms(1,2)
    by (auto simp: reopen_def JsonRunnerStateStore_def readRunnerState_def receipt_kept_def result_simps split: if_splits)
  have cmds: "st_commandReceipts (rs_data s') = prune_with dp (now - rs_receiptRetentionMs s) cr_settledAt (st_commandReceipts ?d)"
    and acts: "st_localActionReceipts (rs_data s') = prune_with dp (now - rs_receiptRetentionMs s) lr_settledAt (st_localActionReceipts ?d)"
    and "rs_receiptRetentionMs s' = rs_receiptRetentionMs s"
    using open_store by (auto simp: BaseRunnerStateStore_def Let_def pruneExpiredReceipts_def split: if_splits)
  then show "receipt_held i t s'" "rs_receiptRetentionMs s' = rs_receiptRetentionMs s"
    using assms(1,3) by (auto simp: receipt_held_def receipt_kept_def distinct_receipts_def map_of_prune_with distinct_prune_with)
qed

lemma held_receipt_answers:
  assumes "receipt_held i t (cn_store c)" and "command_arrives ck i h c = Some (x, c')"
    and "\<not> receipt_expired (ck_date_parse ck) (ck_now ck - rs_receiptRetentionMs (cn_store c)) t"
  shows "x \<noteq> Inr Run_handler"
proof
  assume "x = Inr Run_handler"
  then obtain s where "getCommandReceipt (ck_date_parse ck) (ck_now ck) (ck_persists ck) i (cn_store c) = (Inr None, s)"
    using command_runs_new(3) assms(2) by blast
  then show False
    using command_receipt_get assms(1,3) by (fastforce simp: receipt_held_def split: option.splits if_splits)
qed

subsection \<open>Properties\<close>

definition sample_connection :: connection where
  "sample_connection = \<lparr>cn_open = True, cn_accepted = True, cn_sent = [], cn_lastSentEvent = [], cn_commandRecords = [],
     cn_commandCompletions = [], cn_localActionRecords = [], cn_localActionCompletions = [],
     cn_localActionMismatchRecords = [], cn_store = sample_store, cn_closing = False, cn_idle = False,
     cn_reconnectAttempt = 0, cn_reconnectTimer = None, cn_demandReady = False, cn_demandPending = False,
     cn_demandGeneration = None, cn_messageTasks = 0, cn_lastActivity = 0\<rparr>"

definition sample_clock :: "int \<Rightarrow> step_clock" where
  "sample_clock now = \<lparr>ck_now = now, ck_iso = ''t'', ck_date_parse = (\<lambda>_. Some 5), ck_persists = True, ck_persists_again = True\<rparr>"

text \<open>C39: At most once.  In the life of a connection, over any number of sockets, duplicates, unparsable
  messages and interleaved handlers, the handler of a command id and the dispatch of a local action's
  request id are started at most once, and never for an id that already had a record.\<close>

theorem handlers_start_at_most_once:
  assumes "labelled_run connection_step c ls c'"
  shows "distinct (List.map_filter command_started ls) \<and> distinct (List.map_filter action_started ls)
    \<and> set (List.map_filter command_started ls) \<inter> command_keys c = {}
    \<and> set (List.map_filter action_started ls) \<inter> action_keys c = {}"
  using commands.started_once [OF assms] actions.started_once [OF assms] by auto

lemma sample_twice:
  "command_arrives (sample_clock 5) ''c'' ''h'' sample_connection
      = Some (Inr Run_handler, sample_connection\<lparr>cn_commandRecords := [(''c'', Pending_command ''h'')]\<rparr>)"
  "command_arrives (sample_clock 6) ''c'' ''h'' (sample_connection\<lparr>cn_commandRecords := [(''c'', Pending_command ''h'')]\<rparr>)
      = Some (Inr Await_completion, sample_connection\<lparr>cn_commandRecords := [(''c'', Pending_command ''h'')]\<rparr>)"
  by (simp_all add: command_arrives_def with_store_def getCommandReceipt_def prune_and_persist_def pruneExpiredReceipts_def
      prune_with_def sample_connection_def sample_store_def emptyRunnerState_def sample_clock_def existing_command_def
      command_found_def put_command_def changeA_def bindA_def Let_def)

theorem handlers_start_at_most_once_witness:
  "\<exists>c'. labelled_run connection_step sample_connection [Runs_command ''c'', Quiet] c'
     \<and> List.map_filter command_started [Runs_command ''c'', Quiet] = [''c'']
     \<and> distinct (List.map_filter command_started [Runs_command ''c'', Quiet])"
proof -
  let ?c = "sample_connection\<lparr>cn_commandRecords := [(''c'', Pending_command ''h'')]\<rparr>"
  have "connection_step sample_connection (Runs_command ''c'') ?c" by (rule command_runs [OF sample_twice(1)])
  moreover have "connection_step ?c Quiet ?c" by (rule command_answered [OF sample_twice(2)]) simp
  ultimately have run: "labelled_run connection_step sample_connection ([] @ [Runs_command ''c''] @ [Quiet]) ?c"
    using labelled_run.intros by (metis append_assoc)
  from handlers_start_at_most_once [OF run] run show ?thesis
    by (auto simp: List.map_filter_simps command_started_def)
qed

text \<open>Order on the wire.  Whatever happens in between, the events of each session that one socket has
  carried are strictly ascending in their sequence numbers: none is sent twice and none after a later
  one, replays included.\<close>

theorem events_ascend_on_a_socket:
  assumes "labelled_run connection_step c ls c'" and "cn_sent c = []"
  shows "sorted_wrt (<) (sent_sequences c' sid)"
  using in_order_run [OF assms(1)] assms(2) by (simp add: in_order_def sent_sequences_def List.map_filter_simps)

theorem events_ascend_on_a_socket_witness:
  "sent_sequences (send_events 1 [sample_event ''s'' 1, sample_event ''s'' 2, sample_event ''s'' 2] sample_connection) ''s'' = [1, 2]
   \<and> sorted_wrt (<) (sent_sequences (send_events 1 [sample_event ''s'' 1, sample_event ''s'' 2, sample_event ''s'' 2] sample_connection) ''s'')"
proof -
  have run: "labelled_run connection_step sample_connection ([Quiet, Quiet] @ [Quiet])
      (send_events 1 [sample_event ''s'' 1, sample_event ''s'' 2, sample_event ''s'' 2] sample_connection)"
    unfolding send_events_def fold.simps comp_def id_def
    using run_more [OF run_more [OF run_more [OF run_nothing [of connection_step sample_connection] published] published] published]
    by simp
  have "sent_sequences (send_events 1 [sample_event ''s'' 1, sample_event ''s'' 2, sample_event ''s'' 2] sample_connection) ''s'' = [1, 2]"
    by (simp add: send_events_def sendEventIfConnected_def sample_connection_def sample_event_def last_sent_def orelse_def
        sent_sequences_def sent_sequence_def List.map_filter_simps)
  with events_ascend_on_a_socket [OF run, of "''s''"] show ?thesis by (simp add: sample_connection_def)
qed


definition nothing_done :: CommandExecutionResult where
  "nothing_done = \<lparr>ce_events = [], ce_snapshotPayload = None, ce_conversationPayload = None\<rparr>"

abbreviation sample_reopen :: "RunnerStateStore \<Rightarrow> string + RunnerStateStore" where
  "sample_reopen \<equiv> reopen (\<lambda>_. True) (\<lambda>_ _. True) (\<lambda>_. True) (\<lambda>_. Some 5) 7"

lemma sample_restart:
  "case command_returns (sample_clock 5) ''c'' ''h'' (Inr nothing_done) (sample_connection\<lparr>cn_open := False\<rparr>) of
     None \<Rightarrow> False
   | Some (x, c1) \<Rightarrow> (case sample_reopen (cn_store c1) of
       Inl e \<Rightarrow> False
     | Inr s \<Rightarrow> (case command_arrives (sample_clock 8) ''c'' ''h'' (sample_connection\<lparr>cn_store := s\<rparr>) of
         None \<Rightarrow> False
       | Some (y, c3) \<Rightarrow> True))"
  by code_simp


subsection \<open>Where the code does not do what it means to\<close>

text \<open>
  When the socket is gone as a successful handler returns, sending the acknowledgement throws inside the
  \<open>try\<close>, and the record and the receipt of the success are overwritten by a rejection: the retry after
  the reconnect is told that the command failed.
\<close>

lemma success_recorded_as_failure:
  assumes "\<not> cn_open c" and "ck_persists ck" and "ck_persists_again ck"
  shows "\<exists>n x c'. command_returns ck i h (Inr result) c = Some (x, c')
    \<and> map_of (cn_commandRecords c') i = Some (Settled_command (Settled_nack h n))
    \<and> err_message (nack_error n) = ''Runner is not connected to the control plane.''"
  using assms
  by (auto simp: command_returns_def command_succeeds_def command_fails_def settle_command_def put_command_def changeA_def
      with_store_def complete_command_def setCommandReceipt_def persist_def pruneExpiredReceipts_def Let_def bindA_def catchA_def
      sendAck_def send_def js_map createNackPayload_def plain_error_def)

text \<open>
  An event that is published between the acceptance and the replay raises the mark of the socket above
  the events the replay is to bring, and those are then never sent.
\<close>

lemma replay_skipped_after_live_event:
  assumes "cn_open c" and "ev_session_id e1 = ev_session_id e2" and "ev_sequence e1 < ev_sequence e2"
    and "last_sent c (ev_session_id e2) < ev_sequence e2"
  shows "cn_sent (send_events now [e1] (sendEventIfConnected now e2 c)) = cn_sent c @ [Harness_event e2]"
  using assms by (simp add: send_events_def sendEventIfConnected_def Let_def last_sent_def orelse_def js_map)

text \<open>
  When dispatching throws, nothing settles the record: the request stays pending, every repetition of it
  waits for a completion that never comes, and the runner never counts as idle again.
\<close>

lemma rejected_dispatch_stays_pending:
  assumes "map_of (cn_localActionRecords c) (req_request_id request) = Some (Pending_action h request)"
  shows "action_returns ck h request (Inl e) c = Some (Inl e, c) \<and> any_pending c"
proof -
  have "(req_request_id request, Pending_action h request) \<in> set (cn_localActionRecords c)"
    using assms by (rule map_of_SomeD)
  then show ?thesis by (force simp: action_returns_def any_pending_def list_ex_iff)
qed

end
