(* ===== verification/Native_Records.thy ===== *)
theory Native_Records
  imports Protocol
begin

text \<open>
  The records of what a native provider was asked to do: the native-work state of a session and the
  retained native conversation (\<open>packages/hcp-runner/src/state/index.ts\<close>,
  \<open>state/native-policy-control.ts\<close>, \<open>state/native-work-custody.ts\<close>), with the protocol types they
  store (\<open>native-work.ts\<close>, \<open>native-goal.ts\<close>, \<open>policy-control.ts\<close>, \<open>feedback.ts\<close>, \<open>conversation.ts\<close>
  of \<open>packages/hcp-protocol/src\<close>).

  A dictionary is the list of its entries.  A zod schema is the predicate its constraints state;
  \<open>ts\<close> is zod's timestamp format check.  A conversation history, a content chunk and an input-file
  result are carried as JSON: no operation here looks inside them.
\<close>

subsection \<open>Formats\<close>

definition MAX_SAFE_INTEGER :: int where
  "MAX_SAFE_INTEGER = 9007199254740991"

definition is_lower :: "char \<Rightarrow> bool" where
  "is_lower c = (97 \<le> (of_char c :: nat) \<and> (of_char c :: nat) \<le> 122)"

definition hexadecimal :: "char \<Rightarrow> bool" where
  "hexadecimal c = (is_digit c \<or> 97 \<le> (of_char c :: nat) \<and> (of_char c :: nat) \<le> 102)"

definition sha256_text :: "string \<Rightarrow> bool" where
  "sha256_text s = (length s = 64 \<and> list_all hexadecimal s)"

definition identity :: "string \<Rightarrow> bool" where
  "identity s = (1 \<le> length s \<and> length s \<le> 512)"

definition counter :: "int \<Rightarrow> bool" where
  "counter n = (0 \<le> n \<and> n \<le> MAX_SAFE_INTEGER)"

definition positive_counter :: "int \<Rightarrow> bool" where
  "positive_counter n = (0 < n \<and> n \<le> MAX_SAFE_INTEGER)"

text \<open>\<open>/^[a-z][...]{0,n}$/\<close> with the class of the later characters given.\<close>

definition name_text :: "(char \<Rightarrow> bool) \<Rightarrow> nat \<Rightarrow> string \<Rightarrow> bool" where
  "name_text rest n s = (case s of [] \<Rightarrow> False | c # cs \<Rightarrow> is_lower c \<and> length cs \<le> n \<and> list_all rest cs)"

definition classification_text :: "string \<Rightarrow> bool" where
  "classification_text = name_text (\<lambda>c. is_lower c \<or> is_digit c \<or> c = CHR ''_'' \<or> c = CHR ''-'') 63"

definition custody_source_text :: "string \<Rightarrow> bool" where
  "custody_source_text =
     name_text (\<lambda>c. is_lower c \<or> is_digit c \<or> c = CHR ''_'' \<or> c = CHR ''.'' \<or> c = CHR ''-'') 63"

definition native_source_text :: "string \<Rightarrow> bool" where
  "native_source_text = name_text (\<lambda>c. is_lower c \<or> is_digit c \<or> c = CHR ''_'' \<or> c = CHR ''.'') 127"

subsection \<open>Native work\<close>

datatype work_kind = Work_agent | Work_task | Work_command
datatype work_status = Work_running | Work_waiting | Work_completed | Work_failed | Work_cancelled | Work_unknown

record work_progress =
  wp_total_tokens :: int
  wp_tool_uses :: int
  wp_duration_ms :: int
  wp_last_tool_name :: "string option"

datatype content_format = Format_text | Format_json

record HarnessContentReference =
  cref_content_id :: string
  cref_sha256 :: string
  cref_byte_length :: int
  cref_format :: content_format
  cref_expires_at :: string

datatype control_phase = Control_pending | Control_accepted

record work_control =
  wc_command_id :: string
  wc_request_hash :: string
  wc_phase :: control_phase

record HarnessNativeWorkRecord =
  wk_work_id :: string
  wk_native_reference :: string
  wk_origin_turn_id :: string
  wk_parent_work_id :: "string option"
  wk_kind :: work_kind
  wk_background :: bool
  wk_status :: work_status
  wk_supports_cancel :: bool
  wk_summary :: "string option"
  wk_model :: "string option"
  wk_progress :: "work_progress option"
  wk_content_ref :: "HarnessContentReference option"
  wk_revision :: int
  wk_control :: "work_control option"

definition isNativeWorkTerminal :: "work_status \<Rightarrow> bool" where
  "isNativeWorkTerminal status = (status = Work_completed \<or> status = Work_failed \<or> status = Work_cancelled)"

definition HARNESS_CONTENT_MAX_BYTES :: int where
  "HARNESS_CONTENT_MAX_BYTES = 128 * 1024 * 1024"

definition harnessContentReferenceSchema :: "(string \<Rightarrow> bool) \<Rightarrow> HarnessContentReference \<Rightarrow> bool" where
  "harnessContentReferenceSchema ts r =
     (sha256_text (cref_content_id r) \<and> sha256_text (cref_sha256 r)
      \<and> 0 \<le> cref_byte_length r \<and> cref_byte_length r \<le> HARNESS_CONTENT_MAX_BYTES \<and> ts (cref_expires_at r))"

definition harnessNativeWorkObservationSchema :: "(string \<Rightarrow> bool) \<Rightarrow> HarnessNativeWorkRecord \<Rightarrow> bool" where
  "harnessNativeWorkObservationSchema ts w =
     (identity (wk_work_id w) \<and> identity (wk_native_reference w) \<and> identity (wk_origin_turn_id w)
      \<and> opt_ok identity (wk_parent_work_id w)
      \<and> opt_ok (\<lambda>s. length s \<le> 2048) (wk_summary w) \<and> opt_ok identity (wk_model w)
      \<and> opt_ok (\<lambda>p. counter (wp_total_tokens p) \<and> counter (wp_tool_uses p) \<and> counter (wp_duration_ms p)
                    \<and> opt_ok identity (wp_last_tool_name p)) (wk_progress w)
      \<and> opt_ok (harnessContentReferenceSchema ts) (wk_content_ref w))"

definition harnessNativeWorkRecordSchema :: "(string \<Rightarrow> bool) \<Rightarrow> HarnessNativeWorkRecord \<Rightarrow> bool" where
  "harnessNativeWorkRecordSchema ts w =
     (harnessNativeWorkObservationSchema ts w \<and> positive_counter (wk_revision w)
      \<and> opt_ok (\<lambda>c. identity (wc_command_id c) \<and> sha256_text (wc_request_hash c)) (wk_control w))"

record NativeWorkCustody =
  cu_source :: string
  cu_work_id :: string
  cu_native_reference :: string
  cu_origin_turn_id :: string
  cu_parent_work_id :: "string option"
  cu_root_native_reference :: string
  cu_parent_native_reference :: string
  cu_launch_native_reference :: string
  cu_native_execution_reference :: "string option"

definition nativeWorkCustodySchema :: "NativeWorkCustody \<Rightarrow> bool" where
  "nativeWorkCustodySchema c =
     (custody_source_text (cu_source c) \<and> identity (cu_work_id c) \<and> identity (cu_native_reference c)
      \<and> identity (cu_origin_turn_id c) \<and> opt_ok identity (cu_parent_work_id c)
      \<and> identity (cu_root_native_reference c) \<and> identity (cu_parent_native_reference c)
      \<and> identity (cu_launch_native_reference c) \<and> opt_ok identity (cu_native_execution_reference c))"

subsection \<open>Goals\<close>

datatype goal_status = Goal_active | Goal_paused | Goal_blocked | Goal_usage_limited | Goal_budget_limited | Goal_complete

record HarnessNativeGoalObservation =
  go_native_reference :: string
  go_native_created_at :: int
  go_native_updated_at :: int
  go_objective :: string
  go_status :: goal_status
  go_tokens_used :: int
  go_time_used_seconds :: int
  go_token_budget :: "int option"

record HarnessNativeGoalRecord =
  gr_admission_id :: string
  gr_origin_turn_id :: string
  gr_observation :: HarnessNativeGoalObservation

definition objective_text :: "string \<Rightarrow> bool" where
  "objective_text s = (1 \<le> length s \<and> length s \<le> 128 * 1024)"

definition harnessNativeGoalObservationSchema :: "HarnessNativeGoalObservation \<Rightarrow> bool" where
  "harnessNativeGoalObservationSchema g =
     (identity (go_native_reference g) \<and> counter (go_native_created_at g) \<and> counter (go_native_updated_at g)
      \<and> objective_text (go_objective g) \<and> counter (go_tokens_used g) \<and> counter (go_time_used_seconds g)
      \<and> opt_ok positive_counter (go_token_budget g))"

definition harnessNativeGoalRecordSchema :: "HarnessNativeGoalRecord \<Rightarrow> bool" where
  "harnessNativeGoalRecordSchema g =
     (identity (gr_admission_id g) \<and> identity (gr_origin_turn_id g) \<and> harnessNativeGoalObservationSchema (gr_observation g))"

datatype HarnessNativeGoalResult =
    Goal_read (gres_native_reference: string) "HarnessNativeGoalObservation option"
  | Goal_pause (gres_native_reference: string) (gres_target: int) HarnessNativeGoalObservation
  | Goal_clear (gres_native_reference: string) (gres_target: int)

fun harnessNativeGoalResultSchema :: "HarnessNativeGoalResult \<Rightarrow> bool" where
  "harnessNativeGoalResultSchema (Goal_read ref g) =
     (identity ref \<and> opt_ok (\<lambda>o1. harnessNativeGoalObservationSchema o1 \<and> go_native_reference o1 = ref) g)"
| "harnessNativeGoalResultSchema (Goal_pause ref target g) =
     (identity ref \<and> counter target \<and> harnessNativeGoalObservationSchema g \<and> go_status g = Goal_paused
      \<and> go_native_reference g = ref \<and> go_native_created_at g = target)"
| "harnessNativeGoalResultSchema (Goal_clear ref target) = (identity ref \<and> counter target)"

subsection \<open>Policies\<close>

datatype approval_reviewer = Reviewer_user | Reviewer_native_auto

record HarnessNativePolicySelection =
  sel_approval_policy :: approval_policy
  sel_approval_reviewer :: approval_reviewer

definition harnessNativePolicySelectionSchema :: "HarnessNativePolicySelection \<Rightarrow> bool" where
  "harnessNativePolicySelectionSchema s =
     (sel_approval_policy s = Auto_edits \<or> sel_approval_reviewer s = Reviewer_user)"

definition nativePolicySelectionKey :: "HarnessNativePolicySelection \<Rightarrow> string" where
  "nativePolicySelectionKey s =
     (case sel_approval_policy s of Ask \<Rightarrow> ''ask'' | Auto_edits \<Rightarrow> ''auto_edits'' | Full_access \<Rightarrow> ''full_access'')
     @ '':'' @ (case sel_approval_reviewer s of Reviewer_user \<Rightarrow> ''user'' | Reviewer_native_auto \<Rightarrow> ''native_auto'')"

record HarnessNativePolicyControlResult =
  pr_native_reference :: string
  pr_revision :: int
  pr_selection :: HarnessNativePolicySelection
  pr_observed_at :: string
  pr_native_source :: string
  pr_native_permission_mode :: string

definition harnessNativePolicyControlResultSchema :: "(string \<Rightarrow> bool) \<Rightarrow> HarnessNativePolicyControlResult \<Rightarrow> bool" where
  "harnessNativePolicyControlResultSchema ts r =
     (identity (pr_native_reference r) \<and> 1 \<le> pr_revision r \<and> pr_revision r \<le> 1024
      \<and> harnessNativePolicySelectionSchema (pr_selection r) \<and> ts (pr_observed_at r)
      \<and> native_source_text (pr_native_source r)
      \<and> 1 \<le> length (pr_native_permission_mode r) \<and> length (pr_native_permission_mode r) \<le> 128)"

subsection \<open>Feedback\<close>

record HarnessNativeFeedbackResult =
  fb_feedback_id :: string
  fb_classification :: string
  fb_diagnostics_requested :: bool

definition harnessNativeFeedbackResultSchema :: "HarnessNativeFeedbackResult \<Rightarrow> bool" where
  "harnessNativeFeedbackResultSchema r = (identity (fb_feedback_id r) \<and> classification_text (fb_classification r))"

subsection \<open>Conversation results\<close>

record fork_reference =
  fr_session_id :: string
  fr_continuation_group_key :: string
  fr_native_reference :: string

datatype HarnessNativeWorkResult =
    Work_result_reconcile (wr_work_id: string) (wr_revision: int) (wr_status: work_status)
  | Work_result_fork (wr_work_id: string) (wr_revision: int) (wr_fork: fork_reference)
  | Work_result_history (wr_work_id: string) (wr_revision: int) (wr_owner_active: bool) (wr_history: json)
  | Work_result_read (wr_owner_active: bool) (wr_observation_hash: string) (wr_closure_unconfirmed: bool)
      (wr_total_count: int) (wr_next_cursor: "string option") (wr_items: "(HarnessNativeWorkRecord \<times> bool) list")
  | Work_result_cancel (wr_work_id: string) (wr_already_terminal: bool)
  | Work_result_retire (wr_work_id: string)

fun harnessNativeWorkResultSchema ::
  "(string \<Rightarrow> bool) \<Rightarrow> (string \<Rightarrow> json \<Rightarrow> bool) \<Rightarrow> HarnessNativeWorkResult \<Rightarrow> bool" where
  "harnessNativeWorkResultSchema ts body_ok (Work_result_reconcile w r st) =
     (identity w \<and> positive_counter r \<and> isNativeWorkTerminal st)"
| "harnessNativeWorkResultSchema ts body_ok (Work_result_fork w r f) =
     (identity w \<and> positive_counter r \<and> identity (fr_session_id f) \<and> identity (fr_continuation_group_key f)
      \<and> nonEmptyStringSchema (fr_native_reference f))"
| "harnessNativeWorkResultSchema ts body_ok (Work_result_history w r active h) =
     (identity w \<and> positive_counter r \<and> body_ok ''history'' h)"
| "harnessNativeWorkResultSchema ts body_ok (Work_result_read active h unconfirmed n cursor items) =
     (sha256_text h \<and> 0 \<le> n \<and> n \<le> 128 \<and> opt_ok (\<lambda>c. 1 \<le> length c \<and> length c \<le> 1024) cursor
      \<and> length items \<le> 32 \<and> list_all (\<lambda>(w, _). harnessNativeWorkRecordSchema ts w) items)"
| "harnessNativeWorkResultSchema ts body_ok (Work_result_cancel w already) = identity w"
| "harnessNativeWorkResultSchema ts body_ok (Work_result_retire w) = identity w"

datatype injection_outcome = Injection_applied int | Injection_unsupported

datatype conversation_operation =
    Op_read | Op_rollback | Op_retire | Op_steer | Op_fork | Op_content | Op_work | Op_inject
  | Op_input_file | Op_feedback | Op_goal | Op_policy

record HcpConversationResultPayload =
  cs_command_id :: string
  cs_session_id :: string
  cs_operation :: conversation_operation
  cs_policy :: "HarnessNativePolicyControlResult option"
  cs_goal :: "HarnessNativeGoalResult option"
  cs_feedback :: "HarnessNativeFeedbackResult option"
  cs_input_file :: "json option"
  cs_injection :: "injection_outcome option"
  cs_work :: "HarnessNativeWorkResult option"
  cs_content :: "json option"
  cs_native_reference :: "string option"
  cs_native_fresh :: bool
  cs_turn_id :: "string option"
  cs_fork :: "fork_reference option"
  cs_history :: "json option"

definition hcpConversationResultPayloadSchema ::
  "(string \<Rightarrow> bool) \<Rightarrow> (string \<Rightarrow> json \<Rightarrow> bool) \<Rightarrow> HcpConversationResultPayload \<Rightarrow> bool" where
  "hcpConversationResultPayloadSchema ts body_ok r =
     (nonEmptyStringSchema (cs_command_id r) \<and> nonEmptyStringSchema (cs_session_id r)
      \<and> opt_ok (harnessNativePolicyControlResultSchema ts) (cs_policy r)
      \<and> opt_ok harnessNativeGoalResultSchema (cs_goal r)
      \<and> opt_ok harnessNativeFeedbackResultSchema (cs_feedback r)
      \<and> opt_ok (body_ok ''input_file'') (cs_input_file r)
      \<and> opt_ok (\<lambda>i. case i of Injection_applied n \<Rightarrow> 1 \<le> n \<and> n \<le> 100 | Injection_unsupported \<Rightarrow> True) (cs_injection r)
      \<and> opt_ok (harnessNativeWorkResultSchema ts body_ok) (cs_work r)
      \<and> opt_ok (body_ok ''content'') (cs_content r)
      \<and> opt_ok nonEmptyStringSchema (cs_native_reference r) \<and> opt_ok nonEmptyStringSchema (cs_turn_id r)
      \<and> opt_ok (\<lambda>f. nonEmptyStringSchema (fr_session_id f) \<and> nonEmptyStringSchema (fr_continuation_group_key f)
                    \<and> nonEmptyStringSchema (fr_native_reference f)) (cs_fork r)
      \<and> opt_ok (body_ok ''history'') (cs_history r)
      \<and> (cs_operation r = Op_policy \<longleftrightarrow> cs_policy r \<noteq> None)
      \<and> (cs_operation r = Op_policy \<longrightarrow> cs_history r = None \<and> cs_native_reference r = None \<and> cs_turn_id r = None
           \<and> cs_fork r = None \<and> cs_content r = None \<and> cs_work r = None \<and> cs_input_file r = None
           \<and> cs_feedback r = None \<and> cs_goal r = None \<and> cs_injection r = None)
      \<and> (cs_operation r = Op_read \<or> cs_operation r = Op_rollback \<longrightarrow> cs_history r \<noteq> None)
      \<and> (cs_operation r = Op_fork \<longrightarrow> cs_fork r \<noteq> None)
      \<and> (cs_operation r = Op_steer \<longrightarrow> cs_turn_id r \<noteq> None)
      \<and> (cs_operation r = Op_content \<longrightarrow> cs_content r \<noteq> None)
      \<and> (cs_operation r = Op_work \<longrightarrow> cs_work r \<noteq> None)
      \<and> (cs_operation r = Op_input_file \<longleftrightarrow> cs_input_file r \<noteq> None)
      \<and> (cs_operation r = Op_feedback \<longleftrightarrow> cs_feedback r \<noteq> None)
      \<and> (cs_operation r = Op_goal \<longleftrightarrow> cs_goal r \<noteq> None)
      \<and> (cs_operation r = Op_inject \<longleftrightarrow> cs_injection r \<noteq> None)
      \<and> (cs_native_fresh r \<longrightarrow> cs_operation r = Op_fork \<or> cs_operation r = Op_rollback))"

subsection \<open>Receipts of a mutation: pending before the dispatch, completed after its confirmation\<close>

datatype receipt_phase = Receipt_pending | Receipt_completed

definition sha256_pair :: "string \<Rightarrow> string \<Rightarrow> bool" where
  "sha256_pair commandId requestHash = (identity commandId \<and> sha256_text requestHash)"

record NativePolicyControlReceipt =
  pc_command_id :: string
  pc_source_session_id :: string
  pc_native_reference :: string
  pc_request_hash :: string
  pc_source_binding_hash :: string
  pc_target_binding_hash :: string
  pc_source_revision :: int
  pc_execution_inventory_hash :: "string option"
  pc_selection :: HarnessNativePolicySelection
  pc_phase :: receipt_phase
  pc_result :: "HcpConversationResultPayload option"

definition nativePolicyControlReceiptSchema ::
  "(string \<Rightarrow> bool) \<Rightarrow> (string \<Rightarrow> json \<Rightarrow> bool) \<Rightarrow> NativePolicyControlReceipt \<Rightarrow> bool" where
  "nativePolicyControlReceiptSchema ts body_ok r =
     (sha256_pair (pc_command_id r) (pc_request_hash r) \<and> identity (pc_source_session_id r)
      \<and> identity (pc_native_reference r) \<and> sha256_text (pc_source_binding_hash r) \<and> sha256_text (pc_target_binding_hash r)
      \<and> 0 \<le> pc_source_revision r \<and> pc_source_revision r \<le> 1023
      \<and> opt_ok sha256_text (pc_execution_inventory_hash r) \<and> harnessNativePolicySelectionSchema (pc_selection r)
      \<and> opt_ok (hcpConversationResultPayloadSchema ts body_ok) (pc_result r)
      \<and> pc_source_binding_hash r \<noteq> pc_target_binding_hash r
      \<and> (case pc_phase r of
           Receipt_pending \<Rightarrow> pc_result r = None
         | Receipt_completed \<Rightarrow>
             pc_execution_inventory_hash r \<noteq> None
             \<and> (case pc_result r of None \<Rightarrow> False
                | Some c \<Rightarrow> cs_command_id c = pc_command_id r \<and> cs_session_id c = pc_source_session_id r
                    \<and> cs_operation c = Op_policy
                    \<and> (case cs_policy c of None \<Rightarrow> False
                       | Some p \<Rightarrow> pr_native_reference p = pc_native_reference r
                           \<and> pr_revision p = pc_source_revision r + 1
                           \<and> nativePolicySelectionKey (pr_selection p) = nativePolicySelectionKey (pc_selection r)))))"

text \<open>
  The revisions form one chain per session: \<open>commands\<close> are the command ids seen, \<open>owners\<close> the last
  receipt of every session, \<open>before\<close> the receipt before this one.
\<close>

fun policy_chain ::
  "string list \<Rightarrow> (string \<times> NativePolicyControlReceipt) list \<Rightarrow> NativePolicyControlReceipt option
    \<Rightarrow> NativePolicyControlReceipt list \<Rightarrow> bool" where
  "policy_chain commands owners before [] = True"
| "policy_chain commands owners before (r # rs) =
     (\<not> List.member commands (pc_command_id r)
      \<and> (case map_of owners (pc_source_session_id r) of
           None \<Rightarrow> pc_source_revision r = 0
         | Some p \<Rightarrow> pc_source_revision r = pc_source_revision p + 1
             \<and> pc_native_reference p = pc_native_reference r \<and> pc_target_binding_hash p = pc_source_binding_hash r)
      \<and> opt_ok (\<lambda>b. pc_phase b = Receipt_completed) before
      \<and> policy_chain (pc_command_id r # commands) (AList.update (pc_source_session_id r) r owners) (Some r) rs)"

definition nativePolicyControlReceiptsSchema ::
  "(string \<Rightarrow> bool) \<Rightarrow> (string \<Rightarrow> json \<Rightarrow> bool) \<Rightarrow> NativePolicyControlReceipt list \<Rightarrow> bool" where
  "nativePolicyControlReceiptsSchema ts body_ok rs =
     (list_all (nativePolicyControlReceiptSchema ts body_ok) rs \<and> length rs \<le> 1024 \<and> policy_chain [] [] None rs)"

datatype goal_control_action = Control_pause | Control_clear

record goal_control =
  gc_command_id :: string
  gc_request_hash :: string
  gc_source_session_id :: string
  gc_native_thread_id :: string
  gc_action :: goal_control_action
  gc_native_created_at :: int
  gc_phase :: receipt_phase
  gc_result :: "HarnessNativeGoalResult option"

text \<open>\<open>result?.action === action\<close> and the two other equalities of the receipt's refinement.\<close>

definition goal_result_of :: "goal_control \<Rightarrow> HarnessNativeGoalResult \<Rightarrow> bool" where
  "goal_result_of r g =
     (case g of
        Goal_read ref o1 \<Rightarrow> False
      | Goal_pause ref target o1 \<Rightarrow>
          gc_action r = Control_pause \<and> ref = gc_native_thread_id r \<and> target = gc_native_created_at r
      | Goal_clear ref target \<Rightarrow>
          gc_action r = Control_clear \<and> ref = gc_native_thread_id r \<and> target = gc_native_created_at r)"

definition goal_control_schema :: "goal_control \<Rightarrow> bool" where
  "goal_control_schema r =
     (sha256_pair (gc_command_id r) (gc_request_hash r) \<and> identity (gc_source_session_id r)
      \<and> identity (gc_native_thread_id r) \<and> counter (gc_native_created_at r)
      \<and> opt_ok harnessNativeGoalResultSchema (gc_result r)
      \<and> (case gc_phase r of Receipt_pending \<Rightarrow> gc_result r = None
         | Receipt_completed \<Rightarrow> (case gc_result r of None \<Rightarrow> False | Some g \<Rightarrow> goal_result_of r g)))"

record feedback_submission =
  fs_command_id :: string
  fs_request_hash :: string
  fs_source_session_id :: string
  fs_native_thread_id :: string
  fs_classification :: string
  fs_include_diagnostics :: bool
  fs_phase :: receipt_phase
  fs_result :: "HarnessNativeFeedbackResult option"

definition feedback_submission_schema :: "feedback_submission \<Rightarrow> bool" where
  "feedback_submission_schema r =
     (sha256_pair (fs_command_id r) (fs_request_hash r) \<and> identity (fs_source_session_id r)
      \<and> identity (fs_native_thread_id r) \<and> classification_text (fs_classification r)
      \<and> opt_ok harnessNativeFeedbackResultSchema (fs_result r)
      \<and> (case fs_phase r of Receipt_pending \<Rightarrow> fs_result r = None
         | Receipt_completed \<Rightarrow> (case fs_result r of None \<Rightarrow> False
             | Some f \<Rightarrow> fb_classification f = fs_classification r
                 \<and> fb_diagnostics_requested f = fs_include_diagnostics r)))"

datatype transition_change = Change_policy | Change_mcp_catalog

record configuration_transition =
  ct_transition_id :: string
  ct_change :: "transition_change option"
  ct_source_binding_hash :: string
  ct_target_binding_hash :: string
  ct_expected_history_hash :: string
  ct_target_session_id :: string
  ct_phase :: receipt_phase

definition configuration_transition_schema :: "configuration_transition \<Rightarrow> bool" where
  "configuration_transition_schema r =
     (identity (ct_transition_id r) \<and> sha256_text (ct_source_binding_hash r) \<and> sha256_text (ct_target_binding_hash r)
      \<and> sha256_text (ct_expected_history_hash r) \<and> identity (ct_target_session_id r))"

datatype injection_receipt =
    Injection_pending (ij_command_id: string) (ij_request_hash: string)
  | Injection_completed (ij_command_id: string) (ij_request_hash: string) (ij_result: HcpConversationResultPayload)

definition injection_schema ::
  "(string \<Rightarrow> bool) \<Rightarrow> (string \<Rightarrow> json \<Rightarrow> bool) \<Rightarrow> injection_receipt \<Rightarrow> bool" where
  "injection_schema ts body_ok r =
     (sha256_pair (ij_command_id r) (ij_request_hash r)
      \<and> (case r of Injection_pending c h \<Rightarrow> True
         | Injection_completed c h res \<Rightarrow> hcpConversationResultPayloadSchema ts body_ok res
             \<and> cs_command_id res = c \<and> cs_operation res = Op_inject))"

record rollback_receipt =
  rb_command_id :: string
  rb_source_hash :: string
  rb_target_hash :: string
  rb_phase :: receipt_phase
  rb_replacement_native_thread_id :: "string option"
  rb_native_fresh :: bool

record fork_receipt =
  fk_command_id :: string
  fk_target_key :: string
  fk_target_session_id :: string
  fk_phase :: receipt_phase
  fk_request_hash :: "string option"
  fk_result :: "HcpConversationResultPayload option"

subsection \<open>The retained conversation\<close>

text \<open>
  An absent array of receipts is read as the empty one everywhere, and both are the empty list here.
\<close>

datatype permission_action = Perm_allow | Perm_ask | Perm_deny

record HarnessPermissionRule =
  rule_permission :: string
  rule_pattern :: string
  rule_action :: permission_action

datatype HarnessApprovalOptions =
    Prompt_categories (sandbox_escalation: bool) (execution_rules: bool) (skill_execution: bool)
      (permission_requests: bool) (mcp_elicitation: bool)
  | Reject_unapproved
  | Permission_rules "HarnessPermissionRule list"

definition permission_text :: "string \<Rightarrow> bool" where
  "permission_text s = (s = ''*'' \<or> name_text (\<lambda>c. is_lower c \<or> is_digit c \<or> c = CHR ''_'') 63 s)"

definition control_char :: "char \<Rightarrow> bool" where
  "control_char c = ((of_char c :: nat) \<le> 31 \<or> (of_char c :: nat) = 127)"

definition harnessPermissionRuleSchema :: "HarnessPermissionRule \<Rightarrow> bool" where
  "harnessPermissionRuleSchema r =
     (permission_text (rule_permission r)
      \<and> 1 \<le> length (rule_pattern r) \<and> length (rule_pattern r) \<le> 1024 \<and> \<not> list_ex control_char (rule_pattern r))"

definition harnessPermissionRulesSchema :: "HarnessPermissionRule list \<Rightarrow> bool" where
  "harnessPermissionRulesSchema rules =
     (list_all harnessPermissionRuleSchema rules \<and> length rules \<le> 128
      \<and> (case rules of [] \<Rightarrow> False | r # _ \<Rightarrow> rule_permission r = ''*'' \<and> rule_pattern r = ''*''))"

definition harnessApprovalOptionsSchema :: "HarnessApprovalOptions \<Rightarrow> bool" where
  "harnessApprovalOptionsSchema v =
     (case v of Permission_rules rules \<Rightarrow> harnessPermissionRulesSchema rules | _ \<Rightarrow> True)"

record NativeConversation =
  nc_native_thread_id :: string
  nc_binding_hash :: string
  nc_policy_controls :: "NativePolicyControlReceipt list"
  nc_goal_controls :: "goal_control list"
  nc_feedback_submissions :: "feedback_submission list"
  nc_configuration_base_hash :: "string option"
  nc_configuration_authority_hash :: "string option"
  nc_configuration_transitions :: "configuration_transition list"
  nc_updated_at :: string
  nc_last_session_id :: string
  nc_provider_instance_id :: string
  nc_provider_binding_hash :: string
  nc_workspace_id :: string
  nc_cwd :: string
  nc_fresh :: bool
  nc_approval_policy :: "approval_policy option"
  nc_approval_reviewer :: "approval_reviewer option"
  nc_approval_options :: "HarnessApprovalOptions option"
  nc_injections :: "injection_receipt list"
  nc_rollback :: "rollback_receipt option"
  nc_fork :: "fork_receipt option"

definition nativeConversationSchema ::
  "(string \<Rightarrow> bool) \<Rightarrow> (string \<Rightarrow> json \<Rightarrow> bool) \<Rightarrow> NativeConversation \<Rightarrow> bool" where
  "nativeConversationSchema ts body_ok c =
     (nonEmptyStringSchema (nc_native_thread_id c) \<and> sha256_text (nc_binding_hash c)
      \<and> nativePolicyControlReceiptsSchema ts body_ok (nc_policy_controls c)
      \<and> list_all goal_control_schema (nc_goal_controls c) \<and> length (nc_goal_controls c) \<le> 1024
      \<and> distinct (map gc_command_id (nc_goal_controls c))
      \<and> list_all feedback_submission_schema (nc_feedback_submissions c) \<and> length (nc_feedback_submissions c) \<le> 1024
      \<and> distinct (map fs_command_id (nc_feedback_submissions c))
      \<and> opt_ok sha256_text (nc_configuration_base_hash c) \<and> opt_ok sha256_text (nc_configuration_authority_hash c)
      \<and> list_all configuration_transition_schema (nc_configuration_transitions c)
      \<and> length (nc_configuration_transitions c) \<le> 1024
      \<and> distinct (map ct_transition_id (nc_configuration_transitions c))
      \<and> ts (nc_updated_at c)
      \<and> opt_ok harnessApprovalOptionsSchema (nc_approval_options c)
      \<and> list_all (injection_schema ts body_ok) (nc_injections c) \<and> length (nc_injections c) \<le> 1024
      \<and> distinct (map ij_command_id (nc_injections c))
      \<and> opt_ok (\<lambda>f. opt_ok sha256_text (fk_request_hash f)
                    \<and> opt_ok (hcpConversationResultPayloadSchema ts body_ok) (fk_result f)) (nc_fork c))"

subsection \<open>The native-work state of a session\<close>

record work_scope =
  sc_provider_instance_id :: string
  sc_provider_binding_hash :: string
  sc_workspace_id :: string
  sc_cwd :: string
  sc_execution_binding_hash :: string
  sc_execution_profile :: "string option"
  sc_conversation_key :: "string option"

datatype binding_kind = Binding_root | Binding_work

record execution_binding =
  eb_kind :: binding_kind
  eb_admission_id :: string
  eb_binding_hash :: string

datatype goal_phase = Goal_pending | Goal_confirmed

record goal_admission =
  ga_admission_id :: string
  ga_origin_turn_id :: string
  ga_native_reference :: string
  ga_objective :: string
  ga_token_budget :: "int option"
  ga_expected_native_created_at :: "int option"
  ga_phase :: goal_phase
  ga_snapshot :: "HarnessNativeGoalRecord option"

datatype phase_status = Phase_completed | Phase_interrupted | Phase_failed

record root_execution =
  re_admission_id :: string
  re_origin_turn_id :: string
  re_native_reference :: string
  re_goal_admission_id :: "string option"
  re_native_execution_reference :: "string option"
  re_requires_terminal_proof :: bool
  re_phase_status :: "phase_status option"

record reconciliation =
  rc_command_id :: string
  rc_request_hash :: string
  rc_result :: HcpConversationResultPayload

record work_fork =
  wf_command_id :: string
  wf_request_hash :: string
  wf_work_id :: string
  wf_phase :: receipt_phase
  wf_result :: "HcpConversationResultPayload option"

record NativeWorkState =
  nw_scope :: work_scope
  nw_items :: "(string \<times> HarnessNativeWorkRecord) list"
  nw_retired :: "(string \<times> HarnessNativeWorkRecord) list"
  nw_execution_bindings :: "execution_binding list option"
  nw_custody :: "(string \<times> NativeWorkCustody) list option"
  nw_goals :: "goal_admission list option"
  nw_root_executions :: "root_execution list option"
  nw_reconciliations :: "reconciliation list option"
  nw_forks :: "work_fork list option"
  nw_closure_unconfirmed :: bool

text \<open>\<open>xs ?? []\<close>\<close>

definition or_empty :: "'a list option \<Rightarrow> 'a list" where
  "or_empty x = (case x of None \<Rightarrow> [] | Some xs \<Rightarrow> xs)"

lemma or_empty_simps [simp]: "or_empty None = []" "or_empty (Some xs) = xs"
  by (simp_all add: or_empty_def)

definition nativeWorkDictionarySchema ::
  "(string \<Rightarrow> bool) \<Rightarrow> (string \<times> HarnessNativeWorkRecord) list \<Rightarrow> bool" where
  "nativeWorkDictionarySchema ts m =
     (distinct (map fst m) \<and> list_all (\<lambda>(k, w). harnessNativeWorkRecordSchema ts w \<and> wk_work_id w = k) m)"

text \<open>\<open>value.phase === "pending" ? !value.snapshot : value.snapshot?....\<close>\<close>

definition goal_admission_schema :: "goal_admission \<Rightarrow> bool" where
  "goal_admission_schema g =
     (identity (ga_admission_id g) \<and> identity (ga_origin_turn_id g) \<and> identity (ga_native_reference g)
      \<and> objective_text (ga_objective g) \<and> opt_ok positive_counter (ga_token_budget g)
      \<and> opt_ok counter (ga_expected_native_created_at g)
      \<and> opt_ok harnessNativeGoalRecordSchema (ga_snapshot g)
      \<and> (case ga_phase g of
           Goal_pending \<Rightarrow> ga_snapshot g = None
         | Goal_confirmed \<Rightarrow>
             (case ga_snapshot g of None \<Rightarrow> False
              | Some s \<Rightarrow> gr_admission_id s = ga_admission_id g \<and> gr_origin_turn_id s = ga_origin_turn_id g
                  \<and> go_native_reference (gr_observation s) = ga_native_reference g
                  \<and> go_objective (gr_observation s) = ga_objective g
                  \<and> go_token_budget (gr_observation s) = ga_token_budget g
                  \<and> opt_ok (\<lambda>t. go_native_created_at (gr_observation s) = t) (ga_expected_native_created_at g))))"

definition root_execution_schema :: "root_execution \<Rightarrow> bool" where
  "root_execution_schema r =
     (identity (re_admission_id r) \<and> identity (re_origin_turn_id r) \<and> identity (re_native_reference r)
      \<and> opt_ok identity (re_goal_admission_id r) \<and> opt_ok identity (re_native_execution_reference r)
      \<and> (re_phase_status r \<noteq> None \<longrightarrow> re_native_execution_reference r \<noteq> None))"

definition reconciliation_schema ::
  "(string \<Rightarrow> bool) \<Rightarrow> (string \<Rightarrow> json \<Rightarrow> bool) \<Rightarrow> reconciliation \<Rightarrow> bool" where
  "reconciliation_schema ts body_ok r =
     (sha256_pair (rc_command_id r) (rc_request_hash r)
      \<and> hcpConversationResultPayloadSchema ts body_ok (rc_result r)
      \<and> cs_command_id (rc_result r) = rc_command_id r \<and> cs_operation (rc_result r) = Op_work
      \<and> (case cs_work (rc_result r) of Some (Work_result_reconcile _ _ _) \<Rightarrow> True | _ \<Rightarrow> False))"

definition work_fork_schema ::
  "(string \<Rightarrow> bool) \<Rightarrow> (string \<Rightarrow> json \<Rightarrow> bool) \<Rightarrow> work_fork \<Rightarrow> bool" where
  "work_fork_schema ts body_ok r =
     (sha256_pair (wf_command_id r) (wf_request_hash r) \<and> identity (wf_work_id r)
      \<and> opt_ok (hcpConversationResultPayloadSchema ts body_ok) (wf_result r)
      \<and> (case wf_phase r of
           Receipt_pending \<Rightarrow> wf_result r = None
         | Receipt_completed \<Rightarrow>
             (case wf_result r of None \<Rightarrow> False
              | Some c \<Rightarrow> cs_command_id c = wf_command_id r \<and> cs_operation c = Op_work
                  \<and> (case cs_work c of Some (Work_result_fork w _ _) \<Rightarrow> w = wf_work_id r | _ \<Rightarrow> False))))"

definition nativeWorkStateSchema ::
  "(string \<Rightarrow> bool) \<Rightarrow> (string \<Rightarrow> json \<Rightarrow> bool) \<Rightarrow> NativeWorkState \<Rightarrow> bool" where
  "nativeWorkStateSchema ts body_ok w =
     (opt_ok identity (sc_conversation_key (nw_scope w))
      \<and> nativeWorkDictionarySchema ts (nw_items w) \<and> nativeWorkDictionarySchema ts (nw_retired w)
      \<and> list_all (\<lambda>b. identity (eb_admission_id b) \<and> identity (eb_binding_hash b)) (or_empty (nw_execution_bindings w))
      \<and> length (or_empty (nw_execution_bindings w)) \<le> 2176
      \<and> distinct (map (\<lambda>b. (eb_kind b, eb_admission_id b)) (or_empty (nw_execution_bindings w)))
      \<and> distinct (map fst (or_empty (nw_custody w))) \<and> list_all (\<lambda>(_, c). nativeWorkCustodySchema c) (or_empty (nw_custody w))
      \<and> list_all goal_admission_schema (or_empty (nw_goals w)) \<and> length (or_empty (nw_goals w)) \<le> 128
      \<and> distinct (map ga_admission_id (or_empty (nw_goals w)))
      \<and> list_all root_execution_schema (or_empty (nw_root_executions w))
      \<and> length (or_empty (nw_root_executions w)) \<le> 1024
      \<and> distinct (map re_admission_id (or_empty (nw_root_executions w)))
      \<and> list_all (reconciliation_schema ts body_ok) (or_empty (nw_reconciliations w))
      \<and> length (or_empty (nw_reconciliations w)) \<le> 1024
      \<and> distinct (map rc_command_id (or_empty (nw_reconciliations w)))
      \<and> list_all (work_fork_schema ts body_ok) (or_empty (nw_forks w))
      \<and> length (or_empty (nw_forks w)) \<le> 1024
      \<and> distinct (map wf_command_id (or_empty (nw_forks w))))"

text \<open>\<open>unresolvedNativeAdmissions\<close> of the session manager: work the native side may still be doing.\<close>

definition unresolved_execution :: "root_execution \<Rightarrow> bool" where
  "unresolved_execution e =
     (re_native_execution_reference e = None \<or> re_requires_terminal_proof e \<and> re_phase_status e = None)"

definition unresolved_goal :: "goal_admission \<Rightarrow> bool" where
  "unresolved_goal g =
     (ga_phase g = Goal_pending
      \<or> (case ga_snapshot g of None \<Rightarrow> False | Some s \<Rightarrow> go_status (gr_observation s) = Goal_active))"

definition unresolvedNativeAdmissions :: "NativeWorkState option \<Rightarrow> bool" where
  "unresolvedNativeAdmissions state =
     (case state of None \<Rightarrow> False
      | Some w \<Rightarrow> list_ex unresolved_execution (or_empty (nw_root_executions w))
          \<or> list_ex unresolved_goal (or_empty (nw_goals w)))"

end
