(* ===== verification/Durable_Store.thy ===== *)
theory Durable_Store
  imports State_Store Native_Records
begin

text \<open>
  The whole durable state of the runner: the store of events and receipts (theory \<open>State_Store\<close>)
  together with the native-work states, the retained native conversations and the pending MCP
  reviews that \<open>persist\<close> writes to the same file (\<open>packages/hcp-runner/src/state/index.ts\<close>).

  \<open>ds_file\<close> is what the file holds of the three dictionaries; the rest of the file is \<open>rs_file\<close> of the
  store inside.  The type of a review is a parameter, since no operation of this theory reads one.
  \<open>schema_checks\<close> bundles the format checks of zod and the schemas of the parts carried as JSON.
\<close>

record schema_checks =
  sk_ts :: "string \<Rightarrow> bool"
  sk_data :: "string \<Rightarrow> json \<Rightarrow> bool"
  sk_body :: "string \<Rightarrow> json \<Rightarrow> bool"

type_synonym 'r native_file =
  "(string \<times> NativeWorkState) list \<times> (string \<times> NativeConversation) list \<times> (string \<times> 'r) list"

record 'r DurableStore =
  ds_store :: RunnerStateStore
  ds_nativeWork :: "(string \<times> NativeWorkState) list"
  ds_nativeConversations :: "(string \<times> NativeConversation) list"
  ds_mcpReviews :: "(string \<times> 'r) list"
  ds_file :: "'r native_file option"

type_synonym 'r durable = "(string + unit) \<times> 'r DurableStore"

definition dictionaries :: "'r DurableStore \<Rightarrow> 'r native_file" where
  "dictionaries s = (ds_nativeWork s, ds_nativeConversations s, ds_mcpReviews s)"

definition persist_all :: "bool \<Rightarrow> 'r DurableStore \<Rightarrow> 'r durable" where
  "persist_all ok s =
     (case persist ok (ds_store s) of
        (Inl e, _) \<Rightarrow> (Inl e, s)
      | (Inr _, st) \<Rightarrow> (Inr (), s\<lparr>ds_store := st, ds_file := Some (dictionaries s)\<rparr>))"

definition durable_events :: "'r DurableStore \<Rightarrow> event_log" where
  "durable_events s = st_events (rs_data (ds_store s))"

definition set_events :: "event_log \<Rightarrow> 'r DurableStore \<Rightarrow> 'r DurableStore" where
  "set_events es s = s\<lparr>ds_store := (ds_store s)\<lparr>rs_data := (rs_data (ds_store s))\<lparr>st_events := es\<rparr>\<rparr>\<rparr>"

definition set_exited :: "(string \<times> unit) list \<Rightarrow> 'r DurableStore \<Rightarrow> 'r DurableStore" where
  "set_exited xs s = s\<lparr>ds_store := (ds_store s)\<lparr>rs_data := (rs_data (ds_store s))\<lparr>st_exitedSessions := xs\<rparr>\<rparr>\<rparr>"

text \<open>\<open>this.#appendEvent(hcpHarnessEventPayloadSchema.parse(event))\<close>\<close>

definition append_parsed ::
  "schema_checks \<Rightarrow> HcpHarnessEventPayload \<Rightarrow> 'r DurableStore \<Rightarrow> string + 'r DurableStore" where
  "append_parsed c e s =
     (if \<not> hcpHarnessEventPayloadSchema (sk_ts c) (sk_data c) e then Inl ''ZodError''
      else bindR (append_event_unpersisted (rs_eventRetentionPerSession (ds_store s)) e (rs_data (ds_store s)))
             (\<lambda>d. Inr (s\<lparr>ds_store := (ds_store s)\<lparr>rs_data := d\<rparr>\<rparr>)))"

fun append_all ::
  "schema_checks \<Rightarrow> HcpHarnessEventPayload list \<Rightarrow> 'r DurableStore \<Rightarrow> string + 'r DurableStore" where
  "append_all c [] s = Inr s"
| "append_all c (e # es) s = bindR (append_parsed c e s) (append_all c es)"

text \<open>The event an operation may carry.\<close>

definition the_event :: "HcpHarnessEventPayload option \<Rightarrow> HcpHarnessEventPayload list" where
  "the_event event = (case event of None \<Rightarrow> [] | Some e \<Rightarrow> [e])"

text \<open>\<open>try {change; this.persist()} catch {roll back}\<close>: the shape every operation ends with.\<close>

definition commit ::
  "bool \<Rightarrow> ('r DurableStore \<Rightarrow> 'r DurableStore) \<Rightarrow> (string + 'r DurableStore) \<Rightarrow> 'r DurableStore \<Rightarrow> 'r durable" where
  "commit ok rollback changed s =
     (case changed of
        Inl e \<Rightarrow> (Inl e, rollback s)
      | Inr s1 \<Rightarrow>
          (case persist_all ok s1 of
             (Inl e, s2) \<Rightarrow> (Inl e, rollback s2)
           | (Inr _, s2) \<Rightarrow> (Inr (), s2)))"

lemma persist_all_simps [simp]:
  "persist_all True s =
     (Inr (), s\<lparr>ds_store := (ds_store s)\<lparr>rs_file := Some (rs_data (ds_store s))\<rparr>, ds_file := Some (dictionaries s)\<rparr>)"
  "persist_all False s = (Inl persist_failed, s)"
  by (simp_all add: persist_all_def persist_def)

lemma dictionaries_simps [simp]:
  "dictionaries (set_events es s) = dictionaries s" "dictionaries (set_exited xs s) = dictionaries s"
  by (simp_all add: dictionaries_def set_events_def set_exited_def)

lemma set_events_simps [simp]:
  "ds_nativeWork (set_events es s) = ds_nativeWork s"
  "ds_nativeConversations (set_events es s) = ds_nativeConversations s"
  "ds_mcpReviews (set_events es s) = ds_mcpReviews s"
  "ds_file (set_events es s) = ds_file s"
  "durable_events (set_events es s) = es"
  by (simp_all add: set_events_def durable_events_def)

lemma set_exited_simps [simp]:
  "ds_nativeWork (set_exited xs s) = ds_nativeWork s"
  "ds_nativeConversations (set_exited xs s) = ds_nativeConversations s"
  "ds_mcpReviews (set_exited xs s) = ds_mcpReviews s"
  "ds_file (set_exited xs s) = ds_file s"
  "durable_events (set_exited xs s) = durable_events s"
  by (simp_all add: set_exited_def durable_events_def)

lemma append_parsed_Inr:
  assumes "append_parsed c e s = Inr s'"
  obtains d where "append_event_unpersisted (rs_eventRetentionPerSession (ds_store s)) e (rs_data (ds_store s)) = Inr d"
    and "s' = s\<lparr>ds_store := (ds_store s)\<lparr>rs_data := d\<rparr>\<rparr>"
    and "hcpHarnessEventPayloadSchema (sk_ts c) (sk_data c) e"
  using assms by (auto simp: append_parsed_def bindR_eq_Inr split: if_splits)

text \<open>Appending events touches nothing but the store inside, and there only the sessions' logs.\<close>

lemma append_all_only_store:
  "append_all c es s = Inr s' \<Longrightarrow> \<exists>st. s' = s\<lparr>ds_store := st\<rparr> \<and> rs_file st = rs_file (ds_store s)
     \<and> rs_eventRetentionPerSession st = rs_eventRetentionPerSession (ds_store s)
     \<and> rs_receiptRetentionMs st = rs_receiptRetentionMs (ds_store s)"
proof (induction es arbitrary: s)
  case Nil
  then show ?case by (auto intro: exI [where x = "ds_store s"])
next
  case (Cons e es)
  then obtain s1 where s1: "append_parsed c e s = Inr s1" and rest: "append_all c es s1 = Inr s'"
    by (auto simp: bindR_eq_Inr)
  from s1 obtain d where "s1 = s\<lparr>ds_store := (ds_store s)\<lparr>rs_data := d\<rparr>\<rparr>" by (rule append_parsed_Inr)
  with Cons.IH [OF rest] show ?case by force
qed

lemma append_all_keeps:
  assumes "append_all c es s = Inr s'"
  shows "ds_nativeWork s' = ds_nativeWork s" "ds_nativeConversations s' = ds_nativeConversations s"
    "ds_mcpReviews s' = ds_mcpReviews s" "ds_file s' = ds_file s" "dictionaries s' = dictionaries s"
  using append_all_only_store [OF assms] by (auto simp: dictionaries_def)

lemma commit_cases:
  assumes "commit ok rollback changed s = (r, s')"
  obtains (refused) m where "changed = Inl m" "r = Inl m" "s' = rollback s"
  | (unwritten) t where "changed = Inr t" "\<not> ok" "r = Inl persist_failed" "s' = rollback t"
  | (written) t where "changed = Inr t" "ok" "r = Inr ()" "s' = snd (persist_all True t)"
  using assms by (cases changed; cases ok) (auto simp: commit_def)

lemma written_simps [simp]:
  "ds_nativeWork (snd (persist_all True t)) = ds_nativeWork t"
  "ds_nativeConversations (snd (persist_all True t)) = ds_nativeConversations t"
  "ds_mcpReviews (snd (persist_all True t)) = ds_mcpReviews t"
  "ds_file (snd (persist_all True t)) = Some (dictionaries t)"
  by (simp_all add: persist_all_def persist_def)

end
