(* ===== verification/Native_Ledger.thy ===== *)
theory Native_Ledger
  imports Durable_Store
begin

text \<open>
  What the runner's store lets a caller do to the native-work states and the retained conversations
  (\<open>saveNativeWorkState\<close> to \<open>retireNativeConversation\<close> of \<open>packages/hcp-runner/src/state/index.ts\<close>).

  These records are evidence: what was handed to a native provider, and what it confirmed.  A caller
  supplies whole new records; the store compares them with what it holds, refuses what would erase or
  rewrite evidence, and otherwise replaces, appends the event that belongs to the change and persists.
  \<open>inventory_hash\<close> stands for the SHA-256 of a work state's JSON text, \<open>now\<close> for the clock's ISO text.
\<close>

subsection \<open>Native work: what a new state must keep of the old one\<close>

definition binding_of :: "binding_kind \<Rightarrow> string \<Rightarrow> execution_binding list \<Rightarrow> execution_binding option" where
  "binding_of k i bs = List.find (\<lambda>b. eb_kind b = k \<and> eb_admission_id b = i) bs"

definition binding_exists :: "NativeWorkState \<Rightarrow> execution_binding \<Rightarrow> bool" where
  "binding_exists w b =
     (case eb_kind b of
        Binding_root \<Rightarrow> list_ex (\<lambda>r. re_admission_id r = eb_admission_id b) (or_empty (nw_root_executions w))
      | Binding_work \<Rightarrow> map_of (nw_items w) (eb_admission_id b) \<noteq> None \<or> map_of (nw_retired w) (eb_admission_id b) \<noteq> None)"

definition bindings_admitted :: "NativeWorkState option \<Rightarrow> NativeWorkState \<Rightarrow> bool" where
  "bindings_admitted previous w =
     list_all (\<lambda>b. binding_exists w b
         \<and> ((case previous of None \<Rightarrow> None
              | Some p \<Rightarrow> binding_of (eb_kind b) (eb_admission_id b) (or_empty (nw_execution_bindings p))) = None
            \<longrightarrow> eb_binding_hash b = sc_execution_binding_hash (nw_scope w)))
       (or_empty (nw_execution_bindings w))"

definition bindings_kept :: "NativeWorkState \<Rightarrow> NativeWorkState \<Rightarrow> bool" where
  "bindings_kept p w =
     list_all (\<lambda>b. binding_of (eb_kind b) (eb_admission_id b) (or_empty (nw_execution_bindings w)) = Some b)
       (or_empty (nw_execution_bindings p))"

definition custody_matches :: "NativeWorkState \<Rightarrow> string \<times> NativeWorkCustody \<Rightarrow> bool" where
  "custody_matches w x =
     (case x of (i, q) \<Rightarrow>
        (case (case map_of (nw_items w) i of None \<Rightarrow> map_of (nw_retired w) i | Some k \<Rightarrow> Some k) of
           None \<Rightarrow> False
         | Some k \<Rightarrow> i = cu_work_id q \<and> wk_native_reference k = cu_native_reference q
             \<and> wk_origin_turn_id k = cu_origin_turn_id q
             \<and> wk_parent_work_id k = cu_parent_work_id q \<and> wk_kind k = Work_agent))"

definition custody_admission :: "NativeWorkCustody \<Rightarrow> NativeWorkCustody" where
  "custody_admission p = p\<lparr>cu_native_execution_reference := None\<rparr>"

definition custody_le :: "NativeWorkCustody \<Rightarrow> NativeWorkCustody \<Rightarrow> bool" where
  "custody_le p n =
     (custody_admission n = custody_admission p
      \<and> opt_ok (\<lambda>r. cu_native_execution_reference n = Some r) (cu_native_execution_reference p))"

definition custody_kept :: "NativeWorkState \<Rightarrow> NativeWorkState \<Rightarrow> bool" where
  "custody_kept p w =
     list_all (\<lambda>(i, q). case map_of (or_empty (nw_custody w)) i of None \<Rightarrow> False | Some n \<Rightarrow> custody_le q n)
       (or_empty (nw_custody p))"

definition work_fork_le :: "work_fork \<Rightarrow> work_fork \<Rightarrow> bool" where
  "work_fork_le r n =
     (wf_command_id n = wf_command_id r \<and> wf_work_id n = wf_work_id r \<and> wf_request_hash n = wf_request_hash r
      \<and> (wf_phase r = Receipt_completed \<longrightarrow> n = r))"

definition root_execution_le :: "root_execution \<Rightarrow> root_execution \<Rightarrow> bool" where
  "root_execution_le r n =
     (re_admission_id n = re_admission_id r \<and> re_origin_turn_id n = re_origin_turn_id r
      \<and> re_native_reference n = re_native_reference r \<and> re_goal_admission_id n = re_goal_admission_id r
      \<and> re_requires_terminal_proof n = re_requires_terminal_proof r
      \<and> opt_ok (\<lambda>e. re_native_execution_reference n = Some e) (re_native_execution_reference r)
      \<and> opt_ok (\<lambda>e. re_phase_status n = Some e) (re_phase_status r))"

definition snapshot_le :: "HarnessNativeGoalRecord \<Rightarrow> HarnessNativeGoalRecord \<Rightarrow> bool" where
  "snapshot_le s n =
     (go_native_created_at (gr_observation n) = go_native_created_at (gr_observation s)
      \<and> go_native_updated_at (gr_observation s) \<le> go_native_updated_at (gr_observation n)
      \<and> go_tokens_used (gr_observation s) \<le> go_tokens_used (gr_observation n)
      \<and> go_time_used_seconds (gr_observation s) \<le> go_time_used_seconds (gr_observation n))"

definition goal_admission_le :: "goal_admission \<Rightarrow> goal_admission \<Rightarrow> bool" where
  "goal_admission_le g n =
     (ga_admission_id n = ga_admission_id g \<and> ga_origin_turn_id n = ga_origin_turn_id g
      \<and> ga_native_reference n = ga_native_reference g \<and> ga_objective n = ga_objective g
      \<and> ga_token_budget n = ga_token_budget g \<and> ga_expected_native_created_at n = ga_expected_native_created_at g
      \<and> (ga_phase g = Goal_confirmed \<longrightarrow> ga_phase n = Goal_confirmed)
      \<and> opt_ok (\<lambda>s. case ga_snapshot n of None \<Rightarrow> False | Some t \<Rightarrow> snapshot_le s t) (ga_snapshot g))"

text \<open>\<open>xs?.find(x => key x === key r)\<close> finds an entry that keeps \<open>r\<close>.\<close>

definition found_kept :: "('a \<Rightarrow> 'k) \<Rightarrow> ('a \<Rightarrow> 'a \<Rightarrow> bool) \<Rightarrow> 'a list \<Rightarrow> 'a list \<Rightarrow> bool" where
  "found_kept key le old new =
     list_all (\<lambda>r. case List.find (\<lambda>v. key v = key r) new of None \<Rightarrow> False | Some n \<Rightarrow> le r n) old"

definition goal_executions_confirmed :: "NativeWorkState \<Rightarrow> bool" where
  "goal_executions_confirmed w =
     list_all (\<lambda>r. opt_ok (\<lambda>i. list_ex (\<lambda>g. ga_admission_id g = i \<and> ga_phase g = Goal_confirmed
                                   \<and> ga_origin_turn_id g = re_origin_turn_id r
                                   \<and> ga_native_reference g = re_native_reference r) (or_empty (nw_goals w)))
                 (re_goal_admission_id r))
       (or_empty (nw_root_executions w))"

definition check_native_work ::
  "schema_checks \<Rightarrow> 'r DurableStore \<Rightarrow> string \<Rightarrow> NativeWorkState \<Rightarrow> HcpHarnessEventPayload option \<Rightarrow> string + unit" where
  "check_native_work c s sid w event =
     (let previous = map_of (ds_nativeWork s) sid in
      bindR (guardR (nativeWorkStateSchema (sk_ts c) (sk_body c) w) ''ZodError'') (\<lambda>_.
      bindR (guardR (opt_ok (\<lambda>p. nw_closure_unconfirmed p \<longrightarrow> nw_closure_unconfirmed w) previous)
        ''Unconfirmed native closure requires authoritative reconciliation; it cannot be cleared by metadata updates.'') (\<lambda>_.
      bindR (guardR (previous = None \<longrightarrow> length (ds_nativeWork s) < 1024) ''Native work session capacity exceeded.'') (\<lambda>_.
      bindR (guardR (length (nw_items w) \<le> 128)
        ''Native work capacity exceeded; retire completed work before admitting another child.'') (\<lambda>_.
      bindR (guardR (length (nw_retired w) \<le> 1024)
        ''Native work tombstone capacity exceeded; close the execution lease before retiring further work.'') (\<lambda>_.
      bindR (guardR (list_all (\<lambda>(k, v). k = wk_work_id v) (nw_items w)) ''Native work identity mismatch.'') (\<lambda>_.
      bindR (guardR (opt_ok (\<lambda>p. nw_scope p = nw_scope w) previous) ''Native work execution scope changed.'') (\<lambda>_.
      bindR (guardR (bindings_admitted previous w)
        ''Native execution policy history must belong to its admitted configuration.'') (\<lambda>_.
      bindR (guardR (opt_ok (\<lambda>p. bindings_kept p w) previous)
        ''Native execution policy history cannot be erased or replaced.'') (\<lambda>_.
      bindR (guardR (length (or_empty (nw_custody w)) \<le> 1152) ''Native work custody capacity exceeded.'') (\<lambda>_.
      bindR (guardR (list_all (custody_matches w) (or_empty (nw_custody w)))
        ''Native work custody does not match its admitted child.'') (\<lambda>_.
      bindR (guardR (opt_ok (\<lambda>p. custody_kept p w) previous) ''Native work custody cannot be replaced or removed.'') (\<lambda>_.
      bindR (guardR (opt_ok (\<lambda>p. found_kept wf_command_id work_fork_le (or_empty (nw_forks p)) (or_empty (nw_forks w))) previous)
        ''Native child fork dispatch receipts cannot be removed or replaced.'') (\<lambda>_.
      bindR (guardR (opt_ok (\<lambda>p. found_kept rc_command_id (=) (or_empty (nw_reconciliations p)) (or_empty (nw_reconciliations w))) previous)
        ''Native reconciliation receipts cannot be removed or replaced.'') (\<lambda>_.
      bindR (guardR (opt_ok (\<lambda>p. found_kept re_admission_id root_execution_le
                                 (or_empty (nw_root_executions p)) (or_empty (nw_root_executions w))) previous)
        ''Native root execution admissions cannot be removed or replaced.'') (\<lambda>_.
      bindR (guardR (goal_executions_confirmed w)
        ''Native autonomous execution requires its confirmed original goal admission.'') (\<lambda>_.
      bindR (guardR (opt_ok (\<lambda>p. found_kept ga_admission_id goal_admission_le (or_empty (nw_goals p)) (or_empty (nw_goals w))) previous)
        ''Native goal admissions cannot be removed, replaced or regressed.'') (\<lambda>_.
      guardR (opt_ok (\<lambda>e. ev_session_id e = sid) event) ''Native work event targets another session.''))))))))))))))))))"

definition saveNativeWorkState ::
  "schema_checks \<Rightarrow> bool \<Rightarrow> string \<Rightarrow> NativeWorkState \<Rightarrow> HcpHarnessEventPayload option \<Rightarrow> 'r DurableStore \<Rightarrow> 'r durable" where
  "saveNativeWorkState c ok sid w event s =
     (case check_native_work c s sid w event of
        Inl m \<Rightarrow> (Inl m, s)
      | Inr _ \<Rightarrow>
          let previous = map_of (ds_nativeWork s) sid; previousEvents = map_of (durable_events s) sid;
              changed = append_all c (the_event event) (s\<lparr>ds_nativeWork := AList.update sid w (ds_nativeWork s)\<rparr>);
              rollback = (\<lambda>t. set_events (restore sid previousEvents (durable_events t))
                                (t\<lparr>ds_nativeWork := restore sid previous (ds_nativeWork t)\<rparr>)) in
          commit ok rollback changed
            (s\<lparr>ds_nativeWork := AList.update sid w (ds_nativeWork s)\<rparr>))"

definition work_is_empty :: "NativeWorkState \<Rightarrow> bool" where
  "work_is_empty p =
     (\<not> nw_closure_unconfirmed p \<and> nw_items p = [] \<and> nw_retired p = []
      \<and> or_empty (nw_root_executions p) = [] \<and> or_empty (nw_goals p) = [] \<and> or_empty (nw_forks p) = []
      \<and> or_empty (nw_reconciliations p) = [] \<and> or_empty (nw_custody p) = [])"

definition removeEmptyNativeWorkState :: "bool \<Rightarrow> string \<Rightarrow> 'r DurableStore \<Rightarrow> 'r durable" where
  "removeEmptyNativeWorkState ok sid s =
     (case map_of (ds_nativeWork s) sid of
        None \<Rightarrow> (Inr (), s)
      | Some p \<Rightarrow>
          if \<not> work_is_empty p then (Inr (), s)
          else commit ok (\<lambda>t. t\<lparr>ds_nativeWork := AList.update sid p (ds_nativeWork t)\<rparr>)
                 (Inr (s\<lparr>ds_nativeWork := AList.delete sid (ds_nativeWork s)\<rparr>)) s)"

subsection \<open>Retained conversations\<close>

fun check_each :: "('a \<Rightarrow> 'e + unit) \<Rightarrow> 'a list \<Rightarrow> 'e + unit" where
  "check_each f [] = Inr ()"
| "check_each f (x # xs) = bindR (f x) (\<lambda>_. check_each f xs)"

definition goal_control_le :: "goal_control \<Rightarrow> goal_control \<Rightarrow> bool" where
  "goal_control_le r n =
     (n\<lparr>gc_phase := gc_phase r, gc_result := gc_result r\<rparr> = r \<and> (gc_phase r = Receipt_completed \<longrightarrow> n = r))"

definition feedback_le :: "feedback_submission \<Rightarrow> feedback_submission \<Rightarrow> bool" where
  "feedback_le r n =
     (n\<lparr>fs_phase := fs_phase r, fs_result := fs_result r\<rparr> = r \<and> (fs_phase r = Receipt_completed \<longrightarrow> n = r))"

definition check_feedback :: "feedback_submission list \<Rightarrow> feedback_submission \<Rightarrow> string + unit" where
  "check_feedback new r =
     (case List.find (\<lambda>v. fs_command_id v = fs_command_id r) new of
        None \<Rightarrow> Inl ''Native feedback dispatch evidence cannot be erased.''
      | Some n \<Rightarrow> guardR (feedback_le r n) ''Native feedback dispatch evidence cannot be rewritten.'')"

text \<open>Every completed entry of \<open>new\<close> has an entry with its key in \<open>old\<close>.\<close>

definition completions_fenced :: "('a \<Rightarrow> 'k) \<Rightarrow> ('a \<Rightarrow> receipt_phase) \<Rightarrow> 'a list \<Rightarrow> 'a list \<Rightarrow> bool" where
  "completions_fenced key phase old new =
     list_all (\<lambda>n. phase n = Receipt_completed \<longrightarrow> list_ex (\<lambda>p. key p = key n) old) new"

definition provenReplacement :: "NativeConversation option \<Rightarrow> NativeConversation \<Rightarrow> bool" where
  "provenReplacement previous c =
     (case previous of None \<Rightarrow> False
      | Some p \<Rightarrow>
          (case nc_rollback p of None \<Rightarrow> False
           | Some r \<Rightarrow> rb_phase r = Receipt_completed
               \<and> rb_replacement_native_thread_id r = Some (nc_native_thread_id c)
               \<and> nc_rollback c = Some r \<and> rb_native_fresh r = nc_fresh c))"

definition provenTransition :: "NativeConversation option \<Rightarrow> NativeConversation \<Rightarrow> bool" where
  "provenTransition previous c =
     (case previous of None \<Rightarrow> False
      | Some p \<Rightarrow>
          nc_configuration_base_hash p \<noteq> None
          \<and> list_ex (\<lambda>r. ct_phase r = Receipt_pending \<and> ct_source_binding_hash r = nc_binding_hash p
              \<and> (nc_configuration_base_hash p = nc_configuration_base_hash c
                 \<or> ct_change r = Some Change_mcp_catalog \<and> nc_configuration_authority_hash p \<noteq> None
                   \<and> nc_configuration_authority_hash p = nc_configuration_authority_hash c)
              \<and> ct_target_binding_hash r = nc_binding_hash c
              \<and> ct_target_session_id r = nc_last_session_id c
              \<and> list_ex (\<lambda>n. ct_phase n = Receipt_completed \<and> n\<lparr>ct_phase := Receipt_pending\<rparr> = r)
                  (nc_configuration_transitions c))
              (nc_configuration_transitions p))"

definition transition_kept :: "bool \<Rightarrow> configuration_transition list \<Rightarrow> configuration_transition \<Rightarrow> bool" where
  "transition_kept proven new r =
     (case List.find (\<lambda>v. ct_transition_id v = ct_transition_id r) new of
        None \<Rightarrow> False
      | Some n \<Rightarrow> n\<lparr>ct_phase := ct_phase r\<rparr> = r
          \<and> (ct_phase r = Receipt_completed \<longrightarrow> ct_phase n = Receipt_completed)
          \<and> (ct_phase r = Receipt_pending \<and> ct_phase n = Receipt_completed \<longrightarrow> proven))"

definition reviewer_or_user :: "approval_reviewer option \<Rightarrow> approval_reviewer" where
  "reviewer_or_user r = (case r of None \<Rightarrow> Reviewer_user | Some x \<Rightarrow> x)"

definition identity_kept :: "NativeConversation \<Rightarrow> NativeConversation \<Rightarrow> bool" where
  "identity_kept p c =
     ((provenTransition (Some p) c \<or> nc_binding_hash p = nc_binding_hash c)
      \<and> nc_provider_binding_hash p = nc_provider_binding_hash c
      \<and> nc_provider_instance_id p = nc_provider_instance_id c
      \<and> nc_workspace_id p = nc_workspace_id c \<and> nc_cwd p = nc_cwd c
      \<and> (provenTransition (Some p) c \<or> nc_approval_policy p = None \<or> nc_approval_policy p = nc_approval_policy c)
      \<and> (provenTransition (Some p) c
         \<or> reviewer_or_user (nc_approval_reviewer p) = reviewer_or_user (nc_approval_reviewer c))
      \<and> (nc_native_thread_id p = nc_native_thread_id c \<or> provenReplacement (Some p) c))"

definition check_conversation ::
  "schema_checks \<Rightarrow> 'r DurableStore \<Rightarrow> string \<Rightarrow> NativeConversation \<Rightarrow> string + unit" where
  "check_conversation c s key v =
     (let previous = map_of (ds_nativeConversations s) key in
      bindR (guardR (key \<noteq> [] \<and> length key \<le> 512) ''Invalid native conversation key.'') (\<lambda>_.
      bindR (guardR (nativeConversationSchema (sk_ts c) (sk_body c) v) ''ZodError'') (\<lambda>_.
      bindR (guardR ((case previous of None \<Rightarrow> [] | Some p \<Rightarrow> nc_policy_controls p) = nc_policy_controls v)
        ''Native policy control evidence requires its dedicated atomic dispatch and confirmation path.'') (\<lambda>_.
      bindR (guardR (opt_ok (\<lambda>p. found_kept gc_command_id goal_control_le (nc_goal_controls p) (nc_goal_controls v)) previous)
        ''Native goal control dispatch evidence cannot be removed or rewritten.'') (\<lambda>_.
      bindR (guardR (completions_fenced gc_command_id gc_phase
                      (case previous of None \<Rightarrow> [] | Some p \<Rightarrow> nc_goal_controls p) (nc_goal_controls v))
        ''Native goal control completion requires its prior durable dispatch fence.'') (\<lambda>_.
      bindR (check_each (check_feedback (nc_feedback_submissions v))
               (case previous of None \<Rightarrow> [] | Some p \<Rightarrow> nc_feedback_submissions p)) (\<lambda>_.
      bindR (guardR (completions_fenced fs_command_id fs_phase
                      (case previous of None \<Rightarrow> [] | Some p \<Rightarrow> nc_feedback_submissions p) (nc_feedback_submissions v))
        ''Native feedback completion requires its prior durable dispatch fence.'') (\<lambda>_.
      bindR (guardR (opt_ok (\<lambda>p. nc_configuration_base_hash p = None
                        \<or> nc_configuration_base_hash p = nc_configuration_base_hash v
                        \<or> provenTransition previous v) previous)
        ''Native conversation configuration base changed.'') (\<lambda>_.
      bindR (guardR (opt_ok (\<lambda>p. nc_configuration_authority_hash p = None
                        \<or> nc_configuration_authority_hash p = nc_configuration_authority_hash v) previous)
        ''Native conversation authority cannot change through catalog replacement.'') (\<lambda>_.
      bindR (guardR (opt_ok (\<lambda>p. list_all (transition_kept (provenTransition previous v) (nc_configuration_transitions v))
                        (nc_configuration_transitions p)) previous)
        ''Native configuration transition evidence cannot be erased or rewritten.'') (\<lambda>_.
      bindR (guardR (opt_ok (\<lambda>p. completions_fenced ct_transition_id ct_phase
                        (nc_configuration_transitions p) (nc_configuration_transitions v)) previous)
        ''Native configuration completion requires its prior durable dispatch fence.'') (\<lambda>_.
      bindR (guardR (opt_ok (\<lambda>p. identity_kept p v) previous)
        ''Native conversation identity or execution scope changed.'') (\<lambda>_.
      guardR (previous = None \<longrightarrow> length (ds_nativeConversations s) < 1024)
        ''Native conversation capacity exceeded; retire old runner conversations before starting another.'')))))))))))))"

definition put_conversation :: "string \<Rightarrow> NativeConversation \<Rightarrow> 'r DurableStore \<Rightarrow> 'r DurableStore" where
  "put_conversation key v s = s\<lparr>ds_nativeConversations := AList.update key v (ds_nativeConversations s)\<rparr>"

definition restore_conversation ::
  "string \<Rightarrow> NativeConversation option \<Rightarrow> 'r DurableStore \<Rightarrow> 'r DurableStore" where
  "restore_conversation key previous s =
     s\<lparr>ds_nativeConversations := restore key previous (ds_nativeConversations s)\<rparr>"

definition saveNativeConversation ::
  "schema_checks \<Rightarrow> bool \<Rightarrow> string \<Rightarrow> NativeConversation \<Rightarrow> 'r DurableStore \<Rightarrow> 'r durable" where
  "saveNativeConversation c ok key v s =
     (case check_conversation c s key v of
        Inl m \<Rightarrow> (Inl m, s)
      | Inr _ \<Rightarrow>
          commit ok (restore_conversation key (map_of (ds_nativeConversations s) key)) (Inr (put_conversation key v s)) s)"

definition nativeConversationForSession :: "string \<Rightarrow> 'r DurableStore \<Rightarrow> (string \<times> NativeConversation) option" where
  "nativeConversationForSession sid s =
     List.find (\<lambda>(_, v). nc_last_session_id v = sid) (ds_nativeConversations s)"

definition retireNativeConversation :: "bool \<Rightarrow> string \<Rightarrow> 'r DurableStore \<Rightarrow> 'r durable" where
  "retireNativeConversation ok key s =
     (let prior = map_of (ds_nativeConversations s) key in
      if opt_ok (\<lambda>p. \<not> list_ex (\<lambda>r. pc_phase r = Receipt_pending) (nc_policy_controls p)) prior
      then commit ok (case prior of None \<Rightarrow> id | Some p \<Rightarrow> put_conversation key p)
             (Inr (s\<lparr>ds_nativeConversations := AList.delete key (ds_nativeConversations s)\<rparr>)) s
      else (Inl ''An uncertain native policy dispatch cannot be erased by retirement.'', s))"

subsection \<open>Policy controls\<close>

definition policy_owner :: "string \<Rightarrow> NativePolicyControlReceipt \<Rightarrow> NativeConversation \<Rightarrow> NativeWorkState \<Rightarrow> bool" where
  "policy_owner key r v w =
     (nc_last_session_id v = pc_source_session_id r \<and> nc_native_thread_id v = pc_native_reference r
      \<and> nc_binding_hash v = pc_source_binding_hash r \<and> sc_conversation_key (nw_scope w) = Some key
      \<and> sc_execution_binding_hash (nw_scope w) = pc_source_binding_hash r)"

definition nothing_outstanding :: "'r DurableStore \<Rightarrow> string \<Rightarrow> NativeConversation \<Rightarrow> NativeWorkState \<Rightarrow> bool" where
  "nothing_outstanding s sid v w =
     (\<not> nw_closure_unconfirmed w
      \<and> list_all (\<lambda>(_, k). isNativeWorkTerminal (wk_status k)) (nw_items w)
      \<and> \<not> list_ex unresolved_execution (or_empty (nw_root_executions w))
      \<and> \<not> list_ex unresolved_goal (or_empty (nw_goals w))
      \<and> \<not> list_ex (\<lambda>f. wf_phase f = Receipt_pending) (or_empty (nw_forks w))
      \<and> map_of (ds_mcpReviews s) sid = None
      \<and> \<not> list_ex (\<lambda>r. pc_phase r = Receipt_pending) (nc_policy_controls v)
      \<and> \<not> list_ex (\<lambda>r. ct_phase r = Receipt_pending) (nc_configuration_transitions v)
      \<and> \<not> list_ex (\<lambda>r. case r of Injection_pending _ _ \<Rightarrow> True | _ \<Rightarrow> False) (nc_injections v)
      \<and> opt_ok (\<lambda>f. fk_phase f \<noteq> Receipt_pending) (nc_fork v) \<and> opt_ok (\<lambda>r. rb_phase r \<noteq> Receipt_pending) (nc_rollback v)
      \<and> \<not> list_ex (\<lambda>r. gc_phase r = Receipt_pending) (nc_goal_controls v)
      \<and> \<not> list_ex (\<lambda>r. fs_phase r = Receipt_pending) (nc_feedback_submissions v))"

definition check_begin_policy ::
  "schema_checks \<Rightarrow> (NativeWorkState \<Rightarrow> string) \<Rightarrow> string \<Rightarrow> NativePolicyControlReceipt \<Rightarrow> 'r DurableStore
    \<Rightarrow> string + NativeConversation" where
  "check_begin_policy c inventory_hash key r s =
     (if \<not> nativePolicyControlReceiptSchema (sk_ts c) (sk_body c) r then Inl ''ZodError''
      else case (map_of (ds_nativeConversations s) key, map_of (ds_nativeWork s) (pc_source_session_id r)) of
        (Some v, Some w) \<Rightarrow>
          bindR (guardR (pc_phase r = Receipt_pending \<and> policy_owner key r v w
                         \<and> sc_provider_binding_hash (nw_scope w) = nc_provider_binding_hash v
                         \<and> sc_workspace_id (nw_scope w) = nc_workspace_id v \<and> sc_cwd (nw_scope w) = nc_cwd v)
            ''Native policy dispatch requires its original conversation and execution owner.'') (\<lambda>_.
          bindR (guardR (nothing_outstanding s (pc_source_session_id r) v w)
            ''Native policy dispatch cannot bypass outstanding work, callbacks or uncertain mutations.'') (\<lambda>_.
          bindR (guardR (opt_ok (\<lambda>h. h = inventory_hash w) (pc_execution_inventory_hash r))
            ''Native policy dispatch inventory changed before its durable fence.'') (\<lambda>_.
          let added = v\<lparr>nc_policy_controls := nc_policy_controls v
                @ [r\<lparr>pc_execution_inventory_hash := Some (inventory_hash w)\<rparr>]\<rparr> in
          bindR (guardR (nativeConversationSchema (sk_ts c) (sk_body c) added) ''ZodError'') (\<lambda>_. Inr added))))
      | _ \<Rightarrow> Inl ''Native policy dispatch requires its original conversation and execution owner.'')"

definition beginNativePolicyControl ::
  "schema_checks \<Rightarrow> (NativeWorkState \<Rightarrow> string) \<Rightarrow> bool \<Rightarrow> string \<Rightarrow> NativePolicyControlReceipt \<Rightarrow> 'r DurableStore \<Rightarrow> 'r durable" where
  "beginNativePolicyControl c inventory_hash ok key r s =
     (case check_begin_policy c inventory_hash key r s of
        Inl m \<Rightarrow> (Inl m, s)
      | Inr v \<Rightarrow>
          commit ok (restore_conversation key (map_of (ds_nativeConversations s) key)) (Inr (put_conversation key v s)) s)"

definition retain_binding ::
  "string \<Rightarrow> binding_kind \<Rightarrow> string \<Rightarrow> execution_binding list \<Rightarrow> execution_binding list" where
  "retain_binding h k i bs =
     (if list_ex (\<lambda>b. eb_kind b = k \<and> eb_admission_id b = i) bs then bs
      else bs @ [\<lparr>eb_kind = k, eb_admission_id = i, eb_binding_hash = h\<rparr>])"

definition retained_bindings :: "NativeWorkState \<Rightarrow> execution_binding list" where
  "retained_bindings w =
     (let h = sc_execution_binding_hash (nw_scope w) in
      fold (retain_binding h Binding_work) (map fst (nw_items w) @ map fst (nw_retired w))
        (fold (\<lambda>r. retain_binding h Binding_root (re_admission_id r)) (or_empty (nw_root_executions w))
           (or_empty (nw_execution_bindings w))))"

definition rebound_work :: "string \<Rightarrow> NativeWorkState \<Rightarrow> NativeWorkState" where
  "rebound_work target w =
     w\<lparr>nw_execution_bindings := Some (retained_bindings w),
       nw_scope := (nw_scope w)\<lparr>sc_execution_binding_hash := target\<rparr>\<rparr>"

definition completed_receipt :: "HcpConversationResultPayload \<Rightarrow> NativePolicyControlReceipt \<Rightarrow> NativePolicyControlReceipt" where
  "completed_receipt result r = r\<lparr>pc_phase := Receipt_completed, pc_result := Some result\<rparr>"

definition confirmed_conversation ::
  "string \<Rightarrow> NativePolicyControlReceipt \<Rightarrow> HcpConversationResultPayload \<Rightarrow> NativeConversation \<Rightarrow> NativeConversation" where
  "confirmed_conversation now r result v =
     v\<lparr>nc_binding_hash := pc_target_binding_hash r,
       nc_approval_policy := Some (sel_approval_policy (pc_selection r)),
       nc_approval_reviewer := Some (sel_approval_reviewer (pc_selection r)),
       nc_updated_at := now,
       nc_policy_controls := map (\<lambda>x. if pc_command_id x = pc_command_id r then completed_receipt result r else x)
                               (nc_policy_controls v)\<rparr>"

definition check_complete_policy ::
  "schema_checks \<Rightarrow> (NativeWorkState \<Rightarrow> string) \<Rightarrow> string \<Rightarrow> string \<Rightarrow> string \<Rightarrow> string \<Rightarrow> HcpConversationResultPayload
    \<Rightarrow> HcpHarnessEventPayload option \<Rightarrow> 'r DurableStore \<Rightarrow> string + NativeConversation \<times> NativeWorkState" where
  "check_complete_policy c inventory_hash now key sid commandId result event s =
     (let refused = Inl ''Native policy confirmation requires its retained original dispatch fence.'' in
      case (map_of (ds_nativeConversations s) key, map_of (ds_nativeWork s) sid) of
        (Some v, Some w) \<Rightarrow>
          (case List.find (\<lambda>r. pc_command_id r = commandId) (nc_policy_controls v) of
             None \<Rightarrow> refused
           | Some r \<Rightarrow>
               if \<not> (pc_phase r = Receipt_pending \<and> pc_source_session_id r = sid \<and> policy_owner key r v w
                     \<and> \<not> nw_closure_unconfirmed w \<and> map_of (ds_mcpReviews s) sid = None
                     \<and> pc_execution_inventory_hash r = Some (inventory_hash w))
               then refused
               else
                 let v' = confirmed_conversation now r result v; w' = rebound_work (pc_target_binding_hash r) w in
                 bindR (guardR (hcpConversationResultPayloadSchema (sk_ts c) (sk_body c) result
                                \<and> nativePolicyControlReceiptSchema (sk_ts c) (sk_body c) (completed_receipt result r)
                                \<and> nativeWorkStateSchema (sk_ts c) (sk_body c) w'
                                \<and> nativeConversationSchema (sk_ts c) (sk_body c) v') ''ZodError'') (\<lambda>_.
                 bindR (guardR (opt_ok (\<lambda>e. ev_session_id e = sid \<and> ev_event_type e = ''session.configured'') event)
                   ''Native policy configuration events require the same physical owner's session.'') (\<lambda>_.
                 Inr (v', w'))))
      | _ \<Rightarrow> refused)"

definition completeNativePolicyControl ::
  "schema_checks \<Rightarrow> (NativeWorkState \<Rightarrow> string) \<Rightarrow> bool \<Rightarrow> string \<Rightarrow> string \<Rightarrow> string \<Rightarrow> string
    \<Rightarrow> HcpConversationResultPayload \<Rightarrow> HcpHarnessEventPayload option \<Rightarrow> 'r DurableStore \<Rightarrow> 'r durable" where
  "completeNativePolicyControl c inventory_hash ok now key sid commandId result event s =
     (case check_complete_policy c inventory_hash now key sid commandId result event s of
        Inl m \<Rightarrow> (Inl m, s)
      | Inr (v, w) \<Rightarrow>
          let previous = map_of (ds_nativeConversations s) key; work = map_of (ds_nativeWork s) sid;
              events = map_of (durable_events s) sid;
              s1 = (put_conversation key v s)\<lparr>ds_nativeWork := AList.update sid w (ds_nativeWork s)\<rparr> in
          commit ok (\<lambda>t. set_events (restore sid events (durable_events t))
                      ((restore_conversation key previous t)\<lparr>ds_nativeWork := restore sid work (ds_nativeWork t)\<rparr>))
            (append_all c (the_event event) s1) s1)"

subsection \<open>Histories\<close>

datatype ledger_op =
    Save_work string NativeWorkState "HcpHarnessEventPayload option"
  | Remove_empty_work string
  | Save_conversation string NativeConversation
  | Retire_conversation string
  | Begin_policy string NativePolicyControlReceipt
  | Complete_policy string string string string HcpConversationResultPayload "HcpHarnessEventPayload option"

text \<open>One call: whether its write succeeds, and the call.\<close>

fun ledger_call ::
  "schema_checks \<Rightarrow> (NativeWorkState \<Rightarrow> string) \<Rightarrow> bool \<times> ledger_op \<Rightarrow> 'r DurableStore \<Rightarrow> 'r durable" where
  "ledger_call c h (ok, Save_work sid w event) s = saveNativeWorkState c ok sid w event s"
| "ledger_call c h (ok, Remove_empty_work sid) s = removeEmptyNativeWorkState ok sid s"
| "ledger_call c h (ok, Save_conversation key v) s = saveNativeConversation c ok key v s"
| "ledger_call c h (ok, Retire_conversation key) s = retireNativeConversation ok key s"
| "ledger_call c h (ok, Begin_policy key r) s = beginNativePolicyControl c h ok key r s"
| "ledger_call c h (ok, Complete_policy now key sid commandId result event) s =
     completeNativePolicyControl c h ok now key sid commandId result event s"

definition ledger_run ::
  "schema_checks \<Rightarrow> (NativeWorkState \<Rightarrow> string) \<Rightarrow> (bool \<times> ledger_op) list \<Rightarrow> 'r DurableStore \<Rightarrow> 'r DurableStore" where
  "ledger_run c h ops s = fold (\<lambda>op t. snd (ledger_call c h op t)) ops s"

lemma ledger_run_simps [simp]:
  "ledger_run c h [] s = s"
  "ledger_run c h (ops @ ops') s = ledger_run c h ops' (ledger_run c h ops s)"
  "ledger_run c h [op] s = snd (ledger_call c h op s)"
  by (simp_all add: ledger_run_def)

text \<open>What a restart reads of the three dictionaries: the file, if every entry passes its schema.\<close>

definition read_dictionaries ::
  "schema_checks \<Rightarrow> ('r \<Rightarrow> bool) \<Rightarrow> 'r native_file option \<Rightarrow> string + 'r native_file" where
  "read_dictionaries c review_ok file =
     (case file of None \<Rightarrow> Inr ([], [], [])
      | Some (works, conversations, reviews) \<Rightarrow>
          if list_all (\<lambda>(_, w). nativeWorkStateSchema (sk_ts c) (sk_body c) w) works
             \<and> list_all (\<lambda>(_, v). nativeConversationSchema (sk_ts c) (sk_body c) v) conversations
             \<and> list_all (\<lambda>(_, r). review_ok r) reviews
          then Inr (works, conversations, reviews) else Inl ''ZodError'')"

subsection \<open>Evidence that grows\<close>

text \<open>
  An order on records in which a later record keeps what an earlier one says, and the same on lists:
  every earlier record is kept by some later one.
\<close>

definition kept :: "('a \<Rightarrow> 'a \<Rightarrow> bool) \<Rightarrow> 'a list \<Rightarrow> 'a list \<Rightarrow> bool" where
  "kept le old new = list_all (\<lambda>r. list_ex (le r) new) old"

locale evidence =
  fixes le :: "'a \<Rightarrow> 'a \<Rightarrow> bool"
  assumes le_refl: "le x x" and le_trans: "le x y \<Longrightarrow> le y z \<Longrightarrow> le x z"
begin

lemma kept_refl: "kept le xs xs"
  by (auto simp: kept_def list_all_iff list_ex_iff intro: le_refl)

lemma kept_more: "set xs \<subseteq> set ys \<Longrightarrow> kept le xs ys"
  by (auto simp: kept_def list_all_iff list_ex_iff intro: le_refl)

lemma kept_trans: "kept le xs ys \<Longrightarrow> kept le ys zs \<Longrightarrow> kept le xs zs"
  by (auto simp: kept_def list_all_iff list_ex_iff) (meson le_trans)

end

lemma kept_Nil [simp]: "kept le [] ys"
  by (simp add: kept_def)

lemma found_kept_kept: "found_kept key le old new \<Longrightarrow> kept le old new"
  by (force simp: found_kept_def kept_def list_all_iff list_ex_iff find_Some_iff split: option.splits
      dest!: bspec intro: nth_mem)

definition entry_le :: "string \<times> NativeWorkCustody \<Rightarrow> string \<times> NativeWorkCustody \<Rightarrow> bool" where
  "entry_le x y = (fst x = fst y \<and> custody_le (snd x) (snd y))"

interpretation custody: evidence entry_le
  by unfold_locales (auto simp: entry_le_def custody_le_def opt_ok_def split: option.splits)

interpretation forks: evidence work_fork_le
  by unfold_locales (auto simp: work_fork_le_def)

interpretation executions: evidence root_execution_le
  by unfold_locales (auto simp: root_execution_le_def opt_ok_def split: option.splits)

interpretation goals: evidence goal_admission_le
  by unfold_locales (auto simp: goal_admission_le_def snapshot_le_def opt_ok_def split: option.splits)

interpretation goal_controls: evidence goal_control_le
proof unfold_locales
  show "goal_control_le x x" for x by (simp add: goal_control_le_def)
  show "goal_control_le x z" if "goal_control_le x y" "goal_control_le y z" for x y z
    using that by (cases x; cases y; cases z) (auto simp: goal_control_le_def)
qed

interpretation feedbacks: evidence feedback_le
proof unfold_locales
  show "feedback_le x x" for x by (simp add: feedback_le_def)
  show "feedback_le x z" if "feedback_le x y" "feedback_le y z" for x y z
    using that by (cases x; cases y; cases z) (auto simp: feedback_le_def)
qed

interpretation identical: evidence "(=)"
  by unfold_locales auto

definition work_evidence_le :: "NativeWorkState \<Rightarrow> NativeWorkState \<Rightarrow> bool" where
  "work_evidence_le p w =
     ((nw_closure_unconfirmed p \<longrightarrow> nw_closure_unconfirmed w)
      \<and> kept (=) (or_empty (nw_execution_bindings p)) (or_empty (nw_execution_bindings w))
      \<and> kept entry_le (or_empty (nw_custody p)) (or_empty (nw_custody w))
      \<and> kept work_fork_le (or_empty (nw_forks p)) (or_empty (nw_forks w))
      \<and> kept (=) (or_empty (nw_reconciliations p)) (or_empty (nw_reconciliations w))
      \<and> kept root_execution_le (or_empty (nw_root_executions p)) (or_empty (nw_root_executions w))
      \<and> kept goal_admission_le (or_empty (nw_goals p)) (or_empty (nw_goals w)))"

interpretation work: evidence work_evidence_le
proof unfold_locales
  show "work_evidence_le x x" for x
    by (simp add: work_evidence_le_def identical.kept_refl custody.kept_refl forks.kept_refl
        executions.kept_refl goals.kept_refl)
  show "work_evidence_le x z" if "work_evidence_le x y" "work_evidence_le y z" for x y z
    using that unfolding work_evidence_le_def
    by (blast intro: identical.kept_trans custody.kept_trans forks.kept_trans executions.kept_trans goals.kept_trans)
qed

text \<open>A state with no evidence at all may be removed.\<close>

definition blank :: "NativeWorkState \<Rightarrow> bool" where
  "blank p =
     (\<not> nw_closure_unconfirmed p \<and> or_empty (nw_execution_bindings p) = [] \<and> or_empty (nw_custody p) = []
      \<and> or_empty (nw_forks p) = [] \<and> or_empty (nw_reconciliations p) = []
      \<and> or_empty (nw_root_executions p) = [] \<and> or_empty (nw_goals p) = [])"

definition evidence_over :: "NativeWorkState option \<Rightarrow> NativeWorkState option \<Rightarrow> bool" where
  "evidence_over before after =
     (case before of None \<Rightarrow> True
      | Some p \<Rightarrow> (case after of None \<Rightarrow> blank p | Some w \<Rightarrow> work_evidence_le p w))"

lemma blank_le: "blank p \<Longrightarrow> work_evidence_le p w"
  by (simp add: blank_def work_evidence_le_def)

lemma kept_to_Nil [simp]: "kept le xs [] \<longleftrightarrow> xs = []"
  by (cases xs) (auto simp: kept_def)

lemma le_blank: "work_evidence_le p w \<Longrightarrow> blank w \<Longrightarrow> blank p"
  by (auto simp: blank_def work_evidence_le_def)

interpretation history: evidence evidence_over
proof unfold_locales
  show "evidence_over x x" for x
    by (simp add: evidence_over_def work.le_refl split: option.splits)
  show "evidence_over x z" if "evidence_over x y" "evidence_over y z" for x y z
    using that by (auto simp: evidence_over_def split: option.splits intro: blank_le le_blank work.le_trans)
qed

subsection \<open>What a call changes\<close>

text \<open>
  The two ways a call ends: nothing is different in the three dictionaries, or the call went through
  and the file holds the new dictionaries.
\<close>

definition same_entries :: "('k \<times> 'v) list \<Rightarrow> ('k \<times> 'v) list \<Rightarrow> bool" where
  "same_entries m m' = (map_of m' = map_of m \<and> (distinct (map fst m) \<longrightarrow> mset m' = mset m))"

lemma same_entries_refl [simp]: "same_entries m m"
  by (simp add: same_entries_def)

lemma mset_update_delete:
  "distinct (map fst m) \<Longrightarrow> map_of m k = Some v \<Longrightarrow> mset (AList.update k v (AList.delete k m)) = mset m"
proof (induction m)
  case (Cons x m)
  show ?case
  proof (cases "fst x = k")
    case True
    with Cons.prems have "x = (k, v)" and absent: "map_of m k = None"
      by (auto simp: map_of_eq_None_iff)
    with True show ?thesis by (simp add: delete_absent update_new)
  next
    case False
    with Cons show ?thesis by (cases x) auto
  qed
qed simp

lemma same_entries_update_delete:
  "map_of m k = Some v \<Longrightarrow> same_entries m (AList.update k v (AList.delete k m))"
  by (auto simp: same_entries_def mset_update_delete js_map)

definition same_dictionaries :: "'r DurableStore \<Rightarrow> 'r DurableStore \<Rightarrow> bool" where
  "same_dictionaries s s' =
     (same_entries (ds_nativeWork s) (ds_nativeWork s')
      \<and> same_entries (ds_nativeConversations s) (ds_nativeConversations s')
      \<and> ds_mcpReviews s' = ds_mcpReviews s \<and> ds_file s' = ds_file s)"

definition stored ::
  "(string \<times> NativeWorkState) list \<Rightarrow> (string \<times> NativeConversation) list \<Rightarrow> 'r DurableStore \<Rightarrow> 'r DurableStore \<Rightarrow> bool" where
  "stored works conversations s s' =
     (ds_nativeWork s' = works \<and> ds_nativeConversations s' = conversations \<and> ds_mcpReviews s' = ds_mcpReviews s
      \<and> ds_file s' = Some (dictionaries s'))"

lemma same_dictionaries_refl [simp]: "same_dictionaries s s"
  by (simp add: same_dictionaries_def)

lemma save_work_cases:
  assumes "saveNativeWorkState c ok sid w event s = (r, s')"
  shows "same_dictionaries s s'
    \<or> check_native_work c s sid w event = Inr ()
      \<and> stored (AList.update sid w (ds_nativeWork s)) (ds_nativeConversations s) s s'"
proof (cases "check_native_work c s sid w event")
  case (Inl m)
  then show ?thesis using assms by (auto simp: saveNativeWorkState_def)
next
  case (Inr u)
  let ?s1 = "s\<lparr>ds_nativeWork := AList.update sid w (ds_nativeWork s)\<rparr>"
  from assms Inr have "commit ok (\<lambda>t. set_events (restore sid (map_of (durable_events s) sid) (durable_events t))
      (t\<lparr>ds_nativeWork := restore sid (map_of (ds_nativeWork s) sid) (ds_nativeWork t)\<rparr>))
      (append_all c (the_event event) ?s1) ?s1 = (r, s')"
    by (simp add: saveNativeWorkState_def Let_def)
  then show ?thesis
  proof (cases rule: commit_cases)
    case (refused m)
    then show ?thesis by (simp add: same_dictionaries_def restore_update)
  next
    case (unwritten t)
    from append_all_keeps [OF unwritten(1)] unwritten show ?thesis
      by (simp add: same_dictionaries_def restore_update)
  next
    case (written t)
    from append_all_keeps [OF written(1)] written Inr show ?thesis
      by (auto simp: stored_def dictionaries_def)
  qed
qed

lemma remove_work_cases:
  assumes "removeEmptyNativeWorkState ok sid s = (r, s')"
  shows "same_dictionaries s s'
    \<or> (\<exists>p. map_of (ds_nativeWork s) sid = Some p \<and> work_is_empty p
         \<and> stored (AList.delete sid (ds_nativeWork s)) (ds_nativeConversations s) s s')"
proof (cases "\<exists>p. map_of (ds_nativeWork s) sid = Some p \<and> work_is_empty p")
  case False
  then show ?thesis using assms by (auto simp: removeEmptyNativeWorkState_def split: option.splits if_splits)
next
  case True
  then obtain p where p: "map_of (ds_nativeWork s) sid = Some p" "work_is_empty p" by blast
  with assms have "commit ok (\<lambda>t. t\<lparr>ds_nativeWork := AList.update sid p (ds_nativeWork t)\<rparr>)
      (Inr (s\<lparr>ds_nativeWork := AList.delete sid (ds_nativeWork s)\<rparr>)) s = (r, s')"
    by (simp add: removeEmptyNativeWorkState_def)
  then show ?thesis
    by (cases rule: commit_cases)
      (use p in \<open>auto simp: same_dictionaries_def stored_def dictionaries_def same_entries_update_delete\<close>)
qed

lemma put_conversation_simps [simp]:
  "ds_nativeWork (put_conversation key v s) = ds_nativeWork s"
  "ds_nativeConversations (put_conversation key v s) = AList.update key v (ds_nativeConversations s)"
  "ds_mcpReviews (put_conversation key v s) = ds_mcpReviews s" "ds_file (put_conversation key v s) = ds_file s"
  by (simp_all add: put_conversation_def)

lemma restore_conversation_simps [simp]:
  "ds_nativeWork (restore_conversation key p s) = ds_nativeWork s"
  "ds_nativeConversations (restore_conversation key p s) = restore key p (ds_nativeConversations s)"
  "ds_mcpReviews (restore_conversation key p s) = ds_mcpReviews s" "ds_file (restore_conversation key p s) = ds_file s"
  by (simp_all add: restore_conversation_def)

lemma put_cases:
  assumes "commit ok (restore_conversation key (map_of (ds_nativeConversations s) key)) (Inr (put_conversation key v s)) s = (r, s')"
  shows "same_dictionaries s s'
    \<or> stored (ds_nativeWork s) (AList.update key v (ds_nativeConversations s)) s s'"
  using assms
  by (cases rule: commit_cases) (auto simp: same_dictionaries_def stored_def dictionaries_def restore_update)

lemma save_conversation_cases:
  assumes "saveNativeConversation c ok key v s = (r, s')"
  shows "same_dictionaries s s'
    \<or> check_conversation c s key v = Inr ()
      \<and> stored (ds_nativeWork s) (AList.update key v (ds_nativeConversations s)) s s'"
proof (cases "check_conversation c s key v")
  case (Inl m)
  then show ?thesis using assms by (auto simp: saveNativeConversation_def)
next
  case (Inr u)
  then show ?thesis using assms put_cases [where s = s and key = key and v = v]
    by (auto simp: saveNativeConversation_def)
qed

lemma begin_policy_cases:
  assumes "beginNativePolicyControl c h ok key q s = (r, s')"
  shows "same_dictionaries s s'
    \<or> (\<exists>v. check_begin_policy c h key q s = Inr v
        \<and> stored (ds_nativeWork s) (AList.update key v (ds_nativeConversations s)) s s')"
proof (cases "check_begin_policy c h key q s")
  case (Inl m)
  then show ?thesis using assms by (auto simp: beginNativePolicyControl_def)
next
  case (Inr v)
  then show ?thesis using assms put_cases [where s = s and key = key and v = v]
    by (auto simp: beginNativePolicyControl_def)
qed

lemma retire_cases:
  assumes "retireNativeConversation ok key s = (r, s')"
  shows "same_dictionaries s s' \<or> stored (ds_nativeWork s) (AList.delete key (ds_nativeConversations s)) s s'"
proof (cases "opt_ok (\<lambda>p. \<not> list_ex (\<lambda>r. pc_phase r = Receipt_pending) (nc_policy_controls p))
                (map_of (ds_nativeConversations s) key)")
  case False
  then show ?thesis using assms by (auto simp: retireNativeConversation_def)
next
  case True
  with assms have "commit ok (case map_of (ds_nativeConversations s) key of None \<Rightarrow> id | Some p \<Rightarrow> put_conversation key p)
      (Inr (s\<lparr>ds_nativeConversations := AList.delete key (ds_nativeConversations s)\<rparr>)) s = (r, s')"
    by (simp add: retireNativeConversation_def)
  then show ?thesis
    by (cases rule: commit_cases)
      (auto simp: same_dictionaries_def stored_def dictionaries_def same_entries_update_delete delete_absent split: option.splits)
qed

lemma complete_policy_cases:
  assumes "completeNativePolicyControl c h ok now key sid cmd res event s = (r, s')"
  shows "same_dictionaries s s'
    \<or> (\<exists>v w. check_complete_policy c h now key sid cmd res event s = Inr (v, w)
        \<and> stored (AList.update sid w (ds_nativeWork s)) (AList.update key v (ds_nativeConversations s)) s s')"
proof (cases "check_complete_policy c h now key sid cmd res event s")
  case (Inl m)
  then show ?thesis using assms by (auto simp: completeNativePolicyControl_def)
next
  case (Inr vw)
  then obtain v w where vw: "check_complete_policy c h now key sid cmd res event s = Inr (v, w)" by (cases vw) auto
  let ?s1 = "(put_conversation key v s)\<lparr>ds_nativeWork := AList.update sid w (ds_nativeWork s)\<rparr>"
  from assms vw have "commit ok
      (\<lambda>t. set_events (restore sid (map_of (durable_events s) sid) (durable_events t))
         ((restore_conversation key (map_of (ds_nativeConversations s) key) t)
            \<lparr>ds_nativeWork := restore sid (map_of (ds_nativeWork s) sid) (ds_nativeWork t)\<rparr>))
      (append_all c (the_event event) ?s1) ?s1 = (r, s')"
    by (simp add: completeNativePolicyControl_def Let_def)
  then show ?thesis
  proof (cases rule: commit_cases)
    case (refused m)
    then show ?thesis by (simp add: same_dictionaries_def restore_update)
  next
    case (unwritten t)
    from append_all_keeps [OF unwritten(1)] unwritten show ?thesis
      by (simp add: same_dictionaries_def restore_update)
  next
    case (written t)
    from append_all_keeps [OF written(1)] written vw show ?thesis
      by (auto simp: stored_def dictionaries_def)
  qed
qed

text \<open>Every call, by what it stores.\<close>

inductive ledger_change ::
  "schema_checks \<Rightarrow> (NativeWorkState \<Rightarrow> string) \<Rightarrow> 'r DurableStore \<Rightarrow> 'r DurableStore \<Rightarrow> bool"
  for c h s s' where
  nothing: "same_dictionaries s s' \<Longrightarrow> ledger_change c h s s'"
| saved_work: "check_native_work c s sid w event = Inr ()
    \<Longrightarrow> stored (AList.update sid w (ds_nativeWork s)) (ds_nativeConversations s) s s' \<Longrightarrow> ledger_change c h s s'"
| removed_work: "map_of (ds_nativeWork s) sid = Some p \<Longrightarrow> work_is_empty p
    \<Longrightarrow> stored (AList.delete sid (ds_nativeWork s)) (ds_nativeConversations s) s s' \<Longrightarrow> ledger_change c h s s'"
| saved_conversation: "check_conversation c s key v = Inr ()
    \<Longrightarrow> stored (ds_nativeWork s) (AList.update key v (ds_nativeConversations s)) s s' \<Longrightarrow> ledger_change c h s s'"
| retired: "stored (ds_nativeWork s) (AList.delete key (ds_nativeConversations s)) s s' \<Longrightarrow> ledger_change c h s s'"
| began: "check_begin_policy c h key q s = Inr v
    \<Longrightarrow> stored (ds_nativeWork s) (AList.update key v (ds_nativeConversations s)) s s' \<Longrightarrow> ledger_change c h s s'"
| completed: "check_complete_policy c h now key sid cmd res event s = Inr (v, w)
    \<Longrightarrow> stored (AList.update sid w (ds_nativeWork s)) (AList.update key v (ds_nativeConversations s)) s s'
    \<Longrightarrow> ledger_change c h s s'"

lemma ledger_call_changes: "ledger_change c h s (snd (ledger_call c h op s))"
proof -
  obtain ok a where op: "op = (ok, a)" by (cases op) auto
  obtain r s' where run: "ledger_call c h op s = (r, s')" by fastforce
  have "ledger_change c h s s'"
  proof (cases a)
    case (Save_work sid w event)
    with run op have "ledger_call c h (ok, Save_work sid w event) s = (r, s')" by simp
    from save_work_cases [OF this [simplified]] show ?thesis by (blast intro: ledger_change.intros)
  next
    case (Remove_empty_work sid)
    with run op have "ledger_call c h (ok, Remove_empty_work sid) s = (r, s')" by simp
    from remove_work_cases [OF this [simplified]] show ?thesis by (blast intro: ledger_change.intros)
  next
    case (Save_conversation key v)
    with run op have "ledger_call c h (ok, Save_conversation key v) s = (r, s')" by simp
    from save_conversation_cases [OF this [simplified]] show ?thesis by (blast intro: ledger_change.intros)
  next
    case (Retire_conversation key)
    with run op have "ledger_call c h (ok, Retire_conversation key) s = (r, s')" by simp
    from retire_cases [OF this [simplified]] show ?thesis by (blast intro: ledger_change.intros)
  next
    case (Begin_policy key q)
    with run op have "ledger_call c h (ok, Begin_policy key q) s = (r, s')" by simp
    from begin_policy_cases [OF this [simplified]] show ?thesis by (blast intro: ledger_change.intros)
  next
    case (Complete_policy now key sid cmd res event)
    with run op have "ledger_call c h (ok, Complete_policy now key sid cmd res event) s = (r, s')" by simp
    from complete_policy_cases [OF this [simplified]] show ?thesis by (blast intro: ledger_change.intros)
  qed
  then show ?thesis by (simp add: run)
qed

subsection \<open>The invariant\<close>

lemma list_all_map_of:
  "distinct (map fst m) \<Longrightarrow> list_all (\<lambda>(k, v). P v) m \<longleftrightarrow> (\<forall>k v. map_of m k = Some v \<longrightarrow> P v)"
  by (auto simp: list_all_iff)

lemma map_of_list_all: "list_all (\<lambda>(k, v). P v) m \<Longrightarrow> map_of m k = Some v \<Longrightarrow> P v"
  by (auto simp: list_all_iff dest: map_of_SomeD)

text \<open>A dictionary of at most 1024 entries, each key once, each entry with the property \<open>P\<close>.\<close>

definition bounded_dictionary :: "('v \<Rightarrow> bool) \<Rightarrow> ('k \<times> 'v) list \<Rightarrow> bool" where
  "bounded_dictionary P m = (distinct (map fst m) \<and> length m \<le> 1024 \<and> list_all (\<lambda>(k, v). P v) m)"

lemma bounded_dictionary_same: "bounded_dictionary P m \<Longrightarrow> same_entries m m' \<Longrightarrow> bounded_dictionary P m'"
proof -
  assume m: "bounded_dictionary P m" and "same_entries m m'"
  then have eq: "mset m' = mset m" by (auto simp: bounded_dictionary_def same_entries_def)
  then have "mset (map fst m') = mset (map fst m)" by simp
  then have "distinct (map fst m') = distinct (map fst m)" by (rule mset_eq_imp_distinct_iff)
  with m eq mset_eq_length [OF eq] mset_eq_setD [OF eq] show ?thesis
    by (auto simp: bounded_dictionary_def list_all_iff)
qed

lemma bounded_dictionary_update:
  assumes "bounded_dictionary P m" and "P v" and "map_of m k = None \<longrightarrow> length m < 1024"
  shows "bounded_dictionary P (AList.update k v m)"
proof -
  have "length (AList.update k v m) \<le> 1024"
  proof (cases "map_of m k")
    case None
    with assms show ?thesis by (simp add: update_new)
  next
    case (Some w)
    then have "k \<in> set (map fst m)" by (force dest: map_of_SomeD)
    then have "length (AList.update k v m) = length m"
      by (induction m) auto
    with assms(1) show ?thesis by (simp add: bounded_dictionary_def)
  qed
  with assms set_update_subset [of k v m] show ?thesis
    by (auto simp: bounded_dictionary_def list_all_iff distinct_update)
qed

lemma bounded_dictionary_delete: "bounded_dictionary P m \<Longrightarrow> bounded_dictionary P (AList.delete k m)"
proof -
  have "length (AList.delete k m) \<le> length m" by (simp add: AList.delete_eq)
  moreover have "set (AList.delete k m) \<subseteq> set m" by (auto simp: AList.delete_eq)
  ultimately show "bounded_dictionary P m \<Longrightarrow> bounded_dictionary P (AList.delete k m)"
    by (auto simp: bounded_dictionary_def list_all_iff distinct_delete)
qed

definition work_ok :: "schema_checks \<Rightarrow> NativeWorkState \<Rightarrow> bool" where
  "work_ok c w =
     (nativeWorkStateSchema (sk_ts c) (sk_body c) w
      \<and> length (nw_items w) \<le> 128 \<and> length (nw_retired w) \<le> 1024 \<and> length (or_empty (nw_custody w)) \<le> 1152
      \<and> list_all (binding_exists w) (or_empty (nw_execution_bindings w)))"

definition conversation_ok :: "schema_checks \<Rightarrow> NativeConversation \<Rightarrow> bool" where
  "conversation_ok c = nativeConversationSchema (sk_ts c) (sk_body c)"

definition ledger_ok :: "schema_checks \<Rightarrow> ('r \<Rightarrow> bool) \<Rightarrow> 'r DurableStore \<Rightarrow> bool" where
  "ledger_ok c review_ok s =
     (bounded_dictionary (work_ok c) (ds_nativeWork s)
      \<and> bounded_dictionary (conversation_ok c) (ds_nativeConversations s)
      \<and> list_all (\<lambda>(_, r). review_ok r) (ds_mcpReviews s)
      \<and> (case ds_file s of
           None \<Rightarrow> ds_nativeWork s = [] \<and> ds_nativeConversations s = [] \<and> ds_mcpReviews s = []
         | Some (works, conversations, reviews) \<Rightarrow>
             same_entries works (ds_nativeWork s) \<and> same_entries conversations (ds_nativeConversations s)
             \<and> bounded_dictionary (work_ok c) works \<and> bounded_dictionary (conversation_ok c) conversations
             \<and> reviews = ds_mcpReviews s))"

lemma checked_then: "bindR x (\<lambda>_. y) = Inr u \<longleftrightarrow> x = Inr () \<and> y = Inr u" for x :: "'e + unit"
  by (cases x) auto

lemma bindR_Inr_same: "bindR x Inr = x"
  by (cases x) auto

lemmas checks_passed = checked_then bindR_Inr_same guardR_eq_Inr opt_ok_simps

lemma check_native_workD:
  assumes "check_native_work c s sid w event = Inr u"
  shows "nativeWorkStateSchema (sk_ts c) (sk_body c) w"
    and "map_of (ds_nativeWork s) sid = None \<longrightarrow> length (ds_nativeWork s) < 1024"
    and "length (nw_items w) \<le> 128" "length (nw_retired w) \<le> 1024" "length (or_empty (nw_custody w)) \<le> 1152"
    and "bindings_admitted (map_of (ds_nativeWork s) sid) w" "goal_executions_confirmed w"
    and "\<And>p. map_of (ds_nativeWork s) sid = Some p \<Longrightarrow>
          (nw_closure_unconfirmed p \<longrightarrow> nw_closure_unconfirmed w) \<and> nw_scope p = nw_scope w
          \<and> bindings_kept p w \<and> custody_kept p w
          \<and> found_kept wf_command_id work_fork_le (or_empty (nw_forks p)) (or_empty (nw_forks w))
          \<and> found_kept rc_command_id (=) (or_empty (nw_reconciliations p)) (or_empty (nw_reconciliations w))
          \<and> found_kept re_admission_id root_execution_le (or_empty (nw_root_executions p)) (or_empty (nw_root_executions w))
          \<and> found_kept ga_admission_id goal_admission_le (or_empty (nw_goals p)) (or_empty (nw_goals w))"
  using assms unfolding check_native_work_def Let_def by (simp_all add: checks_passed)

lemma check_conversationD:
  assumes "check_conversation c s key v = Inr u"
  shows "nativeConversationSchema (sk_ts c) (sk_body c) v"
    and "map_of (ds_nativeConversations s) key = None \<longrightarrow> length (ds_nativeConversations s) < 1024"
    and "completions_fenced gc_command_id gc_phase
           (case map_of (ds_nativeConversations s) key of None \<Rightarrow> [] | Some p \<Rightarrow> nc_goal_controls p) (nc_goal_controls v)"
    and "completions_fenced fs_command_id fs_phase
           (case map_of (ds_nativeConversations s) key of None \<Rightarrow> [] | Some p \<Rightarrow> nc_feedback_submissions p)
           (nc_feedback_submissions v)"
    and "check_each (check_feedback (nc_feedback_submissions v))
           (case map_of (ds_nativeConversations s) key of None \<Rightarrow> [] | Some p \<Rightarrow> nc_feedback_submissions p) = Inr ()"
    and "(case map_of (ds_nativeConversations s) key of None \<Rightarrow> [] | Some p \<Rightarrow> nc_policy_controls p) = nc_policy_controls v"
    and "\<And>p. map_of (ds_nativeConversations s) key = Some p \<Longrightarrow>
          found_kept gc_command_id goal_control_le (nc_goal_controls p) (nc_goal_controls v) \<and> identity_kept p v"
  using assms unfolding check_conversation_def Let_def by (simp_all add: checks_passed)

lemma fold_retain:
  "set bs \<subseteq> set (fold (retain_binding h k) xs bs)
   \<and> (\<forall>b \<in> set (fold (retain_binding h k) xs bs). b \<in> set bs \<or> eb_kind b = k \<and> eb_admission_id b \<in> set xs)"
proof (induction xs arbitrary: bs)
  case (Cons x xs)
  have "set bs \<subseteq> set (retain_binding h k x bs)"
    and "\<forall>b \<in> set (retain_binding h k x bs). b \<in> set bs \<or> eb_kind b = k \<and> eb_admission_id b = x"
    by (auto simp: retain_binding_def)
  with Cons.IH [of "retain_binding h k x bs"] show ?case by fastforce
qed simp

lemma retained_bindings_set:
  "set (or_empty (nw_execution_bindings w)) \<subseteq> set (retained_bindings w)"
  "b \<in> set (retained_bindings w) \<Longrightarrow>
     b \<in> set (or_empty (nw_execution_bindings w))
     \<or> eb_kind b = Binding_root \<and> eb_admission_id b \<in> re_admission_id ` set (or_empty (nw_root_executions w))
     \<or> eb_kind b = Binding_work \<and> eb_admission_id b \<in> fst ` set (nw_items w) \<union> fst ` set (nw_retired w)"
proof -
  let ?h = "sc_execution_binding_hash (nw_scope w)"
  let ?roots = "fold (retain_binding ?h Binding_root) (map re_admission_id (or_empty (nw_root_executions w)))
                  (or_empty (nw_execution_bindings w))"
  let ?works = "map fst (nw_items w) @ map fst (nw_retired w)"
  have eq: "retained_bindings w = fold (retain_binding ?h Binding_work) ?works ?roots"
    by (simp add: retained_bindings_def Let_def fold_map comp_def)
  note roots = fold_retain [of "or_empty (nw_execution_bindings w)" ?h Binding_root "map re_admission_id (or_empty (nw_root_executions w))"]
  note works = fold_retain [of ?roots ?h Binding_work ?works]
  from roots works show "set (or_empty (nw_execution_bindings w)) \<subseteq> set (retained_bindings w)"
    unfolding eq by blast
  show "b \<in> set (retained_bindings w) \<Longrightarrow>
     b \<in> set (or_empty (nw_execution_bindings w))
     \<or> eb_kind b = Binding_root \<and> eb_admission_id b \<in> re_admission_id ` set (or_empty (nw_root_executions w))
     \<or> eb_kind b = Binding_work \<and> eb_admission_id b \<in> fst ` set (nw_items w) \<union> fst ` set (nw_retired w)"
    using roots works unfolding eq by fastforce
qed

lemma rebound_simps [simp]:
  "nw_items (rebound_work t w) = nw_items w" "nw_retired (rebound_work t w) = nw_retired w"
  "nw_custody (rebound_work t w) = nw_custody w" "nw_goals (rebound_work t w) = nw_goals w"
  "nw_root_executions (rebound_work t w) = nw_root_executions w" "nw_forks (rebound_work t w) = nw_forks w"
  "nw_reconciliations (rebound_work t w) = nw_reconciliations w"
  "nw_closure_unconfirmed (rebound_work t w) = nw_closure_unconfirmed w"
  "nw_execution_bindings (rebound_work t w) = Some (retained_bindings w)"
  by (simp_all add: rebound_work_def)

lemma rebound_keeps: "work_evidence_le w (rebound_work t w)"
  by (simp add: work_evidence_le_def identical.kept_refl custody.kept_refl forks.kept_refl
      executions.kept_refl goals.kept_refl identical.kept_more retained_bindings_set(1))

lemma rebound_ok:
  assumes "work_ok c w" and "nativeWorkStateSchema (sk_ts c) (sk_body c) (rebound_work t w)"
  shows "work_ok c (rebound_work t w)"
proof -
  have "binding_exists (rebound_work t w) b" if "b \<in> set (retained_bindings w)" for b
  proof -
    have same: "binding_exists (rebound_work t w) b = binding_exists w b"
      by (simp add: binding_exists_def split: binding_kind.split)
    from retained_bindings_set(2) [OF that] show ?thesis
      unfolding same
    proof (elim disjE conjE)
      assume "b \<in> set (or_empty (nw_execution_bindings w))"
      with assms(1) show "binding_exists w b" by (simp add: work_ok_def list_all_iff)
    next
      assume "eb_kind b = Binding_root" "eb_admission_id b \<in> re_admission_id ` set (or_empty (nw_root_executions w))"
      then show "binding_exists w b" by (auto simp: binding_exists_def list_ex_iff)
    next
      assume "eb_kind b = Binding_work" "eb_admission_id b \<in> fst ` set (nw_items w) \<union> fst ` set (nw_retired w)"
      then show "binding_exists w b" unfolding binding_exists_def map_of_eq_None_iff by simp
    qed
  qed
  with assms show ?thesis by (simp add: work_ok_def list_all_iff)
qed

lemma check_begin_policyD:
  assumes "check_begin_policy c h key q s = Inr v"
  obtains p where "map_of (ds_nativeConversations s) key = Some p"
    and "v = p\<lparr>nc_policy_controls := nc_policy_controls v\<rparr>"
    and "nativeConversationSchema (sk_ts c) (sk_body c) v"
  using assms unfolding check_begin_policy_def
  by (auto simp: bindR_eq_Inr guardR_eq_Inr Let_def split: if_splits option.splits)

lemma check_complete_policyD:
  assumes "check_complete_policy c h now key sid cmd res event s = Inr (v, w)"
  obtains p q t where "map_of (ds_nativeConversations s) key = Some p" "map_of (ds_nativeWork s) sid = Some q"
    and "w = rebound_work t q" "nativeWorkStateSchema (sk_ts c) (sk_body c) w"
    and "nativeConversationSchema (sk_ts c) (sk_body c) v"
    and "nc_goal_controls v = nc_goal_controls p" "nc_feedback_submissions v = nc_feedback_submissions p"
  using assms unfolding check_complete_policy_def
  by (auto simp: bindR_eq_Inr guardR_eq_Inr Let_def confirmed_conversation_def split: if_splits option.splits)

text \<open>What a change does to one entry.\<close>

lemma saved_work_ok: "check_native_work c s sid w event = Inr u \<Longrightarrow> work_ok c w"
  using check_native_workD [of c s sid w event u]
  by (auto simp: work_ok_def bindings_admitted_def list_all_iff)

lemma saved_work_keeps:
  assumes "check_native_work c s sid w event = Inr u" and "map_of (ds_nativeWork s) sid = Some p"
  shows "work_evidence_le p w"
proof -
  note new = check_native_workD(8) [OF assms]
  have "kept (=) (or_empty (nw_execution_bindings p)) (or_empty (nw_execution_bindings w))"
    unfolding kept_def list_all_iff list_ex_iff
  proof (intro ballI)
    fix b
    assume "b \<in> set (or_empty (nw_execution_bindings p))"
    with new have "binding_of (eb_kind b) (eb_admission_id b) (or_empty (nw_execution_bindings w)) = Some b"
      by (simp add: bindings_kept_def list_all_iff)
    then have "b \<in> set (or_empty (nw_execution_bindings w))"
      unfolding binding_of_def find_Some_iff by (auto intro: nth_mem)
    then show "\<exists>b' \<in> set (or_empty (nw_execution_bindings w)). b = b'" by blast
  qed
  moreover have "kept entry_le (or_empty (nw_custody p)) (or_empty (nw_custody w))"
    unfolding kept_def list_all_iff list_ex_iff
  proof (intro ballI)
    fix x
    assume "x \<in> set (or_empty (nw_custody p))"
    with new obtain n where "map_of (or_empty (nw_custody w)) (fst x) = Some n" "custody_le (snd x) n"
      by (auto simp: custody_kept_def list_all_iff split: option.splits dest!: bspec)
    then show "\<exists>y \<in> set (or_empty (nw_custody w)). entry_le x y"
      by (intro bexI [where x = "(fst x, n)"]) (auto simp: entry_le_def dest: map_of_SomeD)
  qed
  ultimately show ?thesis
    using new by (auto simp: work_evidence_le_def intro: found_kept_kept)
qed

subsection \<open>The invariant is kept\<close>

lemma ledger_ok_stored:
  assumes ok: "ledger_ok c review_ok s" and st: "stored works conversations s s'"
    and "bounded_dictionary (work_ok c) works" "bounded_dictionary (conversation_ok c) conversations"
  shows "ledger_ok c review_ok s'"
  using assms by (auto simp: ledger_ok_def stored_def dictionaries_def)

lemma ledger_ok_same:
  assumes ok: "ledger_ok c review_ok s" and same: "same_dictionaries s s'"
  shows "ledger_ok c review_ok s'"
proof -
  have works: "bounded_dictionary (work_ok c) (ds_nativeWork s')"
    and conversations: "bounded_dictionary (conversation_ok c) (ds_nativeConversations s')"
    using ok same by (auto simp: ledger_ok_def same_dictionaries_def intro: bounded_dictionary_same)
  have entries: "same_entries m m''" if "same_entries m m'" "same_entries m' m''" "bounded_dictionary P m"
    for m m' m'' :: "('k \<times> 'v) list" and P
  proof -
    from bounded_dictionary_same [OF that(3,1)] that show ?thesis
      by (auto simp: same_entries_def bounded_dictionary_def)
  qed
  have empty: "m' = []" if "same_entries [] m'" for m' :: "('k \<times> 'v) list"
    using that by (simp add: same_entries_def)
  show ?thesis
    using ok same works conversations
    by (auto simp: ledger_ok_def same_dictionaries_def split: option.splits intro: entries dest: empty)
qed

lemma ledger_okD:
  assumes "ledger_ok c review_ok s"
  shows "bounded_dictionary (work_ok c) (ds_nativeWork s)"
    and "bounded_dictionary (conversation_ok c) (ds_nativeConversations s)"
    and "map_of (ds_nativeWork s) sid = Some w \<Longrightarrow> work_ok c w"
    and "map_of (ds_nativeConversations s) key = Some v \<Longrightarrow> conversation_ok c v"
  using assms by (auto simp: ledger_ok_def bounded_dictionary_def dest: map_of_list_all)

lemma ledger_change_ok:
  assumes "ledger_change c h s s'" and ok: "ledger_ok c review_ok s"
  shows "ledger_ok c review_ok s'"
  using assms(1)
proof cases
  case nothing
  with ok show ?thesis by (rule ledger_ok_same)
next
  case (saved_work sid w event)
  have "bounded_dictionary (work_ok c) (AList.update sid w (ds_nativeWork s))"
    using ledger_okD(1) [OF ok] saved_work_ok [OF saved_work(1)] check_native_workD(2) [OF saved_work(1)]
    by (rule bounded_dictionary_update)
  then show ?thesis by (rule ledger_ok_stored [OF ok saved_work(2) _ ledger_okD(2) [OF ok]])
next
  case (removed_work sid p)
  from bounded_dictionary_delete [OF ledger_okD(1) [OF ok]] show ?thesis
    by (rule ledger_ok_stored [OF ok removed_work(3) _ ledger_okD(2) [OF ok]])
next
  case (saved_conversation key v)
  have "bounded_dictionary (conversation_ok c) (AList.update key v (ds_nativeConversations s))"
    using ledger_okD(2) [OF ok] check_conversationD(1,2) [OF saved_conversation(1)]
    by (auto intro: bounded_dictionary_update simp: conversation_ok_def)
  then show ?thesis by (rule ledger_ok_stored [OF ok saved_conversation(2) ledger_okD(1) [OF ok]])
next
  case (retired key)
  from bounded_dictionary_delete [OF ledger_okD(2) [OF ok]] show ?thesis
    by (rule ledger_ok_stored [OF ok retired ledger_okD(1) [OF ok]])
next
  case (began key q v)
  from began(1) obtain p where "map_of (ds_nativeConversations s) key = Some p"
    and "nativeConversationSchema (sk_ts c) (sk_body c) v" by (rule check_begin_policyD)
  with ledger_okD(2) [OF ok] have "bounded_dictionary (conversation_ok c) (AList.update key v (ds_nativeConversations s))"
    by (auto intro: bounded_dictionary_update simp: conversation_ok_def)
  then show ?thesis by (rule ledger_ok_stored [OF ok began(2) ledger_okD(1) [OF ok]])
next
  case (completed now key sid cmd res event v w)
  from completed(1) obtain p q t where p: "map_of (ds_nativeConversations s) key = Some p"
    and q: "map_of (ds_nativeWork s) sid = Some q" and w: "w = rebound_work t q"
    and schemas: "nativeWorkStateSchema (sk_ts c) (sk_body c) w" "nativeConversationSchema (sk_ts c) (sk_body c) v"
    by (rule check_complete_policyD)
  from ledger_okD(3) [OF ok q] w schemas have "work_ok c w" by (simp add: rebound_ok)
  with ledger_okD(1) [OF ok] q have "bounded_dictionary (work_ok c) (AList.update sid w (ds_nativeWork s))"
    by (auto intro: bounded_dictionary_update)
  moreover from ledger_okD(2) [OF ok] p schemas
  have "bounded_dictionary (conversation_ok c) (AList.update key v (ds_nativeConversations s))"
    by (auto intro: bounded_dictionary_update simp: conversation_ok_def)
  ultimately show ?thesis by (rule ledger_ok_stored [OF ok completed(2)])
qed

lemma ledger_change_evidence:
  assumes "ledger_change c h s s'" and ok: "ledger_ok c review_ok s"
  shows "evidence_over (map_of (ds_nativeWork s) sid) (map_of (ds_nativeWork s') sid)"
  using assms(1)
proof cases
  case nothing
  then show ?thesis by (simp add: same_dictionaries_def same_entries_def history.le_refl)
next
  case (saved_work i w event)
  then show ?thesis
    by (auto simp: stored_def js_map evidence_over_def work.le_refl split: option.splits
        intro: saved_work_keeps)
next
  case (removed_work i p)
  have "or_empty (nw_execution_bindings p) = []"
  proof (rule ccontr)
    assume "or_empty (nw_execution_bindings p) \<noteq> []"
    then obtain b where b: "b \<in> set (or_empty (nw_execution_bindings p))" by (meson list.set_sel(1))
    from ledger_okD(3) [OF ok removed_work(1)] b have "binding_exists p b" by (simp add: work_ok_def list_all_iff)
    with removed_work(2) show False
      by (auto simp: binding_exists_def work_is_empty_def split: binding_kind.splits)
  qed
  with removed_work(2) have "blank p" by (simp add: blank_def work_is_empty_def)
  with removed_work show ?thesis
    by (auto simp: stored_def js_map evidence_over_def work.le_refl split: option.splits)
next
  case (completed now key i cmd res event v w)
  from completed(1) obtain q t where "map_of (ds_nativeWork s) i = Some q" "w = rebound_work t q"
    by (rule check_complete_policyD)
  with completed(2) show ?thesis
    by (auto simp: stored_def js_map evidence_over_def work.le_refl rebound_keeps split: option.splits)
qed (auto simp: stored_def history.le_refl)

lemma ledger_run_ok: "ledger_ok c review_ok s \<Longrightarrow> ledger_ok c review_ok (ledger_run c h ops s)"
  by (induction ops rule: rev_induct) (auto intro: ledger_change_ok ledger_call_changes)

lemma ledger_run_evidence:
  "ledger_ok c review_ok s
   \<Longrightarrow> evidence_over (map_of (ds_nativeWork s) sid) (map_of (ds_nativeWork (ledger_run c h ops s)) sid)"
proof (induction ops rule: rev_induct)
  case (snoc op ops)
  from snoc have "evidence_over (map_of (ds_nativeWork s) sid) (map_of (ds_nativeWork (ledger_run c h ops s)) sid)" by simp
  moreover from snoc.prems have "ledger_ok c review_ok (ledger_run c h ops s)" by (rule ledger_run_ok)
  then have "evidence_over (map_of (ds_nativeWork (ledger_run c h ops s)) sid)
     (map_of (ds_nativeWork (ledger_run c h (ops @ [op]) s)) sid)"
    using ledger_change_evidence [OF ledger_call_changes] by simp
  ultimately show ?case by (rule history.le_trans)
qed (simp add: history.le_refl)

lemma dictionaries_read_back:
  assumes ok: "ledger_ok c review_ok s"
  obtains works conversations reviews
  where "read_dictionaries c review_ok (ds_file s) = Inr (works, conversations, reviews)"
    and "map_of works = map_of (ds_nativeWork s)" "map_of conversations = map_of (ds_nativeConversations s)"
    and "reviews = ds_mcpReviews s"
proof (cases "ds_file s")
  case None
  with ok show thesis by (intro that) (auto simp: read_dictionaries_def ledger_ok_def)
next
  case (Some f)
  obtain ws vs rs where f: "f = (ws, vs, rs)" by (cases f)
  with ok Some show thesis
    by (intro that [of ws vs rs])
      (auto simp: read_dictionaries_def ledger_ok_def bounded_dictionary_def work_ok_def conversation_ok_def
        same_entries_def list_all_iff)
qed

subsection \<open>Where a completed receipt comes from\<close>

lemma check_each_Inr: "check_each f xs = Inr () \<longleftrightarrow> (\<forall>x \<in> set xs. f x = Inr ())"
  by (induction xs) (auto simp: checks_passed)

lemma found_kept_at:
  assumes "found_kept key le old new" and "distinct (map key new)"
    and "p \<in> set old" and "n \<in> set new" and "key p = key n"
  shows "le p n"
proof -
  from assms(1,3) obtain m where m: "List.find (\<lambda>v. key v = key p) new = Some m" and le: "le p m"
    by (auto simp: found_kept_def list_all_iff split: option.splits dest!: bspec)
  from m have "m \<in> set new" "key m = key p" by (auto simp: find_Some_iff)
  with assms have "m = n" by (auto simp: distinct_map dest: inj_onD)
  with le show ?thesis by simp
qed

lemma feedback_found:
  "check_each (check_feedback new) old = Inr () \<Longrightarrow> found_kept fs_command_id feedback_le old new"
  by (auto simp: check_each_Inr check_feedback_def found_kept_def list_all_iff guardR_eq_Inr
      split: option.splits dest!: bspec)

text \<open>How the conversation under a key may come about.\<close>

lemma conversation_change:
  assumes "ledger_change c h s s'" and v: "map_of (ds_nativeConversations s') key = Some v"
  obtains (same) p where "map_of (ds_nativeConversations s) key = Some p"
      "nc_goal_controls v = nc_goal_controls p" "nc_feedback_submissions v = nc_feedback_submissions p"
  | (saved) "check_conversation c s key v = Inr ()"
  using assms(1)
proof cases
  case nothing
  with v show thesis by (intro same [of v]) (simp_all add: same_dictionaries_def same_entries_def)
next
  case (saved_conversation k u)
  with v show thesis by (cases "k = key") (auto simp: stored_def js_map intro: same saved)
next
  case (retired k)
  with v show thesis by (auto simp: stored_def js_map split: if_splits intro: same)
next
  case (began k q u)
  from began(1) obtain p where p: "map_of (ds_nativeConversations s) k = Some p"
    and u: "u = p\<lparr>nc_policy_controls := nc_policy_controls u\<rparr>" by (rule check_begin_policyD)
  show thesis
  proof (cases "k = key")
    case True
    with began(2) v have "v = u" by (simp add: stored_def js_map)
    with u have "nc_goal_controls v = nc_goal_controls p" "nc_feedback_submissions v = nc_feedback_submissions p"
      by (metis NativeConversation.select_convs NativeConversation.surjective NativeConversation.update_convs)+
    with p True show thesis by (auto intro: same)
  next
    case False
    with began(2) v show thesis by (auto simp: stored_def js_map intro: same)
  qed
next
  case (completed now k i cmd res event u w)
  from completed(1) obtain p q t where "map_of (ds_nativeConversations s) k = Some p"
    "nc_goal_controls u = nc_goal_controls p" "nc_feedback_submissions u = nc_feedback_submissions p"
    by (rule check_complete_policyD)
  with completed(2) v show thesis by (cases "k = key") (auto simp: stored_def js_map intro: same)
qed (use v in \<open>auto simp: stored_def intro: same\<close>)

locale fenced_receipts =
  fixes receipts :: "NativeConversation \<Rightarrow> 'a list" and phase :: "'a \<Rightarrow> receipt_phase" and le :: "'a \<Rightarrow> 'a \<Rightarrow> bool"
  assumes completed_final: "le p n \<Longrightarrow> phase p = Receipt_completed \<Longrightarrow> n = p"
    and le_same: "le p p"
    and fence: "check_conversation c s key v = Inr () \<Longrightarrow> n \<in> set (receipts v) \<Longrightarrow> phase n = Receipt_completed
       \<Longrightarrow> \<exists>u p. map_of (ds_nativeConversations (s :: 'r DurableStore)) key = Some u \<and> p \<in> set (receipts u) \<and> le p n"
    and untouched: "nc_goal_controls v = nc_goal_controls u \<Longrightarrow> nc_feedback_submissions v = nc_feedback_submissions u
       \<Longrightarrow> receipts v = receipts u"
begin

lemma earlier_receipt:
  assumes "ledger_change c h (s :: 'r DurableStore) s'" and "map_of (ds_nativeConversations s') key = Some v"
    and "n \<in> set (receipts v)" "phase n = Receipt_completed"
  shows "\<exists>u p. map_of (ds_nativeConversations s) key = Some u \<and> p \<in> set (receipts u) \<and> le p n"
  using assms(1,2)
proof (cases rule: conversation_change)
  case (same p)
  with untouched [of v p] assms(3) le_same show ?thesis by auto
next
  case saved
  then show ?thesis using assms(3,4) by (rule fence)
qed

text \<open>Following a completed receipt back to the state that held it pending.\<close>

lemma traceback:
  assumes "map_of (ds_nativeConversations (ledger_run c h ops (s :: 'r DurableStore))) key = Some v"
    and "n \<in> set (receipts v)" "phase n = Receipt_completed"
    and "\<forall>u m. map_of (ds_nativeConversations s) key = Some u \<longrightarrow> m \<in> set (receipts u) \<longrightarrow> phase m = Receipt_pending"
  shows "\<exists>before after u p. ops = before @ after \<and> after \<noteq> []
     \<and> map_of (ds_nativeConversations (ledger_run c h before s)) key = Some u
     \<and> p \<in> set (receipts u) \<and> phase p = Receipt_pending \<and> le p n"
  using assms
proof (induction ops arbitrary: v rule: rev_induct)
  case Nil
  then show ?case by fastforce
next
  case (snoc op ops)
  from snoc.prems(1) have "map_of (ds_nativeConversations (snd (ledger_call c h op (ledger_run c h ops s)))) key = Some v"
    by simp
  from earlier_receipt [OF ledger_call_changes this snoc.prems(2,3)]
  obtain u p where u: "map_of (ds_nativeConversations (ledger_run c h ops s)) key = Some u"
    and p: "p \<in> set (receipts u)" "le p n" by blast
  show ?case
  proof (cases "phase p")
    case Receipt_pending
    with u p show ?thesis by (intro exI [of _ ops] exI [of _ "[op]"]) auto
  next
    case Receipt_completed
    with p have "n = p" by (auto dest: completed_final)
    with p have "n \<in> set (receipts u)" by simp
    from snoc.IH [OF u this snoc.prems(3,4)] obtain before after w q where "ops = before @ after"
      and "map_of (ds_nativeConversations (ledger_run c h before s)) key = Some w"
      and "q \<in> set (receipts w)" "phase q = Receipt_pending" "le q n" by blast
    then show ?thesis by (intro exI [of _ before] exI [of _ "after @ [op]"] exI [of _ w] exI [of _ q]) simp
  qed
qed

end

lemma fence_goal:
  assumes "check_conversation c s key v = Inr ()" "n \<in> set (nc_goal_controls v)" "gc_phase n = Receipt_completed"
  shows "\<exists>u p. map_of (ds_nativeConversations s) key = Some u \<and> p \<in> set (nc_goal_controls u) \<and> goal_control_le p n"
proof (cases "map_of (ds_nativeConversations s) key")
  case None
  with check_conversationD(3) [OF assms(1)] assms show ?thesis
    by (auto simp: completions_fenced_def list_all_iff)
next
  case (Some u)
  with check_conversationD(3) [OF assms(1)] assms obtain p where p: "p \<in> set (nc_goal_controls u)" "gc_command_id p = gc_command_id n"
    by (auto simp: completions_fenced_def list_all_iff list_ex_iff)
  from check_conversationD(1) [OF assms(1)] have "distinct (map gc_command_id (nc_goal_controls v))"
    by (simp add: nativeConversationSchema_def)
  with check_conversationD(7) [OF assms(1) Some] p assms(2) have "goal_control_le p n"
    by (auto intro: found_kept_at)
  with Some p show ?thesis by blast
qed

lemma fence_feedback:
  assumes "check_conversation c s key v = Inr ()" "n \<in> set (nc_feedback_submissions v)" "fs_phase n = Receipt_completed"
  shows "\<exists>u p. map_of (ds_nativeConversations s) key = Some u \<and> p \<in> set (nc_feedback_submissions u) \<and> feedback_le p n"
proof (cases "map_of (ds_nativeConversations s) key")
  case None
  with check_conversationD(4) [OF assms(1)] assms show ?thesis
    by (auto simp: completions_fenced_def list_all_iff)
next
  case (Some u)
  with check_conversationD(4) [OF assms(1)] assms obtain p where p: "p \<in> set (nc_feedback_submissions u)" "fs_command_id p = fs_command_id n"
    by (auto simp: completions_fenced_def list_all_iff list_ex_iff)
  from check_conversationD(1) [OF assms(1)] have "distinct (map fs_command_id (nc_feedback_submissions v))"
    by (simp add: nativeConversationSchema_def)
  with feedback_found [OF check_conversationD(5) [OF assms(1), unfolded Some option.case]] p assms(2)
  have "feedback_le p n" by (auto intro: found_kept_at)
  with Some p show ?thesis by blast
qed

interpretation goal_receipts: fenced_receipts nc_goal_controls gc_phase goal_control_le
  by (unfold_locales; (rule fence_goal; assumption)?) (simp_all add: goal_control_le_def)

interpretation feedback_receipts: fenced_receipts nc_feedback_submissions fs_phase feedback_le
  by (unfold_locales; (rule fence_feedback; assumption)?) (simp_all add: feedback_le_def)

text \<open>All policy controls before the last one are confirmed.\<close>

lemma policy_chain_butlast:
  "policy_chain commands owners before rs \<Longrightarrow>
     list_all (\<lambda>r. pc_phase r = Receipt_completed) (butlast rs) \<and> (rs \<noteq> [] \<longrightarrow> opt_ok (\<lambda>b. pc_phase b = Receipt_completed) before)"
  by (induction commands owners before rs rule: policy_chain.induct) auto

subsection \<open>A sample ledger\<close>

definition sample_checks :: schema_checks where
  "sample_checks = \<lparr>sk_ts = (\<lambda>_. True), sk_data = (\<lambda>_ _. True), sk_body = (\<lambda>_ _. True)\<rparr>"

definition empty_ledger :: "'r DurableStore" where
  "empty_ledger = \<lparr>ds_store = \<lparr>rs_data = emptyRunnerState, rs_file = None, rs_eventRetentionPerSession = 4,
     rs_receiptRetentionMs = 10\<rparr>, ds_nativeWork = [], ds_nativeConversations = [], ds_mcpReviews = [], ds_file = None\<rparr>"

lemma empty_ledger_ok: "ledger_ok c review_ok empty_ledger"
  by (simp add: ledger_ok_def empty_ledger_def bounded_dictionary_def)

definition sample_hash :: string where
  "sample_hash = replicate 64 (CHR ''a'')"

definition sample_work :: "string option \<Rightarrow> NativeWorkState" where
  "sample_work execution = \<lparr>
     nw_scope = \<lparr>sc_provider_instance_id = ''p'', sc_provider_binding_hash = ''h'', sc_workspace_id = ''w'', sc_cwd = ''/w'',
       sc_execution_binding_hash = ''e'', sc_execution_profile = None, sc_conversation_key = None\<rparr>,
     nw_items = [], nw_retired = [], nw_execution_bindings = None, nw_custody = None, nw_goals = None,
     nw_root_executions = Some [\<lparr>re_admission_id = ''a1'', re_origin_turn_id = ''t1'', re_native_reference = ''n'',
       re_goal_admission_id = None, re_native_execution_reference = execution, re_requires_terminal_proof = False,
       re_phase_status = None\<rparr>],
     nw_reconciliations = None, nw_forks = None, nw_closure_unconfirmed = False\<rparr>"

definition sample_control :: "receipt_phase \<Rightarrow> HarnessNativeGoalResult option \<Rightarrow> goal_control" where
  "sample_control phase result = \<lparr>gc_command_id = ''c1'', gc_request_hash = sample_hash, gc_source_session_id = ''s'',
     gc_native_thread_id = ''n'', gc_action = Control_clear, gc_native_created_at = 5, gc_phase = phase, gc_result = result\<rparr>"

definition sample_conversation :: "goal_control list \<Rightarrow> NativeConversation" where
  "sample_conversation controls = \<lparr>
     nc_native_thread_id = ''n'', nc_binding_hash = sample_hash, nc_policy_controls = [], nc_goal_controls = controls,
     nc_feedback_submissions = [], nc_configuration_base_hash = None, nc_configuration_authority_hash = None,
     nc_configuration_transitions = [], nc_updated_at = ''now'', nc_last_session_id = ''s'',
     nc_provider_instance_id = ''p'', nc_provider_binding_hash = ''h'', nc_workspace_id = ''w'', nc_cwd = ''/w'',
     nc_fresh = False, nc_approval_policy = None, nc_approval_reviewer = None, nc_approval_options = None,
     nc_injections = [], nc_rollback = None, nc_fork = None\<rparr>"

definition cleared :: goal_control where
  "cleared = sample_control Receipt_completed (Some (Goal_clear ''n'' 5))"

definition sample_ops :: "(bool \<times> ledger_op) list" where
  "sample_ops =
     [(True, Save_conversation ''k'' (sample_conversation [sample_control Receipt_pending None])),
      (True, Save_conversation ''k'' (sample_conversation [cleared]))]"

text \<open>A confirmation without the receipt it confirms is refused.\<close>

lemma unfenced_completion_refused:
  "fst (saveNativeConversation sample_checks True ''k'' (sample_conversation [cleared]) (empty_ledger :: unit DurableStore))
     = Inl ''Native goal control completion requires its prior durable dispatch fence.''"
  by code_simp

text \<open>
  The rollback of \<open>saveNativeWorkState\<close> puts back the work state and the session's events but not the
  exit mark: after a failed write of a \<open>session.exited\<close> event the store still calls the session exited.
\<close>

definition sample_exit :: HcpHarnessEventPayload where
  "sample_exit = (sample_event ''s'' 1)\<lparr>ev_event_type := ''session.exited''\<rparr>"

lemma unwritten_exit_still_marked:
  "let s' = snd (saveNativeWorkState sample_checks False ''s'' (sample_work None) (Some sample_exit) (empty_ledger :: unit DurableStore))
   in durable_events s' = [] \<and> hasSessionExit (rs_data (ds_store s')) ''s''"
  by code_simp

subsection \<open>Properties\<close>





text \<open>The ledger stays within its bounds over every history: sessions, children, tombstones, custody, bindings and receipts never exceed their limits, and of the policy controls of a conversation only the last can be unconfirmed.\<close>

theorem ledger_stays_bounded:
  assumes "ledger_ok c review_ok s"
  shows "let t = ledger_run c h ops s in
    length (ds_nativeWork t) \<le> 1024 \<and> length (ds_nativeConversations t) \<le> 1024
    \<and> (case map_of (ds_nativeWork t) sid of None \<Rightarrow> True
       | Some w \<Rightarrow> length (nw_items w) \<le> 128 \<and> length (nw_retired w) \<le> 1024 \<and> length (or_empty (nw_custody w)) \<le> 1152
           \<and> length (or_empty (nw_execution_bindings w)) \<le> 2176 \<and> length (or_empty (nw_goals w)) \<le> 128
           \<and> length (or_empty (nw_root_executions w)) \<le> 1024 \<and> length (or_empty (nw_forks w)) \<le> 1024
           \<and> length (or_empty (nw_reconciliations w)) \<le> 1024)
    \<and> (case map_of (ds_nativeConversations t) key of None \<Rightarrow> True
       | Some v \<Rightarrow> length (nc_goal_controls v) \<le> 1024 \<and> length (nc_feedback_submissions v) \<le> 1024
           \<and> length (nc_policy_controls v) \<le> 1024
           \<and> list_all (\<lambda>r. pc_phase r = Receipt_completed) (butlast (nc_policy_controls v)))"
proof -
  have ok: "ledger_ok c review_ok (ledger_run c h ops s)" using assms by (rule ledger_run_ok)
  note works = ledger_okD(1) [OF ok] and conversations = ledger_okD(2) [OF ok]
  show ?thesis
    using works conversations ledger_okD(3) [OF ok, of sid] ledger_okD(4) [OF ok, of key]
    by (auto simp: Let_def bounded_dictionary_def work_ok_def conversation_ok_def nativeWorkStateSchema_def
        nativeConversationSchema_def nativePolicyControlReceiptsSchema_def split: option.split dest: policy_chain_butlast)
qed

theorem ledger_stays_bounded_witness:
  "length (ds_nativeConversations (ledger_run sample_checks (\<lambda>_. []) sample_ops (empty_ledger :: unit DurableStore))) \<le> 1024"
  using ledger_stays_bounded [where s = "empty_ledger :: unit DurableStore" and review_ok = "\<lambda>_. True" and c = sample_checks
      and h = "\<lambda>_. []" and ops = sample_ops] empty_ledger_ok [where c = sample_checks and review_ok = "\<lambda>_ :: unit. True"]
  by (simp add: Let_def)

end
