(* ===== verification/Effect_Wp.thy ===== *)
theory Effect_Wp
  imports Effects
begin

text \<open>
  Weakest preconditions of effects, for components whose every call returns: \<open>wp m Q E s\<close> says that
  \<open>m\<close>, started in \<open>s\<close>, returns, with \<open>Q\<close> of the value and the state when it does not throw and with
  \<open>E\<close> of the error and the state when it does.  The equations in \<open>wp_simps\<close> compute it.
\<close>

named_theorems wp_simps \<open>weakest preconditions of the basic effects\<close>

definition wp :: "('s, 'e, 'a) act \<Rightarrow> ('a \<Rightarrow> 's \<Rightarrow> bool) \<Rightarrow> ('e \<Rightarrow> 's \<Rightarrow> bool) \<Rightarrow> 's \<Rightarrow> bool" where
  "wp m Q E s =
     (case m s of None \<Rightarrow> False | Some (Inl e, s') \<Rightarrow> E e s' | Some (Inr a, s') \<Rightarrow> Q a s')"

definition modifyA :: "('s \<Rightarrow> 's) \<Rightarrow> ('s, 'e, unit) act" where
  "modifyA f s = Some (Inr (), f s)"

definition guardA :: "bool \<Rightarrow> 'e \<Rightarrow> ('s, 'e, unit) act" where
  "guardA b e = (if b then returnA () else throwA e)"

text \<open>\<open>values.map(f)\<close>, or a loop, with effects: the first exception ends it.\<close>

fun eachA :: "('a \<Rightarrow> ('s, 'e, 'b) act) \<Rightarrow> 'a list \<Rightarrow> ('s, 'e, 'b list) act" where
  "eachA f [] = returnA []"
| "eachA f (x # xs) = bindA (f x) (\<lambda>y. bindA (eachA f xs) (\<lambda>ys. returnA (y # ys)))"

lemma wp_basic [wp_simps]:
  "wp (returnA a) Q E = Q a"
  "wp (throwA e) Q E = E e"
  "wp (readA f) Q E s \<longleftrightarrow> (case f s of Inl e \<Rightarrow> E e s | Inr a \<Rightarrow> Q a s)"
  "wp (modifyA g) Q' E s \<longleftrightarrow> Q' () (g s)"
  by (simp_all add: wp_def modifyA_def fun_eq_iff split: sum.split)

lemma wp_bind [wp_simps]: "wp (bindA m f) Q E = wp m (\<lambda>a. wp (f a) Q E) E"
  by (simp add: wp_def bindA_def fun_eq_iff split: option.split prod.split sum.split)

lemma wp_guard [wp_simps]: "wp (guardA b e) Q E s \<longleftrightarrow> (if b then Q () s else E e s)"
  by (simp add: guardA_def wp_basic)

lemma wp_when [wp_simps]: "wp (whenA b m) Q E s \<longleftrightarrow> (if b then wp m Q E s else Q () s)"
  by (simp add: whenA_def wp_basic)

lemma wp_mono:
  assumes "wp m Q E s" and "\<And>a s'. Q a s' \<Longrightarrow> Q' a s'" and "\<And>e s'. E e s' \<Longrightarrow> E' e s'"
  shows "wp m Q' E' s"
  using assms by (auto simp: wp_def split: option.splits prod.splits sum.splits)

lemma wp_conj:
  "wp m Q E s \<Longrightarrow> wp m Q' E' s \<Longrightarrow> wp m (\<lambda>a s'. Q a s' \<and> Q' a s') (\<lambda>e s'. E e s' \<and> E' e s') s"
  by (auto simp: wp_def split: option.splits prod.splits sum.splits)

lemma wp_outcome:
  assumes "wp m Q E s"
  obtains r s' where "m s = Some (r, s')" "case r of Inl e \<Rightarrow> E e s' | Inr a \<Rightarrow> Q a s'"
  using assms by (auto simp: wp_def split: option.splits prod.splits sum.splits)

lemma wp_returned: "wp m Q E s \<Longrightarrow> m s = Some (Inr a, s') \<Longrightarrow> Q a s'"
  by (simp add: wp_def)

lemma wp_ended: "wp m (\<lambda>_. P) (\<lambda>_. P) s \<Longrightarrow> m s = Some (r, s') \<Longrightarrow> P s'"
  by (cases r) (simp_all add: wp_def)

lemma wp_each_keeps:
  assumes "\<And>x s. x \<in> set xs \<Longrightarrow> I s \<Longrightarrow> wp (f x) (\<lambda>_. I) E s" and "I s"
  shows "wp (eachA f xs) (\<lambda>_. I) E s"
  using assms
proof (induction xs arbitrary: s)
  case (Cons x xs)
  have "wp (f x) (\<lambda>_. I) E s" by (rule Cons.prems(1)) (simp_all add: Cons.prems(2))
  then show ?case
    unfolding eachA.simps wp_bind
    by (rule wp_mono) (simp_all add: Cons.IH Cons.prems(1) wp_basic)
qed (simp add: wp_simps)

text \<open>A loop that keeps \<open>J\<close> and whose later rounds keep what the earlier ones reached.\<close>

lemma wp_each:
  assumes step: "\<And>x s. x \<in> set xs \<Longrightarrow> J s \<Longrightarrow> wp (f x) (\<lambda>y s'. J s' \<and> R x y s') E s"
    and stable: "\<And>x y z s. z \<in> set xs \<Longrightarrow> J s \<Longrightarrow> R x y s \<Longrightarrow> wp (f z) (\<lambda>_. R x y) (\<lambda>_ _. True) s"
    and "J s"
  shows "wp (eachA f xs) (\<lambda>ys s'. J s' \<and> list_all2 (\<lambda>x y. R x y s') xs ys) E s"
  using assms
proof (induction xs arbitrary: s)
  case (Cons x xs)
  have "wp (f x) (\<lambda>y s'. J s' \<and> R x y s') E s" by (rule Cons.prems(1)) (simp_all add: Cons.prems(3))
  then show ?case
    unfolding eachA.simps wp_bind
  proof (rule wp_mono)
    fix y t assume t: "J t \<and> R x y t"
    have "wp (eachA f xs) (\<lambda>ys s'. J s' \<and> list_all2 (\<lambda>x y. R x y s') xs ys) E t"
      by (rule Cons.IH) (use Cons.prems t in auto)
    moreover have "wp (eachA f xs) (\<lambda>_ s'. J s' \<and> R x y s') (\<lambda>_ _. True) t"
    proof (rule wp_each_keeps)
      fix z u assume z: "z \<in> set xs" and u: "J u \<and> R x y u"
      have "wp (f z) (\<lambda>y' s'. (J s' \<and> R z y' s') \<and> R x y s') (\<lambda>e s'. E e s' \<and> True) u"
        by (rule wp_conj) (use Cons.prems(1,2) z u in auto)
      then show "wp (f z) (\<lambda>_ s'. J s' \<and> R x y s') (\<lambda>_ _. True) u" by (rule wp_mono) auto
    qed (use t in simp)
    ultimately show "wp (eachA f xs) (\<lambda>ys. wp (returnA (y # ys)) (\<lambda>ys s'. J s' \<and> list_all2 (\<lambda>x y. R x y s') (x # xs) ys) E) E t"
      unfolding wp_basic by (rule wp_mono [OF wp_conj]) simp_all
  qed simp
qed (simp add: wp_simps)

end
