(* ===== verification/Base64.thy ===== *)
theory Base64
  imports Prelude
begin

text \<open>
  \<open>Buffer.toString("base64")\<close> and \<open>Buffer.from(text, "base64")\<close>, and their \<open>base64url\<close> variants without
  padding, for the chunks of input files and retained content and for page cursors.  A buffer is a
  list of characters, one for each byte.  Decoding is defined on what the schemas in front of it let
  through, groups of four characters with at most one padded group at the end; other texts give
  \<open>None\<close>.
\<close>

definition b64_char :: "bool \<Rightarrow> nat \<Rightarrow> char" where
  "b64_char url n =
     (if n < 26 then char_of (65 + n) else if n < 52 then char_of (71 + n) else if n < 62 then char_of (n - 4)
      else if n = 62 then (if url then CHR ''-'' else CHR ''+'') else if url then CHR ''_'' else CHR ''/'')"

definition b64_val :: "bool \<Rightarrow> char \<Rightarrow> nat option" where
  "b64_val url c =
     (let n = of_char c :: nat in
      if 65 \<le> n \<and> n \<le> 90 then Some (n - 65) else if 97 \<le> n \<and> n \<le> 122 then Some (n - 71)
      else if 48 \<le> n \<and> n \<le> 57 then Some (n + 4)
      else if c = (if url then CHR ''-'' else CHR ''+'') then Some 62
      else if c = (if url then CHR ''_'' else CHR ''/'') then Some 63 else None)"

definition padding :: "bool \<Rightarrow> nat \<Rightarrow> string" where
  "padding url n = (if url then [] else replicate n (CHR ''=''))"

fun b64_encode :: "bool \<Rightarrow> string \<Rightarrow> string" where
  "b64_encode url [] = []"
| "b64_encode url [a] =
     (let x = of_char a :: nat in [b64_char url (x div 4), b64_char url (x mod 4 * 16)] @ padding url 2)"
| "b64_encode url [a, b] =
     (let x = of_char a :: nat; y = of_char b :: nat in
      [b64_char url (x div 4), b64_char url (x mod 4 * 16 + y div 16), b64_char url (y mod 16 * 4)] @ padding url 1)"
| "b64_encode url (a # b # c # rest) =
     (let x = of_char a :: nat; y = of_char b :: nat; z = of_char c :: nat in
      b64_char url (x div 4) # b64_char url (x mod 4 * 16 + y div 16)
      # b64_char url (y mod 16 * 4 + z div 64) # b64_char url (z mod 64) # b64_encode url rest)"

definition decode_two :: "nat \<Rightarrow> nat \<Rightarrow> string" where
  "decode_two p q = [char_of (p * 4 + q div 16)]"

definition decode_three :: "nat \<Rightarrow> nat \<Rightarrow> nat \<Rightarrow> string" where
  "decode_three p q r = [char_of (p * 4 + q div 16), char_of (q mod 16 * 16 + r div 4)]"

fun b64_decode :: "bool \<Rightarrow> string \<Rightarrow> string option" where
  "b64_decode url [] = Some []"
| "b64_decode url (c0 # c1 # c2 # c3 # rest) =
     (case (b64_val url c0, b64_val url c1) of
        (Some p, Some q) \<Rightarrow>
          if \<not> url \<and> c2 = CHR ''='' then if c3 = CHR ''='' \<and> rest = [] then Some (decode_two p q) else None
          else (case b64_val url c2 of None \<Rightarrow> None
                | Some r \<Rightarrow>
                    if \<not> url \<and> c3 = CHR ''='' then if rest = [] then Some (decode_three p q r) else None
                    else (case (b64_val url c3, b64_decode url rest) of
                            (Some s, Some t) \<Rightarrow> Some (decode_three p q r @ [char_of (r mod 4 * 64 + s)] @ t)
                          | _ \<Rightarrow> None))
      | _ \<Rightarrow> None)"
| "b64_decode url [c0, c1] =
     (case (b64_val url c0, b64_val url c1) of
        (Some p, Some q) \<Rightarrow> if url then Some (decode_two p q) else None | _ \<Rightarrow> None)"
| "b64_decode url [c0, c1, c2] =
     (case (b64_val url c0, b64_val url c1, b64_val url c2) of
        (Some p, Some q, Some r) \<Rightarrow> if url then Some (decode_three p q r) else None | _ \<Rightarrow> None)"
| "b64_decode url [c0] = None"

lemma b64_val_char: "n < 64 \<Longrightarrow> b64_val url (b64_char url n) = Some n"
  by (auto simp: b64_val_def b64_char_def of_char_of Let_def take_bit_eq_mod)

lemma b64_char_not_pad: "n < 64 \<Longrightarrow> b64_char False n \<noteq> CHR ''=''"
  using b64_val_char [of n False] by (auto simp: b64_val_def)

lemma of_char_byte: "(of_char c :: nat) < 256"
  by (metis of_char_mod_256 mod_less_divisor zero_less_numeral)

lemma byte_parts:
  assumes "x < (256 :: nat)"
  shows "x div 4 < 64" "x mod 4 * 16 < 64" "x mod 16 * 4 < 64" "x mod 64 < 64"
  using assms by linarith+

lemma byte_joins:
  assumes "x < (256 :: nat)" and "y < 256"
  shows "x mod 4 * 16 + y div 16 < 64" "x mod 16 * 4 + y div 64 < 64"
  using assms by linarith+

lemma regroup:
  assumes "x < (256 :: nat)" and "y < 256" and "z < 256"
  shows "x div 4 * 4 + (x mod 4 * 16 + y div 16) div 16 = x"
    and "(x mod 4 * 16 + y div 16) mod 16 * 16 + (y mod 16 * 4 + z div 64) div 4 = y"
    and "(y mod 16 * 4 + z div 64) mod 4 * 64 + z mod 64 = z"
proof -
  have q: "y div 16 < 16" "z div 64 < 4" using assms by linarith+
  then show "x div 4 * 4 + (x mod 4 * 16 + y div 16) div 16 = x" by simp
  have "(x mod 4 * 16 + y div 16) mod 16 = y div 16" using q(1) by simp
  moreover have "(y mod 16 * 4 + z div 64) div 4 = y mod 16" using q(2) by simp
  ultimately show "(x mod 4 * 16 + y div 16) mod 16 * 16 + (y mod 16 * 4 + z div 64) div 4 = y"
    by (simp add: div_mult_mod_eq)
  have "(y mod 16 * 4 + z div 64) mod 4 = z div 64" using q(2) by simp
  then show "(y mod 16 * 4 + z div 64) mod 4 * 64 + z mod 64 = z" by simp
qed

text \<open>Decoding gives back the bytes that were encoded.\<close>

lemma b64_roundtrip: "b64_decode url (b64_encode url bs) = Some bs"
proof (induction url bs rule: b64_encode.induct)
  case (2 url a)
  then show ?case
    using of_char_byte [of a] regroup(1) [of "of_char a" 0 0]
    by (cases url) (simp_all add: Let_def padding_def numeral_2_eq_2 b64_val_char byte_parts decode_two_def)
next
  case (3 url a b)
  then show ?case
    using of_char_byte [of a] of_char_byte [of b] regroup [of "of_char a" "of_char b" 0]
    by (cases url) (simp_all add: Let_def padding_def b64_val_char b64_char_not_pad byte_parts byte_joins decode_three_def)
next
  case (4 url a b c rest)
  then show ?case
    using of_char_byte [of a] of_char_byte [of b] of_char_byte [of c] regroup [of "of_char a" "of_char b" "of_char c"]
    by (cases url) (simp_all add: Let_def b64_val_char b64_char_not_pad byte_parts byte_joins decode_three_def)
qed simp

lemma b64_length: "length (b64_encode False bs) = 4 * ((length bs + 2) div 3)"
proof (induction False bs rule: b64_encode.induct)
  case (4 a b c rest)
  moreover have "(length (a # b # c # rest) + 2) div 3 = Suc ((length rest + 2) div 3)" by simp
  ultimately show ?case by (simp add: Let_def)
qed (simp_all add: Let_def padding_def)

end
