(* ===== verification/Input_Files.thy ===== *)
theory Input_Files
  imports Native_Records Effect_Wp Base64
begin

text \<open>
  The store of uploaded input files (\<open>packages/hcp-runner/src/harnesses/input-files.ts\<close>) with its
  protocol schemas (\<open>packages/hcp-protocol/src/input-file.ts\<close>, \<open>image-files.ts\<close>).

  The disk is what the store sees of it: the records \<open><id>.json\<close> and bodies \<open><id>.bin\<close> of its directory
  and the materialised files by path.  \<open>Regular\<close> is a file that passes \<open>#regular\<close>, \<open>Irregular\<close> is
  anything else that exists at that place: a link, a directory, a file with several names or behind a
  link.  A record holds the JSON of its metadata, so it is the metadata.  \<open>io\<close> says which calls of
  \<open>node:fs\<close> fail, for an append after how many bytes, and what \<open>#directory\<close> finds wrong with a path;
  the temporary file of \<open>#save\<close> is renamed over the record, so a record changes completely or not at
  all.  A session's working directory is an absolute, normalised path, so \<open>join\<close> only inserts slashes.
\<close>

subsection \<open>Protocol types\<close>

definition HARNESS_INPUT_FILE_MAX_BYTES :: nat where "HARNESS_INPUT_FILE_MAX_BYTES = 50 * 1024 * 1024"
definition HARNESS_INPUT_FILE_MAX_COUNT :: nat where "HARNESS_INPUT_FILE_MAX_COUNT = 100"
definition HARNESS_INPUT_FILE_STORE_MAX_BYTES :: nat where
  "HARNESS_INPUT_FILE_STORE_MAX_BYTES = HARNESS_INPUT_FILE_MAX_BYTES * HARNESS_INPUT_FILE_MAX_COUNT"
definition HARNESS_INPUT_FILE_CHUNK_BYTES :: nat where "HARNESS_INPUT_FILE_CHUNK_BYTES = 64 * 1024"
definition HARNESS_OWNED_IMAGE_MAX_BYTES :: nat where "HARNESS_OWNED_IMAGE_MAX_BYTES = 10 * 1024 * 1024"
definition HARNESS_OWNED_IMAGE_MAX_TOTAL_BYTES :: nat where "HARNESS_OWNED_IMAGE_MAX_TOTAL_BYTES = 80 * 1024 * 1024"
definition HARNESS_OWNED_IMAGE_MAX_COUNT :: nat where "HARNESS_OWNED_IMAGE_MAX_COUNT = 100"

record InputFileDescription =
  fl_sha256 :: string
  fl_filename :: string
  fl_mime_type :: string
  fl_byte_length :: nat

record HarnessInputFileReference = InputFileDescription +
  fl_file_id :: string

definition filename_text :: "string \<Rightarrow> bool" where
  "filename_text s =
     (1 \<le> length s \<and> length s \<le> 255 \<and> s \<noteq> ''.'' \<and> s \<noteq> ''..''
      \<and> list_all (\<lambda>c. let n = of_char c :: nat in 32 \<le> n \<and> n \<noteq> 127 \<and> c \<noteq> CHR ''/'' \<and> c \<noteq> CHR 0x5C) s)"

definition is_alnum :: "char \<Rightarrow> bool" where
  "is_alnum c = (is_digit c \<or> is_lower c \<or> 65 \<le> (of_char c :: nat) \<and> (of_char c :: nat) \<le> 90)"

definition mime_char :: "char \<Rightarrow> bool" where
  "mime_char c = (is_alnum c \<or> c \<in> set ''!#$&^_.+-'')"

definition mime_text :: "string \<Rightarrow> bool" where
  "mime_text s =
     (let a = takeWhile mime_char s; b = dropWhile mime_char s in
      length s \<le> 255 \<and> a \<noteq> [] \<and> (case b of [] \<Rightarrow> False | c # r \<Rightarrow> c = CHR ''/'' \<and> r \<noteq> [] \<and> list_all mime_char r))"

definition description_schema :: "'a InputFileDescription_scheme \<Rightarrow> bool" where
  "description_schema d =
     (sha256_text (fl_sha256 d) \<and> filename_text (fl_filename d) \<and> mime_text (fl_mime_type d)
      \<and> fl_byte_length d \<le> HARNESS_INPUT_FILE_MAX_BYTES)"

definition harnessInputFileReferenceSchema :: "HarnessInputFileReference \<Rightarrow> bool" where
  "harnessInputFileReferenceSchema r = (sha256_text (fl_file_id r) \<and> description_schema r)"

definition harnessImageFilesSchema :: "HarnessInputFileReference list \<Rightarrow> bool" where
  "harnessImageFilesSchema rs =
     (1 \<le> length rs \<and> length rs \<le> HARNESS_OWNED_IMAGE_MAX_COUNT
      \<and> list_all (\<lambda>r. harnessInputFileReferenceSchema r
            \<and> fl_mime_type r \<in> {''image/gif'', ''image/jpeg'', ''image/png'', ''image/webp''}
            \<and> 1 \<le> fl_byte_length r \<and> fl_byte_length r \<le> HARNESS_OWNED_IMAGE_MAX_BYTES) rs
      \<and> sum_list (map fl_byte_length rs) \<le> HARNESS_OWNED_IMAGE_MAX_TOTAL_BYTES)"

datatype input_request =
    Create InputFileDescription
  | Append (rq_file_id: string) (rq_offset: nat) (rq_data_base64: string)
  | Seal (rq_file_id: string)
  | Read (rq_file_id: string)
  | Release (rq_file_id: string)

definition chunk_text :: "string \<Rightarrow> bool" where
  "chunk_text d =
     (4 \<le> length d \<and> length d \<le> 4 * 21846
      \<and> (case b64_decode False d of None \<Rightarrow> False | Some b \<Rightarrow> length b \<le> HARNESS_INPUT_FILE_CHUNK_BYTES))"

definition harnessInputFileOperationSchema :: "input_request \<Rightarrow> bool" where
  "harnessInputFileOperationSchema rq =
     (case rq of
        Create d \<Rightarrow> description_schema d
      | Append i off d \<Rightarrow> sha256_text i \<and> chunk_text d
      | Seal i \<Rightarrow> sha256_text i | Read i \<Rightarrow> sha256_text i | Release i \<Rightarrow> sha256_text i)"

datatype input_action = Act_create | Act_append | Act_seal | Act_read | Act_release
datatype input_state = Uploading | Sealed | Retained | Released

record HarnessInputFileResult =
  fr_action :: input_action
  fr_reference :: HarnessInputFileReference
  fr_received_bytes :: nat
  fr_state :: input_state

datatype file_delivery = File_context | Native_delivery

subsection \<open>The store\<close>

record scope_binding =
  sb_provider_instance_id :: string
  sb_provider_binding_hash :: string
  sb_workspace_id :: string
  sb_cwd :: string

record HarnessInputFileScope = scope_binding +
  sb_owner :: string

definition owner_text :: "string \<Rightarrow> bool" where
  "owner_text s = (1 \<le> length s \<and> length s \<le> 600)"

record Metadata =
  md_scope :: HarnessInputFileScope
  md_owners :: "string list"
  md_reference :: HarnessInputFileReference
  md_sealed :: bool
  md_retained :: bool

definition metadataSchema :: "Metadata \<Rightarrow> bool" where
  "metadataSchema m =
     (owner_text (sb_owner (md_scope m)) \<and> 1 \<le> length (md_owners m) \<and> length (md_owners m) \<le> 1024
      \<and> list_all owner_text (md_owners m) \<and> harnessInputFileReferenceSchema (md_reference m))"

datatype 'a disk_node = Regular 'a | Irregular

record InputStore =
  in_directory :: string
  in_entries :: "(string \<times> Metadata) list"
  in_records :: "(string \<times> Metadata disk_node) list"
  in_bodies :: "(string \<times> string disk_node) list"
  in_native :: "(string \<times> string disk_node) list"

type_synonym input_error = "string \<times> string"
type_synonym 'a input_act = "(InputStore, input_error, 'a) act"

datatype io_call =
    Create_body string | Append_body string | Write_record string | Write_native string
  | Unlink_native string | Remove_directory string | Unlink_record string | Unlink_body string

record io =
  io_fails :: "io_call \<Rightarrow> nat option"
  io_directory :: "string \<Rightarrow> input_error option"

definition unavailable :: input_error where
  "unavailable = (''input_file_unavailable'',
     ''The file is unavailable or belongs to another conversation, workspace or provider identity.'')"

definition io_error :: input_error where
  "io_error = (''Error'', ''file system call failed'')"

definition zod_error :: input_error where
  "zod_error = (''ZodError'', '''')"

definition regular :: "'a disk_node option \<Rightarrow> input_error + 'a" where
  "regular n = (case n of Some (Regular x) \<Rightarrow> Inr x | _ \<Rightarrow> Inl unavailable)"

definition check_directory :: "io \<Rightarrow> string \<Rightarrow> unit input_act" where
  "check_directory env p = (case io_directory env p of None \<Rightarrow> returnA () | Some e \<Rightarrow> throwA e)"

text \<open>A call that changes the disk and may fail instead.\<close>

definition callA :: "io \<Rightarrow> io_call \<Rightarrow> (InputStore \<Rightarrow> InputStore) \<Rightarrow> unit input_act" where
  "callA env c f = (case io_fails env c of None \<Rightarrow> modifyA f | Some _ \<Rightarrow> throwA io_error)"

subsection \<open>Helpers of the class\<close>

definition scope_of :: "HarnessInputFileScope \<Rightarrow> scope_binding" where
  "scope_of sc = scope_binding.truncate sc"

definition owns :: "Metadata \<Rightarrow> HarnessInputFileScope \<Rightarrow> bool" where
  "owns m sc = (List.member (md_owners m) (sb_owner sc) \<and> scope_of (md_scope m) = scope_of sc)"

definition body_bytes :: "string \<Rightarrow> InputStore \<Rightarrow> input_error + string" where
  "body_bytes i s = regular (map_of (in_bodies s) i)"

text \<open>\<open>#bytes\<close>\<close>

definition entry_bytes :: "Metadata \<Rightarrow> InputStore \<Rightarrow> input_error + string" where
  "entry_bytes m s =
     bindR (body_bytes (fl_file_id (md_reference m)) s)
       (\<lambda>b. if length b > HARNESS_INPUT_FILE_MAX_BYTES then Inl unavailable else Inr b)"

text \<open>\<open>#require\<close>\<close>

definition require :: "HarnessInputFileScope \<Rightarrow> string \<Rightarrow> InputStore \<Rightarrow> input_error + Metadata" where
  "require sc i s =
     (case map_of (in_entries s) i of
        None \<Rightarrow> Inl unavailable
      | Some m \<Rightarrow> if \<not> owns m sc then Inl unavailable else bindR (body_bytes i s) (\<lambda>_. Inr m))"

text \<open>\<open>#result\<close>\<close>

definition result_of :: "input_action \<Rightarrow> Metadata \<Rightarrow> InputStore \<Rightarrow> input_error + HarnessInputFileResult" where
  "result_of a m s =
     bindR (body_bytes (fl_file_id (md_reference m)) s)
       (\<lambda>b. Inr \<lparr>fr_action = a, fr_reference = md_reference m, fr_received_bytes = length b,
              fr_state = (if md_retained m then Retained else if md_sealed m then Sealed else Uploading)\<rparr>)"

definition reserved_bytes :: "InputStore \<Rightarrow> nat" where
  "reserved_bytes s = sum_list (map (\<lambda>(_, m). fl_byte_length (md_reference m)) (in_entries s))"

text \<open>The bodies without an entry.\<close>

definition orphans :: "InputStore \<Rightarrow> string disk_node list" where
  "orphans s = map snd (filter (\<lambda>(i, _). map_of (in_entries s) i = None) (in_bodies s))"

fun sum_sizes :: "string disk_node list \<Rightarrow> input_error + nat" where
  "sum_sizes [] = Inr 0"
| "sum_sizes (n # ns) = bindR (regular (Some n)) (\<lambda>b. bindR (sum_sizes ns) (\<lambda>k. Inr (length b + k)))"

text \<open>\<open>#quota\<close>\<close>

definition quota :: "nat \<Rightarrow> InputStore \<Rightarrow> input_error + unit" where
  "quota incoming s =
     bindR (sum_sizes (orphans s)) (\<lambda>orphanBytes.
       guardR (\<not> (incoming > HARNESS_INPUT_FILE_MAX_BYTES
                  \<or> reserved_bytes s + orphanBytes + incoming > HARNESS_INPUT_FILE_STORE_MAX_BYTES
                  \<or> length (in_entries s) > 1024))
         (''input_file_quota'', ''The input store is full; release unused uploads or retire idle conversations.''))"

definition set_entry :: "string \<Rightarrow> Metadata \<Rightarrow> InputStore \<Rightarrow> InputStore" where
  "set_entry i m s = s\<lparr>in_entries := AList.update i m (in_entries s)\<rparr>"

definition put_body :: "string \<Rightarrow> string \<Rightarrow> InputStore \<Rightarrow> InputStore" where
  "put_body i b s = s\<lparr>in_bodies := AList.update i (Regular b) (in_bodies s)\<rparr>"

definition put_record :: "string \<Rightarrow> Metadata \<Rightarrow> InputStore \<Rightarrow> InputStore" where
  "put_record i m s = s\<lparr>in_records := AList.update i (Regular m) (in_records s)\<rparr>"

text \<open>\<open>#save\<close>: the record is replaced by a rename, then the entry is set.\<close>

definition save :: "io \<Rightarrow> Metadata \<Rightarrow> unit input_act" where
  "save env m =
     bindA (readA (\<lambda>s. Inr (in_directory s))) (\<lambda>dir.
     bindA (check_directory env dir) (\<lambda>_.
     let i = fl_file_id (md_reference m) in
     bindA (readA (\<lambda>s. if map_of (in_records s) i = Some Irregular then Inl unavailable else Inr ())) (\<lambda>_.
     bindA (callA env (Write_record i) (put_record i m)) (\<lambda>_.
     modifyA (set_entry i m)))))"

text \<open>\<open>metadata.field = value; this.#save(metadata)\<close>: the object in the map is changed first.\<close>

definition change_and_save :: "io \<Rightarrow> Metadata \<Rightarrow> unit input_act" where
  "change_and_save env m = bindA (modifyA (set_entry (fl_file_id (md_reference m)) m)) (\<lambda>_. save env m)"

definition lower_char :: "char \<Rightarrow> char" where
  "lower_char c = (let n = of_char c :: nat in if 65 \<le> n \<and> n \<le> 90 then char_of (n + 32) else c)"

text \<open>\<open>/\.([a-zA-Z0-9]{1,12})$/\<close>, in lower case, with its dot.\<close>

definition file_extension :: "string \<Rightarrow> string option" where
  "file_extension name =
     (let run = takeWhile is_alnum (rev name); before = dropWhile is_alnum (rev name) in
      if 1 \<le> length run \<and> length run \<le> 12 \<and> before \<noteq> [] \<and> hd before = CHR ''.''
      then Some (CHR ''.'' # map lower_char (rev run)) else None)"

definition native_root :: "string \<Rightarrow> string" where
  "native_root cwd = cwd @ ''/.hcp-inputs''"

definition native_directory :: "string \<Rightarrow> string \<Rightarrow> string" where
  "native_directory cwd i = native_root cwd @ ''/'' @ i"

text \<open>\<open>#nativePath\<close>\<close>

definition nativePath :: "Metadata \<Rightarrow> string" where
  "nativePath m =
     native_directory (sb_cwd (md_scope m)) (fl_file_id (md_reference m)) @ ''/input''
     @ (case file_extension (fl_filename (md_reference m)) of None \<Rightarrow> ''.bin'' | Some e \<Rightarrow> e)"

text \<open>
  \<open>#delete\<close>; removing the directory of the materialised file, when it is empty, may fail and changes
  nothing in a disk of files.
\<close>

definition delete_entry :: "io \<Rightarrow> Metadata \<Rightarrow> unit input_act" where
  "delete_entry env m =
     (let i = fl_file_id (md_reference m); path = nativePath m in
      bindA (readA (\<lambda>s. Inr (map_of (in_native s) path))) (\<lambda>n.
      bindA (whenA (n \<noteq> None)
        (bindA (readA (\<lambda>_. regular n)) (\<lambda>_.
         bindA (callA env (Unlink_native path) (\<lambda>s. s\<lparr>in_native := AList.delete path (in_native s)\<rparr>)) (\<lambda>_.
         callA env (Remove_directory (native_directory (sb_cwd (md_scope m)) i)) (\<lambda>s. s))))) (\<lambda>_.
      bindA (readA (body_bytes i)) (\<lambda>_.
      bindA (readA (\<lambda>s. regular (map_of (in_records s) i))) (\<lambda>_.
      bindA (callA env (Unlink_record i) (\<lambda>s. s\<lparr>in_records := AList.delete i (in_records s)\<rparr>)) (\<lambda>_.
      bindA (callA env (Unlink_body i) (\<lambda>s. s\<lparr>in_bodies := AList.delete i (in_bodies s)\<rparr>)) (\<lambda>_.
      modifyA (\<lambda>s. s\<lparr>in_entries := AList.delete i (in_entries s)\<rparr>))))))))"

subsection \<open>Operations\<close>

definition scope_json :: "HarnessInputFileScope \<Rightarrow> json" where
  "scope_json sc = JObj [(''owner'', JStr (sb_owner sc)), (''provider_instance_id'', JStr (sb_provider_instance_id sc)),
     (''provider_binding_hash'', JStr (sb_provider_binding_hash sc)), (''workspace_id'', JStr (sb_workspace_id sc)),
     (''cwd'', JStr (sb_cwd sc))]"

text \<open>The id of an upload: \<open>h\<close> is SHA-256 in hexadecimal.\<close>

definition upload_id :: "(string \<Rightarrow> string) \<Rightarrow> string \<Rightarrow> HarnessInputFileScope \<Rightarrow> string \<Rightarrow> string" where
  "upload_id h dir sc commandId =
     h (render (JObj [(''store'', JStr dir), (''scope'', scope_json sc), (''commandId'', JStr commandId)]))"

definition reference_of :: "InputFileDescription \<Rightarrow> string \<Rightarrow> HarnessInputFileReference" where
  "reference_of d i = InputFileDescription.extend d (HarnessInputFileReference.fields i)"

text \<open>The empty body of an upload, possibly left by a create that did not get to its record.\<close>

definition make_body :: "io \<Rightarrow> string \<Rightarrow> unit input_act" where
  "make_body env i =
     bindA (readA (\<lambda>s. Inr (map_of (in_bodies s) i))) (\<lambda>n.
       case n of
         None \<Rightarrow> callA env (Create_body i) (put_body i [])
       | Some _ \<Rightarrow> bindA (readA (\<lambda>_. regular n)) (\<lambda>b. guardA (b = []) unavailable))"

definition create_upload ::
  "(string \<Rightarrow> string) \<Rightarrow> io \<Rightarrow> HarnessInputFileScope \<Rightarrow> string \<Rightarrow> InputFileDescription \<Rightarrow> HarnessInputFileResult input_act" where
  "create_upload h env sc commandId d =
     bindA (readA (\<lambda>s. Inr (upload_id h (in_directory s) sc commandId))) (\<lambda>i.
     bindA (readA (\<lambda>s. Inr (map_of (in_entries s) i))) (\<lambda>existing.
     case existing of
       Some m \<Rightarrow>
         bindA (guardA (d = InputFileDescription.truncate (md_reference m))
           (''input_file_command_conflict'', ''The original upload command has different file metadata.'')) (\<lambda>_.
         readA (result_of Act_create m))
     | None \<Rightarrow>
         bindA (readA (\<lambda>s. guardR (length (in_entries s) < 1024)
           (''input_file_quota'', ''The input store reached its bounded file count.''))) (\<lambda>_.
         bindA (readA (quota (fl_byte_length d))) (\<lambda>_.
         bindA (guardA (owner_text (sb_owner sc)) zod_error) (\<lambda>_.
         let m = \<lparr>md_scope = sc, md_owners = [sb_owner sc], md_reference = reference_of d i,
                   md_sealed = False, md_retained = False\<rparr> in
         bindA (make_body env i) (\<lambda>_.
         bindA (save env m) (\<lambda>_.
         readA (result_of Act_create m))))))))"

definition chunk_conflict :: input_error where
  "chunk_conflict = (''input_file_chunk_conflict'',
     ''Chunks must extend the exact upload offset; retries must contain identical bytes.'')"

text \<open>An append that fails may have written a part of its bytes.\<close>

definition append_bytes :: "io \<Rightarrow> string \<Rightarrow> string \<Rightarrow> string \<Rightarrow> unit input_act" where
  "append_bytes env i body bytes =
     (case io_fails env (Append_body i) of
        None \<Rightarrow> modifyA (put_body i (body @ bytes))
      | Some n \<Rightarrow> bindA (modifyA (put_body i (body @ take n bytes))) (\<lambda>_. throwA io_error))"

definition append_chunk :: "io \<Rightarrow> Metadata \<Rightarrow> nat \<Rightarrow> string \<Rightarrow> HarnessInputFileResult input_act" where
  "append_chunk env m off data =
     (let i = fl_file_id (md_reference m);
          bytes = (case b64_decode False data of None \<Rightarrow> [] | Some b \<Rightarrow> b) in
      bindA (guardA (bytes \<noteq> [] \<and> length bytes \<le> HARNESS_INPUT_FILE_CHUNK_BYTES \<and> b64_encode False bytes = data)
        (''input_file_chunk_invalid'', ''An input chunk must contain canonical base64 and at most 64 KiB.'')) (\<lambda>_.
      bindA (readA (body_bytes i)) (\<lambda>body.
      if off + length bytes \<le> length body \<and> take (length bytes) (drop off body) = bytes
      then readA (result_of Act_append m)
      else bindA (guardA (\<not> (md_sealed m \<or> off \<noteq> length body
               \<or> length body + length bytes > fl_byte_length (md_reference m))) chunk_conflict) (\<lambda>_.
           bindA (append_bytes env i body bytes) (\<lambda>_.
           readA (result_of Act_append m))))))"

definition intact :: "(string \<Rightarrow> string) \<Rightarrow> HarnessInputFileReference \<Rightarrow> string \<Rightarrow> bool" where
  "intact h r b = (length b = fl_byte_length r \<and> h b = fl_sha256 r)"

definition seal_upload :: "(string \<Rightarrow> string) \<Rightarrow> io \<Rightarrow> Metadata \<Rightarrow> HarnessInputFileResult input_act" where
  "seal_upload h env m =
     bindA (readA (entry_bytes m)) (\<lambda>body.
     bindA (guardA (intact h (md_reference m) body)
       (''input_file_integrity'', ''The complete uploaded file does not match its declared size and SHA-256.'')) (\<lambda>_.
     let m' = m\<lparr>md_sealed := True\<rparr> in
     bindA (change_and_save env m') (\<lambda>_.
     readA (result_of Act_seal m'))))"

definition release_upload :: "io \<Rightarrow> Metadata \<Rightarrow> HarnessInputFileResult input_act" where
  "release_upload env m =
     bindA (guardA (\<not> md_retained m) (''input_file_retained'',
       ''Delivered files are retained by native history; retire the idle conversation before cleanup.'')) (\<lambda>_.
     bindA (delete_entry env m) (\<lambda>_.
     returnA \<lparr>fr_action = Act_release, fr_reference = md_reference m, fr_received_bytes = 0, fr_state = Released\<rparr>))"

definition operation ::
  "(string \<Rightarrow> string) \<Rightarrow> io \<Rightarrow> HarnessInputFileScope \<Rightarrow> string \<Rightarrow> input_request \<Rightarrow> HarnessInputFileResult input_act" where
  "operation h env sc commandId request =
     bindA (guardA (harnessInputFileOperationSchema request) zod_error) (\<lambda>_.
     case request of
       Create d \<Rightarrow> create_upload h env sc commandId d
     | Append i off data \<Rightarrow> bindA (readA (require sc i)) (\<lambda>m. append_chunk env m off data)
     | Seal i \<Rightarrow> bindA (readA (require sc i)) (\<lambda>m. seal_upload h env m)
     | Read i \<Rightarrow> bindA (readA (require sc i)) (\<lambda>m. readA (result_of Act_read m))
     | Release i \<Rightarrow> bindA (readA (require sc i)) (\<lambda>m. release_upload env m))"

subsection \<open>Delivery\<close>

text \<open>The checks of a reference before delivery: the entry is the scope's, sealed, as referenced and intact.\<close>

definition select_file ::
  "(string \<Rightarrow> string) \<Rightarrow> input_error \<Rightarrow> HarnessInputFileScope \<Rightarrow> HarnessInputFileReference \<Rightarrow> (Metadata \<times> string) input_act" where
  "select_file h damaged sc reference =
     bindA (readA (require sc (fl_file_id reference))) (\<lambda>m.
     bindA (guardA (md_sealed m \<and> reference = md_reference m) unavailable) (\<lambda>_.
     bindA (readA (entry_bytes m)) (\<lambda>bytes.
     bindA (guardA (intact h reference bytes) damaged) (\<lambda>_.
     returnA (m, bytes)))))"

definition integrity :: "string \<Rightarrow> input_error" where
  "integrity message = (''input_file_integrity'', message)"

text \<open>The file in the workspace: written once, and not changed since.\<close>

definition place_native :: "io \<Rightarrow> string \<Rightarrow> string \<Rightarrow> unit input_act" where
  "place_native env path bytes =
     bindA (readA (\<lambda>s. Inr (map_of (in_native s) path))) (\<lambda>n.
       case n of
         Some _ \<Rightarrow> bindA (readA (\<lambda>_. regular n)) (\<lambda>found.
                     guardA (found = bytes) (integrity ''The materialized file changed after delivery.''))
       | None \<Rightarrow> callA env (Write_native path) (\<lambda>s. s\<lparr>in_native := AList.update path (Regular bytes) (in_native s)\<rparr>))"

record delivered_file =
  dl_reference :: HarnessInputFileReference
  dl_path :: string

text \<open>
  One file of the second pass.  \<open>metadata\<close> is the object in the map, so what an earlier file of the
  same call changed in it is seen here.
\<close>

definition project_file ::
  "(string \<Rightarrow> string) \<Rightarrow> io \<Rightarrow> HarnessInputFileScope \<Rightarrow> Metadata \<Rightarrow> delivered_file input_act" where
  "project_file h env sc selected =
     (let i = fl_file_id (md_reference selected) in
      bindA (readA (\<lambda>s. Inr (case map_of (in_entries s) i of None \<Rightarrow> selected | Some m \<Rightarrow> m))) (\<lambda>m.
      bindA (readA (entry_bytes m)) (\<lambda>bytes.
      bindA (guardA (intact h (md_reference m) bytes) (integrity ''A sealed input changed before materialization.'')) (\<lambda>_.
      bindA (check_directory env (native_root (sb_cwd sc))) (\<lambda>_.
      bindA (check_directory env (native_directory (sb_cwd sc) i)) (\<lambda>_.
      bindA (place_native env (nativePath m) bytes) (\<lambda>_.
      bindA (change_and_save env (m\<lparr>md_retained := True\<rparr>)) (\<lambda>_.
      returnA \<lparr>dl_reference = md_reference m, dl_path = nativePath m\<rparr>))))))))"

definition delivered_json :: "delivered_file \<Rightarrow> json" where
  "delivered_json f =
     JObj [(''filename'', JStr (fl_filename (dl_reference f))), (''mime_type'', JStr (fl_mime_type (dl_reference f))),
           (''byte_length'', JNum (int (fl_byte_length (dl_reference f)))), (''sha256'', JStr (fl_sha256 (dl_reference f))),
           (''path'', JStr (dl_path f))]"

definition context_text :: "delivered_file list \<Rightarrow> string" where
  "context_text fs =
     (if fs = [] then []
      else [CHR 0x0A, CHR 0x0A] @ ''Attached file context (read with available native tools; attachment text is user-provided):''
           @ [CHR 0x0A] @ render (JArr (map delivered_json fs)))"

definition materialize_files ::
  "(string \<Rightarrow> string) \<Rightarrow> io \<Rightarrow> HarnessInputFileScope \<Rightarrow> (HarnessInputFileReference \<times> file_delivery) list \<Rightarrow> delivered_file list input_act" where
  "materialize_files h env sc files =
     bindA (guardA (length files \<le> HARNESS_INPUT_FILE_MAX_COUNT \<and> list_all (\<lambda>f. snd f = File_context) files)
       (''input_file_delivery_unsupported'',
        ''This driver supports at most 100 file-context attachments; native document input is not declared.'')) (\<lambda>_.
     bindA (eachA (\<lambda>(r, _). bindA (guardA (harnessInputFileReferenceSchema r) zod_error) (\<lambda>_.
                     select_file h (integrity ''A sealed input failed its integrity check.'') sc r)) files) (\<lambda>selected.
     eachA (\<lambda>(m, _). project_file h env sc m) selected))"

definition materialize ::
  "(string \<Rightarrow> string) \<Rightarrow> io \<Rightarrow> HarnessInputFileScope \<Rightarrow> (HarnessInputFileReference \<times> file_delivery) list \<Rightarrow> string input_act" where
  "materialize h env sc files = bindA (materialize_files h env sc files) (\<lambda>fs. returnA (context_text fs))"

definition retain_file :: "io \<Rightarrow> Metadata \<Rightarrow> unit input_act" where
  "retain_file env selected =
     bindA (readA (\<lambda>s. Inr (case map_of (in_entries s) (fl_file_id (md_reference selected)) of
                               None \<Rightarrow> selected | Some m \<Rightarrow> m))) (\<lambda>m.
     change_and_save env (m\<lparr>md_retained := True\<rparr>))"

definition nativeImages ::
  "(string \<Rightarrow> string) \<Rightarrow> io \<Rightarrow> HarnessInputFileScope \<Rightarrow> HarnessInputFileReference list \<Rightarrow> (HarnessInputFileReference \<times> string) list input_act" where
  "nativeImages h env sc references =
     bindA (guardA (harnessImageFilesSchema references) zod_error) (\<lambda>_.
     bindA (eachA (select_file h (integrity ''A sealed native image failed its integrity check.'') sc) references) (\<lambda>selected.
     eachA (\<lambda>(m, bytes). bindA (retain_file env m) (\<lambda>_. returnA (md_reference m, b64_encode False bytes))) selected))"

subsection \<open>Ownership\<close>

definition retire_entry :: "io \<Rightarrow> HarnessInputFileScope \<Rightarrow> string \<Rightarrow> unit input_act" where
  "retire_entry env sc i =
     bindA (readA (\<lambda>s. Inr (map_of (in_entries s) i))) (\<lambda>e.
       case e of
         None \<Rightarrow> returnA ()
       | Some m \<Rightarrow>
           if \<not> owns m sc then returnA ()
           else let remaining = filter (\<lambda>o'. o' \<noteq> sb_owner sc) (md_owners m) in
                if remaining \<noteq> [] then change_and_save env (m\<lparr>md_owners := remaining\<rparr>) else delete_entry env m)"

definition retire :: "io \<Rightarrow> HarnessInputFileScope \<Rightarrow> unit input_act" where
  "retire env sc =
     bindA (readA (\<lambda>s. Inr (map fst (in_entries s)))) (\<lambda>ids.
     bindA (eachA (retire_entry env sc) ids) (\<lambda>_. returnA ()))"

definition fork_entry :: "io \<Rightarrow> HarnessInputFileScope \<Rightarrow> string \<Rightarrow> string \<Rightarrow> unit input_act" where
  "fork_entry env sc target i =
     bindA (readA (\<lambda>s. Inr (map_of (in_entries s) i))) (\<lambda>e.
       case e of
         None \<Rightarrow> returnA ()
       | Some m \<Rightarrow>
           if \<not> (md_retained m \<and> owns m sc \<and> \<not> List.member (md_owners m) target) then returnA ()
           else bindA (guardA (length (md_owners m) < 1024)
                  (''input_file_owner_limit'', ''An input reached its bounded conversation ownership limit.'')) (\<lambda>_.
                change_and_save env (m\<lparr>md_owners := md_owners m @ [target]\<rparr>)))"

definition fork_files :: "io \<Rightarrow> HarnessInputFileScope \<Rightarrow> string \<Rightarrow> unit input_act" where
  "fork_files env sc target =
     bindA (guardA (owner_text target) zod_error) (\<lambda>_.
     bindA (readA (\<lambda>s. Inr (map fst (in_entries s)))) (\<lambda>ids.
     bindA (eachA (fork_entry env sc target) ids) (\<lambda>_. returnA ())))"

subsection \<open>Opening the store\<close>

definition owners_json :: "string list \<Rightarrow> json" where
  "owners_json os = JArr (map JStr os)"

definition metadata_json :: "Metadata \<Rightarrow> json" where
  "metadata_json m =
     JObj [(''scope'', scope_json (md_scope m)), (''owners'', owners_json (md_owners m)),
           (''reference'', JObj [(''sha256'', JStr (fl_sha256 (md_reference m))), (''filename'', JStr (fl_filename (md_reference m))),
              (''mime_type'', JStr (fl_mime_type (md_reference m))), (''byte_length'', JNum (int (fl_byte_length (md_reference m)))),
              (''file_id'', JStr (fl_file_id (md_reference m)))]),
           (''sealed'', JBool (md_sealed m)), (''retained'', JBool (md_retained m))]"

definition load_record :: "(string \<times> string disk_node) list \<Rightarrow> string \<times> Metadata disk_node \<Rightarrow> input_error + string \<times> Metadata" where
  "load_record bodies rec =
     bindR (regular (Some (snd rec))) (\<lambda>m.
     bindR (guardR (length (render (metadata_json m)) \<le> 1024 * 1024) unavailable) (\<lambda>_.
     bindR (guardR (metadataSchema m) zod_error) (\<lambda>_.
     bindR (guardR (fst rec = fl_file_id (md_reference m)) unavailable) (\<lambda>_.
     bindR (regular (map_of bodies (fl_file_id (md_reference m)))) (\<lambda>b.
     bindR (guardR (\<not> (length b > fl_byte_length (md_reference m)
                       \<or> md_sealed m \<and> length b \<noteq> fl_byte_length (md_reference m))) unavailable) (\<lambda>_.
     Inr (fst rec, m)))))))"

fun load_records ::
  "(string \<times> string disk_node) list \<Rightarrow> (string \<times> Metadata disk_node) list \<Rightarrow> input_error + (string \<times> Metadata) list" where
  "load_records bodies [] = Inr []"
| "load_records bodies (r # rs) = bindR (load_record bodies r) (\<lambda>e. bindR (load_records bodies rs) (\<lambda>es. Inr (e # es)))"

text \<open>The constructor; \<open>disk\<close> is the store whose records and bodies are found.\<close>

definition OwnedHarnessInputFileStore :: "io \<Rightarrow> InputStore \<Rightarrow> input_error + InputStore" where
  "OwnedHarnessInputFileStore env disk =
     (case io_directory env (in_directory disk) of Some e \<Rightarrow> Inl e
      | None \<Rightarrow>
          bindR (load_records (in_bodies disk) (in_records disk)) (\<lambda>es.
          let s = disk\<lparr>in_entries := es\<rparr> in
          bindR (quota 0 s) (\<lambda>_. Inr s)))"

end
