(* ===== verification/Input_File_Custody.thy ===== *)
theory Input_File_Custody
  imports Input_Files
begin

text \<open>
  What the input-file store guarantees: its invariant, which every call keeps whichever of its file
  system calls fail, the exact upload, the integrity of what is delivered, and the custody of
  delivered files for as long as one conversation owns them.
\<close>

subsection \<open>The invariant\<close>

definition entry_ok :: "(string \<Rightarrow> string) \<Rightarrow> InputStore \<Rightarrow> string \<Rightarrow> Metadata \<Rightarrow> bool" where
  "entry_ok h s i m \<longleftrightarrow>
     fl_file_id (md_reference m) = i \<and> metadataSchema m \<and> (md_retained m \<longrightarrow> md_sealed m)
     \<and> (\<exists>b. map_of (in_bodies s) i = Some (Regular b) \<and> length b \<le> fl_byte_length (md_reference m)
           \<and> (md_sealed m \<longrightarrow> intact h (md_reference m) b))"

text \<open>A record is the entry, or an earlier state of it when a later save failed.\<close>

definition earlier :: "Metadata \<Rightarrow> Metadata \<Rightarrow> bool" where
  "earlier m' m \<longleftrightarrow>
     md_reference m' = md_reference m \<and> md_scope m' = md_scope m \<and> metadataSchema m'
     \<and> (md_retained m' \<longrightarrow> md_sealed m') \<and> (md_sealed m' \<longrightarrow> md_sealed m) \<and> (md_retained m' \<longrightarrow> md_retained m)"

definition record_ok :: "InputStore \<Rightarrow> string \<Rightarrow> Metadata disk_node \<Rightarrow> bool" where
  "record_ok s i n \<longleftrightarrow> (\<exists>m' m. n = Regular m' \<and> map_of (in_entries s) i = Some m \<and> earlier m' m)"

text \<open>What a body counts for: the declared size when it belongs to an entry, else its own.\<close>

definition weight :: "InputStore \<Rightarrow> string \<Rightarrow> nat" where
  "weight s i =
     (case map_of (in_entries s) i of
        Some m \<Rightarrow> fl_byte_length (md_reference m)
      | None \<Rightarrow> (case map_of (in_bodies s) i of Some (Regular b) \<Rightarrow> length b | _ \<Rightarrow> 0))"

definition total :: "InputStore \<Rightarrow> nat" where
  "total s = (\<Sum>i \<in> dom (map_of (in_bodies s)). weight s i)"

definition store_ok :: "(string \<Rightarrow> string) \<Rightarrow> InputStore \<Rightarrow> bool" where
  "store_ok h s \<longleftrightarrow>
     distinct (map fst (in_entries s)) \<and> distinct (map fst (in_records s)) \<and> distinct (map fst (in_bodies s))
     \<and> (\<forall>i m. map_of (in_entries s) i = Some m \<longrightarrow> entry_ok h s i m)
     \<and> (\<forall>i n. map_of (in_records s) i = Some n \<longrightarrow> record_ok s i n)
     \<and> (\<forall>i. map_of (in_bodies s) i \<noteq> Some Irregular)
     \<and> length (in_entries s) \<le> 1024 \<and> total s \<le> HARNESS_INPUT_FILE_STORE_MAX_BYTES"

lemma store_okD:
  assumes "store_ok h s"
  shows "distinct (map fst (in_entries s))" "distinct (map fst (in_records s))" "distinct (map fst (in_bodies s))"
    and "map_of (in_entries s) i = Some m \<Longrightarrow> entry_ok h s i m"
    and "map_of (in_records s) i = Some n \<Longrightarrow> record_ok s i n"
    and "map_of (in_bodies s) i \<noteq> Some Irregular"
    and "length (in_entries s) \<le> 1024" and "total s \<le> HARNESS_INPUT_FILE_STORE_MAX_BYTES"
  using assms unfolding store_ok_def by blast+

lemma regular_eq_Inr [result_simps]: "regular n = Inr b \<longleftrightarrow> n = Some (Regular b)"
  by (auto simp: regular_def split: option.splits disk_node.splits)

lemma regular_simps [simp]: "regular (Some (Regular b)) = Inr b"
  by (simp add: regular_def)

lemma reserved_entries:
  assumes "distinct (map fst es)"
  shows "sum_list (map (\<lambda>(_, m). f m) es) = (\<Sum>i \<in> dom (map_of es). f (the (map_of es i)))"
  using assms
proof (induction es)
  case (Cons e es)
  obtain i m where e: "e = (i, m)" by fastforce
  have i: "i \<notin> dom (map_of es)" using Cons.prems e by (auto simp: dom_map_of_conv_image_fst)
  have "dom (map_of (e # es)) = insert i (dom (map_of es))" using e by simp
  moreover have "(\<Sum>j \<in> dom (map_of es). f (the (map_of (e # es) j))) = (\<Sum>j \<in> dom (map_of es). f (the (map_of es j)))"
    by (rule sum.cong) (use i e in auto)
  ultimately have "(\<Sum>j \<in> dom (map_of (e # es)). f (the (map_of (e # es) j)))
      = f m + (\<Sum>j \<in> dom (map_of es). f (the (map_of es j)))"
    using i e by (simp add: finite_dom_map_of)
  with Cons e show ?case by (simp del: map_of.simps)
qed simp

lemma map_of_filter_key: "map_of (filter (\<lambda>(k, _). P k) xs) k = (if P k then map_of xs k else None)"
  by (induction xs) auto

lemma dom_update [js_map]: "dom (map_of (AList.update k v m)) = insert k (dom (map_of m))"
  by (auto simp: js_map)

lemma distinct_keys_update: "distinct (map fst m) \<Longrightarrow> distinct (map fst (AList.update k v m))"
  by (rule AList.distinct_update)

lemma distinct_keys_delete: "distinct (map fst m) \<Longrightarrow> distinct (map fst (AList.delete k m))"
  by (rule AList.distinct_delete)

lemma length_update_known: "map_of m k = Some v \<Longrightarrow> length (AList.update k w m) = length m"
  by (induction m) auto

lemma length_delete_le: "length (AList.delete k m) \<le> length m"
  by (simp add: AList.delete_eq)

text \<open>Entries and orphans together count what the quota counts.\<close>

lemma total_eq:
  assumes ok: "distinct (map fst (in_entries s))" "distinct (map fst (in_bodies s))"
    and bodies: "\<And>i m. map_of (in_entries s) i = Some m \<Longrightarrow> map_of (in_bodies s) i \<noteq> None"
    and sizes: "sum_sizes (orphans s) = Inr k"
  shows "total s = reserved_bytes s + k"
proof -
  let ?B = "dom (map_of (in_bodies s))" and ?E = "dom (map_of (in_entries s))"
  have sub: "?E \<subseteq> ?B" using bodies by fastforce
  have "total s = (\<Sum>i \<in> ?E. weight s i) + (\<Sum>i \<in> ?B - ?E. weight s i)"
    unfolding total_def by (rule sum.subset_diff [OF sub, THEN trans]) (simp_all add: finite_dom_map_of)
  moreover have "(\<Sum>i \<in> ?E. weight s i) = reserved_bytes s"
    unfolding reserved_bytes_def reserved_entries [OF ok(1), of "\<lambda>m. fl_byte_length (md_reference m)"]
    by (rule sum.cong) (auto simp: weight_def)
  moreover have "(\<Sum>i \<in> ?B - ?E. weight s i) = k"
  proof -
    define bs where "bs = filter (\<lambda>(i, _). map_of (in_entries s) i = None) (in_bodies s)"
    have dist: "distinct (map fst bs)" unfolding bs_def using ok(2) by (rule distinct_map_filter)
    have same: "map_of bs i = (if map_of (in_entries s) i = None then map_of (in_bodies s) i else None)" for i
      unfolding bs_def by (rule map_of_filter_key)
    then have dom: "dom (map_of bs) = ?B - ?E" by (auto split: if_splits)
    have "sum_sizes (map snd bs) = Inr k" using sizes by (simp add: orphans_def bs_def)
    then have "sum_list (map (\<lambda>(_, n). case n of Regular b \<Rightarrow> length b | Irregular \<Rightarrow> 0) bs) = k"
      by (induction bs arbitrary: k) (auto simp: result_simps)
    moreover have "(\<Sum>i \<in> dom (map_of bs). case the (map_of bs i) of Regular b \<Rightarrow> length b | Irregular \<Rightarrow> 0)
        = (\<Sum>i \<in> ?B - ?E. weight s i)"
      unfolding dom
      by (rule sum.cong) (auto simp: weight_def same split: disk_node.splits option.splits)
    ultimately show ?thesis
      using reserved_entries [OF dist, of "case_disk_node length 0"] by simp
  qed
  ultimately show ?thesis by simp
qed

lemma sizes_exist:
  assumes "\<And>i. map_of (in_bodies s) i \<noteq> Some Irregular" and "distinct (map fst (in_bodies s))"
  obtains k where "sum_sizes (orphans s) = Inr k"
proof -
  have "\<forall>n \<in> set (orphans s). n \<noteq> Irregular"
    using assms by (auto simp: orphans_def)
  moreover have "\<forall>n \<in> set ns. n \<noteq> Irregular \<Longrightarrow> \<exists>k. sum_sizes ns = Inr k" for ns
    by (induction ns) (auto simp: regular_def split: disk_node.splits)
  ultimately show thesis using that by blast
qed

subsection \<open>Changes that keep it\<close>

lemma store_parts [simp]:
  "in_entries (set_entry i m s) = AList.update i m (in_entries s)" "in_records (set_entry i m s) = in_records s"
  "in_bodies (set_entry i m s) = in_bodies s" "in_native (set_entry i m s) = in_native s"
  "in_directory (set_entry i m s) = in_directory s"
  "in_entries (put_record i m s) = in_entries s" "in_records (put_record i m s) = AList.update i (Regular m) (in_records s)"
  "in_bodies (put_record i m s) = in_bodies s" "in_native (put_record i m s) = in_native s"
  "in_directory (put_record i m s) = in_directory s"
  "in_entries (put_body i b s) = in_entries s" "in_records (put_body i b s) = in_records s"
  "in_bodies (put_body i b s) = AList.update i (Regular b) (in_bodies s)" "in_native (put_body i b s) = in_native s"
  "in_directory (put_body i b s) = in_directory s"
  by (simp_all add: set_entry_def put_record_def put_body_def)

lemma ok_native [simp]:
  "store_ok h (s\<lparr>in_native := x\<rparr>) = store_ok h s"
  by (simp add: store_ok_def entry_ok_def record_ok_def total_def weight_def cong: option.case_cong)

definition advances :: "(string \<Rightarrow> string) \<Rightarrow> InputStore \<Rightarrow> Metadata \<Rightarrow> Metadata \<Rightarrow> bool" where
  "advances h s m m' \<longleftrightarrow>
     md_reference m' = md_reference m \<and> md_scope m' = md_scope m \<and> metadataSchema m'
     \<and> (md_sealed m \<longrightarrow> md_sealed m') \<and> (md_retained m \<longrightarrow> md_retained m') \<and> (md_retained m' \<longrightarrow> md_sealed m')
     \<and> (md_sealed m' \<longrightarrow> (\<exists>b. map_of (in_bodies s) (fl_file_id (md_reference m)) = Some (Regular b) \<and> intact h (md_reference m) b))"

lemma ok_set_entry:
  assumes ok: "store_ok h s" and i: "map_of (in_entries s) i = Some m" and m': "advances h s m m'"
  shows "store_ok h (set_entry i m' s)"
proof -
  note e = store_okD(4) [OF ok i]
  have "total (set_entry i m' s) = total s"
    unfolding total_def by (rule sum.cong) (use i m' in \<open>auto simp: weight_def js_map advances_def cong: option.case_cong\<close>)
  moreover have "entry_ok h (set_entry i m' s) j n" if "map_of (in_entries (set_entry i m' s)) j = Some n" for j n
    using that store_okD(4) [OF ok, of j n] e m' by (auto simp: js_map entry_ok_def advances_def split: if_splits)
  moreover have "record_ok (set_entry i m' s) j n" if "map_of (in_records s) j = Some n" for j n
    using store_okD(5) [OF ok that] i m' by (auto simp: record_ok_def js_map advances_def earlier_def)
  ultimately show ?thesis
    using store_okD [OF ok] i by (simp add: store_ok_def distinct_keys_update length_update_known)
qed

lemma earlier_self: "entry_ok h s i m \<Longrightarrow> earlier m m"
  by (simp add: earlier_def entry_ok_def)

lemma ok_put_record:
  assumes ok: "store_ok h s" and i: "map_of (in_entries s) i = Some m"
  shows "store_ok h (put_record i m s)"
proof -
  have "total (put_record i m s) = total s" by (simp add: total_def weight_def cong: option.case_cong)
  moreover have "record_ok (put_record i m s) j n" if "map_of (in_records (put_record i m s)) j = Some n" for j n
    using that store_okD(5) [OF ok, of j n] i earlier_self [OF store_okD(4) [OF ok i]]
    by (auto simp: js_map record_ok_def split: if_splits)
  ultimately show ?thesis
    using store_okD [OF ok] by (simp add: store_ok_def distinct_keys_update entry_ok_def)
qed

lemma ok_put_body:
  assumes ok: "store_ok h s" and i: "map_of (in_entries s) i = Some m" and "\<not> md_sealed m"
    and len: "length b \<le> fl_byte_length (md_reference m)"
  shows "store_ok h (put_body i b s)"
proof -
  note e = store_okD(4) [OF ok i]
  then have "i \<in> dom (map_of (in_bodies s))" by (auto simp: entry_ok_def)
  then have "total (put_body i b s) = total s"
    unfolding total_def by (simp add: js_map insert_absorb) (rule sum.cong; use i in \<open>auto simp: weight_def js_map cong: option.case_cong\<close>)
  moreover have "entry_ok h (put_body i b s) j n" if "map_of (in_entries s) j = Some n" for j n
  proof (cases "j = i")
    case True
    with that i e assms(3) len show ?thesis by (simp add: js_map entry_ok_def)
  next
    case False
    with store_okD(4) [OF ok that] show ?thesis by (simp add: js_map entry_ok_def)
  qed
  moreover have "map_of (in_bodies (put_body i b s)) j \<noteq> Some Irregular" for j
    using store_okD(6) [OF ok, of j] by (simp add: js_map)
  ultimately show ?thesis
    using store_okD [OF ok] by (simp add: store_ok_def distinct_keys_update record_ok_def)
qed

lemma no_entry_without_body:
  assumes "store_ok h s" and "map_of (in_bodies s) i = None"
  shows "map_of (in_entries s) i = None"
  using store_okD(4) [OF assms(1), of i] assms(2) by (cases "map_of (in_entries s) i") (auto simp: entry_ok_def)

lemma total_new_body:
  assumes ok: "store_ok h s" and i: "map_of (in_bodies s) i = None"
  shows "total (put_body i [] s) = total s"
proof -
  have "(\<Sum>j \<in> dom (map_of (in_bodies s)). weight (put_body i [] s) j) = total s"
    unfolding total_def by (rule sum.cong) (use i in \<open>auto simp: weight_def js_map cong: option.case_cong\<close>)
  moreover have "weight (put_body i [] s) i = 0"
    using no_entry_without_body [OF ok i] by (simp add: weight_def js_map cong: option.case_cong)
  ultimately show ?thesis
    using i unfolding total_def [of "put_body i [] s"] by (simp add: js_map finite_dom_map_of domIff)
qed

lemma ok_new_body:
  assumes ok: "store_ok h s" and i: "map_of (in_bodies s) i = None"
  shows "store_ok h (put_body i [] s)"
proof -
  note none = no_entry_without_body [OF ok i]
  have "entry_ok h (put_body i [] s) j n" if "map_of (in_entries s) j = Some n" for j n
    using store_okD(4) [OF ok that] none that by (auto simp: js_map entry_ok_def)
  moreover have "map_of (in_bodies (put_body i [] s)) j \<noteq> Some Irregular" for j
    using store_okD(6) [OF ok, of j] by (simp add: js_map)
  ultimately show ?thesis
    using store_okD [OF ok] total_new_body [OF ok i] by (simp add: store_ok_def distinct_keys_update record_ok_def)
qed

lemma ok_new_entry:
  assumes ok: "store_ok h s" and i: "map_of (in_entries s) i = None" "map_of (in_bodies s) i = Some (Regular [])"
    and m: "fl_file_id (md_reference m) = i" "metadataSchema m" "\<not> md_sealed m" "\<not> md_retained m"
    and room: "length (in_entries s) < 1024" "total s + fl_byte_length (md_reference m) \<le> HARNESS_INPUT_FILE_STORE_MAX_BYTES"
  shows "store_ok h (set_entry i m (put_record i m s))"
proof -
  let ?t = "set_entry i m (put_record i m s)" and ?B = "dom (map_of (in_bodies s))"
  have B: "i \<in> ?B" "finite ?B" using i by (auto simp: finite_dom_map_of)
  have "(\<Sum>j \<in> ?B - {i}. weight ?t j) = (\<Sum>j \<in> ?B - {i}. weight s j)"
    by (rule sum.cong) (auto simp: weight_def js_map cong: option.case_cong)
  then have "total ?t = total s + fl_byte_length (md_reference m)"
    using B i unfolding total_def by (simp add: sum.remove [OF B(2,1)] weight_def js_map cong: option.case_cong)
  moreover have "entry_ok h ?t j n" if "map_of (in_entries ?t) j = Some n" for j n
    using that store_okD(4) [OF ok, of j n] i m by (auto simp: js_map entry_ok_def split: if_splits)
  moreover have "record_ok ?t j n" if "map_of (in_records ?t) j = Some n" for j n
    using that store_okD(5) [OF ok, of j n] i m by (auto simp: js_map record_ok_def earlier_def split: if_splits)
  moreover have "i \<notin> fst ` set (in_entries s)" using i(1) by (simp add: map_of_eq_None_iff)
  ultimately show ?thesis
    using store_okD [OF ok] room i
    by (simp add: store_ok_def distinct_keys_update update_new [OF i(1)])
qed

lemma ok_delete_record:
  assumes ok: "store_ok h s"
  shows "store_ok h (s\<lparr>in_records := AList.delete i (in_records s)\<rparr>)"
proof -
  have "total (s\<lparr>in_records := AList.delete i (in_records s)\<rparr>) = total s" by (simp add: total_def weight_def cong: option.case_cong)
  moreover have "record_ok (s\<lparr>in_records := AList.delete i (in_records s)\<rparr>) j n"
    if "map_of (AList.delete i (in_records s)) j = Some n" for j n
    using that store_okD(5) [OF ok, of j n] by (auto simp: js_map record_ok_def split: if_splits)
  ultimately show ?thesis
    using store_okD [OF ok] by (simp add: store_ok_def distinct_keys_delete entry_ok_def)
qed

lemma ok_delete_entry:
  assumes ok: "store_ok h s" and i: "map_of (in_records s) i = None"
  shows "store_ok h (s\<lparr>in_bodies := AList.delete i (in_bodies s), in_entries := AList.delete i (in_entries s)\<rparr>)"
    (is "store_ok h ?t")
proof -
  let ?B = "dom (map_of (in_bodies s))"
  have "total ?t = (\<Sum>j \<in> ?B - {i}. weight s j)"
    unfolding total_def by (rule sum.cong) (auto simp: weight_def js_map cong: option.case_cong split: if_splits)
  also have "\<dots> \<le> total s" unfolding total_def by (rule sum_mono2) (auto simp: finite_dom_map_of)
  finally have "total ?t \<le> total s" .
  moreover have "entry_ok h ?t j n" if "map_of (in_entries ?t) j = Some n" for j n
    using that store_okD(4) [OF ok, of j n] by (auto simp: js_map entry_ok_def split: if_splits)
  moreover have "record_ok ?t j n" if "map_of (in_records s) j = Some n" for j n
    using store_okD(5) [OF ok that] that i by (auto simp: js_map record_ok_def)
  moreover have "map_of (in_bodies ?t) j \<noteq> Some Irregular" for j
    using store_okD(6) [OF ok, of j] by (simp add: js_map)
  moreover have "length (in_entries ?t) \<le> length (in_entries s)" by (simp add: length_delete_le)
  ultimately show ?thesis
    using store_okD(1,2,3,7,8) [OF ok] unfolding store_ok_def by (simp add: distinct_keys_delete)
qed

subsection \<open>What every call keeps\<close>

lemma wp_call [wp_simps]:
  "wp (callA env c f) Q E s \<longleftrightarrow> (case io_fails env c of None \<Rightarrow> Q () (f s) | Some _ \<Rightarrow> E io_error s)"
  by (simp add: callA_def wp_simps split: option.split)

lemma wp_save:
  assumes "\<And>e. E e s" and "Q () (set_entry i m (put_record i m s))" and "fl_file_id (md_reference m) = i"
  shows "wp (save env m) Q E s"
  using assms by (auto simp: save_def check_directory_def Let_def wp_simps split: option.split)

lemma wp_change_and_save:
  assumes "\<And>e. E e (set_entry i m s)" and "Q () (put_record i m (set_entry i m s))" and "fl_file_id (md_reference m) = i"
  shows "wp (change_and_save env m) Q E s"
proof -
  have same: "set_entry i m (put_record i m (set_entry i m s)) = put_record i m (set_entry i m s)"
    by (simp add: set_entry_def put_record_def update_same js_map)
  from assms have "wp (save env m) Q E (set_entry i m s)"
    by (intro wp_save [where i = i]) (simp_all add: same)
  then show ?thesis by (simp add: change_and_save_def wp_simps assms(3))
qed

lemma require_Inr:
  assumes "require sc i s = Inr m"
  shows "map_of (in_entries s) i = Some m" "owns m sc" "\<exists>b. map_of (in_bodies s) i = Some (Regular b)"
  using assms by (auto simp: require_def body_bytes_def result_simps split: option.splits if_splits)

text \<open>
  An invariant of the store: kept by the single changes of it, of which \<open>may_change\<close> and \<open>may_delete\<close>
  say which entries may be changed how and which may go.
\<close>

locale store_invariant =
  fixes h :: "string \<Rightarrow> string" and I :: "InputStore \<Rightarrow> bool"
    and may_change :: "Metadata \<Rightarrow> Metadata \<Rightarrow> bool" and may_delete :: "Metadata \<Rightarrow> bool"
  assumes ok: "I s \<Longrightarrow> store_ok h s"
    and digest: "I s \<Longrightarrow> sha256_text (h t)"
    and grows: "set (md_owners m) \<subseteq> set (md_owners m') \<Longrightarrow> may_change m m'"
    and fresh: "\<not> md_retained m \<Longrightarrow> may_delete m"
    and entry: "I s \<Longrightarrow> map_of (in_entries s) i = Some m \<Longrightarrow> advances h s m m' \<Longrightarrow> may_change m m' \<Longrightarrow> I (set_entry i m' s)"
    and record_: "I s \<Longrightarrow> map_of (in_entries s) i = Some m \<Longrightarrow> I (put_record i m s)"
    and native: "I s \<Longrightarrow> I (s\<lparr>in_native := x\<rparr>)"
    and body: "I s \<Longrightarrow> map_of (in_entries s) i = Some m \<Longrightarrow> \<not> md_sealed m \<Longrightarrow> length b \<le> fl_byte_length (md_reference m)
      \<Longrightarrow> I (put_body i b s)"
    and new_body: "I s \<Longrightarrow> map_of (in_bodies s) i = None \<Longrightarrow> I (put_body i [] s)"
    and new_entry: "I s \<Longrightarrow> map_of (in_entries s) i = None \<Longrightarrow> store_ok h (set_entry i m (put_record i m s))
      \<Longrightarrow> I (set_entry i m (put_record i m s))"
    and no_record: "I s \<Longrightarrow> map_of (in_entries s) i = Some m \<Longrightarrow> may_delete m
      \<Longrightarrow> I (s\<lparr>in_records := AList.delete i (in_records s)\<rparr>)"
    and no_entry: "I s \<Longrightarrow> map_of (in_entries s) i = Some m \<Longrightarrow> may_delete m \<Longrightarrow> map_of (in_records s) i = None
      \<Longrightarrow> I (s\<lparr>in_bodies := AList.delete i (in_bodies s), in_entries := AList.delete i (in_entries s)\<rparr>)"
begin

lemma at_id: "I s \<Longrightarrow> map_of (in_entries s) i = Some m \<Longrightarrow> fl_file_id (md_reference m) = i \<and> metadataSchema m"
  using store_okD(4) [OF ok] by (auto simp: entry_ok_def)

lemma changes:
  assumes "I s" and i: "map_of (in_entries s) i = Some m" and "advances h s m m'" and "may_change m m'"
  shows "wp (change_and_save env m') (\<lambda>_. I) (\<lambda>_. I) s"
proof -
  have id: "fl_file_id (md_reference m') = i" using at_id [OF assms(1) i] assms(3) by (simp add: advances_def)
  have I: "I (set_entry i m' s)" by (rule entry) fact+
  then show ?thesis
    by (intro wp_change_and_save [OF _ _ id] record_ [OF I]) (simp_all add: js_map)
qed

lemma deletes:
  assumes "I s" and i: "map_of (in_entries s) i = Some m" and "may_delete m"
  shows "wp (delete_entry env m) (\<lambda>_. I) (\<lambda>_. I) s"
proof -
  have id: "fl_file_id (md_reference m) = i" using at_id [OF assms(1) i] by simp
  have gone: "I (t\<lparr>in_records := AList.delete i (in_records t)\<rparr>)"
      "I (t\<lparr>in_records := AList.delete i (in_records t), in_bodies := AList.delete i (in_bodies t),
            in_entries := AList.delete i (in_entries t)\<rparr>)"
    if "I t" "in_entries t = in_entries s" for t
  proof -
    show *: "I (t\<lparr>in_records := AList.delete i (in_records t)\<rparr>)"
      by (rule no_record) (use that i assms(3) in simp_all)
    show "I (t\<lparr>in_records := AList.delete i (in_records t), in_bodies := AList.delete i (in_bodies t),
            in_entries := AList.delete i (in_entries t)\<rparr>)"
      using no_entry [OF *, of i m] that i assms(3) by (simp add: js_map)
  qed
  show ?thesis
    using assms(1) native [OF assms(1)] gone [OF assms(1)] gone [OF native [OF assms(1)]]
    by (simp add: delete_entry_def Let_def id wp_simps split: option.split sum.split)
qed

lemma creates:
  assumes "I s" and d: "description_schema d"
  shows "wp (create_upload h env sc commandId d) (\<lambda>_. I) (\<lambda>_. I) s"
proof -
  let ?i = "upload_id h (in_directory s) sc commandId"
  show ?thesis
  proof (cases "map_of (in_entries s) ?i")
    case (Some m)
    then show ?thesis using assms(1) by (simp add: create_upload_def wp_simps split: sum.split)
  next
    case None
    let ?m = "\<lparr>md_scope = sc, md_owners = [sb_owner sc], md_reference = reference_of d ?i,
                md_sealed = False, md_retained = False\<rparr>"
    have i: "sha256_text ?i" using digest [OF assms(1)] by (simp add: upload_id_def)
    have parts: "fl_file_id (reference_of d ?i) = ?i" "fl_byte_length (reference_of d ?i) = fl_byte_length d"
      by (simp_all add: reference_of_def InputFileDescription.extend_def HarnessInputFileReference.fields_def)
    have saves: "wp (save env ?m) (\<lambda>_. wp (readA (result_of Act_create ?m)) (\<lambda>_. I) (\<lambda>_. I)) (\<lambda>_. I) t"
      if "I t" and t: "in_entries t = in_entries s" "map_of (in_bodies t) ?i = Some (Regular [])" "total t = total s"
        and room: "length (in_entries s) < 1024" "owner_text (sb_owner sc)"
          "total s + fl_byte_length d \<le> HARNESS_INPUT_FILE_STORE_MAX_BYTES" for t
    proof -
      have "metadataSchema ?m"
        using room(2) d i parts
        by (simp add: metadataSchema_def harnessInputFileReferenceSchema_def description_schema_def reference_of_def
            InputFileDescription.extend_def HarnessInputFileReference.fields_def)
      then have "store_ok h (set_entry ?i ?m (put_record ?i ?m t))"
        by (intro ok_new_entry ok that) (use None t room parts in simp_all)
      then have "I (set_entry ?i ?m (put_record ?i ?m t))"
        by (intro new_entry \<open>I t\<close>) (simp_all add: t None)
      with \<open>I t\<close> parts show ?thesis
        by (intro wp_save [where i = ?i]) (simp_all add: wp_simps split: sum.split)
    qed
    obtain k where k: "sum_sizes (orphans s) = Inr k"
      using sizes_exist store_okD(3,6) [OF ok [OF assms(1)]] by metis
    have "map_of (in_bodies s) j \<noteq> None" if "map_of (in_entries s) j = Some m" for j m
      using store_okD(4) [OF ok [OF assms(1)] that] by (auto simp: entry_ok_def)
    then have total: "total s = reserved_bytes s + k"
      by (intro total_eq k store_okD(1,3) [OF ok [OF assms(1)]]) simp
    show ?thesis
    proof (cases "map_of (in_bodies s) ?i")
      case body: None
      have "I (put_body ?i [] s)" by (rule new_body) fact+
      then show ?thesis
        using None body assms(1) k total saves [of "put_body ?i [] s"] total_new_body [OF ok [OF assms(1)] body]
        by (auto simp: create_upload_def make_body_def quota_def guardR_def Let_def wp_simps js_map split: option.split)
    next
      case (Some n)
      then show ?thesis
        using None assms(1) k total saves [OF assms(1)]
        by (cases n) (auto simp: create_upload_def make_body_def quota_def guardR_def Let_def wp_simps regular_def)
    qed
  qed
qed

lemma appends:
  assumes "I s" and i: "map_of (in_entries s) i = Some m"
  shows "wp (append_chunk env m off data) (\<lambda>_. I) (\<lambda>_. I) s"
proof -
  have id: "fl_file_id (md_reference m) = i" using at_id [OF assms(1) i] by simp
  have put: "I (put_body i b s)" if "\<not> md_sealed m" "length b \<le> fl_byte_length (md_reference m)" for b
    by (rule body) fact+
  show ?thesis
    using assms(1)
    by (auto simp: append_chunk_def append_bytes_def body_bytes_def id Let_def wp_simps result_simps
        intro!: put split: sum.split option.split)
qed

lemma seals:
  assumes "I s" and i: "map_of (in_entries s) i = Some m"
  shows "wp (seal_upload h env m) (\<lambda>_. I) (\<lambda>_. I) s"
proof (cases "entry_bytes m s")
  case (Inl e)
  then show ?thesis using assms(1) by (simp add: seal_upload_def wp_simps)
next
  case (Inr b)
  have id: "fl_file_id (md_reference m) = i" and m: "metadataSchema m" using at_id [OF assms(1) i] by simp_all
  have b: "map_of (in_bodies s) i = Some (Regular b)"
    using Inr by (auto simp: entry_bytes_def body_bytes_def id result_simps split: if_splits)
  show ?thesis
  proof (cases "intact h (md_reference m) b")
    case True
    have "wp (change_and_save env (m\<lparr>md_sealed := True\<rparr>)) (\<lambda>_. I) (\<lambda>_. I) s"
      by (rule changes [OF assms]) (use m b id True in \<open>auto simp: advances_def metadataSchema_def intro: grows\<close>)
    with Inr True show ?thesis
      by (auto simp: seal_upload_def Let_def wp_simps elim!: wp_mono split: sum.split)
  qed (use Inr assms(1) in \<open>simp add: seal_upload_def wp_simps\<close>)
qed

lemma releases:
  assumes "I s" and i: "map_of (in_entries s) i = Some m"
  shows "wp (release_upload env m) (\<lambda>_. I) (\<lambda>_. I) s"
  using assms(1) deletes [OF assms] fresh [of m] by (simp add: release_upload_def wp_simps)

lemma operates:
  assumes "I s"
  shows "wp (operation h env sc commandId request) (\<lambda>_. I) (\<lambda>_. I) s"
proof (cases request)
  case (Create d)
  with assms creates [OF assms] show ?thesis
    by (simp add: operation_def harnessInputFileOperationSchema_def wp_simps)
qed (use assms in \<open>auto simp: operation_def wp_simps dest: require_Inr(1) split: sum.split
       intro: appends [OF assms] seals [OF assms] releases [OF assms]\<close>)

text \<open>Retaining entries that are sealed.\<close>

definition sealed_in :: "string set \<Rightarrow> InputStore \<Rightarrow> bool" where
  "sealed_in A s \<longleftrightarrow> (\<forall>i \<in> A. \<exists>m. map_of (in_entries s) i = Some m \<and> md_sealed m)"

lemma selects:
  assumes "I s" and "sealed_in A s"
  shows "wp (select_file h damaged sc r) (\<lambda>x s'. (I s' \<and> sealed_in A s') \<and> sealed_in {fl_file_id r} s'
     \<and> md_reference (fst x) = r) (\<lambda>_. I) s"
  using assms by (auto simp: select_file_def sealed_in_def wp_simps dest: require_Inr(1) split: sum.split)

lemma retains:
  assumes "I s" and "sealed_in A s" and i: "map_of (in_entries s) i = Some m" and "i \<in> A"
  shows "wp (change_and_save env (m\<lparr>md_retained := True\<rparr>)) (\<lambda>_ s'. I s' \<and> sealed_in A s') (\<lambda>_. I) s"
proof -
  have sealed: "md_sealed m" using assms by (auto simp: sealed_in_def)
  have id: "fl_file_id (md_reference m) = i" using at_id [OF assms(1) i] by simp
  have "wp (change_and_save env (m\<lparr>md_retained := True\<rparr>)) (\<lambda>_. I) (\<lambda>_. I) s"
    using store_okD(4) [OF ok [OF assms(1)] i] sealed
    by (intro changes [OF assms(1) i]) (auto simp: advances_def entry_ok_def metadataSchema_def intro: grows)
  moreover have "wp (change_and_save env (m\<lparr>md_retained := True\<rparr>)) (\<lambda>_. sealed_in A) (\<lambda>_ _. True) s"
    using assms(2) sealed id by (intro wp_change_and_save [where i = i]) (auto simp: sealed_in_def js_map)
  ultimately show ?thesis by (rule wp_mono [OF wp_conj]) simp_all
qed

lemma places:
  "I s \<Longrightarrow> sealed_in A s \<Longrightarrow> map_of (in_entries s) i = Some m
   \<Longrightarrow> wp (place_native env path bytes) (\<lambda>_ s'. I s' \<and> sealed_in A s' \<and> map_of (in_entries s') i = Some m) (\<lambda>_. I) s"
  by (auto simp: place_native_def sealed_in_def wp_simps intro: native split: option.split sum.split)

lemma projects:
  assumes "I s" and "sealed_in A s" and "fl_file_id (md_reference x) \<in> A"
  shows "wp (project_file h env sc x) (\<lambda>_ s'. I s' \<and> sealed_in A s') (\<lambda>_. I) s"
proof -
  let ?i = "fl_file_id (md_reference x)"
  from assms(2,3) obtain m where m: "map_of (in_entries s) ?i = Some m" by (auto simp: sealed_in_def)
  have "wp (place_native env (nativePath m) bytes)
      (\<lambda>_. wp (bindA (change_and_save env (m\<lparr>md_retained := True\<rparr>)) (\<lambda>_. returnA r)) (\<lambda>_ s'. I s' \<and> sealed_in A s') (\<lambda>_. I))
      (\<lambda>_. I) s" for bytes r
    using places [OF assms(1,2) m]
    by (rule wp_mono) (use assms(3) in \<open>auto simp: wp_simps intro: retains\<close>)
  with m assms(1) show ?thesis
    by (auto simp: project_file_def Let_def check_directory_def wp_simps split: sum.split option.split)
qed

lemma retain_files:
  assumes "I s" and "sealed_in A s" and "fl_file_id (md_reference x) \<in> A"
  shows "wp (retain_file env x) (\<lambda>_ s'. I s' \<and> sealed_in A s') (\<lambda>_. I) s"
proof -
  from assms(2,3) obtain m where "map_of (in_entries s) (fl_file_id (md_reference x)) = Some m"
    by (auto simp: sealed_in_def)
  with retains [OF assms(1,2) this assms(3)] show ?thesis by (simp add: retain_file_def wp_simps)
qed

text \<open>Both ways of delivery first select all files and then retain them one by one.\<close>

lemma delivers:
  fixes select :: "'x \<Rightarrow> (Metadata \<times> 'y) input_act" and deliver :: "Metadata \<times> 'y \<Rightarrow> 'z input_act"
  assumes "I s"
    and select: "\<And>x A t. I t \<Longrightarrow> sealed_in A t \<Longrightarrow>
      wp (select x) (\<lambda>y t'. (I t' \<and> sealed_in A t') \<and> sealed_in {fl_file_id (md_reference (fst y))} t') (\<lambda>_. I) t"
    and deliver: "\<And>y A t. I t \<Longrightarrow> sealed_in A t \<Longrightarrow> fl_file_id (md_reference (fst y)) \<in> A \<Longrightarrow>
      wp (deliver y) (\<lambda>_ t'. I t' \<and> sealed_in A t') (\<lambda>_. I) t"
  shows "wp (bindA (eachA select files) (eachA deliver)) (\<lambda>_. I) (\<lambda>_. I) s"
proof -
  have "wp (eachA select files)
      (\<lambda>ys t. I t \<and> list_all2 (\<lambda>x y. sealed_in {fl_file_id (md_reference (fst y))} t) files ys) (\<lambda>_. I) s"
  proof (rule wp_each)
    show "wp (select x) (\<lambda>y t'. I t' \<and> sealed_in {fl_file_id (md_reference (fst y))} t') (\<lambda>_. I) t" if "I t" for x t
      using select [OF that, of "{}"] by (rule wp_mono) (simp_all add: sealed_in_def)
    show "wp (select z) (\<lambda>_. sealed_in {fl_file_id (md_reference (fst y))}) (\<lambda>_ _. True) t"
      if "I t" "sealed_in {fl_file_id (md_reference (fst y))} t" for y z t
      using select [OF that] by (rule wp_mono) simp_all
  qed fact
  then show ?thesis
    unfolding wp_bind
  proof (rule wp_mono)
    fix ys :: "(Metadata \<times> 'y) list" and t
    assume t: "I t \<and> list_all2 (\<lambda>x y. sealed_in {fl_file_id (md_reference (fst y))} t) files ys"
    define A where "A = (\<lambda>y. fl_file_id (md_reference (fst y))) ` set ys"
    have "sealed_in A t"
      using t by (auto simp: A_def sealed_in_def list_all2_conv_all_nth in_set_conv_nth) (metis fst_conv)
    with t have "wp (eachA deliver ys) (\<lambda>_ t'. I t' \<and> sealed_in A t') (\<lambda>_. I) t"
      using wp_each_keeps [of ys "\<lambda>t'. I t' \<and> sealed_in A t'" deliver "\<lambda>_. I" t] deliver [of _ A]
      by (simp add: A_def)
    then show "wp (eachA deliver ys) (\<lambda>_. I) (\<lambda>_. I) t" by (rule wp_mono) simp_all
  qed
qed

lemma materializes:
  assumes "I s"
  shows "wp (materialize_files h env sc files) (\<lambda>_. I) (\<lambda>_. I) s"
proof -
  have "wp (bindA (eachA (\<lambda>(r, _). bindA (guardA (harnessInputFileReferenceSchema r) zod_error) (\<lambda>_.
                     select_file h (integrity ''A sealed input failed its integrity check.'') sc r)) files)
                  (eachA (\<lambda>(m, _). project_file h env sc m))) (\<lambda>_. I) (\<lambda>_. I) s"
  proof (rule delivers [OF assms])
    fix y :: "Metadata \<times> string" and A t
    assume "I t" "sealed_in A t" "fl_file_id (md_reference (fst y)) \<in> A"
    then show "wp (case y of (m, _) \<Rightarrow> project_file h env sc m) (\<lambda>_ t'. I t' \<and> sealed_in A t') (\<lambda>_. I) t"
      by (cases y) (simp add: projects)
  next
    fix x :: "HarnessInputFileReference \<times> file_delivery" and A t
    assume "I t" "sealed_in A t"
    have "wp (select_file h (integrity ''A sealed input failed its integrity check.'') sc (fst x))
        (\<lambda>y t'. (I t' \<and> sealed_in A t') \<and> sealed_in {fl_file_id (md_reference (fst y))} t') (\<lambda>_. I) t"
      using selects [OF \<open>I t\<close> \<open>sealed_in A t\<close>] by (rule wp_mono) simp_all
    then show "wp (case x of (r, _) \<Rightarrow> bindA (guardA (harnessInputFileReferenceSchema r) zod_error) (\<lambda>_.
             select_file h (integrity ''A sealed input failed its integrity check.'') sc r))
           (\<lambda>y t'. (I t' \<and> sealed_in A t') \<and> sealed_in {fl_file_id (md_reference (fst y))} t') (\<lambda>_. I) t"
      using \<open>I t\<close> by (cases x) (simp add: wp_simps)
  qed
  with assms show ?thesis by (simp add: materialize_files_def wp_simps)
qed

lemma images:
  assumes "I s"
  shows "wp (nativeImages h env sc references) (\<lambda>_. I) (\<lambda>_. I) s"
proof -
  have "wp (bindA (eachA (select_file h (integrity ''A sealed native image failed its integrity check.'') sc) references)
      (eachA (\<lambda>(m, bytes). bindA (retain_file env m) (\<lambda>_. returnA (md_reference m, b64_encode False bytes)))))
      (\<lambda>_. I) (\<lambda>_. I) s"
  proof (rule delivers [OF assms])
    fix y :: "Metadata \<times> string" and A t
    assume "I t" "sealed_in A t" "fl_file_id (md_reference (fst y)) \<in> A"
    from retain_files [OF this]
    show "wp (case y of (m, bytes) \<Rightarrow> bindA (retain_file env m) (\<lambda>_. returnA (md_reference m, b64_encode False bytes)))
      (\<lambda>_ t'. I t' \<and> sealed_in A t') (\<lambda>_. I) t"
      by (cases y) (simp add: wp_simps)
  next
    fix x :: HarnessInputFileReference and A t
    assume "I t" "sealed_in A t"
    from selects [OF this, of _ sc x]
    show "wp (select_file h (integrity ''A sealed native image failed its integrity check.'') sc x)
           (\<lambda>y t'. (I t' \<and> sealed_in A t') \<and> sealed_in {fl_file_id (md_reference (fst y))} t') (\<lambda>_. I) t"
      by (rule wp_mono) simp_all
  qed
  with assms show ?thesis by (simp add: nativeImages_def wp_simps)
qed

text \<open>Retiring a scope needs leave to drop its owner; forking only adds one.\<close>

definition may_retire :: "HarnessInputFileScope \<Rightarrow> bool" where
  "may_retire sc \<longleftrightarrow> (\<forall>m. owns m sc \<longrightarrow>
     (let remaining = filter (\<lambda>o'. o' \<noteq> sb_owner sc) (md_owners m) in
      if remaining = [] then may_delete m else may_change m (m\<lparr>md_owners := remaining\<rparr>)))"

lemma retires:
  assumes "I s" and "may_retire sc"
  shows "wp (retire env sc) (\<lambda>_. I) (\<lambda>_. I) s"
proof -
  have "wp (retire_entry env sc i) (\<lambda>_. I) (\<lambda>_. I) t" if "I t" for i t
  proof (cases "map_of (in_entries t) i")
    case (Some m)
    let ?m = "m\<lparr>md_owners := filter (\<lambda>o'. o' \<noteq> sb_owner sc) (md_owners m)\<rparr>"
    have keeps: "advances h t m ?m" if "md_owners ?m \<noteq> []"
      using store_okD(4) [OF ok [OF \<open>I t\<close>] Some] that length_filter_le [of "\<lambda>o'. o' \<noteq> sb_owner sc" "md_owners m"]
      by (auto simp: advances_def entry_ok_def metadataSchema_def list_all_iff Suc_le_eq simp del: length_filter_le)
    show ?thesis
    proof (cases "owns m sc")
      case True
      show ?thesis
      proof (cases "md_owners ?m = []")
        case True
        moreover have "may_delete m"
          using assms(2) \<open>owns m sc\<close> True by (auto simp: may_retire_def Let_def)
        ultimately show ?thesis
          using Some \<open>owns m sc\<close> deletes [OF that Some] by (simp add: retire_entry_def wp_simps)
      next
        case False
        moreover have "may_change m ?m"
          using assms(2) \<open>owns m sc\<close> False by (auto simp: may_retire_def Let_def)
        ultimately show ?thesis
          using Some \<open>owns m sc\<close> changes [OF that Some keeps] by (auto simp: retire_entry_def Let_def wp_simps)
      qed
    qed (use Some that in \<open>simp add: retire_entry_def wp_simps\<close>)
  qed (use that in \<open>simp add: retire_entry_def wp_simps\<close>)
  then have "wp (eachA (retire_entry env sc) ids) (\<lambda>_. I) (\<lambda>_. I) s" for ids
    using assms(1) by (intro wp_each_keeps)
  then show ?thesis by (simp add: retire_def wp_simps)
qed

lemma forks:
  assumes "I s"
  shows "wp (fork_files env sc target) (\<lambda>_. I) (\<lambda>_. I) s"
proof (cases "owner_text target")
  case True
  have "wp (fork_entry env sc target i) (\<lambda>_. I) (\<lambda>_. I) t" if "I t" for i t
  proof (cases "map_of (in_entries t) i")
    case (Some m)
    have "wp (change_and_save env (m\<lparr>md_owners := md_owners m @ [target]\<rparr>)) (\<lambda>_. I) (\<lambda>_. I) t"
      if "length (md_owners m) < 1024"
      using store_okD(4) [OF ok [OF \<open>I t\<close>] Some] that True
      by (intro changes [OF \<open>I t\<close> Some] grows) (auto simp: advances_def entry_ok_def metadataSchema_def)
    then show ?thesis using Some \<open>I t\<close> by (simp add: fork_entry_def wp_simps)
  qed (use that in \<open>simp add: fork_entry_def wp_simps\<close>)
  then have "wp (eachA (fork_entry env sc target) ids) (\<lambda>_. I) (\<lambda>_. I) s" for ids
    using assms by (intro wp_each_keeps)
  then show ?thesis using True by (simp add: fork_files_def wp_simps)
qed (use assms in \<open>simp add: fork_files_def wp_simps\<close>)

end

subsection \<open>Histories\<close>

datatype store_call =
    Operate HarnessInputFileScope string input_request
  | Materialize HarnessInputFileScope "(HarnessInputFileReference \<times> file_delivery) list"
  | Native_images HarnessInputFileScope "HarnessInputFileReference list"
  | Retire HarnessInputFileScope
  | Fork HarnessInputFileScope string
  | Reopen

definition after :: "'a input_act \<Rightarrow> InputStore \<Rightarrow> InputStore" where
  "after m s = (case m s of None \<Rightarrow> s | Some (_, s') \<Rightarrow> s')"

text \<open>The state a call leaves; a store that cannot be opened leaves the disk as it is.\<close>

fun input_call :: "(string \<Rightarrow> string) \<Rightarrow> io \<times> store_call \<Rightarrow> InputStore \<Rightarrow> InputStore" where
  "input_call h (env, Operate sc commandId request) s = after (operation h env sc commandId request) s"
| "input_call h (env, Materialize sc files) s = after (materialize_files h env sc files) s"
| "input_call h (env, Native_images sc references) s = after (nativeImages h env sc references) s"
| "input_call h (env, Retire sc) s = after (retire env sc) s"
| "input_call h (env, Fork sc target) s = after (fork_files env sc target) s"
| "input_call h (env, Reopen) s = (case OwnedHarnessInputFileStore env s of Inl _ \<Rightarrow> s | Inr s' \<Rightarrow> s')"

definition input_run :: "(string \<Rightarrow> string) \<Rightarrow> (io \<times> store_call) list \<Rightarrow> InputStore \<Rightarrow> InputStore" where
  "input_run h cs s = foldl (\<lambda>s c. input_call h c s) s cs"

lemma wp_after: "wp m (\<lambda>_. I) (\<lambda>_. I) s \<Longrightarrow> I (after m s)"
  by (auto simp: wp_def after_def split: option.splits prod.splits sum.splits)

lemma load_record_Inr:
  "load_record bodies rec = Inr e \<longleftrightarrow>
     (\<exists>m b. rec = (fl_file_id (md_reference m), Regular m) \<and> e = (fl_file_id (md_reference m), m) \<and> metadataSchema m
        \<and> length (render (metadata_json m)) \<le> 1024 * 1024
        \<and> map_of bodies (fl_file_id (md_reference m)) = Some (Regular b)
        \<and> length b \<le> fl_byte_length (md_reference m)
        \<and> (md_sealed m \<longrightarrow> length b = fl_byte_length (md_reference m)))"
  by (cases rec) (auto simp: load_record_def result_simps)

lemma load_records_map:
  "load_records bodies rs = Inr es \<Longrightarrow>
     map fst es = map fst rs \<and> (\<forall>i. map_of es i = (case map_of rs i of Some (Regular m) \<Rightarrow> Some m | _ \<Rightarrow> None))"
  by (induction rs arbitrary: es) (auto simp: result_simps load_record_Inr)

lemma load_records_exact:
  "load_records bodies rs = Inr es \<Longrightarrow> map (\<lambda>(i, m). (i, Regular m)) es = rs"
  by (induction rs arbitrary: es) (auto simp: result_simps load_record_Inr)

lemma records_known:
  assumes "store_ok h s"
  shows "length (in_records s) \<le> length (in_entries s)"
proof -
  have "dom (map_of (in_records s)) \<subseteq> dom (map_of (in_entries s))"
    using store_okD(5) [OF assms] by (fastforce simp: record_ok_def)
  then have "card (dom (map_of (in_records s))) \<le> card (dom (map_of (in_entries s)))"
    by (rule card_mono [OF finite_dom_map_of])
  then show ?thesis
    using store_okD(1,2) [OF assms] by (simp add: dom_map_of_conv_image_fst distinct_card flip: set_map)
qed

lemma opened_ok:
  assumes ok: "store_ok h s" and es: "load_records (in_bodies s) (in_records s) = Inr es"
  shows "store_ok h (s\<lparr>in_entries := es\<rparr>)"
proof -
  let ?t = "s\<lparr>in_entries := es\<rparr>"
  note keys = load_records_map [OF es, THEN conjunct1]
    and at = load_records_map [OF es, THEN conjunct2, rule_format]
  have from_record: "\<exists>m0. map_of (in_records s) i = Some (Regular m) \<and> map_of (in_entries s) i = Some m0 \<and> earlier m m0"
    if "map_of es i = Some m" for i m
    using that store_okD(5) [OF ok, of i] by (auto simp: at record_ok_def split: option.splits disk_node.splits)
  have "weight ?t i \<le> weight s i" if "i \<in> dom (map_of (in_bodies s))" for i
  proof (cases "map_of es i")
    case None
    then show ?thesis
      using store_okD(4) [OF ok, of i] by (auto simp: weight_def entry_ok_def split: option.split disk_node.split)
  next
    case (Some m)
    from from_record [OF this] Some show ?thesis by (auto simp: weight_def earlier_def)
  qed
  then have "total ?t \<le> total s" unfolding total_def by (simp add: sum_mono)
  moreover have "entry_ok h ?t i m" if "map_of es i = Some m" for i m
    using from_record [OF that] store_okD(4) [OF ok, of i] by (auto simp: entry_ok_def earlier_def)
  moreover have "record_ok ?t i n" if "map_of (in_records s) i = Some n" for i n
    using store_okD(5) [OF ok that] that by (auto simp: record_ok_def at earlier_def)
  moreover have "length es \<le> 1024"
    using records_known [OF ok] store_okD(7) [OF ok] keys by (metis le_trans length_map)
  ultimately show ?thesis
    using store_okD [OF ok] unfolding store_ok_def by (simp add: keys)
qed

lemma opens:
  assumes ok: "store_ok h s" and dir: "io_directory env (in_directory s) = None"
    and small: "list_all (\<lambda>(_, n). case n of Regular m \<Rightarrow> length (render (metadata_json m)) \<le> 1024 * 1024 | Irregular \<Rightarrow> True) (in_records s)"
  obtains es where "OwnedHarnessInputFileStore env s = Inr (s\<lparr>in_entries := es\<rparr>)"
    and "load_records (in_bodies s) (in_records s) = Inr es"
proof -
  have "\<exists>es. load_records (in_bodies s) rs = Inr es" if "set rs \<subseteq> set (in_records s)" for rs
    using that
  proof (induction rs)
    case (Cons r rs)
    obtain i n where r: "r = (i, n)" by fastforce
    then have rec: "map_of (in_records s) i = Some n" using Cons.prems store_okD(2) [OF ok] by simp
    from store_okD(5) [OF ok rec] obtain m m0 where m: "n = Regular m" "map_of (in_entries s) i = Some m0" "earlier m m0"
      by (auto simp: record_ok_def)
    have "(i, Regular m) \<in> set (in_records s)" using r m(1) Cons.prems by simp
    then have "length (render (metadata_json m)) \<le> 1024 * 1024"
      using small by (auto simp: list_all_iff)
    then have "load_record (in_bodies s) r = Inr (i, m)"
      using store_okD(4) [OF ok m(2)] m r unfolding load_record_Inr by (auto simp: entry_ok_def earlier_def intact_def)
    with Cons show ?case by auto
  qed simp
  then obtain es where es: "load_records (in_bodies s) (in_records s) = Inr es" by blast
  let ?t = "s\<lparr>in_entries := es\<rparr>"
  have ok': "store_ok h ?t" by (rule opened_ok) fact+
  obtain k where k: "sum_sizes (orphans ?t) = Inr k" using sizes_exist store_okD(3,6) [OF ok'] by metis
  have "map_of (in_bodies ?t) j \<noteq> None" if "map_of (in_entries ?t) j = Some m" for j m
    using store_okD(4) [OF ok' that] by (auto simp: entry_ok_def)
  then have "total ?t = reserved_bytes ?t + k" by (intro total_eq k store_okD(1,3) [OF ok']) simp
  then have "OwnedHarnessInputFileStore env s = Inr ?t"
    using dir es k store_okD(7,8) [OF ok']
    by (simp add: OwnedHarnessInputFileStore_def Let_def quota_def guardR_def HARNESS_INPUT_FILE_MAX_BYTES_def)
  then show thesis using es that by blast
qed

context store_invariant
begin

lemma calls:
  assumes "I s" and "call \<noteq> Reopen" and "case call of Retire sc \<Rightarrow> may_retire sc | _ \<Rightarrow> True"
  shows "I (input_call h (env, call) s)"
  using assms(2,3) wp_after [OF operates [OF assms(1)]] wp_after [OF materializes [OF assms(1)]]
    wp_after [OF images [OF assms(1)]] wp_after [OF retires [OF assms(1)]] wp_after [OF forks [OF assms(1)]]
  by (cases call) simp_all

end

interpretation well_formed: store_invariant h "\<lambda>s. store_ok h s \<and> (\<forall>t. sha256_text (h t))" "\<lambda>_ _. True" "\<lambda>_. True" for h
  by unfold_locales
     (auto intro: ok_set_entry ok_put_record ok_put_body ok_new_body ok_delete_record ok_delete_entry)

lemma reopened:
  assumes "store_ok h s"
  shows "input_call h (env, Reopen) s = s
    \<or> (\<exists>es. load_records (in_bodies s) (in_records s) = Inr es \<and> input_call h (env, Reopen) s = s\<lparr>in_entries := es\<rparr>
        \<and> store_ok h (s\<lparr>in_entries := es\<rparr>))"
  using assms opened_ok [OF assms]
  by (auto simp: OwnedHarnessInputFileStore_def Let_def result_simps split: sum.split option.splits)

lemma input_call_ok:
  assumes "store_ok h s" and "\<forall>t. sha256_text (h t)"
  shows "store_ok h (input_call h c s)"
proof -
  obtain env call where c: "c = (env, call)" by fastforce
  show ?thesis
  proof (cases "call = Reopen")
    case True
    with reopened [OF assms(1), of env] assms(1) c show ?thesis by auto
  next
    case False
    with well_formed.calls [of h s call env] assms c show ?thesis
      by (cases call) (simp_all add: well_formed.may_retire_def)
  qed
qed

lemma input_run_ok:
  assumes "store_ok h s" and "\<forall>t. sha256_text (h t)"
  shows "store_ok h (input_run h cs s)"
  unfolding input_run_def using assms
  by (induction cs arbitrary: s) (simp_all add: input_call_ok)

subsection \<open>Custody of delivered files\<close>

text \<open>
  File \<open>i\<close> with body \<open>b\<close> is durably retained for the owner \<open>ow\<close> of the binding \<open>sb\<close>: in memory and in the
  record on disk.
\<close>

definition held :: "scope_binding \<Rightarrow> string \<Rightarrow> string \<Rightarrow> HarnessInputFileReference \<Rightarrow> string \<Rightarrow> InputStore \<Rightarrow> bool" where
  "held sb ow i r b s \<longleftrightarrow>
     (\<exists>m m'. map_of (in_entries s) i = Some m \<and> md_retained m \<and> ow \<in> set (md_owners m)
        \<and> md_reference m = r \<and> scope_of (md_scope m) = sb
        \<and> map_of (in_records s) i = Some (Regular m') \<and> md_retained m' \<and> ow \<in> set (md_owners m')
        \<and> map_of (in_bodies s) i = Some (Regular b))"

interpretation custody: store_invariant h "\<lambda>s. store_ok h s \<and> (\<forall>t. sha256_text (h t)) \<and> held sb ow i r b s"
  "\<lambda>m m'. ow \<in> set (md_owners m) \<and> scope_of (md_scope m) = sb \<longrightarrow> ow \<in> set (md_owners m')"
  "\<lambda>m. \<not> (md_retained m \<and> ow \<in> set (md_owners m) \<and> scope_of (md_scope m) = sb)" for h sb ow i r b
proof unfold_locales
  fix s j m m'
  assume I: "store_ok h s \<and> (\<forall>t. sha256_text (h t)) \<and> held sb ow i r b s" and j: "map_of (in_entries s) j = Some m"
  show "store_ok h (set_entry j m' s) \<and> (\<forall>t. sha256_text (h t)) \<and> held sb ow i r b (set_entry j m' s)"
    if "advances h s m m'" "ow \<in> set (md_owners m) \<and> scope_of (md_scope m) = sb \<longrightarrow> ow \<in> set (md_owners m')"
    using I j that ok_set_entry [OF _ j that(1)] by (auto simp: held_def js_map advances_def)
  show "store_ok h (put_record j m s) \<and> (\<forall>t. sha256_text (h t)) \<and> held sb ow i r b (put_record j m s)"
    using I j ok_put_record [OF _ j] by (auto simp: held_def js_map)
  show "store_ok h (put_body j b' s) \<and> (\<forall>t. sha256_text (h t)) \<and> held sb ow i r b (put_body j b' s)"
    if "\<not> md_sealed m" "length b' \<le> fl_byte_length (md_reference m)" for b'
  proof -
    have "j \<noteq> i" using I j that(1) store_okD(4) [of h s i] by (auto simp: held_def entry_ok_def)
    with I j that show ?thesis using ok_put_body [of h s j m b'] by (auto simp: held_def js_map)
  qed
  assume gone: "\<not> (md_retained m \<and> ow \<in> set (md_owners m) \<and> scope_of (md_scope m) = sb)"
  then have ji: "j \<noteq> i" using I j by (auto simp: held_def)
  with I show "store_ok h (s\<lparr>in_records := AList.delete j (in_records s)\<rparr>) \<and> (\<forall>t. sha256_text (h t))
      \<and> held sb ow i r b (s\<lparr>in_records := AList.delete j (in_records s)\<rparr>)"
    using ok_delete_record [of h s j] by (auto simp: held_def js_map)
  show "store_ok h (s\<lparr>in_bodies := AList.delete j (in_bodies s), in_entries := AList.delete j (in_entries s)\<rparr>)
      \<and> (\<forall>t. sha256_text (h t))
      \<and> held sb ow i r b (s\<lparr>in_bodies := AList.delete j (in_bodies s), in_entries := AList.delete j (in_entries s)\<rparr>)"
    if "map_of (in_records s) j = None"
    using I ji ok_delete_entry [of h s j] that by (auto simp: held_def js_map)
next
  fix s j
  assume I: "store_ok h s \<and> (\<forall>t. sha256_text (h t)) \<and> held sb ow i r b s"
  show "store_ok h (put_body j [] s) \<and> (\<forall>t. sha256_text (h t)) \<and> held sb ow i r b (put_body j [] s)"
    if "map_of (in_bodies s) j = None"
    using I that ok_new_body [of h s j] by (auto simp: held_def js_map)
  show "store_ok h (set_entry j m (put_record j m s)) \<and> (\<forall>t. sha256_text (h t)) \<and> held sb ow i r b (set_entry j m (put_record j m s))"
    if "map_of (in_entries s) j = None" "store_ok h (set_entry j m (put_record j m s))" for m
    using I that by (auto simp: held_def js_map)
qed (auto simp: held_def)

definition spares :: "scope_binding \<Rightarrow> string \<Rightarrow> store_call \<Rightarrow> bool" where
  "spares sb ow call = (case call of Retire sc \<Rightarrow> \<not> (sb_owner sc = ow \<and> scope_of sc = sb) | _ \<Rightarrow> True)"

lemma spared_retire:
  assumes "spares sb ow (Retire sc)"
  shows "custody.may_retire ow sb sc"
  unfolding custody.may_retire_def
  using assms by (auto simp: spares_def owns_def Let_def filter_empty_conv)

lemma input_call_holds:
  assumes ok: "store_ok h s" "\<forall>t. sha256_text (h t)" and held: "held sb ow i r b s" and "spares sb ow (snd c)"
  shows "held sb ow i r b (input_call h c s)"
proof -
  obtain env call where c: "c = (env, call)" by fastforce
  show ?thesis
  proof (cases "call = Reopen")
    case False
    have "case call of Retire sc \<Rightarrow> custody.may_retire ow sb sc | _ \<Rightarrow> True"
      using assms(4) c spared_retire [of sb ow] by (cases call) simp_all
    from custody.calls [OF _ False this, where h = h and s = s and i = i and r = r and b = b and env = env] ok held c show ?thesis by simp
  next
    case True
    from reopened [OF ok(1), of env] show ?thesis
    proof
      assume "input_call h (env, Reopen) s = s"
      with True c held show ?thesis by simp
    next
      assume "\<exists>es. load_records (in_bodies s) (in_records s) = Inr es \<and> input_call h (env, Reopen) s = s\<lparr>in_entries := es\<rparr>
        \<and> store_ok h (s\<lparr>in_entries := es\<rparr>)"
      then obtain es where es: "load_records (in_bodies s) (in_records s) = Inr es"
        and call: "input_call h (env, Reopen) s = s\<lparr>in_entries := es\<rparr>" by blast
      from held obtain m m' where m: "map_of (in_entries s) i = Some m" "map_of (in_records s) i = Some (Regular m')"
        and "md_retained m'" "ow \<in> set (md_owners m')" "md_reference m = r" "scope_of (md_scope m) = sb"
        and "map_of (in_bodies s) i = Some (Regular b)" by (auto simp: held_def)
      moreover have "earlier m' m" using store_okD(5) [OF ok(1) m(2)] m by (auto simp: record_ok_def)
      moreover have "map_of es i = Some m'" using load_records_map [OF es] m(2) by simp
      ultimately show ?thesis using True c call by (auto simp: held_def earlier_def)
    qed
  qed
qed

lemma input_run_holds:
  assumes "store_ok h s" "\<forall>t. sha256_text (h t)" and "held sb ow i r b s"
    and "list_all (\<lambda>c. spares sb ow (snd c)) cs"
  shows "held sb ow i r b (input_run h cs s)"
  using assms
proof (induction cs arbitrary: s)
  case (Cons c cs)
  then have "held sb ow i r b (input_call h c s)" "store_ok h (input_call h c s)"
    by (simp_all add: input_call_holds input_call_ok)
  with Cons show ?case by (simp add: input_run_def)
qed (simp add: input_run_def)

subsection \<open>Delivery\<close>

text \<open>
  What holds of a file after it has been handed out, in whatever state the store and its disk were
  before: an owned, sealed entry that is durably retained, with the very bytes of its declaration.
\<close>

definition handed_out :: "(string \<Rightarrow> string) \<Rightarrow> HarnessInputFileScope \<Rightarrow> HarnessInputFileReference \<Rightarrow> string \<Rightarrow> InputStore \<Rightarrow> bool" where
  "handed_out h sc r b s \<longleftrightarrow>
     held (scope_of sc) (sb_owner sc) (fl_file_id r) r b s \<and> intact h r b
     \<and> (\<exists>m. map_of (in_entries s) (fl_file_id r) = Some m \<and> md_sealed m)"

text \<open>A selected file: everything but the retention.\<close>

definition selected :: "(string \<Rightarrow> string) \<Rightarrow> HarnessInputFileScope \<Rightarrow> HarnessInputFileReference \<Rightarrow> string \<Rightarrow> InputStore \<Rightarrow> bool" where
  "selected h sc r b s \<longleftrightarrow>
     intact h r b \<and> map_of (in_bodies s) (fl_file_id r) = Some (Regular b)
     \<and> (\<exists>m. map_of (in_entries s) (fl_file_id r) = Some m \<and> md_sealed m \<and> owns m sc \<and> md_reference m = r)"

lemma select_selects:
  "wp (select_file h damaged sc r) (\<lambda>y s'. s' = s \<and> md_reference (fst y) = r \<and> selected h sc r (snd y) s') (\<lambda>_ _. True) s"
  by (auto simp: select_file_def entry_bytes_def body_bytes_def selected_def wp_simps result_simps
      dest: require_Inr split: sum.split if_splits)

lemma retain_selected:
  assumes sel: "selected h sc r b s" and m: "map_of (in_entries s) (fl_file_id r) = Some m"
  shows "wp (change_and_save env (m\<lparr>md_retained := True\<rparr>)) (\<lambda>_. handed_out h sc r b) (\<lambda>_ _. True) s"
  using sel m
  by (intro wp_change_and_save [where i = "fl_file_id r"])
     (auto simp: selected_def handed_out_def held_def owns_def js_map)

text \<open>Retaining one file leaves what is selected or handed out as it is.\<close>

lemma selected_update:
  assumes "selected h sc r b s" and "map_of (in_entries s) i = Some m"
    and "map_of (in_entries t) = (map_of (in_entries s))(i \<mapsto> m\<lparr>md_retained := True\<rparr>)" and "in_bodies t = in_bodies s"
  shows "selected h sc r b t"
  using assms by (auto simp: selected_def owns_def)

lemma handed_out_update:
  assumes "handed_out h sc r b s" and "map_of (in_entries s) i = Some m"
    and "map_of (in_entries t) = (map_of (in_entries s))(i \<mapsto> m\<lparr>md_retained := True\<rparr>)" and "in_bodies t = in_bodies s"
    and "map_of (in_records t) = (map_of (in_records s))(i \<mapsto> Regular (m\<lparr>md_retained := True\<rparr>))"
  shows "handed_out h sc r b t"
  using assms by (auto simp: handed_out_def held_def)

lemma wp_retain:
  assumes "map_of (in_entries s) i = Some m" and "fl_file_id (md_reference m) = i"
    and "\<And>t. map_of (in_entries t) = (map_of (in_entries s))(i \<mapsto> m\<lparr>md_retained := True\<rparr>) \<Longrightarrow> in_bodies t = in_bodies s
       \<Longrightarrow> in_native t = in_native s
       \<Longrightarrow> map_of (in_records t) = (map_of (in_records s))(i \<mapsto> Regular (m\<lparr>md_retained := True\<rparr>)) \<Longrightarrow> P t"
  shows "wp (change_and_save env (m\<lparr>md_retained := True\<rparr>)) (\<lambda>_. P) (\<lambda>_ _. True) s"
  using assms by (intro wp_change_and_save [where i = i]) (simp_all add: js_map)

lemma retain_keeps:
  assumes "map_of (in_entries s) i = Some m" and "fl_file_id (md_reference m) = i"
  shows "selected h sc r b s \<Longrightarrow> wp (change_and_save env (m\<lparr>md_retained := True\<rparr>)) (\<lambda>_. selected h sc r b) (\<lambda>_ _. True) s"
    and "handed_out h sc r b s \<Longrightarrow> wp (change_and_save env (m\<lparr>md_retained := True\<rparr>)) (\<lambda>_. handed_out h sc r b) (\<lambda>_ _. True) s"
  by (rule wp_retain [OF assms]; rule selected_update handed_out_update; (assumption | rule assms))+

lemma wp_place:
  assumes "\<And>x. map_of (in_native s) \<subseteq>\<^sub>m map_of x \<Longrightarrow> map_of x path = Some (Regular bytes) \<Longrightarrow> P (s\<lparr>in_native := x\<rparr>)"
  shows "wp (place_native env path bytes) (\<lambda>_. P) (\<lambda>_ _. True) s"
proof (cases "map_of (in_native s) path")
  case None
  then have "P (s\<lparr>in_native := AList.update path (Regular bytes) (in_native s)\<rparr>)"
    by (intro assms) (auto simp: js_map map_le_def)
  with None show ?thesis by (simp add: place_native_def wp_simps split: option.split)
next
  case (Some n)
  then show ?thesis
    using assms [of "in_native s"] by (auto simp: place_native_def wp_simps result_simps split: sum.split)
qed

lemma same_files [simp]:
  "selected h sc r b (s\<lparr>in_native := x\<rparr>) = selected h sc r b s"
  "handed_out h sc r b (s\<lparr>in_native := x\<rparr>) = handed_out h sc r b s"
  by (simp_all add: selected_def handed_out_def held_def)

definition all_selected :: "(string \<Rightarrow> string) \<Rightarrow> HarnessInputFileScope \<Rightarrow> (Metadata \<times> string) list \<Rightarrow> InputStore \<Rightarrow> bool" where
  "all_selected h sc ys s \<longleftrightarrow> (\<forall>(m, b) \<in> set ys. selected h sc (md_reference m) b s)"

lemma retains_selected:
  assumes ys: "all_selected h sc ys s" and y: "(x, b) \<in> set ys"
    and m: "map_of (in_entries s) (fl_file_id (md_reference x)) = Some m"
  shows "wp (change_and_save env (m\<lparr>md_retained := True\<rparr>))
    (\<lambda>_ t. all_selected h sc ys t \<and> handed_out h sc (md_reference x) b t \<and> in_native t = in_native s) (\<lambda>_ _. True) s"
proof -
  have sel: "selected h sc (md_reference x) b s" using ys y by (auto simp: all_selected_def)
  then have id: "fl_file_id (md_reference m) = fl_file_id (md_reference x)" using m by (auto simp: selected_def)
  show ?thesis
  proof (rule wp_retain [OF m id])
    fix t :: InputStore
    assume t: "map_of (in_entries t) = (map_of (in_entries s))(fl_file_id (md_reference x) \<mapsto> m\<lparr>md_retained := True\<rparr>)"
        "in_bodies t = in_bodies s" "in_native t = in_native s"
        "map_of (in_records t) = (map_of (in_records s))(fl_file_id (md_reference x) \<mapsto> Regular (m\<lparr>md_retained := True\<rparr>))"
    have "all_selected h sc ys t"
      using ys selected_update [OF _ m t(1,2)] by (auto simp: all_selected_def)
    moreover have "handed_out h sc (md_reference x) b t"
      using sel m t by (auto simp: selected_def handed_out_def held_def owns_def)
    ultimately show "all_selected h sc ys t \<and> handed_out h sc (md_reference x) b t \<and> in_native t = in_native s"
      using t(3) by simp
  qed
qed

lemma retain_keeps_delivered:
  assumes "all_selected h sc ys s" and y: "(x, b') \<in> set ys" and "handed_out h sc r b s"
    and m: "map_of (in_entries s) (fl_file_id (md_reference x)) = Some m"
  shows "wp (change_and_save env (m\<lparr>md_retained := True\<rparr>)) (\<lambda>_. handed_out h sc r b) (\<lambda>_ _. True) s"
proof -
  have "fl_file_id (md_reference m) = fl_file_id (md_reference x)"
    using assms(1) y m by (auto simp: all_selected_def selected_def)
  with m show ?thesis by (rule retain_keeps(2)) fact
qed

lemma selected_entry:
  assumes "all_selected h sc ys s" and "(x, b) \<in> set ys"
  obtains m where "map_of (in_entries s) (fl_file_id (md_reference x)) = Some m" "md_reference m = md_reference x"
  using assms by (auto simp: all_selected_def selected_def)

lemma images_handed_out:
  assumes "all_selected h sc ys s"
  shows "wp (eachA (\<lambda>(m, bytes). bindA (retain_file env m) (\<lambda>_. returnA (md_reference m, b64_encode False bytes))) ys)
    (\<lambda>out t. all_selected h sc ys t
       \<and> list_all2 (\<lambda>y z. z = (md_reference (fst y), b64_encode False (snd y)) \<and> handed_out h sc (md_reference (fst y)) (snd y) t) ys out)
    (\<lambda>_ _. True) s"
proof (rule wp_each)
  fix y t assume y: "y \<in> set ys" and t: "all_selected h sc ys t"
  obtain x b where xb: "y = (x, b)" by fastforce
  obtain m where m: "map_of (in_entries t) (fl_file_id (md_reference x)) = Some m"
    using selected_entry [OF t] y xb by blast
  show "wp (case y of (m, bytes) \<Rightarrow> bindA (retain_file env m) (\<lambda>_. returnA (md_reference m, b64_encode False bytes)))
     (\<lambda>z t'. all_selected h sc ys t' \<and> z = (md_reference (fst y), b64_encode False (snd y)) \<and> handed_out h sc (md_reference (fst y)) (snd y) t')
     (\<lambda>_ _. True) t"
    using retains_selected [OF t _ m, of b env] y xb m
    by (auto simp: retain_file_def wp_simps elim!: wp_mono)
next
  fix y u z t assume z: "z \<in> set ys" and t: "all_selected h sc ys t"
    and done': "u = (md_reference (fst y), b64_encode False (snd y)) \<and> handed_out h sc (md_reference (fst y)) (snd y) t"
  obtain x b where xb: "z = (x, b)" by fastforce
  obtain m where m: "map_of (in_entries t) (fl_file_id (md_reference x)) = Some m"
    using selected_entry [OF t] z xb by blast
  show "wp (case z of (m, bytes) \<Rightarrow> bindA (retain_file env m) (\<lambda>_. returnA (md_reference m, b64_encode False bytes)))
     (\<lambda>_ t'. u = (md_reference (fst y), b64_encode False (snd y)) \<and> handed_out h sc (md_reference (fst y)) (snd y) t') (\<lambda>_ _. True) t"
    using retain_keeps_delivered [OF t _ conjunct2 [OF done'] m, of b env] z xb m done'
    by (auto simp: retain_file_def wp_simps elim!: wp_mono)
qed fact

text \<open>A materialised file: handed out, and in the workspace under the path that is reported.\<close>

definition materialized :: "(string \<Rightarrow> string) \<Rightarrow> HarnessInputFileScope \<Rightarrow> HarnessInputFileReference \<Rightarrow> string \<Rightarrow> delivered_file \<Rightarrow> InputStore \<Rightarrow> bool" where
  "materialized h sc r b f s \<longleftrightarrow>
     dl_reference f = r \<and> handed_out h sc r b s \<and> map_of (in_native s) (dl_path f) = Some (Regular b)"

lemma projects_selected:
  assumes ys: "all_selected h sc ys s" and y: "(x, b) \<in> set ys"
  shows "wp (project_file h env sc x)
    (\<lambda>f t. all_selected h sc ys t \<and> materialized h sc (md_reference x) b f t \<and> map_of (in_native s) \<subseteq>\<^sub>m map_of (in_native t))
    (\<lambda>_ _. True) s"
proof -
  let ?i = "fl_file_id (md_reference x)"
  obtain m where m: "map_of (in_entries s) ?i = Some m" and r: "md_reference m = md_reference x"
    using selected_entry [OF assms] by blast
  have b: "map_of (in_bodies s) ?i = Some (Regular b)" and len: "intact h (md_reference x) b"
    using assms by (auto simp: all_selected_def selected_def)
  let ?Q = "\<lambda>f t. all_selected h sc ys t \<and> materialized h sc (md_reference x) b f t \<and> map_of (in_native s) \<subseteq>\<^sub>m map_of (in_native t)"
  have "wp (place_native env (nativePath m) b)
      (\<lambda>_. wp (bindA (change_and_save env (m\<lparr>md_retained := True\<rparr>)) (\<lambda>_. returnA \<lparr>dl_reference = md_reference m, dl_path = nativePath m\<rparr>)) ?Q (\<lambda>_ _. True))
      (\<lambda>_ _. True) s"
  proof (rule wp_place)
    fix n assume n: "map_of (in_native s) \<subseteq>\<^sub>m map_of n" "map_of n (nativePath m) = Some (Regular b)"
    have "all_selected h sc ys (s\<lparr>in_native := n\<rparr>)" using ys by (simp add: all_selected_def)
    from retains_selected [OF this y, of m env] m n r
    show "wp (bindA (change_and_save env (m\<lparr>md_retained := True\<rparr>)) (\<lambda>_. returnA \<lparr>dl_reference = md_reference m, dl_path = nativePath m\<rparr>))
        ?Q (\<lambda>_ _. True) (s\<lparr>in_native := n\<rparr>)"
      by (auto simp: wp_simps materialized_def elim!: wp_mono)
  qed
  moreover have "entry_bytes m s = Inr b \<or> (\<exists>e. entry_bytes m s = Inl e)"
    using b r by (simp add: entry_bytes_def body_bytes_def)
  ultimately show ?thesis
    using m r len
    by (auto simp: project_file_def Let_def check_directory_def wp_simps split: option.split sum.split)
qed

lemma project_keeps_materialized:
  assumes ys: "all_selected h sc ys s" and y: "(x, b') \<in> set ys" and done': "materialized h sc r b f s"
  shows "wp (project_file h env sc x) (\<lambda>_. materialized h sc r b f) (\<lambda>_ _. True) s"
proof -
  let ?i = "fl_file_id (md_reference x)"
  obtain m where m: "map_of (in_entries s) ?i = Some m" and r: "md_reference m = md_reference x"
    using selected_entry [OF ys y] by blast
  have "wp (place_native env (nativePath m) bytes)
      (\<lambda>_. wp (bindA (change_and_save env (m\<lparr>md_retained := True\<rparr>)) (\<lambda>_. returnA g)) (\<lambda>_. materialized h sc r b f) (\<lambda>_ _. True))
      (\<lambda>_ _. True) s" for bytes g
  proof (rule wp_place)
    fix n assume n: "map_of (in_native s) \<subseteq>\<^sub>m map_of n"
    let ?s = "s\<lparr>in_native := n\<rparr>"
    have "handed_out h sc r b ?s" "map_of n (dl_path f) = Some (Regular b)"
      using done' n by (auto simp: materialized_def map_le_def dom_def)
    then show "wp (bindA (change_and_save env (m\<lparr>md_retained := True\<rparr>)) (\<lambda>_. returnA g)) (\<lambda>_. materialized h sc r b f) (\<lambda>_ _. True) ?s"
      unfolding wp_bind wp_basic materialized_def
      using m r done'
      by (intro wp_retain [where i = ?i]) (auto simp: materialized_def intro: handed_out_update)
  qed
  with m show ?thesis
    by (auto simp: project_file_def Let_def check_directory_def wp_simps split: option.split sum.split)
qed

lemma files_materialized:
  assumes "all_selected h sc ys s"
  shows "wp (eachA (\<lambda>(m, _). project_file h env sc m) ys)
    (\<lambda>fs t. all_selected h sc ys t \<and> list_all2 (\<lambda>y f. materialized h sc (md_reference (fst y)) (snd y) f t) ys fs)
    (\<lambda>_ _. True) s"
proof (rule wp_each)
  fix y t assume y: "y \<in> set ys" and t: "all_selected h sc ys t"
  obtain x b where xb: "y = (x, b)" by fastforce
  have "wp (project_file h env sc x) (\<lambda>f t'. all_selected h sc ys t' \<and> materialized h sc (md_reference x) b f t') (\<lambda>_ _. True) t"
    by (rule wp_mono [OF projects_selected [OF t, of x b env]]) (use y xb in auto)
  then show "wp (case y of (m, _) \<Rightarrow> project_file h env sc m)
      (\<lambda>f t'. all_selected h sc ys t' \<and> materialized h sc (md_reference (fst y)) (snd y) f t') (\<lambda>_ _. True) t"
    by (simp add: xb)
next
  fix y f z t assume z: "z \<in> set ys" and t: "all_selected h sc ys t" "materialized h sc (md_reference (fst y)) (snd y) f t"
  obtain x b where xb: "z = (x, b)" by fastforce
  show "wp (case z of (m, _) \<Rightarrow> project_file h env sc m) (\<lambda>_. materialized h sc (md_reference (fst y)) (snd y) f) (\<lambda>_ _. True) t"
    using project_keeps_materialized [OF t(1) _ t(2), of x b env] z by (simp add: xb)
qed fact

lemma all_select:
  fixes sel :: "'x \<Rightarrow> (Metadata \<times> string) input_act"
  assumes "\<And>x. wp (sel x) (\<lambda>y s'. s' = s \<and> md_reference (fst y) = g x \<and> selected h sc (g x) (snd y) s') (\<lambda>_ _. True) s"
  shows "wp (eachA sel xs)
     (\<lambda>ys t. t = s \<and> map (md_reference \<circ> fst) ys = map g xs \<and> all_selected h sc ys t) (\<lambda>_ _. True) s"
proof (induction xs)
  case Nil
  show ?case unfolding eachA.simps wp_basic by (simp add: all_selected_def)
next
  case (Cons x xs)
  show ?case
    unfolding eachA.simps wp_bind wp_basic
  proof (rule wp_mono [OF assms])
    fix y :: "Metadata \<times> string" and t
    assume y: "t = s \<and> md_reference (fst y) = g x \<and> selected h sc (g x) (snd y) t"
    then have t: "t = s" by simp
    show "wp (eachA sel xs)
        (\<lambda>ys t. t = s \<and> map (md_reference \<circ> fst) (y # ys) = map g (x # xs) \<and> all_selected h sc (y # ys) t) (\<lambda>_ _. True) t"
      unfolding t by (rule wp_mono [OF Cons.IH]) (use y in \<open>auto simp: all_selected_def comp_def\<close>)
  qed simp
qed

lemma materialize_files_wp:
  "wp (materialize_files h env sc files)
     (\<lambda>fs t. list_all2 (\<lambda>(r, _) f. \<exists>b. materialized h sc r b f t) files fs) (\<lambda>_ _. True) s"
proof -
  let ?sel = "\<lambda>(r, _). bindA (guardA (harnessInputFileReferenceSchema r) zod_error) (\<lambda>_.
      select_file h (integrity ''A sealed input failed its integrity check.'') sc r)"
  have "wp (?sel x) (\<lambda>y s'. s' = s \<and> md_reference (fst y) = fst x \<and> selected h sc (fst x) (snd y) s') (\<lambda>_ _. True) s" for x
    using select_selects [of h "integrity ''A sealed input failed its integrity check.''" sc "fst x" s]
    by (cases x) (simp add: wp_simps)
  from all_select [where sel = ?sel and g = fst, OF this, of files]
  have "wp (eachA ?sel files)
      (\<lambda>ys. wp (eachA (\<lambda>(m, _). project_file h env sc m) ys)
              (\<lambda>fs t. list_all2 (\<lambda>(r, _) f. \<exists>b. materialized h sc r b f t) files fs) (\<lambda>_ _. True)) (\<lambda>_ _. True) s"
  proof (rule wp_mono)
    fix ys t assume ys: "t = s \<and> map (md_reference \<circ> fst) ys = map fst files \<and> all_selected h sc ys t"
    have "list_all2 (\<lambda>(r, _) f. \<exists>b. materialized h sc r b f t') files fs"
      if "list_all2 (\<lambda>y f. materialized h sc (md_reference (fst y)) (snd y) f t') ys fs" for fs t'
    proof -
      have len: "length ys = length files" using ys by (metis length_map)
      have "md_reference (fst (ys ! k)) = fst (files ! k)" if "k < length files" for k
        using ys that len by (metis (no_types, lifting) comp_apply nth_map)
      with that len show ?thesis by (fastforce simp: list_all2_conv_all_nth split_def)
    qed
    then show "wp (eachA (\<lambda>(m, _). project_file h env sc m) ys)
              (\<lambda>fs t. list_all2 (\<lambda>(r, _) f. \<exists>b. materialized h sc r b f t) files fs) (\<lambda>_ _. True) t"
      using ys by (intro wp_mono [OF files_materialized]) auto
  qed simp
  then show ?thesis by (simp add: materialize_files_def wp_simps)
qed

lemma nativeImages_wp:
  "wp (nativeImages h env sc rs)
     (\<lambda>out t. list_all2 (\<lambda>r (r', data). r' = r \<and> (\<exists>b. data = b64_encode False b \<and> handed_out h sc r b t)) rs out) (\<lambda>_ _. True) s"
proof -
  let ?sel = "select_file h (integrity ''A sealed native image failed its integrity check.'') sc"
  let ?out = "\<lambda>(m, bytes). bindA (retain_file env m) (\<lambda>_. returnA (md_reference m, b64_encode False bytes))"
  from all_select [where sel = ?sel and g = "\<lambda>r. r", OF select_selects, of rs]
  have "wp (eachA ?sel rs) (\<lambda>ys. wp (eachA ?out ys)
      (\<lambda>out t. list_all2 (\<lambda>r (r', data). r' = r \<and> (\<exists>b. data = b64_encode False b \<and> handed_out h sc r b t)) rs out) (\<lambda>_ _. True)) (\<lambda>_ _. True) s"
  proof (rule wp_mono)
    fix ys t assume ys: "t = s \<and> map (md_reference \<circ> fst) ys = map (\<lambda>r. r) rs \<and> all_selected h sc ys t"
    have "list_all2 (\<lambda>r (r', data). r' = r \<and> (\<exists>b. data = b64_encode False b \<and> handed_out h sc r b t')) rs out"
      if "list_all2 (\<lambda>y z. z = (md_reference (fst y), b64_encode False (snd y)) \<and> handed_out h sc (md_reference (fst y)) (snd y) t') ys out" for out t'
    proof -
      have len: "length ys = length rs" using ys by (metis length_map)
      have "md_reference (fst (ys ! k)) = rs ! k" if "k < length rs" for k
        using ys that len by (metis (no_types, lifting) comp_apply nth_map)
      with that len show ?thesis by (fastforce simp: list_all2_conv_all_nth)
    qed
    then show "wp (eachA ?out ys)
      (\<lambda>out t. list_all2 (\<lambda>r (r', data). r' = r \<and> (\<exists>b. data = b64_encode False b \<and> handed_out h sc r b t)) rs out) (\<lambda>_ _. True) t"
      using ys by (intro wp_mono [OF images_handed_out]) auto
  qed simp
  then show ?thesis by (simp add: nativeImages_def wp_simps)
qed

lemma materialize_wp:
  "wp (materialize h env sc files)
     (\<lambda>text t. \<exists>fs. text = context_text fs \<and> list_all2 (\<lambda>(r, _) f. \<exists>b. materialized h sc r b f t) files fs) (\<lambda>_ _. True) s"
  unfolding materialize_def wp_bind wp_basic by (rule wp_mono [OF materialize_files_wp]) auto

lemma materialize_state:
  assumes "materialize h env sc files s = Some (Inr text, s')"
  shows "s' = after (materialize_files h env sc files) s"
  using assms by (auto simp: materialize_def bindA_def after_def split: option.splits prod.splits sum.splits)

subsection \<open>The exact upload\<close>

text \<open>An upload that has received \<open>b\<close> so far, with its record on disk.\<close>

definition receiving :: "HarnessInputFileScope \<Rightarrow> Metadata \<Rightarrow> string \<Rightarrow> InputStore \<Rightarrow> bool" where
  "receiving sc m b s \<longleftrightarrow>
     (let i = fl_file_id (md_reference m) in
      map_of (in_entries s) i = Some m \<and> map_of (in_records s) i = Some (Regular m)
      \<and> map_of (in_bodies s) i = Some (Regular b) \<and> owns m sc \<and> \<not> md_sealed m \<and> \<not> md_retained m \<and> sha256_text i)"

definition proper_chunk :: "string \<Rightarrow> bool" where
  "proper_chunk c \<longleftrightarrow> c \<noteq> [] \<and> length c \<le> HARNESS_INPUT_FILE_CHUNK_BYTES"

lemma chunk_encoded:
  assumes "proper_chunk c"
  shows "chunk_text (b64_encode False c)"
proof -
  have "1 \<le> length c" "length c \<le> 65536"
    using assms by (auto simp: proper_chunk_def HARNESS_INPUT_FILE_CHUNK_BYTES_def Suc_le_eq)
  then have "1 \<le> (length c + 2) div 3" "(length c + 2) div 3 \<le> 21846" by linarith+
  then show ?thesis using assms by (simp add: chunk_text_def b64_length b64_roundtrip proper_chunk_def)
qed

lemma require_receiving: "receiving sc m b s \<Longrightarrow> require sc (fl_file_id (md_reference m)) s = Inr m"
  by (simp add: receiving_def Let_def require_def body_bytes_def)

lemma receiving_put:
  "receiving sc m b s \<Longrightarrow> receiving sc m b' (put_body (fl_file_id (md_reference m)) b' s)"
  by (simp add: receiving_def Let_def js_map)

lemma appends_next:
  assumes r: "receiving sc m b s" and c: "proper_chunk c" and room: "length b + length c \<le> fl_byte_length (md_reference m)"
    and io: "io_fails env (Append_body (fl_file_id (md_reference m))) = None"
  shows "receiving sc m (b @ c)
    (input_call h (env, Operate sc cmd (Append (fl_file_id (md_reference m)) (length b) (b64_encode False c))) s)"
proof -
  let ?i = "fl_file_id (md_reference m)"
  have body: "map_of (in_bodies s) ?i = Some (Regular b)" and i: "sha256_text ?i" "\<not> md_sealed m"
    using r by (auto simp: receiving_def Let_def)
  have "append_chunk env m (length b) (b64_encode False c) s
      = Some (Inr \<lparr>fr_action = Act_append, fr_reference = md_reference m, fr_received_bytes = length b + length c,
                   fr_state = Uploading\<rparr>, put_body ?i (b @ c) s)"
    using r c room io body i
    by (simp add: append_chunk_def append_bytes_def bindA_def guardA_def modifyA_def body_bytes_def result_of_def
        b64_roundtrip proper_chunk_def receiving_def Let_def js_map)
  then have "input_call h (env, Operate sc cmd (Append ?i (length b) (b64_encode False c))) s = put_body ?i (b @ c) s"
    using i chunk_encoded [OF c] require_receiving [OF r]
    by (simp add: after_def operation_def bindA_def guardA_def harnessInputFileOperationSchema_def)
  then show ?thesis using receiving_put [OF r] by simp
qed

lemma appends_again:
  assumes r: "receiving sc m b s" and c: "proper_chunk c" and there: "take (length c) (drop off b) = c"
  shows "receiving sc m b
    (input_call h (env, Operate sc cmd (Append (fl_file_id (md_reference m)) off (b64_encode False c))) s)"
proof -
  let ?i = "fl_file_id (md_reference m)"
  have body: "map_of (in_bodies s) ?i = Some (Regular b)" and i: "sha256_text ?i" "\<not> md_sealed m"
    using r by (auto simp: receiving_def Let_def)
  have "length c \<le> length b - off" using arg_cong [OF there, of length] by simp
  then have "off + length c \<le> length b" using c by (cases c) (auto simp: proper_chunk_def)
  then have "append_chunk env m off (b64_encode False c) s
      = Some (Inr \<lparr>fr_action = Act_append, fr_reference = md_reference m, fr_received_bytes = length b,
                   fr_state = Uploading\<rparr>, s)"
    using r c there body i
    by (simp add: append_chunk_def bindA_def guardA_def body_bytes_def result_of_def b64_roundtrip proper_chunk_def
        receiving_def Let_def)
  then have "input_call h (env, Operate sc cmd (Append ?i off (b64_encode False c))) s = s"
    using i chunk_encoded [OF c] require_receiving [OF r]
    by (simp add: after_def operation_def bindA_def guardA_def harnessInputFileOperationSchema_def)
  then show ?thesis using r by simp
qed

lemma receiving_reopened:
  assumes r: "receiving sc m b s"
  shows "receiving sc m b (input_call h (env, Reopen) s)"
proof (cases "OwnedHarnessInputFileStore env s")
  case (Inr s')
  then obtain es where es: "load_records (in_bodies s) (in_records s) = Inr es" "s' = s\<lparr>in_entries := es\<rparr>"
    by (auto simp: OwnedHarnessInputFileStore_def Let_def result_simps split: option.splits)
  then have "map_of es (fl_file_id (md_reference m)) = Some m"
    using load_records_map [OF es(1)] r by (simp add: receiving_def Let_def)
  with Inr es(2) r show ?thesis by (simp add: receiving_def Let_def)
qed (use r in simp)

text \<open>
  A delivery repeats chunks that have arrived or brings the next one; \<open>None\<close> is a restart of the runner.
  The result is the number of chunks that have arrived.
\<close>

fun arrived :: "nat \<Rightarrow> nat option list \<Rightarrow> nat option" where
  "arrived n [] = Some n"
| "arrived n (None # ks) = arrived n ks"
| "arrived n (Some k # ks) = (if k < n then arrived n ks else if k = n then arrived (Suc n) ks else None)"

definition chunk_call :: "HarnessInputFileScope \<Rightarrow> string \<Rightarrow> string \<Rightarrow> string list \<Rightarrow> nat option \<Rightarrow> store_call" where
  "chunk_call sc cmd i cs k =
     (case k of
        None \<Rightarrow> Reopen
      | Some k \<Rightarrow> Operate sc cmd (Append i (length (concat (take k cs))) (b64_encode False (cs ! k))))"

lemma concat_take_Suc: "n < length cs \<Longrightarrow> concat (take (Suc n) cs) = concat (take n cs) @ cs ! n"
  by (simp add: take_Suc_conv_app_nth)

lemma chunk_at:
  assumes "k < n" and "n \<le> length cs"
  shows "take (length (cs ! k)) (drop (length (concat (take k cs))) (concat (take n cs))) = cs ! k"
proof -
  have "take n cs = take (Suc k) cs @ take (n - Suc k) (drop (Suc k) cs)"
    using assms(1) take_add [of "Suc k" "n - Suc k" cs] by simp
  then have "concat (take n cs) = concat (take k cs) @ cs ! k @ concat (take (n - Suc k) (drop (Suc k) cs))"
    using assms by (simp add: concat_take_Suc)
  then show ?thesis by simp
qed

lemma upload_arrives:
  assumes "receiving sc m (concat (take n cs)) s" and "n \<le> length cs" and "arrived n ks = Some n'" and "n' \<le> length cs"
    and chunks: "list_all proper_chunk cs" and size: "length (concat cs) = fl_byte_length (md_reference m)"
    and io: "list_all (\<lambda>env. io_fails env (Append_body (fl_file_id (md_reference m))) = None) envs" "length envs = length ks"
  shows "receiving sc m (concat (take n' cs))
    (input_run h (zip envs (map (chunk_call sc cmd (fl_file_id (md_reference m)) cs) ks)) s)"
  using assms(1-4) io
proof (induction n ks arbitrary: s envs rule: arrived.induct)
  case (1 n)
  then show ?case by (simp add: input_run_def)
next
  case (2 n ks)
  then obtain env es where envs: "envs = env # es" by (cases envs) auto
  show ?case
    using 2 envs "2.IH" [OF receiving_reopened [OF "2.prems"(1)], where envs = es]
    by (simp add: input_run_def chunk_call_def)
next
  case (3 n k ks)
  then obtain env es where envs: "envs = env # es" by (cases envs) auto
  let ?i = "fl_file_id (md_reference m)"
  let ?s = "input_call h (env, chunk_call sc cmd ?i cs (Some k)) s"
  have mono: "n1 \<le> n2" if "arrived n1 ls = Some n2" for n1 n2 ls
    using that by (induction n1 ls rule: arrived.induct) (auto split: if_splits)
  show ?case
  proof (cases "k < n")
    case True
    then have "proper_chunk (cs ! k)" using chunks "3.prems"(2) by (simp add: list_all_length)
    then have "receiving sc m (concat (take n cs)) ?s"
      using appends_again [OF "3.prems"(1) _ chunk_at [OF True "3.prems"(2)]] by (simp add: chunk_call_def)
    with 3 True envs show ?thesis by (simp add: input_run_def)
  next
    case False
    then have kn: "k = n" and next': "arrived (Suc n) ks = Some n'" using 3 by (auto split: if_splits)
    have n: "n < length cs" using mono [OF next'] 3 by simp
    then have "proper_chunk (cs ! n)" using chunks by (simp add: list_all_length)
    moreover have "length (concat (take n cs)) + length (cs ! n) \<le> fl_byte_length (md_reference m)"
    proof -
      have "concat cs = concat (take (Suc n) cs) @ concat (drop (Suc n) cs)" by (metis append_take_drop_id concat_append)
      then show ?thesis using size n by (simp add: concat_take_Suc)
    qed
    ultimately have "receiving sc m (concat (take (Suc n) cs)) ?s"
      using appends_next [OF "3.prems"(1)] 3 kn envs n by (simp add: chunk_call_def concat_take_Suc)
    with 3 kn next' envs n show ?thesis by (simp add: input_run_def)
  qed
qed

lemma created_receives:
  assumes digest: "\<forall>t. sha256_text (h t)"
    and created: "operation h env sc cmd (Create d) s = Some (Inr res, s1)"
    and fresh: "map_of (in_entries s) (upload_id h (in_directory s) sc cmd) = None"
  obtains m where "receiving sc m [] s1" "md_reference m = reference_of d (upload_id h (in_directory s) sc cmd)"
    "fr_reference res = md_reference m" "description_schema d"
proof -
  let ?i = "upload_id h (in_directory s) sc cmd"
  let ?m = "\<lparr>md_scope = sc, md_owners = [sb_owner sc], md_reference = reference_of d ?i,
              md_sealed = False, md_retained = False\<rparr>"
  have id: "fl_file_id (reference_of d ?i) = ?i"
    by (simp add: reference_of_def InputFileDescription.extend_def HarnessInputFileReference.fields_def)
  have "wp (operation h env sc cmd (Create d))
      (\<lambda>r t. receiving sc ?m [] t \<and> fr_reference r = md_reference ?m \<and> description_schema d) (\<lambda>_ _. True) s"
    using fresh digest
    by (auto simp: operation_def create_upload_def make_body_def Let_def wp_simps result_of_def body_bytes_def result_simps
        harnessInputFileOperationSchema_def receiving_def owns_def id js_map upload_id_def [symmetric]
        intro!: wp_save [where i = ?i] split: option.split sum.split)
       (auto simp: upload_id_def)
  from wp_returned [OF this created] show thesis by (intro that [of ?m]) auto
qed

lemma seals_received:
  assumes r: "receiving sc m b s" and len: "length b = fl_byte_length (md_reference m)" "length b \<le> HARNESS_INPUT_FILE_MAX_BYTES"
    and io: "\<forall>p. io_directory env p = None" "\<forall>c. io_fails env c = None"
  shows "operation h env sc cmd (Seal (fl_file_id (md_reference m))) s =
    (if h b = fl_sha256 (md_reference m)
     then Some (Inr \<lparr>fr_action = Act_seal, fr_reference = md_reference m, fr_received_bytes = length b, fr_state = Sealed\<rparr>,
                after (change_and_save env (m\<lparr>md_sealed := True\<rparr>)) s)
     else Some (Inl (integrity ''The complete uploaded file does not match its declared size and SHA-256.''), s))"
proof -
  let ?m = "m\<lparr>md_sealed := True\<rparr>" and ?i = "fl_file_id (md_reference m)"
  have save: "change_and_save env ?m s = Some (Inr (), put_record ?i ?m (set_entry ?i ?m s))"
    using r io
    by (simp add: change_and_save_def save_def check_directory_def callA_def modifyA_def bindA_def Let_def receiving_def
        set_entry_def put_record_def update_same js_map)
  show ?thesis
    using r len save
    by (auto simp: operation_def seal_upload_def harnessInputFileOperationSchema_def bindA_def guardA_def
        require_receiving entry_bytes_def body_bytes_def intact_def result_of_def Let_def after_def integrity_def
        receiving_def)
qed

subsection \<open>Samples\<close>

definition sample_digest :: "string \<Rightarrow> string" where
  "sample_digest t = replicate 64 (if t = ''abc'' then CHR ''b'' else CHR ''a'')"

definition fine :: io where
  "fine = \<lparr>io_fails = (\<lambda>_. None), io_directory = (\<lambda>_. None)\<rparr>"

definition sample_scope :: HarnessInputFileScope where
  "sample_scope = \<lparr>sb_provider_instance_id = ''p'', sb_provider_binding_hash = ''h'', sb_workspace_id = ''w'', sb_cwd = ''/w'',
     sb_owner = ''session:s''\<rparr>"

definition sample_file :: InputFileDescription where
  "sample_file = \<lparr>fl_sha256 = replicate 64 (CHR ''b''), fl_filename = ''a.txt'', fl_mime_type = ''text/plain'', fl_byte_length = 3\<rparr>"

definition empty_store :: InputStore where
  "empty_store = \<lparr>in_directory = ''/store'', in_entries = [], in_records = [], in_bodies = [], in_native = []\<rparr>"

definition sample_id :: string where "sample_id = replicate 64 (CHR ''a'')"

definition sample_reference :: HarnessInputFileReference where
  "sample_reference = reference_of sample_file sample_id"

lemma sample_digest_ok: "\<forall>t. sha256_text (sample_digest t)"
  by (auto simp: sample_digest_def sha256_text_def hexadecimal_def list_all_iff)

lemma empty_store_ok: "store_ok h empty_store"
  by (simp add: store_ok_def empty_store_def total_def)

lemma sample_created:
  obtains res where "operation sample_digest fine sample_scope ''c'' (Create sample_file) empty_store
      = Some (Inr res, input_call sample_digest (fine, Operate sample_scope ''c'' (Create sample_file)) empty_store)"
    and "fr_reference res = sample_reference"
proof -
  have id: "upload_id sample_digest d sample_scope ''c'' = sample_id" for d
    by (simp add: upload_id_def sample_digest_def sample_id_def)
  have mime: "mime_text ''text/plain''" "filename_text ''a.txt''" by code_simp+
  have "description_schema sample_file"
    by (simp add: description_schema_def sample_file_def mime HARNESS_INPUT_FILE_MAX_BYTES_def
        sha256_text_def hexadecimal_def list_all_iff)
  moreover have "owner_text (sb_owner sample_scope)" by code_simp
  moreover have "fl_file_id sample_reference = sample_id" "fl_byte_length sample_file = 3"
    by (simp_all add: sample_reference_def reference_of_def InputFileDescription.extend_def
        HarnessInputFileReference.fields_def sample_file_def)
  ultimately have "wp (operation sample_digest fine sample_scope ''c'' (Create sample_file))
      (\<lambda>r _. fr_reference r = sample_reference) (\<lambda>_ _. False) empty_store"
    by (simp add: operation_def create_upload_def make_body_def harnessInputFileOperationSchema_def wp_simps id
        empty_store_def quota_def guardR_def orphans_def reserved_bytes_def fine_def result_of_def body_bytes_def
        save_def check_directory_def put_body_def put_record_def set_entry_def sample_reference_def [symmetric]
        HARNESS_INPUT_FILE_STORE_MAX_BYTES_def HARNESS_INPUT_FILE_MAX_BYTES_def HARNESS_INPUT_FILE_MAX_COUNT_def Let_def)
  then show thesis
    by (rule wp_outcome) (auto intro!: that simp: after_def split: sum.splits)
qed

subsection \<open>Properties\<close>

text \<open>C1: An upload is exact: after a create, however its chunks are repeated, and with restarts of the runner in between, as long as each new chunk is the next one, the stored body is the concatenation of the chunks; sealing then succeeds exactly when its digest is the declared one and changes nothing otherwise.\<close>

theorem uploads_are_exact:
  assumes "\<forall>t. sha256_text (h t)"
    and created: "operation h env sc cmd (Create d) s = Some (Inr res, s1)"
    and fresh: "map_of (in_entries s) (upload_id h (in_directory s) sc cmd) = None"
    and cs: "list_all proper_chunk cs" "length (concat cs) = fl_byte_length d" and ks: "arrived 0 ks = Some (length cs)"
    and io: "list_all (\<lambda>env. io_fails env (Append_body (fl_file_id (fr_reference res))) = None) envs" "length envs = length ks"
      "\<forall>p. io_directory env1 p = None" "\<forall>c. io_fails env1 c = None"
  shows "let i = fl_file_id (fr_reference res); s2 = input_run h (zip envs (map (chunk_call sc cmd i cs) ks)) s1;
             sealing = operation h env1 sc cmd (Seal i) s2 in
    map_of (in_bodies s2) i = Some (Regular (concat cs))
    \<and> (if h (concat cs) = fl_sha256 d
       then map_option fst sealing = Some (Inr \<lparr>fr_action = Act_seal, fr_reference = fr_reference res,
              fr_received_bytes = fl_byte_length d, fr_state = Sealed\<rparr>)
       else sealing = Some (Inl (integrity ''The complete uploaded file does not match its declared size and SHA-256.''), s2))"
proof -
  obtain m where m: "receiving sc m [] s1" "md_reference m = reference_of d (upload_id h (in_directory s) sc cmd)"
    "fr_reference res = md_reference m" and d: "description_schema d"
    using created_receives [OF assms(1) created fresh] by blast
  have parts: "fl_byte_length (md_reference m) = fl_byte_length d" "fl_sha256 (md_reference m) = fl_sha256 d"
    using m(2) by (simp_all add: reference_of_def InputFileDescription.extend_def)
  let ?s2 = "input_run h (zip envs (map (chunk_call sc cmd (fl_file_id (md_reference m)) cs) ks)) s1"
  have "receiving sc m (concat (take (length cs) cs)) ?s2"
    using upload_arrives [of sc m 0 cs s1 ks "length cs" envs h cmd] m cs ks io parts by simp
  then have r: "receiving sc m (concat cs) ?s2" by simp
  have "length (concat cs) \<le> HARNESS_INPUT_FILE_MAX_BYTES" using d cs(2) by (simp add: description_schema_def)
  with seals_received [OF r, of env1 h cmd] io cs(2) parts m(3) r show ?thesis
    by (simp add: Let_def receiving_def)
qed

theorem uploads_are_exact_witness:
  "map_option fst (operation sample_digest fine sample_scope ''c'' (Seal sample_id)
     (input_run sample_digest (zip (replicate 4 fine)
        (map (chunk_call sample_scope ''c'' sample_id [''ab'', ''c'']) [Some 0, Some 0, None, Some 1]))
      (input_call sample_digest (fine, Operate sample_scope ''c'' (Create sample_file)) empty_store)))
   = Some (Inr \<lparr>fr_action = Act_seal, fr_reference = sample_reference, fr_received_bytes = 3, fr_state = Sealed\<rparr>)"
proof -
  obtain res where created: "operation sample_digest fine sample_scope ''c'' (Create sample_file) empty_store
      = Some (Inr res, input_call sample_digest (fine, Operate sample_scope ''c'' (Create sample_file)) empty_store)"
    and res: "fr_reference res = sample_reference" by (rule sample_created)
  have fresh: "map_of (in_entries empty_store) (upload_id sample_digest (in_directory empty_store) sample_scope ''c'') = None"
    by (simp add: empty_store_def)
  have facts: "list_all proper_chunk [''ab'', ''c'']" "length (concat [''ab'', ''c'']) = fl_byte_length sample_file"
    "arrived 0 [Some 0, Some 0, None, Some 1] = Some (length [''ab'', ''c''])"
    "list_all (\<lambda>env. io_fails env (Append_body (fl_file_id (fr_reference res))) = None) (replicate 4 fine)"
    "length (replicate 4 fine) = length [Some 0, Some 0, None, Some (1 :: nat)]"
    "\<forall>p. io_directory fine p = None" "\<forall>c. io_fails fine c = None"
    by (simp_all add: proper_chunk_def HARNESS_INPUT_FILE_CHUNK_BYTES_def sample_file_def fine_def list_all_iff)
  have "fl_file_id sample_reference = sample_id" "fl_byte_length sample_file = 3"
    by (simp_all add: sample_reference_def reference_of_def InputFileDescription.extend_def
        HarnessInputFileReference.fields_def sample_file_def)
  moreover have "sample_digest (concat [''ab'', ''c'']) = fl_sha256 sample_file"
    by (simp add: sample_digest_def sample_file_def)
  ultimately show ?thesis
    using uploads_are_exact [OF sample_digest_ok created fresh facts] by (simp only: Let_def res if_True)
qed

text \<open>C2: Whatever the store's disk has become, a file that is materialised into the workspace or handed to the provider as an image is owned by the requesting conversation, sealed, durably retained for it before the call returns, and its bytes have the declared length and digest.\<close>

theorem delivered_files_intact:
  "(case materialize h env sc files s of
      Some (Inr text, s') \<Rightarrow>
        \<exists>fs. text = context_text fs \<and> list_all2 (\<lambda>(r, _) f. \<exists>b. materialized h sc r b f s') files fs
    | Some (Inl _, _) \<Rightarrow> True | None \<Rightarrow> False)
   \<and> (case nativeImages h env sc rs s of
      Some (Inr out, s') \<Rightarrow>
        list_all2 (\<lambda>r (r', data). r' = r \<and> (\<exists>b. data = b64_encode False b \<and> handed_out h sc r b s')) rs out
    | Some (Inl _, _) \<Rightarrow> True | None \<Rightarrow> False)"
  using materialize_wp [of h env sc files s] nativeImages_wp [of h env sc rs s]
  by (auto simp: wp_def split: option.splits prod.splits sum.splits)

text \<open>C3: A delivered file stays: whatever calls follow, with failing writes and restarts in between, as long as its conversation is not retired the file remains readable for it, retained and with the bytes that were delivered.\<close>

theorem delivered_files_stay:
  assumes "store_ok h s" and "\<forall>t. sha256_text (h t)"
    and "materialize h env sc files s = Some (Inr text, s')" and "(r, File_context) \<in> set files"
    and "list_all (\<lambda>c. spares (scope_of sc) (sb_owner sc) (snd c)) cs"
  shows "\<exists>b. intact h r b \<and> map_of (in_bodies (input_run h cs s')) (fl_file_id r) = Some (Regular b)
    \<and> (case require sc (fl_file_id r) (input_run h cs s') of
         Inl _ \<Rightarrow> False
       | Inr m \<Rightarrow> result_of Act_read m (input_run h cs s')
           = Inr \<lparr>fr_action = Act_read, fr_reference = r, fr_received_bytes = fl_byte_length r, fr_state = Retained\<rparr>)"
proof -
  obtain fs where "list_all2 (\<lambda>(r, _) f. \<exists>b. materialized h sc r b f s') files fs"
    using wp_returned [OF materialize_wp assms(3)] by blast
  then obtain b where b: "held (scope_of sc) (sb_owner sc) (fl_file_id r) r b s'" "intact h r b"
    using assms(4) unfolding list_all2_conv_all_nth in_set_conv_nth
    by (fastforce simp: materialized_def handed_out_def)
  let ?t = "input_run h cs s'"
  have "store_ok h s'"
    using wp_after [OF well_formed.materializes, of h s env sc files] assms(1-3) materialize_state [OF assms(3)] by simp
  then have "store_ok h ?t" "held (scope_of sc) (sb_owner sc) (fl_file_id r) r b ?t"
    using assms(2,5) b(1) by (simp_all add: input_run_ok input_run_holds)
  then show ?thesis
    using b(2) store_okD(4) [of h ?t "fl_file_id r"]
    by (auto simp: held_def entry_ok_def require_def owns_def result_of_def body_bytes_def intact_def)
qed

definition sealed_store :: InputStore where
  "sealed_store =
     (let m = \<lparr>md_scope = sample_scope, md_owners = [''session:s''], md_reference = sample_reference, md_sealed = True,
                md_retained = False\<rparr>
      in \<lparr>in_directory = ''/store'', in_entries = [(sample_id, m)], in_records = [(sample_id, Regular m)],
          in_bodies = [(sample_id, Regular ''abc'')], in_native = []\<rparr>)"

lemma sample_parts:
  "fl_file_id sample_reference = sample_id" "fl_byte_length sample_reference = 3"
  "fl_sha256 sample_reference = replicate 64 (CHR ''b'')"
  by (simp_all add: sample_reference_def reference_of_def InputFileDescription.extend_def
      HarnessInputFileReference.fields_def sample_file_def)

lemma sample_described: "harnessInputFileReferenceSchema sample_reference"
proof -
  have "mime_text ''text/plain''" "filename_text ''a.txt''" by code_simp+
  then show ?thesis
    by (simp add: harnessInputFileReferenceSchema_def description_schema_def sample_reference_def reference_of_def
        InputFileDescription.extend_def InputFileDescription.truncate_def HarnessInputFileReference.fields_def
        sample_file_def HARNESS_INPUT_FILE_MAX_BYTES_def
        sample_id_def sha256_text_def hexadecimal_def list_all_iff)
qed

lemma sealed_store_ok: "store_ok sample_digest sealed_store"
proof -
  have "owner_text ''session:s''" by code_simp
  then show ?thesis
    using sample_described
    by (simp add: store_ok_def sealed_store_def Let_def entry_ok_def record_ok_def earlier_def metadataSchema_def sample_parts
        intact_def sample_digest_def total_def weight_def sample_scope_def
        HARNESS_INPUT_FILE_STORE_MAX_BYTES_def HARNESS_INPUT_FILE_MAX_BYTES_def HARNESS_INPUT_FILE_MAX_COUNT_def)
qed

lemma sealed_materializes:
  obtains out s' where "materialize sample_digest fine sample_scope [(sample_reference, File_context)] sealed_store
    = Some (Inr out, s')"
proof -
  have "wp (materialize sample_digest fine sample_scope [(sample_reference, File_context)]) (\<lambda>_ _. True) (\<lambda>_ _. False) sealed_store"
    using sample_described
    by (simp add: materialize_def materialize_files_def select_file_def project_file_def place_native_def wp_simps
        HARNESS_INPUT_FILE_MAX_COUNT_def sealed_store_def Let_def sample_parts require_def owns_def sample_scope_def
        body_bytes_def entry_bytes_def intact_def sample_digest_def HARNESS_INPUT_FILE_MAX_BYTES_def fine_def
        change_and_save_def save_def check_directory_def set_entry_def put_record_def)
  then show thesis by (rule wp_outcome) (auto intro: that split: sum.splits)
qed

theorem delivered_files_stay_witness:
  "\<exists>s'. case require sample_scope sample_id (input_run sample_digest [(fine, Operate sample_scope ''d'' (Release sample_id)), (fine, Reopen)] s') of
     Inl _ \<Rightarrow> False
   | Inr m \<Rightarrow> result_of Act_read m (input_run sample_digest [(fine, Operate sample_scope ''d'' (Release sample_id)), (fine, Reopen)] s')
       = Inr \<lparr>fr_action = Act_read, fr_reference = sample_reference, fr_received_bytes = 3, fr_state = Retained\<rparr>"
proof -
  obtain out s' where "materialize sample_digest fine sample_scope [(sample_reference, File_context)] sealed_store
    = Some (Inr out, s')" by (rule sealed_materializes)
  from delivered_files_stay [OF sealed_store_ok sample_digest_ok this,
      where r = sample_reference and cs = "[(fine, Operate sample_scope ''d'' (Release sample_id)), (fine, Reopen)]"]
  show ?thesis unfolding sample_parts by (auto simp: spares_def)
qed



end
