(* ===== verification/Json_Parse.thy ===== *)
theory Json_Parse
  imports Json
begin

text \<open>
  \<open>JSON.parse\<close> on the texts the program reads back: its own state records, page cursors and the
  actions of MCP reviews.  The grammar is JSON's, white space and escapes included; a number with a
  fraction or an exponent, and an escape beyond code 255, have no value of \<open>json\<close> and are refused.
  Of a key that occurs twice the last value counts, at the place of the first.

  The parser consumes at least one character before it calls itself, so its fuel, the length of the
  text, never runs out on a text it accepts.  \<open>json_parse_render\<close> is the round trip.
\<close>

definition is_json_space :: "char \<Rightarrow> bool" where
  "is_json_space c = (c = CHR '' '' \<or> c = CHR 0x09 \<or> c = CHR 0x0A \<or> c = CHR 0x0D)"

definition skip_ws :: "string \<Rightarrow> string" where
  "skip_ws = dropWhile is_json_space"

definition hex_val :: "char \<Rightarrow> nat option" where
  "hex_val c =
     (let n = of_char c :: nat in
      if 48 \<le> n \<and> n \<le> 57 then Some (n - 48)
      else if 97 \<le> n \<and> n \<le> 102 then Some (n - 87)
      else if 65 \<le> n \<and> n \<le> 70 then Some (n - 55)
      else None)"

definition hex_pair :: "char \<Rightarrow> char \<Rightarrow> char option" where
  "hex_pair a b =
     (case (hex_val a, hex_val b) of (Some x, Some y) \<Rightarrow> Some (char_of (16 * x + y)) | _ \<Rightarrow> None)"

definition unescape :: "char \<Rightarrow> char option" where
  "unescape e =
     (if e = CHR 0x22 \<or> e = CHR 0x5C \<or> e = CHR ''/'' then Some e
      else if e = CHR ''b'' then Some (CHR 0x08) else if e = CHR ''f'' then Some (CHR 0x0C)
      else if e = CHR ''n'' then Some (CHR 0x0A) else if e = CHR ''r'' then Some (CHR 0x0D)
      else if e = CHR ''t'' then Some (CHR 0x09) else None)"

text \<open>The characters of a string literal, after its opening quote.\<close>

fun parse_chars :: "string \<Rightarrow> (string \<times> string) option" where
  "parse_chars [] = None"
| "parse_chars (c # cs) =
     (if c = CHR 0x22 then Some ([], cs)
      else if c = CHR 0x5C then
        (case cs of
           [] \<Rightarrow> None
         | e # rest \<Rightarrow>
             if e = CHR ''u'' then
               (case rest of
                  h0 # h1 # h2 # h3 # rest' \<Rightarrow>
                    if h0 = CHR ''0'' \<and> h1 = CHR ''0'' then
                      (case hex_pair h2 h3 of None \<Rightarrow> None
                       | Some d \<Rightarrow> map_option (\<lambda>(s, r). (d # s, r)) (parse_chars rest'))
                    else None
                | _ \<Rightarrow> None)
             else (case unescape e of None \<Rightarrow> None
                   | Some d \<Rightarrow> map_option (\<lambda>(s, r). (d # s, r)) (parse_chars rest)))
      else if (of_char c :: nat) < 32 then None
      else map_option (\<lambda>(s, r). (c # s, r)) (parse_chars cs))"

definition parse_nat :: "string \<Rightarrow> (nat \<times> string) option" where
  "parse_nat s =
     (let ds = takeWhile is_digit s; r = dropWhile is_digit s in
      if ds = [] \<or> (hd ds = CHR ''0'' \<and> length ds > 1)
         \<or> (r \<noteq> [] \<and> (hd r = CHR ''.'' \<or> hd r = CHR ''e'' \<or> hd r = CHR ''E'')) then None
      else Some (read_nat ds, r))"

definition parse_number :: "string \<Rightarrow> (json \<times> string) option" where
  "parse_number s =
     (case s of
        [] \<Rightarrow> None
      | c # cs \<Rightarrow>
          if c = CHR ''-'' then map_option (\<lambda>(n, r). (JNum (- int n), r)) (parse_nat cs)
          else map_option (\<lambda>(n, r). (JNum (int n), r)) (parse_nat s))"

definition parse_literal :: "string \<Rightarrow> (json \<times> string) option" where
  "parse_literal s =
     (if startsWith s ''null'' then Some (JNull, drop 4 s)
      else if startsWith s ''true'' then Some (JBool True, drop 4 s)
      else if startsWith s ''false'' then Some (JBool False, drop 5 s)
      else parse_number s)"

text \<open>Entries are stored as the object stores them: a later one overwrites.\<close>

definition object_of :: "(string \<times> json) list \<Rightarrow> json" where
  "object_of kvs = JObj (foldl (\<lambda>m (k, v). AList.update k v m) [] kvs)"

fun parse_value :: "nat \<Rightarrow> string \<Rightarrow> (json \<times> string) option"
  and parse_elements :: "nat \<Rightarrow> string \<Rightarrow> (json list \<times> string) option"
  and parse_members :: "nat \<Rightarrow> string \<Rightarrow> ((string \<times> json) list \<times> string) option"
  and parse_member :: "nat \<Rightarrow> string \<Rightarrow> ((string \<times> json) \<times> string) option" where
  "parse_value 0 s = None"
| "parse_value (Suc n) s =
     (case skip_ws s of
        [] \<Rightarrow> None
      | c # cs \<Rightarrow>
          if c = CHR 0x22 then map_option (\<lambda>(t, r). (JStr t, r)) (parse_chars cs)
          else if c = CHR ''['' then
            (case skip_ws cs of
               [] \<Rightarrow> None
             | d # r \<Rightarrow> if d = CHR '']'' then Some (JArr [], r)
                        else map_option (\<lambda>(vs, r). (JArr vs, r)) (parse_elements n (d # r)))
          else if c = CHR ''{'' then
            (case skip_ws cs of
               [] \<Rightarrow> None
             | d # r \<Rightarrow> if d = CHR ''}'' then Some (JObj [], r)
                        else map_option (\<lambda>(kvs, r). (object_of kvs, r)) (parse_members n (d # r)))
          else parse_literal (c # cs))"
| "parse_elements 0 s = None"
| "parse_elements (Suc n) s =
     (case parse_value n s of
        None \<Rightarrow> None
      | Some (v, r) \<Rightarrow>
          (case skip_ws r of
             [] \<Rightarrow> None
           | d # r' \<Rightarrow>
               if d = CHR '','' then map_option (\<lambda>(vs, t). (v # vs, t)) (parse_elements n r')
               else if d = CHR '']'' then Some ([v], r') else None))"
| "parse_members 0 s = None"
| "parse_members (Suc n) s =
     (case parse_member n s of
        None \<Rightarrow> None
      | Some (kv, r) \<Rightarrow>
          (case skip_ws r of
             [] \<Rightarrow> None
           | d # r' \<Rightarrow>
               if d = CHR '','' then map_option (\<lambda>(kvs, t). (kv # kvs, t)) (parse_members n r')
               else if d = CHR ''}'' then Some ([kv], r') else None))"
| "parse_member 0 s = None"
| "parse_member (Suc n) s =
     (case skip_ws s of
        [] \<Rightarrow> None
      | c # cs \<Rightarrow>
          if c \<noteq> CHR 0x22 then None
          else (case parse_chars cs of
                  None \<Rightarrow> None
                | Some (k, r) \<Rightarrow>
                    (case skip_ws r of
                       [] \<Rightarrow> None
                     | d # r' \<Rightarrow>
                         if d = CHR '':'' then map_option (\<lambda>(v, t). ((k, v), t)) (parse_value n r')
                         else None)))"

definition json_parse :: "string \<Rightarrow> json option" where
  "json_parse s =
     (case parse_value (length s) s of
        Some (v, r) \<Rightarrow> if skip_ws r = [] then Some v else None
      | None \<Rightarrow> None)"

text \<open>No object of the value has a key twice, which holds of every JavaScript value.\<close>

fun distinct_keys :: "json \<Rightarrow> bool" where
  "distinct_keys (JArr vs) = list_all distinct_keys vs"
| "distinct_keys (JObj kvs) = (distinct (map fst kvs) \<and> list_all (\<lambda>(_, v). distinct_keys v) kvs)"
| "distinct_keys v = True"

subsection \<open>The round trip\<close>

lemma skip_ws_Cons [simp]: "\<not> is_json_space c \<Longrightarrow> skip_ws (c # s) = c # s"
  by (simp add: skip_ws_def)

lemma not_space [simp]:
  "\<not> is_json_space (CHR 0x22)" "\<not> is_json_space (CHR ''['')" "\<not> is_json_space (CHR '']'')"
  "\<not> is_json_space (CHR ''{'')" "\<not> is_json_space (CHR ''}'')" "\<not> is_json_space (CHR '','')"
  "\<not> is_json_space (CHR '':'')" "\<not> is_json_space (CHR ''-'')" "\<not> is_json_space (CHR ''n'')"
  "\<not> is_json_space (CHR ''t'')" "\<not> is_json_space (CHR ''f'')"
  by (simp_all add: is_json_space_def)

lemma digit_not_space [simp]: "is_digit c \<Longrightarrow> \<not> is_json_space c"
  by (auto simp: is_json_space_def is_digit_def)

lemma hex_val_char: "d < 16 \<Longrightarrow> hex_val (hex_char d) = Some d"
  by (auto simp: hex_val_def hex_char_def of_char_of Let_def)

lemma hex_pair_char: "hex_pair (hex_char (of_char c div 16)) (hex_char (of_char c mod 16)) = Some c"
proof -
  have "(of_char c :: nat) < 256" by (metis of_char_mod_256 mod_less_divisor zero_less_numeral)
  then have "(of_char c :: nat) div 16 < 16" by linarith
  then show ?thesis by (simp add: hex_pair_def hex_val_char)
qed

lemma parse_escape:
  "parse_chars (json_escape_char c @ r) = map_option (\<lambda>(s, t). (c # s, t)) (parse_chars r)"
  by (simp add: json_escape_char_def unescape_def hex_pair_char)

lemma parse_json_string: "parse_chars (concat (map json_escape_char s) @ CHR 0x22 # r) = Some (s, r)"
  by (induction s) (simp_all add: parse_escape)

text \<open>What follows a value inside a text: a punctuation mark or the end.\<close>

definition closes :: "string \<Rightarrow> bool" where
  "closes r = (case r of [] \<Rightarrow> True | c # _ \<Rightarrow> c \<in> {CHR '','', CHR '']'', CHR ''}''})"

lemma closes_simps [simp]: "closes []" "closes (c # r) \<longleftrightarrow> c = CHR '','' \<or> c = CHR '']'' \<or> c = CHR ''}''"
  by (simp_all add: closes_def)

lemma show_nat_head: "hd (show_nat n) = CHR ''0'' \<Longrightarrow> n < 10"
proof (induction n rule: show_nat.induct)
  case (1 n)
  show ?case
  proof (rule ccontr)
    assume n: "\<not> n < 10"
    then have "hd (show_nat n) = hd (show_nat (n div 10))"
      by (subst show_nat.simps) simp
    with 1 n have small: "n div 10 < 10" "hd (show_nat (n div 10)) = CHR ''0''" by auto
    then have "digit_char (n div 10) = CHR ''0''" by (simp add: show_nat.simps [of "n div 10"])
    then have "digit_val (digit_char (n div 10)) = 0" by (simp add: digit_val_def)
    with small(1) n show False by simp
  qed
qed

lemma digits_then:
  assumes "\<forall>c \<in> set ds. is_digit c" and "closes r"
  shows "takeWhile is_digit (ds @ r) = ds" "dropWhile is_digit (ds @ r) = r"
  using assms by (induction ds) (auto simp: closes_def split: list.splits)

lemma parse_show_nat:
  assumes r: "closes r"
  shows "parse_nat (show_nat n @ r) = Some (n, r)"
proof -
  note split = digits_then [OF _ r, of "show_nat n"]
  have "\<not> (hd (show_nat n) = CHR ''0'' \<and> 1 < length (show_nat n))"
    using show_nat_head [of n] by (auto simp: show_nat.simps [of n])
  moreover have "\<not> (r \<noteq> [] \<and> (hd r = CHR ''.'' \<or> hd r = CHR ''e'' \<or> hd r = CHR ''E''))"
    using r by (auto simp: closes_def split: list.splits)
  ultimately show ?thesis
    unfolding parse_nat_def Let_def using split by (simp add: show_nat_digits)
qed

lemma parse_show_int: "closes r \<Longrightarrow> parse_number (show_int i @ r) = Some (JNum i, r)"
proof (cases "i < 0")
  case True
  assume "closes r"
  with True show ?thesis by (simp add: parse_number_def show_int_def parse_show_nat)
next
  case False
  assume r: "closes r"
  obtain d ds where d: "show_nat (nat i) = d # ds" using show_nat_nonempty by (metis list.exhaust)
  then have "d \<noteq> CHR ''-''" using show_nat_hd [OF d] by auto
  with False r d parse_show_nat [OF r, of "nat i"] show ?thesis
    by (simp add: parse_number_def show_int_def)
qed

lemma parse_literal_int:
  assumes "closes r"
  shows "parse_literal (show_int i @ r) = Some (JNum i, r)"
proof -
  obtain c t where "show_int i = c # t" "is_digit c \<or> c = CHR ''-''" by (rule show_int_hd)
  then have "\<not> startsWith (show_int i @ r) ''null''" "\<not> startsWith (show_int i @ r) ''true''"
    "\<not> startsWith (show_int i @ r) ''false''" by (auto simp: startsWith_def)
  then show ?thesis using assms by (simp add: parse_literal_def parse_show_int)
qed

lemma object_of_distinct:
  assumes "distinct (map fst kvs)"
  shows "object_of kvs = JObj kvs"
proof -
  have "foldl (\<lambda>m (k, v). AList.update k v m) acc kvs = acc @ kvs"
    if "distinct (map fst (acc @ kvs))" for acc
    using that
  proof (induction kvs arbitrary: acc)
    case (Cons kv kvs)
    then have "map_of acc (fst kv) = None" by (auto simp: map_of_eq_None_iff)
    with Cons.prems Cons.IH [of "acc @ [kv]"] show ?case
      by (cases kv) (simp add: update_new)
  qed simp
  from this [of "[]"] assms show ?thesis by (simp add: object_of_def)
qed

text \<open>The first character of a rendered value is not white space and closes nothing.\<close>

lemma render_start:
  obtains c t where "render v = c # t" "\<not> is_json_space c" "c \<noteq> CHR '']''" "c \<noteq> CHR ''}''"
proof (rule render_hd [of v])
  fix c t assume "render v = c # t" and "is_digit c \<or> c \<in> set ''ntf-[{'' \<or> c = CHR 0x22"
  then show thesis by (intro that [of c t]) (auto simp: is_json_space_def is_digit_def)
qed

lemma entry_start: "entry kv @ r = CHR 0x22 # concat (map json_escape_char (fst kv)) @ CHR 0x22 # CHR '':'' # render (snd kv) @ r"
  by (simp add: entry_def json_string_def)

lemma closes_tail: "cl = CHR '']'' \<or> cl = CHR ''}'' \<Longrightarrow> closes (list_tail cl f xs r)"
  by (auto simp: list_tail_def)

lemma parse_elements_render:
  assumes "\<And>v r n. v \<in> set vs \<Longrightarrow> length (render v) \<le> n \<Longrightarrow> closes r \<Longrightarrow> parse_value n (render v @ r) = Some (v, r)"
    and "vs \<noteq> []" and "length (join '','' (map render vs)) < n"
  shows "parse_elements n (join '','' (map render vs) @ CHR '']'' # r) = Some (vs, r)"
  using assms
proof (induction vs arbitrary: n)
  case (Cons v vs)
  then obtain m where n: "n = Suc m" by (cases n) auto
  have first: "parse_value m (render v @ list_tail (CHR '']'') render vs r) = Some (v, list_tail (CHR '']'') render vs r)"
    by (rule Cons.prems(1)) (use Cons.prems(3) n in \<open>cases vs; simp add: closes_tail\<close>)+
  show ?case
  proof (cases "vs = []")
    case True
    with first n show ?thesis by (simp add: list_tail_def)
  next
    case False
    then have "parse_elements m (join '','' (map render vs) @ CHR '']'' # r) = Some (vs, r)"
      by (intro Cons.IH Cons.prems(1)) (use Cons.prems(3) n in \<open>cases vs; simp\<close>)+
    with False first n show ?thesis
      unfolding join_list_tail by (simp add: list_tail_def)
  qed
qed simp

lemma parse_members_render:
  assumes "\<And>k v r n. (k, v) \<in> set kvs \<Longrightarrow> length (render v) \<le> n \<Longrightarrow> closes r \<Longrightarrow> parse_value n (render v @ r) = Some (v, r)"
    and "kvs \<noteq> []" and "length (join '','' (map entry kvs)) < n"
  shows "parse_members n (join '','' (map entry kvs) @ CHR ''}'' # r) = Some (kvs, r)"
  using assms
proof (induction kvs arbitrary: n)
  case (Cons kv kvs)
  obtain k v where kv: "kv = (k, v)" by fastforce
  from Cons obtain m where n: "n = Suc m" by (cases n) auto
  let ?t = "list_tail (CHR ''}'') entry kvs r"
  have len: "length (entry kv) \<le> m" using Cons.prems(3) n by (cases kvs) auto
  then obtain l where m: "m = Suc l" by (cases m) (auto simp: entry_def json_string_def)
  have "length (render v) \<le> l" using len m kv by (simp add: entry_def json_string_def)
  then have "parse_value l (render v @ ?t) = Some (v, ?t)"
    by (intro Cons.prems(1)) (auto simp: kv closes_tail)
  then have member: "parse_member m (entry kv @ ?t) = Some (kv, ?t)"
    by (simp add: m entry_start parse_json_string kv)
  show ?case
  proof (cases "kvs = []")
    case True
    with member n show ?thesis by (simp add: list_tail_def)
  next
    case False
    have "parse_members m (join '','' (map entry kvs) @ CHR ''}'' # r) = Some (kvs, r)"
    proof (rule Cons.IH)
      show "parse_value l (render w @ t) = Some (w, t)"
        if "(i, w) \<in> set kvs" "length (render w) \<le> l" "closes t" for i w t l
        using that by (intro Cons.prems(1) [of i]) simp_all
    qed (use Cons.prems(3) n False in \<open>cases kvs; simp\<close>)+
    with False member n show ?thesis
      unfolding join_list_tail by (simp add: list_tail_def)
  qed
qed simp

lemma parse_render:
  "distinct_keys v \<Longrightarrow> length (render v) \<le> n \<Longrightarrow> closes r \<Longrightarrow> parse_value n (render v @ r) = Some (v, r)"
proof (induction v arbitrary: n r)
  case (JNum i)
  obtain c t where c: "show_int i = c # t" "is_digit c \<or> c = CHR ''-''" by (rule show_int_hd)
  with JNum obtain m where "n = Suc m" by (cases n) auto
  moreover have "parse_literal (c # t @ r) = Some (JNum i, r)" using parse_literal_int [OF JNum(3), of i] c by simp
  ultimately show ?case using c by (auto simp: is_digit_def)
next
  case (JStr s)
  then show ?case by (cases n) (auto simp: json_string_def parse_json_string)
next
  case (JArr vs)
  then obtain m where n: "n = Suc m" by (cases n) auto
  show ?case
  proof (cases vs)
    case (Cons v ws)
    obtain c t where c: "join '','' (map render vs) @ CHR '']'' # r = c # t" "\<not> is_json_space c" "c \<noteq> CHR '']''"
      by (rule render_start [of v]) (auto simp: Cons join_list_tail simp del: list.map intro: that)
    have "parse_elements m (c # t) = Some (vs, r)"
      unfolding c(1) [symmetric]
      by (rule parse_elements_render) (use JArr n in \<open>auto simp: list_all_iff Cons\<close>)
    with c n show ?thesis by simp
  qed (use n in simp)
next
  case (JObj kvs)
  then obtain m where n: "n = Suc m" by (cases n) auto
  show ?case
  proof (cases kvs)
    case (Cons kv ws)
    obtain t where c: "join '','' (map entry kvs) @ CHR ''}'' # r = CHR 0x22 # t"
      unfolding Cons join_list_tail entry_start by blast
    have "parse_members m (CHR 0x22 # t) = Some (kvs, r)"
      unfolding c [symmetric]
    proof (rule parse_members_render)
      fix k v r' n' assume kv: "(k, v) \<in> set kvs" and "length (render v) \<le> n'" "closes r'"
      then show "parse_value n' (render v @ r') = Some (v, r')"
        using JObj.IH [of "(k, v)" v n' r'] JObj.prems(1) by (auto simp: list_all_iff)
    qed (use JObj.prems n Cons in \<open>auto simp: render_JObj simp del: render.simps\<close>)
    with c n JObj.prems(1) show ?thesis
      by (simp add: render_JObj object_of_distinct del: render.simps)
  qed (use n in simp)
qed (case_tac n; auto simp: parse_literal_def startsWith_def split: if_splits)+

lemma skip_ws_Nil [simp]: "skip_ws [] = []"
  by (simp add: skip_ws_def)

lemma json_parse_render: "distinct_keys v \<Longrightarrow> json_parse (render v) = Some v"
  using parse_render [of v "length (render v)" "[]"] by (simp add: json_parse_def)

end
