(* ===== verification/Mcp_Review.thy ===== *)
theory Mcp_Review
  imports Durable_Store Json_Parse
begin

text \<open>
  The durable record of a reviewed MCP tool call: its schemas
  (\<open>packages/hcp-protocol/src/mcp-review.ts\<close>, \<open>packages/hcp-runner/src/mcp/input-required.ts\<close>,
  \<open>packages/hcp-runner/src/state/mcp-review.ts\<close>), the transitions \<open>validateMcpTransition\<close> lets a save
  make, and \<open>saveMcpReview\<close>, \<open>clearMcpReview\<close> of the state store.

  \<open>mcp_env\<close> is what lies outside the repository: SHA-256, \<open>Date\<close>, and the specification types and the
  form validator of the MCP packages.  Of the two payloads a review carries the model has the fields
  the reviews read; \<open>_rest\<close> is everything else as one value, with its schema in \<open>mcp_env\<close>.  A value the
  code compares as text of \<open>JSON.stringify\<close> is compared as a value, entries in their order.
\<close>

record mcp_env =
  me_hash :: "string \<Rightarrow> string"
  me_datetime :: "string \<Rightarrow> bool"
  me_date_parse :: "string \<Rightarrow> int option"
  me_iso :: "int \<Rightarrow> string"
  me_url_input :: "json \<Rightarrow> json option"
  me_elicit_request :: "json \<Rightarrow> bool"
  me_message_request :: "json \<Rightarrow> bool"
  me_roots_request :: "json \<Rightarrow> bool"
  me_elicit_result :: "json \<Rightarrow> bool"
  me_message_result :: "json \<Rightarrow> bool"
  me_roots_result :: "json \<Rightarrow> bool"
  me_form_valid :: "json \<Rightarrow> json \<Rightarrow> bool"
  me_start_rest :: "json \<Rightarrow> bool"
  me_turn_rest :: "json \<Rightarrow> bool"

subsection \<open>Values\<close>

text \<open>\<open>key in value\<close> and \<open>value[key]\<close> of a JSON object.\<close>

definition obj_field :: "json \<Rightarrow> string \<Rightarrow> json option" where
  "obj_field v k = (case v of JObj kvs \<Rightarrow> map_of kvs k | _ \<Rightarrow> None)"

text \<open>\<open>isDeepStrictEqual\<close>: the order of an object's entries does not matter.\<close>

fun same_json :: "json \<Rightarrow> json \<Rightarrow> bool" where
  "same_json (JArr xs) (JArr ys) = list_all2 same_json xs ys"
| "same_json (JObj xs) (JObj ys) =
     (length xs = length ys
      \<and> list_all (\<lambda>(k, v). case map_of ys k of None \<Rightarrow> False | Some w \<Rightarrow> same_json v w) xs)"
| "same_json a b = (a = b)"

definition same_opt :: "json option \<Rightarrow> json option \<Rightarrow> bool" where
  "same_opt a b = (case (a, b) of (Some x, Some y) \<Rightarrow> same_json x y | (None, None) \<Rightarrow> True | _ \<Rightarrow> False)"

definition text_field :: "json \<Rightarrow> string \<Rightarrow> string option" where
  "text_field v k = (case obj_field v k of Some (JStr s) \<Rightarrow> Some s | _ \<Rightarrow> None)"

definition bounded_text :: "nat \<Rightarrow> string \<Rightarrow> bool" where
  "bounded_text n s = (1 \<le> length s \<and> length s \<le> n)"

text \<open>The one entry of an object literal with an optional field.\<close>

definition field :: "string \<Rightarrow> json option \<Rightarrow> (string \<times> json) list" where
  "field k v = (case v of None \<Rightarrow> [] | Some x \<Rightarrow> [(k, x)])"

text \<open>A time that compares: \<open>NaN\<close> is neither before nor after any moment.\<close>

definition time_passed :: "int option \<Rightarrow> int \<Rightarrow> bool" where
  "time_passed t now = (case t of None \<Rightarrow> False | Some x \<Rightarrow> x \<le> now)"

definition time_ahead :: "int option \<Rightarrow> int \<Rightarrow> bool" where
  "time_ahead t now = (case t of None \<Rightarrow> False | Some x \<Rightarrow> now < x)"

subsection \<open>The review action\<close>

definition MCP_REVIEW_META_KEY :: string where "MCP_REVIEW_META_KEY = ''io.harness-control/review-v1''"
definition MCP_REVIEW_MAX_ACTION_BYTES :: nat where "MCP_REVIEW_MAX_ACTION_BYTES = 64 * 1024"
definition MCP_REVIEW_MAX_REQUEST_ID_LENGTH :: nat where "MCP_REVIEW_MAX_REQUEST_ID_LENGTH = 256"

record McpDelegatedReviewSubject =
  ds_operation_id :: string
  ds_tool_name :: string
  ds_arguments :: "(string \<times> json) list"
  ds_binding :: string

record McpDelegatedReviewRequest =
  dr_input_request_id :: string
  dr_subject :: McpDelegatedReviewSubject

record McpReviewAction =
  ac_attachment_name :: string
  ac_tool_name :: string
  ac_arguments :: "(string \<times> json) list"
  ac_delegated_subject :: "McpDelegatedReviewSubject option"

text \<open>\<open>strict\<close>: no keys but these.\<close>

definition only_keys :: "string list \<Rightarrow> (string \<times> json) list \<Rightarrow> bool" where
  "only_keys ks kvs = list_all (\<lambda>(k, _). List.member ks k) kvs"

definition object_field :: "json \<Rightarrow> string \<Rightarrow> (string \<times> json) list option" where
  "object_field v k = (case obj_field v k of Some (JObj kvs) \<Rightarrow> Some kvs | _ \<Rightarrow> None)"

definition mcpDelegatedReviewSubjectSchema :: "json \<Rightarrow> McpDelegatedReviewSubject option" where
  "mcpDelegatedReviewSubjectSchema v =
     (case v of
        JObj kvs \<Rightarrow>
          if \<not> only_keys [''operation_id'', ''tool_name'', ''arguments'', ''binding''] kvs then None
          else (case (text_field v ''operation_id'', text_field v ''tool_name'', object_field v ''arguments'', text_field v ''binding'') of
            (Some i, Some t, Some a, Some b) \<Rightarrow>
              if bounded_text 256 i \<and> t \<noteq> [] \<and> bounded_text MCP_REVIEW_MAX_ACTION_BYTES b
              then Some \<lparr>ds_operation_id = i, ds_tool_name = t, ds_arguments = a, ds_binding = b\<rparr> else None
          | _ \<Rightarrow> None)
      | _ \<Rightarrow> None)"

definition mcpDelegatedReviewRequestSchema :: "json \<Rightarrow> McpDelegatedReviewRequest option" where
  "mcpDelegatedReviewRequestSchema v =
     (case v of
        JObj kvs \<Rightarrow>
          if \<not> only_keys [''kind'', ''input_request_id'', ''subject''] kvs
             \<or> text_field v ''kind'' \<noteq> Some ''delegated'' then None
          else (case (text_field v ''input_request_id'', Option.bind (obj_field v ''subject'') mcpDelegatedReviewSubjectSchema) of
            (Some i, Some s) \<Rightarrow>
              if bounded_text MCP_REVIEW_MAX_REQUEST_ID_LENGTH i
              then Some \<lparr>dr_input_request_id = i, dr_subject = s\<rparr> else None
          | _ \<Rightarrow> None)
      | _ \<Rightarrow> None)"

definition mcpReviewActionSchema :: "json \<Rightarrow> McpReviewAction option" where
  "mcpReviewActionSchema v =
     (case v of
        JObj kvs \<Rightarrow>
          if \<not> only_keys [''kind'', ''attachment_name'', ''tool_name'', ''arguments'', ''delegated_subject''] kvs
             \<or> text_field v ''kind'' \<noteq> Some ''mcp_tool'' then None
          else (case (text_field v ''attachment_name'', text_field v ''tool_name'', object_field v ''arguments'',
                      map_option mcpDelegatedReviewSubjectSchema (obj_field v ''delegated_subject'')) of
            (Some n, Some t, Some a, d) \<Rightarrow>
              if n \<noteq> [] \<and> t \<noteq> [] \<and> d \<noteq> Some None
              then Some \<lparr>ac_attachment_name = n, ac_tool_name = t, ac_arguments = a, ac_delegated_subject = Option.bind d id\<rparr>
              else None
          | _ \<Rightarrow> None)
      | _ \<Rightarrow> None)"

definition subject_json :: "McpDelegatedReviewSubject \<Rightarrow> json" where
  "subject_json s = JObj [(''operation_id'', JStr (ds_operation_id s)), (''tool_name'', JStr (ds_tool_name s)),
     (''arguments'', JObj (ds_arguments s)), (''binding'', JStr (ds_binding s))]"

text \<open>The literal \<open>{kind: "mcp_tool", attachment_name, tool_name, arguments, delegated_subject}\<close>.\<close>

definition action_json :: "McpReviewAction \<Rightarrow> json" where
  "action_json a = JObj ([(''kind'', JStr ''mcp_tool''), (''attachment_name'', JStr (ac_attachment_name a)),
     (''tool_name'', JStr (ac_tool_name a)), (''arguments'', JObj (ac_arguments a))]
     @ field ''delegated_subject'' (map_option subject_json (ac_delegated_subject a)))"

definition parse_action :: "string \<Rightarrow> string + McpReviewAction" where
  "parse_action s =
     (case json_parse s of
        None \<Rightarrow> Inl ''SyntaxError''
      | Some v \<Rightarrow> (case mcpReviewActionSchema v of None \<Rightarrow> Inl ''ZodError'' | Some a \<Rightarrow> Inr a))"

definition mcpReviewActionBytes :: "string \<Rightarrow> string + string" where
  "mcpReviewActionBytes s =
     (if s = [] \<or> length s > MCP_REVIEW_MAX_ACTION_BYTES then Inl ''MCP review action exceeds its UTF-8 byte limit.''
      else bindR (parse_action s) (\<lambda>_. Inr s))"

subsection \<open>Pending input and its reply\<close>

record McpPendingInput =
  pn_inputRequests :: "(string \<times> json) list"
  pn_meta :: "(string \<times> json) list option"
  pn_requestState :: "string option"

record McpInputReply =
  ip_pending :: McpPendingInput
  ip_responses :: "(string \<times> json) list"

definition pending_json :: "McpPendingInput \<Rightarrow> json" where
  "pending_json p = JObj ([(''resultType'', JStr ''input_required''), (''inputRequests'', JObj (pn_inputRequests p))]
     @ field ''_meta'' (map_option JObj (pn_meta p)) @ field ''requestState'' (map_option JStr (pn_requestState p)))"

text \<open>\<open>pending._meta?.[key]\<close>\<close>

definition meta_field :: "McpPendingInput \<Rightarrow> string \<Rightarrow> json option" where
  "meta_field p k = Option.bind (pn_meta p) (\<lambda>m. map_of m k)"

definition mcpInputExpiresAt :: "mcp_env \<Rightarrow> McpPendingInput \<Rightarrow> string \<Rightarrow> string + string" where
  "mcpInputExpiresAt env p callerExpiry =
     (if \<not> me_datetime env callerExpiry then Inl ''ZodError''
      else bindR (case meta_field p ''com.prompt2agent/input-deadline'' of
                    None \<Rightarrow> Inr (me_date_parse env callerExpiry)
                  | Some (JStr hint) \<Rightarrow>
                      if \<not> me_datetime env hint then Inl ''ZodError''
                      else Inr (case (me_date_parse env callerExpiry, me_date_parse env hint) of
                                  (Some a, Some b) \<Rightarrow> Some (min a b) | _ \<Rightarrow> None)
                  | Some _ \<Rightarrow> Inl ''ZodError'')
             (\<lambda>t. case t of None \<Rightarrow> Inl ''RangeError'' | Some x \<Rightarrow> Inr (me_iso env x)))"

definition request_method :: "json \<Rightarrow> string option" where
  "request_method request = text_field request ''method''"

definition request_params :: "json \<Rightarrow> json" where
  "request_params request = (case obj_field request ''params'' of None \<Rightarrow> JNull | Some p \<Rightarrow> p)"

definition parse_input_request :: "mcp_env \<Rightarrow> json \<Rightarrow> string + json" where
  "parse_input_request env request =
     (case me_url_input env request of
        Some url \<Rightarrow> Inr url
      | None \<Rightarrow>
          if \<not> (me_elicit_request env request \<or> me_message_request env request \<or> me_roots_request env request)
          then Inl ''MCP requested an unsupported or invalid input.''
          else if request_method request = Some ''elicitation/create'' \<and> text_field (request_params request) ''mode'' = Some ''url''
          then Inl ''MCP requested an unsupported or invalid input URL.''
          else Inr request)"

fun parse_input_requests :: "mcp_env \<Rightarrow> (string \<times> json) list \<Rightarrow> string + (string \<times> json) list" where
  "parse_input_requests env [] = Inr []"
| "parse_input_requests env ((k, v) # rest) =
     bindR (parse_input_request env v) (\<lambda>w. bindR (parse_input_requests env rest) (\<lambda>ws. Inr ((k, w) # ws)))"

definition parseMcpPendingInput :: "mcp_env \<Rightarrow> McpPendingInput \<Rightarrow> string + McpPendingInput" where
  "parseMcpPendingInput env p =
     bindR (parse_input_requests env (pn_inputRequests p)) (\<lambda>requests.
       if requests = [] \<and> pn_requestState p = None
       then Inl ''MCP input requirement has no requests or continuation state.''
       else let pending = p\<lparr>pn_inputRequests := requests\<rparr> in
            if length (render (pending_json pending)) > 1024 * 1024
            then Inl ''MCP pending input exceeds the persistence limit.''
            else Inr pending)"

definition valid_response :: "mcp_env \<Rightarrow> json \<Rightarrow> json \<Rightarrow> bool" where
  "valid_response env request response =
     (if request_method request = Some ''elicitation/create'' then me_elicit_result env response
      else if request_method request = Some ''roots/list'' then me_roots_result env response
      else me_message_result env response)"

text \<open>The checks of one answered request; a form is \<open>requestedSchema\<close> in the request's parameters.\<close>

definition check_response :: "mcp_env \<Rightarrow> json \<Rightarrow> json \<Rightarrow> string + unit" where
  "check_response env request response =
     (let params = request_params request; content = obj_field response ''content'';
          accepted = (text_field response ''action'' = Some ''accept'');
          elicit = (request_method request = Some ''elicitation/create'') in
      bindR (guardR (valid_response env request response) ''MCP response does not match its input request type.'') (\<lambda>_.
      bindR (guardR (\<not> (elicit \<and> \<not> accepted \<and> (case content of None \<Rightarrow> False | Some c \<Rightarrow> c \<noteq> JObj [])))
               ''Declined or cancelled MCP input cannot include form values.'') (\<lambda>_.
      bindR (guardR (case obj_field params ''requestedSchema'' of
                       None \<Rightarrow> True
                     | Some schema \<Rightarrow> elicit \<and> accepted \<longrightarrow>
                         me_form_valid env schema (case content of None \<Rightarrow> JObj [] | Some JNull \<Rightarrow> JObj [] | Some c \<Rightarrow> c))
               ''MCP input does not satisfy the requested form schema.'') (\<lambda>_.
      guardR (\<not> (elicit \<and> text_field params ''mode'' = Some ''url'' \<and> content \<noteq> None))
        ''URL elicitation cannot include form values.''))))"

fun check_responses :: "mcp_env \<Rightarrow> (string \<times> json) list \<Rightarrow> (string \<times> json) list \<Rightarrow> string + unit" where
  "check_responses env [] responses = Inr ()"
| "check_responses env ((k, request) # rest) responses =
     bindR (check_response env request (case map_of responses k of None \<Rightarrow> JNull | Some r \<Rightarrow> r)) (\<lambda>_.
       check_responses env rest responses)"

text \<open>Both key lists, sorted, are the same.\<close>

definition mcpInputResponseParams :: "mcp_env \<Rightarrow> McpInputReply \<Rightarrow> string + unit" where
  "mcpInputResponseParams env reply =
     (if length (render (JObj (ip_responses reply))) > 1024 * 1024
      then Inl ''MCP input responses exceed the persistence limit.''
      else bindR (parseMcpPendingInput env (ip_pending reply)) (\<lambda>pending.
           bindR (guardR (mset (map fst (pn_inputRequests pending)) = mset (map fst (ip_responses reply)))
                    ''MCP responses must match the pending input request IDs.'') (\<lambda>_.
           check_responses env (pn_inputRequests pending) (ip_responses reply))))"

definition mcpInputReplySchema :: "mcp_env \<Rightarrow> McpInputReply \<Rightarrow> string + McpInputReply" where
  "mcpInputReplySchema env reply =
     bindR (parseMcpPendingInput env (ip_pending reply)) (\<lambda>pending.
     bindR (mcpInputResponseParams env (reply\<lparr>ip_pending := pending\<rparr>)) (\<lambda>_.
     Inr (reply\<lparr>ip_pending := pending\<rparr>)))"

subsection \<open>The review record\<close>

record mcp_attachment =
  at_name :: string
  at_http :: bool
  at_lease_id :: "string option"
  at_expires_at :: "string option"
  at_rest :: json

record HcpSessionStartPayload =
  sp_session_id :: string
  sp_workspace_id :: string
  sp_provider_instance_id :: string
  sp_driver_kind :: string
  sp_mcp_servers :: "mcp_attachment list"
  sp_rest :: json

record HcpTurnSendPayload =
  tp_session_id :: string
  tp_turn_id :: string
  tp_rest :: json

record HarnessNativeRequestIdentity =
  ni_native_reference :: string
  ni_request_reference :: "string option"
  ni_message_reference :: "string option"
  ni_call_reference :: "string option"
  ni_item_reference :: "string option"
  ni_execution_reference :: "string option"

record input_round =
  in_input_request_id :: string
  in_protocol_round :: int
  in_review_actor_id :: "string option"

record review_action =
  ra_action_json :: string
  ra_action_hash :: string

datatype review_decision = Rv_accept | Rv_decline

datatype review_outcome =
    Waiting
  | Dispatching (oc_actor: string)
  | Declined (oc_actor: string)
  | Input_waiting (oc_round: input_round) (oc_pending: McpPendingInput)
  | Input_resuming (oc_round: input_round) (oc_reply: McpInputReply) (oc_actor: string)
  | Review_waiting (oc_round: input_round) (oc_action: review_action) (oc_pending: McpPendingInput)
  | Review_resuming (oc_round: input_round) (oc_action: review_action) (oc_reply: McpInputReply)
      (oc_actor: string) (oc_decision: review_decision)
  | Expiry_resuming (oc_round: input_round) (oc_reply: McpInputReply)
  | Expiry_completed (oc_result_json: string)
  | Completed (oc_actor: string) (oc_result_json: string)

record PersistedMcpReview =
  mr_start :: HcpSessionStartPayload
  mr_turn :: HcpTurnSendPayload
  mr_native_thread_id :: string
  mr_native_turn_id :: string
  mr_native_call_id :: string
  mr_native_work_id :: "string option"
  mr_native_request :: "HarnessNativeRequestIdentity option"
  mr_request_id :: string
  mr_action_json :: string
  mr_action_hash :: string
  mr_expires_at :: string
  mr_outcome :: review_outcome

definition native_request_json :: "HarnessNativeRequestIdentity \<Rightarrow> json" where
  "native_request_json n = JObj ([(''source'', JStr ''native''), (''native_reference'', JStr (ni_native_reference n))]
     @ field ''request_reference'' (map_option JStr (ni_request_reference n))
     @ field ''message_reference'' (map_option JStr (ni_message_reference n))
     @ field ''call_reference'' (map_option JStr (ni_call_reference n))
     @ field ''item_reference'' (map_option JStr (ni_item_reference n))
     @ field ''execution_reference'' (map_option JStr (ni_execution_reference n)))"

definition harnessNativeRequestIdentitySchema :: "HarnessNativeRequestIdentity \<Rightarrow> bool" where
  "harnessNativeRequestIdentitySchema n =
     (bounded_text 512 (ni_native_reference n) \<and> opt_ok (bounded_text 512) (ni_request_reference n)
      \<and> opt_ok (bounded_text 512) (ni_message_reference n) \<and> opt_ok (bounded_text 512) (ni_call_reference n)
      \<and> opt_ok (bounded_text 512) (ni_item_reference n) \<and> opt_ok (bounded_text 512) (ni_execution_reference n)
      \<and> (ni_request_reference n \<noteq> None \<or> ni_call_reference n \<noteq> None \<or> ni_item_reference n \<noteq> None))"

definition round_schema :: "input_round \<Rightarrow> bool" where
  "round_schema r =
     (bounded_text MCP_REVIEW_MAX_REQUEST_ID_LENGTH (in_input_request_id r) \<and> 1 \<le> in_protocol_round r \<and> in_protocol_round r \<le> 9
      \<and> opt_ok (\<lambda>a. a \<noteq> []) (in_review_actor_id r))"

definition review_action_schema :: "string \<Rightarrow> string \<Rightarrow> bool" where
  "review_action_schema act h =
     (bounded_text MCP_REVIEW_MAX_ACTION_BYTES act \<and> isInr (mcpReviewActionBytes act) \<and> sha256_text h)"

text \<open>The discriminated union of phases: parsing replaces pending input by what its own parser returns.\<close>

definition parse_outcome :: "mcp_env \<Rightarrow> review_outcome \<Rightarrow> string + review_outcome" where
  "parse_outcome env oc =
     (case oc of
        Waiting \<Rightarrow> Inr oc
      | Dispatching a \<Rightarrow> bindR (guardR (a \<noteq> []) ''ZodError'') (\<lambda>_. Inr oc)
      | Declined a \<Rightarrow> bindR (guardR (a \<noteq> []) ''ZodError'') (\<lambda>_. Inr oc)
      | Input_waiting r p \<Rightarrow>
          bindR (guardR (round_schema r) ''ZodError'') (\<lambda>_.
          bindR (parseMcpPendingInput env p) (\<lambda>p'. Inr (Input_waiting r p')))
      | Input_resuming r reply a \<Rightarrow>
          bindR (guardR (round_schema r \<and> a \<noteq> []) ''ZodError'') (\<lambda>_.
          bindR (mcpInputReplySchema env reply) (\<lambda>reply'. Inr (Input_resuming r reply' a)))
      | Review_waiting r act p \<Rightarrow>
          bindR (guardR (round_schema r \<and> review_action_schema (ra_action_json act) (ra_action_hash act)) ''ZodError'') (\<lambda>_.
          bindR (parseMcpPendingInput env p) (\<lambda>p'. Inr (Review_waiting r act p')))
      | Review_resuming r act reply a d \<Rightarrow>
          bindR (guardR (round_schema r \<and> review_action_schema (ra_action_json act) (ra_action_hash act) \<and> a \<noteq> []) ''ZodError'') (\<lambda>_.
          bindR (mcpInputReplySchema env reply) (\<lambda>reply'. Inr (Review_resuming r act reply' a d)))
      | Expiry_resuming r reply \<Rightarrow>
          bindR (guardR (round_schema r) ''ZodError'') (\<lambda>_.
          bindR (mcpInputReplySchema env reply) (\<lambda>reply'. Inr (Expiry_resuming r reply')))
      | Expiry_completed res \<Rightarrow> bindR (guardR (length res \<le> 1024 * 1024) ''ZodError'') (\<lambda>_. Inr oc)
      | Completed a res \<Rightarrow> bindR (guardR (a \<noteq> [] \<and> length res \<le> 1024 * 1024) ''ZodError'') (\<lambda>_. Inr oc))"

definition native_observation_ok :: "PersistedMcpReview \<Rightarrow> bool" where
  "native_observation_ok r =
     (case mr_native_request r of
        None \<Rightarrow> True
      | Some n \<Rightarrow> ni_native_reference n = mr_native_thread_id r
          \<and> (ni_call_reference n = None \<or> ni_call_reference n = Some (mr_native_call_id r))
          \<and> (ni_execution_reference n = None \<or> ni_execution_reference n = Some (mr_native_turn_id r)))"

definition persistedMcpReviewSchema :: "mcp_env \<Rightarrow> PersistedMcpReview \<Rightarrow> string + PersistedMcpReview" where
  "persistedMcpReviewSchema env r =
     bindR (guardR (me_start_rest env (sp_rest (mr_start r)) \<and> me_turn_rest env (tp_rest (mr_turn r))
              \<and> mr_native_thread_id r \<noteq> [] \<and> mr_native_turn_id r \<noteq> [] \<and> mr_native_call_id r \<noteq> []
              \<and> opt_ok (bounded_text 512) (mr_native_work_id r) \<and> opt_ok harnessNativeRequestIdentitySchema (mr_native_request r)
              \<and> bounded_text MCP_REVIEW_MAX_REQUEST_ID_LENGTH (mr_request_id r)
              \<and> review_action_schema (mr_action_json r) (mr_action_hash r) \<and> me_datetime env (mr_expires_at r)) ''ZodError'') (\<lambda>_.
     bindR (parse_outcome env (mr_outcome r)) (\<lambda>oc.
     bindR (guardR (sp_session_id (mr_start r) = tp_session_id (mr_turn r) \<and> native_observation_ok r) ''ZodError'') (\<lambda>_.
     Inr (r\<lparr>mr_outcome := oc\<rparr>))))"

subsection \<open>Transitions\<close>

definition data_field :: "HcpHarnessEventPayload \<Rightarrow> string \<Rightarrow> json option" where
  "data_field e k = obj_field (ev_data e) k"

text \<open>\<open>k in event.data && event.data[k] === s\<close>\<close>

definition data_is :: "HcpHarnessEventPayload \<Rightarrow> string \<Rightarrow> string \<Rightarrow> bool" where
  "data_is e k s = (data_field e k = Some (JStr s))"

definition decision_text :: "review_decision \<Rightarrow> string" where
  "decision_text d = (case d of Rv_accept \<Rightarrow> ''accept'' | Rv_decline \<Rightarrow> ''decline'')"

text \<open>The attribution an event carries must be the record's.\<close>

definition check_attribution :: "PersistedMcpReview \<Rightarrow> HcpHarnessEventPayload option \<Rightarrow> string + unit" where
  "check_attribution review event =
     (case event of
        None \<Rightarrow> Inr ()
      | Some e \<Rightarrow>
          bindR (guardR (data_field e ''native_work_id'' = map_option JStr (mr_native_work_id review))
                   ''MCP review event changed its native work attribution.'') (\<lambda>_.
          guardR (same_opt (data_field e ''native_request'') (map_option native_request_json (mr_native_request review)))
            ''MCP review event changed its verified native observation.''))"

text \<open>The reply to a delegated review.\<close>

definition delegated_responses :: "string \<Rightarrow> input_round \<Rightarrow> review_action \<Rightarrow> review_decision \<Rightarrow> (string \<times> json) list" where
  "delegated_responses key round act d =
     [(key, JObj ([(''action'', JStr (decision_text d))]
        @ (if d = Rv_accept
           then [(''content'', JObj [(''request_id'', JStr (in_input_request_id round)), (''action_json'', JStr (ra_action_json act))])]
           else [])))]"

definition check_delegated ::
  "mcp_env \<Rightarrow> PersistedMcpReview \<Rightarrow> review_action \<Rightarrow> McpPendingInput \<Rightarrow> string + McpDelegatedReviewRequest" where
  "check_delegated env review act pending =
     (case Option.bind (meta_field pending MCP_REVIEW_META_KEY) mcpDelegatedReviewRequestSchema of
        None \<Rightarrow> Inl ''ZodError''
      | Some delegated \<Rightarrow>
          bindR (parse_action (mr_action_json review)) (\<lambda>root.
          bindR (parse_action (ra_action_json act)) (\<lambda>action.
          bindR (mcpReviewActionBytes (ra_action_json act)) (\<lambda>bytes.
          bindR (guardR (ac_delegated_subject root = None
                  \<and> same_json (action_json action) (action_json (root\<lparr>ac_delegated_subject := Some (dr_subject delegated)\<rparr>))
                  \<and> me_hash env bytes = ra_action_hash act
                  \<and> length (pn_inputRequests pending) = 1
                  \<and> map_of (pn_inputRequests pending) (dr_input_request_id delegated) \<noteq> None)
                  ''Delegated MCP review differs from its parent operation or pending subject.'') (\<lambda>_.
          Inr delegated)))))"

definition check_delegation :: "mcp_env \<Rightarrow> PersistedMcpReview \<Rightarrow> string + unit" where
  "check_delegation env review =
     (case mr_outcome review of
        Review_waiting round act pending \<Rightarrow> bindR (check_delegated env review act pending) (\<lambda>_. Inr ())
      | Review_resuming round act reply actor d \<Rightarrow>
          bindR (check_delegated env review act (ip_pending reply)) (\<lambda>delegated.
          guardR (same_json (JObj (ip_responses reply)) (JObj (delegated_responses (dr_input_request_id delegated) round act d)))
            ''Delegated MCP reply differs from its recorded decision.'')
      | _ \<Rightarrow> Inr ())"

definition is_initial :: "review_outcome \<Rightarrow> bool" where
  "is_initial oc =
     (case oc of
        Waiting \<Rightarrow> True
      | Input_waiting r _ \<Rightarrow> in_protocol_round r = 1 \<and> in_review_actor_id r = None
      | Review_waiting r _ _ \<Rightarrow> in_protocol_round r = 1 \<and> in_review_actor_id r = None
      | _ \<Rightarrow> False)"

text \<open>A new round of input, asked by the server in answer to a call.\<close>

definition asks :: "(input_round \<Rightarrow> bool) \<Rightarrow> review_outcome \<Rightarrow> bool" where
  "asks P oc = (case oc of Input_waiting r _ \<Rightarrow> P r | Review_waiting r _ _ \<Rightarrow> P r | _ \<Rightarrow> False)"

definition cancel_all :: "McpPendingInput \<Rightarrow> (string \<times> json) list" where
  "cancel_all p = map (\<lambda>(k, _). (k, JObj [(''action'', JStr ''cancel'')])) (pn_inputRequests p)"

text \<open>The automatic cancellation of an expired input, while the operation itself has not expired.\<close>

definition expires ::
  "mcp_env \<Rightarrow> int \<Rightarrow> PersistedMcpReview \<Rightarrow> input_round \<Rightarrow> McpPendingInput \<Rightarrow> bool \<Rightarrow> input_round \<Rightarrow> McpInputReply \<Rightarrow> string + bool" where
  "expires env now previous round pending quiet round' reply =
     (if \<not> (quiet \<and> meta_field pending ''com.prompt2agent/input-on-expiry'' = Some (JStr ''cancel'')) then Inr False
      else bindR (mcpInputExpiresAt env pending (mr_expires_at previous)) (\<lambda>at.
           Inr (time_passed (me_date_parse env at) now
                \<and> time_ahead (me_date_parse env (mr_expires_at previous)) now
                \<and> round' = round
                \<and> same_json (pending_json (ip_pending reply)) (pending_json pending)
                \<and> same_json (JObj (ip_responses reply)) (JObj (cancel_all pending)))))"

text \<open>After a reply the operation completes or the server asks for one more round.\<close>

definition resumed :: "input_round \<Rightarrow> string \<Rightarrow> review_outcome \<Rightarrow> bool \<Rightarrow> bool" where
  "resumed round actor oc told =
     ((case oc of Completed actor' _ \<Rightarrow> actor' = actor | _ \<Rightarrow> False) \<and> \<not> told
      \<or> asks (\<lambda>r. in_protocol_round r = in_protocol_round round + 1 \<and> in_input_request_id r \<noteq> in_input_request_id round
                 \<and> in_review_actor_id r = in_review_actor_id round) oc \<and> told)"

definition advances ::
  "mcp_env \<Rightarrow> int \<Rightarrow> PersistedMcpReview \<Rightarrow> review_outcome \<Rightarrow> bool \<Rightarrow> string + bool" where
  "advances env now previous oc told =
     (case mr_outcome previous of
        Waiting \<Rightarrow> Inr ((case oc of Dispatching _ \<Rightarrow> True | Declined _ \<Rightarrow> True | _ \<Rightarrow> False) \<and> told)
      | Dispatching actor \<Rightarrow>
          Inr ((case oc of Completed actor' _ \<Rightarrow> actor' = actor | _ \<Rightarrow> False) \<and> \<not> told
               \<or> asks (\<lambda>r. in_protocol_round r = 1 \<and> in_review_actor_id r = Some actor) oc \<and> told)
      | Input_waiting round pending \<Rightarrow>
          (case oc of
             Input_resuming round' reply _ \<Rightarrow> Inr (round' = round \<and> ip_pending reply = pending \<and> told)
           | Expiry_resuming round' reply \<Rightarrow> expires env now previous round pending (\<not> told) round' reply
           | _ \<Rightarrow> Inr False)
      | Review_waiting round act pending \<Rightarrow>
          (case oc of
             Review_resuming round' act' reply _ _ \<Rightarrow> Inr (round' = round \<and> ip_pending reply = pending \<and> act' = act \<and> told)
           | Expiry_resuming round' reply \<Rightarrow> expires env now previous round pending (\<not> told) round' reply
           | _ \<Rightarrow> Inr False)
      | Expiry_resuming _ _ \<Rightarrow> Inr ((case oc of Expiry_completed _ \<Rightarrow> True | _ \<Rightarrow> False) \<and> \<not> told)
      | Input_resuming round _ actor \<Rightarrow> Inr (resumed round actor oc told)
      | Review_resuming round _ _ actor _ \<Rightarrow> Inr (resumed round actor oc told)
      | _ \<Rightarrow> Inr False)"

text \<open>The event of a save names the operation of the record and repeats its decision.\<close>

definition event_names :: "PersistedMcpReview \<Rightarrow> HcpHarnessEventPayload \<Rightarrow> string \<Rightarrow> string \<Rightarrow> bool" where
  "event_names review e ty requestId =
     (ev_session_id e = sp_session_id (mr_start review) \<and> ev_turn_id e = Some (tp_turn_id (mr_turn review))
      \<and> ev_event_type e = ty \<and> data_is e ''request_id'' requestId
      \<and> data_is e ''session_id'' (sp_session_id (mr_start review)) \<and> data_is e ''turn_id'' (tp_turn_id (mr_turn review)))"

definition approval_asked :: "HcpHarnessEventPayload \<Rightarrow> string \<Rightarrow> string \<Rightarrow> bool" where
  "approval_asked e act h = (data_is e ''action_hash'' h \<and> data_is e ''action'' act)"

definition approval_given :: "HcpHarnessEventPayload \<Rightarrow> string \<Rightarrow> string \<Rightarrow> review_decision \<Rightarrow> bool" where
  "approval_given e h actor d =
     (data_is e ''action_hash'' h \<and> data_is e ''actor_id'' actor \<and> data_is e ''decision'' (decision_text d))"

definition check_event :: "PersistedMcpReview \<Rightarrow> HcpHarnessEventPayload option \<Rightarrow> string + unit" where
  "check_event review event =
     (case event of
        None \<Rightarrow> Inr ()
      | Some e \<Rightarrow>
          (case mr_outcome review of
             Expiry_resuming _ _ \<Rightarrow> Inl ''Automatic expiry cannot record a human decision event.''
           | Expiry_completed _ \<Rightarrow> Inl ''Automatic expiry cannot record a human decision event.''
           | Review_waiting round act _ \<Rightarrow>
               guardR (event_names review e ''approval.requested'' (in_input_request_id round)
                   \<and> approval_asked e (ra_action_json act) (ra_action_hash act))
                 ''Delegated MCP review event differs from its private continuation.''
           | Review_resuming round act _ actor d \<Rightarrow>
               guardR (event_names review e ''approval.resolved'' (in_input_request_id round)
                   \<and> approval_given e (ra_action_hash act) actor d)
                 ''Delegated MCP review event differs from its private continuation.''
           | Input_waiting round _ \<Rightarrow>
               guardR (event_names review e ''input.requested'' (in_input_request_id round))
                 ''MCP event differs from its private continuation.''
           | Input_resuming round _ actor \<Rightarrow>
               bindR (guardR (event_names review e ''input.resolved'' (in_input_request_id round))
                 ''MCP event differs from its private continuation.'') (\<lambda>_.
               guardR (data_is e ''actor_id'' actor) ''MCP input decision differs from its private continuation.'')
           | Waiting \<Rightarrow>
               bindR (guardR (event_names review e ''approval.requested'' (mr_request_id review))
                 ''MCP event differs from its private continuation.'') (\<lambda>_.
               guardR (approval_asked e (mr_action_json review) (mr_action_hash review))
                 ''MCP review event differs from its private continuation.'')
           | oc \<Rightarrow>
               bindR (guardR (event_names review e ''approval.resolved'' (mr_request_id review))
                 ''MCP event differs from its private continuation.'') (\<lambda>_.
               bindR (guardR (data_is e ''action_hash'' (mr_action_hash review))
                 ''MCP review event differs from its private continuation.'') (\<lambda>_.
               guardR (data_is e ''actor_id'' (oc_actor oc)
                   \<and> data_is e ''decision'' (case oc of Declined _ \<Rightarrow> ''decline'' | _ \<Rightarrow> ''accept''))
                 ''MCP review decision differs from its private continuation.''))))"

text \<open>Everything but the outcome.\<close>

definition binding :: "PersistedMcpReview \<Rightarrow> PersistedMcpReview" where
  "binding r = r\<lparr>mr_outcome := Waiting\<rparr>"

definition validateMcpTransition ::
  "mcp_env \<Rightarrow> int \<Rightarrow> PersistedMcpReview option \<Rightarrow> PersistedMcpReview \<Rightarrow> HcpHarnessEventPayload option \<Rightarrow> string + unit" where
  "validateMcpTransition env now previous review event =
     bindR (check_attribution review event) (\<lambda>_.
     bindR (check_delegation env review) (\<lambda>_.
     case previous of
       None \<Rightarrow>
         bindR (guardR (is_initial (mr_outcome review) \<and> event \<noteq> None) ''A new MCP continuation requires its waiting event.'')
           (\<lambda>_. check_event review event)
     | Some p \<Rightarrow>
         bindR (guardR (binding p = binding review) ''MCP continuation transition changed its binding.'') (\<lambda>_.
         if mr_outcome p = mr_outcome review \<and> event = None then Inr ()
         else bindR (advances env now p (mr_outcome review) (event \<noteq> None)) (\<lambda>ok.
              bindR (guardR ok ''MCP continuation transition would change or replay its operation.'') (\<lambda>_.
              check_event review event)))))"

subsection \<open>The state store\<close>

type_synonym review_store = "PersistedMcpReview DurableStore"
type_synonym review_result = "PersistedMcpReview durable"

definition getMcpReview :: "string \<Rightarrow> review_store \<Rightarrow> PersistedMcpReview option" where
  "getMcpReview sid s = map_of (ds_mcpReviews s) sid"

definition pendingMcpReviews :: "review_store \<Rightarrow> PersistedMcpReview list" where
  "pendingMcpReviews s = map snd (ds_mcpReviews s)"

definition exited_sessions :: "review_store \<Rightarrow> (string \<times> unit) list" where
  "exited_sessions s = st_exitedSessions (rs_data (ds_store s))"

text \<open>The roll back of \<open>#persistMcpChange\<close>: the session's review, events and exit mark as before.\<close>

definition undo_change :: "string \<Rightarrow> review_store \<Rightarrow> review_store \<Rightarrow> review_store" where
  "undo_change sid s t =
     set_exited (restore sid (map_of (exited_sessions s) sid) (exited_sessions t))
       (set_events (restore sid (map_of (durable_events s) sid) (durable_events t))
         (t\<lparr>ds_mcpReviews := restore sid (map_of (ds_mcpReviews s) sid) (ds_mcpReviews t)\<rparr>))"

definition check_save :: "mcp_env \<Rightarrow> int \<Rightarrow> PersistedMcpReview \<Rightarrow> HcpHarnessEventPayload option \<Rightarrow> review_store \<Rightarrow> string + unit" where
  "check_save env now review event s =
     (let previous = getMcpReview (sp_session_id (mr_start review)) s in
      bindR (guardR (\<not> (previous = None \<and> 16 \<le> length (ds_mcpReviews s))) ''Pending MCP continuation capacity exceeded.'') (\<lambda>_.
      bindR (guardR (case previous of None \<Rightarrow> True | Some p \<Rightarrow> mr_request_id p = mr_request_id review)
               ''A pending MCP continuation cannot be replaced.'') (\<lambda>_.
      bindR (guardR (me_hash env (mr_action_json review) = mr_action_hash review) ''MCP review action hash changed.'') (\<lambda>_.
      validateMcpTransition env now previous review event))))"

definition saveMcpReview ::
  "mcp_env \<Rightarrow> schema_checks \<Rightarrow> bool \<Rightarrow> int \<Rightarrow> PersistedMcpReview \<Rightarrow> HcpHarnessEventPayload option \<Rightarrow> review_store \<Rightarrow> review_result" where
  "saveMcpReview env c ok now input event s =
     (case persistedMcpReviewSchema env input of
        Inl e \<Rightarrow> (Inl e, s)
      | Inr review \<Rightarrow>
          let sid = sp_session_id (mr_start review) in
          (case check_save env now review event s of
             Inl e \<Rightarrow> (Inl e, s)
           | Inr _ \<Rightarrow>
               let changed = s\<lparr>ds_mcpReviews := AList.update sid review (ds_mcpReviews s)\<rparr> in
               commit ok (undo_change sid s) (append_all c (the_event event) changed) changed))"

fun append_for :: "schema_checks \<Rightarrow> string \<Rightarrow> HcpHarnessEventPayload list \<Rightarrow> review_store \<Rightarrow> string + review_store" where
  "append_for c sid [] s = Inr s"
| "append_for c sid (e # es) s =
     (if ev_session_id e \<noteq> sid then Inl ''MCP cleanup event has another session binding.''
      else bindR (append_parsed c e s) (append_for c sid es))"

definition clearMcpReview ::
  "schema_checks \<Rightarrow> bool \<Rightarrow> string \<Rightarrow> string \<Rightarrow> HcpHarnessEventPayload list \<Rightarrow> review_store \<Rightarrow> review_result" where
  "clearMcpReview c ok sid requestId events s =
     (case getMcpReview sid s of
        None \<Rightarrow> (Inl ''MCP continuation identity changed.'', s)
      | Some review \<Rightarrow>
          if mr_request_id review \<noteq> requestId then (Inl ''MCP continuation identity changed.'', s)
          else commit ok (undo_change sid s)
                 (bindR (append_for c sid events s) (\<lambda>t. Inr (t\<lparr>ds_mcpReviews := AList.delete sid (ds_mcpReviews t)\<rparr>))) s)"

subsection \<open>What a save changes\<close>

definition log_of :: "string \<Rightarrow> review_store \<Rightarrow> HcpHarnessEventPayload set" where
  "log_of sid s = set (session_log (rs_data (ds_store s)) sid)"

text \<open>What the file holds for a session.\<close>

definition saved_review :: "string \<Rightarrow> review_store \<Rightarrow> PersistedMcpReview option" where
  "saved_review sid s = Option.bind (ds_file s) (\<lambda>(_, _, reviews). map_of reviews sid)"

text \<open>The constructor of the store has checked its retention.\<close>

definition retains :: "review_store \<Rightarrow> bool" where
  "retains s \<longleftrightarrow> 1 \<le> rs_eventRetentionPerSession (ds_store s)"

text \<open>No session's review is different, neither in memory nor in the file.\<close>

definition same_reviews :: "review_store \<Rightarrow> review_store \<Rightarrow> bool" where
  "same_reviews s s' \<longleftrightarrow>
     (\<forall>k. getMcpReview k s' = getMcpReview k s \<and> saved_review k s' = saved_review k s) \<and> retains s' = retains s"

text \<open>The session's review is now \<open>r\<close>, or gone, in memory as in the file, and the others are as they were.\<close>

definition review_becomes :: "string \<Rightarrow> PersistedMcpReview option \<Rightarrow> review_store \<Rightarrow> review_store \<Rightarrow> bool" where
  "review_becomes sid r s s' \<longleftrightarrow>
     (\<forall>k. getMcpReview k s' = (if k = sid then r else getMcpReview k s) \<and> saved_review k s' = getMcpReview k s')
     \<and> retains s' = retains s"

lemma map_of_restore [js_map]: "map_of (restore k previous m) = (map_of m)(k := previous)"
  by (auto simp: restore_def js_map split: option.split)

lemma set_parts [simp]:
  "rs_eventRetentionPerSession (ds_store (set_events es s)) = rs_eventRetentionPerSession (ds_store s)"
  "rs_eventRetentionPerSession (ds_store (set_exited xs s)) = rs_eventRetentionPerSession (ds_store s)"
  "ds_file (s\<lparr>ds_mcpReviews := rs\<rparr>) = ds_file s"
  by (simp_all add: set_events_def set_exited_def)

lemma undo_parts:
  "getMcpReview k (undo_change sid s t) = (if k = sid then getMcpReview sid s else getMcpReview k t)"
  "saved_review k (undo_change sid s t) = saved_review k t"
  "retains (undo_change sid s t) = retains t"
  by (simp_all add: undo_change_def getMcpReview_def saved_review_def retains_def js_map)

lemma undone:
  assumes "\<And>k. k \<noteq> sid \<Longrightarrow> getMcpReview k t = getMcpReview k s" "ds_file t = ds_file s" "retains t = retains s"
  shows "same_reviews s (undo_change sid s t)"
proof -
  have "saved_review k t = saved_review k s" for k using assms(2) by (simp add: saved_review_def)
  with assms(1,3) show ?thesis by (auto simp: same_reviews_def undo_parts)
qed

lemma appended_parts:
  assumes "append_all c es s = Inr s'"
  shows "ds_mcpReviews s' = ds_mcpReviews s" "ds_file s' = ds_file s" "retains s' = retains s"
  using append_all_keeps [OF assms] append_all_only_store [OF assms] by (auto simp: retains_def)

lemma append_for_all: "append_for c sid es s = Inr s' \<Longrightarrow> append_all c es s = Inr s'"
  by (induction es arbitrary: s) (auto simp: result_simps split: if_splits)

lemma persisted_parts:
  "getMcpReview k (snd (persist_all True t)) = getMcpReview k t"
  "saved_review k (snd (persist_all True t)) = getMcpReview k t"
  "retains (snd (persist_all True t)) = retains t"
  "log_of sid (snd (persist_all True t)) = log_of sid t"
  by (simp_all add: getMcpReview_def saved_review_def dictionaries_def retains_def log_of_def)

lemma last_kept: "1 \<le> n \<Longrightarrow> e \<in> set (trim_to n (xs @ [e]))"
  by (induction xs) auto

lemma appended_in_log:
  assumes "append_all c [e] s = Inr s'" and "retains s"
  shows "e \<in> log_of (ev_session_id e) s'"
proof -
  obtain d where "append_event_unpersisted (rs_eventRetentionPerSession (ds_store s)) e (rs_data (ds_store s)) = Inr d"
    and "s' = s\<lparr>ds_store := (ds_store s)\<lparr>rs_data := d\<rparr>\<rparr>"
    using assms(1) by (auto simp: bindR_eq_Inr elim: append_parsed_Inr)
  with assms(2) append_event_unpersisted_Inr(2) [OF this(1)] show ?thesis
    by (simp add: log_of_def retains_def last_kept)
qed

lemma save_cases:
  assumes "saveMcpReview env c ok now input event s = (res, s')"
  obtains (unchanged) e where "res = Inl e" "same_reviews s s'"
  | (saved) review where "res = Inr ()" "persistedMcpReviewSchema env input = Inr review"
      "check_save env now review event s = Inr ()" "review_becomes (sp_session_id (mr_start review)) (Some review) s s'"
      "\<And>e. event = Some e \<Longrightarrow> retains s \<Longrightarrow> e \<in> log_of (ev_session_id e) s'"
proof (cases "persistedMcpReviewSchema env input")
  case (Inl e)
  with assms show thesis by (intro unchanged [of e]) (simp_all add: saveMcpReview_def same_reviews_def)
next
  case (Inr review)
  let ?sid = "sp_session_id (mr_start review)"
  let ?changed = "s\<lparr>ds_mcpReviews := AList.update ?sid review (ds_mcpReviews s)\<rparr>"
  show thesis
  proof (cases "check_save env now review event s")
    case err: (Inl e)
    with assms Inr show thesis by (intro unchanged [of e]) (simp_all add: saveMcpReview_def same_reviews_def)
  next
    case checked: (Inr u)
    have others: "getMcpReview k t = getMcpReview k s" if "k \<noteq> ?sid" "ds_mcpReviews t = ds_mcpReviews ?changed" for k t
      using that by (simp add: getMcpReview_def js_map)
    have com: "commit ok (undo_change ?sid s) (append_all c (the_event event) ?changed) ?changed = (res, s')"
      using assms Inr checked by (simp add: saveMcpReview_def Let_def)
    then show thesis
    proof (cases rule: commit_cases)
      case (refused m)
      then show thesis by (intro unchanged) (auto intro!: undone simp: others retains_def)
    next
      case (unwritten t)
      with appended_parts [OF unwritten(1)] show thesis
        by (intro unchanged) (auto intro!: undone simp: others retains_def)
    next
      case (written t)
      note t = appended_parts [OF written(1)]
      have "review_becomes ?sid (Some review) s s'"
        unfolding review_becomes_def written(4) persisted_parts
        using t by (simp add: getMcpReview_def js_map retains_def)
      moreover have "e \<in> log_of (ev_session_id e) s'" if "event = Some e" "retains s" for e
        unfolding written(4) persisted_parts
        using written(1) that appended_in_log [of c e ?changed t] by (simp add: the_event_def retains_def)
      ultimately show thesis using Inr checked written(3) by (intro saved [of review]) auto
    qed
  qed
qed

lemma clear_cases:
  assumes "clearMcpReview c ok sid requestId events s = (res, s')"
  obtains (unchanged) e where "res = Inl e" "same_reviews s s'"
  | (cleared) r where "res = Inr ()" "getMcpReview sid s = Some r" "mr_request_id r = requestId" "review_becomes sid None s s'"
proof (cases "getMcpReview sid s")
  case None
  with assms show thesis by (auto simp: clearMcpReview_def same_reviews_def intro: unchanged)
next
  case (Some r)
  show thesis
  proof (cases "mr_request_id r = requestId")
    case False
    with assms Some show thesis by (auto simp: clearMcpReview_def same_reviews_def intro: unchanged)
  next
    case True
    have com: "commit ok (undo_change sid s)
        (bindR (append_for c sid events s) (\<lambda>t. Inr (t\<lparr>ds_mcpReviews := AList.delete sid (ds_mcpReviews t)\<rparr>))) s = (res, s')"
      using assms Some True by (simp add: clearMcpReview_def)
    then show thesis
    proof (cases rule: commit_cases)
      case (refused m)
      then show thesis by (intro unchanged) (auto intro!: undone)
    next
      case (unwritten t)
      then obtain u where "append_all c events s = Inr u" and t: "t = u\<lparr>ds_mcpReviews := AList.delete sid (ds_mcpReviews u)\<rparr>"
        by (auto simp: bindR_eq_Inr dest: append_for_all)
      from appended_parts [OF this(1)] t unwritten show thesis
        by (intro unchanged) (auto intro!: undone simp: getMcpReview_def js_map retains_def)
    next
      case (written t)
      then obtain u where "append_all c events s = Inr u" and t: "t = u\<lparr>ds_mcpReviews := AList.delete sid (ds_mcpReviews u)\<rparr>"
        by (auto simp: bindR_eq_Inr dest: append_for_all)
      note u = appended_parts [OF this(1)]
      have "review_becomes sid None s s'"
        unfolding review_becomes_def written(4) persisted_parts
        using t u by (simp add: getMcpReview_def js_map retains_def)
      with written(3) Some True show thesis by (intro cleared)
    qed
  qed
qed

subsection \<open>Progress\<close>

definition is_resolved :: "review_outcome \<Rightarrow> bool" where
  "is_resolved oc = (case oc of Completed _ _ \<Rightarrow> True | Expiry_completed _ \<Rightarrow> True | Declined _ \<Rightarrow> True | _ \<Rightarrow> False)"

text \<open>How far an unresolved operation has come: each round of input is asked and then answered.\<close>

definition rank :: "review_outcome \<Rightarrow> int" where
  "rank oc =
     (case oc of
        Waiting \<Rightarrow> 0 | Dispatching _ \<Rightarrow> 1
      | Input_waiting r _ \<Rightarrow> 2 * in_protocol_round r | Review_waiting r _ _ \<Rightarrow> 2 * in_protocol_round r
      | Input_resuming r _ _ \<Rightarrow> 2 * in_protocol_round r + 1 | Review_resuming r _ _ _ _ \<Rightarrow> 2 * in_protocol_round r + 1
      | Expiry_resuming r _ \<Rightarrow> 2 * in_protocol_round r + 1
      | _ \<Rightarrow> 0)"

definition progress :: "review_outcome \<Rightarrow> review_outcome \<Rightarrow> bool" where
  "progress oc oc' \<longleftrightarrow> \<not> is_resolved oc \<and> (is_resolved oc' \<or> rank oc < rank oc')"

lemmas outcome_defs = is_resolved_def rank_def asks_def resumed_def

lemma expires_True: "expires env now p round pending quiet round' reply = Inr True \<Longrightarrow> round' = round \<and> quiet"
  by (auto simp: expires_def result_simps split: if_splits)

lemma advances_progress:
  assumes "advances env now p oc told = Inr True"
  shows "progress (mr_outcome p) oc"
  using assms
  by (cases "mr_outcome p"; cases oc) (auto simp: advances_def progress_def outcome_defs dest: expires_True)

text \<open>The events that tell how the operation came to its outcome.\<close>

definition asked :: "HcpHarnessEventPayload set \<Rightarrow> PersistedMcpReview \<Rightarrow> string \<Rightarrow> string \<Rightarrow> string \<Rightarrow> bool" where
  "asked E r i act h \<longleftrightarrow> (\<exists>e \<in> E. event_names r e ''approval.requested'' i \<and> approval_asked e act h)"

definition resolved_by :: "HcpHarnessEventPayload set \<Rightarrow> PersistedMcpReview \<Rightarrow> string \<Rightarrow> string \<Rightarrow> string \<Rightarrow> review_decision \<Rightarrow> bool" where
  "resolved_by E r i h actor d \<longleftrightarrow> (\<exists>e \<in> E. event_names r e ''approval.resolved'' i \<and> approval_given e h actor d)"

definition answered_by :: "HcpHarnessEventPayload set \<Rightarrow> PersistedMcpReview \<Rightarrow> string \<Rightarrow> string \<Rightarrow> bool" where
  "answered_by E r i actor \<longleftrightarrow> (\<exists>e \<in> E. event_names r e ''input.resolved'' i \<and> data_is e ''actor_id'' actor)"

text \<open>The action of the operation was shown under its id and hash, and the actor accepted it.\<close>

definition approved :: "HcpHarnessEventPayload set \<Rightarrow> PersistedMcpReview \<Rightarrow> string \<Rightarrow> bool" where
  "approved E r actor \<longleftrightarrow>
     asked E r (mr_request_id r) (mr_action_json r) (mr_action_hash r)
     \<and> resolved_by E r (mr_request_id r) (mr_action_hash r) actor Rv_accept"

definition round_told :: "HcpHarnessEventPayload set \<Rightarrow> PersistedMcpReview \<Rightarrow> input_round \<Rightarrow> bool" where
  "round_told E r round \<longleftrightarrow> (\<forall>actor. in_review_actor_id round = Some actor \<longrightarrow> approved E r actor)"

definition told :: "HcpHarnessEventPayload set \<Rightarrow> PersistedMcpReview \<Rightarrow> bool" where
  "told E r \<longleftrightarrow>
     (case mr_outcome r of
        Waiting \<Rightarrow> asked E r (mr_request_id r) (mr_action_json r) (mr_action_hash r)
      | Dispatching actor \<Rightarrow> approved E r actor
      | Declined actor \<Rightarrow> resolved_by E r (mr_request_id r) (mr_action_hash r) actor Rv_decline
      | Input_waiting round _ \<Rightarrow> round_told E r round
      | Input_resuming round _ actor \<Rightarrow> round_told E r round \<and> answered_by E r (in_input_request_id round) actor
      | Review_waiting round act _ \<Rightarrow>
          round_told E r round \<and> asked E r (in_input_request_id round) (ra_action_json act) (ra_action_hash act)
      | Review_resuming round act _ actor d \<Rightarrow>
          round_told E r round \<and> asked E r (in_input_request_id round) (ra_action_json act) (ra_action_hash act)
          \<and> resolved_by E r (in_input_request_id round) (ra_action_hash act) actor d
      | Expiry_resuming round _ \<Rightarrow> round_told E r round
      | _ \<Rightarrow> True)"

lemmas told_defs = told_def round_told_def approved_def asked_def resolved_by_def answered_by_def

lemma told_parts_mono:
  assumes "E \<subseteq> E'"
  shows "asked E r i act h \<Longrightarrow> asked E' r i act h"
    and "resolved_by E r i h actor d \<Longrightarrow> resolved_by E' r i h actor d"
    and "answered_by E r i actor \<Longrightarrow> answered_by E' r i actor"
    and "approved E r actor \<Longrightarrow> approved E' r actor"
    and "round_told E r round \<Longrightarrow> round_told E' r round"
  using assms unfolding told_defs by blast+

lemma told_mono: "told E r \<Longrightarrow> E \<subseteq> E' \<Longrightarrow> told E' r"
  by (cases "mr_outcome r") (auto simp: told_def intro: told_parts_mono)

lemma binding_parts:
  assumes "binding p = binding r"
  shows "mr_start r = mr_start p" "mr_turn r = mr_turn p" "mr_request_id r = mr_request_id p"
    "mr_action_json r = mr_action_json p" "mr_action_hash r = mr_action_hash p" "mr_native_work_id r = mr_native_work_id p"
proof -
  have parts: "mr_start (binding x) = mr_start x" "mr_turn (binding x) = mr_turn x" "mr_request_id (binding x) = mr_request_id x"
    "mr_action_json (binding x) = mr_action_json x" "mr_action_hash (binding x) = mr_action_hash x"
    "mr_native_work_id (binding x) = mr_native_work_id x" for x
    by (simp_all add: binding_def)
  show "mr_start r = mr_start p" "mr_turn r = mr_turn p" "mr_request_id r = mr_request_id p"
    "mr_action_json r = mr_action_json p" "mr_action_hash r = mr_action_hash p" "mr_native_work_id r = mr_native_work_id p"
    using assms parts by metis+
qed

lemma same_binding_events:
  assumes "binding p = binding r"
  shows "event_names r = event_names p"
  using binding_parts [OF assms] by (simp add: event_names_def fun_eq_iff)

lemma same_record: "binding p = binding r \<Longrightarrow> mr_outcome p = mr_outcome r \<Longrightarrow> p = r"
  by (cases p; cases r) (simp add: binding_def)

lemma initial_told:
  assumes "is_initial (mr_outcome r)" "check_event r (Some e) = Inr u" "e \<in> E"
  shows "told E r"
  using assms
  by (auto simp: told_defs is_initial_def check_event_def result_simps split: review_outcome.splits)

lemma advances_told:
  assumes p: "told E p" and b: "binding p = binding r" and "E \<subseteq> E'"
    and adv: "advances env now p (mr_outcome r) (event \<noteq> None) = Inr True"
    and ev: "check_event r event = Inr u" "\<And>e. event = Some e \<Longrightarrow> e \<in> E'"
  shows "told E' r"
proof -
  note eqs = binding_parts [OF b] same_binding_events [OF b]
  have p': "told E' p" using told_mono [OF p \<open>E \<subseteq> E'\<close>] .
  show ?thesis
    using p' adv ev
    by (cases "mr_outcome p"; cases "mr_outcome r")
       (auto simp: advances_def told_defs eqs check_event_def result_simps outcome_defs approval_given_def decision_text_def
          dest!: expires_True split: option.splits)
qed

end
