(* ===== verification/Mcp_Continuation.thy ===== *)
theory Mcp_Continuation
  imports Mcp_Review Effect_Wp
begin

text \<open>
  The owner of reviewed MCP calls, class \<open>HarnessMcpReview\<close>
  (\<open>packages/hcp-runner/src/harnesses/mcp-review.ts\<close>), over the durable reviews of \<open>Mcp_Review\<close>.

  A method is an effect on the store.  Its promise is cut where it waits: \<open>request_review\<close> and
  \<open>wait_for_input\<close> end with the review saved and the event published; what resolves the promise, its
  timers and its abort signal are steps of \<open>Mcp_Operations\<close>.  \<open>ok\<close> says whether a write of the state
  file succeeds, \<open>now\<close> is \<open>Date.now()\<close> of the call and \<open>uuid\<close> what \<open>randomUUID()\<close> gives.
\<close>

type_synonym 'a review_act = "(review_store, string, 'a) act"

text \<open>A call of the state store that succeeds or throws.\<close>

definition storeA :: "(review_store \<Rightarrow> review_result) \<Rightarrow> unit review_act" where
  "storeA f s = Some (f s)"

record HarnessMcpReview =
  hr_start :: HcpSessionStartPayload
  hr_turn :: HcpTurnSendPayload
  hr_work :: "string option"

record HarnessMcpReviewRequest =
  mq_attachment_name :: string
  mq_tool_name :: string
  mq_arguments :: "(string \<times> json) list"
  mq_native_thread_id :: string
  mq_native_turn_id :: string
  mq_native_call_id :: string
  mq_native_request :: "HarnessNativeRequestIdentity option"

record McpReviewGrant =
  gr_request_id :: string
  gr_action_json :: string

record HcpApprovalResponsePayload =
  ap_request_id :: string
  ap_session_id :: string
  ap_turn_id :: string
  ap_action_hash :: string
  ap_decision :: string
  ap_actor_id :: string
  ap_feedback :: "string option"

record HcpInputResponsePayload =
  ir_request_id :: string
  ir_session_id :: string
  ir_actor_id :: string
  ir_turn_id :: "string option"
  ir_value :: "json option"
  ir_cancelled :: "bool option"

text \<open>What the methods are given of the world: the environment, the schema checks, the time, an id and writes.\<close>

record review_io =
  ro_env :: mcp_env
  ro_checks :: schema_checks
  ro_now :: int
  ro_uuid :: string
  ro_ok_clear :: bool
  ro_ok_save :: bool

subsection \<open>Deadlines\<close>

definition operationExpiresAt :: "mcp_env \<Rightarrow> PersistedMcpReview \<Rightarrow> string + string" where
  "operationExpiresAt env review =
     (case mr_outcome review of
        Input_waiting _ p \<Rightarrow> mcpInputExpiresAt env p (mr_expires_at review)
      | Review_waiting _ _ p \<Rightarrow> mcpInputExpiresAt env p (mr_expires_at review)
      | Input_resuming _ reply _ \<Rightarrow> mcpInputExpiresAt env (ip_pending reply) (mr_expires_at review)
      | Review_resuming _ _ reply _ _ \<Rightarrow> mcpInputExpiresAt env (ip_pending reply) (mr_expires_at review)
      | _ \<Rightarrow> Inr (mr_expires_at review))"

definition platformReleasesChildReview :: "PersistedMcpReview \<Rightarrow> bool" where
  "platformReleasesChildReview review =
     (case mr_outcome review of
        Review_waiting _ _ p \<Rightarrow> meta_field p ''com.prompt2agent/input-on-expiry'' = Some (JStr ''cancel'')
      | Review_resuming _ _ reply _ _ \<Rightarrow>
          meta_field (ip_pending reply) ''com.prompt2agent/input-on-expiry'' = Some (JStr ''cancel'')
      | _ \<Rightarrow> False)"

definition declineExpiresAt :: "mcp_env \<Rightarrow> PersistedMcpReview \<Rightarrow> string + string" where
  "declineExpiresAt env review =
     (if platformReleasesChildReview review then Inr (mr_expires_at review) else operationExpiresAt env review)"

definition deadline_passed :: "mcp_env \<Rightarrow> int \<Rightarrow> (string + string) \<Rightarrow> string + bool" where
  "deadline_passed env now at = bindR at (\<lambda>t. Inr (time_passed (me_date_parse env t) now))"

subsection \<open>Events and records\<close>

text \<open>\<open>{...data, native_request, native_work_id}\<close>: a key that is there keeps its place.\<close>

definition review_event ::
  "HarnessMcpReview \<Rightarrow> review_io \<Rightarrow> string \<Rightarrow> (string \<times> json) list \<Rightarrow> review_store \<Rightarrow> HcpHarnessEventPayload" where
  "review_event rv io ty data s =
     (let sid = sp_session_id (hr_start rv);
          native = (case map_of data ''native_request'' of
                      Some n \<Rightarrow> Some n
                    | None \<Rightarrow> Option.bind (getMcpReview sid s) (\<lambda>r. map_option native_request_json (mr_native_request r)));
          data1 = (case native of None \<Rightarrow> data | Some n \<Rightarrow> AList.update ''native_request'' n data);
          data2 = (case hr_work rv of None \<Rightarrow> data1 | Some w \<Rightarrow> AList.update ''native_work_id'' (JStr w) data1) in
      \<lparr>ev_session_id = sid, ev_turn_id = Some (tp_turn_id (hr_turn rv)),
       ev_sequence = nextEventSequence (rs_data (ds_store s)) sid, ev_event_type = ty,
       ev_created_at = me_iso (ro_env io) (ro_now io), ev_data = JObj data2, ev_raw = None\<rparr>)"

definition request_action :: "HarnessMcpReviewRequest \<Rightarrow> McpDelegatedReviewSubject option \<Rightarrow> string" where
  "request_action rq subject =
     render (action_json \<lparr>ac_attachment_name = mq_attachment_name rq, ac_tool_name = mq_tool_name rq,
       ac_arguments = mq_arguments rq, ac_delegated_subject = subject\<rparr>)"

definition reviewed_attachment :: "HarnessMcpReview \<Rightarrow> string \<Rightarrow> string + string" where
  "reviewed_attachment rv name =
     (case find (\<lambda>a. at_name a = name) (sp_mcp_servers (hr_start rv)) of
        Some a \<Rightarrow> (case at_expires_at a of
            Some e \<Rightarrow> if at_http a \<and> e \<noteq> [] \<and> at_lease_id a \<notin> {None, Some []} then Inr e else Inl ''mcp_review_attachment_invalid''
          | None \<Rightarrow> Inl ''mcp_review_attachment_invalid'')
      | None \<Rightarrow> Inl ''mcp_review_attachment_invalid'')"

definition parsed_native :: "HarnessMcpReviewRequest \<Rightarrow> string + HarnessNativeRequestIdentity option" where
  "parsed_native rq =
     (case mq_native_request rq of
        None \<Rightarrow> Inr None
      | Some n \<Rightarrow> if harnessNativeRequestIdentitySchema n then Inr (Some n) else Inl ''ZodError'')"

text \<open>\<open>#newOperation\<close>: a resolved review of the session is cleared, an unresolved one refuses the new.\<close>

definition clear_resolved :: "string \<Rightarrow> review_io \<Rightarrow> unit review_act" where
  "clear_resolved sid io =
     bindA (readA (\<lambda>s. Inr (getMcpReview sid s))) (\<lambda>previous.
     case previous of
       None \<Rightarrow> returnA ()
     | Some p \<Rightarrow> bindA (guardA (is_resolved (mr_outcome p)) ''mcp_review_pending'')
         (\<lambda>_. storeA (clearMcpReview (ro_checks io) (ro_ok_clear io) sid (mr_request_id p) [])))"

definition operation_record ::
  "HarnessMcpReview \<Rightarrow> review_io \<Rightarrow> string \<Rightarrow> HarnessMcpReviewRequest \<Rightarrow> review_outcome \<Rightarrow> int option \<Rightarrow> string + PersistedMcpReview" where
  "operation_record rv io requestId rq oc expiry =
     bindR (mcpReviewActionBytes (request_action rq None)) (\<lambda>bytes.
     bindR (parsed_native rq) (\<lambda>native.
     case expiry of
       None \<Rightarrow> Inl ''RangeError''
     | Some t \<Rightarrow> Inr
         \<lparr>mr_start = hr_start rv, mr_turn = hr_turn rv, mr_native_thread_id = mq_native_thread_id rq,
          mr_native_turn_id = mq_native_turn_id rq, mr_native_call_id = mq_native_call_id rq, mr_native_work_id = hr_work rv,
          mr_native_request = native, mr_request_id = requestId, mr_action_json = request_action rq None,
          mr_action_hash = me_hash (ro_env io) bytes, mr_expires_at = me_iso (ro_env io) (min t (ro_now io + 300000)),
          mr_outcome = oc\<rparr>))"

definition newOperation ::
  "HarnessMcpReview \<Rightarrow> review_io \<Rightarrow> string \<Rightarrow> HarnessMcpReviewRequest \<Rightarrow> review_outcome \<Rightarrow> PersistedMcpReview review_act" where
  "newOperation rv io requestId rq oc =
     bindA (readA (\<lambda>_. reviewed_attachment rv (mq_attachment_name rq))) (\<lambda>e.
     let expiry = me_date_parse (ro_env io) e in
     bindA (guardA (\<not> time_passed expiry (ro_now io)) ''mcp_review_expired'') (\<lambda>_.
     bindA (clear_resolved (sp_session_id (hr_start rv)) io) (\<lambda>_.
     readA (\<lambda>_. operation_record rv io requestId rq oc expiry))))"

definition start_fields :: "HarnessMcpReview \<Rightarrow> (string \<times> json) list" where
  "start_fields rv = [(''workspace_id'', JStr (sp_workspace_id (hr_start rv))),
     (''provider_instance_id'', JStr (sp_provider_instance_id (hr_start rv))), (''driver_kind'', JStr (sp_driver_kind (hr_start rv)))]"

definition approval_data ::
  "HarnessMcpReview \<Rightarrow> string \<Rightarrow> string \<Rightarrow> string \<Rightarrow> string \<Rightarrow> string \<Rightarrow> HarnessNativeRequestIdentity option \<Rightarrow> (string \<times> json) list" where
  "approval_data rv requestId act h expiresAt tool native =
     [(''request_id'', JStr requestId), (''session_id'', JStr (sp_session_id (hr_start rv))), (''turn_id'', JStr (tp_turn_id (hr_turn rv)))]
     @ start_fields rv
     @ [(''request_type'', JStr ''mcp_tool''), (''risk_class'', JStr ''medium''), (''action'', JStr act), (''action_hash'', JStr h),
        (''allowed_decisions'', JArr [JStr ''accept'', JStr ''decline'']), (''expires_at'', JStr expiresAt),
        (''display'', JObj [(''title'', JStr (''Run '' @ tool))])]
     @ field ''native_request'' (map_option native_request_json native)"

text \<open>The event is built from the store before the save.\<close>

definition save_with_event ::
  "HarnessMcpReview \<Rightarrow> review_io \<Rightarrow> PersistedMcpReview \<Rightarrow> string \<Rightarrow> (string \<times> json) list \<Rightarrow> unit review_act" where
  "save_with_event rv io review ty data =
     bindA (readA (\<lambda>s. Inr (review_event rv io ty data s))) (\<lambda>e.
     storeA (saveMcpReview (ro_env io) (ro_checks io) (ro_ok_save io) (ro_now io) review (Some e)))"

definition save_quietly :: "review_io \<Rightarrow> PersistedMcpReview \<Rightarrow> unit review_act" where
  "save_quietly io review = storeA (saveMcpReview (ro_env io) (ro_checks io) (ro_ok_save io) (ro_now io) review None)"

text \<open>\<open>request\<close>, until it waits for the decision.\<close>

definition request_review :: "HarnessMcpReview \<Rightarrow> review_io \<Rightarrow> HarnessMcpReviewRequest \<Rightarrow> PersistedMcpReview review_act" where
  "request_review rv io rq =
     bindA (newOperation rv io (ro_uuid io) rq Waiting) (\<lambda>review.
     bindA (save_with_event rv io review ''approval.requested''
       (approval_data rv (mr_request_id review) (mr_action_json review) (mr_action_hash review) (mr_expires_at review)
          (mq_tool_name rq) (mr_native_request review))) (\<lambda>_.
     returnA review))"

subsection \<open>Decisions\<close>

definition response_matches :: "HarnessMcpReview \<Rightarrow> HcpApprovalResponsePayload \<Rightarrow> string \<Rightarrow> string \<Rightarrow> bool" where
  "response_matches rv response requestId h =
     (ap_session_id response = sp_session_id (hr_start rv) \<and> ap_turn_id response = tp_turn_id (hr_turn rv)
      \<and> ap_request_id response = requestId \<and> ap_action_hash response = h \<and> ap_decision response \<in> {''accept'', ''decline''})"

definition delegated_decision ::
  "HarnessMcpReview \<Rightarrow> review_io \<Rightarrow> HcpApprovalResponsePayload \<Rightarrow> PersistedMcpReview \<Rightarrow> input_round \<Rightarrow> review_action \<Rightarrow>
     (string \<times> review_decision) option \<Rightarrow> string + PersistedMcpReview" where
  "delegated_decision rv io response review round act decided =
     bindR (guardR (response_matches rv response (in_input_request_id round) (ra_action_hash act)) ''mcp_review_binding_invalid'') (\<lambda>_.
     bindR (deadline_passed (ro_env io) (ro_now io)
              (if ap_decision response = ''decline'' then declineExpiresAt (ro_env io) review else operationExpiresAt (ro_env io) review)) (\<lambda>late.
     bindR (guardR (\<not> late) ''mcp_review_binding_invalid'') (\<lambda>_.
     case decided of
       None \<Rightarrow> Inr review
     | Some (actor, d) \<Rightarrow>
         if ap_decision response = decision_text d \<and> ap_actor_id response = actor then Inr review
         else Inl ''mcp_review_decision_conflict'')))"

text \<open>\<open>#decision\<close>\<close>

definition the_decision ::
  "HarnessMcpReview \<Rightarrow> review_io \<Rightarrow> HcpApprovalResponsePayload \<Rightarrow> review_store \<Rightarrow> string + PersistedMcpReview" where
  "the_decision rv io response s =
     (if ap_feedback response \<noteq> None then Inl ''mcp_feedback_unsupported''
      else case getMcpReview (sp_session_id (hr_start rv)) s of
        None \<Rightarrow> Inl ''mcp_review_binding_invalid''
      | Some review \<Rightarrow>
          if mr_native_work_id review \<noteq> hr_work rv then Inl ''mcp_review_binding_invalid''
          else (case mr_outcome review of
            Review_waiting round act _ \<Rightarrow> delegated_decision rv io response review round act None
          | Review_resuming round act _ actor d \<Rightarrow> delegated_decision rv io response review round act (Some (actor, d))
          | oc \<Rightarrow>
              if \<not> response_matches rv response (mr_request_id review) (mr_action_hash review)
                 \<or> time_passed (me_date_parse (ro_env io) (mr_expires_at review)) (ro_now io)
              then Inl ''mcp_review_binding_invalid''
              else (case oc of
                Waiting \<Rightarrow> Inr review
              | Dispatching actor \<Rightarrow>
                  if ap_decision response = ''accept'' \<and> actor = ap_actor_id response then Inr review else Inl ''mcp_review_decision_conflict''
              | Declined actor \<Rightarrow>
                  if ap_decision response \<noteq> ''accept'' \<and> actor = ap_actor_id response then Inr review else Inl ''mcp_review_decision_conflict''
              | Completed actor _ \<Rightarrow>
                  if ap_decision response = ''accept'' \<and> actor = ap_actor_id response then Inr review else Inl ''mcp_review_decision_conflict''
              | _ \<Rightarrow> Inl ''mcp_review_decision_conflict'')))"

definition response_data :: "review_io \<Rightarrow> HcpApprovalResponsePayload \<Rightarrow> (string \<times> json) list" where
  "response_data io response =
     [(''request_id'', JStr (ap_request_id response)), (''session_id'', JStr (ap_session_id response)),
      (''turn_id'', JStr (ap_turn_id response)), (''action_hash'', JStr (ap_action_hash response)),
      (''decision'', JStr (ap_decision response)), (''actor_id'', JStr (ap_actor_id response))]
     @ field ''feedback'' (map_option JStr (ap_feedback response))
     @ [(''resolved_at'', JStr (me_iso (ro_env io) (ro_now io)))]"

text \<open>\<open>#decideDelegated\<close>\<close>

definition decideDelegated ::
  "HarnessMcpReview \<Rightarrow> review_io \<Rightarrow> HcpApprovalResponsePayload \<Rightarrow> PersistedMcpReview \<Rightarrow> input_round \<Rightarrow> review_action \<Rightarrow>
     McpPendingInput \<Rightarrow> PersistedMcpReview review_act" where
  "decideDelegated rv io response review round act pending =
     (let d = (if ap_decision response = ''accept'' then Rv_accept else Rv_decline) in
      bindA (readA (\<lambda>_. case Option.bind (meta_field pending MCP_REVIEW_META_KEY) mcpDelegatedReviewRequestSchema of
                          None \<Rightarrow> Inl ''ZodError'' | Some delegated \<Rightarrow> Inr delegated)) (\<lambda>delegated.
      bindA (readA (\<lambda>_. mcpInputReplySchema (ro_env io)
               \<lparr>ip_pending = pending, ip_responses = delegated_responses (dr_input_request_id delegated) round act d\<rparr>)) (\<lambda>reply.
      let updated = review\<lparr>mr_outcome := Review_resuming round act reply (ap_actor_id response) d\<rparr> in
      bindA (save_with_event rv io updated ''approval.resolved'' (response_data io response)) (\<lambda>_.
      returnA updated))))"

definition decide :: "HarnessMcpReview \<Rightarrow> review_io \<Rightarrow> HcpApprovalResponsePayload \<Rightarrow> PersistedMcpReview review_act" where
  "decide rv io response =
     bindA (readA (the_decision rv io response)) (\<lambda>review.
     case mr_outcome review of
       Review_waiting round act pending \<Rightarrow> decideDelegated rv io response review round act pending
     | Waiting \<Rightarrow>
         let oc = (if ap_decision response = ''accept'' then Dispatching (ap_actor_id response) else Declined (ap_actor_id response));
             updated = review\<lparr>mr_outcome := oc\<rparr> in
         bindA (save_with_event rv io updated ''approval.resolved'' (response_data io response)) (\<lambda>_. returnA updated)
     | _ \<Rightarrow> returnA review)"

subsection \<open>Calls and their results\<close>

text \<open>\<open>complete\<close>, with the text of the result\<close>

definition complete_review :: "HarnessMcpReview \<Rightarrow> review_io \<Rightarrow> McpReviewGrant \<Rightarrow> string \<Rightarrow> unit review_act" where
  "complete_review rv io grant result =
     bindA (readA (\<lambda>s. case getMcpReview (sp_session_id (hr_start rv)) s of
         None \<Rightarrow> Inl ''mcp_review_result_mismatch''
       | Some review \<Rightarrow>
           (case mr_outcome review of
              Dispatching actor \<Rightarrow>
                if mr_native_work_id review = hr_work rv \<and> mr_request_id review = gr_request_id grant
                   \<and> mr_action_json review = gr_action_json grant
                then Inr (review, actor) else Inl ''mcp_review_result_mismatch''
            | _ \<Rightarrow> Inl ''mcp_review_result_mismatch''))) (\<lambda>(review, actor).
     save_quietly io (review\<lparr>mr_outcome := Completed actor result\<rparr>))"

text \<open>The round and the reply of an answered input.\<close>

definition resuming :: "review_outcome \<Rightarrow> (input_round \<times> McpInputReply) option" where
  "resuming oc =
     (case oc of
        Input_resuming r reply _ \<Rightarrow> Some (r, reply)
      | Review_resuming r _ reply _ _ \<Rightarrow> Some (r, reply)
      | Expiry_resuming r reply \<Rightarrow> Some (r, reply)
      | _ \<Rightarrow> None)"

definition is_dispatching :: "review_outcome \<Rightarrow> bool" where
  "is_dispatching oc = (case oc of Dispatching _ \<Rightarrow> True | _ \<Rightarrow> False)"

definition call_deadline :: "mcp_env \<Rightarrow> PersistedMcpReview \<Rightarrow> string + string" where
  "call_deadline env review =
     (case mr_outcome review of
        Review_resuming _ _ _ _ Rv_decline \<Rightarrow> declineExpiresAt env review
      | _ \<Rightarrow> operationExpiresAt env review)"

text \<open>Is this review the operation that the grant and the reply continue?\<close>

definition continues ::
  "HarnessMcpReview \<Rightarrow> HarnessMcpReviewRequest \<Rightarrow> McpReviewGrant option \<Rightarrow> McpInputReply option \<Rightarrow> PersistedMcpReview \<Rightarrow> bool" where
  "continues rv rq grant reply review =
     (mr_native_work_id review = hr_work rv \<and> mr_native_call_id review = mq_native_call_id rq
      \<and> mr_native_thread_id review = mq_native_thread_id rq
      \<and> same_opt (map_option native_request_json (mr_native_request review)) (map_option native_request_json (mq_native_request rq))
      \<and> mr_native_turn_id review = mq_native_turn_id rq
      \<and> mr_action_json review = request_action rq None
      \<and> (case grant of None \<Rightarrow> True
          | Some g \<Rightarrow> mr_request_id review = gr_request_id g \<and> mr_action_json review = gr_action_json g)
      \<and> (case reply of
           None \<Rightarrow> is_dispatching (mr_outcome review)
         | Some r \<Rightarrow> (case resuming (mr_outcome review) of
             None \<Rightarrow> False
           | Some (round, recorded) \<Rightarrow> recorded = r
               \<and> (in_review_actor_id round \<notin> {None, Some []}) = (grant \<noteq> None))))"

text \<open>The checks of \<open>invoke\<close> before \<open>callTool\<close>; the value is the retained review.\<close>

definition invoke_check ::
  "HarnessMcpReview \<Rightarrow> review_io \<Rightarrow> HarnessMcpReviewRequest \<Rightarrow> McpReviewGrant option \<Rightarrow> McpInputReply option \<Rightarrow> review_store \<Rightarrow>
     string + PersistedMcpReview option" where
  "invoke_check rv io rq grant reply s =
     (let retained = getMcpReview (sp_session_id (hr_start rv)) s in
      if reply = None \<and> grant = None
      then (case retained of
              Some r \<Rightarrow> if mr_native_call_id r = mq_native_call_id rq \<and> mr_native_turn_id r = mq_native_turn_id rq
                        then Inl ''mcp_input_replay_denied'' else Inr retained
            | None \<Rightarrow> Inr retained)
      else (case retained of
              None \<Rightarrow> Inl ''mcp_input_binding_invalid''
            | Some r \<Rightarrow>
                bindR (deadline_passed (ro_env io) (ro_now io) (call_deadline (ro_env io) r)) (\<lambda>late.
                bindR (guardR (\<not> late \<and> continues rv rq grant reply r) ''mcp_input_binding_invalid'') (\<lambda>_. Inr retained))))"

text \<open>After \<open>callTool\<close> returned: a retained operation is completed with the result.\<close>

definition finish_call ::
  "review_io \<Rightarrow> McpReviewGrant option \<Rightarrow> McpInputReply option \<Rightarrow> PersistedMcpReview option \<Rightarrow> string \<Rightarrow> unit review_act" where
  "finish_call io grant reply retained result =
     (case retained of
        None \<Rightarrow> returnA ()
      | Some r \<Rightarrow>
          if grant = None \<and> reply = None then returnA ()
          else (case mr_outcome r of
            Dispatching actor \<Rightarrow> save_quietly io (r\<lparr>mr_outcome := Completed actor result\<rparr>)
          | Input_resuming _ _ actor \<Rightarrow> save_quietly io (r\<lparr>mr_outcome := Completed actor result\<rparr>)
          | Review_resuming _ _ _ actor _ \<Rightarrow> save_quietly io (r\<lparr>mr_outcome := Completed actor result\<rparr>)
          | Expiry_resuming _ _ \<Rightarrow> save_quietly io (r\<lparr>mr_outcome := Expiry_completed result\<rparr>)
          | _ \<Rightarrow> throwA ''mcp_input_phase_invalid''))"

subsection \<open>Input the server asks for\<close>

definition choice_schema :: "string \<Rightarrow> string \<Rightarrow> json" where
  "choice_schema title action =
     JObj [(''title'', JStr title), (''type'', JStr ''object''),
       (''properties'', JObj [(''action'', JObj [(''type'', JStr ''string''), (''const'', JStr action), (''default'', JStr action)])]),
       (''required'', JArr [JStr ''action'']), (''additionalProperties'', JBool False)]"

definition accept_schema :: "json option \<Rightarrow> json" where
  "accept_schema form =
     JObj [(''title'', JStr (if form \<noteq> None then ''Provide input'' else ''I have completed this step'')), (''type'', JStr ''object''),
       (''properties'', JObj ([(''action'', JObj [(''type'', JStr ''string''), (''const'', JStr ''accept''), (''default'', JStr ''accept'')])]
          @ field ''content'' form)),
       (''required'', JArr (if form \<noteq> None then [JStr ''action'', JStr ''content''] else [JStr ''action''])),
       (''additionalProperties'', JBool False)]"

definition input_property :: "json \<Rightarrow> json" where
  "input_property input =
     (let params = request_params input; form = obj_field params ''requestedSchema'' in
      JObj (field ''title'' (obj_field params ''message'')
        @ (case text_field params ''url'' of
             Some u \<Rightarrow> if form = None
               then [(''description'', JStr (''Open '' @ u @ '', complete the requested action, then confirm.''))] else []
           | None \<Rightarrow> [])
        @ [(''oneOf'', JArr [accept_schema form, choice_schema ''Decline'' ''decline'', choice_schema ''Cancel'' ''cancel''])]))"

fun input_properties :: "(string \<times> json) list \<Rightarrow> string + (string \<times> json) list" where
  "input_properties [] = Inr []"
| "input_properties ((k, input) # rest) =
     (if request_method input \<noteq> Some ''elicitation/create'' then Inl ''mcp_input_capability_unavailable''
      else bindR (input_properties rest) (\<lambda>ps. Inr ((k, input_property input) # ps)))"

definition same_call :: "HarnessMcpReviewRequest \<Rightarrow> PersistedMcpReview option \<Rightarrow> PersistedMcpReview option" where
  "same_call rq previous =
     (case previous of
        Some p \<Rightarrow> if mr_native_call_id p = mq_native_call_id rq \<and> mr_native_turn_id p = mq_native_turn_id rq then Some p else None
      | None \<Rightarrow> None)"

text \<open>The round of the next input: its number and the reviewer it is attributed to.\<close>

definition next_round :: "string \<Rightarrow> PersistedMcpReview option \<Rightarrow> input_round" where
  "next_round uuid prior =
     (case map_option mr_outcome prior of
        Some (Dispatching actor) \<Rightarrow> \<lparr>in_input_request_id = uuid, in_protocol_round = 1, in_review_actor_id = Some actor\<rparr>
      | Some (Input_resuming r _ _) \<Rightarrow>
          \<lparr>in_input_request_id = uuid, in_protocol_round = in_protocol_round r + 1, in_review_actor_id = in_review_actor_id r\<rparr>
      | Some (Review_resuming r _ _ _ _) \<Rightarrow>
          \<lparr>in_input_request_id = uuid, in_protocol_round = in_protocol_round r + 1, in_review_actor_id = in_review_actor_id r\<rparr>
      | _ \<Rightarrow> \<lparr>in_input_request_id = uuid, in_protocol_round = 1, in_review_actor_id = None\<rparr>)"

text \<open>A child's approval request must name its sole pending input, and its reply must be acceptable.\<close>

definition delegated_outcome ::
  "mcp_env \<Rightarrow> HarnessMcpReviewRequest \<Rightarrow> McpPendingInput \<Rightarrow> input_round \<Rightarrow> McpDelegatedReviewRequest \<Rightarrow> string + review_outcome" where
  "delegated_outcome env rq pending round delegated =
     (let key = dr_input_request_id delegated; action = request_action rq (Some (dr_subject delegated)) in
      bindR (guardR (length (pn_inputRequests pending) = 1 \<and> map_of (pn_inputRequests pending) key \<noteq> None) ''mcp_review_binding_invalid'') (\<lambda>_.
      bindR (mcpReviewActionBytes action) (\<lambda>bytes.
      let act = \<lparr>ra_action_json = action, ra_action_hash = me_hash env bytes\<rparr> in
      bindR (mcpInputResponseParams env \<lparr>ip_pending = pending, ip_responses = delegated_responses key round act Rv_accept\<rparr>) (\<lambda>_.
      Inr (Review_waiting round act pending)))))"

definition input_outcome ::
  "mcp_env \<Rightarrow> HarnessMcpReviewRequest \<Rightarrow> McpPendingInput \<Rightarrow> input_round \<Rightarrow> string + review_outcome" where
  "input_outcome env rq pending round =
     (case meta_field pending MCP_REVIEW_META_KEY of
        None \<Rightarrow> Inr (Input_waiting round pending)
      | Some hint \<Rightarrow>
          (case mcpDelegatedReviewRequestSchema hint of
             None \<Rightarrow> Inl ''ZodError''
           | Some delegated \<Rightarrow> delegated_outcome env rq pending round delegated))"

definition ask_for_input ::
  "HarnessMcpReview \<Rightarrow> review_io \<Rightarrow> HarnessMcpReviewRequest \<Rightarrow> PersistedMcpReview \<Rightarrow> (string \<times> json) list \<Rightarrow> unit review_act" where
  "ask_for_input rv io rq review properties =
     bindA (readA (\<lambda>_. operationExpiresAt (ro_env io) review)) (\<lambda>expiresAt.
     case mr_outcome review of
       Review_waiting round act pending \<Rightarrow>
         save_with_event rv io review ''approval.requested''
           (approval_data rv (in_input_request_id round) (ra_action_json act) (ra_action_hash act) expiresAt
              (case Option.bind (meta_field pending MCP_REVIEW_META_KEY) mcpDelegatedReviewRequestSchema of
                 None \<Rightarrow> [] | Some d \<Rightarrow> ds_tool_name (dr_subject d)) (mr_native_request review))
     | oc \<Rightarrow>
         save_with_event rv io review ''input.requested''
           ([(''request_id'', JStr (in_input_request_id (oc_round oc))), (''session_id'', JStr (sp_session_id (hr_start rv))),
             (''turn_id'', JStr (tp_turn_id (hr_turn rv))), (''prompt'', JStr (''Provide input for '' @ mq_tool_name rq)),
             (''input_kind'', JStr ''form''), (''required'', JBool True), (''redaction'', JStr ''none''), (''expires_at'', JStr expiresAt),
             (''form_schema'', JObj [(''type'', JStr ''object''), (''properties'', JObj properties),
                (''required'', JArr (map (\<lambda>(k, _). JStr k) properties)), (''additionalProperties'', JBool False)])]
            @ field ''native_request'' (map_option native_request_json (mr_native_request review))))"

text \<open>\<open>#waitForInput\<close>, until it waits for the reply; the value is the saved record.\<close>

definition wait_for_input ::
  "HarnessMcpReview \<Rightarrow> review_io \<Rightarrow> string \<Rightarrow> HarnessMcpReviewRequest \<Rightarrow> McpPendingInput \<Rightarrow> PersistedMcpReview review_act" where
  "wait_for_input rv io requestId rq pending =
     bindA (readA (\<lambda>_. case meta_field pending MCP_REVIEW_META_KEY of
                         None \<Rightarrow> Inr ()
                       | Some hint \<Rightarrow> guardR (mcpDelegatedReviewRequestSchema hint \<noteq> None) ''ZodError'')) (\<lambda>_.
     bindA (readA (\<lambda>_. input_properties (pn_inputRequests pending))) (\<lambda>properties.
     bindA (readA (\<lambda>s. Inr (same_call rq (getMcpReview (sp_session_id (hr_start rv)) s)))) (\<lambda>prior.
     bindA (readA (\<lambda>_. input_outcome (ro_env io) rq pending (next_round (ro_uuid io) prior))) (\<lambda>oc.
     bindA (case prior of
              Some p \<Rightarrow> returnA (p\<lparr>mr_outcome := oc\<rparr>)
            | None \<Rightarrow> newOperation rv io requestId rq oc) (\<lambda>review.
     bindA (ask_for_input rv io rq review properties) (\<lambda>_.
     returnA review))))))"

definition expire_with :: "review_io \<Rightarrow> PersistedMcpReview \<Rightarrow> input_round \<Rightarrow> McpPendingInput \<Rightarrow> McpInputReply review_act" where
  "expire_with io review round pending =
     (if platformReleasesChildReview review
         \<or> meta_field pending ''com.prompt2agent/input-on-expiry'' \<noteq> Some (JStr ''cancel'')
         \<or> time_passed (me_date_parse (ro_env io) (mr_expires_at review)) (ro_now io)
      then throwA ''mcp_input_interrupted''
      else bindA (readA (\<lambda>_. mcpInputReplySchema (ro_env io) \<lparr>ip_pending = pending, ip_responses = cancel_all pending\<rparr>)) (\<lambda>reply.
           bindA (save_quietly io (review\<lparr>mr_outcome := Expiry_resuming round reply\<rparr>)) (\<lambda>_.
           returnA reply)))"

text \<open>The cancellation an expired input sends for itself, made of the record that was saved.\<close>

definition expire_input :: "review_io \<Rightarrow> PersistedMcpReview \<Rightarrow> McpInputReply review_act" where
  "expire_input io review =
     (case mr_outcome review of
        Input_waiting round pending \<Rightarrow> expire_with io review round pending
      | Review_waiting round _ pending \<Rightarrow> expire_with io review round pending
      | _ \<Rightarrow> throwA ''mcp_input_interrupted'')"

text \<open>The reply of a response: every request cancelled, or the object of its values.\<close>

definition reply_to ::
  "review_io \<Rightarrow> HcpInputResponsePayload \<Rightarrow> PersistedMcpReview \<Rightarrow> input_round \<Rightarrow> McpPendingInput \<Rightarrow>
     string + PersistedMcpReview \<times> McpInputReply" where
  "reply_to io response review round pending =
     (let cancelled = (ir_cancelled response = Some True) in
      bindR (guardR (in_input_request_id round = ir_request_id response) ''mcp_input_binding_invalid'') (\<lambda>_.
      bindR (guardR (\<not> (cancelled \<and> ir_value response \<noteq> None)) ''mcp_input_invalid'') (\<lambda>_.
      bindR (if cancelled then Inr (cancel_all pending)
             else (case ir_value response of Some (JObj kvs) \<Rightarrow> Inr kvs | _ \<Rightarrow> Inl ''ZodError'')) (\<lambda>responses.
      bindR (mcpInputReplySchema (ro_env io) \<lparr>ip_pending = pending, ip_responses = responses\<rparr>) (\<lambda>reply.
      Inr (review, reply))))))"

text \<open>\<open>#inputReply\<close>\<close>

definition input_reply ::
  "HarnessMcpReview \<Rightarrow> review_io \<Rightarrow> HcpInputResponsePayload \<Rightarrow> review_store \<Rightarrow> string + PersistedMcpReview \<times> McpInputReply" where
  "input_reply rv io response s =
     (case getMcpReview (sp_session_id (hr_start rv)) s of
        None \<Rightarrow> Inl ''mcp_input_binding_invalid''
      | Some review \<Rightarrow>
          if mr_native_work_id review \<noteq> hr_work rv \<or> ir_session_id response \<noteq> sp_session_id (hr_start rv)
             \<or> ir_turn_id response \<noteq> Some (tp_turn_id (hr_turn rv)) then Inl ''mcp_input_binding_invalid''
          else bindR (deadline_passed (ro_env io) (ro_now io) (operationExpiresAt (ro_env io) review)) (\<lambda>late.
               case (late, mr_outcome review) of
                 (False, Input_waiting round pending) \<Rightarrow> reply_to io response review round pending
               | (False, Input_resuming round reply _) \<Rightarrow> reply_to io response review round (ip_pending reply)
               | _ \<Rightarrow> Inl ''mcp_input_binding_invalid''))"

definition respondToInput :: "HarnessMcpReview \<Rightarrow> review_io \<Rightarrow> HcpInputResponsePayload \<Rightarrow> PersistedMcpReview review_act" where
  "respondToInput rv io response =
     bindA (readA (input_reply rv io response)) (\<lambda>(review, reply).
     case mr_outcome review of
       Input_resuming _ recorded actor \<Rightarrow>
         if actor = ir_actor_id response \<and> recorded = reply then returnA review else throwA ''mcp_input_conflict''
     | oc \<Rightarrow>
         let updated = review\<lparr>mr_outcome := Input_resuming (oc_round oc) reply (ir_actor_id response)\<rparr> in
         bindA (save_with_event rv io updated ''input.resolved''
           [(''request_id'', JStr (ir_request_id response)), (''session_id'', JStr (ir_session_id response)),
            (''turn_id'', JStr (tp_turn_id (hr_turn rv))), (''actor_id'', JStr (ir_actor_id response)),
            (''cancelled'', JBool (ir_cancelled response = Some True)), (''resolved_at'', JStr (me_iso (ro_env io) (ro_now io)))]) (\<lambda>_.
         returnA updated))"

end
