(* ===== verification/Mcp_Operations.thy ===== *)
theory Mcp_Operations
  imports Mcp_Continuation
begin

text \<open>
  A session's reviewed MCP calls as a step relation: the promises of \<open>HarnessMcpReview\<close> (theory
  \<open>Mcp_Continuation\<close>), the queue that lets one operation of a session run at a time
  (\<open>harnesses/mcp-dispatch.ts\<close>, \<open>native-mcp.ts\<close>), the resumption of a waiting operation after a restart
  and the retirement of the others (\<open>harnesses/index.ts\<close>).

  The world of a step is the state store, what the running operation waits for, the ids
  \<open>randomUUID()\<close> has given, the tool calls that were made and every event that has been in the
  session's log.  Steps of other sessions and of the rest of the runner are \<open>elsewhere\<close>: they leave the
  session's review alone, in memory and in the file, except that they may write the file.
  \<open>#mcpResumes\<close> lets one resumption of a session run, so the review it read is still the current one when it
  decides: reading and deciding are one step.
\<close>

subsection \<open>Steps\<close>

datatype live_operation =
    Idle
  | Asking HarnessMcpReview HarnessMcpReviewRequest string
  | Ready HarnessMcpReview HarnessMcpReviewRequest "McpReviewGrant option" "McpInputReply option"
  | Calling HarnessMcpReview HarnessMcpReviewRequest "McpReviewGrant option" "McpInputReply option" "PersistedMcpReview option"
  | Input_asked HarnessMcpReview HarnessMcpReviewRequest "McpReviewGrant option" PersistedMcpReview

text \<open>A call of a tool: the retained review it continues, and what it was called with.\<close>

record tool_call =
  tc_review :: "PersistedMcpReview option"
  tc_request :: HarnessMcpReviewRequest
  tc_grant :: "McpReviewGrant option"
  tc_reply :: "McpInputReply option"

record review_world =
  rw_store :: review_store
  rw_live :: live_operation
  rw_ids :: "string set"
  rw_calls :: "tool_call list"
  rw_seen :: "HcpHarnessEventPayload set"

text \<open>The new store, with the ids and the events it brings.\<close>

definition to_store :: "string \<Rightarrow> review_store \<Rightarrow> live_operation \<Rightarrow> review_world \<Rightarrow> review_world" where
  "to_store sid s live w = w\<lparr>rw_store := s, rw_live := live, rw_seen := rw_seen w \<union> log_of sid s\<rparr>"

definition with_ids :: "string set \<Rightarrow> review_world \<Rightarrow> review_world" where
  "with_ids ids w = w\<lparr>rw_ids := rw_ids w \<union> ids\<rparr>"

text \<open>The check before an operation of the queue runs: no operation of the session is unresolved.\<close>

definition may_dispatch :: "string \<Rightarrow> review_store \<Rightarrow> bool" where
  "may_dispatch sid s = (case getMcpReview sid s of None \<Rightarrow> True | Some r \<Rightarrow> is_resolved (mr_outcome r))"

text \<open>Which waiting promise a recorded decision or reply resolves, and with what.\<close>

definition heard :: "PersistedMcpReview \<Rightarrow> PersistedMcpReview \<Rightarrow> live_operation \<Rightarrow> live_operation" where
  "heard before after live =
     (case live of
        Asking rv rq requestId \<Rightarrow>
          if mr_request_id before = requestId
          then (case (mr_outcome before, mr_outcome after) of
                  (Waiting, Dispatching _) \<Rightarrow>
                    Ready rv rq (Some \<lparr>gr_request_id = mr_request_id before, gr_action_json = mr_action_json before\<rparr>) None
                | (Waiting, Declined _) \<Rightarrow> Idle
                | _ \<Rightarrow> live)
          else live
      | Input_asked rv rq grant prompted \<Rightarrow>
          (case (mr_outcome before, mr_outcome after) of
             (Input_waiting round _, Input_resuming _ reply _) \<Rightarrow>
               if in_input_request_id round = in_input_request_id (oc_round (mr_outcome prompted)) then Ready rv rq grant (Some reply) else live
           | (Review_waiting round _ _, Review_resuming _ _ reply _ _) \<Rightarrow>
               if in_input_request_id round = in_input_request_id (oc_round (mr_outcome prompted)) then Ready rv rq grant (Some reply) else live
           | _ \<Rightarrow> live)
      | _ \<Rightarrow> live)"

text \<open>The owner and the request with which \<open>#continueMcpReview\<close> resumes a saved operation.\<close>

definition resumed_owner :: "PersistedMcpReview \<Rightarrow> HarnessMcpReview" where
  "resumed_owner r = \<lparr>hr_start = mr_start r, hr_turn = mr_turn r, hr_work = None\<rparr>"

definition resumed_request :: "PersistedMcpReview \<Rightarrow> McpReviewAction \<Rightarrow> HarnessMcpReviewRequest" where
  "resumed_request r action =
     \<lparr>mq_attachment_name = ac_attachment_name action, mq_tool_name = ac_tool_name action, mq_arguments = ac_arguments action,
      mq_native_thread_id = mr_native_thread_id r, mq_native_turn_id = mr_native_turn_id r,
      mq_native_call_id = mr_native_call_id r, mq_native_request = mr_native_request r\<rparr>"

text \<open>\<open>#continueMcpReview\<close>: only the step from waiting to decided calls the tool.\<close>

definition resumed_call :: "PersistedMcpReview \<Rightarrow> PersistedMcpReview \<Rightarrow> live_operation" where
  "resumed_call previous decided =
     (case parse_action (mr_action_json decided) of
        Inl _ \<Rightarrow> Idle
      | Inr action \<Rightarrow>
          let rv = resumed_owner previous; rq = resumed_request decided action;
              grant = Some \<lparr>gr_request_id = mr_request_id decided, gr_action_json = mr_action_json decided\<rparr>;
              granted = (\<lambda>round. if in_review_actor_id round \<noteq> None then grant else None) in
          (case (mr_outcome previous, mr_outcome decided) of
             (Waiting, Dispatching _) \<Rightarrow> Ready rv rq grant None
           | (Input_waiting _ _, Input_resuming round reply _) \<Rightarrow> Ready rv rq (granted round) (Some reply)
           | (Review_waiting _ _ _, Review_resuming round _ reply _ _) \<Rightarrow> Ready rv rq (granted round) (Some reply)
           | _ \<Rightarrow> Idle))"

text \<open>The rest of the runner: other sessions' operations on the store, and writes of the file.\<close>

definition elsewhere :: "string \<Rightarrow> review_store \<Rightarrow> review_store \<Rightarrow> bool" where
  "elsewhere sid s s' \<longleftrightarrow>
     getMcpReview sid s' = getMcpReview sid s
     \<and> saved_review sid s' \<in> {saved_review sid s, getMcpReview sid s} \<and> retains s'"

inductive review_step :: "string \<Rightarrow> review_world \<Rightarrow> review_world \<Rightarrow> bool" for sid where
  asks: "review_step sid w (to_store sid s' (case res of Inl _ \<Rightarrow> Idle | Inr r \<Rightarrow> Asking rv rq (mr_request_id r)) (with_ids {ro_uuid io} w))"
    if "rw_live w = Idle" "may_dispatch sid (rw_store w)" "sp_session_id (hr_start rv) = sid"
      "ro_uuid io \<notin> rw_ids w" "request_review rv io rq (rw_store w) = Some (res, s')"
| calls_unreviewed: "review_step sid w (w\<lparr>rw_live := Ready rv rq None None\<rparr>)"
    if "rw_live w = Idle" "may_dispatch sid (rw_store w)" "sp_session_id (hr_start rv) = sid"
| decides: "review_step sid w (to_store sid s' live w)"
    if "sp_session_id (hr_start rv) = sid" "getMcpReview sid (rw_store w) = Some r"
      "decide rv io response (rw_store w) = Some (res, s')"
      "live \<in> {rw_live w, case res of Inl _ \<Rightarrow> rw_live w | Inr decided \<Rightarrow> heard r decided (rw_live w)}"
| answers: "review_step sid w (to_store sid s' live w)"
    if "sp_session_id (hr_start rv) = sid" "getMcpReview sid (rw_store w) = Some r"
      "respondToInput rv io reply (rw_store w) = Some (res, s')"
      "live \<in> {rw_live w, case res of Inl _ \<Rightarrow> rw_live w | Inr decided \<Rightarrow> heard r decided (rw_live w)}"
| expires: "review_step sid w (to_store sid s' (case res of Inl _ \<Rightarrow> Idle | Inr reply \<Rightarrow> Ready rv rq grant (Some reply)) w)"
    if "rw_live w = Input_asked rv rq grant prompted" "expire_input io prompted (rw_store w) = Some (res, s')"
| interrupted: "review_step sid w (w\<lparr>rw_live := Idle\<rparr>)"
| calls: "review_step sid w (w\<lparr>rw_live := Calling rv rq grant reply retained,
      rw_calls := rw_calls w @ [\<lparr>tc_review = retained, tc_request = rq, tc_grant = grant, tc_reply = reply\<rparr>]\<rparr>)"
    if "rw_live w = Ready rv rq grant reply" "invoke_check rv io rq grant reply (rw_store w) = Inr retained"
| returns: "review_step sid w (to_store sid s' Idle w)"
    if "rw_live w = Calling rv rq grant reply retained" "finish_call io grant reply retained result (rw_store w) = Some (res, s')"
| requires_input: "review_step sid w (to_store sid s' (case res of Inl _ \<Rightarrow> Idle | Inr r \<Rightarrow> Input_asked rv rq grant r)
      (with_ids {ro_uuid io, requestId} w))"
    if "rw_live w = Calling rv rq grant reply retained"
      "\<not> (\<exists>r round reply'. retained = Some r \<and> mr_outcome r = Expiry_resuming round reply')"
      "ro_uuid io \<notin> rw_ids w" "requestId \<notin> rw_ids w" "ro_uuid io \<noteq> requestId"
      "wait_for_input rv io requestId rq pending (rw_store w) = Some (res, s')"
| resumes_decided: "review_step sid w (to_store sid s' (case res of Inl _ \<Rightarrow> Idle | Inr decided \<Rightarrow> resumed_call r decided) w)"
    if "rw_live w = Idle" "getMcpReview sid (rw_store w) = Some r" "mr_native_work_id r = None" "sp_session_id (mr_start r) = sid"
      "decide (resumed_owner r) io response (rw_store w) = Some (res, s')"
| resumes_answered: "review_step sid w (to_store sid s' (case res of Inl _ \<Rightarrow> Idle | Inr decided \<Rightarrow> resumed_call r decided) w)"
    if "rw_live w = Idle" "getMcpReview sid (rw_store w) = Some r" "mr_native_work_id r = None" "sp_session_id (mr_start r) = sid"
      "respondToInput (resumed_owner r) io reply (rw_store w) = Some (res, s')"
| retires: "review_step sid w (to_store sid s' (rw_live w) w)"
    if "clearMcpReview c ok sid requestId events (rw_store w) = (res, s')"
| other_work: "review_step sid w (to_store sid s' (rw_live w) w)"
    if "elsewhere sid (rw_store w) s'"
| restarts: "review_step sid w (to_store sid s' Idle w)"
    if "getMcpReview sid s' = saved_review sid (rw_store w)" "saved_review sid s' = saved_review sid (rw_store w)" "retains s'"

text \<open>A session begins with an empty store and nothing asked.\<close>

definition begins :: "string \<Rightarrow> review_world \<Rightarrow> bool" where
  "begins sid w \<longleftrightarrow>
     retains (rw_store w) \<and> getMcpReview sid (rw_store w) = None \<and> saved_review sid (rw_store w) = None
     \<and> rw_live w = Idle \<and> rw_ids w = {} \<and> rw_calls w = [] \<and> rw_seen w = log_of sid (rw_store w)"

inductive review_run :: "string \<Rightarrow> review_world \<Rightarrow> bool" for sid where
  start: "begins sid w \<Longrightarrow> review_run sid w"
| step: "review_run sid w \<Longrightarrow> review_step sid w w' \<Longrightarrow> review_run sid w'"

end
