(* ===== verification/Mcp_Safety.thy ===== *)
theory Mcp_Safety
  imports Mcp_Operations
begin

text \<open>
  What the review of MCP calls guarantees: a reviewed tool is called only after its exact action was
  shown and accepted, with the very reply that was recorded, and at most once for every decision and
  every answered round, whatever fails, restarts or is retired in between.

  \<open>moved\<close> is what one method may do to the session's review; the lemmas \<open>..._wp\<close> show it of each
  method, and the invariant \<open>sound\<close> follows from it alone.
\<close>

subsection \<open>What a method may do to the review\<close>

definition synced :: "string \<Rightarrow> review_store \<Rightarrow> bool" where
  "synced sid s \<longleftrightarrow> saved_review sid s = getMcpReview sid s \<and> retains s"

text \<open>A new operation that waits, or one step further of the one there is.\<close>

definition advance :: "PersistedMcpReview option \<Rightarrow> PersistedMcpReview \<Rightarrow> HcpHarnessEventPayload set \<Rightarrow> bool" where
  "advance cur r E \<longleftrightarrow>
     (case cur of
        None \<Rightarrow> is_initial (mr_outcome r) \<and> told E r
      | Some p \<Rightarrow> binding p = binding r \<and> progress (mr_outcome p) (mr_outcome r)
          \<and> (\<forall>a. mr_outcome r = Declined a \<longrightarrow> mr_outcome p = Waiting)
          \<and> (\<forall>E'. E \<subseteq> E' \<longrightarrow> told E' p \<longrightarrow> told E' r))"

definition renewed :: "string \<Rightarrow> string set \<Rightarrow> review_store \<Rightarrow> review_store \<Rightarrow> bool" where
  "renewed sid ids s s' \<longleftrightarrow>
     synced sid s'
     \<and> (\<exists>r. getMcpReview sid s' = Some r \<and> sp_session_id (mr_start r) = sid
          \<and> ((\<exists>p. getMcpReview sid s = Some p \<and> advance (Some p) r (log_of sid s'))
             \<or> mr_request_id r \<in> ids \<and> advance None r (log_of sid s')))"

definition moved :: "string \<Rightarrow> string set \<Rightarrow> review_store \<Rightarrow> review_store \<Rightarrow> bool" where
  "moved sid ids s s' \<longleftrightarrow>
     synced sid s' \<and> (getMcpReview sid s' = getMcpReview sid s \<or> getMcpReview sid s' = None) \<or> renewed sid ids s s'"

lemma moved_same: "synced sid s \<Longrightarrow> moved sid ids s s"
  by (simp add: moved_def)

lemma persisted_binding: "persistedMcpReviewSchema env x = Inr r \<Longrightarrow> binding r = binding x"
  by (auto simp: persistedMcpReviewSchema_def result_simps binding_def)

lemma check_event_session: "check_event r (Some e) = Inr u \<Longrightarrow> ev_session_id e = sp_session_id (mr_start r)"
  by (auto simp: check_event_def event_names_def result_simps split: review_outcome.splits)

lemma advances_shape:
  "advances env now p oc noted = Inr True \<Longrightarrow> \<forall>a. oc = Declined a \<longrightarrow> mr_outcome p = Waiting"
  by (cases "mr_outcome p"; cases oc; auto simp: advances_def outcome_defs)

lemma checked_advance:
  assumes "check_save env now r event s = Inr u" and "\<And>e. event = Some e \<Longrightarrow> e \<in> log_of (ev_session_id e) s'"
  shows "event = None \<and> getMcpReview (sp_session_id (mr_start r)) s = Some r
    \<or> advance (getMcpReview (sp_session_id (mr_start r)) s) r (log_of (sp_session_id (mr_start r)) s')"
proof -
  let ?cur = "getMcpReview (sp_session_id (mr_start r)) s" and ?E = "log_of (sp_session_id (mr_start r)) s'"
  have seen: "e \<in> ?E" if "event = Some e" "check_event r event = Inr u" for e u
    using assms(2) [OF that(1)] check_event_session [of r e u] that by simp
  have val: "validateMcpTransition env now ?cur r event = Inr ()"
    using assms(1) by (auto simp: check_save_def Let_def result_simps)
  show ?thesis
  proof (cases ?cur)
    case None
    then obtain e where "is_initial (mr_outcome r)" "event = Some e" "check_event r (Some e) = Inr ()"
      using val by (auto simp: validateMcpTransition_def result_simps)
    with None seen show ?thesis by (auto simp: advance_def intro: initial_told)
  next
    case (Some p)
    then have b: "binding p = binding r" using val by (auto simp: validateMcpTransition_def result_simps)
    show ?thesis
    proof (cases "mr_outcome p = mr_outcome r \<and> event = None")
      case True
      with Some same_record [OF b] show ?thesis by simp
    next
      case False
      then have adv: "advances env now p (mr_outcome r) (event \<noteq> None) = Inr True" and ev: "check_event r event = Inr ()"
        using val Some by (auto simp: validateMcpTransition_def result_simps split: if_splits)
      have "told E' r" if "?E \<subseteq> E'" "told E' p" for E'
        by (rule advances_told [OF that(2) b subset_refl adv ev]) (use seen ev that(1) in blast)
      with Some b advances_progress [OF adv] advances_shape [OF adv] show ?thesis by (simp add: advance_def)
    qed
  qed
qed

subsection \<open>The methods\<close>

lemma wp_store: "wp (storeA f) Q E s \<longleftrightarrow> (case f s of (Inl e, s') \<Rightarrow> E e s' | (Inr u, s') \<Rightarrow> Q u s')"
  by (simp add: wp_def storeA_def split: sum.split prod.split)

lemma wp_frame:
  assumes "wp m Q E s" and "\<And>a t. Q a t \<Longrightarrow> wp (f a) Q' E' t" and "\<And>e t. E e t \<Longrightarrow> E' e t"
  shows "wp (bindA m f) Q' E' s"
  unfolding wp_bind using assms by (rule wp_mono)

text \<open>A save that succeeds stores the parsed record; one that fails leaves the review as it is.\<close>

definition stores :: "string \<Rightarrow> PersistedMcpReview \<Rightarrow> review_store \<Rightarrow> bool \<Rightarrow> review_store \<Rightarrow> bool" where
  "stores sid x s quiet t \<longleftrightarrow>
     synced sid t
     \<and> (\<exists>r. getMcpReview sid t = Some r \<and> sp_session_id (mr_start r) = sid \<and> binding r = binding x
           \<and> (quiet \<longrightarrow> getMcpReview sid s \<noteq> None)
           \<and> (quiet \<and> getMcpReview sid s = Some r \<or> advance (getMcpReview sid s) r (log_of sid t)))"

definition unmoved :: "string \<Rightarrow> review_store \<Rightarrow> review_store \<Rightarrow> bool" where
  "unmoved sid s t \<longleftrightarrow> synced sid t \<and> getMcpReview sid t = getMcpReview sid s"

lemma unmoved_moved: "unmoved sid s t \<Longrightarrow> moved sid ids s t"
  by (simp add: unmoved_def moved_def)

lemma stores_renewed:
  assumes "stores sid x s False t" and "getMcpReview sid s = None \<Longrightarrow> mr_request_id x \<in> ids"
  shows "renewed sid ids s t"
proof -
  obtain r where r: "synced sid t" "getMcpReview sid t = Some r" "sp_session_id (mr_start r) = sid" "binding r = binding x"
    "advance (getMcpReview sid s) r (log_of sid t)"
    using assms(1) by (auto simp: stores_def)
  show ?thesis
  proof (cases "getMcpReview sid s")
    case None
    with r assms(2) binding_parts(3) [OF r(4)] show ?thesis by (simp add: renewed_def)
  qed (use r in \<open>simp add: renewed_def\<close>)
qed

lemma stores_moved:
  assumes "stores sid x s True t"
  shows "moved sid {} s t"
proof -
  obtain r where r: "synced sid t" "getMcpReview sid t = Some r" "sp_session_id (mr_start r) = sid"
    and known: "getMcpReview sid s \<noteq> None"
    and step: "getMcpReview sid s = Some r \<or> advance (getMcpReview sid s) r (log_of sid t)"
    using assms by (auto simp: stores_def)
  from known obtain p where "getMcpReview sid s = Some p" by blast
  with r step show ?thesis by (simp add: moved_def renewed_def) blast
qed

lemma quiet_known: "check_save env now r None s = Inr u \<Longrightarrow> getMcpReview (sp_session_id (mr_start r)) s \<noteq> None"
  by (cases "getMcpReview (sp_session_id (mr_start r)) s")
     (simp_all add: check_save_def validateMcpTransition_def Let_def result_simps)

lemma save_wp:
  assumes "synced sid s" and "sp_session_id (mr_start x) = sid"
  shows "wp (storeA (saveMcpReview env c ok now x event)) (\<lambda>_. stores sid x s (event = None)) (\<lambda>_. unmoved sid s) s"
proof -
  obtain res s' where save: "saveMcpReview env c ok now x event s = (res, s')" by fastforce
  from save show ?thesis
  proof (cases rule: save_cases)
    case (unchanged e)
    with assms save show ?thesis by (auto simp: wp_store unmoved_def synced_def same_reviews_def)
  next
    case (saved r)
    have b: "binding r = binding x" by (rule persisted_binding [OF saved(2)])
    have "sp_session_id (mr_start r) = sid" using binding_parts(1) [OF b] assms(2) by simp
    moreover have "synced sid s'" using saved(4) assms(1) by (auto simp: review_becomes_def synced_def)
    moreover have "event = None \<and> getMcpReview sid s = Some r \<or> advance (getMcpReview sid s) r (log_of sid s')"
      using checked_advance [OF saved(3), of s'] saved(5) assms(1) calculation(1) by (auto simp: synced_def)
    moreover have "getMcpReview sid s' = Some r" using saved(4) calculation(1) by (simp add: review_becomes_def)
    moreover have "event = None \<Longrightarrow> getMcpReview sid s \<noteq> None"
      using saved(3) calculation(1) quiet_known [of env now r s] by simp
    ultimately show ?thesis
      using saved(1) save b by (auto simp: wp_store stores_def)
  qed
qed

lemma clear_wp:
  assumes "synced sid s"
  shows "wp (storeA (clearMcpReview c ok sid i events)) (\<lambda>_ t. synced sid t \<and> getMcpReview sid t = None) (\<lambda>_. unmoved sid s) s"
proof -
  obtain res s' where clear: "clearMcpReview c ok sid i events s = (res, s')" by fastforce
  from clear show ?thesis
    by (cases rule: clear_cases)
       (use assms clear in \<open>auto simp: wp_store unmoved_def synced_def same_reviews_def review_becomes_def\<close>)
qed

lemma save_event_wp:
  assumes "synced sid s" and "sp_session_id (mr_start x) = sid"
  shows "wp (save_with_event rv io x ty data) (\<lambda>_. stores sid x s False) (\<lambda>_. unmoved sid s) s"
  using save_wp [OF assms, where event = "Some e" for e] by (simp add: save_with_event_def wp_simps)

lemma save_quietly_wp:
  assumes "synced sid s" and "sp_session_id (mr_start x) = sid"
  shows "wp (save_quietly io x) (\<lambda>_. stores sid x s True) (\<lambda>_. unmoved sid s) s"
  using save_wp [OF assms, where event = None] by (simp add: save_quietly_def)

text \<open>A new record of the session under the given id.\<close>

definition made :: "string \<Rightarrow> string \<Rightarrow> PersistedMcpReview \<Rightarrow> bool" where
  "made sid i r \<longleftrightarrow> mr_request_id r = i \<and> sp_session_id (mr_start r) = sid"

lemma clear_resolved_wp:
  assumes "synced sid s"
  shows "wp (clear_resolved sid io) (\<lambda>_ t. synced sid t \<and> getMcpReview sid t = None) (\<lambda>_. unmoved sid s) s"
  using assms clear_wp [OF assms] by (simp add: clear_resolved_def wp_simps unmoved_def split: option.split)

lemma operation_record_made:
  "operation_record rv io i rq oc expiry = Inr r \<Longrightarrow> sp_session_id (hr_start rv) = sid \<Longrightarrow> made sid i r"
  by (auto simp: operation_record_def made_def result_simps split: option.splits)

lemma new_operation_wp:
  assumes "synced sid s" and "sp_session_id (hr_start rv) = sid"
  shows "wp (newOperation rv io i rq oc) (\<lambda>r t. synced sid t \<and> getMcpReview sid t = None \<and> made sid i r)
    (\<lambda>_. moved sid {} s) s"
proof -
  have "wp (bindA (clear_resolved sid io) (\<lambda>_. readA (\<lambda>_. operation_record rv io i rq oc expiry)))
      (\<lambda>r t. synced sid t \<and> getMcpReview sid t = None \<and> made sid i r) (\<lambda>_. moved sid {} s) s" for expiry
    using clear_resolved_wp [OF assms(1)]
    by (rule wp_frame) (use assms(2) in \<open>auto simp: wp_simps unmoved_def moved_def operation_record_made split: sum.split\<close>)
  then show ?thesis
    using assms by (simp add: newOperation_def Let_def wp_basic wp_guard wp_bind moved_same split: sum.split)
qed

text \<open>A fresh operation is new whatever the session had before.\<close>

lemma renewed_fresh: "renewed sid ids t u \<Longrightarrow> getMcpReview sid t = None \<Longrightarrow> renewed sid ids s u"
  by (auto simp: renewed_def)

lemma moved_fresh: "moved sid ids t u \<Longrightarrow> getMcpReview sid t = None \<Longrightarrow> moved sid ids s u"
  using renewed_fresh by (auto simp: moved_def)

lemma moved_ids: "moved sid {} s t \<Longrightarrow> moved sid ids s t"
  by (auto simp: moved_def renewed_def)

lemma save_new_wp:
  assumes "synced sid t" "getMcpReview sid t = None" "made sid i r" "i \<in> ids"
  shows "wp (save_with_event rv io r ty data) (\<lambda>_. renewed sid ids s) (\<lambda>_. moved sid ids s) t"
proof -
  have "wp (save_with_event rv io r ty data) (\<lambda>_. stores sid r t False) (\<lambda>_. unmoved sid t) t"
    using assms by (intro save_event_wp) (simp_all add: made_def)
  then show ?thesis
  proof (rule wp_mono)
    fix u assume "stores sid r t False u"
    then show "renewed sid ids s u" using assms stores_renewed renewed_fresh by (metis made_def)
  next
    fix u assume "unmoved sid t u"
    then show "moved sid ids s u" using assms(2) unmoved_moved moved_fresh by blast
  qed
qed

lemma request_review_wp:
  assumes "synced sid s" and "sp_session_id (hr_start rv) = sid"
  shows "wp (request_review rv io rq) (\<lambda>_. renewed sid {ro_uuid io} s) (\<lambda>_. moved sid {ro_uuid io} s) s"
  unfolding request_review_def
proof (rule wp_frame [OF new_operation_wp [OF assms]])
  fix r t assume "synced sid t \<and> getMcpReview sid t = None \<and> made sid (ro_uuid io) r"
  then show "wp (bindA (save_with_event rv io r ''approval.requested'' (approval_data rv (mr_request_id r) (mr_action_json r)
      (mr_action_hash r) (mr_expires_at r) (mq_tool_name rq) (mr_native_request r))) (\<lambda>_. returnA r))
      (\<lambda>_. renewed sid {ro_uuid io} s) (\<lambda>_. moved sid {ro_uuid io} s) t"
    unfolding wp_bind wp_basic by (intro save_new_wp) simp_all
qed (rule moved_ids)

text \<open>A decision or a reply repeats what is recorded and changes nothing, or moves the operation on.\<close>

definition decided :: "string \<Rightarrow> PersistedMcpReview \<Rightarrow> review_store \<Rightarrow> PersistedMcpReview \<Rightarrow> review_store \<Rightarrow> bool" where
  "decided sid p s d t \<longleftrightarrow> d = p \<and> t = s \<or> renewed sid {} s t"

lemma save_next_wp:
  assumes "synced sid s" "getMcpReview sid s = Some p" "sp_session_id (mr_start p) = sid"
  shows "wp (save_with_event rv io (p\<lparr>mr_outcome := oc\<rparr>) ty data) (\<lambda>_. renewed sid ids s) (\<lambda>_. unmoved sid s) s"
proof -
  have "wp (save_with_event rv io (p\<lparr>mr_outcome := oc\<rparr>) ty data) (\<lambda>_. stores sid (p\<lparr>mr_outcome := oc\<rparr>) s False) (\<lambda>_. unmoved sid s) s"
    using assms by (intro save_event_wp) simp_all
  then show ?thesis
  proof (rule wp_mono)
    show "renewed sid ids s t" if "stores sid (p\<lparr>mr_outcome := oc\<rparr>) s False t" for t
      using that by (rule stores_renewed) (simp add: assms(2))
  qed
qed

lemma save_decided_wp:
  assumes "synced sid s" "getMcpReview sid s = Some p" "sp_session_id (mr_start p) = sid"
  shows "wp (save_with_event rv io (p\<lparr>mr_outcome := oc\<rparr>) ty data) (\<lambda>_. decided sid p s d) (\<lambda>_. unmoved sid s) s"
  by (rule wp_mono [OF save_next_wp [where ids = "{}", OF assms]]) (simp_all add: decided_def)

lemma the_decision_current:
  "the_decision rv io response s = Inr r \<Longrightarrow> getMcpReview (sp_session_id (hr_start rv)) s = Some r"
  by (auto simp: the_decision_def delegated_decision_def result_simps split: option.splits if_splits review_outcome.splits prod.splits)

lemma input_reply_current:
  "input_reply rv io response s = Inr (r, reply) \<Longrightarrow> getMcpReview (sp_session_id (hr_start rv)) s = Some r"
  by (auto simp: input_reply_def reply_to_def Let_def result_simps split: option.splits if_splits review_outcome.splits bool.splits)

lemma decide_wp:
  assumes "synced sid s" and "sp_session_id (hr_start rv) = sid" and "getMcpReview sid s = Some p"
    and "sp_session_id (mr_start p) = sid"
  shows "wp (decide rv io response) (\<lambda>d. decided sid p s d) (\<lambda>_. unmoved sid s) s"
proof (cases "the_decision rv io response s")
  case (Inl e)
  then show ?thesis using assms by (simp add: decide_def wp_simps unmoved_def)
next
  case (Inr r)
  then have r: "r = p" using the_decision_current [OF Inr] assms by simp
  note save = save_decided_wp [OF assms(1,3,4)]
  have same: "decided sid p s p s" by (simp add: decided_def)
  have un: "unmoved sid s s" using assms(1) by (simp add: unmoved_def)
  show ?thesis
    unfolding decide_def wp_bind wp_basic Inr r sum.case
    by (cases "mr_outcome p")
       (simp_all add: decideDelegated_def Let_def wp_bind wp_basic save same un split: option.split sum.split)
qed

lemma respond_wp:
  assumes "synced sid s" and "sp_session_id (hr_start rv) = sid" and "getMcpReview sid s = Some p"
    and "sp_session_id (mr_start p) = sid"
  shows "wp (respondToInput rv io response) (\<lambda>d. decided sid p s d) (\<lambda>_. unmoved sid s) s"
proof (cases "input_reply rv io response s")
  case (Inl e)
  then show ?thesis using assms by (simp add: respondToInput_def wp_simps unmoved_def)
next
  case (Inr r_reply)
  obtain r reply where pair: "r_reply = (r, reply)" by fastforce
  then have r: "r = p" using input_reply_current Inr assms by (metis option.inject)
  note save = save_decided_wp [OF assms(1,3,4)]
  have same: "decided sid p s p s" by (simp add: decided_def)
  have un: "unmoved sid s s" using assms(1) by (simp add: unmoved_def)
  show ?thesis
    unfolding respondToInput_def wp_bind wp_basic Inr pair r sum.case prod.case
    by (cases "mr_outcome p") (simp_all add: Let_def wp_bind wp_basic save same un)
qed

lemma quiet_moved_wp:
  assumes "synced sid s" and "sp_session_id (mr_start x) = sid"
  shows "wp (save_quietly io x) (\<lambda>_. moved sid {} s) (\<lambda>_. moved sid {} s) s"
  by (rule wp_mono [OF save_quietly_wp [OF assms]]) (simp_all add: stores_moved unmoved_moved)

lemma finish_wp:
  assumes "synced sid s" and "\<And>r. retained = Some r \<Longrightarrow> sp_session_id (mr_start r) = sid"
  shows "wp (finish_call io grant reply retained result) (\<lambda>_. moved sid {} s) (\<lambda>_. moved sid {} s) s"
  using assms(2) quiet_moved_wp [OF assms(1)] moved_same [OF assms(1)]
  by (simp add: finish_call_def wp_basic split: option.split review_outcome.split)

lemma expire_wp:
  assumes "synced sid s" and "sp_session_id (mr_start r) = sid"
  shows "wp (expire_input io r) (\<lambda>_. moved sid {} s) (\<lambda>_. moved sid {} s) s"
proof -
  have "wp (save_quietly io (r\<lparr>mr_outcome := oc\<rparr>)) (\<lambda>_. moved sid {} s) (\<lambda>_. moved sid {} s) s" for oc
    using assms by (intro quiet_moved_wp) simp_all
  then have "wp (expire_with io r round pending) (\<lambda>_. moved sid {} s) (\<lambda>_. moved sid {} s) s" for round pending
    using moved_same [OF assms(1)] by (simp add: expire_with_def wp_bind wp_basic split: sum.split)
  then show ?thesis
    using moved_same [OF assms(1)] by (simp add: expire_input_def wp_basic split: review_outcome.split)
qed

lemma ask_wp:
  assumes save: "\<And>ty data. wp (save_with_event rv io r ty data) (\<lambda>_. Q) (\<lambda>_. E) t" and "E t"
  shows "wp (ask_for_input rv io rq r properties) (\<lambda>_. Q) (\<lambda>_. E) t"
  using assms by (simp add: ask_for_input_def wp_bind wp_basic split: sum.split review_outcome.split)

text \<open>The value of \<open>wait_for_input\<close> is a record of the session.\<close>

lemma wait_wp:
  assumes "synced sid s" and "sp_session_id (hr_start rv) = sid"
    and session: "\<And>p. getMcpReview sid s = Some p \<Longrightarrow> sp_session_id (mr_start p) = sid"
  shows "wp (wait_for_input rv io i rq pending)
    (\<lambda>r t. sp_session_id (mr_start r) = sid \<and> renewed sid {i} s t) (\<lambda>_. moved sid {i} s) s"
proof -
  let ?Q = "\<lambda>r t. sp_session_id (mr_start r) = sid \<and> renewed sid {i} s t" and ?E = "\<lambda>_. moved sid {i} s"
  have same: "moved sid {i} s s" by (rule moved_same [OF assms(1)])
  have ask: "wp (bindA (case same_call rq (getMcpReview sid s) of
               Some p \<Rightarrow> returnA (p\<lparr>mr_outcome := oc\<rparr>) | None \<Rightarrow> newOperation rv io i rq oc)
             (\<lambda>review. bindA (ask_for_input rv io rq review properties) (\<lambda>_. returnA review))) ?Q ?E s" for oc properties
  proof (cases "same_call rq (getMcpReview sid s)")
    case None
    have "wp (bindA (newOperation rv io i rq oc) (\<lambda>review. bindA (ask_for_input rv io rq review properties) (\<lambda>_. returnA review))) ?Q ?E s"
    proof (rule wp_frame [OF new_operation_wp [OF assms(1,2)]])
      fix r t assume t: "synced sid t \<and> getMcpReview sid t = None \<and> made sid i r"
      have "wp (ask_for_input rv io rq r properties) (\<lambda>_. renewed sid {i} s) (\<lambda>_. moved sid {i} s) t"
        using t moved_fresh [of sid "{i}" t t s] moved_same [of sid t] by (intro ask_wp save_new_wp) simp_all
      then show "wp (bindA (ask_for_input rv io rq r properties) (\<lambda>_. returnA r)) ?Q ?E t"
        using t by (simp add: wp_bind wp_basic made_def)
    qed (rule moved_ids)
    with None show ?thesis by simp
  next
    case (Some p)
    then have p: "getMcpReview sid s = Some p" by (auto simp: same_call_def split: option.splits if_splits)
    have "wp (ask_for_input rv io rq (p\<lparr>mr_outcome := oc\<rparr>) properties) (\<lambda>_. renewed sid {i} s) (\<lambda>_. moved sid {i} s) s"
      by (intro ask_wp same wp_mono [OF save_next_wp [OF assms(1) p session [OF p]]]) (simp_all add: unmoved_moved)
    with Some session [OF p] show ?thesis by (simp add: wp_bind wp_basic)
  qed
  show ?thesis
    unfolding wait_for_input_def wp_bind [of "readA f" for f] wp_basic assms(2) using ask same
    by (auto split: sum.split option.split)
qed

end
