(* ===== verification/Mcp_Calls.thy ===== *)
theory Mcp_Calls
  imports Mcp_Safety "HOL-Library.Code_Target_Nat"
begin

text \<open>
  The invariant of a session's reviewed calls and what follows from it: every reviewed call was
  justified by recorded events when it was made, and no stage of an operation is called twice.
\<close>

subsection \<open>Calls and what justifies them\<close>

definition reviewed :: "tool_call \<Rightarrow> bool" where
  "reviewed c \<longleftrightarrow> tc_grant c \<noteq> None \<or> tc_reply c \<noteq> None"

text \<open>The operation a reviewed call continues and the stage it is at.\<close>

definition stage_of :: "PersistedMcpReview \<Rightarrow> string \<times> int" where
  "stage_of r = (mr_request_id r, rank (mr_outcome r))"

definition call_stages :: "review_world \<Rightarrow> (string \<times> int) list" where
  "call_stages w = map (\<lambda>c. stage_of (the (tc_review c))) (filter reviewed (rw_calls w))"

definition pending :: "review_outcome \<Rightarrow> bool" where
  "pending oc \<longleftrightarrow> is_dispatching oc \<or> resuming oc \<noteq> None"

text \<open>The reply of a resuming review was given by a person or is the cancellation of an expired input.\<close>

definition reply_told :: "HcpHarnessEventPayload set \<Rightarrow> PersistedMcpReview \<Rightarrow> bool" where
  "reply_told E r \<longleftrightarrow>
     (case mr_outcome r of
        Input_resuming round _ actor \<Rightarrow> answered_by E r (in_input_request_id round) actor
      | Review_resuming round act _ actor d \<Rightarrow>
          asked E r (in_input_request_id round) (ra_action_json act) (ra_action_hash act)
          \<and> resolved_by E r (in_input_request_id round) (ra_action_hash act) actor d
      | Expiry_resuming _ _ \<Rightarrow> True
      | _ \<Rightarrow> False)"

text \<open>
  A first call: its attachment, tool and arguments were shown under the review's id and accepted.  A
  call with a reply: the very reply is recorded, and if the call carries a grant, its action was accepted.
\<close>

definition justified :: "HcpHarnessEventPayload set \<Rightarrow> tool_call \<Rightarrow> bool" where
  "justified E c \<longleftrightarrow>
     (\<exists>r. tc_review c = Some r \<and> mr_action_json r = request_action (tc_request c) None
        \<and> (case tc_reply c of
             None \<Rightarrow> \<exists>actor. mr_outcome r = Dispatching actor \<and> approved E r actor
           | Some reply \<Rightarrow> \<exists>round. resuming (mr_outcome r) = Some (round, reply) \<and> reply_told E r
               \<and> (tc_grant c \<noteq> None \<longrightarrow> (\<exists>actor. in_review_actor_id round = Some actor \<and> approved E r actor))))"

lemma justified_mono: "justified E c \<Longrightarrow> E \<subseteq> E' \<Longrightarrow> justified E' c"
  unfolding justified_def reply_told_def
  by (elim exE conjE, intro exI conjI, assumption+)
     (auto split: option.splits review_outcome.splits intro: told_parts_mono)

lemma invoked_justified:
  assumes "continues rv rq grant reply r" and "told E r" and "grant \<noteq> None \<or> reply \<noteq> None"
  shows "justified E \<lparr>tc_review = Some r, tc_request = rq, tc_grant = grant, tc_reply = reply\<rparr>"
  using assms
  by (cases "mr_outcome r")
     (auto simp: justified_def continues_def told_def reply_told_def round_told_def is_dispatching_def resuming_def split: option.splits)

subsection \<open>The invariant\<close>

text \<open>Calls of the operation were made at earlier stages, or at this one.\<close>

definition behind :: "(string \<times> int) set \<Rightarrow> PersistedMcpReview \<Rightarrow> bool" where
  "behind K r \<longleftrightarrow>
     0 \<le> rank (mr_outcome r)
     \<and> (\<forall>k. (mr_request_id r, k) \<in> K \<longrightarrow> k \<le> rank (mr_outcome r) \<or> is_resolved (mr_outcome r) \<and> \<not> is_Declined (mr_outcome r))"

definition current_ok :: "string \<Rightarrow> string set \<Rightarrow> (string \<times> int) set \<Rightarrow> HcpHarnessEventPayload set \<Rightarrow> review_store \<Rightarrow> bool" where
  "current_ok sid ids K E s \<longleftrightarrow>
     synced sid s
     \<and> (\<forall>r. getMcpReview sid s = Some r \<longrightarrow>
          sp_session_id (mr_start r) = sid \<and> mr_request_id r \<in> ids \<and> behind K r \<and> told E r)"

text \<open>What the current review allows to be called has not been called yet.\<close>

definition unused :: "string \<Rightarrow> (string \<times> int) set \<Rightarrow> review_store \<Rightarrow> bool" where
  "unused sid K s \<longleftrightarrow> (\<forall>r. getMcpReview sid s = Some r \<longrightarrow> pending (mr_outcome r) \<longrightarrow> stage_of r \<notin> K)"

definition live_ok :: "string \<Rightarrow> (string \<times> int) set \<Rightarrow> review_store \<Rightarrow> live_operation \<Rightarrow> bool" where
  "live_ok sid K s live \<longleftrightarrow>
     (case live of
        Idle \<Rightarrow> True
      | Asking rv _ _ \<Rightarrow> sp_session_id (hr_start rv) = sid \<and> unused sid K s
      | Ready rv _ grant reply \<Rightarrow>
          sp_session_id (hr_start rv) = sid \<and> (grant \<noteq> None \<or> reply \<noteq> None \<longrightarrow> unused sid K s)
      | Calling rv _ _ _ retained \<Rightarrow>
          sp_session_id (hr_start rv) = sid \<and> (\<forall>r. retained = Some r \<longrightarrow> sp_session_id (mr_start r) = sid)
      | Input_asked rv _ _ prompted \<Rightarrow>
          sp_session_id (hr_start rv) = sid \<and> sp_session_id (mr_start prompted) = sid \<and> unused sid K s)"

definition sound :: "string \<Rightarrow> review_world \<Rightarrow> bool" where
  "sound sid w \<longleftrightarrow>
     distinct (call_stages w) \<and> (\<forall>(i, k) \<in> set (call_stages w). i \<in> rw_ids w \<and> 1 \<le> k)
     \<and> current_ok sid (rw_ids w) (set (call_stages w)) (rw_seen w) (rw_store w)
     \<and> (\<forall>c \<in> set (rw_calls w). reviewed c \<longrightarrow> justified (rw_seen w) c)
     \<and> live_ok sid (set (call_stages w)) (rw_store w) (rw_live w)"

lemma unused_if_ranked:
  assumes "\<And>k. (mr_request_id r, k) \<in> K \<Longrightarrow> k < rank (mr_outcome r)"
  shows "stage_of r \<notin> K"
  using assms by (auto simp: stage_of_def)

lemma pending_unresolved: "pending oc \<Longrightarrow> \<not> is_resolved oc"
  by (auto simp: pending_def is_dispatching_def resuming_def is_resolved_def split: review_outcome.splits)

lemma pending_rank: "pending oc \<Longrightarrow> 0 \<le> rank oc \<Longrightarrow> 1 \<le> rank oc"
  by (cases oc) (auto simp: pending_def is_dispatching_def resuming_def rank_def)

lemma advanceD:
  assumes "advance (Some p) r E"
  shows "mr_request_id r = mr_request_id p" "progress (mr_outcome p) (mr_outcome r)"
    "mr_outcome r = Declined a \<Longrightarrow> mr_outcome p = Waiting" "E \<subseteq> E' \<Longrightarrow> told E' p \<Longrightarrow> told E' r"
proof -
  have "binding p = binding r" using assms by (simp add: advance_def)
  then show "mr_request_id r = mr_request_id p" by (rule binding_parts(3))
qed (use assms in \<open>simp_all add: advance_def\<close>)

lemma unresolved_rank: "is_resolved oc \<Longrightarrow> rank oc = 0"
  by (auto simp: is_resolved_def rank_def split: review_outcome.splits)

lemma advance_next:
  assumes "advance (Some p) r E" and "behind K p"
  shows "behind K r" and "pending (mr_outcome r) \<Longrightarrow> stage_of r \<notin> K"
proof -
  note id = advanceD(1) [OF assms(1)] and step = advanceD(2) [OF assms(1)]
  have up: "k \<le> rank (mr_outcome p)" if "(mr_request_id r, k) \<in> K" for k
    using assms(2) that step id by (auto simp: behind_def progress_def)
  show "stage_of r \<notin> K" if "pending (mr_outcome r)"
  proof (rule unused_if_ranked)
    fix k assume "(mr_request_id r, k) \<in> K"
    then show "k < rank (mr_outcome r)" using up step pending_unresolved [OF that] by (fastforce simp: progress_def)
  qed
  have "0 \<le> rank (mr_outcome r)"
    using step assms(2) by (cases "is_resolved (mr_outcome r)") (auto simp: unresolved_rank progress_def behind_def)
  moreover have "k \<le> rank (mr_outcome r) \<or> is_resolved (mr_outcome r) \<and> \<not> is_Declined (mr_outcome r)"
    if "(mr_request_id r, k) \<in> K" for k
  proof (cases "mr_outcome r")
    case (Declined a)
    then show ?thesis using up [OF that] advanceD(3) [OF assms(1) Declined] by (simp add: rank_def)
  qed (use up [OF that] step in \<open>auto simp: progress_def is_resolved_def\<close>)
  ultimately show "behind K r" by (simp add: behind_def)
qed

lemma renewed_ok:
  assumes cur: "current_ok sid ids K E s" and known: "\<forall>(i, k) \<in> K. i \<in> ids" and step: "renewed sid new s t" and "new \<inter> ids = {}"
  shows "current_ok sid (ids \<union> new) K (E \<union> log_of sid t) t" and "unused sid K t"
proof -
  obtain r where t: "synced sid t" "getMcpReview sid t = Some r" "sp_session_id (mr_start r) = sid"
    and how: "(\<exists>p. getMcpReview sid s = Some p \<and> advance (Some p) r (log_of sid t))
              \<or> mr_request_id r \<in> new \<and> advance None r (log_of sid t)"
    using step by (auto simp: renewed_def)
  from how have "mr_request_id r \<in> ids \<union> new \<and> behind K r \<and> told (E \<union> log_of sid t) r
      \<and> (pending (mr_outcome r) \<longrightarrow> stage_of r \<notin> K)"
  proof (elim disjE exE conjE)
    fix p assume p: "getMcpReview sid s = Some p" and adv: "advance (Some p) r (log_of sid t)"
    have "mr_request_id p \<in> ids" "behind K p" "told E p" using cur p by (auto simp: current_ok_def)
    moreover have "told (E \<union> log_of sid t) p" by (rule told_mono [OF \<open>told E p\<close>]) blast
    then have "told (E \<union> log_of sid t) r" by (rule advanceD(4) [OF adv, rotated]) blast
    ultimately show ?thesis using advanceD(1) [OF adv] advance_next [OF adv] by simp
  next
    assume "mr_request_id r \<in> new" and adv: "advance None r (log_of sid t)"
    then have "(mr_request_id r, k) \<notin> K" for k using known \<open>new \<inter> ids = {}\<close> by auto
    moreover have "0 \<le> rank (mr_outcome r)"
      using adv by (auto simp: advance_def is_initial_def rank_def split: review_outcome.splits)
    moreover have "told (E \<union> log_of sid t) r" using adv by (auto simp: advance_def intro: told_mono)
    ultimately show ?thesis using \<open>mr_request_id r \<in> new\<close> by (auto simp: behind_def stage_of_def)
  qed
  with t show "current_ok sid (ids \<union> new) K (E \<union> log_of sid t) t" "unused sid K t"
    by (auto simp: current_ok_def unused_def)
qed

lemma moved_ok:
  assumes cur: "current_ok sid ids K E s" and "\<forall>(i, k) \<in> K. i \<in> ids" and "moved sid new s t" and "new \<inter> ids = {}"
  shows "current_ok sid (ids \<union> new) K (E \<union> log_of sid t) t" and "unused sid K s \<Longrightarrow> unused sid K t"
proof -
  have same: "current_ok sid (ids \<union> new) K (E \<union> log_of sid t) t"
    if "synced sid t" "getMcpReview sid t = getMcpReview sid s \<or> getMcpReview sid t = None"
    using that cur told_mono [of E _ "E \<union> log_of sid t"] by (auto simp: current_ok_def)
  show "current_ok sid (ids \<union> new) K (E \<union> log_of sid t) t"
    using assms(3) same renewed_ok(1) [OF assms(1,2) _ assms(4)] by (auto simp: moved_def)
  show "unused sid K s \<Longrightarrow> unused sid K t"
    using assms(3) renewed_ok(2) [OF assms(1,2) _ assms(4)] by (auto simp: moved_def unused_def)
qed

subsection \<open>Every step keeps it\<close>

lemma to_store_parts [simp]:
  "rw_store (to_store sid s live w) = s" "rw_live (to_store sid s live w) = live" "rw_ids (to_store sid s live w) = rw_ids w"
  "rw_calls (to_store sid s live w) = rw_calls w" "rw_seen (to_store sid s live w) = rw_seen w \<union> log_of sid s"
  "call_stages (to_store sid s live w) = call_stages w"
  by (simp_all add: to_store_def call_stages_def)

lemma with_ids_parts [simp]:
  "rw_store (with_ids ids w) = rw_store w" "rw_live (with_ids ids w) = rw_live w" "rw_ids (with_ids ids w) = rw_ids w \<union> ids"
  "rw_calls (with_ids ids w) = rw_calls w" "rw_seen (with_ids ids w) = rw_seen w" "call_stages (with_ids ids w) = call_stages w"
  by (simp_all add: with_ids_def call_stages_def)

lemma soundD:
  assumes "sound sid w"
  shows "synced sid (rw_store w)" "current_ok sid (rw_ids w) (set (call_stages w)) (rw_seen w) (rw_store w)"
    "\<forall>(i, k) \<in> set (call_stages w). i \<in> rw_ids w" "live_ok sid (set (call_stages w)) (rw_store w) (rw_live w)"
    "getMcpReview sid (rw_store w) = Some r \<Longrightarrow> sp_session_id (mr_start r) = sid"
  using assms by (auto simp: sound_def current_ok_def)

lemma sound_with_ids: "sound sid w \<Longrightarrow> sound sid (with_ids ids w)"
  by (auto simp: sound_def current_ok_def)

text \<open>A step that moves the review and leaves the live operation in order keeps the invariant.\<close>

lemma sound_moved:
  assumes "sound sid w" and "moved sid new (rw_store w) s" and "new \<inter> rw_ids w = {}" and "new \<subseteq> ids"
    and live: "(unused sid (set (call_stages w)) (rw_store w) \<Longrightarrow> unused sid (set (call_stages w)) s)
      \<Longrightarrow> live_ok sid (set (call_stages w)) s live"
  shows "sound sid (to_store sid s live (with_ids ids w))"
proof -
  let ?K = "set (call_stages w)"
  note ok = moved_ok [OF soundD(2,3) [OF assms(1)] assms(2,3)]
  have cur: "current_ok sid (rw_ids w \<union> ids) ?K (rw_seen w \<union> log_of sid s) s"
    using ok(1) assms(4) unfolding current_ok_def by blast
  have "reviewed c \<longrightarrow> justified (rw_seen w \<union> log_of sid s) c" if "c \<in> set (rw_calls w)" for c
    using assms(1) that justified_mono by (fastforce simp: sound_def)
  with cur assms(1) live [OF ok(2)] show ?thesis by (auto simp: sound_def)
qed

lemma with_no_ids: "with_ids {} w = w"
  by (simp add: with_ids_def)

lemma sound_moved_same:
  assumes "sound sid w" and "moved sid {} (rw_store w) s"
    and "(unused sid (set (call_stages w)) (rw_store w) \<Longrightarrow> unused sid (set (call_stages w)) s)
      \<Longrightarrow> live_ok sid (set (call_stages w)) s live"
  shows "sound sid (to_store sid s live w)"
  using sound_moved [OF assms(1,2) _ _ assms(3), of "{}"] by (simp add: with_no_ids)

lemma renewed_moved: "renewed sid new s t \<Longrightarrow> moved sid new s t"
  by (simp add: moved_def)

lemma renewed_unused:
  assumes "sound sid w" and "renewed sid new (rw_store w) s" and "new \<inter> rw_ids w = {}"
  shows "unused sid (set (call_stages w)) s"
  by (rule renewed_ok(2) [OF soundD(2,3) [OF assms(1)] assms(2,3)])

lemma live_same:
  assumes "live_ok sid K s live" and "unused sid K s \<Longrightarrow> unused sid K t"
  shows "live_ok sid K t live"
  using assms by (auto simp: live_ok_def split: live_operation.splits)

lemma live_heard: "live_ok sid K t live \<Longrightarrow> live_ok sid K t (heard p d live)"
  by (auto simp: live_ok_def heard_def split: live_operation.splits review_outcome.splits)

lemma live_resumed: "unused sid K t \<Longrightarrow> sp_session_id (mr_start p) = sid \<Longrightarrow> live_ok sid K t (resumed_call p d)"
  by (auto simp: live_ok_def resumed_call_def resumed_owner_def Let_def split: sum.splits review_outcome.splits)

lemma resumed_same: "resumed_call p p = Idle"
  by (simp add: resumed_call_def Let_def split: sum.split review_outcome.split)

lemma decided_moved: "synced sid s \<Longrightarrow> decided sid p s d t \<Longrightarrow> moved sid {} s t"
  using moved_same renewed_moved by (auto simp: decided_def)

text \<open>A decision or a reply that reaches the live operation, or none.\<close>

lemma sound_decided:
  assumes "sound sid w" and wp: "wp m (\<lambda>d. decided sid p (rw_store w) d) (\<lambda>_. unmoved sid (rw_store w)) (rw_store w)"
    and "m (rw_store w) = Some (res, s)"
    and live: "live \<in> {rw_live w, case res of Inl _ \<Rightarrow> rw_live w | Inr d \<Rightarrow> heard p d (rw_live w)}"
  shows "sound sid (to_store sid s live w)"
proof (rule sound_moved_same [OF assms(1)])
  show "moved sid {} (rw_store w) s"
    using wp assms(3) decided_moved [OF soundD(1) [OF assms(1)]] unmoved_moved
    by (auto simp: wp_def split: sum.splits)
next
  assume "unused sid (set (call_stages w)) (rw_store w) \<Longrightarrow> unused sid (set (call_stages w)) s"
  note same = live_same [OF soundD(4) [OF assms(1)] this]
  show "live_ok sid (set (call_stages w)) s live"
    using live same live_heard [OF same] by (cases res) auto
qed

text \<open>A decision or a reply that resumes a saved operation.\<close>

lemma sound_resumed:
  assumes "sound sid w" and wp: "wp m (\<lambda>d. decided sid p (rw_store w) d) (\<lambda>_. unmoved sid (rw_store w)) (rw_store w)"
    and "m (rw_store w) = Some (res, s)" and "sp_session_id (mr_start p) = sid"
  shows "sound sid (to_store sid s (case res of Inl _ \<Rightarrow> Idle | Inr d \<Rightarrow> resumed_call p d) w)"
proof (rule sound_moved_same [OF assms(1)])
  show "moved sid {} (rw_store w) s"
    using wp assms(3) decided_moved [OF soundD(1) [OF assms(1)]] unmoved_moved
    by (auto simp: wp_def split: sum.splits)
  show "live_ok sid (set (call_stages w)) s (case res of Inl _ \<Rightarrow> Idle | Inr d \<Rightarrow> resumed_call p d)"
  proof (cases res)
    case (Inr d)
    have "decided sid p (rw_store w) d s" using wp assms(3) Inr by (simp add: wp_def)
    then show ?thesis
      using Inr renewed_unused [OF assms(1)] live_resumed assms(4)
      by (auto simp: decided_def resumed_same live_ok_def [of _ _ _ Idle])
  qed (simp add: live_ok_def)
qed

text \<open>A call uses the stage it is made at.\<close>

lemma sound_called:
  assumes "sound sid w" and live: "rw_live w = Ready rv rq grant reply"
    and check: "invoke_check rv io rq grant reply (rw_store w) = Inr retained"
  shows "sound sid (w\<lparr>rw_live := Calling rv rq grant reply retained,
    rw_calls := rw_calls w @ [\<lparr>tc_review = retained, tc_request = rq, tc_grant = grant, tc_reply = reply\<rparr>]\<rparr>)"
    (is "sound sid ?w")
proof -
  let ?c = "\<lparr>tc_review = retained, tc_request = rq, tc_grant = grant, tc_reply = reply\<rparr>" and ?K = "set (call_stages w)"
  have sid: "sp_session_id (hr_start rv) = sid" using soundD(4) [OF assms(1)] live by (simp add: live_ok_def)
  have retained: "retained = getMcpReview sid (rw_store w)"
    using check sid by (auto simp: invoke_check_def Let_def result_simps split: if_splits option.splits)
  then have ok: "live_ok sid K (rw_store w) (Calling rv rq grant reply retained)" for K
    using sid soundD(5) [OF assms(1)] by (simp add: live_ok_def)
  show ?thesis
  proof (cases "reviewed ?c")
    case False
    then have "call_stages ?w = call_stages w" by (simp add: call_stages_def)
    with assms(1) ok False show ?thesis by (auto simp: sound_def)
  next
    case True
    then have "grant \<noteq> None \<or> reply \<noteq> None" by (simp add: reviewed_def)
    then obtain r where r: "retained = Some r" and c: "continues rv rq grant reply r"
      using check by (auto simp: invoke_check_def Let_def result_simps split: if_splits option.splits)
    have cur: "getMcpReview sid (rw_store w) = Some r" using retained r by simp
    have told: "told (rw_seen w) r" and id: "mr_request_id r \<in> rw_ids w" and b: "behind ?K r"
      using soundD(2) [OF assms(1)] cur by (auto simp: current_ok_def)
    have pend: "pending (mr_outcome r)" using c by (auto simp: continues_def pending_def split: option.splits)
    have new: "stage_of r \<notin> ?K"
      using soundD(4) [OF assms(1)] live \<open>grant \<noteq> None \<or> reply \<noteq> None\<close> cur pend by (auto simp: live_ok_def unused_def)
    have stages: "call_stages ?w = call_stages w @ [stage_of r]" using True r by (simp add: call_stages_def)
    have "1 \<le> rank (mr_outcome r)" using pending_rank [OF pend] b by (simp add: behind_def)
    moreover have "behind (insert (stage_of r) ?K) r" using b by (auto simp: behind_def stage_of_def)
    then have "current_ok sid (rw_ids w) (insert (stage_of r) ?K) (rw_seen w) (rw_store w)"
      using soundD(2) [OF assms(1)] cur by (auto simp: current_ok_def)
    moreover have "justified (rw_seen w) ?c"
      unfolding r by (rule invoked_justified) (use c told \<open>grant \<noteq> None \<or> reply \<noteq> None\<close> in auto)
    ultimately show ?thesis
      using assms(1) ok new id by (auto simp: sound_def stages stage_of_def)
  qed
qed

lemma review_step_sound:
  assumes "review_step sid w w'" and "sound sid w"
  shows "sound sid w'"
  using assms(1)
proof cases
  case (asks rv io rq res s')
  note wp = request_review_wp [OF soundD(1) [OF assms(2)] asks(4), of io rq]
  have "moved sid {ro_uuid io} (rw_store w) s'"
    using wp asks(6) renewed_moved by (cases res) (auto simp: wp_def)
  moreover have "renewed sid {ro_uuid io} (rw_store w) s'" if "res = Inr r" for r using wp asks(6) that by (simp add: wp_def)
  ultimately show ?thesis
    unfolding asks(1) using asks(4,5) renewed_unused [OF assms(2)]
    by (intro sound_moved [OF assms(2)]) (auto simp: live_ok_def split: sum.split)
next
  case (calls_unreviewed rv rq)
  then show ?thesis using assms(2) by (auto simp: sound_def live_ok_def call_stages_def)
next
  case (decides rv r io response res s' live)
  note known = soundD(5) [OF assms(2) decides(3)]
  show ?thesis
    unfolding decides(1)
    by (rule sound_decided [OF assms(2) decide_wp [OF soundD(1) [OF assms(2)] decides(2,3) known] decides(4,5)])
next
  case (answers rv r io reply res s' live)
  note known = soundD(5) [OF assms(2) answers(3)]
  show ?thesis
    unfolding answers(1)
    by (rule sound_decided [OF assms(2) respond_wp [OF soundD(1) [OF assms(2)] answers(2,3) known] answers(4,5)])
next
  case (expires rv rq grant prompted io res s')
  have live: "sp_session_id (hr_start rv) = sid" "sp_session_id (mr_start prompted) = sid"
    "unused sid (set (call_stages w)) (rw_store w)"
    using soundD(4) [OF assms(2)] expires(2) by (simp_all add: live_ok_def)
  have "moved sid {} (rw_store w) s'" using wp_ended [OF expire_wp [OF soundD(1) [OF assms(2)] live(2)] expires(3)] .
  then show ?thesis
    unfolding expires(1) using live by (intro sound_moved_same [OF assms(2)]) (auto simp: live_ok_def split: sum.split)
next
  case interrupted
  then show ?thesis using assms(2) by (auto simp: sound_def live_ok_def call_stages_def)
next
  case (calls rv rq grant reply io retained)
  show ?thesis unfolding calls(1) by (rule sound_called [OF assms(2) calls(2,3)])
next
  case (returns rv rq grant reply retained io result res s')
  have "\<And>r. retained = Some r \<Longrightarrow> sp_session_id (mr_start r) = sid"
    using soundD(4) [OF assms(2)] returns(2) by (simp add: live_ok_def)
  then have "moved sid {} (rw_store w) s'" using wp_ended [OF finish_wp [OF soundD(1) [OF assms(2)]] returns(3)] by blast
  then show ?thesis unfolding returns(1) by (rule sound_moved_same [OF assms(2)]) (simp add: live_ok_def)
next
  case (requires_input rv rq grant reply retained io requestId pending res s')
  have sid: "sp_session_id (hr_start rv) = sid" using soundD(4) [OF assms(2)] requires_input(2) by (simp add: live_ok_def)
  note wp = wait_wp [OF soundD(1) [OF assms(2)] sid soundD(5) [OF assms(2)], of io requestId rq pending]
  have "moved sid {requestId} (rw_store w) s'"
    using wp requires_input(7) renewed_moved by (cases res) (auto simp: wp_def)
  moreover have "sp_session_id (mr_start r) = sid \<and> renewed sid {requestId} (rw_store w) s'" if "res = Inr r" for r
    using wp requires_input(7) that by (simp add: wp_def)
  ultimately show ?thesis
    unfolding requires_input(1) using sid requires_input(5) renewed_unused [OF assms(2)]
    by (intro sound_moved [OF assms(2)]) (auto simp: live_ok_def split: sum.split)
next
  case (resumes_decided r io response res s')
  have owner: "sp_session_id (hr_start (resumed_owner r)) = sid" using resumes_decided(5) by (simp add: resumed_owner_def)
  show ?thesis
    unfolding resumes_decided(1)
    by (rule sound_resumed [OF assms(2) decide_wp [OF soundD(1) [OF assms(2)] owner resumes_decided(3,5)] resumes_decided(6,5)])
next
  case (resumes_answered r io reply res s')
  have owner: "sp_session_id (hr_start (resumed_owner r)) = sid" using resumes_answered(5) by (simp add: resumed_owner_def)
  show ?thesis
    unfolding resumes_answered(1)
    by (rule sound_resumed [OF assms(2) respond_wp [OF soundD(1) [OF assms(2)] owner resumes_answered(3,5)] resumes_answered(6,5)])
next
  case (retires c ok requestId events res s')
  have "storeA (clearMcpReview c ok sid requestId events) (rw_store w) = Some (res, s')" by (simp add: storeA_def retires(2))
  then have "moved sid {} (rw_store w) s'"
    using clear_wp [OF soundD(1) [OF assms(2)], of c ok requestId events] unmoved_moved
    by (cases res) (auto simp: wp_def moved_def)
  then show ?thesis
    unfolding retires(1) by (rule sound_moved_same [OF assms(2)]) (rule live_same [OF soundD(4) [OF assms(2)]])
next
  case (other_work s')
  then have "moved sid {} (rw_store w) s'"
    using soundD(1) [OF assms(2)] by (auto simp: elsewhere_def moved_def synced_def)
  then show ?thesis
    unfolding other_work(1) by (rule sound_moved_same [OF assms(2)]) (rule live_same [OF soundD(4) [OF assms(2)]])
next
  case (restarts s')
  then have "moved sid {} (rw_store w) s'" using soundD(1) [OF assms(2)] by (auto simp: moved_def synced_def)
  then show ?thesis unfolding restarts(1) by (rule sound_moved_same [OF assms(2)]) (simp add: live_ok_def)
qed

lemma review_run_sound: "review_run sid w \<Longrightarrow> sound sid w"
proof (induction rule: review_run.induct)
  case (start w)
  then show ?case by (auto simp: begins_def sound_def current_ok_def synced_def live_ok_def call_stages_def)
qed (rule review_step_sound)

subsection \<open>A sample call\<close>

text \<open>A session that asks for one review, has it accepted and calls the tool.\<close>

definition review_env :: mcp_env where
  "review_env =
     \<lparr>me_hash = \<lambda>_. replicate 64 CHR ''a'', me_datetime = \<lambda>_. True, me_date_parse = \<lambda>_. Some 100, me_iso = \<lambda>_. ''t'',
      me_url_input = Some, me_elicit_request = \<lambda>_. True, me_message_request = \<lambda>_. True, me_roots_request = \<lambda>_. True,
      me_elicit_result = \<lambda>_. True, me_message_result = \<lambda>_. True, me_roots_result = \<lambda>_. True, me_form_valid = \<lambda>_ _. True,
      me_start_rest = \<lambda>_. True, me_turn_rest = \<lambda>_. True\<rparr>"

definition review_checks :: schema_checks where
  "review_checks = \<lparr>sk_ts = \<lambda>_. True, sk_data = \<lambda>_ _. True, sk_body = \<lambda>_ _. True\<rparr>"

definition sample_owner :: HarnessMcpReview where
  "sample_owner =
     \<lparr>hr_start = \<lparr>sp_session_id = ''s'', sp_workspace_id = ''w'', sp_provider_instance_id = ''p'', sp_driver_kind = ''codex'',
        sp_mcp_servers = [\<lparr>at_name = ''files'', at_http = True, at_lease_id = Some ''l'', at_expires_at = Some ''e'', at_rest = JNull\<rparr>],
        sp_rest = JNull\<rparr>,
      hr_turn = \<lparr>tp_session_id = ''s'', tp_turn_id = ''t1'', tp_rest = JNull\<rparr>, hr_work = None\<rparr>"

definition sample_io :: "string \<Rightarrow> review_io" where
  "sample_io uuid =
     \<lparr>ro_env = review_env, ro_checks = review_checks, ro_now = 1, ro_uuid = uuid, ro_ok_clear = True, ro_ok_save = True\<rparr>"

definition sample_tool :: HarnessMcpReviewRequest where
  "sample_tool =
     \<lparr>mq_attachment_name = ''files'', mq_tool_name = ''read'', mq_arguments = [(''n'', JNum 1)], mq_native_thread_id = ''n'',
      mq_native_turn_id = ''u'', mq_native_call_id = ''c'', mq_native_request = None\<rparr>"

definition sample_reviews :: review_store where
  "sample_reviews =
     \<lparr>ds_store = \<lparr>rs_data = emptyRunnerState, rs_file = None, rs_eventRetentionPerSession = 10, rs_receiptRetentionMs = 1\<rparr>,
      ds_nativeWork = [], ds_nativeConversations = [], ds_mcpReviews = [], ds_file = None\<rparr>"

definition sample_accept :: HcpApprovalResponsePayload where
  "sample_accept =
     \<lparr>ap_request_id = ''r'', ap_session_id = ''s'', ap_turn_id = ''t1'', ap_action_hash = replicate 64 CHR ''a'',
      ap_decision = ''accept'', ap_actor_id = ''me'', ap_feedback = None\<rparr>"

definition sample_grant :: "PersistedMcpReview \<Rightarrow> McpReviewGrant" where
  "sample_grant r = \<lparr>gr_request_id = mr_request_id r, gr_action_json = mr_action_json r\<rparr>"

definition sample_history :: bool where
  "sample_history =
     (case request_review sample_owner (sample_io ''r'') sample_tool sample_reviews of
        Some (Inr first, s) \<Rightarrow>
          (case getMcpReview ''s'' s of
             Some r \<Rightarrow> mr_request_id r = mr_request_id first \<and> mr_outcome r = Waiting \<and>
               (case decide sample_owner (sample_io ''x'') sample_accept s of
                  Some (Inr d, s') \<Rightarrow> is_Dispatching (mr_outcome d) \<and>
                    (case invoke_check sample_owner (sample_io ''x'') sample_tool (Some (sample_grant r)) None s' of
                       Inr retained \<Rightarrow> True | _ \<Rightarrow> False)
                | _ \<Rightarrow> False)
           | None \<Rightarrow> False)
      | _ \<Rightarrow> False)"

lemma sample_history_happens: "sample_history"
  by code_simp

lemma returnedE:
  assumes "case x of Some (Inr a, s) \<Rightarrow> P a s | _ \<Rightarrow> False"
  obtains a s where "x = Some (Inr a, s)" "P a s"
  using assms by (auto split: option.splits prod.splits sum.splits)

lemma someE:
  assumes "case x of Some a \<Rightarrow> P a | None \<Rightarrow> False"
  obtains a where "x = Some a" "P a"
  using assms by (auto split: option.splits)

lemma sample_call:
  obtains w c where "review_run ''s'' w" "rw_calls w = [c]" "reviewed c"
proof -
  obtain first s where ask: "request_review sample_owner (sample_io ''r'') sample_tool sample_reviews = Some (Inr first, s)"
    and then_decided: "case getMcpReview ''s'' s of
             Some r \<Rightarrow> mr_request_id r = mr_request_id first \<and> mr_outcome r = Waiting \<and>
               (case decide sample_owner (sample_io ''x'') sample_accept s of
                  Some (Inr d, s') \<Rightarrow> is_Dispatching (mr_outcome d) \<and>
                    (case invoke_check sample_owner (sample_io ''x'') sample_tool (Some (sample_grant r)) None s' of
                       Inr retained \<Rightarrow> True | _ \<Rightarrow> False)
                | _ \<Rightarrow> False)
           | None \<Rightarrow> False"
    using sample_history_happens unfolding sample_history_def by (rule returnedE)
  obtain r where r: "getMcpReview ''s'' s = Some r" "mr_request_id r = mr_request_id first" "mr_outcome r = Waiting"
    and then_called: "case decide sample_owner (sample_io ''x'') sample_accept s of
                  Some (Inr d, s') \<Rightarrow> is_Dispatching (mr_outcome d) \<and>
                    (case invoke_check sample_owner (sample_io ''x'') sample_tool (Some (sample_grant r)) None s' of
                       Inr retained \<Rightarrow> True | _ \<Rightarrow> False)
                | _ \<Rightarrow> False"
    using then_decided by (rule someE) simp
  obtain d s' where dec: "decide sample_owner (sample_io ''x'') sample_accept s = Some (Inr d, s')" "is_Dispatching (mr_outcome d)"
    and ready: "case invoke_check sample_owner (sample_io ''x'') sample_tool (Some (sample_grant r)) None s' of
                       Inr retained \<Rightarrow> True | _ \<Rightarrow> False"
    using then_called by (rule returnedE) simp
  obtain retained where call: "invoke_check sample_owner (sample_io ''x'') sample_tool (Some (sample_grant r)) None s' = Inr retained"
    using ready by (auto split: sum.splits)
  have owner: "sp_session_id (hr_start sample_owner) = ''s''" by (simp add: sample_owner_def)
  let ?w0 = "\<lparr>rw_store = sample_reviews, rw_live = Idle, rw_ids = {}, rw_calls = [], rw_seen = log_of ''s'' sample_reviews\<rparr>"
  let ?w1 = "to_store ''s'' s (Asking sample_owner sample_tool (mr_request_id first)) (with_ids {''r''} ?w0)"
  let ?w2 = "to_store ''s'' s' (Ready sample_owner sample_tool (Some (sample_grant r)) None) ?w1"
  let ?c = "\<lparr>tc_review = retained, tc_request = sample_tool, tc_grant = Some (sample_grant r), tc_reply = None\<rparr>"
  let ?w3 = "?w2\<lparr>rw_live := Calling sample_owner sample_tool (Some (sample_grant r)) None retained, rw_calls := rw_calls ?w2 @ [?c]\<rparr>"
  have "begins ''s'' ?w0"
    by (simp add: begins_def sample_reviews_def retains_def getMcpReview_def saved_review_def)
  then have "review_run ''s'' ?w0" by (rule review_run.start)
  moreover have "review_step ''s'' ?w0 ?w1"
    using review_step.asks [of ?w0 "''s''" sample_owner "sample_io ''r''" sample_tool "Inr first" s] ask owner
    by (simp add: may_dispatch_def sample_reviews_def getMcpReview_def sample_io_def)
  ultimately have "review_run ''s'' ?w1" by (rule review_run.step)
  moreover have "heard r d (rw_live ?w1) = Ready sample_owner sample_tool (Some (sample_grant r)) None"
    using r dec(2) by (cases "mr_outcome d") (simp_all add: heard_def sample_grant_def)
  then have "review_step ''s'' ?w1 ?w2"
    by (intro review_step.decides [OF owner, of _ r "sample_io ''x''" sample_accept "Inr d"]) (simp_all add: r(1) dec(1))
  ultimately have "review_run ''s'' ?w2" by (rule review_run.step)
  moreover have "review_step ''s'' ?w2 ?w3"
    using call by (intro review_step.calls [where io = "sample_io ''x''"]) simp_all
  ultimately have "review_run ''s'' ?w3" by (rule review_run.step)
  moreover have "rw_calls ?w3 = [?c]" "reviewed ?c" by (simp_all add: reviewed_def)
  ultimately show thesis by (rule that)
qed

subsection \<open>What holds of every history\<close>

text \<open>C5: Whatever is asked, decided, answered, expired, interrupted, retired or restarted, and whichever writes
  fail: when a reviewed tool is called for the first time, an event had shown exactly this attachment, tool and
  arguments under the review's id and hash, and another had recorded that the actor accepted it.  When it is called
  again with input the server asked for, the reply is the one that was recorded, given by a person in an event or
  made by the expiry of the input; and a call that carries a grant belongs to an operation that was accepted.\<close>

theorem reviewed_calls_were_approved:
  assumes "review_run sid w" and "c \<in> set (rw_calls w)" and "reviewed c"
  shows "justified (rw_seen w) c"
  using review_run_sound [OF assms(1)] assms(2,3) by (simp add: sound_def)

theorem reviewed_calls_were_approved_witness:
  "\<exists>w c. review_run ''s'' w \<and> c \<in> set (rw_calls w) \<and> reviewed c \<and> justified (rw_seen w) c"
proof -
  obtain w c where w: "review_run ''s'' w" "rw_calls w = [c]" "reviewed c" by (rule sample_call)
  then have "c \<in> set (rw_calls w)" by simp
  with w reviewed_calls_were_approved [OF w(1) this w(3)] show ?thesis by blast
qed

text \<open>C6: No stage of a reviewed operation is ever called twice: neither an accepted decision, nor the answer to a
  round of input, whichever calls are interrupted, repeated or resumed after a restart; and an operation that
  still waits for its decision, or was declined, has not been called.\<close>

theorem reviewed_calls_at_most_once:
  assumes "review_run sid w"
  shows "distinct (call_stages w)
    \<and> (\<forall>r. getMcpReview sid (rw_store w) = Some r \<and> (mr_outcome r = Waiting \<or> is_Declined (mr_outcome r))
         \<longrightarrow> mr_request_id r \<notin> fst ` set (call_stages w))"
proof (intro conjI allI impI; (elim conjE)?)
  note s = review_run_sound [OF assms]
  show "distinct (call_stages w)" using s by (simp add: sound_def)
  fix r assume r: "getMcpReview sid (rw_store w) = Some r" and oc: "mr_outcome r = Waiting \<or> is_Declined (mr_outcome r)"
  have "k \<le> 0" if "(mr_request_id r, k) \<in> set (call_stages w)" for k
    using soundD(2) [OF s] r oc that by (cases "mr_outcome r") (auto simp: current_ok_def behind_def rank_def is_resolved_def)
  moreover have "1 \<le> k" if "(mr_request_id r, k) \<in> set (call_stages w)" for k using s that by (auto simp: sound_def)
  ultimately show "mr_request_id r \<notin> fst ` set (call_stages w)" by force
qed

theorem reviewed_calls_at_most_once_witness:
  "\<exists>w. review_run ''s'' w \<and> length (call_stages w) = 1 \<and> distinct (call_stages w)"
proof -
  obtain w c where w: "review_run ''s'' w" "rw_calls w = [c]" "reviewed c" by (rule sample_call)
  then have "length (call_stages w) = 1" by (simp add: call_stages_def)
  with w(1) reviewed_calls_at_most_once [OF w(1)] show ?thesis by blast
qed

end
