(* ===== verification/Host_Commands.thy ===== *)
theory Host_Commands
  imports Native_Records Input_Files Local_Action_Types
begin

text \<open>
  What a control plane may ask of a runner: the conversation operations and their schema
  (\<open>hcpConversationRequestPayloadSchema\<close>, \<open>packages/hcp-protocol/src/conversation.ts\<close>) and the commands
  (\<open>packages/hcp-sdk/src/commands.ts\<close>) an \<open>HcpHostConnection\<close> sends.
\<close>

subsection \<open>Conversation operations\<close>

datatype injected_role = Role_user | Role_assistant

datatype HarnessNativeWorkOperation =
    Work_reconcile (wop_work_id: string) (wop_expected_revision: int)
  | Work_fork (wop_work_id: string) (wop_expected_revision: int) (wop_expected_history_hash: string)
      (wop_target_session_id: string) (wop_continuation_group_key: string) (wop_last_turn_id: "string option")
  | Work_history (wop_work_id: string) (wop_retained: "bool option") (wop_expected_revision: int)
      (wop_cursor: "string option") (wop_limit: "int option")
  | Work_read (wop_cursor: "string option") (wop_limit: "int option")
  | Work_cancel (wop_work_id: string) (wop_expected_revision: int)
  | Work_retire (wop_work_id: string) (wop_expected_revision: int)

datatype HarnessNativeGoalOperation =
    Goal_op_read
  | Goal_op_pause (gop_expected_native_created_at: int)
  | Goal_op_clear (gop_expected_native_created_at: int)

record HarnessNativeFeedbackOperation =
  fo_classification :: string
  fo_reason :: "string option"
  fo_include_diagnostics :: bool

datatype conversation_request =
    Ask_read "string option" "int option"
  | Ask_inject string "(injected_role \<times> string) list"
  | Ask_rollback int string
  | Ask_steer string string
  | Ask_fork string string string "string option"
  | Ask_content string int int
  | Ask_retire
  | Ask_work HarnessNativeWorkOperation
  | Ask_input_file input_request
  | Ask_feedback HarnessNativeFeedbackOperation
  | Ask_goal HarnessNativeGoalOperation
  | Ask_policy int HarnessNativePolicySelection

text \<open>The discriminator \<open>kind\<close>, in the vocabulary of the results.\<close>

fun request_kind :: "conversation_request \<Rightarrow> conversation_operation" where
  "request_kind (Ask_read _ _) = Op_read"
| "request_kind (Ask_inject _ _) = Op_inject"
| "request_kind (Ask_rollback _ _) = Op_rollback"
| "request_kind (Ask_steer _ _) = Op_steer"
| "request_kind (Ask_fork _ _ _ _) = Op_fork"
| "request_kind (Ask_content _ _ _) = Op_content"
| "request_kind Ask_retire = Op_retire"
| "request_kind (Ask_work _) = Op_work"
| "request_kind (Ask_input_file _) = Op_input_file"
| "request_kind (Ask_feedback _) = Op_feedback"
| "request_kind (Ask_goal _) = Op_goal"
| "request_kind (Ask_policy _ _) = Op_policy"

definition cursor_text :: "string \<Rightarrow> bool" where
  "cursor_text s = (1 \<le> length s \<and> length s \<le> 1024)"

definition between :: "int \<Rightarrow> int \<Rightarrow> int \<Rightarrow> bool" where
  "between low high n = (low \<le> n \<and> n \<le> high)"

fun harnessNativeWorkOperationSchema :: "HarnessNativeWorkOperation \<Rightarrow> bool" where
  "harnessNativeWorkOperationSchema (Work_reconcile w r) = (identity w \<and> positive_counter r)"
| "harnessNativeWorkOperationSchema (Work_fork w r h t g l) =
     (identity w \<and> positive_counter r \<and> sha256_text h \<and> identity t \<and> identity g \<and> opt_ok identity l)"
| "harnessNativeWorkOperationSchema (Work_history w _ r c n) =
     (identity w \<and> positive_counter r \<and> opt_ok cursor_text c \<and> opt_ok (between 1 100) n)"
| "harnessNativeWorkOperationSchema (Work_read c n) = (opt_ok cursor_text c \<and> opt_ok (between 1 32) n)"
| "harnessNativeWorkOperationSchema (Work_cancel w r) = (identity w \<and> positive_counter r)"
| "harnessNativeWorkOperationSchema (Work_retire w r) = (identity w \<and> positive_counter r)"

fun harnessNativeGoalOperationSchema :: "HarnessNativeGoalOperation \<Rightarrow> bool" where
  "harnessNativeGoalOperationSchema Goal_op_read = True"
| "harnessNativeGoalOperationSchema (Goal_op_pause n) = counter n"
| "harnessNativeGoalOperationSchema (Goal_op_clear n) = counter n"

definition harnessNativeFeedbackOperationSchema :: "HarnessNativeFeedbackOperation \<Rightarrow> bool" where
  "harnessNativeFeedbackOperationSchema f =
     (classification_text (fo_classification f)
      \<and> opt_ok (\<lambda>r. 1 \<le> length r \<and> length r \<le> 16 * 1024) (fo_reason f))"

definition harnessNativePolicyControlOperationSchema :: "int \<Rightarrow> HarnessNativePolicySelection \<Rightarrow> bool" where
  "harnessNativePolicyControlOperationSchema revision selection =
     (between 0 1023 revision \<and> harnessNativePolicySelectionSchema selection)"

definition bounded_text :: "string \<Rightarrow> bool" where
  "bounded_text s = (1 \<le> length s \<and> length s \<le> 128 * 1024)"

fun conversation_operation_schema :: "conversation_request \<Rightarrow> bool" where
  "conversation_operation_schema (Ask_read c n) = (opt_ok cursor_text c \<and> opt_ok (between 1 100) n)"
| "conversation_operation_schema (Ask_inject h ms) =
     (sha256_text h \<and> list_all (\<lambda>(_, content). bounded_text content) ms \<and> 1 \<le> length ms \<and> length ms \<le> 100
      \<and> sum_list (map (\<lambda>(_, content). length content) ms) \<le> 128 * 1024)"
| "conversation_operation_schema (Ask_rollback n h) = (between 1 10000 n \<and> sha256_text h)"
| "conversation_operation_schema (Ask_steer t i) = (identity t \<and> bounded_text i)"
| "conversation_operation_schema (Ask_fork t g h l) = (identity t \<and> identity g \<and> sha256_text h \<and> opt_ok identity l)"
| "conversation_operation_schema (Ask_content c offset limit) =
     (sha256_text c \<and> 0 \<le> offset \<and> between 1 (64 * 1024) limit)"
| "conversation_operation_schema Ask_retire = True"
| "conversation_operation_schema (Ask_work w) = harnessNativeWorkOperationSchema w"
| "conversation_operation_schema (Ask_input_file r) = harnessInputFileOperationSchema r"
| "conversation_operation_schema (Ask_feedback f) = harnessNativeFeedbackOperationSchema f"
| "conversation_operation_schema (Ask_goal g) = harnessNativeGoalOperationSchema g"
| "conversation_operation_schema (Ask_policy n s) = harnessNativePolicyControlOperationSchema n s"

record HcpConversationRequestPayload =
  cq_session_id :: string
  cq_operation :: conversation_request

definition hcpConversationRequestPayloadSchema :: "HcpConversationRequestPayload \<Rightarrow> bool" where
  "hcpConversationRequestPayloadSchema p = (identity (cq_session_id p) \<and> conversation_operation_schema (cq_operation p))"

subsection \<open>Commands\<close>

text \<open>
  The payloads the connection reads are modelled; of the seven kinds it only forwards and
  acknowledges, the payload is its JSON value.
\<close>

datatype plain_command =
  Session_start | Turn_send | Turn_cancel | Session_stop | Approval_respond | Input_respond | Tool_servers_detach

datatype command_payload =
    Plain plain_command json
  | Snapshot_request string json
  | Local_action_command LocalActionRequestPayload
  | Workspaces_request json
  | Accounts_read "string list option"
  | Conversation_command HcpConversationRequestPayload

record HcpCommand =
  cmd_id :: string
  cmd_payload :: command_payload

text \<open>The five kinds an acknowledgement does not settle: their response is a message of its own.\<close>

definition has_own_response :: "HcpCommand \<Rightarrow> bool" where
  "has_own_response c = (case cmd_payload c of Plain _ _ \<Rightarrow> False | _ \<Rightarrow> True)"

end
