(* ===== verification/Account_Usage.thy ===== *)
theory Account_Usage
  imports Protocol
begin

text \<open>
  Account usage (\<open>packages/hcp-protocol/src/accounts.ts\<close>): what a runner reads of the accounts behind
  its providers, and \<open>HcpAccountUsageReducer\<close>, the control plane's projection of those readings.

  The reducer keeps one state per source, a provider of a host: the latest reading and the last one
  that succeeded.  \<open>ts\<close> is zod's format check of a timestamp, \<open>date_parse\<close> is \<open>Date.parse\<close> (\<open>None\<close> is
  \<open>NaN\<close>, which no comparison holds of).
\<close>

subsection \<open>Readings\<close>

datatype scope_source = Scope_provider | Scope_operator | Scope_local
datatype limit_kind = Limit_quota | Limit_spend
datatype usage_source = Codex_app_server | Claude_sdk_experimental
datatype unavailable_reason =
  Usage_disabled | Usage_unsupported | Usage_unauthenticated | Usage_not_applicable | Usage_timeout | Usage_provider_error
| Usage_invalid_response

record AccountIdentity =
  ai_key :: string
  ai_provider :: string
  ai_scope_source :: scope_source
  ai_label :: string

record AccountLimit =
  al_id :: string
  al_label :: string
  al_kind :: limit_kind
  al_used_percent :: "int option"
  al_resets_at :: "string option"
  al_window_minutes :: "int option"

record AccountUsageAvailable =
  au_observed_at :: string
  au_account :: AccountIdentity
  au_source :: usage_source
  au_plan :: "string option"
  au_limits :: "AccountLimit list"

datatype AccountUsageObservation =
    Available AccountUsageAvailable
  | Unavailable string unavailable_reason string

record AccountProviderReading =
  ar_provider_instance_id :: string
  ar_observation :: AccountUsageObservation

record HcpAccountsSnapshotPayload =
  hs_request_id :: string
  hs_host_id :: string
  hs_providers :: "AccountProviderReading list"

record AccountSourceState =
  as_host_id :: string
  as_provider_instance_id :: string
  as_latest :: AccountUsageObservation
  as_last_success :: "AccountUsageAvailable option"

definition account_id :: "string \<Rightarrow> bool" where
  "account_id s = (1 \<le> length s \<and> length s \<le> 256)"

definition accountIdentitySchema :: "AccountIdentity \<Rightarrow> bool" where
  "accountIdentitySchema a = (account_id (ai_key a) \<and> account_id (ai_provider a) \<and> account_id (ai_label a))"

definition accountLimitSchema :: "(string \<Rightarrow> bool) \<Rightarrow> AccountLimit \<Rightarrow> bool" where
  "accountLimitSchema ts l =
     (account_id (al_id l) \<and> account_id (al_label l) \<and> opt_ok (\<lambda>p. 0 \<le> p) (al_used_percent l)
      \<and> opt_ok ts (al_resets_at l) \<and> opt_ok (\<lambda>m. 0 < m) (al_window_minutes l))"

definition accountUsageAvailableSchema :: "(string \<Rightarrow> bool) \<Rightarrow> AccountUsageAvailable \<Rightarrow> bool" where
  "accountUsageAvailableSchema ts a =
     (ts (au_observed_at a) \<and> accountIdentitySchema (au_account a) \<and> opt_ok account_id (au_plan a)
      \<and> list_all (accountLimitSchema ts) (au_limits a) \<and> length (au_limits a) \<le> 64 \<and> distinct (map al_id (au_limits a)))"

definition accountUsageObservationSchema :: "(string \<Rightarrow> bool) \<Rightarrow> AccountUsageObservation \<Rightarrow> bool" where
  "accountUsageObservationSchema ts ob =
     (case ob of
        Available a \<Rightarrow> accountUsageAvailableSchema ts a
      | Unavailable at _ m \<Rightarrow> ts at \<and> 1 \<le> length m \<and> length m \<le> 512)"

definition hcpAccountsReadPayloadSchema :: "string list option \<Rightarrow> bool" where
  "hcpAccountsReadPayloadSchema ids =
     opt_ok (\<lambda>xs. list_all account_id xs \<and> 1 \<le> length xs \<and> length xs \<le> 32 \<and> distinct xs) ids"

definition hcpAccountsSnapshotPayloadSchema :: "(string \<Rightarrow> bool) \<Rightarrow> HcpAccountsSnapshotPayload \<Rightarrow> bool" where
  "hcpAccountsSnapshotPayloadSchema ts p =
     (account_id (hs_request_id p) \<and> account_id (hs_host_id p) \<and> length (hs_providers p) \<le> 32
      \<and> list_all (\<lambda>r. account_id (ar_provider_instance_id r) \<and> accountUsageObservationSchema ts (ar_observation r)) (hs_providers p)
      \<and> distinct (map ar_provider_instance_id (hs_providers p)))"

definition observed_at :: "AccountUsageObservation \<Rightarrow> string" where
  "observed_at ob = (case ob of Available a \<Rightarrow> au_observed_at a | Unavailable at _ _ \<Rightarrow> at)"

text \<open>\<open>Date.parse(a) >= Date.parse(b)\<close>\<close>

definition not_before :: "(string \<Rightarrow> int option) \<Rightarrow> string \<Rightarrow> string \<Rightarrow> bool" where
  "not_before date_parse a b = (case (date_parse a, date_parse b) of (Some x, Some y) \<Rightarrow> y \<le> x | _ \<Rightarrow> False)"

definition accountSourceStateSchema :: "(string \<Rightarrow> bool) \<Rightarrow> (string \<Rightarrow> int option) \<Rightarrow> AccountSourceState \<Rightarrow> bool" where
  "accountSourceStateSchema ts date_parse s =
     (account_id (as_host_id s) \<and> account_id (as_provider_instance_id s)
      \<and> accountUsageObservationSchema ts (as_latest s) \<and> opt_ok (accountUsageAvailableSchema ts) (as_last_success s)
      \<and> (case as_latest s of Available a \<Rightarrow> as_last_success s = Some a | _ \<Rightarrow> True)
      \<and> (case as_last_success s of
           None \<Rightarrow> True
         | Some a \<Rightarrow> (case (date_parse (au_observed_at a), date_parse (observed_at (as_latest s))) of
             (Some x, Some y) \<Rightarrow> \<not> y < x | _ \<Rightarrow> True)))"

subsection \<open>The reducer\<close>

type_synonym HcpAccountUsageReducer = "(string \<times> AccountSourceState) list"

definition sourceKey :: "string \<Rightarrow> string \<Rightarrow> string" where
  "sourceKey hostId providerId = render (JArr [JStr hostId, JStr providerId])"

definition key_of_source :: "AccountSourceState \<Rightarrow> string" where
  "key_of_source s = sourceKey (as_host_id s) (as_provider_instance_id s)"

fun restore_sources ::
  "(string \<Rightarrow> bool) \<Rightarrow> (string \<Rightarrow> int option) \<Rightarrow> AccountSourceState list \<Rightarrow> HcpAccountUsageReducer \<Rightarrow> string + HcpAccountUsageReducer" where
  "restore_sources ts date_parse [] m = Inr m"
| "restore_sources ts date_parse (s # ss) m =
     bindR (guardR (accountSourceStateSchema ts date_parse s) ''ZodError'') (\<lambda>_.
     bindR (guardR (map_of m (key_of_source s) = None) ''Duplicate account source.'') (\<lambda>_.
     restore_sources ts date_parse ss (AList.update (key_of_source s) s m)))"

definition new_account_reducer ::
  "(string \<Rightarrow> bool) \<Rightarrow> (string \<Rightarrow> int option) \<Rightarrow> AccountSourceState list \<Rightarrow> string + HcpAccountUsageReducer" where
  "new_account_reducer ts date_parse ss = restore_sources ts date_parse ss []"

definition last_success_of :: "AccountUsageObservation \<Rightarrow> AccountSourceState option \<Rightarrow> AccountUsageAvailable option" where
  "last_success_of ob existing = (case ob of Available a \<Rightarrow> Some a | _ \<Rightarrow> Option.bind existing as_last_success)"

definition apply_reading ::
  "(string \<Rightarrow> int option) \<Rightarrow> string \<Rightarrow> HcpAccountUsageReducer \<Rightarrow> AccountProviderReading \<Rightarrow> HcpAccountUsageReducer" where
  "apply_reading date_parse host m reading =
     (let key = sourceKey host (ar_provider_instance_id reading); existing = map_of m key; ob = ar_observation reading in
      if (case existing of None \<Rightarrow> False | Some e \<Rightarrow> not_before date_parse (observed_at (as_latest e)) (observed_at ob)) then m
      else AList.update key
        \<lparr>as_host_id = host, as_provider_instance_id = ar_provider_instance_id reading, as_latest = ob,
         as_last_success = last_success_of ob existing\<rparr> m)"

definition apply_accounts ::
  "(string \<Rightarrow> bool) \<Rightarrow> (string \<Rightarrow> int option) \<Rightarrow> HcpAccountsSnapshotPayload \<Rightarrow> HcpAccountUsageReducer \<Rightarrow>
     (string + unit) \<times> HcpAccountUsageReducer" where
  "apply_accounts ts date_parse snapshot m =
     (if hcpAccountsSnapshotPayloadSchema ts snapshot
      then (Inr (), foldl (apply_reading date_parse (hs_host_id snapshot)) m (hs_providers snapshot))
      else (Inl ''ZodError'', m))"

definition removeSource :: "string \<Rightarrow> string \<Rightarrow> HcpAccountUsageReducer \<Rightarrow> HcpAccountUsageReducer" where
  "removeSource hostId providerInstanceId m = AList.delete (sourceKey hostId providerInstanceId) m"

definition account_snapshot :: "HcpAccountUsageReducer \<Rightarrow> AccountSourceState list" where
  "account_snapshot m = map snd m"

subsection \<open>The view\<close>

datatype freshness = Fresh | Stale | Freshness_unavailable

record AccountUsageView =
  av_account :: AccountIdentity
  av_observation :: AccountUsageAvailable
  av_freshness :: freshness
  av_sources :: "(string \<times> string) list"

text \<open>The sources with a successful reading, each with it, grouped by account in the order of the sources.\<close>

definition successful :: "HcpAccountUsageReducer \<Rightarrow> (AccountSourceState \<times> AccountUsageAvailable) list" where
  "successful m = concat (map (\<lambda>(_, s). case as_last_success s of None \<Rightarrow> [] | Some a \<Rightarrow> [(s, a)]) m)"

definition account_key :: "AccountSourceState \<times> AccountUsageAvailable \<Rightarrow> string" where
  "account_key x = ai_key (au_account (snd x))"

definition add_to_group :: "(string \<times> 'a list) list \<Rightarrow> string \<Rightarrow> 'a \<Rightarrow> (string \<times> 'a list) list" where
  "add_to_group g k x = AList.update k ((case map_of g k of None \<Rightarrow> [] | Some xs \<Rightarrow> xs) @ [x]) g"

definition group_sources :: "HcpAccountUsageReducer \<Rightarrow> (string \<times> (AccountSourceState \<times> AccountUsageAvailable) list) list" where
  "group_sources m = foldl (\<lambda>g x. add_to_group g (account_key x) x) [] (successful m)"

text \<open>\<open>sources.reduce((a, b) => a >= b ? a : b)\<close>\<close>

fun newest :: "(string \<Rightarrow> int option) \<Rightarrow> AccountSourceState \<times> AccountUsageAvailable \<Rightarrow>
    (AccountSourceState \<times> AccountUsageAvailable) list \<Rightarrow> AccountSourceState \<times> AccountUsageAvailable" where
  "newest date_parse a [] = a"
| "newest date_parse a (b # bs) =
     newest date_parse (if not_before date_parse (au_observed_at (snd a)) (au_observed_at (snd b)) then a else b) bs"

definition freshness_of ::
  "(string \<Rightarrow> int option) \<Rightarrow> int \<Rightarrow> int \<Rightarrow> AccountSourceState \<times> AccountUsageAvailable \<Rightarrow> freshness" where
  "freshness_of date_parse now maxAgeMs selected =
     (case as_latest (fst selected) of
        Unavailable _ _ _ \<Rightarrow> Freshness_unavailable
      | Available _ \<Rightarrow> (case date_parse (au_observed_at (snd selected)) of
          None \<Rightarrow> Fresh
        | Some t \<Rightarrow> if now - t < 0 \<or> maxAgeMs < now - t then Stale else Fresh))"

definition view_of ::
  "(string \<Rightarrow> int option) \<Rightarrow> int \<Rightarrow> int \<Rightarrow> (AccountSourceState \<times> AccountUsageAvailable) list \<Rightarrow> AccountUsageView" where
  "view_of date_parse now maxAgeMs sources =
     (let selected = newest date_parse (hd sources) (tl sources) in
      \<lparr>av_account = au_account (snd selected), av_observation = snd selected,
       av_freshness = freshness_of date_parse now maxAgeMs selected,
       av_sources = map (\<lambda>(s, _). (as_host_id s, as_provider_instance_id s)) sources\<rparr>)"

definition account_views ::
  "(string \<Rightarrow> int option) \<Rightarrow> int \<Rightarrow> int \<Rightarrow> HcpAccountUsageReducer \<Rightarrow> string + AccountUsageView list" where
  "account_views date_parse now maxAgeMs m =
     (if maxAgeMs \<le> 0 then Inl ''Invalid freshness bounds.''
      else Inr (map (\<lambda>(_, sources). view_of date_parse now maxAgeMs sources) (group_sources m)))"

subsection \<open>What the reducer keeps\<close>

datatype account_call = Accounts_arrive HcpAccountsSnapshotPayload | Source_removed string string

fun account_step ::
  "(string \<Rightarrow> bool) \<Rightarrow> (string \<Rightarrow> int option) \<Rightarrow> HcpAccountUsageReducer \<Rightarrow> account_call \<Rightarrow> HcpAccountUsageReducer" where
  "account_step ts date_parse m (Accounts_arrive p) = snd (apply_accounts ts date_parse p m)"
| "account_step ts date_parse m (Source_removed h i) = removeSource h i m"

text \<open>Every source is filed under its own key and satisfies the state schema.\<close>

definition sources_ok :: "(string \<Rightarrow> bool) \<Rightarrow> (string \<Rightarrow> int option) \<Rightarrow> HcpAccountUsageReducer \<Rightarrow> bool" where
  "sources_ok ts date_parse m \<longleftrightarrow>
     distinct (map fst m) \<and> (\<forall>(k, s) \<in> set m. k = key_of_source s \<and> accountSourceStateSchema ts date_parse s)"

lemma restore_sources_ok:
  assumes "restore_sources ts date_parse ss m = Inr m'" and "sources_ok ts date_parse m"
  shows "sources_ok ts date_parse m'"
  using assms
proof (induction ss arbitrary: m)
  case (Cons s ss)
  then have "accountSourceStateSchema ts date_parse s" and new: "map_of m (key_of_source s) = None"
    and rest: "restore_sources ts date_parse ss (m @ [(key_of_source s, s)]) = Inr m'"
    by (auto simp: result_simps update_new)
  then have "sources_ok ts date_parse (m @ [(key_of_source s, s)])"
    using Cons.prems(2) by (auto simp: sources_ok_def map_of_eq_None_iff)
  with rest show ?case by (rule Cons.IH)
qed simp

lemma restore_snapshot:
  assumes "sources_ok ts date_parse (m @ n)"
  shows "restore_sources ts date_parse (map snd n) m = Inr (m @ n)"
  using assms
proof (induction n arbitrary: m)
  case (Cons x n)
  obtain k s where x: "x = (k, s)" by fastforce
  then have s: "k = key_of_source s" "accountSourceStateSchema ts date_parse s" and new: "map_of m k = None"
    using Cons.prems by (auto simp: sources_ok_def map_of_eq_None_iff)
  have "restore_sources ts date_parse (map snd n) (m @ [(k, s)]) = Inr ((m @ [(k, s)]) @ n)"
    by (rule Cons.IH) (use Cons.prems x in simp)
  with x s new show ?case by (simp add: update_new)
qed simp

lemma reading_schema:
  assumes times: "\<forall>t. ts t \<longrightarrow> date_parse t \<noteq> None"
    and "account_id host" "account_id (ar_provider_instance_id r)" "accountUsageObservationSchema ts (ar_observation r)"
    and old: "\<And>e. existing = Some e \<Longrightarrow> accountSourceStateSchema ts date_parse e
      \<and> \<not> not_before date_parse (observed_at (as_latest e)) (observed_at (ar_observation r))"
  shows "accountSourceStateSchema ts date_parse
    \<lparr>as_host_id = host, as_provider_instance_id = ar_provider_instance_id r, as_latest = ar_observation r,
     as_last_success = last_success_of (ar_observation r) existing\<rparr>"
proof (cases "ar_observation r")
  case (Available a)
  with assms(2-4) show ?thesis
    by (auto simp: accountSourceStateSchema_def last_success_of_def accountUsageObservationSchema_def observed_at_def split: option.split)
next
  case (Unavailable at reason m)
  show ?thesis
  proof (cases "Option.bind existing as_last_success")
    case None
    with assms(2-4) Unavailable show ?thesis by (simp add: accountSourceStateSchema_def last_success_of_def)
  next
    case (Some a)
    then obtain e where e: "existing = Some e" "as_last_success e = Some a" by (cases existing) auto
    note valid = old [OF e(1)]
    obtain x y z where t: "date_parse (au_observed_at a) = Some x" "date_parse (observed_at (as_latest e)) = Some y" "date_parse at = Some z"
      using times valid e(2) assms(4) Unavailable
      by (fastforce simp: accountSourceStateSchema_def accountUsageObservationSchema_def accountUsageAvailableSchema_def observed_at_def
            split: AccountUsageObservation.splits)
    then have "x \<le> y" "y < z" using valid e(2) Unavailable by (auto simp: accountSourceStateSchema_def not_before_def observed_at_def)
    with t Some assms(2-4) Unavailable valid e(2) show ?thesis
      by (simp add: accountSourceStateSchema_def last_success_of_def observed_at_def)
  qed
qed

lemma sources_okD: "sources_ok ts date_parse m \<Longrightarrow> map_of m k = Some s \<Longrightarrow> accountSourceStateSchema ts date_parse s"
  by (auto simp: sources_ok_def dest: map_of_SomeD)

lemma apply_reading_ok:
  assumes times: "\<forall>t. ts t \<longrightarrow> date_parse t \<noteq> None" and m: "sources_ok ts date_parse m"
    and "account_id host" "account_id (ar_provider_instance_id r)" "accountUsageObservationSchema ts (ar_observation r)"
  shows "sources_ok ts date_parse (apply_reading date_parse host m r)"
proof (cases "case map_of m (sourceKey host (ar_provider_instance_id r)) of None \<Rightarrow> False
    | Some e \<Rightarrow> not_before date_parse (observed_at (as_latest e)) (observed_at (ar_observation r))")
  case True
  with m show ?thesis by (simp add: apply_reading_def Let_def)
next
  case False
  let ?k = "sourceKey host (ar_provider_instance_id r)"
  let ?s = "\<lparr>as_host_id = host, as_provider_instance_id = ar_provider_instance_id r, as_latest = ar_observation r,
     as_last_success = last_success_of (ar_observation r) (map_of m ?k)\<rparr>"
  have "accountSourceStateSchema ts date_parse ?s"
    by (rule reading_schema [OF times assms(3-5)]) (use False sources_okD [OF m] in auto)
  then have "sources_ok ts date_parse (AList.update ?k ?s m)"
    using m set_update_subset [of ?k ?s m]
    by (fastforce simp: sources_ok_def key_of_source_def distinct_update)
  with False show ?thesis unfolding apply_reading_def Let_def by (simp only: if_False)
qed

lemma readings_ok:
  assumes "\<forall>t. ts t \<longrightarrow> date_parse t \<noteq> None" and "sources_ok ts date_parse m" and "account_id host"
    and "\<forall>r \<in> set rs. account_id (ar_provider_instance_id r) \<and> accountUsageObservationSchema ts (ar_observation r)"
  shows "sources_ok ts date_parse (foldl (apply_reading date_parse host) m rs)"
  using assms(2,4) by (induction rs arbitrary: m) (simp_all add: apply_reading_ok [OF assms(1) _ assms(3)])

lemma apply_accounts_ok:
  assumes "\<forall>t. ts t \<longrightarrow> date_parse t \<noteq> None" and "sources_ok ts date_parse m"
  shows "sources_ok ts date_parse (snd (apply_accounts ts date_parse p m))"
  using assms readings_ok [OF assms, of "hs_host_id p" "hs_providers p"]
  by (simp add: apply_accounts_def hcpAccountsSnapshotPayloadSchema_def list_all_iff)

lemma account_call_ok:
  assumes "\<forall>t. ts t \<longrightarrow> date_parse t \<noteq> None" and "sources_ok ts date_parse m"
  shows "sources_ok ts date_parse (account_step ts date_parse m c)"
proof (cases c)
  case (Accounts_arrive p)
  with assms show ?thesis by (simp add: apply_accounts_ok)
next
  case (Source_removed h i)
  with assms show ?thesis
    by (auto simp: sources_ok_def removeSource_def AList.delete_eq distinct_map_filter)
qed

lemma account_calls_ok:
  "\<forall>t. ts t \<longrightarrow> date_parse t \<noteq> None \<Longrightarrow> sources_ok ts date_parse m \<Longrightarrow> sources_ok ts date_parse (foldl (account_step ts date_parse) m cs)"
  by (induction cs arbitrary: m) (simp_all add: account_call_ok)

subsection \<open>What the view shows\<close>

lemma add_to_group_lookup:
  "map_of (add_to_group g k x) k' =
     (if k' = k then Some ((case map_of g k of None \<Rightarrow> [] | Some xs \<Rightarrow> xs) @ [x]) else map_of g k')"
  by (simp add: add_to_group_def js_map)

abbreviation "grouped f g xs \<equiv> foldl (\<lambda>g x. add_to_group g (f x) x) g xs"

lemma groups_distinct: "distinct (map fst g) \<Longrightarrow> distinct (map fst (grouped f g xs))"
  by (induction xs arbitrary: g) (simp_all add: add_to_group_def distinct_update)

lemma groups_lookup:
  assumes "\<And>k xs. map_of g k = Some xs \<Longrightarrow> xs \<noteq> []"
  shows "map_of (grouped f g xs) k =
      (let ys = (case map_of g k of None \<Rightarrow> [] | Some ys \<Rightarrow> ys) @ filter (\<lambda>x. f x = k) xs in if ys = [] then None else Some ys)"
  using assms
proof (induction xs arbitrary: g)
  case (Cons x xs)
  have ne: "ys \<noteq> []" if "map_of (add_to_group g (f x) x) k' = Some ys" for k' ys
    using that Cons.prems by (auto simp: add_to_group_lookup split: if_splits)
  have "map_of (grouped f (add_to_group g (f x) x) xs) k =
      (let ys = (case map_of (add_to_group g (f x) x) k of None \<Rightarrow> [] | Some ys \<Rightarrow> ys) @ filter (\<lambda>x. f x = k) xs
       in if ys = [] then None else Some ys)"
    by (rule Cons.IH) (rule ne)
  then show ?case by (simp add: add_to_group_lookup Let_def)
qed (auto split: option.splits)

lemma group_sources_lookup:
  "map_of (group_sources m) k =
     (let ys = filter (\<lambda>x. account_key x = k) (successful m) in if ys = [] then None else Some ys)"
  "distinct (map fst (group_sources m))"
  unfolding group_sources_def by (subst groups_lookup; simp) (rule groups_distinct; simp)

lemma successful_iff: "(s, a) \<in> set (successful m) \<longleftrightarrow> (\<exists>k. (k, s) \<in> set m) \<and> as_last_success s = Some a"
  by (fastforce simp: successful_def split: option.splits)

lemma newest_of:
  assumes "\<forall>x \<in> set (a # bs). date_parse (au_observed_at (snd x)) \<noteq> None"
  shows "newest date_parse a bs \<in> set (a # bs)
    \<and> (\<forall>x \<in> set (a # bs). not_before date_parse (au_observed_at (snd (newest date_parse a bs))) (au_observed_at (snd x)))"
  using assms
proof (induction bs arbitrary: a)
  case Nil
  then show ?case by (auto simp: not_before_def)
next
  case (Cons b bs)
  let ?c = "if not_before date_parse (au_observed_at (snd a)) (au_observed_at (snd b)) then a else b"
  have IH: "newest date_parse ?c bs \<in> set (?c # bs)
    \<and> (\<forall>x \<in> set (?c # bs). not_before date_parse (au_observed_at (snd (newest date_parse ?c bs))) (au_observed_at (snd x)))"
    by (rule Cons.IH) (use Cons.prems in auto)
  have c: "not_before date_parse (au_observed_at (snd ?c)) (au_observed_at (snd a))"
    "not_before date_parse (au_observed_at (snd ?c)) (au_observed_at (snd b))"
    using Cons.prems by (auto simp: not_before_def split: option.splits)
  have trans: "not_before date_parse u v \<Longrightarrow> not_before date_parse v w \<Longrightarrow> not_before date_parse u w" for u v w
    by (auto simp: not_before_def split: option.splits)
  let ?n = "newest date_parse ?c bs"
  have n: "newest date_parse a (b # bs) = ?n" by simp
  have "not_before date_parse (au_observed_at (snd ?n)) (au_observed_at (snd ?c))" using IH by simp
  then have "not_before date_parse (au_observed_at (snd ?n)) (au_observed_at (snd a))"
    "not_before date_parse (au_observed_at (snd ?n)) (au_observed_at (snd b))"
    using c trans by blast+
  moreover have "?n \<in> set (a # b # bs)" using IH by (auto split: if_splits)
  ultimately show ?case unfolding n using IH by simp
qed

text \<open>The groups are not empty and hold the sources of one account.\<close>

lemma group_members:
  assumes "(k, xs) \<in> set (group_sources m)"
  shows "xs \<noteq> []" "set xs = {x \<in> set (successful m). account_key x = k}"
proof -
  have "map_of (group_sources m) k = Some xs" using assms group_sources_lookup(2) by (simp add: map_of_is_SomeI)
  then have "xs = filter (\<lambda>x. account_key x = k) (successful m)" "xs \<noteq> []"
    by (auto simp: group_sources_lookup Let_def split: if_splits)
  then show "xs \<noteq> []" "set xs = {x \<in> set (successful m). account_key x = k}" by auto
qed

text \<open>A view shows the newest successful reading of its account and names all its sources.\<close>

definition shows_newest ::
  "(string \<Rightarrow> int option) \<Rightarrow> int \<Rightarrow> int \<Rightarrow> AccountSourceState list \<Rightarrow> AccountUsageView \<Rightarrow> bool" where
  "shows_newest date_parse now age ss v \<longleftrightarrow>
     av_account v = au_account (av_observation v)
     \<and> (\<exists>s \<in> set ss. as_last_success s = Some (av_observation v) \<and> av_freshness v = freshness_of date_parse now age (s, av_observation v))
     \<and> (\<forall>s \<in> set ss. \<forall>a. as_last_success s = Some a \<longrightarrow> ai_key (au_account a) = ai_key (av_account v) \<longrightarrow>
          not_before date_parse (au_observed_at (av_observation v)) (au_observed_at a)
          \<and> (as_host_id s, as_provider_instance_id s) \<in> set (av_sources v))"

lemma view_shows_newest:
  assumes times: "\<forall>t. ts t \<longrightarrow> date_parse t \<noteq> None" and m: "sources_ok ts date_parse m" and g: "(k, xs) \<in> set (group_sources m)"
  shows "shows_newest date_parse now age (account_snapshot m) (view_of date_parse now age xs)"
    and "ai_key (av_account (view_of date_parse now age xs)) = k"
proof -
  note members = group_members [OF g]
  obtain x ys where xs: "xs = x # ys" using members(1) by (cases xs) auto
  have "date_parse (au_observed_at a) \<noteq> None" if "(s, a) \<in> set xs" for s a
  proof -
    note mem = that
    obtain k' where "(k', s) \<in> set m" "as_last_success s = Some a" using mem members(2) by (auto simp: successful_iff)
    then have "ts (au_observed_at a)"
      using m by (auto simp: sources_ok_def accountSourceStateSchema_def accountUsageAvailableSchema_def)
    with times show ?thesis by blast
  qed
  note dated = this
  have known: "\<forall>y \<in> set (x # ys). date_parse (au_observed_at (snd y)) \<noteq> None"
    unfolding xs [symmetric] by (intro ballI) (metis dated prod.collapse)
  obtain s a where n: "newest date_parse x ys = (s, a)" by fastforce
  note top = newest_of [OF known, unfolded n snd_conv]
  then have "(s, a) \<in> set xs" using xs by simp
  then have sa: "s \<in> set (account_snapshot m)" "as_last_success s = Some a" "ai_key (au_account a) = k"
    using members(2) by (force simp: successful_iff account_snapshot_def account_key_def)+
  have all: "(s', a') \<in> set xs" if "s' \<in> set (account_snapshot m)" "as_last_success s' = Some a'" "ai_key (au_account a') = k" for s' a'
    using that members(2) by (auto simp: successful_iff account_snapshot_def account_key_def)
  have v: "view_of date_parse now age xs =
      \<lparr>av_account = au_account a, av_observation = a, av_freshness = freshness_of date_parse now age (s, a),
       av_sources = map (\<lambda>(s, _). (as_host_id s, as_provider_instance_id s)) xs\<rparr>"
    by (simp add: view_of_def xs n)
  show "ai_key (av_account (view_of date_parse now age xs)) = k" using v sa(3) by simp
  have "not_before date_parse (au_observed_at a) (au_observed_at a')
      \<and> (as_host_id s', as_provider_instance_id s') \<in> set (map (\<lambda>(s, _). (as_host_id s, as_provider_instance_id s)) xs)"
    if "s' \<in> set (account_snapshot m)" "as_last_success s' = Some a'" "ai_key (au_account a') = k" for s' a'
    using all [OF that] top xs by force
  with sa show "shows_newest date_parse now age (account_snapshot m) (view_of date_parse now age xs)"
    unfolding v shows_newest_def by auto
qed

subsection \<open>What holds of every history\<close>

lemma empty_sources_ok: "sources_ok ts date_parse []"
  by (simp add: sources_ok_def)

lemma history_ok:
  assumes "\<forall>t. ts t \<longrightarrow> date_parse t \<noteq> None" and "new_account_reducer ts date_parse ss = Inr m"
  shows "sources_ok ts date_parse (foldl (account_step ts date_parse) m cs)"
  using account_calls_ok [OF assms(1) restore_sources_ok [OF _ empty_sources_ok]] assms(2) by (simp add: new_account_reducer_def)

text \<open>Whatever snapshots arrive, in whatever order, and whichever sources are removed, the projection an
  application stores can be loaded again and is the same projection: every source satisfies the state schema, its
  last success is never newer than its latest reading, and no two share a key.\<close>

theorem account_state_reloads:
  assumes "\<forall>t. ts t \<longrightarrow> date_parse t \<noteq> None" and "new_account_reducer ts date_parse ss = Inr m0"
    and "m = foldl (account_step ts date_parse) m0 calls"
  shows "new_account_reducer ts date_parse (account_snapshot m) = Inr m
    \<and> (\<forall>s \<in> set (account_snapshot m). accountSourceStateSchema ts date_parse s)"
proof -
  have ok: "sources_ok ts date_parse m" using history_ok [OF assms(1,2)] assms(3) by simp
  then have "new_account_reducer ts date_parse (account_snapshot m) = Inr m"
    using restore_snapshot [of ts date_parse "[]" m] by (simp add: new_account_reducer_def account_snapshot_def)
  with ok show ?thesis by (auto simp: sources_ok_def account_snapshot_def)
qed

text \<open>Two readings of one source, the later one without success.\<close>

definition sample_usage :: AccountUsageAvailable where
  "sample_usage =
     \<lparr>au_observed_at = ''1'', au_account = \<lparr>ai_key = ''k'', ai_provider = ''p'', ai_scope_source = Scope_provider, ai_label = ''l''\<rparr>,
      au_source = Codex_app_server, au_plan = None, au_limits = []\<rparr>"

definition sample_readings :: "account_call list" where
  "sample_readings =
     [Accounts_arrive \<lparr>hs_request_id = ''r'', hs_host_id = ''h'',
        hs_providers = [\<lparr>ar_provider_instance_id = ''i'', ar_observation = Available sample_usage\<rparr>]\<rparr>,
      Accounts_arrive \<lparr>hs_request_id = ''q'', hs_host_id = ''h'',
        hs_providers = [\<lparr>ar_provider_instance_id = ''i'', ar_observation = Unavailable ''12'' Usage_timeout ''late''\<rparr>]\<rparr>]"

definition sample_time :: "string \<Rightarrow> int option" where
  "sample_time t = Some (int (length t))"

definition sample_sources :: HcpAccountUsageReducer where
  "sample_sources = foldl (account_step (\<lambda>_. True) sample_time) [] sample_readings"

lemma sample_sources_eq:
  "sample_sources = [(sourceKey ''h'' ''i'',
     \<lparr>as_host_id = ''h'', as_provider_instance_id = ''i'', as_latest = Unavailable ''12'' Usage_timeout ''late'', as_last_success = Some sample_usage\<rparr>)]"
  by (simp add: sample_sources_def sample_readings_def sample_usage_def apply_accounts_def apply_reading_def last_success_of_def
      hcpAccountsSnapshotPayloadSchema_def account_id_def accountUsageObservationSchema_def accountUsageAvailableSchema_def
      accountIdentitySchema_def observed_at_def not_before_def sample_time_def)

lemma sample_new: "new_account_reducer (\<lambda>_. True) sample_time [] = Inr []"
  by (simp add: new_account_reducer_def)

lemma account_state_reloads_witness:
  "new_account_reducer (\<lambda>_. True) sample_time (account_snapshot sample_sources) = Inr sample_sources \<and> length sample_sources = 1"
  using account_state_reloads [OF _ sample_new sample_sources_def] by (simp add: sample_time_def sample_sources_eq)



end
