(* ===== verification/Host_Connection.thy ===== *)
theory Host_Connection
  imports Host_Commands Session_Reducer Account_Usage
begin

text \<open>
  The control plane's end of a runner's socket, \<open>HcpHostConnection\<close> (\<open>packages/hcp-sdk/src/connection.ts\<close>):
  the handshake, the pending commands and how a message of the runner settles them, the waits for
  events, the observers.

  A promise is a ticket, a number; \<open>hc_trace\<close> records in order what the connection has done to the
  outside: the commands it handed to the transport, the promises it settled and what its observers were
  told.  Predicates and observers are code of the application: a predicate is a function of the event
  that answers or throws, an observer a function of the observation that says whether it throws.  They
  and the transport are assumed not to call back into the connection.
\<close>

subsection \<open>Messages of the runner\<close>

record HcpHostHelloPayload =
  hello_host_id :: string
  hello_rest :: json

datatype runner_message =
    Host_hello HcpHostHelloPayload
  | Accounts_snapshot HcpAccountsSnapshotPayload
  | Heartbeat string
  | Capabilities_updated json
  | Replay_unavailable HcpHostReplayUnavailablePayload
  | Harness_event HcpHarnessEventPayload
  | Session_snapshot HcpSessionSnapshotPayload
  | Command_ack HcpCommandAckPayload
  | Command_nack HcpCommandNackPayload
  | Workspaces_result string json
  | Conversation_result HcpConversationResultPayload
  | Action_response LocalActionResponsePayload
  | Action_error LocalActionErrorPayload
  | Other_message string

subsection \<open>State\<close>

datatype connection_phase =
  Awaiting_hello | Awaiting_accept HcpHostHelloPayload | Accepted HcpHostHelloPayload | Closed

record pending_command =
  pc_command :: HcpCommand
  pc_ticket :: nat

datatype wait_reason = Disconnected | Wait_timeout | Wait_aborted | Reconciliation_required

datatype observation =
    Observed HcpHarnessEventPayload
  | Unconfirmed wait_reason "string option"

record event_waiter =
  ew_ticket :: nat
  ew_session_id :: string
  ew_after_sequence :: int
  ew_predicate :: "HcpHarnessEventPayload \<Rightarrow> string + bool"

text \<open>A set of functions: \<open>so_id\<close> is the identity of the function.\<close>

record session_observer =
  so_id :: nat
  so_throws :: "observation \<Rightarrow> bool"

datatype settlement =
    Answered_with runner_message
  | Rejected_by HcpCommandNackPayload
  | Outcome_unknown string

datatype wait_settlement =
    Event_seen HcpHarnessEventPayload
  | Predicate_threw string
  | Wait_failed wait_reason

datatype host_effect =
    Transmitted HcpCommand
  | Command_settled HcpCommand nat settlement
  | Wait_settled nat wait_settlement
  | Notified nat observation

record host_connection =
  hc_phase :: connection_phase
  hc_events :: reducer
  hc_accounts :: HcpAccountUsageReducer
  hc_pending :: "(string \<times> pending_command) list"
  hc_waiters :: "event_waiter list"
  hc_observers :: "session_observer list"
  hc_tickets :: nat
  hc_trace :: "host_effect list"

definition HcpHostConnection :: "reducer \<Rightarrow> HcpAccountUsageReducer \<Rightarrow> host_connection" where
  "HcpHostConnection events accounts =
     \<lparr>hc_phase = Awaiting_hello, hc_events = events, hc_accounts = accounts, hc_pending = [], hc_waiters = [],
      hc_observers = [], hc_tickets = 0, hc_trace = []\<rparr>"

definition record_effects :: "host_effect list \<Rightarrow> host_connection \<Rightarrow> host_connection" where
  "record_effects es s = s\<lparr>hc_trace := hc_trace s @ es\<rparr>"

subsection \<open>Observers and waits\<close>

definition notifySessionObservers :: "observation \<Rightarrow> host_connection \<Rightarrow> host_connection" where
  "notifySessionObservers ob s =
     record_effects (map (\<lambda>x. Notified (so_id x) ob) (hc_observers s))
       (s\<lparr>hc_observers := filter (\<lambda>x. \<not> so_throws x ob) (hc_observers s)\<rparr>)"

text \<open>What one event does to one wait: \<open>None\<close> leaves it waiting.\<close>

definition wait_outcome :: "HcpHarnessEventPayload \<Rightarrow> event_waiter \<Rightarrow> wait_settlement option" where
  "wait_outcome event w =
     (if ew_session_id w \<noteq> ev_session_id event \<or> ev_sequence event \<le> ew_after_sequence w then None
      else case ew_predicate w event of
        Inl e \<Rightarrow> Some (Predicate_threw e)
      | Inr b \<Rightarrow> if b then Some (Event_seen event) else None)"

definition settle_waits :: "(event_waiter \<Rightarrow> wait_settlement option) \<Rightarrow> host_connection \<Rightarrow> host_connection" where
  "settle_waits outcome s =
     record_effects
       (concat (map (\<lambda>w. case outcome w of None \<Rightarrow> [] | Some r \<Rightarrow> [Wait_settled (ew_ticket w) r]) (hc_waiters s)))
       (s\<lparr>hc_waiters := filter (\<lambda>w. outcome w = None) (hc_waiters s)\<rparr>)"

definition observeEvent :: "HcpHarnessEventPayload \<Rightarrow> host_connection \<Rightarrow> host_connection" where
  "observeEvent event s = settle_waits (wait_outcome event) (notifySessionObservers (Observed event) s)"

text \<open>\<open>#observeEvent(event, waiter)\<close>: only that wait, and no observer.\<close>

definition observeEvent_only :: "nat \<Rightarrow> HcpHarnessEventPayload \<Rightarrow> host_connection \<Rightarrow> host_connection" where
  "observeEvent_only ticket event s =
     settle_waits (\<lambda>w. if ew_ticket w = ticket then wait_outcome event w else None) s"

definition failEventWaiters :: "wait_reason \<Rightarrow> string option \<Rightarrow> host_connection \<Rightarrow> host_connection" where
  "failEventWaiters reason sid s =
     settle_waits (\<lambda>w. if sid = None \<or> sid = Some (ew_session_id w) then Some (Wait_failed reason) else None)
       (if reason = Disconnected \<or> reason = Reconciliation_required
        then notifySessionObservers (Unconfirmed reason sid) s else s)"

subsection \<open>Which command a message settles\<close>

definition json_field :: "json option \<Rightarrow> string \<Rightarrow> json option" where
  "json_field v k = (case v of Some (JObj kvs) \<Rightarrow> map_of kvs k | _ \<Rightarrow> None)"

definition json_number :: "json option \<Rightarrow> int" where
  "json_number v = (case v of Some (JNum n) \<Rightarrow> n | _ \<Rightarrow> 0)"

definition ends_with :: "string \<Rightarrow> string \<Rightarrow> bool" where
  "ends_with e s = (length e \<le> length s \<and> drop (length s - length e) s = e)"

text \<open>The size of a base64 text as the code computes it; the schema has checked its length.\<close>

definition decoded_size :: "string \<Rightarrow> int" where
  "decoded_size d =
     int (length d) div 4 * 3 - (if ends_with ''=='' d then 2 else if ends_with ''='' d then 1 else 0)"

fun request_action_name :: "input_request \<Rightarrow> string" where
  "request_action_name (Create _) = ''create''"
| "request_action_name (Append _ _ _) = ''append''"
| "request_action_name (Seal _) = ''seal''"
| "request_action_name (Read _) = ''read''"
| "request_action_name (Release _) = ''release''"

definition input_file_matches :: "input_request \<Rightarrow> json option \<Rightarrow> bool" where
  "input_file_matches request file =
     (let reference = json_field file ''reference''; ref_is = (\<lambda>k v. json_field reference k = Some v);
          same_file = (\<lambda>i. ref_is ''file_id'' (JStr i)) in
      json_field file ''action'' = Some (JStr (request_action_name request))
      \<and> (case request of
           Create d \<Rightarrow> ref_is ''sha256'' (JStr (fl_sha256 d)) \<and> ref_is ''filename'' (JStr (fl_filename d))
             \<and> ref_is ''mime_type'' (JStr (fl_mime_type d)) \<and> ref_is ''byte_length'' (JNum (int (fl_byte_length d)))
         | Append i off d \<Rightarrow> same_file i
             \<and> \<not> json_number (json_field file ''received_bytes'') < int off + decoded_size d
         | Seal i \<Rightarrow> same_file i | Read i \<Rightarrow> same_file i | Release i \<Rightarrow> same_file i))"

fun goal_matches :: "HarnessNativeGoalOperation \<Rightarrow> HarnessNativeGoalResult option \<Rightarrow> bool" where
  "goal_matches Goal_op_read (Some (Goal_read _ _)) = True"
| "goal_matches (Goal_op_pause n) (Some (Goal_pause _ target _)) = (target = n)"
| "goal_matches (Goal_op_clear n) (Some (Goal_clear _ target)) = (target = n)"
| "goal_matches _ _ = False"

definition feedback_matches :: "HarnessNativeFeedbackOperation \<Rightarrow> HarnessNativeFeedbackResult option \<Rightarrow> bool" where
  "feedback_matches f r =
     (case r of None \<Rightarrow> False
      | Some fb \<Rightarrow> fb_classification fb = fo_classification f \<and> fb_diagnostics_requested fb = fo_include_diagnostics f)"

text \<open>A history answer says whether its owner is active; only a request for the retained one expects it is not.\<close>

fun work_matches :: "HarnessNativeWorkOperation \<Rightarrow> HarnessNativeWorkResult option \<Rightarrow> bool" where
  "work_matches (Work_reconcile w n) (Some (Work_result_reconcile w' n' _)) = (w' = w \<and> n' = n + 1)"
| "work_matches (Work_fork w n _ target grp _) (Some (Work_result_fork w' n' f)) =
     (w' = w \<and> n' = n \<and> fr_session_id f = target \<and> fr_continuation_group_key f = grp)"
| "work_matches (Work_history w retained n _ _) (Some (Work_result_history w' n' active _)) =
     (w' = w \<and> n' = n \<and> active = (retained \<noteq> Some True))"
| "work_matches (Work_read _ _) (Some (Work_result_read _ _ _ _ _ _)) = True"
| "work_matches (Work_cancel w _) (Some (Work_result_cancel w' _)) = (w' = w)"
| "work_matches (Work_retire w _) (Some (Work_result_retire w')) = (w' = w)"
| "work_matches _ _ = False"

definition operation_matches :: "conversation_request \<Rightarrow> HcpConversationResultPayload \<Rightarrow> bool" where
  "operation_matches ask r =
     (case ask of
        Ask_inject _ messages \<Rightarrow>
          (case cs_injection r of Some (Injection_applied n) \<Rightarrow> n = int (length messages) | _ \<Rightarrow> True)
      | Ask_steer turn _ \<Rightarrow> cs_turn_id r = Some turn
      | Ask_goal g \<Rightarrow> goal_matches g (cs_goal r)
      | Ask_feedback f \<Rightarrow> feedback_matches f (cs_feedback r)
      | Ask_input_file rq \<Rightarrow> input_file_matches rq (cs_input_file r)
      | Ask_content cid offset _ \<Rightarrow>
          json_field (json_field (cs_content r) ''reference'') ''content_id'' = Some (JStr cid)
          \<and> json_field (cs_content r) ''offset'' = Some (JNum offset)
      | Ask_fork target grp _ _ \<Rightarrow>
          (case cs_fork r of None \<Rightarrow> False
           | Some f \<Rightarrow> fr_session_id f = target \<and> fr_continuation_group_key f = grp)
      | Ask_work w \<Rightarrow> work_matches w (cs_work r)
      | _ \<Rightarrow> True)"

definition conversation_matches :: "HcpCommand \<Rightarrow> HcpConversationResultPayload \<Rightarrow> bool" where
  "conversation_matches c r =
     (case cmd_payload c of
        Conversation_command p \<Rightarrow>
          cq_session_id p = cs_session_id r \<and> request_kind (cq_operation p) = cs_operation r
          \<and> operation_matches (cq_operation p) r
      | _ \<Rightarrow> False)"

definition only_if :: "(HcpCommand \<Rightarrow> bool) \<Rightarrow> pending_command option \<Rightarrow> pending_command option" where
  "only_if ok q = (case q of None \<Rightarrow> None | Some p \<Rightarrow> if ok (pc_command p) then Some p else None)"

definition is_action :: "string \<Rightarrow> LocalActionType \<Rightarrow> HcpCommand \<Rightarrow> bool" where
  "is_action request_id action c =
     (case cmd_payload c of Local_action_command r \<Rightarrow> req_request_id r = request_id \<and> req_action r = action | _ \<Rightarrow> False)"

definition find_action :: "(string \<times> pending_command) list \<Rightarrow> string \<Rightarrow> LocalActionType \<Rightarrow> pending_command option" where
  "find_action pending request_id action =
     List.find (\<lambda>p. is_action request_id action (pc_command p)) (map snd pending)"

fun pending_for :: "(string \<times> pending_command) list \<Rightarrow> runner_message \<Rightarrow> pending_command option" where
  "pending_for pending (Command_ack a) = only_if (\<lambda>c. \<not> has_own_response c) (map_of pending (ack_command_id a))"
| "pending_for pending (Command_nack n) = map_of pending (nack_command_id n)"
| "pending_for pending (Conversation_result r) =
     only_if (\<lambda>c. conversation_matches c r) (map_of pending (cs_command_id r))"
| "pending_for pending (Accounts_snapshot a) =
     only_if (\<lambda>c. case cmd_payload c of Accounts_read _ \<Rightarrow> True | _ \<Rightarrow> False) (map_of pending (hs_request_id a))"
| "pending_for pending (Action_response r) = find_action pending (rsp_request_id r) (rsp_action r)"
| "pending_for pending (Action_error e) = find_action pending (lep_request_id e) (lep_action e)"
| "pending_for pending (Workspaces_result request_id _) =
     only_if (\<lambda>c. case cmd_payload c of Workspaces_request _ \<Rightarrow> True | _ \<Rightarrow> False) (map_of pending request_id)"
| "pending_for pending (Session_snapshot snap) =
     only_if (\<lambda>c. case cmd_payload c of Snapshot_request sid _ \<Rightarrow> sid = snap_session_id snap | _ \<Rightarrow> False)
       (map_of pending (snap_command_id snap))"
| "pending_for pending _ = None"

fun settlement_of :: "runner_message \<Rightarrow> settlement" where
  "settlement_of (Command_nack n) = Rejected_by n"
| "settlement_of message = Answered_with message"

definition settle :: "runner_message \<Rightarrow> host_connection \<Rightarrow> host_connection" where
  "settle message s =
     (case pending_for (hc_pending s) message of
        None \<Rightarrow> s
      | Some p \<Rightarrow>
          record_effects [Command_settled (pc_command p) (pc_ticket p) (settlement_of message)]
            (s\<lparr>hc_pending := AList.delete (cmd_id (pc_command p)) (hc_pending s)\<rparr>))"

subsection \<open>The operations\<close>

datatype received =
    Received runner_message
  | Reduced runner_message HcpEventApplyResult
  | Resynchronised runner_message HcpSnapshotApplyResult

text \<open>The providers of a reading must be the ones the command named, when it named any.\<close>

definition selection_matches :: "string list option \<Rightarrow> HcpAccountsSnapshotPayload \<Rightarrow> bool" where
  "selection_matches requested a =
     (case requested of None \<Rightarrow> True
      | Some ids \<Rightarrow> length ids = length (hs_providers a)
          \<and> list_all (\<lambda>p. ar_provider_instance_id p \<in> set ids) (hs_providers a))"

definition receive_accounts ::
  "(string \<Rightarrow> bool) \<Rightarrow> (string \<Rightarrow> int option) \<Rightarrow> HcpHostHelloPayload \<Rightarrow> HcpAccountsSnapshotPayload \<Rightarrow>
     host_connection \<Rightarrow> (string + received) \<times> host_connection" where
  "receive_accounts ts date_parse hello a s =
     (let message = Accounts_snapshot a in
      if hs_host_id a \<noteq> hello_host_id hello then (Inl ''Account snapshot host identity mismatch.'', s)
      else case map_option (\<lambda>p. cmd_payload (pc_command p)) (map_of (hc_pending s) (hs_request_id a)) of
        Some (Accounts_read requested) \<Rightarrow>
          if \<not> selection_matches requested a then (Inl ''Account snapshot provider selection mismatch.'', s)
          else (case apply_accounts ts date_parse a (hc_accounts s) of
            (Inl e, m) \<Rightarrow> (Inl e, s\<lparr>hc_accounts := m\<rparr>)
          | (Inr _, m) \<Rightarrow> (Inr (Received message), settle message (s\<lparr>hc_accounts := m\<rparr>)))
      | _ \<Rightarrow> (Inr (Received message), s))"

definition receive_event ::
  "(string \<Rightarrow> string \<Rightarrow> bool) \<Rightarrow> HcpHarnessEventPayload \<Rightarrow> host_connection \<Rightarrow> (string + received) \<times> host_connection" where
  "receive_event le e s =
     (let (reduction, events) = applyEvent le (hc_events s) e; s1 = s\<lparr>hc_events := events\<rparr> in
      (Inr (Reduced (Harness_event e) reduction),
       case reduction of
         Ev_applied _ \<Rightarrow> observeEvent e s1
       | Ev_duplicate _ \<Rightarrow> s1
       | _ \<Rightarrow> failEventWaiters Reconciliation_required (Some (ev_session_id e)) s1))"

definition receive_snapshot ::
  "(string \<Rightarrow> string \<Rightarrow> bool) \<Rightarrow> HcpSessionSnapshotPayload \<Rightarrow> host_connection \<Rightarrow> (string + received) \<times> host_connection" where
  "receive_snapshot le snap s =
     (let (reduction, events) = applySnapshot le (hc_events s) snap;
          s1 = settle (Session_snapshot snap) (s\<lparr>hc_events := events\<rparr>);
          replayed = filter (\<lambda>e. ev_session_id e = snap_session_id snap) (reducer_events le events);
          observed = foldl (\<lambda>s e. observeEvent e s) s1 replayed in
      (Inr (Resynchronised (Session_snapshot snap) reduction),
       case reduction of
         Snap_applied_complete _ _ \<Rightarrow> observed
       | Snap_applied_partial _ _ _ \<Rightarrow> observed
       | _ \<Rightarrow> failEventWaiters Reconciliation_required (Some (snap_session_id snap)) s1))"

fun receive_accepted ::
  "(string \<Rightarrow> string \<Rightarrow> bool) \<Rightarrow> (string \<Rightarrow> bool) \<Rightarrow> (string \<Rightarrow> int option) \<Rightarrow> HcpHostHelloPayload \<Rightarrow> runner_message \<Rightarrow>
     host_connection \<Rightarrow> (string + received) \<times> host_connection" where
  "receive_accepted le ts date_parse hello (Accounts_snapshot a) s = receive_accounts ts date_parse hello a s"
| "receive_accepted le ts date_parse hello (Heartbeat host) s =
     ((if host \<noteq> hello_host_id hello then Inl ''Heartbeat host identity mismatch.'' else Inr (Received (Heartbeat host))), s)"
| "receive_accepted le ts date_parse hello (Capabilities_updated c) s = (Inr (Received (Capabilities_updated c)), s)"
| "receive_accepted le ts date_parse hello (Replay_unavailable r) s =
     (Inr (Received (Replay_unavailable r)), failEventWaiters Reconciliation_required (Some (ru_session_id r)) s)"
| "receive_accepted le ts date_parse hello (Harness_event e) s = receive_event le e s"
| "receive_accepted le ts date_parse hello (Session_snapshot snap) s = receive_snapshot le snap s"
| "receive_accepted le ts date_parse hello (Host_hello h) s = (Inl ''Duplicate host.hello on this connection.'', s)"
| "receive_accepted le ts date_parse hello (Other_message t) s = (Inl (''Not a runner-to-app message: '' @ t), s)"
| "receive_accepted le ts date_parse hello message s = (Inr (Received message), settle message s)"

text \<open>\<open>input\<close> is the parsed message, or what the parser threw.\<close>

definition receive ::
  "(string \<Rightarrow> string \<Rightarrow> bool) \<Rightarrow> (string \<Rightarrow> bool) \<Rightarrow> (string \<Rightarrow> int option) \<Rightarrow> string + runner_message \<Rightarrow> host_connection \<Rightarrow>
     (string + received) \<times> host_connection" where
  "receive le ts date_parse input s =
     (case hc_phase s of
        Closed \<Rightarrow> (Inl ''Connection is closed.'', s)
      | phase \<Rightarrow> case input of
          Inl e \<Rightarrow> (Inl e, s)
        | Inr message \<Rightarrow> case (phase, message) of
            (Awaiting_hello, Host_hello h) \<Rightarrow> (Inr (Received message), s\<lparr>hc_phase := Awaiting_accept h\<rparr>)
          | (_, Host_hello h) \<Rightarrow> (Inl ''Duplicate host.hello on this connection.'', s)
          | (Accepted hello, _) \<Rightarrow> receive_accepted le ts date_parse hello message s
          | _ \<Rightarrow> (Inl ''Runner has not been accepted.'', s))"

definition disconnect :: "host_connection \<Rightarrow> host_connection" where
  "disconnect s =
     (let s1 = record_effects
            (map (\<lambda>(_, p). Command_settled (pc_command p) (pc_ticket p) (Outcome_unknown ''Runner disconnected.''))
              (hc_pending s))
            (s\<lparr>hc_phase := Closed, hc_pending := []\<rparr>)
      in (failEventWaiters Disconnected None s1)\<lparr>hc_observers := []\<rparr>)"

text \<open>\<open>parsed\<close> is whether the payload of \<open>host.accepted\<close> parses, \<open>sent\<close> whether the transport takes it.\<close>

definition accept_runner :: "string + unit \<Rightarrow> string + unit \<Rightarrow> host_connection \<Rightarrow> (string + unit) \<times> host_connection" where
  "accept_runner parsed sent s =
     (case hc_phase s of
        Awaiting_accept hello \<Rightarrow>
          (case parsed of
             Inl e \<Rightarrow> (Inl e, s)
           | Inr _ \<Rightarrow>
               let s1 = s\<lparr>hc_phase := Accepted hello\<rparr> in
               case sent of Inl e \<Rightarrow> (Inl e, disconnect s1) | Inr _ \<Rightarrow> (Inr (), s1))
      | _ \<Rightarrow> (Inl ''Receive and authorize host.hello before accepting.'', s))"

definition accepted :: "host_connection \<Rightarrow> bool" where
  "accepted s = (case hc_phase s of Accepted _ \<Rightarrow> True | _ \<Rightarrow> False)"

definition valid_timeout :: "int \<Rightarrow> bool" where
  "valid_timeout t = (1 \<le> t \<and> t \<le> 2147483647)"

record wait_options =
  wo_timeoutMs :: "int option"
  wo_aborted :: bool

definition timeout_of :: "wait_options \<Rightarrow> int" where
  "timeout_of opts = (case wo_timeoutMs opts of None \<Rightarrow> 30000 | Some t \<Rightarrow> t)"

definition same_action :: "HcpCommand \<Rightarrow> HcpCommand \<Rightarrow> bool" where
  "same_action c d =
     (case (cmd_payload c, cmd_payload d) of
        (Local_action_command r, Local_action_command q) \<Rightarrow> req_request_id r = req_request_id q
      | _ \<Rightarrow> False)"

text \<open>\<open>fail\<close> of a promise: the pending command is dropped and its outcome is unknown.\<close>

definition fail_command :: "string \<Rightarrow> pending_command \<Rightarrow> host_connection \<Rightarrow> host_connection" where
  "fail_command reason p s =
     record_effects [Command_settled (pc_command p) (pc_ticket p) (Outcome_unknown reason)]
       (s\<lparr>hc_pending := AList.delete (cmd_id (pc_command p)) (hc_pending s)\<rparr>)"

definition send_command ::
  "string + HcpCommand \<Rightarrow> wait_options \<Rightarrow> bool \<Rightarrow> host_connection \<Rightarrow> (string + nat) \<times> host_connection" where
  "send_command input opts sent s =
     (case input of
        Inl e \<Rightarrow> (Inl e, s)
      | Inr c \<Rightarrow>
          if \<not> accepted s then (Inl ''Runner is not connected and accepted.'', s)
          else if wo_aborted opts then (Inl ''AbortError'', s)
          else if \<not> valid_timeout (timeout_of opts) then (Inl ''Invalid command timeout.'', s)
          else if 256 \<le> length (hc_pending s) then (Inl ''Too many pending HCP requests.'', s)
          else if map_of (hc_pending s) (cmd_id c) \<noteq> None then (Inl ''Command is already pending.'', s)
          else if list_ex (\<lambda>(_, p). same_action c (pc_command p)) (hc_pending s)
            then (Inl ''Local action request is already pending.'', s)
          else
            let p = \<lparr>pc_command = c, pc_ticket = hc_tickets s\<rparr>;
                s1 = s\<lparr>hc_tickets := Suc (hc_tickets s), hc_pending := AList.update (cmd_id c) p (hc_pending s)\<rparr> in
            (Inr (hc_tickets s),
             if sent then record_effects [Transmitted c] s1
             else fail_command ''Sending to the runner failed.'' p s1))"

text \<open>Timers and abort listeners of a settled promise are disposed of, so they fire for pending ones only.\<close>

definition command_stopped :: "string \<Rightarrow> nat \<Rightarrow> host_connection \<Rightarrow> host_connection" where
  "command_stopped reason ticket s =
     (case List.find (\<lambda>p. pc_ticket p = ticket) (map snd (hc_pending s)) of
        None \<Rightarrow> s | Some p \<Rightarrow> fail_command reason p s)"

definition subscribeSessionObservations :: "session_observer \<Rightarrow> host_connection \<Rightarrow> (string + unit) \<times> host_connection" where
  "subscribeSessionObservations x s =
     (if 128 \<le> length (hc_observers s) then (Inl ''Too many HCP session observers.'', s)
      else (Inr (), if so_id x \<in> so_id ` set (hc_observers s) then s else s\<lparr>hc_observers := hc_observers s @ [x]\<rparr>))"

definition unsubscribe :: "nat \<Rightarrow> host_connection \<Rightarrow> host_connection" where
  "unsubscribe i s = s\<lparr>hc_observers := filter (\<lambda>x. so_id x \<noteq> i) (hc_observers s)\<rparr>"

definition last_sequence :: "string \<Rightarrow> HcpHarnessEventPayload list \<Rightarrow> int" where
  "last_sequence sid events =
     foldl (\<lambda>last e. if ev_session_id e = sid then max last (ev_sequence e) else last) 0 events"

definition waitForSessionEvent ::
  "(string \<Rightarrow> string \<Rightarrow> bool) \<Rightarrow> string \<Rightarrow> (HcpHarnessEventPayload \<Rightarrow> string + bool) \<Rightarrow> int option \<Rightarrow> wait_options \<Rightarrow>
     host_connection \<Rightarrow> (string + nat) \<times> host_connection" where
  "waitForSessionEvent le sid predicate afterSequence opts s =
     (if \<not> accepted s then (Inl ''Runner is not connected and accepted.'', s)
      else if wo_aborted opts then (Inl ''AbortError'', s)
      else
        let events = reducer_events le (hc_events s);
            after = (case afterSequence of None \<Rightarrow> last_sequence sid events | Some n \<Rightarrow> n) in
        if sid = [] \<or> 512 < length sid \<or> \<not> counter after \<or> \<not> valid_timeout (timeout_of opts)
        then (Inl ''Invalid session event wait.'', s)
        else if 256 \<le> length (hc_waiters s) then (Inl ''Too many pending HCP event waits.'', s)
        else
          let ticket = hc_tickets s;
              w = \<lparr>ew_ticket = ticket, ew_session_id = sid, ew_after_sequence = after, ew_predicate = predicate\<rparr>;
              s1 = s\<lparr>hc_tickets := Suc ticket, hc_waiters := hc_waiters s @ [w]\<rparr> in
          (Inr ticket,
           if afterSequence = None then s1 else foldl (\<lambda>s e. observeEvent_only ticket e s) s1 events))"

definition wait_stopped :: "wait_reason \<Rightarrow> nat \<Rightarrow> host_connection \<Rightarrow> host_connection" where
  "wait_stopped reason ticket s =
     settle_waits (\<lambda>w. if ew_ticket w = ticket then Some (Wait_failed reason) else None) s"

subsection \<open>Runs\<close>

datatype host_call =
    Receives "string + runner_message"
  | Accepts "string + unit" "string + unit"
  | Sends "string + HcpCommand" wait_options bool
  | Command_timer nat
  | Command_abort nat
  | Waits string "HcpHarnessEventPayload \<Rightarrow> string + bool" "int option" wait_options
  | Wait_timer nat
  | Wait_abort nat
  | Subscribes session_observer
  | Unsubscribes nat
  | Disconnects

fun host_step ::
  "(string \<Rightarrow> string \<Rightarrow> bool) \<Rightarrow> (string \<Rightarrow> bool) \<Rightarrow> (string \<Rightarrow> int option) \<Rightarrow> host_call \<Rightarrow> host_connection \<Rightarrow> host_connection" where
  "host_step le ts date_parse (Receives input) s = snd (receive le ts date_parse input s)"
| "host_step le ts date_parse (Accepts parsed sent) s = snd (accept_runner parsed sent s)"
| "host_step le ts date_parse (Sends input opts sent) s = snd (send_command input opts sent s)"
| "host_step le ts date_parse (Command_timer t) s = command_stopped ''Timed out waiting for the runner.'' t s"
| "host_step le ts date_parse (Command_abort t) s = command_stopped ''Stopped waiting for the runner.'' t s"
| "host_step le ts date_parse (Waits sid predicate after opts) s = snd (waitForSessionEvent le sid predicate after opts s)"
| "host_step le ts date_parse (Wait_timer t) s = wait_stopped Wait_timeout t s"
| "host_step le ts date_parse (Wait_abort t) s = wait_stopped Wait_aborted t s"
| "host_step le ts date_parse (Subscribes x) s = snd (subscribeSessionObservations x s)"
| "host_step le ts date_parse (Unsubscribes i) s = unsubscribe i s"
| "host_step le ts date_parse Disconnects s = disconnect s"

definition host_run ::
  "(string \<Rightarrow> string \<Rightarrow> bool) \<Rightarrow> (string \<Rightarrow> bool) \<Rightarrow> (string \<Rightarrow> int option) \<Rightarrow> host_call list \<Rightarrow> host_connection \<Rightarrow> host_connection" where
  "host_run le ts date_parse calls s = foldl (\<lambda>s c. host_step le ts date_parse c s) s calls"

end
