(* ===== verification/Host_Promises.thy ===== *)
theory Host_Promises
  imports Host_Connection
begin

text \<open>
  What an \<open>HcpHostConnection\<close> promises its application.  An interface lists the few ways in which the
  operations change the state; a predicate that survives them survives every call, and the invariants
  of the promises and of the trace are interpretations of it.
\<close>

subsection \<open>What the building blocks leave alone\<close>

lemma record_effects_simps [simp]:
  "hc_phase (record_effects es s) = hc_phase s" "hc_events (record_effects es s) = hc_events s"
  "hc_accounts (record_effects es s) = hc_accounts s" "hc_pending (record_effects es s) = hc_pending s"
  "hc_waiters (record_effects es s) = hc_waiters s" "hc_observers (record_effects es s) = hc_observers s"
  "hc_tickets (record_effects es s) = hc_tickets s" "hc_trace (record_effects es s) = hc_trace s @ es"
  by (simp_all add: record_effects_def)

lemma notify_simps [simp]:
  "hc_phase (notifySessionObservers ob s) = hc_phase s" "hc_events (notifySessionObservers ob s) = hc_events s"
  "hc_pending (notifySessionObservers ob s) = hc_pending s" "hc_waiters (notifySessionObservers ob s) = hc_waiters s"
  "hc_tickets (notifySessionObservers ob s) = hc_tickets s"
  by (simp_all add: notifySessionObservers_def)

lemma settle_waits_simps [simp]:
  "hc_phase (settle_waits f s) = hc_phase s" "hc_events (settle_waits f s) = hc_events s"
  "hc_pending (settle_waits f s) = hc_pending s" "hc_observers (settle_waits f s) = hc_observers s"
  "hc_waiters (settle_waits f s) = filter (\<lambda>w. f w = None) (hc_waiters s)" "hc_tickets (settle_waits f s) = hc_tickets s"
  by (simp_all add: settle_waits_def)

lemma settle_simps [simp]: "hc_phase (settle m s) = hc_phase s" "hc_events (settle m s) = hc_events s"
  by (auto simp: settle_def split: option.splits)

lemma observe_simps [simp]: "hc_phase (observeEvent e s) = hc_phase s" "hc_events (observeEvent e s) = hc_events s"
  by (simp_all add: observeEvent_def)

lemma fail_waiters_simps [simp]:
  "hc_phase (failEventWaiters r sid s) = hc_phase s" "hc_events (failEventWaiters r sid s) = hc_events s"
  "hc_pending (failEventWaiters r sid s) = hc_pending s" "hc_tickets (failEventWaiters r sid s) = hc_tickets s"
  by (simp_all add: failEventWaiters_def)

lemma observed_events [simp]: "hc_events (foldl (\<lambda>s e. observeEvent e s) s es) = hc_events s"
  by (induction es arbitrary: s) auto

lemma observed_only_events [simp]: "hc_events (foldl (\<lambda>s e. observeEvent_only t e s) s es) = hc_events s"
  by (induction es arbitrary: s) (auto simp: observeEvent_only_def)

lemma set_reducer_events: "set (reducer_events le st) = (\<Union>(sid, m) \<in> set st. snd ` set m)"
  by (force simp: reducer_events_def)

lemma updated_entry: "(k, v) \<in> set (AList.update k v m)"
  by (induction m) auto

lemma applied_event_committed:
  assumes "applyEvent le st e = (Ev_applied e', st')"
  shows "e \<in> set (reducer_events le st')"
proof -
  obtain m where m: "st' = AList.update (ev_session_id e) (AList.update (ev_sequence e) e m) st"
    using assms by (auto simp: applyEvent_def Let_def split: option.splits if_splits)
  have "(ev_sequence e, e) \<in> set (AList.update (ev_sequence e) e m)" by (rule updated_entry)
  then have "e \<in> snd ` set (AList.update (ev_sequence e) e m)" by force
  moreover have "(ev_session_id e, AList.update (ev_sequence e) e m) \<in> set st'"
    unfolding m by (rule updated_entry)
  ultimately show ?thesis by (force simp: set_reducer_events)
qed

subsection \<open>The interface: how the state changes\<close>

text \<open>An account reading that reaches the pending command has the providers that command named.\<close>

definition selected :: "host_connection \<Rightarrow> runner_message \<Rightarrow> bool" where
  "selected s m =
     (case m of
        Accounts_snapshot a \<Rightarrow>
          (case map_option (\<lambda>p. cmd_payload (pc_command p)) (map_of (hc_pending s) (hs_request_id a)) of
             Some (Accounts_read requested) \<Rightarrow> selection_matches requested a | _ \<Rightarrow> True)
      | _ \<Rightarrow> True)"

locale host_invariant =
  fixes inv :: "host_connection \<Rightarrow> bool"
    and heard :: "runner_message \<Rightarrow> bool"
    and committed :: "HcpHarnessEventPayload \<Rightarrow> bool"
  assumes notify: "inv s \<Longrightarrow> inv (notifySessionObservers ob s)"
    and waits: "\<lbrakk>inv s; \<And>w e. f w = Some (Event_seen e) \<Longrightarrow> committed e \<and> wait_outcome e w = Some (Event_seen e)\<rbrakk>
        \<Longrightarrow> inv (settle_waits f s)"
    and settles: "\<lbrakk>inv s; heard m; selected s m\<rbrakk> \<Longrightarrow> inv (settle m s)"
    and events: "inv s \<Longrightarrow> inv (s\<lparr>hc_events := ev\<rparr>)"
    and accounts: "inv s \<Longrightarrow> inv (s\<lparr>hc_accounts := acc\<rparr>)"
    and phase: "\<lbrakk>inv s; \<not> accepted s\<rbrakk> \<Longrightarrow> inv (s\<lparr>hc_phase := p\<rparr>)"
    and disconnects: "inv s \<Longrightarrow> inv (disconnect s)"
begin

lemma seen: "wait_outcome e w = Some (Event_seen e') \<Longrightarrow> e' = e"
  by (auto simp: wait_outcome_def split: if_splits sum.splits)

lemma observe: "\<lbrakk>inv s; committed e\<rbrakk> \<Longrightarrow> inv (observeEvent e s)"
  unfolding observeEvent_def by (rule waits) (auto intro: notify dest: seen)

lemma observe_all: "\<lbrakk>inv s; \<forall>e \<in> set es. committed e\<rbrakk> \<Longrightarrow> inv (foldl (\<lambda>s e. observeEvent e s) s es)"
  by (induction es arbitrary: s) (auto intro: observe)

lemma observe_only: "\<lbrakk>inv s; committed e\<rbrakk> \<Longrightarrow> inv (observeEvent_only t e s)"
  unfolding observeEvent_only_def by (rule waits) (auto dest: seen split: if_splits)

lemma observe_all_only: "\<lbrakk>inv s; \<forall>e \<in> set es. committed e\<rbrakk> \<Longrightarrow> inv (foldl (\<lambda>s e. observeEvent_only t e s) s es)"
  by (induction es arbitrary: s) (auto intro: observe_only)

lemma fail_waits: "inv s \<Longrightarrow> inv (failEventWaiters r sid s)"
  unfolding failEventWaiters_def by (rule waits) (auto intro: notify split: if_splits)

lemma stop_wait: "inv s \<Longrightarrow> inv (wait_stopped r t s)"
  unfolding wait_stopped_def by (rule waits) (auto split: if_splits)

lemma accept: "inv s \<Longrightarrow> inv (snd (accept_runner parsed sent s))"
  by (auto simp: accept_runner_def Let_def accepted_def intro!: phase disconnects split: connection_phase.splits sum.splits)

lemma take_event:
  assumes "inv s" and "\<forall>x \<in> set (reducer_events le (hc_events (snd (receive_event le e s)))). committed x"
  shows "inv (snd (receive_event le e s))"
proof -
  obtain r ev where a: "applyEvent le (hc_events s) e = (r, ev)" by fastforce
  show ?thesis
    using assms a applied_event_committed [of le "hc_events s" e _ ev]
    by (cases r) (auto simp: receive_event_def intro!: observe fail_waits events)
qed

lemma take_snapshot:
  assumes "inv s" and "heard (Session_snapshot snap)"
    and "\<forall>x \<in> set (reducer_events le (hc_events (snd (receive_snapshot le snap s)))). committed x"
  shows "inv (snd (receive_snapshot le snap s))"
proof -
  obtain r ev where a: "applySnapshot le (hc_events s) snap = (r, ev)" by fastforce
  have "inv (settle (Session_snapshot snap) (s\<lparr>hc_events := ev\<rparr>))"
    using assms by (intro settles events) (auto simp: selected_def)
  then show ?thesis
    using assms a by (cases r) (auto simp: receive_snapshot_def Let_def intro!: observe_all fail_waits)
qed

lemma take_accounts:
  assumes "inv s" and "heard (Accounts_snapshot a)"
  shows "inv (snd (receive_accounts ts date_parse hello a s))"
  using assms
  by (auto simp: receive_accounts_def Let_def selected_def intro!: settles accounts
      split: option.splits command_payload.splits prod.splits sum.splits)

lemma take:
  assumes "inv s" and "heard m"
    and "\<forall>x \<in> set (reducer_events le (hc_events (snd (receive le ts date_parse (Inr m) s)))). committed x"
  shows "inv (snd (receive le ts date_parse (Inr m) s))"
proof (cases "hc_phase s")
  case (Accepted hello)
  show ?thesis
  proof (cases "\<exists>h. m = Host_hello h")
    case False
    then have r: "receive le ts date_parse (Inr m) s = receive_accepted le ts date_parse hello m s"
      using Accepted by (cases m) (auto simp: receive_def)
    show ?thesis
      using assms unfolding r
      by (cases m) (auto intro: take_event take_snapshot take_accounts fail_waits settles simp: selected_def)
  qed (use assms(1) Accepted in \<open>auto simp: receive_def\<close>)
next
  case Awaiting_hello
  then show ?thesis
    using assms(1) by (cases m) (auto simp: receive_def accepted_def intro: phase)
qed (use assms(1) in \<open>cases m; auto simp: receive_def\<close>)+

end

subsection \<open>Every promise is open or settled, and settled once\<close>

fun settled_ticket :: "host_effect \<Rightarrow> nat list" where
  "settled_ticket (Command_settled c t r) = [t]"
| "settled_ticket (Wait_settled t r) = [t]"
| "settled_ticket _ = []"

definition settled_tickets :: "host_effect list \<Rightarrow> nat list" where
  "settled_tickets tr = concat (map settled_ticket tr)"

definition open_tickets :: "host_connection \<Rightarrow> nat list" where
  "open_tickets s = map (\<lambda>(_, p). pc_ticket p) (hc_pending s) @ map ew_ticket (hc_waiters s)"

text \<open>The tickets handed out are, each once, the settled and the open ones; a closed connection has none open.\<close>

definition promises_ok :: "host_connection \<Rightarrow> bool" where
  "promises_ok s \<longleftrightarrow>
     mset (settled_tickets (hc_trace s)) + mset (open_tickets s) = mset [0..<hc_tickets s]
     \<and> distinct (map fst (hc_pending s)) \<and> (\<forall>(k, p) \<in> set (hc_pending s). k = cmd_id (pc_command p))
     \<and> length (hc_pending s) \<le> 256 \<and> length (hc_waiters s) \<le> 256 \<and> length (hc_observers s) \<le> 128
     \<and> distinct (map so_id (hc_observers s))
     \<and> (\<not> accepted s \<longrightarrow> hc_pending s = [] \<and> hc_waiters s = [])"

lemma settled_tickets_append [simp]: "settled_tickets (xs @ ys) = settled_tickets xs @ settled_tickets ys"
  by (simp add: settled_tickets_def)

lemma settled_tickets_simps [simp]:
  "settled_tickets [] = []" "settled_tickets (e # es) = settled_ticket e @ settled_tickets es"
  by (simp_all add: settled_tickets_def)

lemma notified_tickets [simp]: "settled_tickets (map (\<lambda>x. Notified (so_id x) ob) xs) = []"
  by (induction xs) auto

lemma settled_waits_tickets:
  "mset (settled_tickets (concat (map (\<lambda>w. case f w of None \<Rightarrow> [] | Some r \<Rightarrow> [Wait_settled (ew_ticket w) r]) ws)))
     + mset (map ew_ticket (filter (\<lambda>w. f w = None) ws)) = mset (map ew_ticket ws)"
  by (induction ws) (auto split: option.splits)

lemma disconnected_tickets:
  "settled_tickets (map (\<lambda>(_, p). Command_settled (pc_command p) (pc_ticket p) r) ps) = map (\<lambda>(_, p). pc_ticket p) ps"
  by (induction ps) auto

lemma delete_tickets:
  assumes "map_of m k = Some p" and "distinct (map fst m)"
  shows "mset (map (\<lambda>(_, p). f p) m) = add_mset (f p) (mset (map (\<lambda>(_, p). f p) (AList.delete k m)))"
  using assms
proof (induction m)
  case (Cons e m)
  obtain k' v where e: "e = (k', v)" by fastforce
  show ?case
  proof (cases "k' = k")
    case True
    then have "k \<notin> fst ` set m" using Cons.prems(2) by (simp add: e)
    then have "AList.delete k m = m" by (rule AList.delete_id)
    then show ?thesis using Cons.prems(1) True by (simp add: e)
  next
    case False
    then show ?thesis using Cons by (simp add: e)
  qed
qed simp

lemma accepted_cong: "hc_phase s = hc_phase t \<Longrightarrow> accepted s = accepted t"
  by (simp add: accepted_def)

lemma promises_notify: "promises_ok s \<Longrightarrow> promises_ok (notifySessionObservers ob s)"
  unfolding promises_ok_def open_tickets_def
  by (auto simp: notifySessionObservers_def accepted_def distinct_map_filter intro: le_trans [OF length_filter_le])

lemma promises_waits:
  assumes "promises_ok s"
  shows "promises_ok (settle_waits f s)"
proof -
  have "mset (settled_tickets (hc_trace (settle_waits f s))) + mset (open_tickets (settle_waits f s))
      = mset (settled_tickets (hc_trace s)) + mset (open_tickets s)"
    using settled_waits_tickets [of f "hc_waiters s"]
    by (simp add: settle_waits_def open_tickets_def ac_simps)
  then show ?thesis
    using assms unfolding promises_ok_def
    by (auto simp: accepted_def intro: le_trans [OF length_filter_le])
qed

lemma pending_for_member:
  assumes "pending_for pending m = Some p" and "\<forall>(k, p) \<in> set pending. k = cmd_id (pc_command p)"
    and "distinct (map fst pending)"
  shows "map_of pending (cmd_id (pc_command p)) = Some p"
proof -
  have "p \<in> snd ` set pending"
    using assms(1)
    by (cases m) (force simp: only_if_def find_action_def find_Some_iff dest: map_of_SomeD nth_mem
        split: option.splits if_splits)+
  then show ?thesis using assms(2,3) by auto
qed

lemma promises_fail:
  assumes "promises_ok s" and "map_of (hc_pending s) (cmd_id (pc_command p)) = Some p"
    and "settled_ticket e = [pc_ticket p]"
  shows "promises_ok (record_effects [e] (s\<lparr>hc_pending := AList.delete (cmd_id (pc_command p)) (hc_pending s)\<rparr>))"
proof -
  let ?k = "cmd_id (pc_command p)" and ?m = "hc_pending s"
  let ?s = "record_effects [e] (s\<lparr>hc_pending := AList.delete ?k ?m\<rparr>)"
  have ok: "distinct (map fst ?m)" "\<forall>(k, p) \<in> set ?m. k = cmd_id (pc_command p)" "length ?m \<le> 256"
    using assms(1) by (simp_all add: promises_ok_def)
  have "mset (settled_tickets (hc_trace ?s)) + mset (open_tickets ?s)
      = mset (settled_tickets (hc_trace s)) + mset (open_tickets s)"
    using delete_tickets [OF assms(2) ok(1), of pc_ticket] assms(3) by (simp add: open_tickets_def)
  moreover have "set (AList.delete ?k ?m) \<subseteq> set ?m" by (induction ?m) (auto simp: AList.delete_eq)
  moreover have "length (AList.delete ?k ?m) \<le> 256"
    using AList.length_delete_le [of ?k ?m] ok(3) by linarith
  moreover have "accepted ?s = accepted s" by (simp add: accepted_def)
  moreover have "distinct (map fst (AList.delete ?k ?m))" by (rule AList.distinct_delete [OF ok(1)])
  ultimately show ?thesis
    using assms(1) ok(2) unfolding promises_ok_def by auto
qed

lemma promises_settle:
  assumes "promises_ok s"
  shows "promises_ok (settle m s)"
proof (cases "pending_for (hc_pending s) m")
  case (Some p)
  then have "map_of (hc_pending s) (cmd_id (pc_command p)) = Some p"
    using assms by (intro pending_for_member) (auto simp: promises_ok_def)
  then show ?thesis
    using assms Some by (simp add: settle_def promises_fail)
qed (use assms in \<open>simp add: settle_def\<close>)

lemma promises_disconnect:
  assumes "promises_ok s"
  shows "promises_ok (disconnect s)" and "hc_pending (disconnect s) = []" and "hc_waiters (disconnect s) = []"
    and "hc_observers (disconnect s) = []"
  using assms settled_waits_tickets [of "\<lambda>w. Some (Wait_failed Disconnected)" "hc_waiters s"]
  unfolding promises_ok_def
  by (auto simp: disconnect_def Let_def failEventWaiters_def settle_waits_def notifySessionObservers_def open_tickets_def
      disconnected_tickets ac_simps)

interpretation promises: host_invariant promises_ok "\<lambda>_. True" "\<lambda>_. True"
proof
  show "promises_ok (s\<lparr>hc_phase := p\<rparr>)" if "promises_ok s" and "\<not> accepted s" for s p
    using that by (auto simp: promises_ok_def open_tickets_def)
  show "promises_ok (s\<lparr>hc_events := ev\<rparr>)" if "promises_ok s" for s ev
    using that by (simp add: promises_ok_def open_tickets_def accepted_def)
  show "promises_ok (s\<lparr>hc_accounts := acc\<rparr>)" if "promises_ok s" for s acc
    using that by (simp add: promises_ok_def open_tickets_def accepted_def)
qed (simp_all add: promises_notify promises_waits promises_settle promises_disconnect)

lemma promises_new_ticket:
  assumes "promises_ok s" and "accepted s" and "map_of (hc_pending s) (cmd_id c) = None" and "length (hc_pending s) < 256"
    and "p = \<lparr>pc_command = c, pc_ticket = hc_tickets s\<rparr>"
  shows "promises_ok (s\<lparr>hc_tickets := Suc (hc_tickets s), hc_pending := hc_pending s @ [(cmd_id c, p)]\<rparr>)"
  using assms unfolding promises_ok_def open_tickets_def by (auto simp: accepted_def map_of_eq_None_iff)

lemma promises_record: "\<lbrakk>promises_ok s; settled_tickets es = []\<rbrakk> \<Longrightarrow> promises_ok (record_effects es s)"
  by (simp add: promises_ok_def open_tickets_def accepted_def)

lemma promises_send:
  assumes "promises_ok s"
  shows "promises_ok (snd (send_command input opts sent s))"
proof (cases "\<exists>c t. input = Inr c \<and> fst (send_command input opts sent s) = Inr t")
  case True
  then obtain c where c: "input = Inr c" "accepted s" "map_of (hc_pending s) (cmd_id c) = None" "length (hc_pending s) < 256"
    by (auto simp: send_command_def Let_def split: if_splits)
  define p where "p = \<lparr>pc_command = c, pc_ticket = hc_tickets s\<rparr>"
  define s1 where "s1 = s\<lparr>hc_tickets := Suc (hc_tickets s), hc_pending := hc_pending s @ [(cmd_id c, p)]\<rparr>"
  have ok: "promises_ok s1"
    unfolding s1_def by (rule promises_new_ticket [OF assms c(2,3,4) p_def])
  have "map_of (hc_pending s1) (cmd_id (pc_command p)) = Some p"
    using c(3) by (simp add: s1_def p_def map_add_def)
  then have "promises_ok (fail_command r p s1)" for r
    unfolding fail_command_def by (intro promises_fail ok) simp_all
  then show ?thesis
    using True c ok
    by (auto simp: send_command_def Let_def update_new s1_def p_def promises_record split: if_splits)
next
  case False
  then show ?thesis
    using assms by (cases input) (auto simp: send_command_def Let_def)
qed

lemma promises_stop:
  assumes "promises_ok s"
  shows "promises_ok (command_stopped reason t s)"
proof (cases "List.find (\<lambda>p. pc_ticket p = t) (map snd (hc_pending s))")
  case (Some p)
  then have "p \<in> snd ` set (hc_pending s)"
    unfolding find_Some_iff by (metis nth_mem length_map set_map)
  then have "map_of (hc_pending s) (cmd_id (pc_command p)) = Some p"
    using assms by (auto simp: promises_ok_def)
  then show ?thesis
    using assms Some by (simp add: command_stopped_def fail_command_def promises_fail)
qed (use assms in \<open>simp add: command_stopped_def\<close>)

lemma promises_new_wait:
  assumes "promises_ok s" and "accepted s" and "length (hc_waiters s) < 256" and "ew_ticket w = hc_tickets s"
  shows "promises_ok (s\<lparr>hc_tickets := Suc (hc_tickets s), hc_waiters := hc_waiters s @ [w]\<rparr>)"
  using assms unfolding promises_ok_def open_tickets_def by (auto simp: accepted_def)

lemma promises_wait:
  assumes "promises_ok s"
  shows "promises_ok (snd (waitForSessionEvent le sid predicate after opts s))"
  using assms
  by (auto simp: waitForSessionEvent_def Let_def intro!: promises.observe_all_only promises_new_wait)

lemma promises_step:
  assumes "promises_ok s"
  shows "promises_ok (host_step le ts date_parse c s)"
proof (cases c)
  case (Receives input)
  then show ?thesis
    using assms promises.take [OF assms TrueI, of le ts date_parse]
    by (cases input) (auto simp: receive_def [where input = "Inl _"] split: connection_phase.splits)
next
  case (Subscribes x)
  then show ?thesis
    using assms by (auto simp: subscribeSessionObservations_def promises_ok_def open_tickets_def accepted_def)
next
  case (Unsubscribes i)
  then show ?thesis
    using assms
    by (auto simp: unsubscribe_def promises_ok_def open_tickets_def accepted_def distinct_map_filter
        intro: le_trans [OF length_filter_le])
qed (use assms in \<open>auto intro: promises.accept promises_send promises_stop promises_wait promises.stop_wait promises_disconnect\<close>)

lemma promises_run: "promises_ok s \<Longrightarrow> promises_ok (host_run le ts date_parse calls s)"
  unfolding host_run_def by (induction calls arbitrary: s) (auto intro: promises_step)

lemma promises_new: "promises_ok (HcpHostConnection events accounts)"
  by (simp add: promises_ok_def HcpHostConnection_def open_tickets_def)

end
