(* ===== verification/Host_Answers.thy ===== *)
theory Host_Answers
  imports Host_Promises
begin

text \<open>
  What the settlements of an \<open>HcpHostConnection\<close> mean: a promise is answered by a message of the runner
  of the kind its command asks for and that names the same request, and a wait by an event that the
  reducer has committed.
\<close>

subsection \<open>The contract of an answer\<close>

text \<open>
  \<open>HcpCommandResponse\<close>: the type of a command's response, with what identifies the request in it.
\<close>

definition answers :: "HcpCommand \<Rightarrow> runner_message \<Rightarrow> bool" where
  "answers c m =
     (case (cmd_payload c, m) of
        (Plain _ _, Command_ack a) \<Rightarrow> ack_command_id a = cmd_id c
      | (Snapshot_request sid _, Session_snapshot snap) \<Rightarrow> snap_command_id snap = cmd_id c \<and> snap_session_id snap = sid
      | (Workspaces_request _, Workspaces_result rid _) \<Rightarrow> rid = cmd_id c
      | (Accounts_read requested, Accounts_snapshot a) \<Rightarrow> hs_request_id a = cmd_id c \<and> selection_matches requested a
      | (Local_action_command r, Action_response a) \<Rightarrow> rsp_request_id a = req_request_id r \<and> rsp_action a = req_action r
      | (Local_action_command r, Action_error a) \<Rightarrow> lep_request_id a = req_request_id r \<and> lep_action a = req_action r
      | (Conversation_command p, Conversation_result r) \<Rightarrow>
          cs_command_id r = cmd_id c \<and> cs_session_id r = cq_session_id p \<and> cs_operation r = request_kind (cq_operation p)
          \<and> operation_matches (cq_operation p) r
      | _ \<Rightarrow> False)"

fun effect_ok ::
  "(runner_message \<Rightarrow> bool) \<Rightarrow> (HcpHarnessEventPayload \<Rightarrow> bool) \<Rightarrow> (event_waiter \<Rightarrow> bool) \<Rightarrow> host_effect list \<Rightarrow>
     host_effect \<Rightarrow> bool" where
  "effect_ok heard committed waited before (Command_settled c t (Answered_with m)) =
     (answers c m \<and> heard m \<and> Transmitted c \<in> set before)"
| "effect_ok heard committed waited before (Command_settled c t (Rejected_by n)) =
     (nack_command_id n = cmd_id c \<and> heard (Command_nack n) \<and> Transmitted c \<in> set before)"
| "effect_ok heard committed waited before (Wait_settled t (Event_seen e)) =
     (committed e \<and> (\<exists>w. waited w \<and> ew_ticket w = t \<and> wait_outcome e w = Some (Event_seen e)))"
| "effect_ok heard committed waited before _ = True"

fun trace_ok ::
  "(host_effect list \<Rightarrow> host_effect \<Rightarrow> bool) \<Rightarrow> host_effect list \<Rightarrow> host_effect list \<Rightarrow> bool" where
  "trace_ok ok before [] = True"
| "trace_ok ok before (e # es) = (ok before e \<and> trace_ok ok (before @ [e]) es)"

lemma trace_ok_append: "trace_ok ok b (xs @ ys) \<longleftrightarrow> trace_ok ok b xs \<and> trace_ok ok (b @ xs) ys"
  by (induction xs arbitrary: b) auto

lemma trace_ok_split: "trace_ok ok b (xs @ e # ys) \<Longrightarrow> ok (b @ xs) e"
  by (simp add: trace_ok_append)

definition answers_ok ::
  "(runner_message \<Rightarrow> bool) \<Rightarrow> (HcpHarnessEventPayload \<Rightarrow> bool) \<Rightarrow> (event_waiter \<Rightarrow> bool) \<Rightarrow> host_connection \<Rightarrow> bool" where
  "answers_ok heard committed waited s \<longleftrightarrow>
     trace_ok (effect_ok heard committed waited) [] (hc_trace s)
     \<and> (\<forall>(k, p) \<in> set (hc_pending s). k = cmd_id (pc_command p) \<and> Transmitted (pc_command p) \<in> set (hc_trace s))
     \<and> (\<forall>w \<in> set (hc_waiters s). waited w)"

lemma answers_ok_mono:
  assumes "answers_ok h c w s"
    and "\<And>x. h x \<Longrightarrow> h' x" and "\<And>x. c x \<Longrightarrow> c' x" and "\<And>x. w x \<Longrightarrow> w' x"
  shows "answers_ok h' c' w' s"
proof -
  have ok: "effect_ok h c w b e \<Longrightarrow> effect_ok h' c' w' b e" for b e
    using assms(2,3,4) by (induction h c w b e rule: effect_ok.induct) auto
  have "trace_ok (effect_ok h c w) b es \<Longrightarrow> trace_ok (effect_ok h' c' w') b es" for b es
    by (induction es arbitrary: b) (auto intro: ok)
  then show ?thesis
    using assms(1,4) by (auto simp: answers_ok_def)
qed

text \<open>Effects that settle nothing by an answer may be recorded, and the pending commands only shrink.\<close>

definition harmless :: "host_effect \<Rightarrow> bool" where
  "harmless e = (case e of
     Command_settled _ _ (Outcome_unknown _) \<Rightarrow> True | Command_settled _ _ _ \<Rightarrow> False
   | Wait_settled _ (Event_seen _) \<Rightarrow> False | _ \<Rightarrow> True)"

lemma harmless_ok: "harmless e \<Longrightarrow> effect_ok h c w b e"
  by (induction h c w b e rule: effect_ok.induct) (auto simp: harmless_def)

lemma harmless_trace: "\<forall>e \<in> set es. harmless e \<Longrightarrow> trace_ok (effect_ok h c w) b es"
  by (induction es arbitrary: b) (auto intro: harmless_ok)

lemma answers_ok_change:
  assumes "answers_ok h c w s" and "hc_trace t = hc_trace s @ es" and "trace_ok (effect_ok h c w) (hc_trace s) es"
    and "set (hc_pending t) \<subseteq> set (hc_pending s)" and "set (hc_waiters t) \<subseteq> set (hc_waiters s)"
  shows "answers_ok h c w t"
  using assms by (fastforce simp: answers_ok_def trace_ok_append)

lemma answers_ok_same:
  "\<lbrakk>answers_ok h c w s; hc_trace t = hc_trace s; hc_pending t = hc_pending s; hc_waiters t = hc_waiters s\<rbrakk>
     \<Longrightarrow> answers_ok h c w t"
  by (simp add: answers_ok_def)

lemma answers_notify: "answers_ok h c w s \<Longrightarrow> answers_ok h c w (notifySessionObservers ob s)"
  by (erule answers_ok_change [where es = "map (\<lambda>x. Notified (so_id x) ob) (hc_observers s)"])
    (auto simp: notifySessionObservers_def harmless_def intro!: harmless_trace)

lemma waits_trace:
  assumes "\<And>x e. f x = Some (Event_seen e) \<Longrightarrow> c e \<and> wait_outcome e x = Some (Event_seen e)"
    and "\<forall>x \<in> set ws. w x"
  shows "trace_ok (effect_ok h c w) b (concat (map (\<lambda>x. case f x of None \<Rightarrow> [] | Some r \<Rightarrow> [Wait_settled (ew_ticket x) r]) ws))"
  using assms(2)
proof (induction ws arbitrary: b)
  case (Cons x ws)
  then show ?case
    using assms(1) [of x]
    by (auto split: option.splits simp: trace_ok_append) (case_tac x2, auto)
qed simp

lemma answers_waits:
  assumes "answers_ok h c w s" and "\<And>x e. f x = Some (Event_seen e) \<Longrightarrow> c e \<and> wait_outcome e x = Some (Event_seen e)"
  shows "answers_ok h c w (settle_waits f s)"
  using assms(1)
proof (rule answers_ok_change)
  show "trace_ok (effect_ok h c w) (hc_trace s)
      (concat (map (\<lambda>x. case f x of None \<Rightarrow> [] | Some r \<Rightarrow> [Wait_settled (ew_ticket x) r]) (hc_waiters s)))"
    by (rule waits_trace [OF assms(2)]) (use assms(1) in \<open>auto simp: answers_ok_def\<close>)
qed (auto simp: settle_waits_def)

lemma delete_subset: "set (AList.delete k m) \<subseteq> set m"
  by (induction m) (auto simp: AList.delete_eq)

lemma pending_for_answers:
  assumes "pending_for (hc_pending s) m = Some p" and "selected s m"
    and "\<forall>(k, p) \<in> set (hc_pending s). k = cmd_id (pc_command p)"
  shows "p \<in> snd ` set (hc_pending s)"
    and "case settlement_of m of Answered_with m' \<Rightarrow> m' = m \<and> answers (pc_command p) m
         | Rejected_by n \<Rightarrow> m = Command_nack n \<and> nack_command_id n = cmd_id (pc_command p) | _ \<Rightarrow> False"
proof -
  have key: "cmd_id (pc_command q) = k" if "map_of (hc_pending s) k = Some q" for k q
    using map_of_SomeD [OF that] assms(3) by auto
  show "p \<in> snd ` set (hc_pending s)"
    using assms(1)
    by (cases m) (force simp: only_if_def find_action_def find_Some_iff dest: map_of_SomeD nth_mem
        split: option.splits if_splits)+
  have found: "is_action rid a (pc_command q)" if "find_action (hc_pending s) rid a = Some q" for rid a q
    using that by (auto simp: find_action_def find_Some_iff)
  show "case settlement_of m of Answered_with m' \<Rightarrow> m' = m \<and> answers (pc_command p) m
         | Rejected_by n \<Rightarrow> m = Command_nack n \<and> nack_command_id n = cmd_id (pc_command p) | _ \<Rightarrow> False"
    using assms(1,2)
    by (cases m)
      (auto simp: only_if_def answers_def has_own_response_def conversation_matches_def is_action_def selected_def
        dest!: key found split: option.splits if_splits command_payload.splits)
qed

lemma answers_settle:
  assumes "answers_ok h c w s" and "h m" and "selected s m"
  shows "answers_ok h c w (settle m s)"
proof (cases "pending_for (hc_pending s) m")
  case (Some p)
  have keys: "\<forall>(k, p) \<in> set (hc_pending s). k = cmd_id (pc_command p)"
    using assms(1) by (auto simp: answers_ok_def)
  note p = pending_for_answers [OF Some assms(3) keys]
  have "Transmitted (pc_command p) \<in> set (hc_trace s)"
    using p(1) assms(1) by (auto simp: answers_ok_def)
  then have "effect_ok h c w (hc_trace s) (Command_settled (pc_command p) (pc_ticket p) (settlement_of m))"
    using p(2) assms(2) by (auto split: settlement.splits)
  then show ?thesis
    using Some by (intro answers_ok_change [OF assms(1)]) (auto simp: settle_def dest: subsetD [OF delete_subset])
qed (use assms in \<open>simp add: settle_def\<close>)

lemma answers_disconnect:
  assumes "answers_ok h c w s"
  shows "answers_ok h c w (disconnect s)"
proof -
  let ?s = "record_effects (map (\<lambda>(_, p). Command_settled (pc_command p) (pc_ticket p) (Outcome_unknown ''Runner disconnected.''))
      (hc_pending s)) (s\<lparr>hc_phase := Closed, hc_pending := []\<rparr>)"
  have "answers_ok h c w ?s"
    by (rule answers_ok_change [OF assms]) (auto simp: harmless_def intro!: harmless_trace)
  then have "answers_ok h c w (failEventWaiters Disconnected None ?s)"
    unfolding failEventWaiters_def by (intro answers_waits) (auto intro: answers_notify)
  then show ?thesis
    unfolding disconnect_def Let_def by (rule answers_ok_same) auto
qed

interpretation answers: host_invariant "answers_ok h c w" h c for h c w
proof
  show "answers_ok h c w (s\<lparr>hc_events := ev\<rparr>)" if "answers_ok h c w s" for s ev
    using that by (rule answers_ok_same) auto
  show "answers_ok h c w (s\<lparr>hc_accounts := acc\<rparr>)" if "answers_ok h c w s" for s acc
    using that by (rule answers_ok_same) auto
  show "answers_ok h c w (s\<lparr>hc_phase := p\<rparr>)" if "answers_ok h c w s" for s p
    using that by (rule answers_ok_same) auto
qed (simp_all add: answers_notify answers_waits answers_settle answers_disconnect)

subsection \<open>Runs\<close>

lemma answers_send:
  assumes "answers_ok h c w s"
  shows "answers_ok h c w (snd (send_command input opts sent s))"
proof (cases "\<exists>x t. input = Inr x \<and> fst (send_command input opts sent s) = Inr t")
  case True
  then obtain x where x: "input = Inr x" "map_of (hc_pending s) (cmd_id x) = None"
    by (auto simp: send_command_def Let_def split: if_splits)
  show ?thesis
  proof (cases sent)
    case True
    then show ?thesis
      using assms x \<open>\<exists>x t. _\<close>
      by (auto simp: send_command_def Let_def update_new answers_ok_def trace_ok_append split: if_splits)
  next
    case False
    then show ?thesis
      using assms x \<open>\<exists>x t. _\<close>
      by (auto simp: send_command_def Let_def delete_update_new fail_command_def answers_ok_def trace_ok_append split: if_splits)
  qed
next
  case False
  then show ?thesis
    using assms by (cases input) (auto simp: send_command_def Let_def)
qed

lemma answers_stop:
  assumes "answers_ok h c w s"
  shows "answers_ok h c w (command_stopped reason t s)"
proof (cases "List.find (\<lambda>p. pc_ticket p = t) (map snd (hc_pending s))")
  case (Some p)
  show ?thesis
    by (intro answers_ok_change [OF assms, where es = "[Command_settled (pc_command p) (pc_ticket p) (Outcome_unknown reason)]"])
      (auto simp: command_stopped_def Some fail_command_def dest: subsetD [OF delete_subset])
qed (use assms in \<open>simp add: command_stopped_def\<close>)

text \<open>The wait a call opens, with the boundary it observes from.\<close>

definition boundary :: "(string \<Rightarrow> string \<Rightarrow> bool) \<Rightarrow> string \<Rightarrow> int option \<Rightarrow> host_connection \<Rightarrow> int" where
  "boundary le sid after s =
     (case after of None \<Rightarrow> last_sequence sid (reducer_events le (hc_events s)) | Some n \<Rightarrow> n)"

definition opens :: "(string \<Rightarrow> string \<Rightarrow> bool) \<Rightarrow> host_call \<Rightarrow> host_connection \<Rightarrow> event_waiter \<Rightarrow> bool" where
  "opens le c s w =
     (case c of
        Waits sid predicate after opts \<Rightarrow>
          w = \<lparr>ew_ticket = hc_tickets s, ew_session_id = sid, ew_after_sequence = boundary le sid after s,
               ew_predicate = predicate\<rparr>
      | _ \<Rightarrow> False)"

lemma answers_wait:
  assumes "answers_ok h c w s" and "\<And>x. opens le (Waits sid predicate after opts) s x \<Longrightarrow> w x"
    and "\<forall>e \<in> set (reducer_events le (hc_events s)). c e"
  shows "answers_ok h c w (snd (waitForSessionEvent le sid predicate after opts s))"
proof -
  define x where "x = \<lparr>ew_ticket = hc_tickets s, ew_session_id = sid, ew_after_sequence = boundary le sid after s,
      ew_predicate = predicate\<rparr>"
  have "answers_ok h c w (s\<lparr>hc_tickets := Suc (hc_tickets s), hc_waiters := hc_waiters s @ [x]\<rparr>)"
    using assms(1,2) by (auto simp: answers_ok_def opens_def x_def)
  then show ?thesis
    using assms(1,3)
    by (auto simp: waitForSessionEvent_def Let_def boundary_def [symmetric] x_def intro!: answers.observe_all_only)
qed

definition heard_in :: "host_call \<Rightarrow> runner_message \<Rightarrow> bool" where
  "heard_in c m = (c = Receives (Inr m))"

lemma answers_step:
  assumes "answers_ok h c w s" and "\<And>m. heard_in x m \<Longrightarrow> h m" and "\<And>y. opens le x s y \<Longrightarrow> w y"
    and "\<forall>e \<in> set (reducer_events le (hc_events (host_step le ts date_parse x s))). c e"
  shows "answers_ok h c w (host_step le ts date_parse x s)"
proof (cases x)
  case (Receives input)
  show ?thesis
  proof (cases input)
    case (Inl e)
    then show ?thesis
      using assms(1) Receives by (auto simp: receive_def split: connection_phase.splits)
  next
    case (Inr m)
    then show ?thesis
      using Receives assms(2,4) by (auto simp: heard_in_def intro!: answers.take [OF assms(1)])
  qed
next
  case (Waits sid predicate after opts)
  have "hc_events (snd (waitForSessionEvent le sid predicate after opts s)) = hc_events s"
    by (simp add: waitForSessionEvent_def Let_def)
  then show ?thesis
    using Waits assms by (auto intro!: answers_wait)
next
  case (Subscribes y)
  then show ?thesis
    using assms(1) by (auto simp: subscribeSessionObservations_def elim: answers_ok_same)
next
  case (Unsubscribes i)
  then show ?thesis
    using assms(1) by (auto simp: unsubscribe_def elim: answers_ok_same)
qed (use assms(1) in \<open>auto intro: answers.accept answers_send answers_stop answers.stop_wait answers_disconnect\<close>)

subsection \<open>The properties\<close>

abbreviation run_from ::
  "(string \<Rightarrow> string \<Rightarrow> bool) \<Rightarrow> (string \<Rightarrow> bool) \<Rightarrow> (string \<Rightarrow> int option) \<Rightarrow> reducer \<Rightarrow> HcpAccountUsageReducer \<Rightarrow>
     host_call list \<Rightarrow> host_connection" where
  "run_from le ts date_parse ev acc calls \<equiv> host_run le ts date_parse calls (HcpHostConnection ev acc)"

lemma host_run_snoc: "host_run le ts date_parse (calls @ [c]) s = host_step le ts date_parse c (host_run le ts date_parse calls s)"
  by (simp add: host_run_def)

lemma answers_run:
  "answers_ok (\<lambda>m. Receives (Inr m) \<in> set calls)
     (\<lambda>e. \<exists>pre post. calls = pre @ post \<and> e \<in> set (reducer_events le (hc_events (run_from le ts date_parse ev acc pre))))
     (\<lambda>w. \<exists>pre c post. calls = pre @ c # post \<and> opens le c (run_from le ts date_parse ev acc pre) w)
     (run_from le ts date_parse ev acc calls)"
proof (induction calls rule: rev_induct)
  case Nil
  show ?case by (simp add: answers_ok_def host_run_def HcpHostConnection_def)
next
  case (snoc c calls)
  show ?case
    unfolding host_run_snoc
  proof (rule answers_step)
    show "\<forall>e \<in> set (reducer_events le (hc_events (host_step le ts date_parse c (run_from le ts date_parse ev acc calls)))).
        \<exists>pre post. calls @ [c] = pre @ post
          \<and> e \<in> set (reducer_events le (hc_events (run_from le ts date_parse ev acc pre)))"
      by (metis append_Nil2 host_run_snoc)
    show "\<exists>pre d post. calls @ [c] = pre @ d # post \<and> opens le d (run_from le ts date_parse ev acc pre) y"
      if "opens le c (run_from le ts date_parse ev acc calls) y" for y
      using that by blast
    show "answers_ok (\<lambda>m. Receives (Inr m) \<in> set (calls @ [c]))
     (\<lambda>e. \<exists>pre post. calls @ [c] = pre @ post \<and> e \<in> set (reducer_events le (hc_events (run_from le ts date_parse ev acc pre))))
     (\<lambda>w. \<exists>pre d post. calls @ [c] = pre @ d # post \<and> opens le d (run_from le ts date_parse ev acc pre) w)
     (run_from le ts date_parse ev acc calls)"
    proof (rule answers_ok_mono [OF snoc])
      show "\<exists>pre post. calls @ [c] = pre @ post \<and> e \<in> set (reducer_events le (hc_events (run_from le ts date_parse ev acc pre)))"
        if "\<exists>pre post. calls = pre @ post \<and> e \<in> set (reducer_events le (hc_events (run_from le ts date_parse ev acc pre)))" for e
        using that by (metis append.assoc)
      show "\<exists>pre d post. calls @ [c] = pre @ d # post \<and> opens le d (run_from le ts date_parse ev acc pre) w"
        if "\<exists>pre d post. calls = pre @ d # post \<and> opens le d (run_from le ts date_parse ev acc pre) w" for w
        using that by (metis append.assoc append_Cons)
    qed simp
  qed (simp add: heard_in_def)
qed

lemma promises_of_run: "promises_ok (run_from le ts date_parse ev acc calls)"
  by (intro promises_run promises_new)

text \<open>C12: However a connection is used, every promise it has given out is either open or settled, and
  settled at most once; it never holds more than 256 commands, 256 waits and 128 observers; and
  disconnecting settles all that are open.\<close>

theorem host_promises_settle_once:
  "let s = run_from le ts date_parse ev acc calls in
    distinct (settled_tickets (hc_trace s) @ open_tickets s)
    \<and> set (settled_tickets (hc_trace s) @ open_tickets s) = {..<hc_tickets s}
    \<and> length (hc_pending s) \<le> 256 \<and> length (hc_waiters s) \<le> 256 \<and> length (hc_observers s) \<le> 128
    \<and> set (settled_tickets (hc_trace (disconnect s))) = {..<hc_tickets (disconnect s)}"
proof -
  let ?s = "run_from le ts date_parse ev acc calls"
  have all: "distinct (settled_tickets (hc_trace t) @ open_tickets t)
      \<and> set (settled_tickets (hc_trace t) @ open_tickets t) = {..<hc_tickets t}" if "promises_ok t" for t
  proof -
    have m: "mset (settled_tickets (hc_trace t) @ open_tickets t) = mset [0..<hc_tickets t]"
      using that by (simp add: promises_ok_def)
    show ?thesis
      using mset_eq_imp_distinct_iff [OF m] mset_eq_setD [OF m] by auto
  qed
  have ok: "promises_ok ?s" by (rule promises_of_run)
  note closed = promises_disconnect [OF ok]
  have "open_tickets (disconnect ?s) = []" using closed(2,3) by (simp add: open_tickets_def)
  then show ?thesis
    using all [OF ok] all [OF closed(1)] ok by (simp add: promises_ok_def Let_def)
qed

definition sample_hello :: HcpHostHelloPayload where
  "sample_hello = \<lparr>hello_host_id = ''h'', hello_rest = JNull\<rparr>"

definition sample_command :: HcpCommand where
  "sample_command = \<lparr>cmd_id = ''c'', cmd_payload = Plain Turn_send JNull\<rparr>"

definition sample_host_calls :: "host_call list" where
  "sample_host_calls =
     [Receives (Inr (Host_hello sample_hello)), Accepts (Inr ()) (Inr ()),
      Sends (Inr sample_command) \<lparr>wo_timeoutMs = None, wo_aborted = False\<rparr> True,
      Receives (Inr (Command_ack \<lparr>ack_command_id = ''c'', ack_accepted_at = ''t'', ack_duplicate = False\<rparr>))]"


lemma sample_host_trace:
  "hc_trace (run_from (\<lambda>_ _. True) (\<lambda>_. True) (\<lambda>_. None) [] [] sample_host_calls)
     = [Transmitted sample_command] @ Command_settled sample_command 0
         (Answered_with (Command_ack \<lparr>ack_command_id = ''c'', ack_accepted_at = ''t'', ack_duplicate = False\<rparr>)) # []"
  by (simp add: sample_host_calls_def host_run_def HcpHostConnection_def receive_def accept_runner_def send_command_def
      sample_hello_def sample_command_def accepted_def timeout_of_def valid_timeout_def settle_def only_if_def
      has_own_response_def record_effects_def)



definition sample_waiting_calls :: "host_call list" where
  "sample_waiting_calls =
     [Receives (Inr (Host_hello sample_hello)), Accepts (Inr ()) (Inr ()),
      Waits ''s'' (\<lambda>e. Inr (ev_event_type e = ''session.started'')) None \<lparr>wo_timeoutMs = Some 5, wo_aborted = False\<rparr>,
      Receives (Inr (Harness_event (sample_event ''s'' 1)))]"

lemma sample_waiting_trace:
  "hc_trace (run_from (\<lambda>_ _. True) (\<lambda>_. True) (\<lambda>_. None) [] [] sample_waiting_calls)
     = [Wait_settled 0 (Event_seen (sample_event ''s'' 1))]"
  by (simp add: sample_waiting_calls_def host_run_def HcpHostConnection_def receive_def accept_runner_def
      waitForSessionEvent_def sample_hello_def accepted_def timeout_of_def valid_timeout_def record_effects_def
      receive_event_def applyEvent_def session_map_def js_max_def observeEvent_def notifySessionObservers_def
      settle_waits_def wait_outcome_def last_sequence_def reducer_events_def counter_def MAX_SAFE_INTEGER_def)


end
