(* ===== verification/Work_Roster.thy ===== *)
theory Work_Roster
  imports Native_Records Json_Parse Base64
begin

text \<open>
  Reading the roster of native work in pages: \<open>nativeWorkPage\<close> of the runner
  (\<open>harnesses/native-work-page.ts\<close>) and \<open>readNativeWorkInventory\<close> of the control plane
  (\<open>packages/hcp-sdk/src/connection.ts\<close>), with the chronological inventory of a conversation's turns.

  \<open>row_json\<close> is the JSON value of a row, \<open>h\<close> is SHA-256, \<open>bytes\<close> the length of a text in UTF-8.
\<close>

subsection \<open>The runner: one page\<close>

text \<open>\<open>a < b\<close> of two strings, and its reflexive closure.\<close>

fun js_less :: "string \<Rightarrow> string \<Rightarrow> bool" where
  "js_less _ [] = False"
| "js_less [] (_ # _) = True"
| "js_less (a # s) (b # t) =
     ((of_char a :: nat) < of_char b \<or> (of_char a :: nat) = of_char b \<and> js_less s t)"

type_synonym work_row = "HarnessNativeWorkRecord \<times> bool"

definition row_id :: "work_row \<Rightarrow> string" where
  "row_id r = wk_work_id (fst r)"

definition work_rows :: "NativeWorkState \<Rightarrow> bool \<Rightarrow> string set \<Rightarrow> work_row list" where
  "work_rows state ownerAvailable live =
     map (\<lambda>w. (w, ownerAvailable \<and> wk_work_id w \<in> live))
       (stable_sort (\<lambda>a b. \<not> js_less (wk_work_id b) (wk_work_id a)) (map snd (nw_items state)))"

definition observation_json :: "(work_row \<Rightarrow> json) \<Rightarrow> string \<Rightarrow> bool \<Rightarrow> work_row list \<Rightarrow> bool \<Rightarrow> json" where
  "observation_json row_json sessionId ownerAvailable rows unconfirmed =
     JObj ([(''sessionId'', JStr sessionId), (''ownerAvailable'', JBool ownerAvailable), (''rows'', JArr (map row_json rows))]
       @ (if unconfirmed then [(''closure_unconfirmed'', JBool True)] else []))"

definition encode_cursor :: "string \<Rightarrow> nat \<Rightarrow> string" where
  "encode_cursor hash offset = b64_encode True (render (JObj [(''hash'', JStr hash), (''offset'', JNum (int offset))]))"

text \<open>\<open>Buffer.from(cursor, "base64url")\<close> skips what is not in the alphabet; the object is strict.\<close>

definition decode_cursor :: "string \<Rightarrow> (string \<times> nat) option" where
  "decode_cursor cursor =
     (case Option.bind (b64_decode True (filter (\<lambda>c. b64_val True c \<noteq> None) cursor)) json_parse of
        Some (JObj kvs) \<Rightarrow>
          if set (map fst kvs) \<subseteq> {''hash'', ''offset''}
          then (case (map_of kvs ''hash'', map_of kvs ''offset'') of
                  (Some (JStr hash), Some (JNum n)) \<Rightarrow> if 0 \<le> n then Some (hash, nat n) else None
                | _ \<Rightarrow> None)
          else None
      | _ \<Rightarrow> None)"

fun take_rows :: "(work_row \<Rightarrow> nat) \<Rightarrow> nat \<Rightarrow> work_row list \<Rightarrow> work_row list" where
  "take_rows size_of amount [] = []"
| "take_rows size_of amount (row # rest) =
     (if 192 * 1024 < amount + size_of row then [] else row # take_rows size_of (amount + size_of row) rest)"

definition cursor_offset :: "string \<Rightarrow> nat \<Rightarrow> string option \<Rightarrow> string + nat" where
  "cursor_offset hash amount cursor =
     (case cursor of
        None \<Rightarrow> Inr 0
      | Some c \<Rightarrow>
          if c = [] then Inr 0
          else case decode_cursor c of
            None \<Rightarrow> Inl ''native_work_cursor''
          | Some (chash, offset) \<Rightarrow>
              if chash \<noteq> hash \<or> amount < offset then Inl ''native_work_changed'' else Inr offset)"

definition nativeWorkPage ::
  "(work_row \<Rightarrow> json) \<Rightarrow> (string \<Rightarrow> string) \<Rightarrow> (string \<Rightarrow> nat) \<Rightarrow> string \<Rightarrow> NativeWorkState \<Rightarrow> bool \<Rightarrow> string set \<Rightarrow>
     string option \<Rightarrow> nat option \<Rightarrow> string + HarnessNativeWorkResult" where
  "nativeWorkPage row_json h bytes sessionId state ownerAvailable live cursor limit =
     (let rows = work_rows state ownerAvailable live;
          hash = h (render (observation_json row_json sessionId ownerAvailable rows (nw_closure_unconfirmed state))) in
      case cursor_offset hash (length rows) cursor of
        Inl e \<Rightarrow> Inl e
      | Inr offset \<Rightarrow>
          let wanted = (case limit of None \<Rightarrow> 32 | Some n \<Rightarrow> n);
              items = take_rows (\<lambda>r. bytes (render (row_json r))) 0 (take wanted (drop offset rows));
              next_offset = offset + length items in
          if offset < length rows \<and> items = [] then Inl ''native_work_record_limit''
          else Inr (Work_result_read ownerAvailable hash (nw_closure_unconfirmed state) (int (length rows))
            (if next_offset < length rows then Some (encode_cursor hash next_offset) else None) items))"

subsection \<open>The control plane: the whole roster\<close>

datatype inventory_error =
  Inventory_limit | Snapshot_changed | Duplicate_work | Cursor_cycle | Incomplete | Read_failed string

record HcpNativeWorkInventory =
  wi_observation_hash :: string
  wi_total_count :: int
  wi_owner_active :: bool
  wi_closure_unconfirmed :: bool
  wi_items :: "work_row list"

text \<open>
  \<open>peer\<close> answers the page with a given number for a given cursor: a work result, none, or an error
  thrown by the request or by the abort signal.
\<close>

type_synonym work_peer = "nat \<Rightarrow> string option \<Rightarrow> string + HarnessNativeWorkResult option"

fun read_work_pages ::
  "work_peer \<Rightarrow> int \<Rightarrow> nat \<Rightarrow> nat \<Rightarrow> string option \<Rightarrow> string list \<Rightarrow> work_row list \<Rightarrow> (string \<times> int \<times> bool \<times> bool) option \<Rightarrow>
     inventory_error + HcpNativeWorkInventory" where
  "read_work_pages peer maxItems 0 index cursor cursors items snapshot = Inl Inventory_limit"
| "read_work_pages peer maxItems (Suc n) index cursor cursors items snapshot =
     (case peer index cursor of
        Inl e \<Rightarrow> Inl (Read_failed e)
      | Inr (Some (Work_result_read owner hash unconfirmed amount next_cursor page)) \<Rightarrow>
          if maxItems < amount then Inl Inventory_limit
          else if (case snapshot of None \<Rightarrow> False | Some s \<Rightarrow> (hash, amount, owner, unconfirmed) \<noteq> s)
            then Inl Snapshot_changed
          else if page = [] \<and> (next_cursor \<noteq> None \<or> amount \<noteq> 0) then Inl Incomplete
          else if \<not> distinct (map row_id (items @ page)) then Inl Duplicate_work
          else if amount < int (length (items @ page)) then Inl Incomplete
          else (case next_cursor of
            None \<Rightarrow>
              if int (length (items @ page)) \<noteq> amount then Inl Incomplete
              else Inr \<lparr>wi_observation_hash = hash, wi_total_count = amount, wi_owner_active = owner,
                        wi_closure_unconfirmed = unconfirmed, wi_items = items @ page\<rparr>
          | Some c \<Rightarrow>
              if c \<in> set cursors then Inl Cursor_cycle
              else read_work_pages peer maxItems n (Suc index) (Some c) (c # cursors) (items @ page)
                     (Some (hash, amount, owner, unconfirmed)))
      | Inr _ \<Rightarrow> Inl Incomplete)"

record inventory_options =
  io_maxItems :: "int option"
  io_maxPages :: "int option"
  io_pageSize :: "int option"

definition option_or :: "int option \<Rightarrow> int \<Rightarrow> int" where
  "option_or v d = (case v of None \<Rightarrow> d | Some n \<Rightarrow> n)"

definition allowed_option :: "int \<Rightarrow> int \<Rightarrow> bool" where
  "allowed_option maximum v = (1 \<le> v \<and> v \<le> maximum)"

text \<open>\<open>peer\<close> also gets the page size.\<close>

definition readNativeWorkInventory ::
  "(nat \<Rightarrow> work_peer) \<Rightarrow> inventory_options \<Rightarrow> inventory_error + HcpNativeWorkInventory" where
  "readNativeWorkInventory peer opts =
     (let maxItems = option_or (io_maxItems opts) 128; maxPages = option_or (io_maxPages opts) 128;
          pageSize = option_or (io_pageSize opts) 32 in
      if \<not> (allowed_option 128 maxItems \<and> allowed_option 128 maxPages \<and> allowed_option 32 pageSize)
      then Inl Inventory_limit
      else read_work_pages (peer (nat pageSize)) maxItems (nat maxPages) 0 None [] [] None)"

subsection \<open>The control plane: the turns of a conversation\<close>

datatype history_error =
  History_limit | History_changed | Duplicate_turn | History_cycle | History_incomplete | Invalid_turn_id | History_failed string

record history_page =
  hp_history_hash :: string
  hp_turn_count :: int
  hp_turn_ids :: "string list"
  hp_next_cursor :: "string option"

record HcpConversationInventory =
  ci_history_hash :: string
  ci_turn_count :: int
  ci_turn_ids :: "string list"

type_synonym history_peer = "nat \<Rightarrow> string option \<Rightarrow> string + history_page option"

text \<open>The ids of one page, in order, against those read before.\<close>

fun check_turns :: "string list \<Rightarrow> string list \<Rightarrow> history_error + string list" where
  "check_turns ids [] = Inr ids"
| "check_turns ids (t # ts) =
     (if t = [] \<or> 512 < length t then Inl Invalid_turn_id
      else if t \<in> set ids then Inl Duplicate_turn
      else check_turns (ids @ [t]) ts)"

text \<open>Pages arrive newest first; \<open>pages\<close> holds them in reverse order of arrival.\<close>

fun read_turn_pages ::
  "history_peer \<Rightarrow> int \<Rightarrow> nat \<Rightarrow> nat \<Rightarrow> string option \<Rightarrow> string list \<Rightarrow> string list list \<Rightarrow> string list \<Rightarrow> (string \<times> int) option \<Rightarrow>
     history_error + HcpConversationInventory" where
  "read_turn_pages peer maxTurns 0 index cursor cursors pages ids snapshot = Inl History_limit"
| "read_turn_pages peer maxTurns (Suc n) index cursor cursors pages ids snapshot =
     (case peer index cursor of
        Inl e \<Rightarrow> Inl (History_failed e)
      | Inr None \<Rightarrow> Inl History_incomplete
      | Inr (Some page) \<Rightarrow>
          let seen = (hp_history_hash page, hp_turn_count page) in
          if maxTurns < hp_turn_count page then Inl History_limit
          else if (case snapshot of None \<Rightarrow> False | Some s \<Rightarrow> seen \<noteq> s) then Inl History_changed
          else if hp_turn_ids page = [] \<and> (hp_next_cursor page \<noteq> None \<or> hp_turn_count page \<noteq> 0) then Inl History_incomplete
          else case check_turns ids (hp_turn_ids page) of
            Inl e \<Rightarrow> Inl e
          | Inr ids' \<Rightarrow>
              let pages' = hp_turn_ids page # pages in
              if hp_turn_count page < int (length ids') then Inl History_incomplete
              else case hp_next_cursor page of
                None \<Rightarrow>
                  if int (length ids') \<noteq> hp_turn_count page then Inl History_incomplete
                  else Inr \<lparr>ci_history_hash = hp_history_hash page, ci_turn_count = hp_turn_count page, ci_turn_ids = concat pages'\<rparr>
              | Some c \<Rightarrow>
                  if c \<in> set cursors then Inl History_cycle
                  else read_turn_pages peer maxTurns n (Suc index) (Some c) (c # cursors) pages' ids' (Some seen))"

definition readConversationInventory ::
  "(nat \<Rightarrow> history_peer) \<Rightarrow> inventory_options \<Rightarrow> history_error + HcpConversationInventory" where
  "readConversationInventory peer opts =
     (let maxTurns = option_or (io_maxItems opts) 10000; maxPages = option_or (io_maxPages opts) 1024;
          pageSize = option_or (io_pageSize opts) 100 in
      if \<not> (allowed_option 10000 maxTurns \<and> allowed_option 1024 maxPages \<and> allowed_option 100 pageSize)
      then Inl History_limit
      else read_turn_pages (peer (nat pageSize)) maxTurns (nat maxPages) 0 None [] [] [] None)"

lemma check_turns_ok:
  "check_turns ids ts = Inr ids' \<Longrightarrow> distinct ids \<Longrightarrow>
     ids' = ids @ ts \<and> distinct ids' \<and> (\<forall>t \<in> set ts. 1 \<le> length t \<and> length t \<le> 512)"
  by (induction ids ts rule: check_turns.induct) (auto split: if_splits simp: Suc_le_eq)

text \<open>Whatever the peer answers, an accepted inventory has as many turns as it announced, all different.\<close>

lemma read_turns_complete:
  assumes "read_turn_pages peer maxTurns n i cursor cursors pages ids snapshot = Inr got"
    and "distinct ids" and "mset (concat pages) = mset ids" and "\<forall>t \<in> set ids. 1 \<le> length t \<and> length t \<le> 512"
  shows "distinct (ci_turn_ids got) \<and> int (length (ci_turn_ids got)) = ci_turn_count got \<and> ci_turn_count got \<le> maxTurns
    \<and> (\<forall>t \<in> set (ci_turn_ids got). 1 \<le> length t \<and> length t \<le> 512)"
  using assms
proof (induction n arbitrary: i cursor cursors pages ids snapshot)
  case (Suc n)
  obtain page ids' where p: "peer i cursor = Inr (Some page)" "check_turns ids (hp_turn_ids page) = Inr ids'"
    using Suc.prems(1) by (auto simp: Let_def split: sum.splits option.splits if_splits)
  note ids' = check_turns_ok [OF p(2) Suc.prems(2)]
  have m: "mset (concat (hp_turn_ids page # pages)) = mset ids'"
    using ids' Suc.prems(3) by simp
  have ok: "\<forall>t \<in> set ids'. 1 \<le> length t \<and> length t \<le> 512" using ids' Suc.prems(4) by auto
  show ?case
  proof (cases "hp_next_cursor page")
    case None
    then have "got = \<lparr>ci_history_hash = hp_history_hash page, ci_turn_count = hp_turn_count page,
        ci_turn_ids = concat (hp_turn_ids page # pages)\<rparr>" "int (length ids') = hp_turn_count page" "hp_turn_count page \<le> maxTurns"
      using Suc.prems(1) p by (auto simp: Let_def split: if_splits)
    then show ?thesis
      using mset_eq_imp_distinct_iff [OF m] mset_eq_setD [OF m] mset_eq_length [OF m] ids' ok by auto
  next
    case (Some c)
    then have "read_turn_pages peer maxTurns n (Suc i) (Some c) (c # cursors) (hp_turn_ids page # pages) ids'
        (Some (hp_history_hash page, hp_turn_count page)) = Inr got"
      using Suc.prems(1) p by (auto simp: Let_def split: if_splits)
    then show ?thesis by (rule Suc.IH) (use ids' m ok in auto)
  qed
qed simp

lemma conversation_inventory_complete:
  assumes "readConversationInventory peer opts = Inr got"
  shows "distinct (ci_turn_ids got) \<and> int (length (ci_turn_ids got)) = ci_turn_count got \<and> ci_turn_count got \<le> 10000
    \<and> (\<forall>t \<in> set (ci_turn_ids got). 1 \<le> length t \<and> length t \<le> 512)"
proof -
  have "read_turn_pages (peer (nat (option_or (io_pageSize opts) 100))) (option_or (io_maxItems opts) 10000)
      (nat (option_or (io_maxPages opts) 1024)) 0 None [] [] [] None = Inr got" "option_or (io_maxItems opts) 10000 \<le> 10000"
    using assms by (auto simp: readConversationInventory_def Let_def allowed_option_def split: if_splits)
  with read_turns_complete [OF this(1)] show ?thesis by auto
qed

subsection \<open>Cursors and pages\<close>

lemma url_chars: "url \<Longrightarrow> list_all (\<lambda>c. b64_val url c \<noteq> None) (b64_encode url s)"
  by (induction url s rule: b64_encode.induct)
    (simp_all add: Let_def b64_val_char padding_def byte_parts byte_joins of_char_byte)

lemma encoded_nonempty: "s \<noteq> [] \<Longrightarrow> b64_encode url s \<noteq> []"
  by (cases "(url, s)" rule: b64_encode.cases) (simp_all add: Let_def)

lemma decode_encode_cursor: "decode_cursor (encode_cursor hash n) = Some (hash, n)"
proof -
  let ?v = "JObj [(''hash'', JStr hash), (''offset'', JNum (int n))]"
  have f: "filter (\<lambda>c. b64_val True c \<noteq> None) (b64_encode True s) = b64_encode True s" for s
    using url_chars [of True s] by (simp add: filter_id_conv list_all_iff)
  have p: "json_parse (render ?v) = Some ?v" by (rule json_parse_render) simp
  show ?thesis
    unfolding decode_cursor_def encode_cursor_def f b64_roundtrip Option.bind_lunit p by simp
qed

lemma encode_cursor_not_empty: "encode_cursor hash n \<noteq> []"
  unfolding encode_cursor_def by (rule encoded_nonempty) (simp only: render_JObj list.distinct not_False_eq_True)

lemma cursor_roundtrip:
  "cursor_offset hash amount (Some (encode_cursor hash' n)) = (if hash' = hash \<and> n \<le> amount then Inr n else Inl ''native_work_changed'')"
  by (auto simp: cursor_offset_def decode_encode_cursor encode_cursor_not_empty)

lemma take_rows_prefix: "take_rows f n rows = take (length (take_rows f n rows)) rows"
  by (induction f n rows rule: take_rows.induct) auto

lemma take_rows_length: "length (take_rows f n rows) \<le> length rows"
  by (induction f n rows rule: take_rows.induct) auto

lemma take_rows_progress: "\<lbrakk>rows \<noteq> []; f (hd rows) \<le> 192 * 1024\<rbrakk> \<Longrightarrow> take_rows f 0 rows \<noteq> []"
  by (cases rows) auto

definition page_of :: "(work_row \<Rightarrow> nat) \<Rightarrow> nat \<Rightarrow> nat \<Rightarrow> work_row list \<Rightarrow> work_row list" where
  "page_of f m n rows = take_rows f 0 (take m (drop n rows))"

lemma page_items:
  "page_of f m n rows = take (length (page_of f m n rows)) (drop n rows)"
  "n \<le> length rows \<Longrightarrow> n + length (page_of f m n rows) \<le> length rows"
proof -
  have l: "length (page_of f m n rows) \<le> length (take m (drop n rows))"
    unfolding page_of_def by (rule take_rows_length)
  have "page_of f m n rows = take (length (page_of f m n rows)) (take m (drop n rows))"
    using take_rows_prefix unfolding page_of_def .
  also have "\<dots> = take (length (page_of f m n rows)) (drop n rows)"
    using l by (simp only: take_take length_take min.bounded_iff min_absorb1)
  finally show "page_of f m n rows = take (length (page_of f m n rows)) (drop n rows)" .
  show "n + length (page_of f m n rows) \<le> length rows" if "n \<le> length rows"
    using l that by auto
qed

lemma page_appended: "n \<le> length rows \<Longrightarrow> take n rows @ page_of f m n rows = take (n + length (page_of f m n rows)) rows"
  using page_items(1) [of f m n rows] by (simp add: take_add)

subsection \<open>Reading the roster of a runner\<close>

text \<open>
  The runner answers each page from what it holds at that moment: \<open>sees i\<close> is its state, whether the
  session has an owner and which work is live when the page with number \<open>i\<close> is asked for.
\<close>

type_synonym roster_view = "NativeWorkState \<times> bool \<times> string set"

definition roster :: "roster_view \<Rightarrow> work_row list" where
  "roster v = (case v of (state, owner, live) \<Rightarrow> work_rows state owner live)"

definition roster_json :: "(work_row \<Rightarrow> json) \<Rightarrow> string \<Rightarrow> roster_view \<Rightarrow> json" where
  "roster_json row_json sid v =
     (case v of (state, owner, live) \<Rightarrow>
        observation_json row_json sid owner (work_rows state owner live) (nw_closure_unconfirmed state))"

definition runner_peer ::
  "(work_row \<Rightarrow> json) \<Rightarrow> (string \<Rightarrow> string) \<Rightarrow> (string \<Rightarrow> nat) \<Rightarrow> string \<Rightarrow> (nat \<Rightarrow> roster_view) \<Rightarrow> nat \<Rightarrow> work_peer" where
  "runner_peer row_json h bytes sid sees limit i cursor =
     (case sees i of (state, owner, live) \<Rightarrow>
        map_sum id Some (nativeWorkPage row_json h bytes sid state owner live cursor (Some limit)))"

abbreviation row_size :: "(work_row \<Rightarrow> json) \<Rightarrow> (string \<Rightarrow> nat) \<Rightarrow> work_row \<Rightarrow> nat" where
  "row_size row_json bytes \<equiv> \<lambda>r. bytes (render (row_json r))"

lemma runner_peer_offset:
  assumes "cursor_offset (h (render (roster_json row_json sid (sees i)))) (length (roster (sees i))) cursor = Inr n"
    and "page = page_of (row_size row_json bytes) limit n (roster (sees i))"
  shows "runner_peer row_json h bytes sid sees limit i cursor =
    (if n < length (roster (sees i)) \<and> page = [] then Inl ''native_work_record_limit''
     else Inr (Some (Work_result_read (fst (snd (sees i))) (h (render (roster_json row_json sid (sees i))))
            (nw_closure_unconfirmed (fst (sees i))) (int (length (roster (sees i))))
            (if n + length page < length (roster (sees i))
             then Some (encode_cursor (h (render (roster_json row_json sid (sees i)))) (n + length page)) else None) page)))"
  using assms(1) unfolding assms(2)
  by (cases "sees i") (simp add: runner_peer_def nativeWorkPage_def Let_def roster_def roster_json_def page_of_def)

lemma runner_peer_refused:
  assumes "cursor_offset (h (render (roster_json row_json sid (sees i)))) (length (roster (sees i))) cursor = Inl e"
  shows "runner_peer row_json h bytes sid sees limit i cursor = Inl e"
  using assms by (cases "sees i") (simp add: runner_peer_def nativeWorkPage_def Let_def roster_def roster_json_def)

lemma cursor_offset_le: "cursor_offset hash amount cursor = Inr n \<Longrightarrow> n \<le> amount"
  by (auto simp: cursor_offset_def split: option.splits if_splits)

lemma roster_json_rows:
  assumes "roster_json row_json sid v = roster_json row_json sid w"
  shows "map row_json (roster v) = map row_json (roster w)" and "fst (snd v) = fst (snd w)"
    and "nw_closure_unconfirmed (fst v) = nw_closure_unconfirmed (fst w)"
  using assms by (cases v; cases w; auto simp: roster_json_def observation_json_def roster_def split: if_splits)+

text \<open>What the client has read so far is the beginning of the first roster it saw.\<close>

lemma read_pages_snapshot:
  assumes "read_work_pages (runner_peer row_json h bytes sid sees limit) maxItems n i cursor cursors items snapshot = Inr got"
    and "\<And>j k. h (render (roster_json row_json sid (sees j))) = h (render (roster_json row_json sid (sees k)))
           \<Longrightarrow> roster_json row_json sid (sees j) = roster_json row_json sid (sees k)"
    and "i = 0 \<and> cursor = None \<and> items = [] \<and> snapshot = None
       \<or> (\<exists>amount owner unconfirmed. snapshot = Some (h (render (roster_json row_json sid (sees 0))), amount, owner, unconfirmed))
         \<and> cursor = Some (encode_cursor (h (render (roster_json row_json sid (sees 0)))) (length items))
         \<and> map row_json items = take (length items) (map row_json (roster (sees 0)))"
  shows "map row_json (wi_items got) = map row_json (roster (sees 0))
    \<and> wi_observation_hash got = h (render (roster_json row_json sid (sees 0)))
    \<and> wi_owner_active got = fst (snd (sees 0)) \<and> wi_closure_unconfirmed got = nw_closure_unconfirmed (fst (sees 0))
    \<and> wi_total_count got = int (length (roster (sees 0))) \<and> wi_total_count got \<le> maxItems
    \<and> distinct (map row_id (wi_items got))"
  using assms(1,3)
proof (induction n arbitrary: i cursor cursors items snapshot)
  case (Suc n)
  let ?hash = "\<lambda>j. h (render (roster_json row_json sid (sees j)))" and ?rows = "\<lambda>j. roster (sees j)"
  show ?case
  proof (cases "cursor_offset (?hash i) (length (?rows i)) cursor")
    case (Inl e)
    then show ?thesis using Suc.prems(1) by (simp add: runner_peer_refused)
  next
    case (Inr off)
    define page where "page = page_of (row_size row_json bytes) limit off (?rows i)"
    note peer = runner_peer_offset [where h = h and row_json = row_json and sid = sid and sees = sees and i = i and bytes = bytes and limit = limit,
        OF Inr page_def]
    have bound: "off \<le> length (?rows i)" using Inr by (rule cursor_offset_le)
    have "?hash i = ?hash 0 \<and> length items = off \<and> map row_json items = take off (map row_json (?rows 0))"
      using Suc.prems(2)
    proof (elim disjE exE conjE)
      assume c: "cursor = Some (encode_cursor (?hash 0) (length items))"
        and m: "map row_json items = take (length items) (map row_json (?rows 0))"
      have "?hash 0 = ?hash i \<and> length items = off"
        using Inr unfolding c cursor_roundtrip by (auto split: if_splits)
      then show ?thesis using m by simp
    qed (use Inr in \<open>simp add: cursor_offset_def\<close>)
    then have same: "?hash i = ?hash 0" and items: "map row_json items = take off (map row_json (?rows 0))"
      and len: "length items = off" by auto
    note eq = assms(2) [OF same]
    note rows = roster_json_rows [OF eq]
    have "length (?rows i) = length (?rows 0)" using rows(1) by (metis length_map)
    have "map row_json (items @ page) = take (off + length page) (map row_json (?rows i))"
      using items rows(1) page_appended [OF bound, of "row_size row_json bytes" limit, folded page_def]
      by (metis map_append take_map)
    then have read: "map row_json (items @ page) = take (length (items @ page)) (map row_json (?rows 0))"
      using rows(1) len by simp
    show ?thesis
    proof (cases "off + length page < length (?rows i)")
      case True
      have next_page: "read_work_pages (runner_peer row_json h bytes sid sees limit) maxItems n (Suc i)
          (Some (encode_cursor (?hash 0) (length (items @ page)))) (encode_cursor (?hash 0) (length (items @ page)) # cursors)
          (items @ page) (Some (?hash 0, int (length (?rows i)), fst (snd (sees i)), nw_closure_unconfirmed (fst (sees i)))) = Inr got"
        using Suc.prems(1) peer True same len by (auto split: if_splits)
      show ?thesis by (rule Suc.IH [OF next_page]) (use read in auto)
    next
      case False
      then have "got = \<lparr>wi_observation_hash = ?hash i, wi_total_count = int (length (?rows i)), wi_owner_active = fst (snd (sees i)),
          wi_closure_unconfirmed = nw_closure_unconfirmed (fst (sees i)), wi_items = items @ page\<rparr>"
        and "int (length (?rows i)) \<le> maxItems" and "distinct (map row_id (items @ page))"
        and "int (length (items @ page)) = int (length (?rows i))"
        using Suc.prems(1) peer by (auto split: if_splits)
      then show ?thesis
        using read rows same \<open>length (?rows i) = length (?rows 0)\<close> by simp
    qed
  qed
qed simp

text \<open>C14: An inventory that the control plane accepts is a roster the runner held at one moment, complete and
  without repetition, even when the work changes between the pages: a page of a changed roster is refused.  The
  hash is assumed not to collide on the observations that were hashed.\<close>

theorem work_inventory_is_a_snapshot:
  assumes "readNativeWorkInventory (runner_peer row_json h bytes sid sees) opts = Inr got"
    and "\<And>j k. h (render (roster_json row_json sid (sees j))) = h (render (roster_json row_json sid (sees k)))
           \<Longrightarrow> roster_json row_json sid (sees j) = roster_json row_json sid (sees k)"
  shows "map row_json (wi_items got) = map row_json (roster (sees 0)) \<and> distinct (map row_id (wi_items got))
    \<and> wi_total_count got = int (length (roster (sees 0))) \<and> wi_total_count got \<le> option_or (io_maxItems opts) 128
    \<and> wi_owner_active got = fst (snd (sees 0)) \<and> wi_closure_unconfirmed got = nw_closure_unconfirmed (fst (sees 0))"
proof -
  have read: "read_work_pages (runner_peer row_json h bytes sid sees (nat (option_or (io_pageSize opts) 32)))
      (option_or (io_maxItems opts) 128) (nat (option_or (io_maxPages opts) 128)) 0 None [] [] None = Inr got"
    using assms(1) by (simp add: readNativeWorkInventory_def Let_def split: if_splits)
  show ?thesis using read_pages_snapshot [OF read assms(2)] by simp
qed

subsection \<open>Rosters that do not change can be read\<close>

lemma encode_cursor_inj: "encode_cursor h1 n = encode_cursor h2 m \<longleftrightarrow> h1 = h2 \<and> n = m"
  by (metis decode_encode_cursor option.inject prod.inject)

lemma mset_row_ids: "mset (map row_id (work_rows state owner live)) = mset (map (\<lambda>(_, w). wk_work_id w) (nw_items state))"
proof -
  have "map row_id (work_rows state owner live)
      = map wk_work_id (stable_sort (\<lambda>a b. \<not> js_less (wk_work_id b) (wk_work_id a)) (map snd (nw_items state)))"
    by (simp add: work_rows_def row_id_def)
  then show ?thesis by (simp add: image_mset.compositionality comp_def split_def)
qed

lemma roster_ids_distinct:
  assumes "nativeWorkDictionarySchema ts (nw_items state)"
  shows "distinct (map row_id (work_rows state owner live))"
proof -
  have "map (\<lambda>(_, w). wk_work_id w) (nw_items state) = map fst (nw_items state)"
    using assms by (auto simp: nativeWorkDictionarySchema_def list_all_iff)
  then have "mset (map row_id (work_rows state owner live)) = mset (map fst (nw_items state))"
    unfolding mset_row_ids by (rule arg_cong)
  then show ?thesis
    using assms mset_eq_imp_distinct_iff unfolding nativeWorkDictionarySchema_def by blast
qed

lemma read_pages_complete:
  fixes v :: roster_view and h :: "string \<Rightarrow> string" and row_json :: "work_row \<Rightarrow> json" and sid :: string
  defines "hash \<equiv> h (render (roster_json row_json sid v))"
  assumes "distinct (map row_id (roster v))" and "\<forall>r \<in> set (roster v). bytes (render (row_json r)) \<le> 192 * 1024"
    and "int (length (roster v)) \<le> maxItems" and "0 < limit"
    and "cursor = (if i = 0 then None else Some (encode_cursor hash (length items)))"
    and "items = take (length items) (roster v)" and "i = 0 \<longleftrightarrow> items = []"
    and "snapshot = (if i = 0 then None else Some (hash, int (length (roster v)), fst (snd v), nw_closure_unconfirmed (fst v)))"
    and "set cursors \<subseteq> encode_cursor hash ` {..length items}"
    and "items \<noteq> [] \<longrightarrow> length items < length (roster v)" and "length (roster v) - length items \<le> n" and "0 < n"
  shows "read_work_pages (runner_peer row_json h bytes sid (\<lambda>_. v) limit) maxItems n i cursor cursors items snapshot
    = Inr \<lparr>wi_observation_hash = hash, wi_total_count = int (length (roster v)), wi_owner_active = fst (snd v),
           wi_closure_unconfirmed = nw_closure_unconfirmed (fst v), wi_items = roster v\<rparr>"
  using assms(6-13)
proof (induction n arbitrary: i cursor cursors items snapshot)
  case (Suc n)
  let ?rows = "roster v" and ?off = "length items"
  define page where "page = page_of (row_size row_json bytes) limit ?off ?rows"
  have bound: "?off \<le> length ?rows" using Suc.prems(2) by (metis length_take min.cobounded1 min.commute)
  have off: "cursor_offset hash (length ?rows) cursor = Inr ?off"
  proof (cases "i = 0")
    case True
    then show ?thesis using Suc.prems(1,3) by (simp add: cursor_offset_def)
  next
    case False
    then show ?thesis using Suc.prems(1) bound by (simp add: cursor_roundtrip)
  qed
  note peer = runner_peer_offset [where h = h and row_json = row_json and sid = sid and sees = "\<lambda>_. v" and i = i
      and bytes = bytes and limit = limit and cursor = cursor, folded hash_def, OF off page_def]
  have some: "page \<noteq> []" if "?off < length ?rows"
  proof -
    have ne: "take limit (drop ?off ?rows) \<noteq> []" using that assms(5) by simp
    then have "hd (take limit (drop ?off ?rows)) \<in> set ?rows" by (metis hd_in_set in_set_takeD in_set_dropD)
    then show ?thesis
      unfolding page_def page_of_def by (intro take_rows_progress [OF ne]) (use assms(3) in auto)
  qed
  have grown: "items @ page = take (?off + length page) ?rows"
    using page_appended [OF bound, of "row_size row_json bytes" limit, folded page_def] Suc.prems(2) by simp
  then have fresh: "distinct (map row_id (items @ page))"
    using assms(2) by (simp add: take_map [symmetric] distinct_take)
  have len: "?off + length page \<le> length ?rows"
    unfolding page_def by (rule page_items(2) [OF bound])
  show ?case
  proof (cases "?off + length page < length ?rows")
    case True
    then have ne: "page \<noteq> []" using some by simp
    have new: "encode_cursor hash (?off + length page) \<notin> set cursors"
      using Suc.prems(5) ne by (auto simp: encode_cursor_inj dest!: subsetD)
    have "encode_cursor hash ` {..?off} \<subseteq> encode_cursor hash ` {..?off + length page}" by (rule image_mono) auto
    then have sub: "set (encode_cursor hash (?off + length page) # cursors) \<subseteq> encode_cursor hash ` {..?off + length page}"
      using Suc.prems(5) by auto
    have "0 < length page" using ne by simp
    then have left: "length ?rows - (?off + length page) \<le> n" "0 < n"
      using True Suc.prems(7) by linarith+
    have "read_work_pages (runner_peer row_json h bytes sid (\<lambda>_. v) limit) maxItems n (Suc i)
        (Some (encode_cursor hash (?off + length page))) (encode_cursor hash (?off + length page) # cursors)
        (items @ page) (Some (hash, int (length ?rows), fst (snd v), nw_closure_unconfirmed (fst v)))
      = Inr \<lparr>wi_observation_hash = hash, wi_total_count = int (length ?rows), wi_owner_active = fst (snd v),
             wi_closure_unconfirmed = nw_closure_unconfirmed (fst v), wi_items = ?rows\<rparr>"
      by (rule Suc.IH) (use grown True ne sub left in auto)
    then show ?thesis
      using True peer ne new fresh assms(4) Suc.prems(4) len by (simp add: not_less)
  next
    case False
    then have "items @ page = ?rows" and "int (length items) + int (length page) = int (length ?rows)"
      using grown len by auto
    moreover have "?rows = []" if "page = []"
      using some that Suc.prems(6) bound by force
    ultimately show ?thesis
      using False peer some fresh assms(4) Suc.prems(4) by auto
  qed
qed simp

text \<open>C15: A roster of at most 128 rows, each of which fits a page, is read in full by a control plane that uses the
  default options, however the runner cuts it into pages, as long as it does not change meanwhile.\<close>

theorem stable_roster_is_read:
  assumes "nativeWorkDictionarySchema ts (nw_items state)" and "length (nw_items state) \<le> 128"
    and "\<forall>r \<in> set (work_rows state owner live). bytes (render (row_json r)) \<le> 192 * 1024"
  shows "\<exists>got. readNativeWorkInventory (runner_peer row_json h bytes sid (\<lambda>_. (state, owner, live)))
        \<lparr>io_maxItems = None, io_maxPages = None, io_pageSize = None\<rparr> = Inr got
      \<and> wi_items got = work_rows state owner live \<and> wi_total_count got = int (length (nw_items state))
      \<and> wi_owner_active got = owner \<and> wi_closure_unconfirmed got = nw_closure_unconfirmed state"
proof -
  let ?v = "(state, owner, live)"
  have r: "roster ?v = work_rows state owner live" by (simp add: roster_def)
  have l: "length (work_rows state owner live) = length (nw_items state)" by (simp add: work_rows_def)
  have "read_work_pages (runner_peer row_json h bytes sid (\<lambda>_. ?v) 32) 128 128 0 None [] [] None
    = Inr \<lparr>wi_observation_hash = h (render (roster_json row_json sid ?v)), wi_total_count = int (length (roster ?v)),
           wi_owner_active = fst (snd ?v), wi_closure_unconfirmed = nw_closure_unconfirmed (fst ?v), wi_items = roster ?v\<rparr>"
    by (rule read_pages_complete) (use assms roster_ids_distinct [OF assms(1)] in \<open>simp_all add: r l\<close>)
  then show ?thesis
    by (simp add: readNativeWorkInventory_def option_or_def allowed_option_def r l)
qed

subsection \<open>A roster of two rows\<close>

definition sample_item :: "string \<Rightarrow> HarnessNativeWorkRecord" where
  "sample_item i =
     \<lparr>wk_work_id = i, wk_native_reference = ''n'', wk_origin_turn_id = ''t'', wk_parent_work_id = None, wk_kind = Work_task,
      wk_background = True, wk_status = Work_running, wk_supports_cancel = True, wk_summary = None, wk_model = None,
      wk_progress = None, wk_content_ref = None, wk_revision = 1, wk_control = None\<rparr>"

definition sample_state :: NativeWorkState where
  "sample_state =
     \<lparr>nw_scope = \<lparr>sc_provider_instance_id = ''p'', sc_provider_binding_hash = ''h'', sc_workspace_id = ''w'', sc_cwd = ''/w'',
        sc_execution_binding_hash = ''e'', sc_execution_profile = None, sc_conversation_key = None\<rparr>,
      nw_items = [(''b'', sample_item ''b''), (''a'', sample_item ''a'')], nw_retired = [], nw_execution_bindings = None,
      nw_custody = None, nw_goals = None, nw_root_executions = None, nw_reconciliations = None, nw_forks = None,
      nw_closure_unconfirmed = False\<rparr>"

definition sample_view :: roster_view where
  "sample_view = (sample_state, True, {''a''})"

definition one_by_one :: inventory_options where
  "one_by_one = \<lparr>io_maxItems = Some 2, io_maxPages = Some 3, io_pageSize = Some 1\<rparr>"

lemma sample_roster: "roster sample_view = [(sample_item ''a'', True), (sample_item ''b'', False)]"
  by (simp add: roster_def sample_view_def work_rows_def sample_state_def sample_item_def)

lemma sample_inventory:
  "\<exists>got. readNativeWorkInventory (runner_peer (\<lambda>r. JStr (row_id r)) id length ''s'' (\<lambda>_. sample_view)) one_by_one = Inr got"
proof -
  have "read_work_pages (runner_peer (\<lambda>r. JStr (row_id r)) id length ''s'' (\<lambda>_. sample_view) 1) 2 3 0 None [] [] None
    = Inr \<lparr>wi_observation_hash = id (render (roster_json (\<lambda>r. JStr (row_id r)) ''s'' sample_view)),
           wi_total_count = int (length (roster sample_view)), wi_owner_active = fst (snd sample_view),
           wi_closure_unconfirmed = nw_closure_unconfirmed (fst sample_view), wi_items = roster sample_view\<rparr>"
    by (rule read_pages_complete) (simp_all add: sample_roster row_id_def sample_item_def json_string_def json_escape_char_def)
  then show ?thesis
    by (simp add: readNativeWorkInventory_def option_or_def allowed_option_def one_by_one_def)
qed

lemma work_inventory_is_a_snapshot_witness:
  "\<exists>got. readNativeWorkInventory (runner_peer (\<lambda>r. JStr (row_id r)) id length ''s'' (\<lambda>_. sample_view)) one_by_one = Inr got
     \<and> map row_id (wi_items got) = [''a'', ''b''] \<and> wi_total_count got = 2"
proof -
  obtain got where got: "readNativeWorkInventory (runner_peer (\<lambda>r. JStr (row_id r)) id length ''s'' (\<lambda>_. sample_view)) one_by_one = Inr got"
    using sample_inventory by blast
  have "map (\<lambda>r. JStr (row_id r)) (wi_items got) = map (\<lambda>r. JStr (row_id r)) (roster sample_view) \<and> wi_total_count got = 2"
    using work_inventory_is_a_snapshot [OF got] by (simp add: render_inj sample_roster)
  moreover have "map row_id xs = map row_id ys" if "map (\<lambda>r. JStr (row_id r)) xs = map (\<lambda>r. JStr (row_id r)) ys" for xs ys
    using arg_cong [where f = "map (\<lambda>v. case v of JStr i \<Rightarrow> i | _ \<Rightarrow> [])", OF that] by (simp add: comp_def)
  ultimately have "map row_id (wi_items got) = map row_id (roster sample_view)" by blast
  then show ?thesis
    using got \<open>_ \<and> wi_total_count got = 2\<close> by (simp add: sample_roster row_id_def sample_item_def)
qed

lemma stable_roster_is_read_witness:
  "\<exists>got. readNativeWorkInventory (runner_peer (\<lambda>r. JStr (row_id r)) id length ''s'' (\<lambda>_. (sample_state, True, {''a''})))
        \<lparr>io_maxItems = None, io_maxPages = None, io_pageSize = None\<rparr> = Inr got
     \<and> wi_items got = work_rows sample_state True {''a''} \<and> wi_total_count got = int (length (nw_items sample_state))
     \<and> wi_owner_active got = True \<and> wi_closure_unconfirmed got = nw_closure_unconfirmed sample_state"
proof (rule stable_roster_is_read [where ts = "\<lambda>_. True"])
  have r: "work_rows sample_state True {''a''} = [(sample_item ''a'', True), (sample_item ''b'', False)]"
    using sample_roster by (simp add: roster_def sample_view_def)
  show "\<forall>r \<in> set (work_rows sample_state True {''a''}). length (render (JStr (row_id r))) \<le> 192 * 1024"
    by (simp add: r row_id_def sample_item_def json_string_def json_escape_char_def)
qed (simp_all add: sample_state_def sample_item_def nativeWorkDictionarySchema_def harnessNativeWorkRecordSchema_def
    harnessNativeWorkObservationSchema_def identity_def positive_counter_def MAX_SAFE_INTEGER_def)

end
