(* ===== verification/Content_Transfer.thy ===== *)
theory Content_Transfer
  imports Native_Records Json_Parse Base64
begin

text \<open>
  Retained content: \<open>BoundedHarnessContentStore\<close> of the runner (\<open>harnesses/content-store.ts\<close>), the chunks
  of \<open>packages/hcp-protocol/src/content.ts\<close>, and \<open>readHcpContent\<close> of the control plane
  (\<open>packages/hcp-sdk/src/content.ts\<close>), which fetches an object in chunks and checks it.

  \<open>h\<close> is SHA-256 in hexadecimal, \<open>utf8\<close> and \<open>decode_utf8\<close> are the codec, \<open>date_parse\<close> is \<open>Date.parse\<close> on
  the timestamps the schema lets through.  The ids, signatures and outcomes of writes that the
  environment decides are arguments; nothing else changes the files while a call runs.
\<close>

subsection \<open>Chunks\<close>

record HarnessContentChunk =
  ch_reference :: HarnessContentReference
  ch_offset :: int
  ch_data_base64 :: string
  ch_next_offset :: "int option"

definition size_of_base64 :: "string \<Rightarrow> int" where
  "size_of_base64 d =
     (let n = length d; padding = (if drop (n - 2) d = ''=='' then 2 else if drop (n - 1) d = ''='' then 1 else 0) in
      int n div 4 * 3 - padding)"

text \<open>The regular expression admits exactly the texts an encoder produces.\<close>

definition canonical_base64 :: "string \<Rightarrow> bool" where
  "canonical_base64 d = (case b64_decode False d of None \<Rightarrow> False | Some b \<Rightarrow> b64_encode False b = d)"

definition harnessContentChunkSchema :: "(string \<Rightarrow> bool) \<Rightarrow> HarnessContentChunk \<Rightarrow> bool" where
  "harnessContentChunkSchema ts c =
     (let size = size_of_base64 (ch_data_base64 c); end_offset = ch_offset c + size;
          len = cref_byte_length (ch_reference c) in
      harnessContentReferenceSchema ts (ch_reference c) \<and> 0 \<le> ch_offset c \<and> ch_offset c \<le> HARNESS_CONTENT_MAX_BYTES
      \<and> length (ch_data_base64 c) \<le> 87384 \<and> canonical_base64 (ch_data_base64 c)
      \<and> opt_ok (\<lambda>n. 0 \<le> n \<and> n \<le> HARNESS_CONTENT_MAX_BYTES) (ch_next_offset c)
      \<and> \<not> (64 * 1024 < size \<or> len < end_offset)
      \<and> \<not> (if end_offset < len then size = 0 \<or> ch_next_offset c \<noteq> Some end_offset else ch_next_offset c \<noteq> None))"

subsection \<open>The store\<close>

record HarnessContentScope =
  hcs_session_id :: string
  hcs_provider_instance_id :: string
  hcs_provider_binding_hash :: string
  hcs_workspace_id :: string
  hcs_cwd :: string

record content_metadata =
  cm_scope :: HarnessContentScope
  cm_reference :: HarnessContentReference

record content_entry =
  ce_metadata :: content_metadata
  ce_bytes :: "string option"
  ce_verified :: "nat option"

text \<open>\<open>cf_plain\<close>: a regular file with one link; \<open>cf_signature\<close>: device, inode, size and times.\<close>

record content_file =
  cf_bytes :: string
  cf_plain :: bool
  cf_signature :: nat

record ContentStore =
  ct_directory :: bool
  ct_maxObjectBytes :: int
  ct_maxTotalBytes :: int
  ct_entries :: "(string \<times> content_entry) list"
  ct_bins :: "(string \<times> content_file) list"
  ct_jsons :: "(string \<times> content_metadata option) list"

definition HARNESS_CONTENT_STORE_MAX_BYTES :: int where
  "HARNESS_CONTENT_STORE_MAX_BYTES = 512 * 1024 * 1024"

definition entry_reference :: "content_entry \<Rightarrow> HarnessContentReference" where
  "entry_reference e = cm_reference (ce_metadata e)"

definition entry_size :: "content_entry \<Rightarrow> int" where
  "entry_size e = cref_byte_length (entry_reference e)"

definition total_size :: "(string \<times> content_entry) list \<Rightarrow> int" where
  "total_size es = sum_list (map (\<lambda>(_, e). entry_size e) es)"

definition remove_entry :: "string \<Rightarrow> ContentStore \<Rightarrow> ContentStore" where
  "remove_entry i st =
     st\<lparr>ct_entries := AList.delete i (ct_entries st),
        ct_bins := (if ct_directory st then AList.delete i (ct_bins st) else ct_bins st),
        ct_jsons := (if ct_directory st then AList.delete i (ct_jsons st) else ct_jsons st)\<rparr>"

fun prune_entries :: "(string \<Rightarrow> int) \<Rightarrow> int \<Rightarrow> int \<Rightarrow> (string \<times> content_entry) list \<Rightarrow> int \<Rightarrow> ContentStore \<Rightarrow> ContentStore" where
  "prune_entries date_parse now incoming [] used st = st"
| "prune_entries date_parse now incoming ((i, e) # rest) used st =
     (if now < date_parse (cref_expires_at (entry_reference e)) \<and> used + incoming \<le> ct_maxTotalBytes st
         \<and> length (ct_entries st) < 1024
      then prune_entries date_parse now incoming rest used st
      else prune_entries date_parse now incoming rest (used - entry_size e) (remove_entry i st))"

definition prune :: "(string \<Rightarrow> int) \<Rightarrow> int \<Rightarrow> int \<Rightarrow> ContentStore \<Rightarrow> ContentStore" where
  "prune date_parse now incoming st =
     (let expiry = (\<lambda>(_, e). date_parse (cref_expires_at (entry_reference e))) in
      prune_entries date_parse now incoming (stable_sort (\<lambda>a b. expiry a \<le> expiry b) (ct_entries st))
        (total_size (ct_entries st)) st)"

definition valid_limits :: "int \<Rightarrow> int \<Rightarrow> bool" where
  "valid_limits objectLimit totalLimit =
     (1 \<le> objectLimit \<and> objectLimit \<le> HARNESS_CONTENT_MAX_BYTES \<and> objectLimit \<le> totalLimit
      \<and> totalLimit \<le> HARNESS_CONTENT_STORE_MAX_BYTES)"

text \<open>
  The constructor: the metadata files that parse, carry their own id and have a body of the declared
  length become entries; other files of the store are removed.
\<close>

definition restored_entry :: "(string \<times> content_file) list \<Rightarrow> string \<times> content_metadata option \<Rightarrow> (string \<times> content_entry) list" where
  "restored_entry bins f =
     (case f of
        (file, Some m) \<Rightarrow>
          (case map_of bins (cref_content_id (cm_reference m)) of
             Some b \<Rightarrow>
               if file = cref_content_id (cm_reference m) \<and> int (length (cf_bytes b)) = cref_byte_length (cm_reference m)
               then [(file, \<lparr>ce_metadata = m, ce_bytes = None, ce_verified = None\<rparr>)] else []
           | None \<Rightarrow> [])
      | _ \<Rightarrow> [])"

definition BoundedHarnessContentStore ::
  "(string \<Rightarrow> int) \<Rightarrow> int \<Rightarrow> bool \<Rightarrow> int option \<Rightarrow> int option \<Rightarrow> (string \<times> content_file) list \<Rightarrow>
     (string \<times> content_metadata option) list \<Rightarrow> string + ContentStore" where
  "BoundedHarnessContentStore date_parse now directory maxObject maxTotal bins jsons =
     (let objectLimit = (case maxObject of None \<Rightarrow> HARNESS_CONTENT_MAX_BYTES | Some n \<Rightarrow> n);
          totalLimit = (case maxTotal of None \<Rightarrow> HARNESS_CONTENT_STORE_MAX_BYTES | Some n \<Rightarrow> n) in
      if \<not> valid_limits objectLimit totalLimit then Inl ''content_limit''
      else
        let entries = (if directory then concat (map (restored_entry bins) jsons) else []);
            kept = (\<lambda>i. i \<in> fst ` set entries) in
        Inr (prune date_parse now 0
          \<lparr>ct_directory = directory, ct_maxObjectBytes = objectLimit, ct_maxTotalBytes = totalLimit, ct_entries = entries,
           ct_bins = (if directory then filter (\<lambda>(i, _). kept i) bins else bins),
           ct_jsons = (if directory then filter (\<lambda>(i, _). kept i) jsons else jsons)\<rparr>))"

datatype content_value = Text_value string | Json_value json | Unserialisable

definition encode_value :: "content_value \<Rightarrow> string option" where
  "encode_value v = (case v of Text_value s \<Rightarrow> Some s | Json_value j \<Rightarrow> Some (render j) | Unserialisable \<Rightarrow> None)"

definition format_of :: "content_value \<Rightarrow> content_format" where
  "format_of v = (case v of Text_value _ \<Rightarrow> Format_text | _ \<Rightarrow> Format_json)"

text \<open>
  What the environment decides of a publication: the hash the id is made of, the time and its text a
  day later, the signature of the new file, and whether the two files can be written.
\<close>

record publication =
  pb_content_id :: string
  pb_now :: int
  pb_expires_at :: string
  pb_signature :: nat
  pb_bin_written :: bool
  pb_json_written :: bool

definition new_reference :: "(string \<Rightarrow> string) \<Rightarrow> publication \<Rightarrow> content_value \<Rightarrow> string \<Rightarrow> HarnessContentReference" where
  "new_reference h pb v bytes =
     \<lparr>cref_content_id = pb_content_id pb, cref_sha256 = h bytes, cref_byte_length = int (length bytes),
      cref_format = format_of v, cref_expires_at = pb_expires_at pb\<rparr>"

definition write_files :: "publication \<Rightarrow> string \<Rightarrow> content_metadata \<Rightarrow> ContentStore \<Rightarrow> ContentStore" where
  "write_files pb bytes m st =
     (let i = pb_content_id pb;
          bin = \<lparr>cf_bytes = bytes, cf_plain = True, cf_signature = pb_signature pb\<rparr>;
          st1 = (if pb_bin_written pb then st\<lparr>ct_bins := AList.update i bin (ct_bins st)\<rparr> else st) in
      if pb_bin_written pb \<and> pb_json_written pb then st1\<lparr>ct_jsons := AList.update i (Some m) (ct_jsons st1)\<rparr> else st1)"

definition publish_content ::
  "(string \<Rightarrow> bool) \<Rightarrow> (string \<Rightarrow> int) \<Rightarrow> (string \<Rightarrow> string) \<Rightarrow> (string \<Rightarrow> string) \<Rightarrow> publication \<Rightarrow> HarnessContentScope \<Rightarrow>
     content_value \<Rightarrow> ContentStore \<Rightarrow> (string + HarnessContentReference) \<times> ContentStore" where
  "publish_content ts date_parse h utf8 pb scope v st =
     (case encode_value v of
        None \<Rightarrow> (Inl ''content_invalid'', st)
      | Some encoded \<Rightarrow>
          let bytes = utf8 encoded in
          if ct_maxObjectBytes st < int (length bytes) then (Inl ''content_limit'', st)
          else
            let st1 = prune date_parse (pb_now pb) (int (length bytes)) st;
                r = new_reference h pb v bytes;
                m = \<lparr>cm_scope = scope, cm_reference = r\<rparr>;
                i = pb_content_id pb;
                entry = \<lparr>ce_metadata = m, ce_bytes = (if ct_directory st then None else Some bytes), ce_verified = None\<rparr> in
            if \<not> harnessContentReferenceSchema ts r then (Inl ''ZodError'', st1)
            else if \<not> ct_directory st then (Inr r, st1\<lparr>ct_entries := AList.update i entry (ct_entries st1)\<rparr>)
            else
              let st2 = write_files pb bytes m st1 in
              if pb_bin_written pb \<and> pb_json_written pb
              then (Inr r, st2\<lparr>ct_entries := AList.update i entry (ct_entries st2)\<rparr>)
              else (Inl ''EIO'', st2\<lparr>ct_bins := AList.delete i (ct_bins st2), ct_jsons := AList.delete i (ct_jsons st2)\<rparr>))"

definition require_content :: "(string \<Rightarrow> int) \<Rightarrow> int \<Rightarrow> string \<Rightarrow> string \<Rightarrow> ContentStore \<Rightarrow> string + content_entry" where
  "require_content date_parse now sessionId contentId st =
     (if \<not> sha256_text contentId then Inl ''content_unavailable''
      else case map_of (ct_entries st) contentId of
        None \<Rightarrow> Inl ''content_unavailable''
      | Some e \<Rightarrow>
          if hcs_session_id (cm_scope (ce_metadata e)) \<noteq> sessionId
            \<or> date_parse (cref_expires_at (entry_reference e)) \<le> now
          then Inl ''content_unavailable'' else Inr e)"

definition content_scope :: "(string \<Rightarrow> int) \<Rightarrow> int \<Rightarrow> string \<Rightarrow> string \<Rightarrow> ContentStore \<Rightarrow> string + HarnessContentScope" where
  "content_scope date_parse now sessionId contentId st =
     map_sum id (\<lambda>e. cm_scope (ce_metadata e)) (require_content date_parse now sessionId contentId st)"

text \<open>
  The bytes behind an entry: those in memory, or the file after the check of its whole digest, which is
  repeated only when the signature of the file has changed.
\<close>

definition entry_body :: "(string \<Rightarrow> string) \<Rightarrow> string \<Rightarrow> content_entry \<Rightarrow> ContentStore \<Rightarrow> (string + string) \<times> ContentStore" where
  "entry_body h contentId e st =
     (case ce_bytes e of
        Some bytes \<Rightarrow> (Inr bytes, st)
      | None \<Rightarrow>
          (case map_of (ct_bins st) contentId of
             None \<Rightarrow> (Inl ''content_unavailable'', st)
           | Some f \<Rightarrow>
               if \<not> cf_plain f \<or> int (length (cf_bytes f)) \<noteq> entry_size e then (Inl ''content_integrity'', st)
               else if ce_verified e = Some (cf_signature f) then (Inr (cf_bytes f), st)
               else if h (cf_bytes f) \<noteq> cref_sha256 (entry_reference e) then (Inl ''content_integrity'', st)
               else (Inr (cf_bytes f),
                     st\<lparr>ct_entries := AList.update contentId (e\<lparr>ce_verified := Some (cf_signature f)\<rparr>) (ct_entries st)\<rparr>)))"

definition read_content ::
  "(string \<Rightarrow> int) \<Rightarrow> (string \<Rightarrow> string) \<Rightarrow> int \<Rightarrow> string \<Rightarrow> string \<Rightarrow> int \<Rightarrow> int \<Rightarrow> ContentStore \<Rightarrow>
     (string + HarnessContentChunk) \<times> ContentStore" where
  "read_content date_parse h now sessionId contentId offset limit st =
     (if offset < 0 \<or> limit < 1 \<or> 64 * 1024 < limit then (Inl ''content_range_invalid'', st)
      else case require_content date_parse now sessionId contentId st of
        Inl e \<Rightarrow> (Inl e, st)
      | Inr e \<Rightarrow>
          let len = entry_size e in
          if len < offset then (Inl ''content_range_invalid'', st)
          else case entry_body h contentId e st of
            (Inl x, st1) \<Rightarrow> (Inl x, st1)
          | (Inr body, st1) \<Rightarrow>
              let end_offset = min len (offset + limit);
                  bytes = take (nat (end_offset - offset)) (drop (nat offset) body) in
              (Inr \<lparr>ch_reference = entry_reference e, ch_offset = offset, ch_data_base64 = b64_encode False bytes,
                    ch_next_offset = (if end_offset < len then Some end_offset else None)\<rparr>, st1))"

subsection \<open>The complete read\<close>

datatype content_read_error =
  Read_limit | Reference_changed | Offset_changed | Integrity | Invalid_utf8 | Invalid_json | Verification_unavailable
| Invalid_chunk | Peer_failed string

datatype complete_content = Complete_text string | Complete_json json

text \<open>\<open>peer\<close> answers the chunk with a given number for an offset and a limit.\<close>

type_synonym content_peer = "nat \<Rightarrow> int \<Rightarrow> int \<Rightarrow> string + HarnessContentChunk"

text \<open>
  The chunks are copied to consecutive places of an array of the declared length; \<open>acc\<close> is its filled
  part, whose length is the offset.
\<close>

fun read_chunks ::
  "(string \<Rightarrow> bool) \<Rightarrow> content_peer \<Rightarrow> HarnessContentReference \<Rightarrow> int \<Rightarrow> nat \<Rightarrow> nat \<Rightarrow> string \<Rightarrow> content_read_error + string" where
  "read_chunks ts peer expected chunkSize 0 index acc = Inl Read_limit"
| "read_chunks ts peer expected chunkSize (Suc n) index acc =
     (case peer index (int (length acc)) chunkSize of
        Inl e \<Rightarrow> Inl (Peer_failed e)
      | Inr c \<Rightarrow>
          if \<not> harnessContentChunkSchema ts c then Inl Invalid_chunk
          else if ch_reference c \<noteq> expected then Inl Reference_changed
          else if ch_offset c \<noteq> int (length acc) then Inl Offset_changed
          else case b64_decode False (ch_data_base64 c) of
            None \<Rightarrow> Inl Invalid_chunk
          | Some decoded \<Rightarrow>
              if chunkSize < int (length decoded) then Inl Read_limit
              else if ch_next_offset c = None then Inr (acc @ decoded)
              else read_chunks ts peer expected chunkSize n (Suc index) (acc @ decoded))"

record complete_options =
  co_maxBytes :: "int option"
  co_maxChunks :: "int option"
  co_chunkSize :: "int option"

definition option_default :: "int option \<Rightarrow> int \<Rightarrow> int" where
  "option_default v d = (case v of None \<Rightarrow> d | Some n \<Rightarrow> n)"

definition within :: "int \<Rightarrow> int \<Rightarrow> bool" where
  "within maximum v = (1 \<le> v \<and> v \<le> maximum)"

definition decode_content ::
  "(string \<Rightarrow> string option) \<Rightarrow> HarnessContentReference \<Rightarrow> string \<Rightarrow> content_read_error + complete_content" where
  "decode_content decode_utf8 expected bytes =
     (case decode_utf8 bytes of
        None \<Rightarrow> Inl Invalid_utf8
      | Some text \<Rightarrow>
          if cref_format expected = Format_text then Inr (Complete_text text)
          else case json_parse text of None \<Rightarrow> Inl Invalid_json | Some v \<Rightarrow> Inr (Complete_json v))"

definition readHcpContent ::
  "(string \<Rightarrow> bool) \<Rightarrow> (string \<Rightarrow> string) \<Rightarrow> (string \<Rightarrow> string option) \<Rightarrow> bool \<Rightarrow> content_peer \<Rightarrow> HarnessContentReference \<Rightarrow>
     complete_options \<Rightarrow> content_read_error + complete_content" where
  "readHcpContent ts h decode_utf8 subtle peer expected opts =
     (let maxBytes = option_default (co_maxBytes opts) HARNESS_CONTENT_MAX_BYTES;
          maxChunks = option_default (co_maxChunks opts) 2048;
          chunkSize = option_default (co_chunkSize opts) (64 * 1024) in
      if \<not> harnessContentReferenceSchema ts expected then Inl Invalid_chunk
      else if \<not> (within HARNESS_CONTENT_MAX_BYTES maxBytes \<and> within 8192 maxChunks \<and> within (64 * 1024) chunkSize)
      then Inl Read_limit
      else if maxBytes < cref_byte_length expected
        \<or> maxChunks < max 1 ((cref_byte_length expected + chunkSize - 1) div chunkSize) then Inl Read_limit
      else if \<not> subtle then Inl Verification_unavailable
      else case read_chunks ts peer expected chunkSize (nat maxChunks) 0 [] of
        Inl e \<Rightarrow> Inl e
      | Inr bytes \<Rightarrow>
          if int (length bytes) \<noteq> cref_byte_length expected then Inl Read_limit
          else if h bytes \<noteq> cref_sha256 expected then Inl Integrity
          else decode_content decode_utf8 expected bytes)"

end
