(* ===== verification/Content_Custody.thy ===== *)
theory Content_Custody
  imports Content_Transfer
begin

text \<open>
  What retained content guarantees: the store keeps its limits in memory and on disk, whatever fails or
  crashes; and what the control plane accepts as complete is what the runner published.
\<close>

subsection \<open>Calls\<close>

text \<open>
  A call, or the end of the process: in the middle of a publication, with the body or both files
  written, or between two calls.  After it the store is opened again with the same limits.
\<close>

datatype content_call =
    Publishes publication HarnessContentScope content_value
  | Reads int string string int int
  | Crashes_publishing publication HarnessContentScope content_value int
  | Restarts int

definition reopened :: "(string \<Rightarrow> int) \<Rightarrow> int \<Rightarrow> ContentStore \<Rightarrow> ContentStore" where
  "reopened date_parse now st =
     (case BoundedHarnessContentStore date_parse now (ct_directory st) (Some (ct_maxObjectBytes st)) (Some (ct_maxTotalBytes st))
         (ct_bins st) (ct_jsons st) of Inl _ \<Rightarrow> st | Inr st' \<Rightarrow> st')"

definition crashed_publication ::
  "(string \<Rightarrow> int) \<Rightarrow> (string \<Rightarrow> string) \<Rightarrow> (string \<Rightarrow> string) \<Rightarrow> publication \<Rightarrow> HarnessContentScope \<Rightarrow> content_value \<Rightarrow>
     ContentStore \<Rightarrow> ContentStore" where
  "crashed_publication date_parse h utf8 pb scope v st =
     (case encode_value v of
        None \<Rightarrow> st
      | Some encoded \<Rightarrow>
          let bytes = utf8 encoded in
          if ct_maxObjectBytes st < int (length bytes) \<or> \<not> ct_directory st then st
          else write_files pb bytes \<lparr>cm_scope = scope, cm_reference = new_reference h pb v bytes\<rparr>
                 (prune date_parse (pb_now pb) (int (length bytes)) st))"

fun content_step ::
  "(string \<Rightarrow> bool) \<Rightarrow> (string \<Rightarrow> int) \<Rightarrow> (string \<Rightarrow> string) \<Rightarrow> (string \<Rightarrow> string) \<Rightarrow> ContentStore \<Rightarrow> content_call \<Rightarrow> ContentStore" where
  "content_step ts date_parse h utf8 st (Publishes pb scope v) = snd (publish_content ts date_parse h utf8 pb scope v st)"
| "content_step ts date_parse h utf8 st (Reads now sid i offset limit) = snd (read_content date_parse h now sid i offset limit st)"
| "content_step ts date_parse h utf8 st (Crashes_publishing pb scope v now) =
     reopened date_parse now (crashed_publication date_parse h utf8 pb scope v st)"
| "content_step ts date_parse h utf8 st (Restarts now) = reopened date_parse now st"

subsection \<open>The limits\<close>

definition entries_ok :: "ContentStore \<Rightarrow> bool" where
  "entries_ok st \<longleftrightarrow>
     valid_limits (ct_maxObjectBytes st) (ct_maxTotalBytes st)
     \<and> distinct (map fst (ct_entries st)) \<and> (\<forall>(k, e) \<in> set (ct_entries st). 0 \<le> entry_size e)
     \<and> distinct (map fst (ct_bins st)) \<and> distinct (map fst (ct_jsons st))"

text \<open>Every body on disk is accounted for by an entry of its size.\<close>

definition accounted :: "ContentStore \<Rightarrow> bool" where
  "accounted st \<longleftrightarrow>
     (ct_directory st \<longrightarrow>
       (\<forall>(k, f) \<in> set (ct_bins st). \<exists>e. map_of (ct_entries st) k = Some e \<and> int (length (cf_bytes f)) = entry_size e))"

definition bounded :: "ContentStore \<Rightarrow> bool" where
  "bounded st \<longleftrightarrow> total_size (ct_entries st) \<le> ct_maxTotalBytes st \<and> length (ct_entries st) \<le> 1024"

lemma total_size_delete:
  assumes "distinct (map fst es)" and "(i, e) \<in> set es"
  shows "total_size (AList.delete i es) = total_size es - entry_size e"
  using assms
proof (induction es)
  case (Cons x es)
  show ?case
  proof (cases "fst x = i")
    case True
    then have "i \<notin> fst ` set es" using Cons.prems(1) by (cases x) auto
    moreover have "x = (i, e)" using Cons.prems True by (cases x) (auto simp: image_iff)
    ultimately show ?thesis by (simp add: total_size_def AList.delete_id)
  next
    case False
    then show ?thesis using Cons by (cases x) (auto simp: total_size_def)
  qed
qed simp

lemma delete_entries: "set (AList.delete i es) = {x \<in> set es. fst x \<noteq> i}"
  by (auto simp: AList.delete_eq)

lemma length_delete: "length (AList.delete i es) \<le> length es"
  by (rule AList.length_delete_le)

lemma remove_entry_simps [simp]:
  "ct_directory (remove_entry i st) = ct_directory st" "ct_maxTotalBytes (remove_entry i st) = ct_maxTotalBytes st"
  "ct_maxObjectBytes (remove_entry i st) = ct_maxObjectBytes st" "ct_entries (remove_entry i st) = AList.delete i (ct_entries st)"
  "ct_bins (remove_entry i st) = (if ct_directory st then AList.delete i (ct_bins st) else ct_bins st)"
  "ct_jsons (remove_entry i st) = (if ct_directory st then AList.delete i (ct_jsons st) else ct_jsons st)"
  by (simp_all add: remove_entry_def)

lemma remove_entry_ok: "entries_ok st \<Longrightarrow> entries_ok (remove_entry i st)"
  unfolding entries_ok_def remove_entry_simps by (intro conjI) (auto simp: delete_entries intro: AList.distinct_delete)

lemma remove_entry_accounted: "accounted st \<Longrightarrow> accounted (remove_entry i st)"
  unfolding accounted_def remove_entry_simps by (auto simp: delete_entries js_map)

lemma prune_entries_keeps:
  "entries_ok st \<Longrightarrow> entries_ok (prune_entries date_parse now incoming xs used st)"
  "accounted st \<Longrightarrow> accounted (prune_entries date_parse now incoming xs used st)"
  "ct_directory (prune_entries date_parse now incoming xs used st) = ct_directory st"
  "ct_maxTotalBytes (prune_entries date_parse now incoming xs used st) = ct_maxTotalBytes st"
  "ct_maxObjectBytes (prune_entries date_parse now incoming xs used st) = ct_maxObjectBytes st"
  by (induction date_parse now incoming xs used st rule: prune_entries.induct) (auto simp: remove_entry_ok remove_entry_accounted)

lemma prune_entries_room:
  assumes "entries_ok st" and "used = total_size (ct_entries st)" and "set xs \<subseteq> set (ct_entries st)" and "distinct (map fst xs)"
    and "used + incoming \<le> ct_maxTotalBytes st \<and> length (ct_entries st) < 1024 \<or> set (ct_entries st) \<subseteq> set xs"
    and "incoming \<le> ct_maxTotalBytes st"
  shows "total_size (ct_entries (prune_entries date_parse now incoming xs used st)) + incoming \<le> ct_maxTotalBytes st
    \<and> length (ct_entries (prune_entries date_parse now incoming xs used st)) < 1024"
  using assms
proof (induction date_parse now incoming xs used st rule: prune_entries.induct)
  case (1 date_parse now incoming used st)
  then show ?case by (auto simp: total_size_def)
next
  case (2 date_parse now incoming i e rest used st)
  let ?keep = "now < date_parse (cref_expires_at (entry_reference e)) \<and> used + incoming \<le> ct_maxTotalBytes st
    \<and> length (ct_entries st) < 1024"
  show ?case
  proof (cases ?keep)
    case True
    then show ?thesis using 2 by auto
  next
    case False
    let ?st = "remove_entry i st"
    have member: "(i, e) \<in> set (ct_entries st)" using "2.prems"(3) by auto
    then have size_e: "0 \<le> entry_size e" "used - entry_size e = total_size (ct_entries ?st)"
      using "2.prems"(1,2) total_size_delete [OF _ member] by (auto simp: entries_ok_def)
    have "fst x \<noteq> i" if "x \<in> set rest" for x using that "2.prems"(4) by auto
    then have rest: "set rest \<subseteq> set (ct_entries ?st)" using "2.prems"(3) by (auto simp: delete_entries)
    have same: "x = (i, e)" if "x \<in> set (ct_entries st)" "fst x = i" for x
      using that member "2.prems"(1) by (auto simp: entries_ok_def dest: map_of_is_SomeI)
        (metis map_of_is_SomeI option.inject prod.collapse)
    have "length (ct_entries ?st) \<le> length (ct_entries st)" by (simp add: length_delete)
    then have "used - entry_size e + incoming \<le> ct_maxTotalBytes ?st \<and> length (ct_entries ?st) < 1024
        \<or> set (ct_entries ?st) \<subseteq> set rest"
      using "2.prems"(5) size_e(1) same by (auto simp: delete_entries)
    then show ?thesis
      using "2.IH"(2) [OF False remove_entry_ok [OF "2.prems"(1)] size_e(2) rest] "2.prems"(4,6) False by auto
  qed
qed

lemma content_prune_keeps:
  "entries_ok st \<Longrightarrow> entries_ok (prune date_parse now incoming st)"
  "accounted st \<Longrightarrow> accounted (prune date_parse now incoming st)"
  "ct_directory (prune date_parse now incoming st) = ct_directory st"
  "ct_maxTotalBytes (prune date_parse now incoming st) = ct_maxTotalBytes st"
  "ct_maxObjectBytes (prune date_parse now incoming st) = ct_maxObjectBytes st"
  by (simp_all add: prune_def Let_def prune_entries_keeps)

lemma prune_room:
  assumes "entries_ok st" and "incoming \<le> ct_maxTotalBytes st"
  shows "total_size (ct_entries (prune date_parse now incoming st)) + incoming \<le> ct_maxTotalBytes st
    \<and> length (ct_entries (prune date_parse now incoming st)) < 1024"
proof -
  let ?le = "\<lambda>a b. (case a of (_, e) \<Rightarrow> date_parse (cref_expires_at (entry_reference e)))
      \<le> (case b of (_, e) \<Rightarrow> date_parse (cref_expires_at (entry_reference e)))"
  have "mset (map fst (stable_sort ?le (ct_entries st))) = mset (map fst (ct_entries st))" by simp
  then have "distinct (map fst (stable_sort ?le (ct_entries st)))"
    using assms(1) mset_eq_imp_distinct_iff unfolding entries_ok_def by blast
  then show ?thesis
    using prune_entries_room [OF assms(1) refl, of "stable_sort ?le (ct_entries st)" incoming date_parse now] assms(2)
    by (simp add: prune_def Let_def prune_entries_keeps)
qed

lemma total_size_cons [simp]: "total_size [] = 0" "total_size ((i, e) # es) = entry_size e + total_size es"
  by (simp_all add: total_size_def)

lemma total_size_update:
  assumes "\<forall>(k, e) \<in> set es. 0 \<le> entry_size e" and "0 \<le> entry_size x"
  shows "total_size (AList.update i x es) \<le> total_size es + entry_size x"
  using assms by (induction es) auto

lemma length_update: "length (AList.update i x es) \<le> Suc (length es)"
  by (induction es) auto

lemma update_entries_ok:
  assumes "entries_ok st" and "0 \<le> entry_size x"
  shows "entries_ok (st\<lparr>ct_entries := AList.update i x (ct_entries st)\<rparr>)"
proof -
  have "set (AList.update i x (ct_entries st)) \<subseteq> insert (i, x) (set (ct_entries st))" by (rule set_update_subset)
  then have "\<forall>(k, e) \<in> set (AList.update i x (ct_entries st)). 0 \<le> entry_size e"
    using assms by (auto simp: entries_ok_def)
  then show ?thesis
    using assms(1) by (simp add: entries_ok_def AList.distinct_update)
qed

lemma update_bounded:
  assumes "entries_ok st" and "0 \<le> entry_size x" and "total_size (ct_entries st) + entry_size x \<le> ct_maxTotalBytes st"
    and "length (ct_entries st) < 1024"
  shows "bounded (st\<lparr>ct_entries := AList.update i x (ct_entries st)\<rparr>)"
proof -
  have "total_size (AList.update i x (ct_entries st)) \<le> total_size (ct_entries st) + entry_size x"
    by (rule total_size_update) (use assms in \<open>auto simp: entries_ok_def\<close>)
  moreover have "length (AList.update i x (ct_entries st)) \<le> Suc (length (ct_entries st))" by (rule length_update)
  ultimately show ?thesis using assms(3,4) by (simp add: bounded_def)
qed

lemma write_files_simps [simp]:
  "ct_entries (write_files pb bytes m st) = ct_entries st" "ct_directory (write_files pb bytes m st) = ct_directory st"
  "ct_maxTotalBytes (write_files pb bytes m st) = ct_maxTotalBytes st"
  "ct_maxObjectBytes (write_files pb bytes m st) = ct_maxObjectBytes st"
  by (simp_all add: write_files_def Let_def)

lemma write_files_ok: "entries_ok st \<Longrightarrow> entries_ok (write_files pb bytes m st)"
  by (simp add: entries_ok_def write_files_def Let_def AList.distinct_update)

definition store_ok :: "ContentStore \<Rightarrow> bool" where
  "store_ok st \<longleftrightarrow> entries_ok st \<and> accounted st \<and> bounded st"

lemma room_bounded:
  assumes "entries_ok st" and "0 \<le> n" and "n \<le> ct_maxTotalBytes st"
  shows "bounded (prune date_parse now n st)"
  using prune_room [OF assms(1,3), of date_parse now] assms(2) by (simp add: bounded_def content_prune_keeps)

lemma publish_store_ok:
  assumes "store_ok st"
  shows "store_ok (snd (publish_content ts date_parse h utf8 pb scope v st))"
proof (cases "encode_value v")
  case None
  then show ?thesis using assms by (simp add: publish_content_def)
next
  case (Some encoded)
  define bytes where "bytes = utf8 encoded"
  define st1 where "st1 = prune date_parse (pb_now pb) (int (length bytes)) st"
  define r where "r = new_reference h pb v bytes"
  define m where "m = \<lparr>cm_scope = scope, cm_reference = r\<rparr>"
  define x where "x = \<lparr>ce_metadata = m, ce_bytes = (if ct_directory st then None else Some bytes), ce_verified = None\<rparr>"
  let ?i = "pb_content_id pb" and ?st2 = "write_files pb bytes m st1"
  have ok: "entries_ok st" "accounted st" using assms by (auto simp: store_ok_def)
  show ?thesis
  proof (cases "ct_maxObjectBytes st < int (length bytes)")
    case True
    then show ?thesis using assms Some by (simp add: publish_content_def bytes_def Let_def)
  next
    case False
    then have fits: "int (length bytes) \<le> ct_maxTotalBytes st" using ok(1) by (auto simp: entries_ok_def valid_limits_def)
    have size_x: "entry_size x = int (length bytes)" by (simp add: x_def m_def r_def entry_size_def entry_reference_def new_reference_def)
    note room = prune_room [OF ok(1) fits, of date_parse "pb_now pb", folded st1_def]
    have ok1: "entries_ok st1" "accounted st1" "bounded st1" "ct_directory st1 = ct_directory st"
      "ct_maxTotalBytes st1 = ct_maxTotalBytes st"
      using ok room_bounded [OF ok(1) _ fits] by (simp_all add: st1_def content_prune_keeps)
    have memory: "store_ok (st1\<lparr>ct_entries := AList.update ?i x (ct_entries st1)\<rparr>)" if "\<not> ct_directory st"
      using that ok1 room size_x update_entries_ok [OF ok1(1), of x] update_bounded [OF ok1(1), of x]
      by (simp add: store_ok_def accounted_def)
    have ok2: "entries_ok ?st2" by (rule write_files_ok [OF ok1(1)])
    have disk: "store_ok (?st2\<lparr>ct_entries := AList.update ?i x (ct_entries ?st2)\<rparr>)"
      if "ct_directory st" "pb_bin_written pb" "pb_json_written pb"
    proof -
      have "\<exists>e. map_of (AList.update ?i x (ct_entries st1)) k = Some e \<and> int (length (cf_bytes f)) = entry_size e"
        if f: "(k, f) \<in> set (ct_bins ?st2)" for k f
      proof -
        have "map_of (ct_bins ?st2) k = Some f"
          using ok2 f by (simp add: entries_ok_def map_of_is_SomeI)
        then have "k = ?i \<and> length (cf_bytes f) = length bytes \<or> k \<noteq> ?i \<and> (k, f) \<in> set (ct_bins st1)"
          using \<open>pb_bin_written pb\<close> \<open>pb_json_written pb\<close>
          by (auto simp: write_files_def Let_def js_map dest: map_of_SomeD split: if_splits)
        then show ?thesis
          using ok1(2,4) \<open>ct_directory st\<close> size_x by (auto simp: accounted_def js_map)
      qed
      then have "accounted (?st2\<lparr>ct_entries := AList.update ?i x (ct_entries ?st2)\<rparr>)"
        by (auto simp: accounted_def)
      then show ?thesis
        using ok1 room size_x update_entries_ok [OF ok2, of x] update_bounded [OF ok2, of x]
        by (simp add: store_ok_def)
    qed
    have failed: "store_ok (?st2\<lparr>ct_bins := AList.delete ?i (ct_bins ?st2), ct_jsons := AList.delete ?i (ct_jsons ?st2)\<rparr>)"
      if "ct_directory st"
    proof -
      have "set (AList.delete ?i (ct_bins ?st2)) \<subseteq> set (ct_bins st1)"
        by (auto simp: write_files_def Let_def delete_entries dest!: subsetD [OF set_update_subset])
      then have "accounted (?st2\<lparr>ct_bins := AList.delete ?i (ct_bins ?st2), ct_jsons := AList.delete ?i (ct_jsons ?st2)\<rparr>)"
        using that ok1 by (auto simp: accounted_def)
      then show ?thesis
        using ok1 ok2 by (simp add: store_ok_def entries_ok_def bounded_def AList.distinct_delete)
    qed
    have plain: "store_ok st1" using ok1 by (simp add: store_ok_def)
    show ?thesis
      using False Some memory [unfolded x_def] disk [unfolded x_def] failed plain
      by (auto simp: publish_content_def Let_def bytes_def [symmetric] st1_def [symmetric] r_def [symmetric]
          m_def [symmetric] ok1(4))
  qed
qed

lemma update_same_size:
  assumes "map_of es i = Some e" and "distinct (map fst es)" and "entry_size x = entry_size e"
  shows "total_size (AList.update i x es) = total_size es" and "length (AList.update i x es) = length es"
  using assms by (induction es) (auto split: if_splits)

lemma body_store_ok:
  assumes "store_ok st" and "map_of (ct_entries st) i = Some e"
  shows "store_ok (snd (entry_body h i e st))"
proof -
  have verified: "store_ok (st\<lparr>ct_entries := AList.update i (e\<lparr>ce_verified := x\<rparr>) (ct_entries st)\<rparr>)" for x
  proof -
    let ?x = "e\<lparr>ce_verified := x\<rparr>"
    have size_x: "entry_size ?x = entry_size e" by (simp add: entry_size_def entry_reference_def)
    have ok: "entries_ok st" "accounted st" "bounded st" using assms(1) by (auto simp: store_ok_def)
    have "0 \<le> entry_size e" using ok(1) map_of_SomeD [OF assms(2)] by (auto simp: entries_ok_def)
    then have "entries_ok (st\<lparr>ct_entries := AList.update i ?x (ct_entries st)\<rparr>)"
      using ok(1) size_x by (intro update_entries_ok) auto
    moreover have "accounted (st\<lparr>ct_entries := AList.update i ?x (ct_entries st)\<rparr>)"
      using ok(2) assms(2) size_x by (fastforce simp: accounted_def js_map)
    moreover have "bounded (st\<lparr>ct_entries := AList.update i ?x (ct_entries st)\<rparr>)"
      using ok(1,3) update_same_size [OF assms(2) _ size_x] by (simp add: bounded_def entries_ok_def)
    ultimately show ?thesis by (simp add: store_ok_def)
  qed
  show ?thesis
    using assms(1) verified by (auto simp: entry_body_def split: option.splits)
qed

lemma require_member: "require_content date_parse now sid i st = Inr e \<Longrightarrow> map_of (ct_entries st) i = Some e"
  by (auto simp: require_content_def split: option.splits if_splits)

lemma read_state:
  "snd (read_content date_parse h now sid i offset limit st) = st
   \<or> (\<exists>e. map_of (ct_entries st) i = Some e
        \<and> snd (read_content date_parse h now sid i offset limit st) = snd (entry_body h i e st))"
proof (cases "require_content date_parse now sid i st")
  case (Inr e)
  then show ?thesis
    using require_member [OF Inr] by (cases "entry_body h i e st") (auto simp: read_content_def Let_def split: sum.splits)
qed (simp add: read_content_def)

lemma read_store_ok: "store_ok st \<Longrightarrow> store_ok (snd (read_content date_parse h now sid i offset limit st))"
  using read_state [of date_parse h now sid i offset limit st] body_store_ok by metis

subsection \<open>Opening the store again\<close>

lemma restored_keys: "x \<in> set (restored_entry bins f) \<Longrightarrow> fst x = fst f"
  by (auto simp: restored_entry_def split: prod.splits option.splits if_splits)

lemma restored_length: "length (restored_entry bins f) \<le> 1"
  by (auto simp: restored_entry_def split: prod.splits option.splits)

lemma restored_size:
  assumes "(i, e) \<in> set (restored_entry bins f)"
  shows "\<exists>b. map_of bins i = Some b \<and> entry_size e = int (length (cf_bytes b))"
  using assms
  by (auto simp: restored_entry_def entry_size_def entry_reference_def split: prod.splits option.splits if_splits) metis

lemma restored_distinct:
  assumes "distinct (map fst fs)"
  shows "distinct (map fst (concat (map (restored_entry bins) fs)))"
  using assms
proof (induction fs)
  case (Cons f fs)
  have "distinct (map fst (restored_entry bins f))"
    using restored_length [of bins f] by (cases "restored_entry bins f") auto
  moreover have "fst ` set (restored_entry bins f) \<inter> fst ` set (concat (map (restored_entry bins) fs)) = {}"
    using Cons.prems by (auto dest!: restored_keys) (metis fst_conv image_eqI)
  ultimately show ?case using Cons by auto
qed simp

lemma opened_store_ok:
  assumes "BoundedHarnessContentStore date_parse now directory maxObject maxTotal bins jsons = Inr st"
    and "distinct (map fst bins)" and "distinct (map fst jsons)"
  shows "store_ok st"
proof -
  define es where "es = (if directory then concat (map (restored_entry bins) jsons) else [])"
  define kept where "kept = (\<lambda>i. i \<in> fst ` set es)"
  obtain om tm where st: "valid_limits om tm" "st = prune date_parse now 0
      \<lparr>ct_directory = directory, ct_maxObjectBytes = om, ct_maxTotalBytes = tm, ct_entries = es,
       ct_bins = (if directory then filter (\<lambda>(i, _). kept i) bins else bins),
       ct_jsons = (if directory then filter (\<lambda>(i, _). kept i) jsons else jsons)\<rparr>" (is "_ = prune _ _ _ ?st0")
    using assms(1) by (auto simp: BoundedHarnessContentStore_def Let_def es_def kept_def split: if_splits)
  have d: "distinct (map fst es)" using restored_distinct [OF assms(3)] by (simp add: es_def)
  have sizes: "\<exists>b. map_of bins i = Some b \<and> entry_size e = int (length (cf_bytes b))" if "(i, e) \<in> set es" for i e
    using that restored_size by (auto simp: es_def split: if_splits)
  have ok: "entries_ok ?st0"
    using st(1) d sizes assms(2,3) by (fastforce simp: entries_ok_def distinct_map_filter)
  have "\<exists>e. map_of es k = Some e \<and> int (length (cf_bytes f)) = entry_size e"
    if "directory" "(k, f) \<in> set bins" "kept k" for k f
  proof -
    obtain e where e: "(k, e) \<in> set es" using \<open>kept k\<close> by (auto simp: kept_def)
    then have "map_of es k = Some e" using d by simp
    moreover have "map_of bins k = Some f" using that(2) assms(2) by simp
    ultimately show ?thesis using sizes [OF e] by auto
  qed
  then have "accounted ?st0" by (auto simp: accounted_def)
  moreover have "0 \<le> ct_maxTotalBytes ?st0" using st(1) by (simp add: valid_limits_def)
  ultimately show ?thesis
    unfolding st(2) store_ok_def using ok room_bounded [OF ok, of 0] by (simp add: content_prune_keeps)
qed

lemma reopened_store_ok:
  assumes "entries_ok st"
  shows "store_ok (reopened date_parse now st)"
proof -
  have "valid_limits (ct_maxObjectBytes st) (ct_maxTotalBytes st)" using assms by (simp add: entries_ok_def)
  then obtain st' where st': "BoundedHarnessContentStore date_parse now (ct_directory st) (Some (ct_maxObjectBytes st))
      (Some (ct_maxTotalBytes st)) (ct_bins st) (ct_jsons st) = Inr st'"
    by (simp add: BoundedHarnessContentStore_def Let_def)
  show ?thesis
    using opened_store_ok [OF st'] assms st' by (simp add: reopened_def entries_ok_def)
qed

lemma crashed_entries_ok: "entries_ok st \<Longrightarrow> entries_ok (crashed_publication date_parse h utf8 pb scope v st)"
  by (auto simp: crashed_publication_def Let_def intro: write_files_ok content_prune_keeps split: option.splits)

lemma content_step_ok: "store_ok st \<Longrightarrow> store_ok (content_step ts date_parse h utf8 st c)"
  by (cases c) (auto simp: publish_store_ok read_store_ok intro!: reopened_store_ok crashed_entries_ok simp: store_ok_def [of st])

lemma content_steps_ok: "store_ok st \<Longrightarrow> store_ok (foldl (content_step ts date_parse h utf8) st cs)"
  by (induction cs arbitrary: st) (auto intro: content_step_ok)

definition disk_bytes :: "ContentStore \<Rightarrow> int" where
  "disk_bytes st = sum_list (map (\<lambda>(_, f). int (length (cf_bytes f))) (ct_bins st))"

lemma bodies_within:
  assumes "distinct (map fst es)" and "\<forall>(k, e) \<in> set es. 0 \<le> entry_size e" and "distinct (map fst bins)"
    and "\<forall>(k, f) \<in> set bins. \<exists>e. map_of es k = Some e \<and> int (length (cf_bytes f)) = entry_size e"
  shows "sum_list (map (\<lambda>(_, f). int (length (cf_bytes f))) bins) \<le> total_size es"
  using assms
proof (induction bins arbitrary: es)
  case Nil
  then show ?case by (induction es) auto
next
  case (Cons b bins)
  obtain k f where b: "b = (k, f)" by fastforce
  obtain e where e: "map_of es k = Some e" "int (length (cf_bytes f)) = entry_size e" using Cons.prems(4) b by auto
  let ?es = "AList.delete k es"
  have "\<exists>e. map_of ?es k' = Some e \<and> int (length (cf_bytes f')) = entry_size e" if "(k', f') \<in> set bins" for k' f'
    using that Cons.prems(3,4) b by (force simp: js_map)
  then have "sum_list (map (\<lambda>(_, f). int (length (cf_bytes f))) bins) \<le> total_size ?es"
    using Cons.prems by (intro Cons.IH) (auto simp: AList.distinct_delete delete_entries)
  moreover have "total_size ?es = total_size es - entry_size e"
    using Cons.prems(1) map_of_SomeD [OF e(1)] by (rule total_size_delete)
  ultimately show ?case using e(2) b by simp
qed

lemma disk_bounded: "\<lbrakk>store_ok st; ct_directory st\<rbrakk> \<Longrightarrow> disk_bytes st \<le> ct_maxTotalBytes st"
  using bodies_within [of "ct_entries st" "ct_bins st"]
  by (auto simp: store_ok_def entries_ok_def accounted_def bounded_def disk_bytes_def)

subsection \<open>What is published can be read\<close>

lemma size_of_group:
  assumes "2 \<le> length r"
  shows "size_of_base64 ([w, x, y, z] @ r) = 3 + size_of_base64 r"
proof -
  have tail: "drop (length ([w, x, y, z] @ r) - k) ([w, x, y, z] @ r) = drop (length r - k) r" if "k \<le> 2" for k
  proof -
    have "length ([w, x, y, z] @ r) - k = length [w, x, y, z] + (length r - k)" using assms that by simp
    then show ?thesis by (metis append_eq_conv_conj drop_drop add.commute)
  qed
  have "int (length ([w, x, y, z] @ r)) div 4 = 1 + int (length r) div 4" by simp
  then show ?thesis
    unfolding size_of_base64_def Let_def tail [of 2, simplified] tail [of 1, simplified] tail [OF order_refl]
    using tail [of 1] tail [of 2] by simp
qed

lemma base64_size: "size_of_base64 (b64_encode False b) = int (length b)"
proof (induction False b rule: b64_encode.induct)
  case (4 a b c rest)
  show ?case
  proof (cases "rest = []")
    case True
    have "(of_char c :: nat) mod 64 < 64" by simp
    then show ?thesis
      using b64_char_not_pad [of "of_char c mod 64"] True by (simp add: size_of_base64_def Let_def numeral_2_eq_2)
  next
    case False
    then have "2 \<le> length (b64_encode False rest)" unfolding b64_length by (cases rest) auto
    from size_of_group [OF this] show ?thesis using 4 by (simp add: Let_def)
  qed
next
  case (2 a)
  then show ?case by (simp add: size_of_base64_def Let_def padding_def numeral_2_eq_2)
next
  case (3 a b)
  have "(of_char b :: nat) mod 16 * 4 < 64" using byte_parts(3) of_char_byte by blast
  then show ?case
    using b64_char_not_pad [of "of_char b mod 16 * 4"] by (simp add: size_of_base64_def Let_def padding_def numeral_2_eq_2)
qed (simp add: size_of_base64_def)

text \<open>The object is still held: in memory, or in a file nobody has touched.\<close>

definition retains :: "string \<Rightarrow> HarnessContentReference \<Rightarrow> string \<Rightarrow> ContentStore \<Rightarrow> bool" where
  "retains sid r bytes st \<longleftrightarrow>
     (\<exists>e. map_of (ct_entries st) (cref_content_id r) = Some e \<and> entry_reference e = r
        \<and> hcs_session_id (cm_scope (ce_metadata e)) = sid
        \<and> (case ce_bytes e of
             Some b \<Rightarrow> b = bytes
           | None \<Rightarrow> \<exists>f. map_of (ct_bins st) (cref_content_id r) = Some f \<and> cf_plain f \<and> cf_bytes f = bytes))"

definition describes :: "(string \<Rightarrow> string) \<Rightarrow> HarnessContentReference \<Rightarrow> string \<Rightarrow> bool" where
  "describes h r bytes \<longleftrightarrow> cref_byte_length r = int (length bytes) \<and> cref_sha256 r = h bytes"

definition complete_of :: "content_value \<Rightarrow> complete_content" where
  "complete_of v = (case v of Text_value s \<Rightarrow> Complete_text s | Json_value j \<Rightarrow> Complete_json j | Unserialisable \<Rightarrow> Complete_text [])"

lemma publish_result:
  assumes "publish_content ts date_parse h utf8 pb scope v st = (Inr r, st')"
  obtains encoded where "encode_value v = Some encoded" and "harnessContentReferenceSchema ts r"
    and "describes h r (utf8 encoded)" and "cref_format r = format_of v" and "cref_expires_at r = pb_expires_at pb"
    and "retains (hcs_session_id scope) r (utf8 encoded) st'"
proof -
  obtain encoded where e: "encode_value v = Some encoded"
    using assms by (cases "encode_value v") (auto simp: publish_content_def)
  define st1 where "st1 = prune date_parse (pb_now pb) (int (length (utf8 encoded))) st"
  define m where "m = \<lparr>cm_scope = scope, cm_reference = new_reference h pb v (utf8 encoded)\<rparr>"
  have r: "r = new_reference h pb v (utf8 encoded)" and schema: "harnessContentReferenceSchema ts r"
    using assms e by (auto simp: publish_content_def Let_def split: if_splits)
  have held: "retains (hcs_session_id scope) r (utf8 encoded) st'"
  proof (cases "ct_directory st")
    case False
    then have "st' = st1\<lparr>ct_entries := AList.update (pb_content_id pb)
        \<lparr>ce_metadata = m, ce_bytes = Some (utf8 encoded), ce_verified = None\<rparr> (ct_entries st1)\<rparr>"
      using assms e by (auto simp: publish_content_def Let_def st1_def m_def split: if_splits)
    then show ?thesis by (simp add: retains_def r new_reference_def js_map m_def entry_reference_def)
  next
    case True
    then have "st' = (write_files pb (utf8 encoded) m st1)\<lparr>ct_entries := AList.update (pb_content_id pb)
        \<lparr>ce_metadata = m, ce_bytes = None, ce_verified = None\<rparr> (ct_entries st1)\<rparr>" "pb_bin_written pb" "pb_json_written pb"
      using assms e by (auto simp: publish_content_def Let_def st1_def m_def split: if_splits)
    then show ?thesis
      by (simp add: retains_def r new_reference_def js_map m_def entry_reference_def write_files_def Let_def)
  qed
  show ?thesis
    by (rule that [OF e schema _ _ _ held]) (simp_all add: r describes_def new_reference_def)
qed

definition chunk_of :: "HarnessContentReference \<Rightarrow> string \<Rightarrow> int \<Rightarrow> int \<Rightarrow> HarnessContentChunk" where
  "chunk_of r bytes offset limit =
     (let end_offset = min (cref_byte_length r) (offset + limit) in
      \<lparr>ch_reference = r, ch_offset = offset,
       ch_data_base64 = b64_encode False (take (nat (end_offset - offset)) (drop (nat offset) bytes)),
       ch_next_offset = (if end_offset < cref_byte_length r then Some end_offset else None)\<rparr>)"

lemma entry_body_held:
  assumes "map_of (ct_entries st) (cref_content_id r) = Some e" and "entry_reference e = r" and "describes h r bytes"
    and "case ce_bytes e of Some b \<Rightarrow> b = bytes
         | None \<Rightarrow> \<exists>f. map_of (ct_bins st) (cref_content_id r) = Some f \<and> cf_plain f \<and> cf_bytes f = bytes"
  shows "fst (entry_body h (cref_content_id r) e st) = Inr bytes"
  using assms by (auto simp: entry_body_def describes_def entry_size_def split: option.splits)

lemma read_held:
  assumes "retains sid r bytes st" and "describes h r bytes" and "sha256_text (cref_content_id r)"
    and "now < date_parse (cref_expires_at r)" and "0 \<le> offset" and "offset \<le> cref_byte_length r" and "1 \<le> limit"
    and "limit \<le> 64 * 1024"
  shows "fst (read_content date_parse h now sid (cref_content_id r) offset limit st) = Inr (chunk_of r bytes offset limit)"
proof -
  obtain e where e: "map_of (ct_entries st) (cref_content_id r) = Some e" "entry_reference e = r"
      "hcs_session_id (cm_scope (ce_metadata e)) = sid"
      "case ce_bytes e of Some b \<Rightarrow> b = bytes
       | None \<Rightarrow> \<exists>f. map_of (ct_bins st) (cref_content_id r) = Some f \<and> cf_plain f \<and> cf_bytes f = bytes"
    using assms(1) by (auto simp: retains_def)
  have "require_content date_parse now sid (cref_content_id r) st = Inr e"
    using e(1-3) assms(3,4) by (simp add: require_content_def)
  moreover obtain st1 where "entry_body h (cref_content_id r) e st = (Inr bytes, st1)"
    using entry_body_held [OF e(1,2) assms(2) e(4)] by (cases "entry_body h (cref_content_id r) e st") auto
  ultimately show ?thesis
    using assms(5-8) e(2) by (simp add: read_content_def chunk_of_def Let_def entry_size_def)
qed

lemma read_keeps:
  assumes "retains sid r bytes st"
  shows "retains sid r bytes (snd (read_content date_parse h now sid' i offset limit st))"
proof -
  have "retains sid r bytes (snd (entry_body h i e st))" if "map_of (ct_entries st) i = Some e" for e
    using assms that by (auto simp: entry_body_def retains_def js_map entry_reference_def split: option.splits)
  then show ?thesis
    using read_state [of date_parse h now sid' i offset limit st] assms by auto
qed

lemma chunk_schema:
  assumes "harnessContentReferenceSchema ts r" and "cref_byte_length r = int (length bytes)" and "0 \<le> offset"
    and "offset \<le> cref_byte_length r" and "1 \<le> limit" and "limit \<le> 64 * 1024"
  shows "harnessContentChunkSchema ts (chunk_of r bytes offset limit)"
proof -
  let ?stop = "min (cref_byte_length r) (offset + limit)"
  define part where "part = take (nat (?stop - offset)) (drop (nat offset) bytes)"
  have size_part: "int (length part) = ?stop - offset"
    using assms(2-5) by (simp add: part_def)
  have "length part \<le> 65536" using size_part assms(6) by linarith
  then have "(length part + 2) div 3 \<le> 21846" by linarith
  then have "length (b64_encode False part) \<le> 87384" unfolding b64_length by simp
  moreover have "cref_byte_length r \<le> HARNESS_CONTENT_MAX_BYTES" using assms(1) by (simp add: harnessContentReferenceSchema_def)
  moreover have "chunk_of r bytes offset limit = \<lparr>ch_reference = r, ch_offset = offset, ch_data_base64 = b64_encode False part,
      ch_next_offset = (if ?stop < cref_byte_length r then Some ?stop else None)\<rparr>"
    by (simp add: chunk_of_def Let_def part_def)
  ultimately show ?thesis
    using assms size_part
    by (auto simp: harnessContentChunkSchema_def Let_def base64_size canonical_base64_def b64_roundtrip)
qed

lemma read_chunks_complete:
  assumes "\<And>i offset. \<lbrakk>0 \<le> offset; offset \<le> int (length bytes)\<rbrakk> \<Longrightarrow> peer i offset chunkSize = Inr (chunk_of r bytes offset chunkSize)"
    and "harnessContentReferenceSchema ts r" and "cref_byte_length r = int (length bytes)" and "1 \<le> chunkSize"
    and "chunkSize \<le> 64 * 1024"
    and "k \<le> length bytes" and "0 < n" and "int (length bytes) - int k \<le> int n * chunkSize"
  shows "read_chunks ts peer r chunkSize n i (take k bytes) = Inr bytes"
  using assms(6-8)
proof (induction n arbitrary: k i)
  case (Suc n)
  let ?len = "int (length bytes)" and ?stop = "min (int (length bytes)) (int k + chunkSize)"
  define part where "part = take (nat (?stop - int k)) (drop k bytes)"
  have l: "int (length (take k bytes)) = int k" using Suc.prems(1) by simp
  have peer: "peer i (int k) chunkSize = Inr (chunk_of r bytes (int k) chunkSize)"
    using Suc.prems(1) by (intro assms(1)) auto
  have schema: "harnessContentChunkSchema ts (chunk_of r bytes (int k) chunkSize)"
    using chunk_schema [OF assms(2,3) _ _ assms(4,5)] Suc.prems(1) assms(3) by simp
  have size_part: "int (length part) = ?stop - int k" using Suc.prems(1) assms(4) by (simp add: part_def)
  have whole: "take k bytes @ part = take (k + length part) bytes"
    by (simp add: part_def take_add [symmetric] min_def)
  have data: "ch_data_base64 (chunk_of r bytes (int k) chunkSize) = b64_encode False part"
    "ch_reference (chunk_of r bytes (int k) chunkSize) = r" "ch_offset (chunk_of r bytes (int k) chunkSize) = int k"
    "ch_next_offset (chunk_of r bytes (int k) chunkSize) = (if ?stop < ?len then Some ?stop else None)"
    by (simp_all add: chunk_of_def Let_def assms(3) part_def)
  show ?case
  proof (cases "?stop < ?len")
    case True
    then have "?stop = int k + chunkSize" by simp
    then have "int (length part) = chunkSize" using size_part by simp
    then have "k + length part \<le> length bytes" "?len - int (k + length part) \<le> int n * chunkSize" "0 < n"
      using True Suc.prems(3) \<open>?stop = _\<close> by (auto simp: algebra_simps intro!: Nat.gr0I)
    from Suc.IH [OF this(1,3,2)] show ?thesis
      using True peer schema size_part assms(4) by (simp add: l data b64_roundtrip whole)
  next
    case False
    then have "k + length part = length bytes" using size_part by linarith
    then show ?thesis
      using False peer schema size_part assms(4) by (simp add: l data b64_roundtrip whole)
  qed
qed simp

subsection \<open>The properties\<close>

text \<open>The options a reader may use for an object: sizes in range, and enough chunks of that size.\<close>

definition options_allow :: "complete_options \<Rightarrow> HarnessContentReference \<Rightarrow> bool" where
  "options_allow opts r \<longleftrightarrow>
     (let maxBytes = option_default (co_maxBytes opts) HARNESS_CONTENT_MAX_BYTES;
          maxChunks = option_default (co_maxChunks opts) 2048;
          chunkSize = option_default (co_chunkSize opts) (64 * 1024) in
      within HARNESS_CONTENT_MAX_BYTES maxBytes \<and> within 8192 maxChunks \<and> within (64 * 1024) chunkSize
      \<and> cref_byte_length r \<le> maxBytes \<and> cref_byte_length r \<le> maxChunks * chunkSize)"

lemma default_options_allow:
  "cref_byte_length r \<le> HARNESS_CONTENT_MAX_BYTES \<Longrightarrow>
     options_allow \<lparr>co_maxBytes = None, co_maxChunks = None, co_chunkSize = None\<rparr> r"
  by (simp add: options_allow_def option_default_def within_def HARNESS_CONTENT_MAX_BYTES_def)

lemma chunk_count:
  assumes "1 \<le> (c :: int)" and "len \<le> m * c" and "1 \<le> m"
  shows "max 1 ((len + c - 1) div c) \<le> m"
proof -
  have "(len + c - 1) div c \<le> (m * c + (c - 1)) div c" using assms by (intro zdiv_mono1) auto
  also have "\<dots> = m" using assms(1) by simp
  finally show ?thesis using assms(3) by simp
qed

definition is_read :: "content_call \<Rightarrow> bool" where
  "is_read c = (case c of Reads _ _ _ _ _ \<Rightarrow> True | _ \<Rightarrow> False)"

lemma reads_keep:
  "\<lbrakk>retains sid r bytes st; \<forall>c \<in> set cs. is_read c\<rbrakk> \<Longrightarrow> retains sid r bytes (foldl (content_step ts date_parse h utf8) st cs)"
  by (induction cs arbitrary: st) (auto simp: is_read_def read_keeps split: content_call.splits)

lemma decode_published:
  assumes "encode_value v = Some encoded" and "cref_format r = format_of v" and "decode_utf8 (utf8 encoded) = Some encoded"
    and "\<forall>j. v = Json_value j \<longrightarrow> distinct_keys j"
  shows "decode_content decode_utf8 r (utf8 encoded) = Inr (complete_of v)"
  using assms
  by (cases v) (auto simp: decode_content_def encode_value_def format_of_def complete_of_def json_parse_render)

text \<open>C16: A text or JSON value that the runner published is read back exactly by the control plane, with any chunk
  size, in memory or from disk, whatever other reads happen in between, as long as it has not expired.\<close>

theorem published_content_is_read:
  assumes "publish_content ts date_parse h utf8 pb scope v st = (Inr r, st')"
    and "\<forall>i. \<exists>reads. (\<forall>c \<in> set reads. is_read c) \<and> sts i = foldl (content_step ts date_parse h utf8) st' reads"
    and "\<forall>i. now i < date_parse (pb_expires_at pb)" and "options_allow opts r"
    and "\<forall>s. decode_utf8 (utf8 s) = Some s" and "\<forall>j. v = Json_value j \<longrightarrow> distinct_keys j"
  shows "readHcpContent ts h decode_utf8 True
      (\<lambda>i offset limit. fst (read_content date_parse h (now i) (hcs_session_id scope) (cref_content_id r) offset limit (sts i)))
      r opts = Inr (complete_of v)"
proof -
  obtain encoded where e: "encode_value v = Some encoded" "harnessContentReferenceSchema ts r" "describes h r (utf8 encoded)"
      "cref_format r = format_of v" "cref_expires_at r = pb_expires_at pb" "retains (hcs_session_id scope) r (utf8 encoded) st'"
    using publish_result [OF assms(1)] by metis
  let ?bytes = "utf8 encoded" and ?c = "option_default (co_chunkSize opts) (64 * 1024)"
    and ?m = "option_default (co_maxChunks opts) 2048"
  let ?peer = "\<lambda>i offset limit. fst (read_content date_parse h (now i) (hcs_session_id scope) (cref_content_id r) offset limit (sts i))"
  have held: "retains (hcs_session_id scope) r ?bytes (sts i)" for i
    using assms(2) reads_keep [OF e(6)] by metis
  have len: "cref_byte_length r = int (length ?bytes)" using e(3) by (simp add: describes_def)
  have opts: "1 \<le> ?c" "?c \<le> 64 * 1024" "1 \<le> ?m" "int (length ?bytes) \<le> ?m * ?c"
    using assms(4) len by (simp_all add: options_allow_def Let_def within_def)
  have "?peer i offset ?c = Inr (chunk_of r ?bytes offset ?c)" if "0 \<le> offset" "offset \<le> int (length ?bytes)" for i offset
    using that opts e assms(3) len
    by (intro read_held [OF held]) (auto simp: harnessContentReferenceSchema_def)
  then have "read_chunks ts ?peer r ?c (nat ?m) 0 (take 0 ?bytes) = Inr ?bytes"
    by (rule read_chunks_complete [OF _ e(2) len opts(1,2)]) (use opts in auto)
  moreover have "max 1 ((cref_byte_length r + ?c - 1) div ?c) \<le> ?m"
    by (rule chunk_count) (use opts len in auto)
  ultimately show ?thesis
    using assms(4) e(2,3) decode_published [OF e(1,4) _ assms(6), of decode_utf8 utf8] assms(5)
    by (simp add: readHcpContent_def Let_def options_allow_def describes_def not_less)
qed

text \<open>C17: Whatever peer answers the reads, a complete read of a published reference that is accepted gives the
  published value, if no other bytes have its hash: chunks that are changed, missing, repeated or out of order are
  never taken for the content.\<close>

theorem complete_read_is_authentic:
  assumes "publish_content ts date_parse h utf8 pb scope v st = (Inr r, st')"
    and "readHcpContent ts h decode_utf8 subtle peer r opts = Inr content"
    and "\<forall>encoded b. encode_value v = Some encoded \<and> h b = cref_sha256 r \<longrightarrow> b = utf8 encoded"
    and "\<forall>s. decode_utf8 (utf8 s) = Some s" and "\<forall>j. v = Json_value j \<longrightarrow> distinct_keys j"
  shows "content = complete_of v"
proof -
  obtain encoded where e: "encode_value v = Some encoded" "cref_format r = format_of v"
    using publish_result [OF assms(1)] by metis
  obtain bytes where "h bytes = cref_sha256 r" "decode_content decode_utf8 r bytes = Inr content"
    using assms(2) by (auto simp: readHcpContent_def Let_def split: if_splits sum.splits)
  then show ?thesis
    using assms(3,4) e decode_published [OF e _ assms(5), of decode_utf8 utf8] by auto
qed

text \<open>C18: Over any history of publications, reads, restarts and crashes, even between the two files of a publication,
  with failing writes and any clock, the store holds at most 1024 objects and the configured number of bytes, and
  the bodies in its directory stay within the same quota.\<close>

theorem content_store_bounded:
  assumes "BoundedHarnessContentStore date_parse now directory maxObject maxTotal bins jsons = Inr st0"
    and "distinct (map fst bins)" and "distinct (map fst jsons)"
    and "st = foldl (content_step ts date_parse h utf8) st0 calls"
  shows "length (ct_entries st) \<le> 1024 \<and> total_size (ct_entries st) \<le> ct_maxTotalBytes st
    \<and> ct_maxTotalBytes st \<le> HARNESS_CONTENT_STORE_MAX_BYTES
    \<and> (if ct_directory st then disk_bytes st else 0) \<le> ct_maxTotalBytes st"
proof -
  have ok: "store_ok st"
    unfolding assms(4) by (rule content_steps_ok [OF opened_store_ok [OF assms(1-3)]])
  then show ?thesis
    using disk_bounded [OF ok] by (auto simp: store_ok_def bounded_def entries_ok_def valid_limits_def)
qed

subsection \<open>An object of two bytes\<close>

definition sample_digest :: "string \<Rightarrow> string" where
  "sample_digest b = (if b = ''hi'' then replicate 64 (CHR ''a'') else [])"

definition sample_scope :: HarnessContentScope where
  "sample_scope = \<lparr>hcs_session_id = ''s'', hcs_provider_instance_id = ''p'', hcs_provider_binding_hash = ''h'',
     hcs_workspace_id = ''w'', hcs_cwd = ''/w''\<rparr>"

definition sample_publication :: publication where
  "sample_publication = \<lparr>pb_content_id = replicate 64 (CHR ''b''), pb_now = 0, pb_expires_at = ''t'', pb_signature = 1,
     pb_bin_written = True, pb_json_written = True\<rparr>"

definition empty_content_store :: ContentStore where
  "empty_content_store = \<lparr>ct_directory = True, ct_maxObjectBytes = 10, ct_maxTotalBytes = 20, ct_entries = [], ct_bins = [],
     ct_jsons = []\<rparr>"

definition sample_reference :: HarnessContentReference where
  "sample_reference = new_reference sample_digest sample_publication (Text_value ''hi'') ''hi''"

definition published_store :: ContentStore where
  "published_store =
     snd (publish_content (\<lambda>_. True) (\<lambda>_. 10) sample_digest id sample_publication sample_scope (Text_value ''hi'') empty_content_store)"

definition byte_by_byte :: complete_options where
  "byte_by_byte = \<lparr>co_maxBytes = None, co_maxChunks = Some 2, co_chunkSize = Some 1\<rparr>"

lemma sample_opened:
  "BoundedHarnessContentStore (\<lambda>_. 10) 0 True (Some 10) (Some 20) [] [] = Inr empty_content_store"
  by (simp add: BoundedHarnessContentStore_def valid_limits_def HARNESS_CONTENT_MAX_BYTES_def HARNESS_CONTENT_STORE_MAX_BYTES_def
      prune_def empty_content_store_def)

lemma sample_published:
  "publish_content (\<lambda>_. True) (\<lambda>_. 10) sample_digest id sample_publication sample_scope (Text_value ''hi'') empty_content_store
     = (Inr sample_reference, published_store)"
  by (simp add: published_store_def publish_content_def encode_value_def empty_content_store_def sample_publication_def
      sample_reference_def new_reference_def sample_digest_def harnessContentReferenceSchema_def sha256_text_def hexadecimal_def
      is_digit_def HARNESS_CONTENT_MAX_BYTES_def format_of_def prune_def Let_def list_all_iff)

lemma byte_by_byte_allowed: "options_allow byte_by_byte sample_reference"
  by (simp add: options_allow_def byte_by_byte_def option_default_def within_def sample_reference_def new_reference_def
      HARNESS_CONTENT_MAX_BYTES_def)

lemma published_content_is_read_witness:
  "readHcpContent (\<lambda>_. True) sample_digest Some True
      (\<lambda>i offset limit. fst (read_content (\<lambda>_. 10) sample_digest 1 (hcs_session_id sample_scope)
         (cref_content_id sample_reference) offset limit published_store))
      sample_reference byte_by_byte = Inr (Complete_text ''hi'')"
proof -
  have "\<forall>i :: nat. \<exists>reads. (\<forall>c \<in> set reads. is_read c)
      \<and> published_store = foldl (content_step (\<lambda>_. True) (\<lambda>_. 10) sample_digest id) published_store reads"
    by (intro allI exI [of _ "[]"]) simp
  from published_content_is_read [OF sample_published this, of "\<lambda>_. 1" byte_by_byte Some]
  show ?thesis by (simp add: byte_by_byte_allowed complete_of_def)
qed

definition honest_peer :: content_peer where
  "honest_peer = (\<lambda>i offset limit. Inr (chunk_of sample_reference ''hi'' offset limit))"

lemma sample_read:
  "readHcpContent (\<lambda>_. True) sample_digest Some True honest_peer sample_reference byte_by_byte = Inr (Complete_text ''hi'')"
proof -
  obtain encoded where e: "encode_value (Text_value ''hi'') = Some encoded" "harnessContentReferenceSchema (\<lambda>_. True) sample_reference"
      "describes sample_digest sample_reference (id encoded)" "cref_format sample_reference = format_of (Text_value ''hi'')"
    using publish_result [OF sample_published] by metis
  have hi: "encoded = ''hi''" using e(1) by (simp add: encode_value_def)
  have "read_chunks (\<lambda>_. True) honest_peer sample_reference 1 2 0 (take 0 ''hi'') = Inr ''hi''"
    by (rule read_chunks_complete [OF _ e(2)]) (use e(3) hi in \<open>simp_all add: honest_peer_def describes_def\<close>)
  then show ?thesis
    using e hi by (simp add: readHcpContent_def byte_by_byte_def option_default_def within_def HARNESS_CONTENT_MAX_BYTES_def
        describes_def decode_content_def format_of_def)
qed

lemma complete_read_is_authentic_witness: "Complete_text ''hi'' = complete_of (Text_value ''hi'')"
proof (rule complete_read_is_authentic [OF sample_published sample_read])
  show "\<forall>encoded b. encode_value (Text_value ''hi'') = Some encoded \<and> sample_digest b = cref_sha256 sample_reference \<longrightarrow> b = id encoded"
    by (auto simp: encode_value_def sample_reference_def new_reference_def sample_digest_def split: if_splits)
qed simp_all

lemma content_store_bounded_witness:
  "length (ct_entries published_store) \<le> 1024 \<and> total_size (ct_entries published_store) \<le> ct_maxTotalBytes published_store
   \<and> ct_maxTotalBytes published_store \<le> HARNESS_CONTENT_STORE_MAX_BYTES
   \<and> (if ct_directory published_store then disk_bytes published_store else 0) \<le> ct_maxTotalBytes published_store"
proof -
  have "published_store = foldl (content_step (\<lambda>_. True) (\<lambda>_. 10) sample_digest id) empty_content_store
      [Publishes sample_publication sample_scope (Text_value ''hi'')]"
    by (simp add: published_store_def)
  from content_store_bounded [OF sample_opened _ _ this] show ?thesis by simp
qed

end
