(* ===== verification/Spec2Isabelle.thy ===== *)
theory Spec2Isabelle
  imports Runner_Connection Native_Ledger Input_File_Custody Mcp_Calls Host_Answers Work_Roster Content_Custody
begin

text \<open>
  A verification library of the harness control protocol: a control plane drives coding agents
  (\<^emph>\<open>harnesses\<close>) that run on a user's machine under a \<^emph>\<open>runner\<close>.  The two exchange messages over a
  socket that may be lost at any time; the runner may be restarted; what it may do on the machine is
  limited by leases.  The library models the runner's own logic and the control plane's end of the
  connection (\<open>packages/hcp-runner/src\<close>, \<open>packages/hcp-protocol/src\<close>, \<open>packages/hcp-sdk/src\<close>) and proves
  what the two promise each other.

  \<^bold>\<open>How the parts interact.\<close>  A message arrives at \<open>RunnerConnection\<close>.  A command is answered once per
  id and its receipt kept in the state store; a local action goes to the dispatcher, which resolves the
  context of its session, lets the executor run the action under a lease and a sandbox, and emits the
  action's events.  Events are numbered and retained by the state store and sent over the socket; after
  a reconnect they are replayed from the control plane's resume cursor, or replaced by a snapshot, and
  the reducer rebuilds the history.  The state store also keeps the evidence of what native providers
  were asked to do, and the reviews of MCP tool calls, and persists everything to one file.  A tool call
  that needs a review is shown, decided, dispatched and, when its server asks for input, continued in
  rounds, each of which survives a restart.  Files a user attaches go through the input-file store before
  they are delivered to an agent.  On the other side \<open>HcpHostConnection\<close> matches what the runner sends with
  the commands and waits of its application; large texts are published by the runner and fetched in
  chunks, and the roster of native work is read in pages.

  \<^bold>\<open>Theories and code.\<close>

  \<^item> \<^emph>\<open>Foundations.\<close>  \<open>Prelude\<close>: results, JavaScript's maps, strings.  \<open>Json\<close>, \<open>Json_Parse\<close>,
    \<open>Base64\<close>: JSON values, their canonical and plain rendering, \<open>JSON.parse\<close>, buffers.  \<open>Effects\<close>,
    \<open>Effect_Wp\<close>: stateful code that throws or never returns, and its weakest preconditions.
    \<open>Posix_Path\<close>, \<open>File_System\<close>: Node's \<open>path\<close> and \<open>fs\<close> by their POSIX behaviour, with symbolic links.
  \<^item> \<^emph>\<open>Wire protocol\<close> (\<open>hcp-protocol/src/index.ts\<close>).  \<open>Protocol\<close>: errors, acknowledgements, cursors,
    leases, events, snapshots.  \<open>Local_Action_Types\<close>, \<open>Local_Action_Contract\<close>: requests, responses and
    errors of local actions with their schemas and refinements.
  \<^item> \<^emph>\<open>Events.\<close>  \<open>Event_Interfaces\<close>: the two sides of replication as locales.  \<open>Session_Reducer\<close>
    (\<open>session-reducer.ts\<close>): the reducer, a refinement of an append-only log.  \<open>State_Store\<close>
    (\<open>state/index.ts\<close>): retained events, receipts, persistence, reopening.  \<open>Event_Replication\<close>
    (\<open>replayEventsAfter\<close> and \<open>sessionSnapshot\<close> of \<open>harnesses/index.ts\<close>): the composition of both.
  \<^item> \<^emph>\<open>Local actions\<close> (\<open>local-actions/*.ts\<close>, \<open>mcp/redaction.ts\<close>).  \<open>Lease_Policy\<close>: the lease manager
    and the policy engine.  \<open>Workspace_Paths\<close>, \<open>Executor_State\<close>, \<open>File_Actions\<close>, \<open>Unified_Diff\<close>,
    \<open>Process_Runner\<close>, \<open>Process_Actions\<close>, \<open>Dev_Servers\<close>, \<open>Redaction\<close>: the executor, from the resolution
    of a path to the wait for a process tree's end.  \<open>Dispatcher\<close>: \<open>LocalActionDispatcher\<close>.
  \<^item> \<^emph>\<open>Connection.\<close>  \<open>Runner_Connection\<close> (\<open>connection/runner-connection.ts\<close>): a step relation whose
    handlers are cut where they await, with sockets, timers, receipts and restarts.
  \<^item> \<^emph>\<open>Evidence and custody.\<close>  \<open>Native_Records\<close>, \<open>Durable_Store\<close>, \<open>Native_Ledger\<close> (\<open>state/*.ts\<close>):
    native-work states and retained conversations.  \<open>Input_Files\<close>, \<open>Input_File_Custody\<close>
    (\<open>harnesses/input-files.ts\<close>): uploads, sealing, delivery and retention.
  \<^item> \<^emph>\<open>MCP review.\<close>  \<open>Mcp_Review\<close> (\<open>state/mcp-review.ts\<close>, \<open>mcp/input-required.ts\<close>, \<open>hcp-protocol/src/mcp-review.ts\<close>):
    the durable record, its schemas and transitions, saving and clearing.  \<open>Mcp_Continuation\<close>
    (\<open>harnesses/mcp-review.ts\<close>): the operations of \<open>HarnessMcpReview\<close>.  \<open>Mcp_Operations\<close>: a step relation of
    requests, decisions, replies, calls, expiries and restarts.  \<open>Mcp_Safety\<close>, \<open>Mcp_Calls\<close>: what one
    operation may do to the review, the invariant, and the properties of the calls.
  \<^item> \<^emph>\<open>Control plane.\<close>  \<open>Host_Commands\<close> (\<open>hcp-sdk/src/commands.ts\<close>, \<open>hcp-protocol/src/conversation.ts\<close>): the
    commands.  \<open>Host_Connection\<close> (\<open>hcp-sdk/src/connection.ts\<close>): \<open>HcpHostConnection\<close>, one function per method
    and a trace of what it settles; \<open>Host_Promises\<close>, \<open>Host_Answers\<close>: promises and what answers them.
    \<open>Account_Usage\<close> (\<open>hcp-protocol/src/accounts.ts\<close>): \<open>HcpAccountUsageReducer\<close>.
  \<^item> \<^emph>\<open>Transfers.\<close>  \<open>Work_Roster\<close> (\<open>harnesses/native-work-page.ts\<close> and \<open>readNativeWorkInventory\<close>): the two
    ends of paged reading.  \<open>Content_Transfer\<close>, \<open>Content_Custody\<close> (\<open>harnesses/content-store.ts\<close>,
    \<open>hcp-sdk/src/content.ts\<close>): the content store, the complete read and their composition.

  A record of the model has the fields of the TypeScript type it stands for, under the same names with
  a prefix where two types share one; a class is its state record and one definition per method, from
  the state to the result and the next state.  A thrown error is the left side of a sum, with the state
  the throw leaves behind, since nothing is rolled back that the code does not roll back itself.

  \<^bold>\<open>What the lemmas show.\<close>  A locale states a contract where one part relies on another: the two ends of
  replication, the frame of an \<open>await\<close> chain, the operations of a store that keep its invariant; each is
  interpreted on the model's own definitions.  For every component an invariant is shown to hold in all
  reachable states, with failed writes and restarts among the steps: retained logs are contiguous
  suffixes, evidence is never erased, delivered files stay, dev servers end with their session, reviewed
  tools are called as they were accepted and once, a promise of the control plane is settled once and by
  its own answer.  The
  functional lemmas say what an operation does on each branch, errors included, and the properties
  that span components are proved from both sides' contracts: a resumed control plane has the runner's
  whole history, or is told that retention has lost a part of it; a command is handled once across
  sockets and restarts; nothing outside the workspace changes, and nothing runs that the lease does not
  permit.

  \<^bold>\<open>Parameters.\<close>  What lies outside the code is an argument: the clock, \<open>Date.parse\<close>, locale
  comparison, \<open>RegExp\<close>, SHA-256, the UTF-8 codec, zod's timestamp check, the MCP packages' types and form
  validator, the runtime that starts
  processes and calls back, the order in which timers, sockets and answers arrive, and which writes
  fail.  A theorem states as a hypothesis what it needs of one of them: that parsing a time is monotone
  on the times the clock writes, or that an order is total.

  \<^bold>\<open>Bounds and fuel.\<close>  Numbers are unbounded integers: every number the code computes with is a count,
  a size or a time in milliseconds, far below the precision of a double, and is checked by a schema
  where it comes from outside.  Directory walks and the JSON parser recurse on fuel; the fuel is the
  size of the tree or the length of the text, and it is proved that they return with it.  Paged reads
  recurse on the number of pages the options allow.  Following
  symbolic links is limited to \<open>MAXSYMLINKS\<close>, as in the kernel.  Waiting code may never return; where it
  does, a theorem says so.

  \<^bold>\<open>Not modelled.\<close>  The adapters of the single providers (\<open>harnesses/adapters\<close>) translate between this
  protocol and the formats of third-party programs and libraries that are not in the repository.  The
  rest of \<open>HarnessSessionManager\<close> drives those adapters; of its own logic the event replay, the
  snapshots and the resumption of MCP reviews are modelled.  The MCP client, proxy and stdio profiles (\<open>mcp\<close>) wrap a third-party SDK.
  Accounts, workspaces, pairing and the configuration call external programs, HTTP services and the
  operating system's key store.  The SDK's projections of events into texts, plans and histories, the generated JSON schema, the conformance
  fixtures, the mock control plane, the sample MCP server, the demos and the examples are clients of
  the modelled code or generated from it.  Modelled calls of the file system are atomic: no other
  process changes the tree between two steps of one call.
\<close>

end
